(* ===== verification/Prelude.thy ===== *)
theory Prelude
  imports Main "HOL-Library.List_Lexorder"
begin

text \<open>
  Shared vocabulary of the development: Python's text and byte strings, the exceptions the
  modelled modules raise, the result type that carries them, and the two combinators every
  operation is written with. \<open>require c e k\<close> is the sources' guard
  \<^verbatim>\<open>if not c: raise e\<close> followed by the continuation \<open>k\<close>; \<open>rbind m f\<close> runs \<open>m\<close> and
  hands its value to \<open>f\<close> unless \<open>m\<close> raised. Their inversion rules are simp rules, so a
  hypothesis \<open>f x = Inr y\<close> unfolds into the conjunction of the guards of \<open>f\<close>.
\<close>

section \<open>Python values\<close>

text \<open>
  A Python \<open>str\<close> is a sequence of code points (surrogates included), a \<open>bytes\<close> value a
  sequence of integers below 256. \<open>ustr\<close> turns an ASCII literal into a \<open>str\<close>.
\<close>

type_synonym pystr = "nat list"
type_synonym bytes = "nat list"

text \<open>SHA-256 in hexadecimal is a parameter of everything that computes digests.\<close>

type_synonym digest_fun = "bytes \<Rightarrow> pystr"

definition ustr :: "string \<Rightarrow> pystr" where
  "ustr s = map of_char s"

definition is_bytes :: "bytes \<Rightarrow> bool" where
  "is_bytes b \<longleftrightarrow> (\<forall>x\<in>set b. x < 256)"

text \<open>The lower-case hexadecimal digits, and the 64-digit form of a SHA-256 digest.\<close>

definition is_hex :: "nat \<Rightarrow> bool" where
  "is_hex c \<longleftrightarrow> 48 \<le> c \<and> c \<le> 57 \<or> 97 \<le> c \<and> c \<le> 102"

definition is_hex64 :: "pystr \<Rightarrow> bool" where
  "is_hex64 s \<longleftrightarrow> length s = 64 \<and> list_all is_hex s"

section \<open>Exceptions and results\<close>

datatype exn =
    CampaignCodecError string
  | CampaignPublicationUncertain string
  | CampaignContractError string
  | CampaignStateError string
  | SyntheticEvidenceError string
  | ControllerError string
  | ApprovalDenied string
  | RecoveryDenied string
  | InjectedFailure pystr
  | InjectedUncertainty pystr
  | InjectedSignal pystr
  | InjectedCrash pystr
  | JSONDecodeError string
  | PyValueError string
  | PyRecursionError
  | PyKeyError
  | PyIndexError
  | PyTypeError string
  | PyOverflowError
  | ElfParseError
  | OSError string
  | ArchivePreflightError
  | RootfsModelError
  | RootfsPlanError
  | CanonicalError
  | FdMapError string
  | PyUnicodeError
  | VerificationError "string option"
  | CoordinatorError string
  | NetworkError string
  | RuntimeClosureError bool
  | StructError

type_synonym 'a result = "exn + 'a"

definition require :: "bool \<Rightarrow> exn \<Rightarrow> 'a result \<Rightarrow> 'a result" where
  "require c e k = (if c then k else Inl e)"

definition rbind :: "'a result \<Rightarrow> ('a \<Rightarrow> 'b result) \<Rightarrow> 'b result" where
  "rbind m f = (case m of Inl e \<Rightarrow> Inl e | Inr x \<Rightarrow> f x)"

text \<open>A \<open>for\<close> loop whose body only checks, and one that collects values.\<close>

fun check_all :: "('a \<Rightarrow> unit result) \<Rightarrow> 'a list \<Rightarrow> unit result" where
  "check_all f [] = Inr ()"
| "check_all f (x # xs) = rbind (f x) (\<lambda>_. check_all f xs)"

fun map_result :: "('a \<Rightarrow> 'b result) \<Rightarrow> 'a list \<Rightarrow> 'b list result" where
  "map_result f [] = Inr []"
| "map_result f (x # xs) = rbind (f x) (\<lambda>y. rbind (map_result f xs) (\<lambda>ys. Inr (y # ys)))"

lemma require_Inr [simp]: "require c e k = Inr x \<longleftrightarrow> c \<and> k = Inr x"
  by (simp add: require_def)

lemma require_Inl: "require c e k = Inl e' \<longleftrightarrow> (\<not> c \<and> e' = e) \<or> (c \<and> k = Inl e')"
  by (auto simp: require_def)

lemma require_True [simp]: "require True e k = k"
  by (simp add: require_def)

lemma require_False [simp]: "require False e k = Inl e"
  by (simp add: require_def)

lemma rbind_Inr_left [simp]: "rbind (Inr x) f = f x"
  by (simp add: rbind_def)

lemma rbind_Inl_left [simp]: "rbind (Inl e) f = Inl e"
  by (simp add: rbind_def)

lemma rbind_Inr [simp]: "rbind m f = Inr y \<longleftrightarrow> (\<exists>x. m = Inr x \<and> f x = Inr y)"
  by (cases m) (simp_all add: rbind_def)

lemma rbind_Inl: "rbind m f = Inl e \<longleftrightarrow> m = Inl e \<or> (\<exists>x. m = Inr x \<and> f x = Inl e)"
  by (cases m) (simp_all add: rbind_def)

lemma require_cong [cong]: "c = c' \<Longrightarrow> (c' \<Longrightarrow> k = k') \<Longrightarrow> require c e k = require c' e k'"
  by (simp add: require_def)

lemma rbind_cong [fundef_cong]:
  "m = m' \<Longrightarrow> (\<And>x. m' = Inr x \<Longrightarrow> f x = f' x) \<Longrightarrow> rbind m f = rbind m' f'"
  by (cases m') (auto simp: rbind_def)

lemma require_fundef_cong [fundef_cong]:
  "c = c' \<Longrightarrow> (c' \<Longrightarrow> k = k') \<Longrightarrow> require c e k = require c' e k'"
  by (simp add: require_def)

lemma check_all_Inr [simp]: "check_all f xs = Inr () \<longleftrightarrow> (\<forall>x\<in>set xs. f x = Inr ())"
  by (induction xs) auto

lemma map_result_all2: "map_result f xs = Inr ys \<longleftrightarrow> list_all2 (\<lambda>x y. f x = Inr y) xs ys"
  by (induction xs arbitrary: ys) (auto simp: list_all2_Cons1)

lemma not_Inl_imp_Inr: "(\<And>e. m \<noteq> Inl e) \<Longrightarrow> \<exists>x. m = Inr x"
  by (cases m) auto

section \<open>Lists\<close>

lemma distinct_map_fst_eq: "distinct (map fst xs) \<Longrightarrow> (k, v) \<in> set xs \<Longrightarrow> map_of xs k = Some v"
  by simp

lemma nth_take_append: "i < length xs \<Longrightarrow> (xs @ ys) ! i = xs ! i"
  by (simp add: nth_append)

lemma is_hex64_length [simp]: "is_hex64 s \<Longrightarrow> length s = 64"
  by (simp add: is_hex64_def)

lemma is_hex_less: "is_hex c \<Longrightarrow> c < 128"
  by (auto simp: is_hex_def)

lemma ustr_append: "ustr (s @ t) = ustr s @ ustr t"
  by (simp add: ustr_def)

lemma ustr_inj [simp]: "ustr s = ustr t \<longleftrightarrow> s = t"
proof -
  have "inj (of_char :: char \<Rightarrow> nat)"
    by (rule injI) simp
  then show ?thesis
    by (simp add: ustr_def inj_map_eq_map)
qed

end
