(* ===== verification/Json.thy ===== *)
theory Json
  imports Prelude "HOL-Library.Multiset"
begin

text \<open>
  What the sources use of Python's standard library for text: strict UTF-8
  (\<^verbatim>\<open>str.encode\<close>, \<^verbatim>\<open>bytes.decode\<close>), decimal integers, and the \<^verbatim>\<open>json\<close> module with
  \<^verbatim>\<open>dumps(ensure_ascii=False, separators=(",", ":"), sort_keys=True)\<close> and
  \<^verbatim>\<open>loads\<close> with its four hooks. The scanner runs on fuel; \<open>scan_enough_fuel\<close> shows that the
  fuel \<open>json_loads\<close> starts with is never exhausted. The main results are
  \<open>utf8_roundtrip\<close> and, in the locale \<open>json_hooks\<close>, that scanning a printed value gives the
  value back, whatever follows it.
\<close>

section \<open>UTF-8\<close>

definition is_surrogate :: "nat \<Rightarrow> bool" where
  "is_surrogate c \<longleftrightarrow> 55296 \<le> c \<and> c \<le> 57343"

definition is_scalar :: "nat \<Rightarrow> bool" where
  "is_scalar c \<longleftrightarrow> c \<le> 1114111 \<and> \<not> is_surrogate c"

definition utf8_char :: "nat \<Rightarrow> bytes" where
  "utf8_char c =
     (if c < 128 then [c]
      else if c < 2048 then [192 + c div 64, 128 + c mod 64]
      else if c < 65536 then [224 + c div 4096, 128 + (c div 64) mod 64, 128 + c mod 64]
      else [240 + c div 262144, 128 + (c div 4096) mod 64, 128 + (c div 64) mod 64,
            128 + c mod 64])"

definition utf8_encode :: "pystr \<Rightarrow> bytes option" where
  "utf8_encode s = (if list_all is_scalar s then Some (concat (map utf8_char s)) else None)"

definition is_cont :: "nat \<Rightarrow> bool" where
  "is_cont b \<longleftrightarrow> 128 \<le> b \<and> b < 192"

fun utf8_decode :: "bytes \<Rightarrow> pystr option" where
  "utf8_decode [] = Some []"
| "utf8_decode (a # r) =
     (if a < 128 then map_option (Cons a) (utf8_decode r)
      else if 194 \<le> a \<and> a < 224 then
        (case r of
           b # r' \<Rightarrow>
             (if is_cont b
              then map_option (Cons ((a - 192) * 64 + (b - 128))) (utf8_decode r') else None)
         | _ \<Rightarrow> None)
      else if 224 \<le> a \<and> a < 240 then
        (case r of
           b # c # r' \<Rightarrow>
             (let v = (a - 224) * 4096 + (b - 128) * 64 + (c - 128) in
              if is_cont b \<and> is_cont c \<and> 2048 \<le> v \<and> \<not> is_surrogate v
              then map_option (Cons v) (utf8_decode r') else None)
         | _ \<Rightarrow> None)
      else if 240 \<le> a \<and> a < 245 then
        (case r of
           b # c # d # r' \<Rightarrow>
             (let v = (a - 240) * 262144 + (b - 128) * 4096 + (c - 128) * 64 + (d - 128) in
              if is_cont b \<and> is_cont c \<and> is_cont d \<and> 65536 \<le> v \<and> v \<le> 1114111
              then map_option (Cons v) (utf8_decode r') else None)
         | _ \<Rightarrow> None)
      else None)"

lemma utf8_decode_1: "a < 128 \<Longrightarrow> utf8_decode (a # r) = map_option (Cons a) (utf8_decode r)"
  by simp

lemma utf8_decode_2:
  assumes "2 \<le> a" "a < 32" "x < 64"
  shows "utf8_decode ((192 + a) # (128 + x) # r) = map_option (Cons (a * 64 + x)) (utf8_decode r)"
  using assms by (simp del: utf8_decode.simps add: utf8_decode.simps(2) [of "192 + a"] is_cont_def)

lemma utf8_decode_3:
  assumes "a < 16" "x < 64" "y < 64"
    and "2048 \<le> a * 4096 + x * 64 + y" "\<not> is_surrogate (a * 4096 + x * 64 + y)"
  shows "utf8_decode ((224 + a) # (128 + x) # (128 + y) # r) =
    map_option (Cons (a * 4096 + x * 64 + y)) (utf8_decode r)"
  using assms
  by (simp del: utf8_decode.simps add: utf8_decode.simps(2) [of "224 + a"] is_cont_def Let_def)

lemma utf8_decode_4:
  assumes "a < 5" "x < 64" "y < 64" "z < 64"
    and "65536 \<le> a * 262144 + x * 4096 + y * 64 + z"
    and "a * 262144 + x * 4096 + y * 64 + z \<le> 1114111"
  shows "utf8_decode ((240 + a) # (128 + x) # (128 + y) # (128 + z) # r) =
    map_option (Cons (a * 262144 + x * 4096 + y * 64 + z)) (utf8_decode r)"
  using assms
  by (simp del: utf8_decode.simps add: utf8_decode.simps(2) [of "240 + a"] is_cont_def Let_def)

lemma digits64:
  fixes c :: nat
  shows "c div 64 * 64 + c mod 64 = c"
    and "c div 4096 * 4096 + c div 64 mod 64 * 64 + c mod 64 = c"
    and "c div 262144 * 262144 + c div 4096 mod 64 * 4096 + c div 64 mod 64 * 64 + c mod 64 = c"
proof -
  have a: "c div 64 * 64 + c mod 64 = c" by simp
  have b: "c div 4096 * 64 + c div 64 mod 64 = c div 64"
    using div_mult_mod_eq [of "c div 64" 64] by (simp add: div_mult2_eq [symmetric])
  have d: "c div 262144 * 64 + c div 4096 mod 64 = c div 4096"
    using div_mult_mod_eq [of "c div 4096" 64] by (simp add: div_mult2_eq [symmetric])
  show "c div 64 * 64 + c mod 64 = c" by (rule a)
  show "c div 4096 * 4096 + c div 64 mod 64 * 64 + c mod 64 = c"
    using a b by linarith
  show "c div 262144 * 262144 + c div 4096 mod 64 * 4096 + c div 64 mod 64 * 64 + c mod 64 = c"
    using a b d by linarith
qed

lemma utf8_decode_char:
  assumes "is_scalar c"
  shows "utf8_decode (utf8_char c @ r) = map_option (Cons c) (utf8_decode r)"
proof -
  consider "c < 128" | "128 \<le> c" "c < 2048" | "2048 \<le> c" "c < 65536" | "65536 \<le> c"
    by linarith
  then show ?thesis
  proof cases
    case 1
    then show ?thesis by (simp add: utf8_char_def utf8_decode_1 del: utf8_decode.simps)
  next
    case 2
    then have a: "2 \<le> c div 64" "c div 64 < 32" by auto
    from 2 have e: "utf8_char c @ r = (192 + c div 64) # (128 + c mod 64) # r"
      by (simp add: utf8_char_def)
    show ?thesis
      unfolding e using utf8_decode_2 [OF a, of "c mod 64" r] by (simp only: digits64)
  next
    case 3
    then have a: "c div 4096 < 16" by auto
    from 3 have e: "utf8_char c @ r =
        (224 + c div 4096) # (128 + c div 64 mod 64) # (128 + c mod 64) # r"
      by (simp add: utf8_char_def)
    from assms have s: "\<not> is_surrogate c" by (simp add: is_scalar_def)
    show ?thesis
      unfolding e using utf8_decode_3 [OF a, of "c div 64 mod 64" "c mod 64" r] 3 s
      by (simp only: digits64) simp
  next
    case 4
    from assms have a: "c div 262144 < 5" by (auto simp: is_scalar_def)
    from 4 have e: "utf8_char c @ r =
        (240 + c div 262144) # (128 + c div 4096 mod 64) # (128 + c div 64 mod 64) #
        (128 + c mod 64) # r"
      by (simp add: utf8_char_def)
    from assms have s: "c \<le> 1114111" by (simp add: is_scalar_def)
    show ?thesis
      unfolding e
      using utf8_decode_4 [OF a, of "c div 4096 mod 64" "c div 64 mod 64" "c mod 64" r] 4 s
      by (simp only: digits64)
  qed
qed

declare utf8_decode.simps(2) [simp del]

lemma utf8_decode_concat:
  "list_all is_scalar s \<Longrightarrow>
     utf8_decode (concat (map utf8_char s) @ r) = map_option ((@) s) (utf8_decode r)"
proof (induction s)
  case Nil
  then show ?case by (simp add: option.map_ident)
next
  case (Cons c s)
  then show ?case
    by (simp add: utf8_decode_char option.map_comp o_def)
qed

lemma utf8_roundtrip: "utf8_encode s = Some b \<Longrightarrow> utf8_decode b = Some s"
  using utf8_decode_concat [of s "[]"] by (auto simp: utf8_encode_def split: if_splits)

lemma utf8_char_bytes: "is_scalar c \<Longrightarrow> is_bytes (utf8_char c)"
  by (auto simp: utf8_char_def is_bytes_def is_scalar_def)

lemma utf8_encode_bytes: "utf8_encode s = Some b \<Longrightarrow> is_bytes b"
proof -
  have "list_all is_scalar s \<Longrightarrow> is_bytes (concat (map utf8_char s))"
    by (induction s) (use utf8_char_bytes in \<open>auto simp: is_bytes_def\<close>)
  then show "utf8_encode s = Some b \<Longrightarrow> is_bytes b"
    by (auto simp: utf8_encode_def split: if_splits)
qed

lemma utf8_encode_append:
  "utf8_encode s = Some b \<Longrightarrow> utf8_encode t = Some c \<Longrightarrow> utf8_encode (s @ t) = Some (b @ c)"
  by (auto simp: utf8_encode_def split: if_splits)

lemma utf8_encode_ascii: "list_all (\<lambda>c. c < 128) s \<Longrightarrow> utf8_encode s = Some s"
proof -
  assume a: "list_all (\<lambda>c. c < 128) s"
  then have "list_all is_scalar s"
    by (auto simp: list_all_iff is_scalar_def is_surrogate_def)
  moreover from a have "concat (map utf8_char s) = s"
    by (induction s) (auto simp: utf8_char_def)
  ultimately show ?thesis
    by (simp add: utf8_encode_def)
qed

section \<open>Values and printing\<close>

text \<open>
  The JSON values the modules exchange: there is no float constructor, because both
  \<^verbatim>\<open>parse_float\<close> hooks raise and the printers refuse anything that is not one of these.
  An object is its list of members in insertion order.
\<close>

datatype json =
    JNull
  | JBool bool
  | JInt int
  | JStr pystr
  | JArr "json list"
  | JObj "(pystr \<times> json) list"

fun decimal :: "nat \<Rightarrow> pystr" where
  "decimal n = (if n < 10 then [48 + n] else decimal (n div 10) @ [48 + n mod 10])"

declare decimal.simps [simp del]

definition print_int :: "int \<Rightarrow> pystr" where
  "print_int i = (if i < 0 then 45 # decimal (nat (- i)) else decimal (nat i))"

definition hex_digit :: "nat \<Rightarrow> nat" where
  "hex_digit d = (if d < 10 then 48 + d else 87 + d)"

definition escape_char :: "nat \<Rightarrow> pystr" where
  "escape_char c =
     (if c = 34 then [92, 34] else if c = 92 then [92, 92]
      else if c = 10 then [92, 110] else if c = 13 then [92, 114]
      else if c = 9 then [92, 116] else if c = 12 then [92, 102]
      else if c = 8 then [92, 98]
      else if c < 32 then [92, 117, 48, 48, hex_digit (c div 16), hex_digit (c mod 16)]
      else [c])"

definition print_str :: "pystr \<Rightarrow> pystr" where
  "print_str s = 34 # concat (map escape_char s) @ [34]"

text \<open>
  \<open>print_json\<close> writes members in their list order; \<open>sort_keys\<close> puts the members of every
  object in code-point order, so \<open>json_dumps\<close> is \<^verbatim>\<open>json.dumps(..., sort_keys=True)\<close>.
\<close>

fun print_json :: "json \<Rightarrow> pystr"
  and print_items :: "json list \<Rightarrow> pystr"
  and print_members :: "(pystr \<times> json) list \<Rightarrow> pystr" where
  "print_json JNull = [110, 117, 108, 108]"
| "print_json (JBool b) = (if b then [116, 114, 117, 101] else [102, 97, 108, 115, 101])"
| "print_json (JInt i) = print_int i"
| "print_json (JStr s) = print_str s"
| "print_json (JArr xs) =
     (case xs of [] \<Rightarrow> [91, 93] | x # xs' \<Rightarrow> 91 # print_json x @ print_items xs')"
| "print_json (JObj ps) =
     (case ps of [] \<Rightarrow> [123, 125]
      | (k, v) # ps' \<Rightarrow> 123 # print_str k @ 58 # print_json v @ print_members ps')"
| "print_items [] = [93]"
| "print_items (x # xs) = 44 # print_json x @ print_items xs"
| "print_members [] = [125]"
| "print_members ((k, v) # ps) = 44 # print_str k @ 58 # print_json v @ print_members ps"

fun sort_keys :: "json \<Rightarrow> json" where
  "sort_keys (JArr xs) = JArr (map sort_keys xs)"
| "sort_keys (JObj ps) = JObj (sort_key fst (map (\<lambda>(k, v). (k, sort_keys v)) ps))"
| "sort_keys v = v"

definition json_dumps :: "json \<Rightarrow> pystr" where
  "json_dumps v = print_json (sort_keys v)"

section \<open>Scanning\<close>

definition starts :: "nat \<Rightarrow> pystr \<Rightarrow> bool" where
  "starts c s \<longleftrightarrow> s \<noteq> [] \<and> hd s = c"

definition is_ws :: "nat \<Rightarrow> bool" where
  "is_ws c \<longleftrightarrow> c = 32 \<or> c = 9 \<or> c = 10 \<or> c = 13"

definition skip_ws :: "pystr \<Rightarrow> pystr" where
  "skip_ws s = dropWhile is_ws s"

definition is_digit :: "nat \<Rightarrow> bool" where
  "is_digit c \<longleftrightarrow> 48 \<le> c \<and> c \<le> 57"

definition unhex :: "nat \<Rightarrow> nat option" where
  "unhex c = (if 48 \<le> c \<and> c \<le> 57 then Some (c - 48)
     else if 97 \<le> c \<and> c \<le> 102 then Some (c - 87)
     else if 65 \<le> c \<and> c \<le> 70 then Some (c - 55) else None)"

definition unhex4 :: "pystr \<Rightarrow> nat option" where
  "unhex4 s = (case s of
      a # b # c # d # _ \<Rightarrow>
        (case (unhex a, unhex b, unhex c, unhex d) of
           (Some w, Some x, Some y, Some z) \<Rightarrow> Some (((w * 16 + x) * 16 + y) * 16 + z)
         | _ \<Rightarrow> None)
    | _ \<Rightarrow> None)"

definition simple_escape :: "nat \<Rightarrow> nat option" where
  "simple_escape e = (if e = 34 \<or> e = 92 \<or> e = 47 then Some e
     else if e = 98 then Some 8 else if e = 102 then Some 12
     else if e = 110 then Some 10 else if e = 114 then Some 13
     else if e = 116 then Some 9 else None)"

text \<open>\<^verbatim>\<open>scanstring\<close>, after the opening quote: the string and the text behind the closing one.\<close>

fun scan_str :: "pystr \<Rightarrow> (pystr \<times> pystr) result" where
  "scan_str [] = Inl (JSONDecodeError ''Unterminated string'')"
| "scan_str (c # r) =
     (if c = 34 then Inr ([], r)
      else if c < 32 then Inl (JSONDecodeError ''Invalid control character'')
      else if c \<noteq> 92 then rbind (scan_str r) (\<lambda>(s, q). Inr (c # s, q))
      else (case r of
          [] \<Rightarrow> Inl (JSONDecodeError ''Unterminated string'')
        | e # r' \<Rightarrow>
            (if e = 117 then
               (case unhex4 r' of
                  None \<Rightarrow> Inl (JSONDecodeError ''Invalid uXXXX escape'')
                | Some x \<Rightarrow>
                    (let r1 = drop 4 r' in
                     if 55296 \<le> x \<and> x \<le> 56319 \<and> take 2 r1 = [92, 117] then
                       (case unhex4 (drop 2 r1) of
                          None \<Rightarrow> Inl (JSONDecodeError ''Invalid uXXXX escape'')
                        | Some y \<Rightarrow>
                            (if 56320 \<le> y \<and> y \<le> 57343 then
                               rbind (scan_str (drop 6 r1)) (\<lambda>(s, q).
                                 Inr ((65536 + (x - 55296) * 1024 + (y - 56320)) # s, q))
                             else rbind (scan_str r1) (\<lambda>(s, q). Inr (x # s, q))))
                     else rbind (scan_str r1) (\<lambda>(s, q). Inr (x # s, q))))
             else
               (case simple_escape e of
                  None \<Rightarrow> Inl (JSONDecodeError ''Invalid escape'')
                | Some x \<Rightarrow> rbind (scan_str r') (\<lambda>(s, q). Inr (x # s, q))))))"

text \<open>
  A number: its integer part, whether a fraction or an exponent follows, and the rest.
\<close>

definition int_part :: "pystr \<Rightarrow> (pystr \<times> pystr) option" where
  "int_part s = (if starts 48 s then Some ([48], tl s)
     else if s \<noteq> [] \<and> is_digit (hd s)
       then Some (takeWhile is_digit s, dropWhile is_digit s) else None)"

definition frac_rest :: "pystr \<Rightarrow> pystr option" where
  "frac_rest s = (if starts 46 s \<and> tl s \<noteq> [] \<and> is_digit (hd (tl s))
     then Some (dropWhile is_digit (tl s)) else None)"

definition exp_rest :: "pystr \<Rightarrow> pystr option" where
  "exp_rest s =
     (if starts 101 s \<or> starts 69 s then
        (let r = (if starts 43 (tl s) \<or> starts 45 (tl s) then tl (tl s) else tl s) in
         if r \<noteq> [] \<and> is_digit (hd r) then Some (dropWhile is_digit r) else None)
      else None)"

definition scan_number :: "pystr \<Rightarrow> (pystr \<times> bool \<times> pystr) option" where
  "scan_number s =
     (let neg = starts 45 s; s' = (if neg then tl s else s) in
      case int_part s' of
        None \<Rightarrow> None
      | Some (ds, r) \<Rightarrow>
          (let r1 = (case frac_rest r of Some q \<Rightarrow> q | None \<Rightarrow> r);
               r2 = (case exp_rest r1 of Some q \<Rightarrow> q | None \<Rightarrow> r1) in
           Some ((if neg then 45 # ds else ds),
                 frac_rest r \<noteq> None \<or> exp_rest r1 \<noteq> None, r2)))"

record hooks =
  object_pairs_hook :: "(pystr \<times> json) list \<Rightarrow> json result"
  parse_int :: "pystr \<Rightarrow> json result"
  parse_float :: "pystr \<Rightarrow> json result"
  parse_constant :: "pystr \<Rightarrow> json result"

text \<open>
  A value that starts with neither a brace nor a bracket.
\<close>

definition scan_constant :: "hooks \<Rightarrow> pystr \<Rightarrow> (json \<times> pystr) result" where
  "scan_constant h s =
     (if take 3 s = ustr ''NaN'' then
        rbind (parse_constant h (ustr ''NaN'')) (\<lambda>v. Inr (v, drop 3 s))
      else if take 8 s = ustr ''Infinity'' then
        rbind (parse_constant h (ustr ''Infinity'')) (\<lambda>v. Inr (v, drop 8 s))
      else if take 9 s = ustr ''-Infinity'' then
        rbind (parse_constant h (ustr ''-Infinity'')) (\<lambda>v. Inr (v, drop 9 s))
      else Inl (JSONDecodeError ''Expecting value''))"

definition scan_scalar :: "hooks \<Rightarrow> pystr \<Rightarrow> (json \<times> pystr) result" where
  "scan_scalar h s =
     (if starts 34 s then rbind (scan_str (tl s)) (\<lambda>(x, r). Inr (JStr x, r))
      else if take 4 s = [110, 117, 108, 108] then Inr (JNull, drop 4 s)
      else if take 4 s = [116, 114, 117, 101] then Inr (JBool True, drop 4 s)
      else if take 5 s = [102, 97, 108, 115, 101] then Inr (JBool False, drop 5 s)
      else (case scan_number s of
          Some (ds, fl, r) \<Rightarrow>
            rbind (if fl then parse_float h ds else parse_int h ds) (\<lambda>v. Inr (v, r))
        | None \<Rightarrow> scan_constant h s))"

text \<open>
  The scanner proper. The mode says where it stands: before a value, before an array item
  with the items read so far, behind an item, before a member, behind a member.
\<close>

datatype mode = Once | Item "json list" | Items "json list"
  | Member "(pystr \<times> json) list" | Members "(pystr \<times> json) list"

primrec scan :: "nat \<Rightarrow> hooks \<Rightarrow> mode \<Rightarrow> pystr \<Rightarrow> (json \<times> pystr) result" where
  "scan 0 h m s = Inl PyRecursionError"
| "scan (Suc n) h m s = (case m of
      Once \<Rightarrow>
        (if starts 123 s then
           (let r = skip_ws (tl s) in
            if starts 125 r then rbind (object_pairs_hook h []) (\<lambda>v. Inr (v, tl r))
            else scan n h (Member []) r)
         else if starts 91 s then
           (let r = skip_ws (tl s) in
            if starts 93 r then Inr (JArr [], tl r) else scan n h (Item []) r)
         else scan_scalar h s)
    | Item acc \<Rightarrow> rbind (scan n h Once s) (\<lambda>(v, r). scan n h (Items (acc @ [v])) r)
    | Items acc \<Rightarrow>
        (let r = skip_ws s in
         if starts 93 r then Inr (JArr acc, tl r)
         else if starts 44 r then scan n h (Item acc) (skip_ws (tl r))
         else Inl (JSONDecodeError ''Expecting comma delimiter''))
    | Member acc \<Rightarrow>
        (if starts 34 s then
           rbind (scan_str (tl s)) (\<lambda>(k, r).
             (let r1 = skip_ws r in
              if starts 58 r1 then
                rbind (scan n h Once (skip_ws (tl r1))) (\<lambda>(v, r2).
                  scan n h (Members (acc @ [(k, v)])) r2)
              else Inl (JSONDecodeError ''Expecting colon delimiter'')))
         else Inl (JSONDecodeError ''Expecting property name''))
    | Members acc \<Rightarrow>
        (let r = skip_ws s in
         if starts 125 r then rbind (object_pairs_hook h acc) (\<lambda>v. Inr (v, tl r))
         else if starts 44 r then scan n h (Member acc) (skip_ws (tl r))
         else Inl (JSONDecodeError ''Expecting comma delimiter'')))"

definition json_loads :: "hooks \<Rightarrow> pystr \<Rightarrow> json result" where
  "json_loads h s =
     (if starts 65279 s then Inl (JSONDecodeError ''Unexpected UTF-8 BOM'')
      else rbind (scan (2 * length s + 2) h Once (skip_ws s)) (\<lambda>(v, r).
        if skip_ws r = [] then Inr v else Inl (JSONDecodeError ''Extra data'')))"

section \<open>The scanner's fuel\<close>

lemma length_skip_ws: "length (skip_ws s) \<le> length s"
  by (simp add: skip_ws_def length_dropWhile_le)

lemma length_tl_starts: "starts c s \<Longrightarrow> Suc (length (tl s)) = length s"
  by (cases s) (auto simp: starts_def)

lemma scan_str_inv:
  assumes "scan_str (c # s) = Inr (x, r)"
  shows "r = s \<or> (\<exists>t q. length t \<le> length s \<and> scan_str t = Inr (q, r))"
proof (cases s)
  case Nil
  with assms show ?thesis
    by (auto split: if_splits)
next
  case (Cons e s')
  note s = this
  consider "c = 34" | "c \<noteq> 34" "c \<noteq> 92" | "c = 92" "e \<noteq> 117" | "c = 92" "e = 117"
    by blast
  then show ?thesis
  proof cases
    case 1
    with assms show ?thesis by simp
  next
    case 2
    with assms show ?thesis by (fastforce split: if_splits)
  next
    case 3
    with assms s obtain q where "scan_str s' = Inr (q, r)"
      by (auto split: option.splits)
    moreover have "length s' \<le> length s" using s by simp
    ultimately show ?thesis by blast
  next
    case 4
    with assms s obtain q where
      "scan_str (drop 4 s') = Inr (q, r) \<or> scan_str (drop 6 (drop 4 s')) = Inr (q, r)"
      by (auto simp: Let_def simp del: drop_drop split: if_splits option.splits)
    moreover have "length (drop 4 s') \<le> length s" "length (drop 6 (drop 4 s')) \<le> length s"
      using s by auto
    ultimately show ?thesis by blast
  qed
qed

lemma scan_str_shorter: "scan_str s = Inr (x, r) \<Longrightarrow> length r < length s"
proof (induction "length s" arbitrary: s x r rule: less_induct)
  case less
  show ?case
  proof (cases s)
    case Nil
    with less.prems show ?thesis by simp
  next
    case (Cons c s')
    from scan_str_inv [OF less.prems [unfolded Cons]] show ?thesis
    proof
      assume "r = s'"
      then show ?thesis using Cons by simp
    next
      assume "\<exists>t q. length t \<le> length s' \<and> scan_str t = Inr (q, r)"
      then obtain t q where t: "length t \<le> length s'" "scan_str t = Inr (q, r)" by blast
      then have "length r < length t"
        using less.hyps [of t] Cons by simp
      with t Cons show ?thesis by simp
    qed
  qed
qed

declare scan_str.simps(2) [simp del]

lemma length_dropWhile_less: "s \<noteq> [] \<Longrightarrow> P (hd s) \<Longrightarrow> length (dropWhile P s) < length s"
  by (cases s) (auto simp: length_dropWhile_le le_imp_less_Suc)

lemma int_part_shorter: "int_part s = Some (ds, r) \<Longrightarrow> length r < length s"
  by (cases s)
    (auto simp: int_part_def starts_def length_dropWhile_less length_dropWhile_le less_Suc_eq_le
      split: if_splits)

lemma frac_rest_shorter: "frac_rest s = Some r \<Longrightarrow> length r \<le> length s"
  by (cases s)
    (auto simp: frac_rest_def starts_def length_dropWhile_le le_SucI split: if_splits)

lemma exp_rest_shorter:
  assumes "exp_rest s = Some r"
  shows "length r \<le> length s"
proof -
  from assms obtain t where t: "r = dropWhile is_digit t" "t = tl s \<or> t = tl (tl s)"
    by (auto simp: exp_rest_def Let_def split: if_splits)
  then have "length t \<le> length s" by auto
  with t(1) show ?thesis
    by (simp add: order_trans [OF length_dropWhile_le])
qed

lemma scan_number_shorter:
  assumes "scan_number s = Some (ds, fl, r)"
  shows "length r < length s"
proof -
  define s' where "s' = (if starts 45 s then tl s else s)"
  from assms obtain ds' r' where i: "int_part s' = Some (ds', r')"
    and r: "r = (let r1 = (case frac_rest r' of Some q \<Rightarrow> q | None \<Rightarrow> r') in
                 case exp_rest r1 of Some q \<Rightarrow> q | None \<Rightarrow> r1)"
    by (auto simp: scan_number_def s'_def Let_def split: option.splits prod.splits)
  have "length r \<le> length r'"
    unfolding r Let_def
    by (auto split: option.splits dest!: frac_rest_shorter exp_rest_shorter)
  also have "length r' < length s'" using int_part_shorter [OF i] .
  also have "length s' \<le> length s" by (simp add: s'_def)
  finally show ?thesis .
qed

lemma scan_scalar_shorter:
  assumes "scan_scalar h s = Inr (v, r)"
  shows "length r < length s"
proof (cases s)
  case Nil
  with assms show ?thesis
    by (simp add: scan_scalar_def scan_constant_def starts_def scan_number_def int_part_def ustr_def)
next
  case (Cons c s')
  then have "length (drop k s) < length s" if "0 < k" for k
    using that by simp
  with assms show ?thesis
    by (auto simp: scan_scalar_def scan_constant_def simp del: length_drop
        split: if_splits option.splits
        dest!: scan_number_shorter scan_str_shorter length_tl_starts)
qed

lemma scan_shorter: "scan n h m s = Inr (v, r) \<Longrightarrow> length r < length s"
proof (induction n arbitrary: m s v r)
  case 0
  then show ?case by simp
next
  case (Suc n)
  have w: "length r < length s" if "length r < length (skip_ws (tl t))" "length t \<le> length s" for t
    using that length_skip_ws [of "tl t"] by (cases t) auto
  show ?case
  proof (cases m)
    case Once
    with Suc.prems show ?thesis
      using length_skip_ws [of "tl s"]
      by (auto simp: Let_def simp del: length_tl split: if_splits
          dest!: scan_scalar_shorter Suc.IH length_tl_starts intro: w)
  next
    case (Item acc)
    with Suc.prems show ?thesis
      by (auto dest!: Suc.IH)
  next
    case (Items acc)
    with Suc.prems show ?thesis
      using length_skip_ws [of s]
      by (auto simp: Let_def split: if_splits dest!: Suc.IH length_tl_starts intro: w)
  next
    case (Member acc)
    with Suc.prems obtain k q v' r2 where k: "scan_str (tl s) = Inr (k, q)"
      and v: "scan n h Once (skip_ws (tl (skip_ws q))) = Inr (v', r2)"
      and t: "scan n h (Members (acc @ [(k, v')])) r2 = Inr (v, r)"
      by (auto simp: Let_def split: if_splits)
    have "length r < length r2" using Suc.IH [OF t] .
    also have "\<dots> < length (skip_ws (tl (skip_ws q)))" using Suc.IH [OF v] .
    also have "\<dots> \<le> length q"
      using length_skip_ws [of "tl (skip_ws q)"] length_skip_ws [of q] by simp
    also have "\<dots> < length (tl s)" using scan_str_shorter [OF k] .
    also have "\<dots> \<le> length s" by simp
    finally show ?thesis .
  next
    case (Members acc)
    with Suc.prems show ?thesis
      using length_skip_ws [of s]
      by (auto simp: Let_def split: if_splits dest!: Suc.IH length_tl_starts intro: w)
  qed
qed

definition fuel_needed :: "mode \<Rightarrow> pystr \<Rightarrow> nat" where
  "fuel_needed m s = 2 * length s + (case m of Item _ \<Rightarrow> 2 | Member _ \<Rightarrow> 2 | _ \<Rightarrow> 1)"

definition hooks_quiet :: "hooks \<Rightarrow> bool" where
  "hooks_quiet h \<longleftrightarrow> (\<forall>x. object_pairs_hook h x \<noteq> Inl PyRecursionError) \<and>
     (\<forall>x. parse_int h x \<noteq> Inl PyRecursionError) \<and>
     (\<forall>x. parse_float h x \<noteq> Inl PyRecursionError) \<and>
     (\<forall>x. parse_constant h x \<noteq> Inl PyRecursionError)"

lemma scan_str_quiet: "scan_str s \<noteq> Inl PyRecursionError"
  by (induction s rule: scan_str.induct)
    (auto simp: scan_str.simps Let_def rbind_Inl split: list.splits option.splits)

lemma scan_scalar_quiet: "hooks_quiet h \<Longrightarrow> scan_scalar h s \<noteq> Inl PyRecursionError"
  by (auto simp: scan_scalar_def scan_constant_def hooks_quiet_def rbind_Inl scan_str_quiet
      split: if_splits option.splits)

lemma scan_enough_fuel:
  "hooks_quiet h \<Longrightarrow> fuel_needed m s \<le> n \<Longrightarrow> scan n h m s \<noteq> Inl PyRecursionError"
proof (induction n arbitrary: m s)
  case 0
  then show ?case by (simp add: fuel_needed_def split: mode.splits)
next
  case (Suc n)
  have q: "object_pairs_hook h x \<noteq> Inl PyRecursionError" for x
    using Suc.prems(1) by (simp add: hooks_quiet_def)
  have IH: "\<And>m s. fuel_needed m s \<le> n \<Longrightarrow> scan n h m s \<noteq> Inl PyRecursionError"
    using Suc.IH Suc.prems(1) by blast
  have sk: "fuel_needed m' (skip_ws (tl t)) \<le> n" if "starts c t" "length t \<le> length s" for m' c t
    using that length_tl_starts [OF that(1)] length_skip_ws [of "tl t"] Suc.prems(2)
    by (auto simp: fuel_needed_def split: mode.splits)
  show ?case
  proof (cases m)
    case Once
    then show ?thesis
      using sk [OF _ order_refl] IH q scan_scalar_quiet [OF Suc.prems(1)]
      by (auto simp: Let_def rbind_Inl split: if_splits)
  next
    case (Item acc)
    with Suc.prems(2) have "fuel_needed Once s \<le> n"
      by (simp add: fuel_needed_def)
    moreover have "fuel_needed (Items x) r \<le> n" if "scan n h Once s = Inr (v, r)" for x v r
      using scan_shorter [OF that] Suc.prems(2) Item by (simp add: fuel_needed_def)
    ultimately show ?thesis
      using IH Item by (auto simp: rbind_Inl)
  next
    case (Items acc)
    then show ?thesis
      using sk [OF _ length_skip_ws] IH by (auto simp: Let_def rbind_Inl split: if_splits)
  next
    case (Member acc)
    have b: "fuel_needed Once (skip_ws (tl (skip_ws r))) \<le> n"
        "scan n h Once (skip_ws (tl (skip_ws r))) = Inr (v, r2) \<Longrightarrow> fuel_needed (Members x) r2 \<le> n"
      if "scan_str (tl s) = Inr (k, r)" for k r v r2 x
    proof -
      have l: "length (skip_ws (tl (skip_ws r))) < length s"
        using scan_str_shorter [OF that] length_skip_ws [of r]
          length_skip_ws [of "tl (skip_ws r)"] by simp
      then show "fuel_needed Once (skip_ws (tl (skip_ws r))) \<le> n"
        using Suc.prems(2) Member by (simp add: fuel_needed_def)
      show "fuel_needed (Members x) r2 \<le> n"
        if "scan n h Once (skip_ws (tl (skip_ws r))) = Inr (v, r2)"
        using scan_shorter [OF that] l Suc.prems(2) Member by (simp add: fuel_needed_def)
    qed
    then show ?thesis
      using Member IH scan_str_quiet [of "tl s"]
      by (auto simp: Let_def rbind_Inl split: if_splits)
  next
    case (Members acc)
    then show ?thesis
      using sk [OF _ length_skip_ws] IH q by (auto simp: Let_def rbind_Inl split: if_splits)
  qed
qed

section \<open>Printing and scanning are inverse\<close>

text \<open>\<^verbatim>\<open>int(text, 10)\<close> on the text of a scanned integer.\<close>

definition dec_value :: "pystr \<Rightarrow> nat" where
  "dec_value ds = foldl (\<lambda>a d. a * 10 + (d - 48)) 0 ds"

definition int_of_text :: "pystr \<Rightarrow> int" where
  "int_of_text t = (if starts 45 t then - int (dec_value (tl t)) else int (dec_value t))"

lemma decimal_nonempty: "decimal n \<noteq> []"
  by (subst decimal.simps) simp

lemma decimal_digits: "list_all is_digit (decimal n)"
proof (induction n rule: decimal.induct)
  case (1 n)
  then show ?case
    by (subst decimal.simps) (auto simp: list_all_iff is_digit_def)
qed

lemma decimal_hd: "0 < n \<Longrightarrow> hd (decimal n) \<noteq> 48"
proof (induction n rule: decimal.induct)
  case (1 n)
  then show ?case
    by (subst decimal.simps) (auto simp: decimal_nonempty)
qed

lemma dec_value_decimal: "dec_value (decimal n) = n"
proof (induction n rule: decimal.induct)
  case (1 n)
  then show ?case
    by (subst decimal.simps) (auto simp: dec_value_def)
qed

lemma decimal_not_minus: "\<not> starts 45 (decimal n @ r)"
  using decimal_digits [of n] by (cases "decimal n") (auto simp: starts_def is_digit_def decimal_nonempty)

lemma int_of_text_print: "int_of_text (print_int i) = i"
  using decimal_not_minus [of "nat i" "[]"]
  by (simp add: int_of_text_def print_int_def dec_value_decimal starts_def decimal_nonempty)

definition ends_number :: "pystr \<Rightarrow> bool" where
  "ends_number r \<longleftrightarrow> r = [] \<or>
     \<not> is_digit (hd r) \<and> hd r \<noteq> 46 \<and> hd r \<noteq> 101 \<and> hd r \<noteq> 69"

lemma int_part_decimal:
  assumes "ends_number r"
  shows "int_part (decimal n @ r) = Some (decimal n, r)"
proof (cases "n = 0")
  case True
  then show ?thesis
    by (simp add: int_part_def starts_def decimal.simps [of 0])
next
  case False
  let ?d = "decimal n"
  have hd: "hd (?d @ r) = hd ?d" by (simp add: decimal_nonempty)
  then have "\<not> starts 48 (?d @ r)" using decimal_hd [of n] False by (simp add: starts_def)
  moreover have "is_digit (hd (?d @ r))"
    using decimal_digits [of n] decimal_nonempty [of n] hd by (cases ?d) auto
  moreover have "takeWhile is_digit (?d @ r) = ?d" "dropWhile is_digit (?d @ r) = r"
    using decimal_digits [of n] assms
    by (cases r; simp add: list_all_iff takeWhile_append dropWhile_append ends_number_def)+
  ultimately show ?thesis
    using decimal_nonempty [of n] by (simp add: int_part_def)
qed

lemma scan_number_print:
  assumes "ends_number r"
  shows "scan_number (print_int i @ r) = Some (print_int i, False, r)"
proof -
  have "frac_rest r = None" "exp_rest r = None"
    using assms by (auto simp: frac_rest_def exp_rest_def starts_def ends_number_def)
  then show ?thesis
    using int_part_decimal [OF assms] decimal_not_minus [of "nat i" r]
    by (auto simp: scan_number_def print_int_def starts_def Let_def)
qed

lemma unhex_digit: "d < 16 \<Longrightarrow> unhex (hex_digit d) = Some d"
  by (auto simp: unhex_def hex_digit_def)

lemma scan_str_escape:
  "scan_str (escape_char c @ r) = rbind (scan_str r) (\<lambda>(s, q). Inr (c # s, q))"
proof (cases "c < 32 \<and> c \<notin> {10, 13, 9, 12, 8}")
  case True
  then have e: "escape_char c = [92, 117, 48, 48, hex_digit (c div 16), hex_digit (c mod 16)]"
    by (auto simp: escape_char_def)
  from True have d: "c div 16 < 16" by auto
  have "unhex4 (48 # 48 # hex_digit (c div 16) # hex_digit (c mod 16) # r) = Some c"
    using unhex_digit [OF d] unhex_digit [of "c mod 16"]
    by (simp add: unhex4_def unhex_def [of 48])
  with True show ?thesis
    by (simp add: e scan_str.simps(2))
next
  case False
  then show ?thesis
    by (auto simp: escape_char_def scan_str.simps(2) simple_escape_def)
qed

lemma scan_str_print: "scan_str (concat (map escape_char s) @ 34 # r) = Inr (s, r)"
  by (induction s) (simp_all add: scan_str_escape scan_str.simps(2))

lemma print_int_nonempty: "print_int i \<noteq> []"
  by (simp add: print_int_def decimal_nonempty)

lemma print_int_hd: "hd (print_int i) = 45 \<or> is_digit (hd (print_int i))"
  using decimal_digits [of "nat i"] decimal_nonempty [of "nat i"]
  by (cases "decimal (nat i)") (auto simp: print_int_def)

lemma print_json_first:
  "\<exists>c t. print_json v = c # t \<and> \<not> is_ws c \<and> c \<noteq> 93 \<and> c \<noteq> 125 \<and> c \<noteq> 65279"
proof (cases v)
  case (JInt i)
  then show ?thesis
    using print_int_nonempty [of i] print_int_hd [of i]
    by (cases "print_int i") (auto simp: is_ws_def is_digit_def)
qed (auto simp: is_ws_def print_str_def split: list.splits)

lemma skip_ws_print [simp]: "skip_ws (print_json v @ r) = print_json v @ r"
  using print_json_first [of v] by (metis append_Cons dropWhile.simps(2) skip_ws_def)

lemma skip_ws_Cons [simp]: "\<not> is_ws c \<Longrightarrow> skip_ws (c # r) = c # r"
  by (simp add: skip_ws_def)

lemma starts_Cons [simp]: "starts c (d # r) \<longleftrightarrow> d = c"
  by (auto simp: starts_def)

lemma not_ws [simp]: "\<not> is_ws 93" "\<not> is_ws 125" "\<not> is_ws 44" "\<not> is_ws 58" "\<not> is_ws 34"
  by (simp_all add: is_ws_def)

lemma starts_print [simp]: "\<not> starts 93 (print_json v @ r)" "\<not> starts 125 (print_json v @ r)"
  using print_json_first [of v] by auto

lemma ends_number_items [simp]: "ends_number (print_items xs @ r)"
  by (cases xs) (auto simp: ends_number_def is_digit_def)

lemma ends_number_members [simp]: "ends_number (print_members ps @ r)"
  by (cases ps) (auto simp: ends_number_def is_digit_def)

lemma length_items: "0 < length (print_items xs)"
  by (cases xs) auto

lemma length_members: "0 < length (print_members ps)"
  by (cases ps) auto

text \<open>
  The values a scanner with given hooks can return: integers the integer hook accepts,
  and no key twice in one object.
\<close>

fun json_ok :: "(int \<Rightarrow> bool) \<Rightarrow> json \<Rightarrow> bool"
  and items_ok :: "(int \<Rightarrow> bool) \<Rightarrow> json list \<Rightarrow> bool"
  and members_ok :: "(int \<Rightarrow> bool) \<Rightarrow> (pystr \<times> json) list \<Rightarrow> bool" where
  "json_ok p (JInt i) = p i"
| "json_ok p (JArr xs) = items_ok p xs"
| "json_ok p (JObj ps) = (distinct (map fst ps) \<and> members_ok p ps)"
| "json_ok p v = True"
| "items_ok p [] = True"
| "items_ok p (x # xs) = (json_ok p x \<and> items_ok p xs)"
| "members_ok p [] = True"
| "members_ok p ((k, v) # ps) = (json_ok p v \<and> members_ok p ps)"

locale json_hooks =
  fixes h :: hooks and p :: "int \<Rightarrow> bool"
  assumes parse_int_print: "p i \<Longrightarrow> parse_int h (print_int i) = Inr (JInt i)"
    and pairs_distinct: "distinct (map fst ps) \<Longrightarrow> object_pairs_hook h ps = Inr (JObj ps)"
begin

lemma scan_scalar_int:
  "p i \<Longrightarrow> ends_number r \<Longrightarrow> scan_scalar h (print_int i @ r) = Inr (JInt i, r)"
proof -
  assume a: "p i" "ends_number r"
  obtain c t where c: "print_int i = c # t"
    using print_int_nonempty [of i] by (cases "print_int i") auto
  with print_int_hd [of i] have "c = 45 \<or> is_digit c" by simp
  then have "c \<noteq> 34" "c \<noteq> 110" "c \<noteq> 116" "c \<noteq> 102" by (auto simp: is_digit_def)
  with c a show ?thesis
    using scan_number_print [OF a(2), of i] parse_int_print [OF a(1)]
    by (simp add: scan_scalar_def)
qed

lemma item_step:
  assumes "scan m h Once (print_json x @ print_items xs @ r) = Inr (x, print_items xs @ r)"
    and "scan m h (Items (acc @ [x])) (print_items xs @ r) = Inr (JArr ((acc @ [x]) @ xs), r)"
  shows "scan (Suc m) h (Item acc) (print_json x @ print_items xs @ r) = Inr (JArr (acc @ x # xs), r)"
  using assms by simp

lemma member_step:
  assumes "scan m h Once (print_json v @ print_members ps @ r) = Inr (v, print_members ps @ r)"
    and "scan m h (Members (acc @ [(k, v)])) (print_members ps @ r) =
      Inr (JObj ((acc @ [(k, v)]) @ ps), r)"
  shows "scan (Suc m) h (Member acc) (print_str k @ 58 # print_json v @ print_members ps @ r) =
    Inr (JObj (acc @ (k, v) # ps), r)"
  using assms by (simp add: print_str_def scan_str_print)

lemma two_more:
  assumes "Suc (a + b) \<le> n" and "0 < (b :: nat)" and "0 < (a :: nat)"
  obtains m where "n = Suc (Suc m)" and "a \<le> m" and "b \<le> m"
  using assms by (cases n; cases "n - 1") auto

lemma print_json_pos: "0 < length (print_json v)"
  using print_json_first [of v] by auto

lemma scan_print_json:
  "json_ok p v \<Longrightarrow> ends_number r \<Longrightarrow> length (print_json v) \<le> n \<Longrightarrow>
     scan n h Once (print_json v @ r) = Inr (v, r)"
  and scan_print_items:
  "items_ok p xs \<Longrightarrow> length (print_items xs) \<le> n \<Longrightarrow>
     scan n h (Items acc) (print_items xs @ r) = Inr (JArr (acc @ xs), r)"
  and scan_print_members:
  "members_ok p ps \<Longrightarrow> distinct (map fst (acc' @ ps)) \<Longrightarrow> length (print_members ps) \<le> n \<Longrightarrow>
     scan n h (Members acc') (print_members ps @ r) = Inr (JObj (acc' @ ps), r)"
proof (induction v and xs and ps arbitrary: n r and n r acc and n r acc'
    rule: print_json_print_items_print_members.induct)
  case 1
  then show ?case by (cases n) (auto simp: scan_scalar_def)
next
  case (2 b)
  then show ?case by (cases n) (auto simp: scan_scalar_def split: if_splits)
next
  case (3 i)
  then have "scan_scalar h (print_int i @ r) = Inr (JInt i, r)"
    by (simp add: scan_scalar_int)
  with 3 show ?case
    using print_int_nonempty [of i] print_int_hd [of i]
    by (cases n; cases "print_int i") (auto simp: is_digit_def)
next
  case (4 s)
  then show ?case
    by (cases n) (auto simp: scan_scalar_def print_str_def scan_str_print)
next
  case (5 xs)
  show ?case
  proof (cases xs)
    case Nil
    with 5 show ?thesis by (cases n) auto
  next
    case (Cons x xs')
    with "5.prems" have l: "Suc (length (print_json x) + length (print_items xs')) \<le> n"
      by simp
    obtain m where m: "n = Suc (Suc m)" "length (print_json x) \<le> m" "length (print_items xs') \<le> m"
      by (rule two_more [OF l length_items print_json_pos])
    from "5.prems" Cons have ok: "json_ok p x" "items_ok p xs'" by auto
    have "scan (Suc m) h (Item []) (print_json x @ print_items xs' @ r) = Inr (JArr ([] @ x # xs'), r)"
      by (rule item_step) (use Cons ok m "5.IH" in auto)
    with Cons m show ?thesis by simp
  qed
next
  case (6 ps)
  show ?case
  proof (cases ps)
    case Nil
    with 6 show ?thesis by (cases n) (auto simp: pairs_distinct)
  next
    case (Cons q ps')
    obtain k v where q: "q = (k, v)" by (cases q)
    with Cons "6.prems" have l: "Suc (length (print_json v) + length (print_members ps')) \<le> n"
      by simp
    obtain m where m: "n = Suc (Suc m)" "length (print_json v) \<le> m" "length (print_members ps') \<le> m"
      by (rule two_more [OF l length_members print_json_pos])
    from "6.prems" Cons q have ok: "json_ok p v" "members_ok p ps'" "distinct (k # map fst ps')"
      by auto
    have "scan (Suc m) h (Member []) (print_str k @ 58 # print_json v @ print_members ps' @ r) =
        Inr (JObj ([] @ (k, v) # ps'), r)"
      by (rule member_step) (use Cons q ok m "6.IH" in auto)
    with Cons q m show ?thesis by (simp add: print_str_def)
  qed
next
  case 7
  then show ?case by (cases n) auto
next
  case (8 x xs)
  then have l: "Suc (length (print_json x) + length (print_items xs)) \<le> n" by simp
  obtain m where m: "n = Suc (Suc m)" "length (print_json x) \<le> m" "length (print_items xs) \<le> m"
    by (rule two_more [OF l length_items print_json_pos])
  have "scan (Suc m) h (Item acc) (print_json x @ print_items xs @ r) = Inr (JArr (acc @ x # xs), r)"
    by (rule item_step) (use m 8 in auto)
  with m show ?case by simp
next
  case 9
  then show ?case by (cases n) (auto simp: pairs_distinct)
next
  case (10 k v ps)
  then have l: "Suc (length (print_json v) + length (print_members ps)) \<le> n" by simp
  obtain m where m: "n = Suc (Suc m)" "length (print_json v) \<le> m" "length (print_members ps) \<le> m"
    by (rule two_more [OF l length_members print_json_pos])
  have "scan (Suc m) h (Member acc') (print_str k @ 58 # print_json v @ print_members ps @ r) =
      Inr (JObj (acc' @ (k, v) # ps), r)"
    by (rule member_step) (use m 10 in auto)
  with m show ?case by (simp add: print_str_def)
qed

lemma loads_print:
  assumes "json_ok p v" and "skip_ws r = []"
  shows "json_loads h (print_json v @ r) = Inr v"
proof -
  from assms(2) have "ends_number r"
    by (cases r) (auto simp: ends_number_def skip_ws_def is_ws_def is_digit_def split: if_splits)
  moreover have "\<not> starts 65279 (print_json v @ r)"
    using print_json_first [of v] by auto
  moreover have "length (print_json v) \<le> 2 * length (print_json v @ r) + 2"
    by simp
  ultimately show ?thesis
    using assms scan_print_json [of v r "2 * length (print_json v @ r) + 2"]
    by (simp add: json_loads_def del: scan.simps)
qed

end

section \<open>Sorting the members of objects\<close>

lemma members_ok_iff: "members_ok p ps \<longleftrightarrow> (\<forall>(k, v)\<in>set ps. json_ok p v)"
  by (induction ps) auto

lemma items_ok_iff: "items_ok p xs \<longleftrightarrow> (\<forall>v\<in>set xs. json_ok p v)"
  by (induction xs) auto

lemma distinct_sort_fst: "distinct (map fst (sort_key fst ps)) \<longleftrightarrow> distinct (map fst ps)"
  by (metis mset_eq_imp_distinct_iff mset_map mset_sort)

abbreviation on_value :: "(json \<Rightarrow> json) \<Rightarrow> pystr \<times> json \<Rightarrow> pystr \<times> json" where
  "on_value f \<equiv> \<lambda>(k, v). (k, f v)"

lemma map_fst_on_value [simp]: "map fst (map (on_value f) ps) = map fst ps"
  by auto

lemma json_ok_sort_keys: "json_ok p v \<Longrightarrow> json_ok p (sort_keys v)"
proof (induction v rule: sort_keys.induct)
  case (1 xs)
  then show ?case by (auto simp: items_ok_iff)
next
  case (2 ps)
  have "distinct (map fst (sort_key fst (map (on_value sort_keys) ps)))"
    using "2.prems" by (simp add: distinct_sort_fst del: map_map)
  moreover have "json_ok p w" if "(k, w) \<in> set (map (on_value sort_keys) ps)" for k w
  proof -
    from that obtain v where "(k, v) \<in> set ps" "w = sort_keys v" by auto
    with 2 show ?thesis by (force simp: members_ok_iff)
  qed
  ultimately show ?case by (auto simp: members_ok_iff simp del: set_map)
qed auto

lemma sort_keys_idem: "sort_keys (sort_keys v) = sort_keys v"
proof (induction v rule: sort_keys.induct)
  case (1 xs)
  then show ?case by simp
next
  case (2 ps)
  let ?qs = "sort_key fst (map (on_value sort_keys) ps)"
  have "on_value sort_keys q = q" if "q \<in> set ?qs" for q
    using that 2 by force
  then have "map (on_value sort_keys) ?qs = ?qs"
    by (simp only: map_idI)
  moreover have "sort_key fst ?qs = ?qs"
    by (rule sort_key_id_if_sorted) (rule sorted_sort_key)
  ultimately show ?case by simp
qed auto

lemma map_of_sort_keys:
  assumes "distinct (map fst ps)"
  shows "map_of (sort_key fst (map (on_value sort_keys) ps)) k = map_option sort_keys (map_of ps k)"
proof -
  let ?m = "map (on_value sort_keys) ps"
  have d: "distinct (map fst ?m)" using assms by (simp del: map_map)
  have "map_of (sort_key fst ?m) = map_of ?m"
    by (rule map_of_inject_set [THEN iffD2]) (use d in \<open>auto simp: distinct_sort_fst simp del: map_map\<close>)
  then show ?thesis by (simp add: map_of_map)
qed

end
