(* ===== verification/CampaignCodec.thy ===== *)
theory CampaignCodec
  imports Json
begin

text \<open>
  \<^verbatim>\<open>completion_campaign_codec.py\<close>: the strict bounded canonical JSON of the campaign and its
  domain-separated commitments. A Python value is a \<open>json\<close> term, so the two branches that
  reject a value of another type ("non-plain JSON value", "non-string property key") cannot be
  taken. SHA-256 is the argument \<open>H\<close> of the definitions that hash.
\<close>

section \<open>Bounds\<close>

definition MAX_CANONICAL_BYTES :: nat where "MAX_CANONICAL_BYTES = 262144"
definition MAX_DEPTH :: nat where "MAX_DEPTH = 24"
definition MAX_NODES :: nat where "MAX_NODES = 8192"
definition MAX_ARRAY_ITEMS :: nat where "MAX_ARRAY_ITEMS = 512"
definition MAX_OBJECT_PROPERTIES :: nat where "MAX_OBJECT_PROPERTIES = 128"
definition MAX_STRING_BYTES :: nat where "MAX_STRING_BYTES = 16384"
definition MAX_KEY_BYTES :: nat where "MAX_KEY_BYTES = 256"
definition MIN_INTEGER :: int where "MIN_INTEGER = - (2 ^ 63)"
definition MAX_INTEGER :: int where "MAX_INTEGER = 2 ^ 64 - 1"

section \<open>The hooks of the parser\<close>

fun pairs_loop :: "(pystr \<times> json) list \<Rightarrow> (pystr \<times> json) list \<Rightarrow> (pystr \<times> json) list result" where
  "pairs_loop result [] = Inr result"
| "pairs_loop result ((key, v) # pairs) =
     require (key \<notin> fst ` set result) (CampaignCodecError ''duplicate JSON key'')
       (pairs_loop (result @ [(key, v)]) pairs)"

definition pairs_hook :: "(pystr \<times> json) list \<Rightarrow> json result" where
  "pairs_hook pairs = rbind (pairs_loop [] pairs) (\<lambda>result. Inr (JObj result))"

text \<open>\<^verbatim>\<open>int(text, 10)\<close> refuses more than 4300 digits.\<close>

definition integer_hook :: "pystr \<Rightarrow> json result" where
  "integer_hook text =
     require (length (if starts 45 text then tl text else text) \<le> 4300)
       (PyValueError ''Exceeds the limit for integer string conversion'')
       (let value = int_of_text text in
        require (MIN_INTEGER \<le> value \<and> value \<le> MAX_INTEGER)
          (CampaignCodecError ''integer bound exceeded'')
          (Inr (JInt value)))"

definition reject_constant :: "pystr \<Rightarrow> json result" where
  "reject_constant text = Inl (CampaignCodecError ''non-integer JSON number'')"

definition codec_hooks :: hooks where
  "codec_hooks = \<lparr>object_pairs_hook = pairs_hook, parse_int = integer_hook,
     parse_float = reject_constant, parse_constant = reject_constant\<rparr>"

section \<open>Validation\<close>

text \<open>
  The nested function \<^verbatim>\<open>visit\<close> of \<^verbatim>\<open>_validate\<close> with its two counters passed as state: the
  nodes visited and the UTF-8 bytes of all strings and keys so far.
\<close>

definition check_str :: "nat \<Rightarrow> exn \<Rightarrow> exn \<Rightarrow> pystr \<Rightarrow> nat \<Rightarrow> nat result" where
  "check_str limit unicode_error bound_error s aggregate =
     (case utf8_encode s of
        None \<Rightarrow> Inl unicode_error
      | Some raw \<Rightarrow>
          require (length raw \<le> limit) bound_error
          (require (aggregate + length raw \<le> MAX_CANONICAL_BYTES)
             (CampaignCodecError ''aggregate string bound exceeded'')
             (Inr (aggregate + length raw))))"

fun visit :: "json \<Rightarrow> nat \<Rightarrow> nat \<times> nat \<Rightarrow> (nat \<times> nat) result"
  and visit_items :: "json list \<Rightarrow> nat \<Rightarrow> nat \<times> nat \<Rightarrow> (nat \<times> nat) result"
  and visit_members :: "(pystr \<times> json) list \<Rightarrow> nat \<Rightarrow> nat \<times> nat \<Rightarrow> (nat \<times> nat) result" where
  "visit item depth (nodes, aggregate) =
     require (Suc nodes \<le> MAX_NODES) (CampaignCodecError ''node bound exceeded'')
     (require (depth \<le> MAX_DEPTH) (CampaignCodecError ''depth bound exceeded'')
     (case item of
        JNull \<Rightarrow> Inr (Suc nodes, aggregate)
      | JBool b \<Rightarrow> Inr (Suc nodes, aggregate)
      | JInt i \<Rightarrow>
          require (MIN_INTEGER \<le> i \<and> i \<le> MAX_INTEGER) (CampaignCodecError ''integer bound exceeded'')
            (Inr (Suc nodes, aggregate))
      | JStr s \<Rightarrow>
          rbind (check_str MAX_STRING_BYTES (CampaignCodecError ''invalid Unicode scalar value'')
              (CampaignCodecError ''string bound exceeded'') s aggregate)
            (\<lambda>aggregate'. Inr (Suc nodes, aggregate'))
      | JArr xs \<Rightarrow>
          require (length xs \<le> MAX_ARRAY_ITEMS) (CampaignCodecError ''array bound exceeded'')
            (visit_items xs depth (Suc nodes, aggregate))
      | JObj ps \<Rightarrow>
          require (length ps \<le> MAX_OBJECT_PROPERTIES) (CampaignCodecError ''property bound exceeded'')
            (visit_members ps depth (Suc nodes, aggregate))))"
| "visit_items [] depth st = Inr st"
| "visit_items (child # xs) depth st =
     rbind (visit child (Suc depth) st) (visit_items xs depth)"
| "visit_members [] depth st = Inr st"
| "visit_members ((key, child) # ps) depth st =
     rbind (check_str MAX_KEY_BYTES (CampaignCodecError ''invalid property key'')
         (CampaignCodecError ''property-key bound exceeded'') key (snd st))
       (\<lambda>aggregate. rbind (visit child (Suc depth) (fst st, aggregate)) (visit_members ps depth))"

definition validate :: "json \<Rightarrow> unit result" where
  "validate v = rbind (visit v 0 (0, 0)) (\<lambda>_. Inr ())"

section \<open>Canonical bytes\<close>

definition canonical_bytes :: "json \<Rightarrow> bytes result" where
  "canonical_bytes v =
     rbind (validate v) (\<lambda>_.
       case utf8_encode (json_dumps v) of
         None \<Rightarrow> Inl (CampaignCodecError ''canonical JSON encoding failed'')
       | Some text \<Rightarrow>
           (let raw = text @ [10] in
            require (length raw \<le> MAX_CANONICAL_BYTES)
              (CampaignCodecError ''canonical byte bound exceeded'') (Inr raw)))"

definition as_codec_error :: "exn \<Rightarrow> exn" where
  "as_codec_error e = (case e of CampaignCodecError m \<Rightarrow> e
     | _ \<Rightarrow> CampaignCodecError ''invalid JSON document'')"

definition load_canonical_bytes :: "bytes \<Rightarrow> json result" where
  "load_canonical_bytes raw =
     require (0 < length raw \<and> length raw \<le> MAX_CANONICAL_BYTES)
       (CampaignCodecError ''input byte bound exceeded'')
     (case utf8_decode raw of
        None \<Rightarrow> Inl (CampaignCodecError ''input is not strict UTF-8'')
      | Some text \<Rightarrow>
          (case json_loads codec_hooks text of
             Inl e \<Rightarrow> Inl (as_codec_error e)
           | Inr v \<Rightarrow>
               rbind (validate v) (\<lambda>_.
               rbind (canonical_bytes v) (\<lambda>b.
               require (b = raw) (CampaignCodecError ''input is not canonical'') (Inr v)))))"

section \<open>Digests and commitments\<close>

definition sha256_hex :: "digest_fun \<Rightarrow> bytes \<Rightarrow> pystr" where
  "sha256_hex H raw = H raw"

definition canonical_sha256 :: "digest_fun \<Rightarrow> json \<Rightarrow> pystr result" where
  "canonical_sha256 H v = rbind (canonical_bytes v) (\<lambda>raw. Inr (sha256_hex H raw))"

text \<open>
  \<^verbatim>\<open>_DOMAIN\<close>: \<^verbatim>\<open>cogs.\<close>, one to 127 characters of the name class, \<^verbatim>\<open>/v\<close> and a decimal number
  without leading zero. The name class contains the characters of the suffix, so the match
  is a search for the place of the suffix.
\<close>

definition is_lower_alnum :: "nat \<Rightarrow> bool" where
  "is_lower_alnum c \<longleftrightarrow> 97 \<le> c \<and> c \<le> 122 \<or> is_digit c"

definition domain_char :: "nat \<Rightarrow> bool" where
  "domain_char c \<longleftrightarrow> is_lower_alnum c \<or> c = 46 \<or> c = 47 \<or> c = 95 \<or> c = 45"

definition version_suffix :: "pystr \<Rightarrow> bool" where
  "version_suffix s \<longleftrightarrow> take 2 s = ustr ''/v'' \<and> drop 2 s \<noteq> [] \<and>
     list_all is_digit (drop 2 s) \<and> hd (drop 2 s) \<noteq> 48"

definition domain_matches :: "pystr \<Rightarrow> bool" where
  "domain_matches d \<longleftrightarrow> take 5 d = ustr ''cogs.'' \<and>
     (let r = drop 5 d in
      r \<noteq> [] \<and> is_lower_alnum (hd r) \<and>
      list_ex (\<lambda>k. list_all domain_char (take k (tl r)) \<and> version_suffix (drop k (tl r)))
        [0..<min 127 (length r)])"

definition to_bytes_big :: "nat \<Rightarrow> nat \<Rightarrow> bytes result" where
  "to_bytes_big len n = require (n < 256 ^ len) PyOverflowError
     (Inr (map (\<lambda>i. n div 256 ^ i mod 256) (rev [0..<len])))"

definition commitment_prefix :: bytes where
  "commitment_prefix = ustr ''cogs.campaign-private-commitment/v1'' @ [0]"

definition commitment_sha256 :: "digest_fun \<Rightarrow> pystr \<Rightarrow> json \<Rightarrow> bytes \<Rightarrow> pystr result" where
  "commitment_sha256 H domain v salt =
     require (domain_matches domain) (CampaignCodecError ''invalid commitment domain'')
     (require (length salt = 32) (CampaignCodecError ''commitment salt must be 32 bytes'')
     (rbind (canonical_bytes v) (\<lambda>payload.
      rbind (to_bytes_big 2 (length domain)) (\<lambda>domain_length.
      rbind (to_bytes_big 8 (length payload)) (\<lambda>payload_length.
        Inr (H (commitment_prefix @ domain_length @ domain @ salt @ payload_length @ payload)))))))"

section \<open>The parser's hooks satisfy the scanner's interface\<close>

definition int_in_range :: "int \<Rightarrow> bool" where
  "int_in_range i \<longleftrightarrow> MIN_INTEGER \<le> i \<and> i \<le> MAX_INTEGER"

lemma decimal_length: "n < 10 ^ k \<Longrightarrow> 0 < k \<Longrightarrow> length (decimal n) \<le> k"
proof (induction k arbitrary: n)
  case 0
  then show ?case by simp
next
  case (Suc k)
  show ?case
  proof (cases "n < 10")
    case True
    then show ?thesis by (simp add: decimal.simps [of n])
  next
    case False
    with Suc.prems(1) have "0 < k" by (cases k) auto
    moreover from Suc.prems(1) have "n div 10 < 10 ^ k" by auto
    ultimately have "length (decimal (n div 10)) \<le> k" by (rule Suc.IH [rotated])
    with False show ?thesis by (simp add: decimal.simps [of n])
  qed
qed

lemma integer_hook_print: "int_in_range i \<Longrightarrow> integer_hook (print_int i) = Inr (JInt i)"
proof -
  assume i: "int_in_range i"
  let ?d = "if starts 45 (print_int i) then tl (print_int i) else print_int i"
  have "?d = decimal (nat \<bar>i\<bar>)"
    using decimal_not_minus [of "nat i" "[]"] by (auto simp: print_int_def)
  moreover have "nat \<bar>i\<bar> < 10 ^ 20"
    using i by (auto simp: int_in_range_def MIN_INTEGER_def MAX_INTEGER_def)
  ultimately have "length ?d \<le> 4300"
    using decimal_length [of "nat \<bar>i\<bar>" 20] by simp
  with i show ?thesis
    by (simp add: integer_hook_def int_of_text_print int_in_range_def)
qed

lemma pairs_loop_distinct:
  "distinct (map fst (acc @ ps)) \<Longrightarrow> pairs_loop acc ps = Inr (acc @ ps)"
  by (induction acc ps rule: pairs_loop.induct) auto

interpretation codec: json_hooks codec_hooks int_in_range
  by unfold_locales
    (auto simp: codec_hooks_def integer_hook_print pairs_hook_def
      pairs_loop_distinct [of "[]", simplified])

lemma hooks_quiet_codec: "hooks_quiet codec_hooks"
proof -
  have "pairs_loop acc ps \<noteq> Inl PyRecursionError" for acc ps
    by (induction acc ps rule: pairs_loop.induct) (auto simp: require_Inl)
  then show ?thesis
    by (auto simp: hooks_quiet_def codec_hooks_def pairs_hook_def integer_hook_def
        reject_constant_def rbind_Inl require_Inl Let_def)
qed

section \<open>What validation accepts\<close>

text \<open>
  The declarative reading of \<^verbatim>\<open>_validate\<close>: every node within its own bounds (\<open>fits\<close>), and the
  two totals within theirs.
\<close>

definition str_bytes :: "pystr \<Rightarrow> nat" where
  "str_bytes s = (case utf8_encode s of None \<Rightarrow> 0 | Some b \<Rightarrow> length b)"

definition str_fits :: "nat \<Rightarrow> pystr \<Rightarrow> bool" where
  "str_fits limit s \<longleftrightarrow> utf8_encode s \<noteq> None \<and> str_bytes s \<le> limit"

fun fits :: "nat \<Rightarrow> json \<Rightarrow> bool" where
  "fits d (JInt i) = (d \<le> MAX_DEPTH \<and> int_in_range i)"
| "fits d (JStr s) = (d \<le> MAX_DEPTH \<and> str_fits MAX_STRING_BYTES s)"
| "fits d (JArr xs) = (d \<le> MAX_DEPTH \<and> length xs \<le> MAX_ARRAY_ITEMS \<and> (\<forall>x\<in>set xs. fits (Suc d) x))"
| "fits d (JObj ps) = (d \<le> MAX_DEPTH \<and> length ps \<le> MAX_OBJECT_PROPERTIES \<and>
     (\<forall>(k, v)\<in>set ps. str_fits MAX_KEY_BYTES k \<and> fits (Suc d) v))"
| "fits d v = (d \<le> MAX_DEPTH)"

fun node_count :: "json \<Rightarrow> nat" where
  "node_count (JArr xs) = Suc (sum_list (map node_count xs))"
| "node_count (JObj ps) = Suc (sum_list (map (\<lambda>(k, v). node_count v) ps))"
| "node_count v = 1"

fun text_bytes :: "json \<Rightarrow> nat" where
  "text_bytes (JStr s) = str_bytes s"
| "text_bytes (JArr xs) = sum_list (map text_bytes xs)"
| "text_bytes (JObj ps) = sum_list (map (\<lambda>(k, v). str_bytes k + text_bytes v) ps)"
| "text_bytes v = 0"

definition within_bounds :: "json \<Rightarrow> bool" where
  "within_bounds v \<longleftrightarrow> fits 0 v \<and> node_count v \<le> MAX_NODES \<and> text_bytes v \<le> MAX_CANONICAL_BYTES"

lemma check_str_Inr:
  "check_str limit e1 e2 s a = Inr a' \<longleftrightarrow>
     str_fits limit s \<and> a' = a + str_bytes s \<and> a' \<le> MAX_CANONICAL_BYTES"
  by (auto simp: check_str_def str_fits_def str_bytes_def split: option.splits)

declare visit.simps [simp del]

lemma visit_Inr:
  "snd st \<le> MAX_CANONICAL_BYTES \<Longrightarrow>
     visit v d st = Inr (n', a') \<longleftrightarrow> fits d v \<and> n' = fst st + node_count v \<and> n' \<le> MAX_NODES \<and>
       a' = snd st + text_bytes v \<and> a' \<le> MAX_CANONICAL_BYTES"
  and visit_items_Inr:
  "fst st \<le> MAX_NODES \<Longrightarrow> snd st \<le> MAX_CANONICAL_BYTES \<Longrightarrow>
     visit_items xs d st = Inr (n', a') \<longleftrightarrow> (\<forall>x\<in>set xs. fits (Suc d) x) \<and>
       n' = fst st + sum_list (map node_count xs) \<and> n' \<le> MAX_NODES \<and>
       a' = snd st + sum_list (map text_bytes xs) \<and> a' \<le> MAX_CANONICAL_BYTES"
  and visit_members_Inr:
  "fst st \<le> MAX_NODES \<Longrightarrow> snd st \<le> MAX_CANONICAL_BYTES \<Longrightarrow>
     visit_members ps d st = Inr (n', a') \<longleftrightarrow>
       (\<forall>(k, v)\<in>set ps. str_fits MAX_KEY_BYTES k \<and> fits (Suc d) v) \<and>
       n' = fst st + sum_list (map (\<lambda>(k, v). node_count v) ps) \<and> n' \<le> MAX_NODES \<and>
       a' = snd st + sum_list (map (\<lambda>(k, v). str_bytes k + text_bytes v) ps) \<and>
       a' \<le> MAX_CANONICAL_BYTES"
proof (induction v d st and xs d st and ps d st arbitrary: n' a' and n' a' and n' a'
    rule: visit_visit_items_visit_members.induct)
  case (1 item d n a)
  show ?case
  proof (cases item)
    case (JArr xs)
    with 1 show ?thesis by (auto simp: visit.simps)
  next
    case (JObj ps)
    with 1 show ?thesis by (auto simp: visit.simps)
  qed (use "1.prems" in \<open>auto simp: visit.simps check_str_Inr int_in_range_def\<close>)
next
  case (2 d st)
  then show ?case by (cases st) auto
next
  case (3 x xs d st)
  let ?n = "fst st + node_count x" and ?a = "snd st + text_bytes x"
  let ?ok = "fits (Suc d) x \<and> ?n \<le> MAX_NODES \<and> ?a \<le> MAX_CANONICAL_BYTES"
  have A: "visit x (Suc d) st = Inr y \<longleftrightarrow> ?ok \<and> y = (?n, ?a)" for y
    using "3.IH"(1) [OF "3.prems"(2), of "fst y" "snd y"] by (cases y) auto
  have "visit_items (x # xs) d st = Inr (n', a') \<longleftrightarrow>
      ?ok \<and> visit_items xs d (?n, ?a) = Inr (n', a')"
    by (auto simp: A)
  also have "\<dots> \<longleftrightarrow> ?ok \<and> (\<forall>x\<in>set xs. fits (Suc d) x) \<and>
       n' = ?n + sum_list (map node_count xs) \<and> n' \<le> MAX_NODES \<and>
       a' = ?a + sum_list (map text_bytes xs) \<and> a' \<le> MAX_CANONICAL_BYTES"
    using "3.IH"(2) [of "(?n, ?a)" n' a'] A by (intro conj_cong) auto
  also have "\<dots> \<longleftrightarrow> (\<forall>x\<in>set (x # xs). fits (Suc d) x) \<and>
       n' = fst st + sum_list (map node_count (x # xs)) \<and> n' \<le> MAX_NODES \<and>
       a' = snd st + sum_list (map text_bytes (x # xs)) \<and> a' \<le> MAX_CANONICAL_BYTES"
    by auto
  finally show ?case .
next
  case (4 d st)
  then show ?case by (cases st) auto
next
  case (5 k v ps d st)
  let ?k = "snd st + str_bytes k"
  let ?n = "fst st + node_count v" and ?a = "?k + text_bytes v"
  let ?ok = "str_fits MAX_KEY_BYTES k \<and> ?k \<le> MAX_CANONICAL_BYTES \<and>
    fits (Suc d) v \<and> ?n \<le> MAX_NODES \<and> ?a \<le> MAX_CANONICAL_BYTES"
  let ?c = "check_str MAX_KEY_BYTES (CampaignCodecError ''invalid property key'')
         (CampaignCodecError ''property-key bound exceeded'') k (snd st)"
  have c: "?c = Inr b \<longleftrightarrow> str_fits MAX_KEY_BYTES k \<and> b = ?k \<and> ?k \<le> MAX_CANONICAL_BYTES" for b
    by (auto simp: check_str_Inr)
  have A: "(\<exists>b. ?c = Inr b \<and> visit v (Suc d) (fst st, b) = Inr y) \<longleftrightarrow> ?ok \<and> y = (?n, ?a)" for y
    using "5.IH"(1) [of ?k "fst y" "snd y"] by (cases y) (auto simp: c)
  have "visit_members ((k, v) # ps) d st = Inr (n', a') \<longleftrightarrow>
      (\<exists>y. (\<exists>b. ?c = Inr b \<and> visit v (Suc d) (fst st, b) = Inr y) \<and> visit_members ps d y = Inr (n', a'))"
    by auto
  also have "\<dots> \<longleftrightarrow> ?ok \<and> visit_members ps d (?n, ?a) = Inr (n', a')"
    unfolding A by auto
  also have "\<dots> \<longleftrightarrow> ?ok \<and> (\<forall>(k, v)\<in>set ps. str_fits MAX_KEY_BYTES k \<and> fits (Suc d) v) \<and>
       n' = ?n + sum_list (map (\<lambda>(k, v). node_count v) ps) \<and> n' \<le> MAX_NODES \<and>
       a' = ?a + sum_list (map (\<lambda>(k, v). str_bytes k + text_bytes v) ps) \<and>
       a' \<le> MAX_CANONICAL_BYTES"
    using "5.IH"(2) [of ?k "(?n, ?a)" n' a'] A [of "(?n, ?a)"] c by (intro conj_cong) auto
  also have "\<dots> \<longleftrightarrow> (\<forall>(k, v)\<in>set ((k, v) # ps). str_fits MAX_KEY_BYTES k \<and> fits (Suc d) v) \<and>
       n' = fst st + sum_list (map (\<lambda>(k, v). node_count v) ((k, v) # ps)) \<and> n' \<le> MAX_NODES \<and>
       a' = snd st + sum_list (map (\<lambda>(k, v). str_bytes k + text_bytes v) ((k, v) # ps)) \<and>
       a' \<le> MAX_CANONICAL_BYTES"
    by auto
  finally show ?case .
qed

lemma validate_Inr: "validate v = Inr () \<longleftrightarrow> within_bounds v"
  by (auto simp: validate_def within_bounds_def visit_Inr)

section \<open>Validation does not depend on the order of members\<close>

lemma sum_list_sort_key: "sum_list (map f (sort_key g xs)) = (sum_list (map f xs) :: nat)"
  by (metis mset_map mset_sort sum_mset_sum_list)

lemma fits_sort_keys [simp]: "fits d (sort_keys v) = fits d v"
proof (induction v arbitrary: d rule: sort_keys.induct)
  case (2 ps)
  have "(\<forall>(k, w)\<in>set (map (on_value sort_keys) ps). str_fits MAX_KEY_BYTES k \<and> fits (Suc d) w) \<longleftrightarrow>
      (\<forall>(k, v)\<in>set ps. str_fits MAX_KEY_BYTES k \<and> fits (Suc d) v)"
    using 2 by (fastforce split: prod.splits)
  then show ?case by simp
qed auto

lemma node_count_sort_keys [simp]: "node_count (sort_keys v) = node_count v"
proof (induction v rule: sort_keys.induct)
  case (1 xs)
  then have e: "map (node_count \<circ> sort_keys) xs = map node_count xs" by simp
  show ?case by (simp add: e)
next
  case (2 ps)
  then have e: "map ((\<lambda>(k, v). node_count v) \<circ> on_value sort_keys) ps = map (\<lambda>(k, v). node_count v) ps"
    by auto
  show ?case by (simp add: sum_list_sort_key e)
qed auto

lemma text_bytes_sort_keys [simp]: "text_bytes (sort_keys v) = text_bytes v"
proof (induction v rule: sort_keys.induct)
  case (1 xs)
  then have e: "map (text_bytes \<circ> sort_keys) xs = map text_bytes xs" by simp
  show ?case by (simp add: e)
next
  case (2 ps)
  then have e: "map ((\<lambda>(k, v). str_bytes k + text_bytes v) \<circ> on_value sort_keys) ps =
      map (\<lambda>(k, v). str_bytes k + text_bytes v) ps"
    by auto
  show ?case by (simp add: sum_list_sort_key e)
qed auto

lemma within_bounds_sort_keys [simp]: "within_bounds (sort_keys v) = within_bounds v"
  by (simp add: within_bounds_def)

section \<open>A validated value can be printed and encoded\<close>

lemma ascii_scalar: "c < 128 \<Longrightarrow> is_scalar c"
  by (simp add: is_scalar_def is_surrogate_def)

lemma escape_scalar: "is_scalar c \<Longrightarrow> list_all is_scalar (escape_char c)"
  by (auto simp: escape_char_def hex_digit_def intro!: ascii_scalar)

lemma print_str_scalar: "str_fits n s \<Longrightarrow> list_all is_scalar (print_str s)"
proof -
  assume "str_fits n s"
  then have "list_all is_scalar s"
    by (auto simp: str_fits_def utf8_encode_def split: if_splits)
  then have "list_all is_scalar (concat (map escape_char s))"
    by (induction s) (auto simp: escape_scalar)
  then show ?thesis
    by (simp add: print_str_def ascii_scalar)
qed

lemma print_int_scalar: "list_all is_scalar (print_int i)"
proof -
  have "list_all is_scalar (decimal n)" for n
    using decimal_digits [of n] by (rule list.pred_mono_strong) (auto simp: is_digit_def ascii_scalar)
  then show ?thesis by (simp add: print_int_def ascii_scalar)
qed

lemma print_json_scalar: "fits d v \<Longrightarrow> list_all is_scalar (print_json v)"
  and print_items_scalar: "\<forall>x\<in>set xs. fits d x \<Longrightarrow> list_all is_scalar (print_items xs)"
  and print_members_scalar:
    "\<forall>(k, v)\<in>set ps. str_fits MAX_KEY_BYTES k \<and> fits d v \<Longrightarrow> list_all is_scalar (print_members ps)"
  by (induction v and xs and ps arbitrary: d and d and d
      rule: print_json_print_items_print_members.induct)
    (auto simp: ascii_scalar print_int_scalar print_str_scalar split: list.splits)

lemma fits_json_ok: "fits d v \<Longrightarrow> json_ok (\<lambda>_. True) v \<Longrightarrow> json_ok int_in_range v"
proof (induction d v rule: fits.induct)
  case (3 d xs)
  then show ?case by (auto simp: items_ok_iff)
next
  case (4 d ps)
  then show ?case by (fastforce simp: members_ok_iff)
qed auto

text \<open>A Python dict has no key twice.\<close>

abbreviation dict_ok :: "json \<Rightarrow> bool" where
  "dict_ok \<equiv> json_ok (\<lambda>_. True)"

lemma canonical_bytes_Inr:
  "canonical_bytes v = Inr b \<longleftrightarrow> within_bounds v \<and>
     b = concat (map utf8_char (json_dumps v)) @ [10] \<and> length b \<le> MAX_CANONICAL_BYTES"
proof -
  have "utf8_encode (json_dumps v) = Some (concat (map utf8_char (json_dumps v)))"
    if "within_bounds v"
    using that print_json_scalar [of 0 "sort_keys v"]
    by (simp add: within_bounds_def json_dumps_def utf8_encode_def)
  then show ?thesis
    by (auto simp: canonical_bytes_def Let_def validate_Inr)
qed

lemma canonical_bytes_sort_keys: "canonical_bytes v = Inr b \<Longrightarrow> canonical_bytes (sort_keys v) = Inr b"
  by (auto simp: canonical_bytes_Inr json_dumps_def sort_keys_idem)

lemma canonical_bytes_is_bytes: "canonical_bytes v = Inr b \<Longrightarrow> is_bytes b"
proof -
  assume a: "canonical_bytes v = Inr b"
  then have "list_all is_scalar (json_dumps v)"
    using print_json_scalar [of 0 "sort_keys v"]
    by (simp add: canonical_bytes_Inr within_bounds_def json_dumps_def)
  then have "utf8_encode (json_dumps v) = Some (concat (map utf8_char (json_dumps v)))"
    by (simp add: utf8_encode_def)
  from utf8_encode_bytes [OF this] a show ?thesis
    by (auto simp: canonical_bytes_Inr is_bytes_def)
qed

lemma load_canonical:
  assumes "dict_ok v" and "canonical_bytes v = Inr b"
  shows "load_canonical_bytes b = Inr (sort_keys v)"
proof -
  let ?t = "json_dumps v"
  from assms(2) have w: "within_bounds v" and b: "b = concat (map utf8_char ?t) @ [10]"
    and l: "length b \<le> MAX_CANONICAL_BYTES"
    by (auto simp: canonical_bytes_Inr)
  have sc: "list_all is_scalar (?t @ [10])"
    using w print_json_scalar [of 0 "sort_keys v"]
    by (simp add: within_bounds_def json_dumps_def ascii_scalar)
  have "utf8_encode (?t @ [10]) = Some b"
    using sc b by (simp add: utf8_encode_def utf8_char_def)
  then have d: "utf8_decode b = Some (?t @ [10])" by (rule utf8_roundtrip)
  have "json_ok int_in_range (sort_keys v)"
    using w assms(1) fits_json_ok by (intro json_ok_sort_keys) (auto simp: within_bounds_def)
  then have "json_loads codec_hooks (?t @ [10]) = Inr (sort_keys v)"
    unfolding json_dumps_def by (rule codec.loads_print) (simp add: skip_ws_def is_ws_def)
  moreover have "validate (sort_keys v) = Inr ()"
    using w by (simp add: validate_Inr)
  ultimately show ?thesis
    using d l b canonical_bytes_sort_keys [OF assms(2)]
    by (simp add: load_canonical_bytes_def)
qed

lemma load_canonical_Inr:
  "load_canonical_bytes raw = Inr v \<Longrightarrow> canonical_bytes v = Inr raw"
  by (auto simp: load_canonical_bytes_def split: option.splits sum.splits)

section \<open>A sufficient size for the canonical form\<close>

abbreviation utf8_length :: "pystr \<Rightarrow> nat" where
  "utf8_length s \<equiv> length (concat (map utf8_char s))"

lemma utf8_char_ascii [simp]: "c < 128 \<Longrightarrow> utf8_char c = [c]"
  by (simp add: utf8_char_def)

lemma utf8_length_ascii: "list_all (\<lambda>c. c < 128) s \<Longrightarrow> utf8_length s = length s"
  by (induction s) auto

lemma str_bytes_ascii: "list_all (\<lambda>c. c < 128) s \<Longrightarrow> str_bytes s = length s"
  by (simp add: str_bytes_def utf8_encode_ascii)

lemma str_fits_ascii: "list_all (\<lambda>c. c < 128) s \<Longrightarrow> length s \<le> n \<Longrightarrow> str_fits n s"
  by (simp add: str_fits_def str_bytes_ascii utf8_encode_ascii)

lemma utf8_length_escape: "utf8_length (escape_char c) \<le> 6 * length (utf8_char c)"
proof (cases "c < 32 \<or> c = 34 \<or> c = 92")
  case True
  then have "list_all (\<lambda>a. a < 128) (escape_char c)" "length (escape_char c) \<le> 6"
    by (auto simp: escape_char_def hex_digit_def)
  moreover have "1 \<le> length (utf8_char c)" by (simp add: utf8_char_def)
  ultimately show ?thesis using utf8_length_ascii [of "escape_char c"] by linarith
next
  case False
  then show ?thesis by (simp add: escape_char_def)
qed

lemma utf8_length_print_str: "str_fits n s \<Longrightarrow> utf8_length (print_str s) \<le> 6 * str_bytes s + 2"
proof -
  assume a: "str_fits n s"
  have "utf8_length (concat (map escape_char s)) \<le> 6 * utf8_length s"
  proof (induction s)
    case (Cons c s)
    then show ?case using utf8_length_escape [of c] by simp
  qed simp
  moreover have "str_bytes s = utf8_length s"
    using a by (auto simp: str_fits_def str_bytes_def utf8_encode_def split: if_splits)
  ultimately show ?thesis
    by (simp add: print_str_def)
qed

lemma utf8_length_print_int: "int_in_range i \<Longrightarrow> utf8_length (print_int i) \<le> 21"
proof -
  assume i: "int_in_range i"
  have d: "utf8_length (decimal n) = length (decimal n)" for n
    by (rule utf8_length_ascii, rule list.pred_mono_strong [OF decimal_digits])
      (simp add: is_digit_def)
  have "length (decimal (nat \<bar>i\<bar>)) \<le> 20"
    by (rule decimal_length) (use i in \<open>auto simp: int_in_range_def MIN_INTEGER_def MAX_INTEGER_def\<close>)
  then show ?thesis
    using d [of "nat i"] d [of "nat (- i)"] by (auto simp: print_int_def)
qed

lemma utf8_length_print_json:
  "fits d v \<Longrightarrow> utf8_length (print_json v) + 4 \<le> 6 * text_bytes v + 28 * node_count v"
  and utf8_length_print_items:
  "\<forall>x\<in>set xs. fits d x \<Longrightarrow> utf8_length (print_items xs) \<le>
     6 * sum_list (map text_bytes xs) + 28 * sum_list (map node_count xs) + 1"
  and utf8_length_print_members:
  "\<forall>(k, v)\<in>set ps. str_fits MAX_KEY_BYTES k \<and> fits d v \<Longrightarrow> utf8_length (print_members ps) \<le>
     6 * sum_list (map (\<lambda>(k, v). str_bytes k + text_bytes v) ps) +
     28 * sum_list (map (\<lambda>(k, v). node_count v) ps) + 1"
proof (induction v and xs and ps arbitrary: d and d and d
    rule: print_json_print_items_print_members.induct)
  case (3 i)
  then show ?case using utf8_length_print_int [of i] by simp
next
  case (4 s)
  then show ?case using utf8_length_print_str [of MAX_STRING_BYTES s] by simp
next
  case (5 xs)
  then show ?case by (cases xs) force+
next
  case (6 ps)
  show ?case
  proof (cases ps)
    case (Cons q ps')
    obtain k v where q: "q = (k, v)" by (cases q)
    have "utf8_length (print_json v) + 4 \<le> 6 * text_bytes v + 28 * node_count v"
      and "utf8_length (print_members ps') \<le>
        6 * sum_list (map (\<lambda>(k, v). str_bytes k + text_bytes v) ps') +
        28 * sum_list (map (\<lambda>(k, v). node_count v) ps') + 1"
      and "utf8_length (print_str k) \<le> 6 * str_bytes k + 2"
      using 6 Cons q utf8_length_print_str [of MAX_KEY_BYTES k] by auto
    with Cons q show ?thesis by simp
  qed simp
next
  case (10 k v ps)
  have "utf8_length (print_json v) + 4 \<le> 6 * text_bytes v + 28 * node_count v"
    and "utf8_length (print_members ps) \<le>
      6 * sum_list (map (\<lambda>(k, v). str_bytes k + text_bytes v) ps) +
      28 * sum_list (map (\<lambda>(k, v). node_count v) ps) + 1"
    and "utf8_length (print_str k) \<le> 6 * str_bytes k + 2"
    using 10 utf8_length_print_str [of MAX_KEY_BYTES k] by auto
  then show ?case by simp
qed force+

lemma canonical_bytes_total:
  assumes "within_bounds v" and "6 * text_bytes v + 28 * node_count v \<le> MAX_CANONICAL_BYTES"
  shows "\<exists>b. canonical_bytes v = Inr b"
proof -
  have "utf8_length (json_dumps v) + 4 \<le> 6 * text_bytes v + 28 * node_count v"
    using assms(1) utf8_length_print_json [of 0 "sort_keys v"]
    by (simp add: within_bounds_def json_dumps_def)
  with assms show ?thesis
    by (auto simp: canonical_bytes_Inr)
qed

section \<open>Framing of commitments\<close>

lemma to_bytes_big_length: "to_bytes_big len n = Inr b \<Longrightarrow> length b = len"
  by (auto simp: to_bytes_big_def)

definition from_bytes_big :: "bytes \<Rightarrow> nat" where
  "from_bytes_big b = foldl (\<lambda>a d. a * 256 + d) 0 b"

lemma from_to_bytes_upt:
  "from_bytes_big (map (\<lambda>i. n div 256 ^ i mod 256) (rev [0..<k])) = n mod 256 ^ k"
proof (induction k arbitrary: n)
  case 0
  then show ?case by (simp add: from_bytes_big_def)
next
  case (Suc k)
  have "rev [0..<Suc k] = map Suc (rev [0..<k]) @ [0]"
    by (simp add: map_Suc_upt [symmetric] upt_conv_Cons rev_map del: upt_Suc)
  then have "from_bytes_big (map (\<lambda>i. n div 256 ^ i mod 256) (rev [0..<Suc k])) =
      from_bytes_big (map (\<lambda>i. n div 256 div 256 ^ i mod 256) (rev [0..<k])) * 256 + n mod 256"
    by (simp add: from_bytes_big_def o_def div_mult2_eq del: upt_Suc)
  also have "\<dots> = (n div 256 mod 256 ^ k) * 256 + n mod 256"
    by (simp only: Suc.IH)
  also have "\<dots> = n mod 256 ^ Suc k"
    by (simp add: mod_mult2_eq)
  finally show ?case .
qed

lemma from_to_bytes: "to_bytes_big len n = Inr b \<Longrightarrow> from_bytes_big b = n"
  by (auto simp: to_bytes_big_def from_to_bytes_upt)

definition commitment_preimage :: "pystr \<Rightarrow> bytes \<Rightarrow> bytes \<Rightarrow> bytes result" where
  "commitment_preimage domain salt payload =
     rbind (to_bytes_big 2 (length domain)) (\<lambda>d. rbind (to_bytes_big 8 (length payload)) (\<lambda>n.
       Inr (commitment_prefix @ d @ domain @ salt @ n @ payload)))"

lemma commitment_preimage_inj:
  assumes "commitment_preimage d s p = Inr b" and "commitment_preimage d' s' p' = Inr b"
    and "length s = 32" and "length s' = 32"
  shows "d = d' \<and> s = s' \<and> p = p'"
proof -
  from assms(1) obtain dl pl where dl: "to_bytes_big 2 (length d) = Inr dl"
    and pl: "to_bytes_big 8 (length p) = Inr pl"
    and b: "b = commitment_prefix @ dl @ d @ s @ pl @ p"
    by (auto simp: commitment_preimage_def)
  from assms(2) obtain dl' pl' where dl': "to_bytes_big 2 (length d') = Inr dl'"
    and pl': "to_bytes_big 8 (length p') = Inr pl'"
    and b': "b = commitment_prefix @ dl' @ d' @ s' @ pl' @ p'"
    by (auto simp: commitment_preimage_def)
  have "dl = dl'" and r: "d @ s @ pl @ p = d' @ s' @ pl' @ p'"
    using b b' to_bytes_big_length [OF dl] to_bytes_big_length [OF dl'] by auto
  then have "length d = length d'"
    using from_to_bytes [OF dl] from_to_bytes [OF dl'] by simp
  with r have "d = d'" and "s @ pl @ p = s' @ pl' @ p'" by auto
  moreover from this assms(3,4) have "s = s'" and "pl @ p = pl' @ p'" by auto
  moreover from this have "p = p'"
    using to_bytes_big_length [OF pl] to_bytes_big_length [OF pl'] by auto
  ultimately show ?thesis by simp
qed

lemma commitment_sha256_Inr:
  "commitment_sha256 H domain v salt = Inr c \<longleftrightarrow>
     domain_matches domain \<and> length salt = 32 \<and>
     (\<exists>payload b. canonical_bytes v = Inr payload \<and>
        commitment_preimage domain salt payload = Inr b \<and> c = H b)"
  by (auto simp: commitment_sha256_def commitment_preimage_def)

end
