(* ===== verification/CampaignContracts.thy ===== *)
theory CampaignContracts
  imports CampaignCodec
begin

text \<open>
  \<^verbatim>\<open>completion_campaign_contracts.py\<close>: the closed enumerations of the campaign, the outcomes
  each event may have, and the controller event record with the checks of its
  \<^verbatim>\<open>__post_init__\<close>. Fields that reach the constructor untyped from a parsed document are
  \<open>json\<close> values in \<open>raw_event_record\<close> and typed in \<open>controller_event_record\<close>; the enumeration
  fields are typed in both, so the "open enum value" check holds by typing.
\<close>

section \<open>Enumerations\<close>

datatype cycle_mode = FULL | READINESS

definition CYCLE_MODES :: "cycle_mode list" where
  "CYCLE_MODES = [FULL, READINESS, READINESS, READINESS, READINESS, READINESS, READINESS]"

datatype event =
    BATCH_ADMITTED | CYCLE_OPENED | PLAN_INTENT | PLAN_ACCEPTED | APPLY_INTENT | APPLY_ACCEPTED
  | RUNNING_OBSERVED | REMOTE_INTENT | REMOTE_ACCEPTED | PRE_DESTROY_SEALED | DESTROY_INTENT
  | DESTROY_SETTLED | ZERO_OBSERVATION_INTENT | ZERO_ACCEPTED | CYCLE_SEALED
  | FINAL_ZERO_OBSERVATION_INTENT | FINAL_ZERO_ACCEPTED | TERMINAL_CANDIDATE_VALIDATED | SEALED
  | FAILURE_RECORDED | TERMINAL_FAILURE_SEALED | TERMINAL_UNCERTAIN_SEALED

text \<open>The outcome \<^verbatim>\<open>SEALED\<close> is \<open>OUTCOME_SEALED\<close> here, apart from the event of that name.\<close>

datatype outcome =
    INTENDED | ACCEPTED | OBSERVED | OUTCOME_SEALED | FAILED | UNCERTAIN | ZERO | NONZERO

datatype uncertainty = CLEAR | STICKY

fun mode_value :: "cycle_mode \<Rightarrow> string" where
  "mode_value FULL = ''full''"
| "mode_value READINESS = ''readiness''"

fun event_value :: "event \<Rightarrow> string" where
  "event_value BATCH_ADMITTED = ''BATCH_ADMITTED''"
| "event_value CYCLE_OPENED = ''CYCLE_OPENED''"
| "event_value PLAN_INTENT = ''PLAN_INTENT''"
| "event_value PLAN_ACCEPTED = ''PLAN_ACCEPTED''"
| "event_value APPLY_INTENT = ''APPLY_INTENT''"
| "event_value APPLY_ACCEPTED = ''APPLY_ACCEPTED''"
| "event_value RUNNING_OBSERVED = ''RUNNING_OBSERVED''"
| "event_value REMOTE_INTENT = ''REMOTE_INTENT''"
| "event_value REMOTE_ACCEPTED = ''REMOTE_ACCEPTED''"
| "event_value PRE_DESTROY_SEALED = ''PRE_DESTROY_SEALED''"
| "event_value DESTROY_INTENT = ''DESTROY_INTENT''"
| "event_value DESTROY_SETTLED = ''DESTROY_SETTLED''"
| "event_value ZERO_OBSERVATION_INTENT = ''ZERO_OBSERVATION_INTENT''"
| "event_value ZERO_ACCEPTED = ''ZERO_ACCEPTED''"
| "event_value CYCLE_SEALED = ''CYCLE_SEALED''"
| "event_value FINAL_ZERO_OBSERVATION_INTENT = ''FINAL_ZERO_OBSERVATION_INTENT''"
| "event_value FINAL_ZERO_ACCEPTED = ''FINAL_ZERO_ACCEPTED''"
| "event_value TERMINAL_CANDIDATE_VALIDATED = ''TERMINAL_CANDIDATE_VALIDATED''"
| "event_value SEALED = ''SEALED''"
| "event_value FAILURE_RECORDED = ''FAILURE_RECORDED''"
| "event_value TERMINAL_FAILURE_SEALED = ''TERMINAL_FAILURE_SEALED''"
| "event_value TERMINAL_UNCERTAIN_SEALED = ''TERMINAL_UNCERTAIN_SEALED''"

fun outcome_value :: "outcome \<Rightarrow> string" where
  "outcome_value INTENDED = ''intended''"
| "outcome_value ACCEPTED = ''accepted''"
| "outcome_value OBSERVED = ''observed''"
| "outcome_value OUTCOME_SEALED = ''sealed''"
| "outcome_value FAILED = ''failed''"
| "outcome_value UNCERTAIN = ''uncertain''"
| "outcome_value ZERO = ''zero''"
| "outcome_value NONZERO = ''nonzero''"

fun uncertainty_value :: "uncertainty \<Rightarrow> string" where
  "uncertainty_value CLEAR = ''clear''"
| "uncertainty_value STICKY = ''sticky''"

definition ALL_MODES :: "cycle_mode list" where
  "ALL_MODES = [FULL, READINESS]"

definition ALL_EVENTS :: "event list" where
  "ALL_EVENTS = [BATCH_ADMITTED, CYCLE_OPENED, PLAN_INTENT, PLAN_ACCEPTED, APPLY_INTENT,
     APPLY_ACCEPTED, RUNNING_OBSERVED, REMOTE_INTENT, REMOTE_ACCEPTED, PRE_DESTROY_SEALED,
     DESTROY_INTENT, DESTROY_SETTLED, ZERO_OBSERVATION_INTENT, ZERO_ACCEPTED, CYCLE_SEALED,
     FINAL_ZERO_OBSERVATION_INTENT, FINAL_ZERO_ACCEPTED, TERMINAL_CANDIDATE_VALIDATED, SEALED,
     FAILURE_RECORDED, TERMINAL_FAILURE_SEALED, TERMINAL_UNCERTAIN_SEALED]"

definition ALL_OUTCOMES :: "outcome list" where
  "ALL_OUTCOMES = [INTENDED, ACCEPTED, OBSERVED, OUTCOME_SEALED, FAILED, UNCERTAIN, ZERO, NONZERO]"

definition ALL_UNCERTAINTIES :: "uncertainty list" where
  "ALL_UNCERTAINTIES = [CLEAR, STICKY]"

text \<open>\<^verbatim>\<open>Enum(value)\<close>: the member with that value, an error for any other value.\<close>

definition enum_of :: "'a list \<Rightarrow> ('a \<Rightarrow> string) \<Rightarrow> json \<Rightarrow> 'a result" where
  "enum_of members value_of j =
     (case j of
        JStr s \<Rightarrow>
          (case find (\<lambda>m. ustr (value_of m) = s) members of
             Some m \<Rightarrow> Inr m
           | None \<Rightarrow> Inl (CampaignContractError ''controller-event enum mismatch''))
      | _ \<Rightarrow> Inl (CampaignContractError ''controller-event enum mismatch''))"

section \<open>Event classes and outcomes\<close>

definition CONTROLLER_EVENT_VERSION :: pystr where
  "CONTROLLER_EVENT_VERSION = ustr ''cogs.aws-stage2-completion/controller-event/v1''"

definition ZERO_SHA256 :: pystr where
  "ZERO_SHA256 = replicate 64 48"

definition MAX_SEQUENCE :: int where "MAX_SEQUENCE = 256"
definition MAX_OBSERVATION_NS :: int where "MAX_OBSERVATION_NS = 2 ^ 64 - 1"

definition INTENT_EVENTS :: "event set" where
  "INTENT_EVENTS = {PLAN_INTENT, APPLY_INTENT, REMOTE_INTENT, DESTROY_INTENT,
     ZERO_OBSERVATION_INTENT, FINAL_ZERO_OBSERVATION_INTENT}"

definition CYCLE_EVENTS :: "event set" where
  "CYCLE_EVENTS = {CYCLE_OPENED, PLAN_INTENT, PLAN_ACCEPTED, APPLY_INTENT, APPLY_ACCEPTED,
     RUNNING_OBSERVED, REMOTE_INTENT, REMOTE_ACCEPTED, PRE_DESTROY_SEALED, DESTROY_INTENT,
     DESTROY_SETTLED, ZERO_OBSERVATION_INTENT, ZERO_ACCEPTED, CYCLE_SEALED}"

definition TERMINAL_EVENTS :: "event set" where
  "TERMINAL_EVENTS = {SEALED, TERMINAL_FAILURE_SEALED, TERMINAL_UNCERTAIN_SEALED}"

definition FINAL_EVENTS :: "event set" where
  "FINAL_EVENTS = {FINAL_ZERO_OBSERVATION_INTENT, FINAL_ZERO_ACCEPTED,
     TERMINAL_CANDIDATE_VALIDATED} \<union> TERMINAL_EVENTS"

definition UNCERTAIN_OUTCOMES :: "outcome set" where
  "UNCERTAIN_OUTCOMES = {UNCERTAIN, NONZERO}"

definition required_outcomes :: "event \<Rightarrow> bool \<Rightarrow> outcome set result" where
  "required_outcomes e cleanup =
     (if e \<in> INTENT_EVENTS then Inr {INTENDED}
      else if e \<in> {BATCH_ADMITTED, CYCLE_OPENED, PLAN_ACCEPTED, APPLY_ACCEPTED, REMOTE_ACCEPTED}
        then Inr {ACCEPTED}
      else if e = RUNNING_OBSERVED then Inr {OBSERVED}
      else if e \<in> {PRE_DESTROY_SEALED, CYCLE_SEALED, TERMINAL_CANDIDATE_VALIDATED, SEALED,
          TERMINAL_FAILURE_SEALED, TERMINAL_UNCERTAIN_SEALED} then Inr {OUTCOME_SEALED}
      else if e = FAILURE_RECORDED then Inr {FAILED, UNCERTAIN}
      else if e = DESTROY_SETTLED
        then Inr (if cleanup then {ACCEPTED, FAILED, UNCERTAIN} else {ACCEPTED})
      else if e \<in> {ZERO_ACCEPTED, FINAL_ZERO_ACCEPTED}
        then Inr (if cleanup then {ZERO, NONZERO, UNCERTAIN} else {ZERO})
      else Inl (CampaignContractError ''event has no closed outcome contract''))"

definition outcome_introduces_uncertainty :: "event \<Rightarrow> outcome \<Rightarrow> bool" where
  "outcome_introduces_uncertainty e out \<longleftrightarrow>
     out \<in> UNCERTAIN_OUTCOMES \<or> e = DESTROY_SETTLED \<and> out = FAILED"

section \<open>The controller event record\<close>

record raw_event_record =
  w_version :: json
  w_batch_commitment :: json
  w_sequence :: json
  w_event :: event
  w_cycle_ordinal :: json
  w_cycle_mode :: "cycle_mode option"
  w_prior_record_sha256 :: json
  w_payload_sha256 :: json
  w_monotonic_observation_ns :: json
  w_wall_observation_unix_ns :: json
  w_outcome :: outcome
  w_uncertainty :: uncertainty

record controller_event_record =
  r_version :: pystr
  r_batch_commitment :: pystr
  r_sequence :: int
  r_event :: event
  r_cycle_ordinal :: "int option"
  r_cycle_mode :: "cycle_mode option"
  r_prior_record_sha256 :: pystr
  r_payload_sha256 :: pystr
  r_monotonic_observation_ns :: int
  r_wall_observation_unix_ns :: int
  r_outcome :: outcome
  r_uncertainty :: uncertainty

definition exact_version :: "json \<Rightarrow> pystr result" where
  "exact_version j = require (j = JStr CONTROLLER_EVENT_VERSION)
     (CampaignContractError ''controller-event version mismatch'') (Inr CONTROLLER_EVENT_VERSION)"

definition digest_field :: "string \<Rightarrow> json \<Rightarrow> pystr result" where
  "digest_field label j =
     (case j of
        JStr s \<Rightarrow> require (is_hex64 s) (CampaignContractError (label @ '' mismatch'')) (Inr s)
      | _ \<Rightarrow> Inl (CampaignContractError (label @ '' mismatch'')))"

definition int_field :: "string \<Rightarrow> int \<Rightarrow> int \<Rightarrow> json \<Rightarrow> int result" where
  "int_field message lo hi j =
     (case j of
        JInt i \<Rightarrow> require (lo \<le> i \<and> i \<le> hi) (CampaignContractError message) (Inr i)
      | _ \<Rightarrow> Inl (CampaignContractError message))"

definition expected_mode :: "int \<Rightarrow> cycle_mode" where
  "expected_mode ordinal = CYCLE_MODES ! nat (ordinal - 1)"

definition cycle_binding :: "event \<Rightarrow> json \<Rightarrow> cycle_mode option \<Rightarrow> int option result" where
  "cycle_binding e ordinal mode =
     (if e \<in> CYCLE_EVENTS then
        rbind (int_field ''cycle ordinal required'' 1 (int (length CYCLE_MODES)) ordinal) (\<lambda>n.
        require (mode = Some (expected_mode n)) (CampaignContractError ''fixed cycle mode mismatch'')
          (Inr (Some n)))
      else if e = FAILURE_RECORDED then
        (if ordinal = JNull then
           require (mode = None) (CampaignContractError ''unbound failure has a mode'') (Inr None)
         else
           rbind (int_field ''failure cycle ordinal mismatch'' 1 (int (length CYCLE_MODES)) ordinal) (\<lambda>n.
           require (mode = Some (expected_mode n)) (CampaignContractError ''failure cycle mode mismatch'')
             (Inr (Some n))))
      else
        require (ordinal = JNull \<and> mode = None)
          (CampaignContractError ''non-cycle event has cycle binding'') (Inr None))"

definition post_init :: "raw_event_record \<Rightarrow> controller_event_record result" where
  "post_init w =
     rbind (exact_version (w_version w)) (\<lambda>version.
     rbind (digest_field ''batch commitment'' (w_batch_commitment w)) (\<lambda>batch.
     rbind (digest_field ''prior record digest'' (w_prior_record_sha256 w)) (\<lambda>prior.
     rbind (digest_field ''payload digest'' (w_payload_sha256 w)) (\<lambda>payload.
     rbind (int_field ''sequence bound'' 1 MAX_SEQUENCE (w_sequence w)) (\<lambda>sequence.
     rbind (required_outcomes (w_event w) True) (\<lambda>outcomes.
     require (w_outcome w \<in> outcomes) (CampaignContractError ''event outcome contract mismatch'')
     (require (outcome_introduces_uncertainty (w_event w) (w_outcome w) \<longrightarrow> w_uncertainty w = STICKY)
       (CampaignContractError ''uncertain outcome is not sticky'')
     (require (w_event w = TERMINAL_UNCERTAIN_SEALED \<longrightarrow> w_uncertainty w = STICKY)
       (CampaignContractError ''uncertain terminal is not sticky'')
     (require (w_event w \<in> {SEALED, TERMINAL_FAILURE_SEALED} \<longrightarrow> w_uncertainty w = CLEAR)
       (CampaignContractError ''clear terminal has uncertainty'')
     (rbind (int_field ''observation bound'' 0 MAX_OBSERVATION_NS (w_monotonic_observation_ns w)) (\<lambda>monotonic.
     rbind (int_field ''observation bound'' 0 MAX_OBSERVATION_NS (w_wall_observation_unix_ns w)) (\<lambda>wall.
     rbind (cycle_binding (w_event w) (w_cycle_ordinal w) (w_cycle_mode w)) (\<lambda>ordinal.
       Inr \<lparr>r_version = version, r_batch_commitment = batch, r_sequence = sequence,
            r_event = w_event w, r_cycle_ordinal = ordinal, r_cycle_mode = w_cycle_mode w,
            r_prior_record_sha256 = prior, r_payload_sha256 = payload,
            r_monotonic_observation_ns = monotonic, r_wall_observation_unix_ns = wall,
            r_outcome = w_outcome w, r_uncertainty = w_uncertainty w\<rparr>)))))))))))))"

definition ordinal_json :: "int option \<Rightarrow> json" where
  "ordinal_json ordinal = (case ordinal of None \<Rightarrow> JNull | Some n \<Rightarrow> JInt n)"

definition mode_json :: "cycle_mode option \<Rightarrow> json" where
  "mode_json mode = (case mode of None \<Rightarrow> JNull | Some m \<Rightarrow> JStr (ustr (mode_value m)))"

definition record_as_dict :: "controller_event_record \<Rightarrow> json" where
  "record_as_dict r = JObj
    [(ustr ''version'', JStr (r_version r)),
     (ustr ''batch_commitment'', JStr (r_batch_commitment r)),
     (ustr ''sequence'', JInt (r_sequence r)),
     (ustr ''event'', JStr (ustr (event_value (r_event r)))),
     (ustr ''cycle_ordinal'', ordinal_json (r_cycle_ordinal r)),
     (ustr ''cycle_mode'', mode_json (r_cycle_mode r)),
     (ustr ''prior_record_sha256'', JStr (r_prior_record_sha256 r)),
     (ustr ''payload_sha256'', JStr (r_payload_sha256 r)),
     (ustr ''monotonic_observation_ns'', JInt (r_monotonic_observation_ns r)),
     (ustr ''wall_observation_unix_ns'', JInt (r_wall_observation_unix_ns r)),
     (ustr ''outcome'', JStr (ustr (outcome_value (r_outcome r)))),
     (ustr ''uncertainty'', JStr (ustr (uncertainty_value (r_uncertainty r))))]"

definition record_canonical_bytes :: "controller_event_record \<Rightarrow> bytes result" where
  "record_canonical_bytes r = canonical_bytes (record_as_dict r)"

definition record_sha256 :: "digest_fun \<Rightarrow> controller_event_record \<Rightarrow> pystr result" where
  "record_sha256 H r = rbind (record_canonical_bytes r) (\<lambda>raw. Inr (sha256_hex H raw))"

definition RECORD_KEYS :: "string list" where
  "RECORD_KEYS = [''version'', ''batch_commitment'', ''sequence'', ''event'', ''cycle_ordinal'',
     ''cycle_mode'', ''prior_record_sha256'', ''payload_sha256'', ''monotonic_observation_ns'',
     ''wall_observation_unix_ns'', ''outcome'', ''uncertainty'']"

definition member :: "(pystr \<times> json) list \<Rightarrow> string \<Rightarrow> json result" where
  "member ps key = (case map_of ps (ustr key) of None \<Rightarrow> Inl PyKeyError | Some v \<Rightarrow> Inr v)"

definition record_from_mapping :: "json \<Rightarrow> controller_event_record result" where
  "record_from_mapping v =
     (case v of
        JObj ps \<Rightarrow>
          require (set (map fst ps) = set (map ustr RECORD_KEYS))
            (CampaignContractError ''controller-event key set mismatch'')
          (rbind (member ps ''event'') (\<lambda>ev. rbind (enum_of ALL_EVENTS event_value ev) (\<lambda>e.
           rbind (member ps ''outcome'') (\<lambda>ov. rbind (enum_of ALL_OUTCOMES outcome_value ov) (\<lambda>out.
           rbind (member ps ''uncertainty'') (\<lambda>uv.
             rbind (enum_of ALL_UNCERTAINTIES uncertainty_value uv) (\<lambda>unc.
           rbind (member ps ''cycle_mode'') (\<lambda>mv.
             rbind (if mv = JNull then Inr None
                    else rbind (enum_of ALL_MODES mode_value mv) (\<lambda>m. Inr (Some m))) (\<lambda>mode.
           rbind (member ps ''version'') (\<lambda>version.
           rbind (member ps ''batch_commitment'') (\<lambda>batch.
           rbind (member ps ''sequence'') (\<lambda>sequence.
           rbind (member ps ''cycle_ordinal'') (\<lambda>ordinal.
           rbind (member ps ''prior_record_sha256'') (\<lambda>prior.
           rbind (member ps ''payload_sha256'') (\<lambda>payload.
           rbind (member ps ''monotonic_observation_ns'') (\<lambda>monotonic.
           rbind (member ps ''wall_observation_unix_ns'') (\<lambda>wall.
             post_init \<lparr>w_version = version, w_batch_commitment = batch, w_sequence = sequence,
               w_event = e, w_cycle_ordinal = ordinal, w_cycle_mode = mode,
               w_prior_record_sha256 = prior, w_payload_sha256 = payload,
               w_monotonic_observation_ns = monotonic, w_wall_observation_unix_ns = wall,
               w_outcome = out, w_uncertainty = unc\<rparr>)))))))))))))))))
      | _ \<Rightarrow> Inl (CampaignContractError ''controller-event key set mismatch''))"

definition record_from_canonical_bytes :: "bytes \<Rightarrow> controller_event_record result" where
  "record_from_canonical_bytes raw =
     rbind (load_canonical_bytes raw) (\<lambda>v.
       (case v of
          JObj ps \<Rightarrow> record_from_mapping v
        | _ \<Rightarrow> Inl (CampaignContractError ''controller-event must be an object'')))"

definition new_record ::
  "pystr \<Rightarrow> int \<Rightarrow> event \<Rightarrow> pystr \<Rightarrow> pystr \<Rightarrow> int \<Rightarrow> int \<Rightarrow> outcome \<Rightarrow> uncertainty \<Rightarrow>
     int option \<Rightarrow> cycle_mode option \<Rightarrow> controller_event_record result" where
  "new_record batch sequence e prior payload monotonic wall out unc ordinal mode =
     post_init \<lparr>w_version = JStr CONTROLLER_EVENT_VERSION, w_batch_commitment = JStr batch,
       w_sequence = JInt sequence, w_event = e, w_cycle_ordinal = ordinal_json ordinal,
       w_cycle_mode = mode, w_prior_record_sha256 = JStr prior, w_payload_sha256 = JStr payload,
       w_monotonic_observation_ns = JInt monotonic, w_wall_observation_unix_ns = JInt wall,
       w_outcome = out, w_uncertainty = unc\<rparr>"

section \<open>The record's invariant\<close>

lemma required_outcomes_total: "\<exists>S. required_outcomes e cleanup = Inr S"
  by (cases e) (auto simp: required_outcomes_def INTENT_EVENTS_def)

definition binding_ok :: "event \<Rightarrow> int option \<Rightarrow> cycle_mode option \<Rightarrow> bool" where
  "binding_ok e ordinal mode \<longleftrightarrow>
     (case ordinal of
        None \<Rightarrow> mode = None \<and> e \<notin> CYCLE_EVENTS
      | Some n \<Rightarrow> 1 \<le> n \<and> n \<le> 7 \<and> mode = Some (expected_mode n) \<and>
          (e \<in> CYCLE_EVENTS \<or> e = FAILURE_RECORDED))"

definition record_wf :: "controller_event_record \<Rightarrow> bool" where
  "record_wf r \<longleftrightarrow> r_version r = CONTROLLER_EVENT_VERSION \<and> is_hex64 (r_batch_commitment r) \<and>
     is_hex64 (r_prior_record_sha256 r) \<and> is_hex64 (r_payload_sha256 r) \<and>
     1 \<le> r_sequence r \<and> r_sequence r \<le> MAX_SEQUENCE \<and>
     (\<exists>S. required_outcomes (r_event r) True = Inr S \<and> r_outcome r \<in> S) \<and>
     (outcome_introduces_uncertainty (r_event r) (r_outcome r) \<longrightarrow> r_uncertainty r = STICKY) \<and>
     (r_event r = TERMINAL_UNCERTAIN_SEALED \<longrightarrow> r_uncertainty r = STICKY) \<and>
     (r_event r \<in> {SEALED, TERMINAL_FAILURE_SEALED} \<longrightarrow> r_uncertainty r = CLEAR) \<and>
     0 \<le> r_monotonic_observation_ns r \<and> r_monotonic_observation_ns r \<le> MAX_OBSERVATION_NS \<and>
     0 \<le> r_wall_observation_unix_ns r \<and> r_wall_observation_unix_ns r \<le> MAX_OBSERVATION_NS \<and>
     binding_ok (r_event r) (r_cycle_ordinal r) (r_cycle_mode r)"

definition raw_of :: "controller_event_record \<Rightarrow> raw_event_record" where
  "raw_of r = \<lparr>w_version = JStr (r_version r), w_batch_commitment = JStr (r_batch_commitment r),
     w_sequence = JInt (r_sequence r), w_event = r_event r,
     w_cycle_ordinal = ordinal_json (r_cycle_ordinal r), w_cycle_mode = r_cycle_mode r,
     w_prior_record_sha256 = JStr (r_prior_record_sha256 r),
     w_payload_sha256 = JStr (r_payload_sha256 r),
     w_monotonic_observation_ns = JInt (r_monotonic_observation_ns r),
     w_wall_observation_unix_ns = JInt (r_wall_observation_unix_ns r),
     w_outcome = r_outcome r, w_uncertainty = r_uncertainty r\<rparr>"

lemma exact_version_Inr:
  "exact_version j = Inr s \<longleftrightarrow> j = JStr s \<and> s = CONTROLLER_EVENT_VERSION"
  by (auto simp: exact_version_def)

lemma digest_field_Inr: "digest_field label j = Inr s \<longleftrightarrow> j = JStr s \<and> is_hex64 s"
  by (auto simp: digest_field_def split: json.splits)

lemma int_field_Inr: "int_field msg lo hi j = Inr i \<longleftrightarrow> j = JInt i \<and> lo \<le> i \<and> i \<le> hi"
  by (auto simp: int_field_def split: json.splits)

lemma length_CYCLE_MODES [simp]: "length CYCLE_MODES = 7"
  by (simp add: CYCLE_MODES_def)

lemma failure_not_cycle: "FAILURE_RECORDED \<notin> CYCLE_EVENTS"
  by (simp add: CYCLE_EVENTS_def)

lemma cycle_binding_Inr:
  "cycle_binding e j mode = Inr ordinal \<longleftrightarrow> j = ordinal_json ordinal \<and> binding_ok e ordinal mode"
  using failure_not_cycle
  by (auto simp: cycle_binding_def binding_ok_def int_field_Inr ordinal_json_def split: option.splits)

lemmas field_Inr = exact_version_Inr digest_field_Inr int_field_Inr cycle_binding_Inr

lemma post_init_Inr: "post_init w = Inr r \<longleftrightarrow> w = raw_of r \<and> record_wf r"
  by (cases w; cases r) (auto simp: post_init_def field_Inr raw_of_def record_wf_def)

lemma new_record_Inr:
  "new_record batch sequence e prior payload monotonic wall out unc ordinal mode = Inr r \<longleftrightarrow>
     record_wf r \<and>
     r = \<lparr>r_version = CONTROLLER_EVENT_VERSION, r_batch_commitment = batch, r_sequence = sequence,
          r_event = e, r_cycle_ordinal = ordinal, r_cycle_mode = mode,
          r_prior_record_sha256 = prior, r_payload_sha256 = payload,
          r_monotonic_observation_ns = monotonic, r_wall_observation_unix_ns = wall,
          r_outcome = out, r_uncertainty = unc\<rparr>"
proof -
  have "ordinal_json a = ordinal_json b \<longleftrightarrow> a = b" for a b
    by (auto simp: ordinal_json_def split: option.splits)
  then show ?thesis
    by (cases r) (auto simp: new_record_def post_init_Inr raw_of_def)
qed

section \<open>Encoding and decoding records\<close>

lemma enum_of_event: "enum_of ALL_EVENTS event_value (JStr (ustr (event_value e))) = Inr e"
  by (cases e) (simp_all add: enum_of_def ALL_EVENTS_def)

lemma enum_of_outcome: "enum_of ALL_OUTCOMES outcome_value (JStr (ustr (outcome_value x))) = Inr x"
  by (cases x) (simp_all add: enum_of_def ALL_OUTCOMES_def)

lemma enum_of_uncertainty:
  "enum_of ALL_UNCERTAINTIES uncertainty_value (JStr (ustr (uncertainty_value x))) = Inr x"
  by (cases x) (simp_all add: enum_of_def ALL_UNCERTAINTIES_def)

lemma enum_of_mode: "enum_of ALL_MODES mode_value (JStr (ustr (mode_value x))) = Inr x"
  by (cases x) (simp_all add: enum_of_def ALL_MODES_def)

lemmas enum_of_values = enum_of_event enum_of_outcome enum_of_uncertainty enum_of_mode

lemma record_members:
  assumes "record_as_dict r = JObj ps" and "map_of qs = map_of ps"
  shows "member qs ''version'' = Inr (JStr (r_version r))"
    and "member qs ''batch_commitment'' = Inr (JStr (r_batch_commitment r))"
    and "member qs ''sequence'' = Inr (JInt (r_sequence r))"
    and "member qs ''event'' = Inr (JStr (ustr (event_value (r_event r))))"
    and "member qs ''cycle_ordinal'' = Inr (ordinal_json (r_cycle_ordinal r))"
    and "member qs ''cycle_mode'' = Inr (mode_json (r_cycle_mode r))"
    and "member qs ''prior_record_sha256'' = Inr (JStr (r_prior_record_sha256 r))"
    and "member qs ''payload_sha256'' = Inr (JStr (r_payload_sha256 r))"
    and "member qs ''monotonic_observation_ns'' = Inr (JInt (r_monotonic_observation_ns r))"
    and "member qs ''wall_observation_unix_ns'' = Inr (JInt (r_wall_observation_unix_ns r))"
    and "member qs ''outcome'' = Inr (JStr (ustr (outcome_value (r_outcome r))))"
    and "member qs ''uncertainty'' = Inr (JStr (ustr (uncertainty_value (r_uncertainty r))))"
  using assms(1) unfolding member_def assms(2) record_as_dict_def by auto

lemma record_keys: "record_as_dict r = JObj ps \<Longrightarrow> fst ` set ps = set (map ustr RECORD_KEYS)"
  by (auto simp: record_as_dict_def RECORD_KEYS_def)

lemma mode_json_enum:
  "(if mode_json m = JNull then Inr None
    else rbind (enum_of ALL_MODES mode_value (mode_json m)) (\<lambda>m. Inr (Some m))) = Inr m"
  by (cases m) (simp_all add: mode_json_def enum_of_mode)

lemma record_from_members:
  assumes "record_wf r" and "record_as_dict r = JObj ps"
    and "map_of qs = map_of ps" and "fst ` set qs = fst ` set ps"
  shows "record_from_mapping (JObj qs) = Inr r"
proof -
  have "set (map fst qs) = set (map ustr RECORD_KEYS)"
    using record_keys [OF assms(2)] assms(4) by simp
  moreover have "post_init (raw_of r) = Inr r"
    using assms(1) by (simp add: post_init_Inr)
  ultimately show ?thesis
    unfolding record_from_mapping_def json.case record_members [OF assms(2,3)] rbind_Inr_left
      enum_of_values mode_json_enum
    by (simp add: raw_of_def)
qed

lemma record_dict_ok: "dict_ok (record_as_dict r)"
  by (auto simp: record_as_dict_def ordinal_json_def mode_json_def split: option.splits)

lemma record_from_sorted:
  assumes "record_wf r"
  shows "record_from_mapping (sort_keys (record_as_dict r)) = Inr r"
proof -
  obtain ps where ps: "record_as_dict r = JObj ps" by (simp add: record_as_dict_def)
  let ?qs = "sort_key fst (map (on_value sort_keys) ps)"
  have d: "distinct (map fst ps)" using record_dict_ok [of r] ps by simp
  have s: "sort_keys v = v" if "(k, v) \<in> set ps" for k v
    using that ps by (auto simp: record_as_dict_def ordinal_json_def mode_json_def split: option.splits)
  then have "map_option sort_keys (map_of ps k) = map_of ps k" for k
    by (cases "map_of ps k") (auto dest: map_of_SomeD)
  then have "map_of ?qs = map_of ps"
    using map_of_sort_keys [OF d] by (simp add: fun_eq_iff)
  moreover have "fst ` set ?qs = fst ` set ps" by force
  ultimately have "record_from_mapping (JObj ?qs) = Inr r"
    using record_from_members [OF assms ps] by blast
  then show ?thesis using ps by simp
qed

lemma record_roundtrip:
  assumes "record_wf r" and "record_canonical_bytes r = Inr raw"
  shows "record_from_canonical_bytes raw = Inr r"
proof -
  have "load_canonical_bytes raw = Inr (sort_keys (record_as_dict r))"
    using assms(2) load_canonical [OF record_dict_ok] by (simp add: record_canonical_bytes_def)
  with record_from_sorted [OF assms(1)] show ?thesis
    by (simp add: record_from_canonical_bytes_def record_as_dict_def)
qed

abbreviation is_ascii :: "pystr \<Rightarrow> bool" where
  "is_ascii \<equiv> list_all (\<lambda>c. c < 128)"

lemma is_hex64_ascii: "is_hex64 s \<Longrightarrow> is_ascii s"
  by (auto simp: is_hex64_def list_all_iff dest: is_hex_less)

lemma event_value_ascii: "is_ascii (ustr (event_value e)) \<and> length (ustr (event_value e)) \<le> 64"
  by (cases e) (simp_all add: ustr_def)

lemma outcome_value_ascii: "is_ascii (ustr (outcome_value x)) \<and> length (ustr (outcome_value x)) \<le> 64"
  by (cases x) (simp_all add: ustr_def)

lemma uncertainty_value_ascii:
  "is_ascii (ustr (uncertainty_value x)) \<and> length (ustr (uncertainty_value x)) \<le> 64"
  by (cases x) (simp_all add: ustr_def)

lemma mode_value_ascii: "is_ascii (ustr (mode_value x)) \<and> length (ustr (mode_value x)) \<le> 64"
  by (cases x) (simp_all add: ustr_def)

lemma version_ascii: "is_ascii CONTROLLER_EVENT_VERSION \<and> length CONTROLLER_EVENT_VERSION \<le> 64"
  by (simp add: CONTROLLER_EVENT_VERSION_def ustr_def)

text \<open>
  A leaf of a small document: a scalar in range, or an ASCII string of at most 64 characters.
\<close>

fun small_leaf :: "json \<Rightarrow> bool" where
  "small_leaf (JInt i) = int_in_range i"
| "small_leaf (JStr s) = (is_ascii s \<and> length s \<le> 64)"
| "small_leaf (JArr xs) = False"
| "small_leaf (JObj ps) = False"
| "small_leaf v = True"

lemma small_leaf_bounds:
  assumes "small_leaf v"
  shows "d \<le> MAX_DEPTH \<Longrightarrow> fits d v" and "node_count v = 1" and "text_bytes v \<le> 64"
    and "sort_keys v = v" and "dict_ok v"
  using assms
  by (cases v; simp add: str_fits_ascii str_bytes_ascii MAX_STRING_BYTES_def)+

lemma small_object_total:
  assumes leaves: "\<forall>(k, v)\<in>set ps. is_ascii k \<and> length k \<le> 64 \<and> small_leaf v" and "length ps \<le> 128"
  shows "\<exists>b. canonical_bytes (JObj ps) = Inr b"
proof -
  have n: "sum_list (map (\<lambda>(k, v). node_count v) ps) = length ps"
    using leaves by (induction ps) (auto simp: small_leaf_bounds)
  have t: "sum_list (map (\<lambda>(k, v). str_bytes k + text_bytes v) ps) \<le> 128 * length ps"
    using leaves
  proof (induction ps)
    case (Cons p ps)
    then obtain k v where p: "p = (k, v)" "str_bytes k \<le> 64" "text_bytes v \<le> 64"
      using small_leaf_bounds(3) by (cases p) (auto simp: str_bytes_ascii)
    with Cons show ?case by auto
  qed simp
  have f: "str_fits MAX_KEY_BYTES k \<and> fits (Suc 0) v" if "(k, v) \<in> set ps" for k v
    using that leaves small_leaf_bounds(1) [of v "Suc 0"]
    by (auto simp: MAX_KEY_BYTES_def MAX_DEPTH_def intro!: str_fits_ascii)
  show ?thesis
    by (rule canonical_bytes_total)
      (use n t f assms(2) in \<open>auto simp: within_bounds_def MAX_CANONICAL_BYTES_def
        MAX_NODES_def MAX_DEPTH_def MAX_OBJECT_PROPERTIES_def\<close>)
qed

lemma record_canonical_total:
  assumes "record_wf r"
  shows "\<exists>b. record_canonical_bytes r = Inr b"
proof -
  have i: "int_in_range n" if "0 \<le> n" "n \<le> MAX_OBSERVATION_NS" for n
    using that by (simp add: int_in_range_def MIN_INTEGER_def MAX_INTEGER_def MAX_OBSERVATION_NS_def)
  have "small_leaf (ordinal_json (r_cycle_ordinal r))"
    using assms by (auto simp: record_wf_def binding_ok_def ordinal_json_def int_in_range_def
        MIN_INTEGER_def MAX_INTEGER_def split: option.splits)
  moreover have "small_leaf (mode_json (r_cycle_mode r))"
    using mode_value_ascii by (auto simp: mode_json_def split: option.splits)
  moreover have "int_in_range (r_sequence r)"
    using assms by (intro i) (auto simp: record_wf_def MAX_SEQUENCE_def MAX_OBSERVATION_NS_def)
  moreover note assms [unfolded record_wf_def]
  ultimately show ?thesis
    unfolding record_canonical_bytes_def record_as_dict_def
    by (intro small_object_total)
      (auto simp: i event_value_ascii outcome_value_ascii uncertainty_value_ascii version_ascii
        is_hex64_ascii ustr_def [of "_ # _"])
qed

lemma record_canonical_inj:
  assumes "record_wf r" "record_wf r'"
    and "record_canonical_bytes r = Inr b" "record_canonical_bytes r' = Inr b"
  shows "r = r'"
  using record_roundtrip [OF assms(1,3)] record_roundtrip [OF assms(2,4)] by simp

lemma record_sha256_total:
  "record_wf r \<Longrightarrow> \<exists>d. record_sha256 H r = Inr d"
  using record_canonical_total by (force simp: record_sha256_def)

end
