(* ===== verification/CampaignState.thy ===== *)
theory CampaignState
  imports CampaignContracts
begin

text \<open>
  \<^verbatim>\<open>completion_campaign_state.py\<close>: the pure seven-cycle reducer. \<open>reduce_campaign\<close> validates a
  whole record sequence and returns the one event that must come next, \<open>append_record\<close> accepts
  one more record. The second half of the theory states what the reducer implements: a small
  phase machine (\<open>pstep\<close>), of which the reducer accepts exactly the runs.
\<close>

type_synonym records = "controller_event_record list"
type_synonym row = "event \<times> int option \<times> cycle_mode option"

section \<open>The fixed path\<close>

definition CYCLE_ORDER :: "event list" where
  "CYCLE_ORDER = [CYCLE_OPENED, PLAN_INTENT, PLAN_ACCEPTED, APPLY_INTENT, APPLY_ACCEPTED,
     RUNNING_OBSERVED, REMOTE_INTENT, REMOTE_ACCEPTED, PRE_DESTROY_SEALED, DESTROY_INTENT,
     DESTROY_SETTLED, ZERO_OBSERVATION_INTENT, ZERO_ACCEPTED, CYCLE_SEALED]"

definition happy_path :: "row list" where
  "happy_path = [(BATCH_ADMITTED, None, None)]
     @ concat (map (\<lambda>(ordinal, mode). map (\<lambda>e. (e, Some ordinal, Some mode)) CYCLE_ORDER)
         (zip [1, 2, 3, 4, 5, 6, 7] CYCLE_MODES))
     @ [(FINAL_ZERO_OBSERVATION_INTENT, None, None), (FINAL_ZERO_ACCEPTED, None, None),
        (TERMINAL_CANDIDATE_VALIDATED, None, None), (SEALED, None, None)]"

definition HAPPY_PATH :: "row list" where
  "HAPPY_PATH = happy_path"

section \<open>States\<close>

record campaign_state =
  record_count :: nat
  status :: string
  next_event :: "event option"
  next_cycle_ordinal :: "int option"
  next_cycle_mode :: "cycle_mode option"
  success_possible :: bool
  success_eligible :: bool
  failure_recorded :: bool
  state_uncertainty :: uncertainty
  terminal :: bool

definition retry_authorized :: "campaign_state \<Rightarrow> bool" where
  "retry_authorized st = False"

record cleanup_step =
  step_event :: event
  step_cycle_ordinal :: "int option"
  step_cycle_mode :: "cycle_mode option"

definition fail :: "bool \<Rightarrow> string \<Rightarrow> 'a result \<Rightarrow> 'a result" where
  "fail condition message k = require condition (CampaignStateError message) k"

lemma fail_Inr [simp]: "fail c m k = Inr x \<longleftrightarrow> c \<and> k = Inr x"
  by (simp add: fail_def)

lemma fail_cong [fundef_cong, cong]:
  "c = c' \<Longrightarrow> (c' \<Longrightarrow> k = k') \<Longrightarrow> fail c m k = fail c' m k'"
  by (simp add: fail_def require_def)

section \<open>Cleanup\<close>

fun active_cycle_from ::
  "(int \<times> cycle_mode) option \<Rightarrow> records \<Rightarrow> (int \<times> cycle_mode) option result" where
  "active_cycle_from active [] = Inr active"
| "active_cycle_from active (r # rs) =
     (if r_event r = CYCLE_OPENED then
        (case (r_cycle_ordinal r, r_cycle_mode r) of
           (Some ordinal, Some mode) \<Rightarrow>
             fail (active = None) ''cycle overlap'' (active_cycle_from (Some (ordinal, mode)) rs)
         | _ \<Rightarrow> Inl (CampaignStateError ''opened cycle lacks binding''))
      else if r_event r = CYCLE_SEALED then
        fail (active \<noteq> None \<and> r_cycle_ordinal r = map_option fst active \<and>
              r_cycle_mode r = map_option snd active)
          ''sealed cycle binding mismatch'' (active_cycle_from None rs)
      else active_cycle_from active rs)"

definition active_cycle :: "records \<Rightarrow> (int \<times> cycle_mode) option result" where
  "active_cycle rs = active_cycle_from None rs"

definition has_event :: "records \<Rightarrow> event \<Rightarrow> int option \<Rightarrow> bool" where
  "has_event rs e ordinal \<longleftrightarrow>
     list_ex (\<lambda>r. r_event r = e \<and> (ordinal = None \<or> r_cycle_ordinal r = ordinal)) rs"

definition cleanup_steps :: "records \<Rightarrow> cleanup_step list result" where
  "cleanup_steps prefix =
     rbind (active_cycle prefix) (\<lambda>active.
       case active of
         None \<Rightarrow>
           Inr (if has_event prefix FINAL_ZERO_ACCEPTED None then []
                else (if has_event prefix FINAL_ZERO_OBSERVATION_INTENT None then []
                      else [\<lparr>step_event = FINAL_ZERO_OBSERVATION_INTENT,
                             step_cycle_ordinal = None, step_cycle_mode = None\<rparr>])
                     @ [\<lparr>step_event = FINAL_ZERO_ACCEPTED,
                         step_cycle_ordinal = None, step_cycle_mode = None\<rparr>])
       | Some (n, m) \<Rightarrow>
           (let ordinal = Some n; mode = Some m;
                step = (\<lambda>e. \<lparr>step_event = e, step_cycle_ordinal = ordinal, step_cycle_mode = mode\<rparr>) in
            Inr (if has_event prefix ZERO_ACCEPTED ordinal then []
                 else (if has_event prefix APPLY_INTENT ordinal \<and>
                          \<not> has_event prefix DESTROY_SETTLED ordinal
                       then (if has_event prefix DESTROY_INTENT ordinal then []
                             else [step DESTROY_INTENT]) @ [step DESTROY_SETTLED]
                       else [])
                      @ (if has_event prefix ZERO_OBSERVATION_INTENT ordinal then []
                         else [step ZERO_OBSERVATION_INTENT])
                      @ [step ZERO_ACCEPTED])))"

section \<open>Checks common to every sequence\<close>

record chain =
  c_batch :: "pystr option"
  c_prior :: pystr
  c_monotonic :: int
  c_wall :: int
  c_payloads :: "pystr set"
  c_hashes :: "pystr set"

definition empty_chain :: chain where
  "empty_chain = \<lparr>c_batch = None, c_prior = ZERO_SHA256, c_monotonic = - 1, c_wall = - 1,
     c_payloads = {}, c_hashes = {}\<rparr>"

definition check_link :: "digest_fun \<Rightarrow> int \<Rightarrow> chain \<Rightarrow> controller_event_record \<Rightarrow> chain result" where
  "check_link H index c r =
     fail (r_sequence r = index) ''record sequence gap or duplicate''
     (fail (c_batch c = None \<longrightarrow> r_batch_commitment r \<noteq> ZERO_SHA256) ''zero batch commitment rejected''
     (let batch = (case c_batch c of None \<Rightarrow> r_batch_commitment r | Some b \<Rightarrow> b) in
      fail (r_batch_commitment r = batch) ''cross-batch record''
     (fail (r_prior_record_sha256 r = c_prior c) ''prior-record hash chain mismatch''
     (fail (c_monotonic c \<le> r_monotonic_observation_ns r) ''monotonic observation regressed''
     (fail (c_wall c \<le> r_wall_observation_unix_ns r) ''wall observation regressed''
     (fail (r_payload_sha256 r \<notin> c_payloads c) ''payload digest replay''
     (rbind (record_sha256 H r) (\<lambda>digest.
      fail (digest \<notin> c_hashes c) ''record digest replay''
       (Inr \<lparr>c_batch = Some batch, c_prior = digest,
             c_monotonic = r_monotonic_observation_ns r, c_wall = r_wall_observation_unix_ns r,
             c_payloads = insert (r_payload_sha256 r) (c_payloads c),
             c_hashes = insert digest (c_hashes c)\<rparr>)))))))))"

fun check_chain :: "digest_fun \<Rightarrow> int \<Rightarrow> chain \<Rightarrow> records \<Rightarrow> chain result" where
  "check_chain H index c [] = Inr c"
| "check_chain H index c (r # rs) = rbind (check_link H index c r) (\<lambda>c'. check_chain H (index + 1) c' rs)"

definition check_common :: "digest_fun \<Rightarrow> records \<Rightarrow> unit result" where
  "check_common H rs = rbind (check_chain H 1 empty_chain rs) (\<lambda>_. Inr ())"

definition check_binding ::
  "controller_event_record \<Rightarrow> int option \<Rightarrow> cycle_mode option \<Rightarrow> 'a result \<Rightarrow> 'a result" where
  "check_binding r ordinal mode k =
     fail (r_cycle_ordinal r = ordinal \<and> r_cycle_mode r = mode) ''event cycle binding mismatch'' k"

definition check_uncertainty :: "controller_event_record \<Rightarrow> uncertainty \<Rightarrow> uncertainty result" where
  "check_uncertainty r before =
     (let introduced = outcome_introduces_uncertainty (r_event r) (r_outcome r);
          after = (if before = STICKY \<or> introduced then STICKY else CLEAR) in
      fail (r_uncertainty r = after) ''uncertainty is not an exact sticky projection'' (Inr after))"

definition check_outcome :: "controller_event_record \<Rightarrow> event \<Rightarrow> bool \<Rightarrow> string \<Rightarrow> 'a result \<Rightarrow> 'a result" where
  "check_outcome r e cleanup message k =
     rbind (required_outcomes e cleanup) (\<lambda>outcomes. fail (r_outcome r \<in> outcomes) message k)"

section \<open>The normal prefix\<close>

text \<open>
  The loop of \<^verbatim>\<open>_normal_prefix\<close>: \<open>done\<close> is \<^verbatim>\<open>records[:index]\<close>. It stops at the first failure
  record, as the \<^verbatim>\<open>break\<close> at the head of the next iteration does.
\<close>

fun normal_prefix_from ::
  "records \<Rightarrow> nat \<Rightarrow> uncertainty \<Rightarrow> records \<Rightarrow> (nat \<times> nat option) result" where
  "normal_prefix_from prefix happy unc [] = Inr (happy, None)"
| "normal_prefix_from prefix happy unc (r # rs) =
     fail (happy < length HAPPY_PATH) ''record after success terminal''
     (let (expected_event, ordinal, mode) = HAPPY_PATH ! happy in
      if r_event r = FAILURE_RECORDED then
        fail (0 < happy) ''failure cannot precede batch admission''
        (rbind (active_cycle prefix) (\<lambda>active.
         check_binding r (map_option fst active) (map_option snd active)
         (check_outcome r FAILURE_RECORDED False ''failure outcome mismatch''
         (rbind (check_uncertainty r unc) (\<lambda>_. Inr (happy, Some (length prefix)))))))
      else
        fail (r_event r = expected_event) ''normal event skip, reorder, retry, or replay''
        (check_binding r ordinal mode
        (check_outcome r (r_event r) False ''normal event outcome mismatch''
        (rbind (check_uncertainty r unc) (\<lambda>after.
         fail (after = CLEAR) ''uncertainty entered normal path''
           (normal_prefix_from (prefix @ [r]) (Suc happy) after rs))))))"

definition normal_prefix :: "records \<Rightarrow> (nat \<times> nat option) result" where
  "normal_prefix rs = normal_prefix_from [] 0 CLEAR rs"

section \<open>Reduction\<close>

definition failure_terminal :: "uncertainty \<Rightarrow> event" where
  "failure_terminal unc = (if unc = STICKY then TERMINAL_UNCERTAIN_SEALED else TERMINAL_FAILURE_SEALED)"

text \<open>The loop over the records behind the failure.\<close>

fun check_suffix :: "cleanup_step list \<Rightarrow> uncertainty \<Rightarrow> records \<Rightarrow> uncertainty result" where
  "check_suffix steps unc [] = Inr unc"
| "check_suffix (step # steps) unc (r # rs) =
     fail (r_event r = step_event step) ''cleanup-only suffix violated''
     (check_binding r (step_cycle_ordinal step) (step_cycle_mode step)
     (check_outcome r (r_event r) True ''cleanup outcome mismatch''
     (rbind (check_uncertainty r unc) (\<lambda>unc'. check_suffix steps unc' rs))))"
| "check_suffix [] unc (r # rs) =
     fail (r_event r = failure_terminal unc) ''wrong failure terminal''
     (check_binding r None None
     (check_outcome r (r_event r) False ''terminal outcome mismatch''
     (rbind (check_uncertainty r unc) (\<lambda>unc'. check_suffix [] unc' rs))))"

definition reduce_campaign :: "digest_fun \<Rightarrow> records \<Rightarrow> campaign_state result" where
  "reduce_campaign H rs =
     rbind (check_common H rs) (\<lambda>_.
     rbind (normal_prefix rs) (\<lambda>(happy, failure).
       case failure of
         None \<Rightarrow>
           (if happy = length HAPPY_PATH then
              Inr \<lparr>record_count = length rs, status = ''sealed'', next_event = None,
                   next_cycle_ordinal = None, next_cycle_mode = None, success_possible = True,
                   success_eligible = True, failure_recorded = False, state_uncertainty = CLEAR,
                   terminal = True\<rparr>
            else
              (let (e, ordinal, mode) = HAPPY_PATH ! happy in
               Inr \<lparr>record_count = length rs, status = ''normal'', next_event = Some e,
                    next_cycle_ordinal = ordinal, next_cycle_mode = mode, success_possible = True,
                    success_eligible = False, failure_recorded = False, state_uncertainty = CLEAR,
                    terminal = False\<rparr>))
       | Some i \<Rightarrow>
           (let failure = rs ! i; prefix = take i rs; suffix = drop (Suc i) rs in
            rbind (cleanup_steps prefix) (\<lambda>steps.
            fail (length suffix \<le> length steps + 1) ''record after failure terminal''
            (rbind (check_suffix steps (r_uncertainty failure) suffix) (\<lambda>unc.
             if length suffix < length steps then
               (let step = steps ! length suffix in
                Inr \<lparr>record_count = length rs, status = ''cleanup'', next_event = Some (step_event step),
                     next_cycle_ordinal = step_cycle_ordinal step,
                     next_cycle_mode = step_cycle_mode step, success_possible = False,
                     success_eligible = False, failure_recorded = True, state_uncertainty = unc,
                     terminal = False\<rparr>)
             else if length suffix = length steps then
               Inr \<lparr>record_count = length rs, status = ''cleanup'',
                    next_event = Some (failure_terminal unc), next_cycle_ordinal = None,
                    next_cycle_mode = None, success_possible = False, success_eligible = False,
                    failure_recorded = True, state_uncertainty = unc, terminal = False\<rparr>
             else
               Inr \<lparr>record_count = length rs,
                    status = (if unc = STICKY then ''terminal-uncertain'' else ''terminal-failure''),
                    next_event = None, next_cycle_ordinal = None, next_cycle_mode = None,
                    success_possible = False, success_eligible = False, failure_recorded = True,
                    state_uncertainty = unc, terminal = True\<rparr>))))))"

definition append_record ::
  "digest_fun \<Rightarrow> records \<Rightarrow> controller_event_record \<Rightarrow> records result" where
  "append_record H rs r =
     rbind (reduce_campaign H rs) (\<lambda>st.
     fail (\<not> terminal st) ''terminal state has no outgoing transition''
     (if status st = ''normal'' \<and> r_event r = FAILURE_RECORDED
      then rbind (reduce_campaign H (rs @ [r])) (\<lambda>_. Inr (rs @ [r]))
      else
        fail (Some (r_event r) = next_event st) ''record is not the required next event''
        (check_binding r (next_cycle_ordinal st) (next_cycle_mode st)
        (rbind (reduce_campaign H (rs @ [r])) (\<lambda>_. Inr (rs @ [r]))))))"

definition is_terminal_event :: "event \<Rightarrow> bool" where
  "is_terminal_event e \<longleftrightarrow> e \<in> TERMINAL_EVENTS"

section \<open>The phase machine\<close>

text \<open>
  What the reducer promises, without its loops: a campaign is in its normal phase with \<open>h\<close> rows of
  the fixed path done, or in its cleanup phase with the steps still owed, or done. The plan owed
  after a failure is written out by position here: \<open>(h - 1) div 14\<close> is the running cycle and
  \<open>(h - 1) mod 14\<close> how many of its fourteen events are recorded.
\<close>

datatype phase =
    Normal nat
  | Cleanup "cleanup_step list" uncertainty
  | Done uncertainty

definition row_of :: "controller_event_record \<Rightarrow> row" where
  "row_of r = (r_event r, r_cycle_ordinal r, r_cycle_mode r)"

definition step_row :: "cleanup_step \<Rightarrow> row" where
  "step_row s = (step_event s, step_cycle_ordinal s, step_cycle_mode s)"

definition active_at :: "nat \<Rightarrow> (int \<times> cycle_mode) option" where
  "active_at h =
     (if 1 \<le> h \<and> h \<le> 98 \<and> (h - 1) mod 14 \<noteq> 0
      then Some (int ((h - 1) div 14) + 1, if (h - 1) div 14 = 0 then FULL else READINESS)
      else None)"

definition plan_at :: "nat \<Rightarrow> cleanup_step list" where
  "plan_at h =
     (case active_at h of
        None \<Rightarrow> (if h < 100 then [\<lparr>step_event = FINAL_ZERO_OBSERVATION_INTENT,
                    step_cycle_ordinal = None, step_cycle_mode = None\<rparr>] else [])
              @ (if h < 101 then [\<lparr>step_event = FINAL_ZERO_ACCEPTED,
                    step_cycle_ordinal = None, step_cycle_mode = None\<rparr>] else [])
      | Some (n, m) \<Rightarrow>
          (let j = (h - 1) mod 14;
               owed = (\<lambda>e. \<lparr>step_event = e, step_cycle_ordinal = Some n, step_cycle_mode = Some m\<rparr>) in
           (if 4 \<le> j \<and> j \<le> 9 then [owed DESTROY_INTENT] else [])
         @ (if 4 \<le> j \<and> j \<le> 10 then [owed DESTROY_SETTLED] else [])
         @ (if j \<le> 11 then [owed ZERO_OBSERVATION_INTENT] else [])
         @ (if j \<le> 12 then [owed ZERO_ACCEPTED] else [])))"

definition allowed :: "controller_event_record \<Rightarrow> bool \<Rightarrow> bool" where
  "allowed r cleanup \<longleftrightarrow> (\<exists>S. required_outcomes (r_event r) cleanup = Inr S \<and> r_outcome r \<in> S)"

definition sticky :: "uncertainty \<Rightarrow> controller_event_record \<Rightarrow> uncertainty" where
  "sticky u r =
     (if u = STICKY \<or> outcome_introduces_uncertainty (r_event r) (r_outcome r) then STICKY else CLEAR)"

inductive pstep :: "phase \<Rightarrow> controller_event_record \<Rightarrow> phase \<Rightarrow> bool" where
  pstep_normal:
    "h < 103 \<Longrightarrow> row_of r = HAPPY_PATH ! h \<Longrightarrow> allowed r False \<Longrightarrow> r_uncertainty r = CLEAR \<Longrightarrow>
     pstep (Normal h) r (Normal (Suc h))"
| pstep_failure:
    "0 < h \<Longrightarrow> h < 103 \<Longrightarrow>
     row_of r = (FAILURE_RECORDED, map_option fst (active_at h), map_option snd (active_at h)) \<Longrightarrow>
     allowed r False \<Longrightarrow> r_uncertainty r = sticky CLEAR r \<Longrightarrow>
     pstep (Normal h) r (Cleanup (plan_at h) (r_uncertainty r))"
| pstep_cleanup:
    "row_of r = step_row s \<Longrightarrow> allowed r True \<Longrightarrow> r_uncertainty r = sticky u r \<Longrightarrow>
     pstep (Cleanup (s # ss) u) r (Cleanup ss (r_uncertainty r))"
| pstep_terminal:
    "row_of r = (failure_terminal u, None, None) \<Longrightarrow> allowed r False \<Longrightarrow> r_uncertainty r = u \<Longrightarrow>
     pstep (Cleanup [] u) r (Done u)"

inductive_cases pstep_normalE: "pstep (Normal h) r p"
inductive_cases pstep_cleanupE: "pstep (Cleanup ss u) r p"
inductive_simps pstep_normal_simps: "pstep (Normal h) r p"
inductive_simps pstep_cons_simps: "pstep (Cleanup (s # ss) u) r p"
inductive_simps pstep_nil_simps: "pstep (Cleanup [] u) r p"
inductive_simps pstep_done_simps [simp]: "pstep (Done u) r p"

inductive prun :: "phase \<Rightarrow> records \<Rightarrow> phase \<Rightarrow> bool" where
  prun_nil: "prun p [] p"
| prun_cons: "pstep p r q \<Longrightarrow> prun q rs p' \<Longrightarrow> prun p (r # rs) p'"

inductive_simps prun_nil_simps [simp]: "prun p [] p'"
inductive_simps prun_cons_simps: "prun p (r # rs) p'"

definition view :: "nat \<Rightarrow> phase \<Rightarrow> campaign_state" where
  "view n p =
     (case p of
        Normal h \<Rightarrow>
          (if h = 103 then
             \<lparr>record_count = n, status = ''sealed'', next_event = None, next_cycle_ordinal = None,
              next_cycle_mode = None, success_possible = True, success_eligible = True,
              failure_recorded = False, state_uncertainty = CLEAR, terminal = True\<rparr>
           else
             \<lparr>record_count = n, status = ''normal'', next_event = Some (fst (HAPPY_PATH ! h)),
              next_cycle_ordinal = fst (snd (HAPPY_PATH ! h)),
              next_cycle_mode = snd (snd (HAPPY_PATH ! h)), success_possible = True,
              success_eligible = False, failure_recorded = False, state_uncertainty = CLEAR,
              terminal = False\<rparr>)
      | Cleanup [] u \<Rightarrow>
          \<lparr>record_count = n, status = ''cleanup'', next_event = Some (failure_terminal u),
           next_cycle_ordinal = None, next_cycle_mode = None, success_possible = False,
           success_eligible = False, failure_recorded = True, state_uncertainty = u,
           terminal = False\<rparr>
      | Cleanup (s # ss) u \<Rightarrow>
          \<lparr>record_count = n, status = ''cleanup'', next_event = Some (step_event s),
           next_cycle_ordinal = step_cycle_ordinal s, next_cycle_mode = step_cycle_mode s,
           success_possible = False, success_eligible = False, failure_recorded = True,
           state_uncertainty = u, terminal = False\<rparr>
      | Done u \<Rightarrow>
          \<lparr>record_count = n,
           status = (if u = STICKY then ''terminal-uncertain'' else ''terminal-failure''),
           next_event = None, next_cycle_ordinal = None, next_cycle_mode = None,
           success_possible = False, success_eligible = False, failure_recorded = True,
           state_uncertainty = u, terminal = True\<rparr>)"

section \<open>The fixed path by position\<close>

lemma length_HAPPY_PATH [simp]: "length HAPPY_PATH = 103"
  by code_simp

text \<open>A record that carries a given row and nothing else of interest.\<close>

definition row_record :: "row \<Rightarrow> controller_event_record" where
  "row_record x = (case x of (e, ordinal, mode) \<Rightarrow>
     \<lparr>r_version = [], r_batch_commitment = [], r_sequence = 0, r_event = e,
      r_cycle_ordinal = ordinal, r_cycle_mode = mode, r_prior_record_sha256 = [],
      r_payload_sha256 = [], r_monotonic_observation_ns = 0, r_wall_observation_unix_ns = 0,
      r_outcome = ACCEPTED, r_uncertainty = CLEAR\<rparr>)"

lemma row_of_row_record [simp]: "row_of (row_record x) = x"
  by (cases x) (simp add: row_record_def row_of_def)

lemma active_cycle_from_rows:
  "map row_of rs = map row_of rs' \<Longrightarrow> active_cycle_from a rs = active_cycle_from a rs'"
proof (induction rs arbitrary: rs' a)
  case (Cons r rs)
  then obtain r' rs'' where "rs' = r' # rs''" "row_of r = row_of r'" "map row_of rs = map row_of rs''"
    by (cases rs') auto
  moreover have "active_cycle_from b rs = active_cycle_from b rs''" for b
    using Cons.IH calculation(3) by blast
  ultimately show ?case by (auto simp: row_of_def split: option.splits)
qed simp

lemma has_event_rows:
  assumes "map row_of rs = map row_of rs'"
  shows "has_event rs e n = has_event rs' e n"
proof -
  have "has_event rs e n \<longleftrightarrow> (\<exists>x\<in>set (map row_of rs). fst x = e \<and> (n = None \<or> fst (snd x) = n))" for rs
    by (auto simp: has_event_def list_ex_iff row_of_def)
  then show ?thesis by (simp only: assms)
qed

lemma cleanup_steps_rows:
  assumes "map row_of rs = map row_of rs'"
  shows "cleanup_steps rs = cleanup_steps rs'"
  unfolding cleanup_steps_def active_cycle_def active_cycle_from_rows [OF assms]
    has_event_rows [OF assms] by simp

lemma path_positions:
  "list_all (\<lambda>h. active_cycle (map row_record (take h HAPPY_PATH)) = Inr (active_at h) \<and>
     cleanup_steps (map row_record (take h HAPPY_PATH)) = Inr (plan_at h)) [0..<104]"
  by code_simp

lemma cycle_at_position:
  assumes "map row_of rs = take h HAPPY_PATH" and "h \<le> 103"
  shows "active_cycle rs = Inr (active_at h)" and "cleanup_steps rs = Inr (plan_at h)"
proof -
  have rows: "map row_of rs = map row_of (map row_record (take h HAPPY_PATH))"
    using assms(1) by (simp add: comp_def)
  have "h \<in> set [0..<104]" using assms(2) by simp
  note * = path_positions [unfolded list_all_iff, rule_format, OF this]
  show "active_cycle rs = Inr (active_at h)"
    using * unfolding active_cycle_def active_cycle_from_rows [OF rows] by simp
  show "cleanup_steps rs = Inr (plan_at h)"
    using * unfolding cleanup_steps_rows [OF rows] by simp
qed

section \<open>The reducer implements the phase machine\<close>

lemma prun_append: "prun p (xs @ ys) p' \<longleftrightarrow> (\<exists>q. prun p xs q \<and> prun q ys p')"
  by (induction xs arbitrary: p) (auto simp: prun_cons_simps)

lemma prun_snoc: "prun p (xs @ [r]) p' \<longleftrightarrow> (\<exists>q. prun p xs q \<and> pstep q r p')"
  by (simp add: prun_append prun_cons_simps)

lemma prun_done [simp]: "prun (Done u) rs p \<longleftrightarrow> rs = [] \<and> p = Done u"
  by (cases rs) (auto simp: prun_cons_simps)

lemma check_outcome_Inr:
  "r_event r = e \<Longrightarrow> check_outcome r e cleanup msg k = Inr x \<longleftrightarrow> allowed r cleanup \<and> k = Inr x"
  by (auto simp: check_outcome_def allowed_def)

lemma check_uncertainty_Inr:
  "check_uncertainty r u = Inr u' \<longleftrightarrow> u' = sticky u r \<and> r_uncertainty r = sticky u r"
  by (auto simp: check_uncertainty_def sticky_def Let_def)

lemma check_binding_Inr:
  "check_binding r n m k = Inr x \<longleftrightarrow> r_cycle_ordinal r = n \<and> r_cycle_mode r = m \<and> k = Inr x"
  by (simp add: check_binding_def)

lemmas check_Inr = check_outcome_Inr check_uncertainty_Inr check_binding_Inr

lemma terminal_sticky:
  "r_event r = failure_terminal u \<Longrightarrow> allowed r False \<Longrightarrow> sticky u r = u"
  by (cases u) (auto simp: allowed_def sticky_def failure_terminal_def required_outcomes_def
    INTENT_EVENTS_def outcome_introduces_uncertainty_def UNCERTAIN_OUTCOMES_def)

definition after_suffix :: "cleanup_step list \<Rightarrow> nat \<Rightarrow> uncertainty \<Rightarrow> phase" where
  "after_suffix steps n u = (if n \<le> length steps then Cleanup (drop n steps) u else Done u)"

lemma check_suffix_runs:
  "length suffix \<le> length steps + 1 \<and>
     (\<exists>u'. check_suffix steps u suffix = Inr u' \<and> p = after_suffix steps (length suffix) u') \<longleftrightarrow>
   prun (Cleanup steps u) suffix p"
proof (induction suffix arbitrary: steps u)
  case Nil
  then show ?case by (auto simp: after_suffix_def)
next
  case (Cons r rs)
  note IH = Cons.IH
  show ?case
  proof (cases steps)
    case Nil
    have "sticky u r = u" if "r_event r = failure_terminal u" "allowed r False"
      using that by (rule terminal_sticky)
    then have "prun (Cleanup [] u) (r # rs) p \<longleftrightarrow>
        row_of r = (failure_terminal u, None, None) \<and> allowed r False \<and>
        r_uncertainty r = sticky u r \<and> rs = [] \<and> p = Done u"
      by (auto simp: prun_cons_simps pstep_nil_simps row_of_def)
    with Nil show ?thesis by (auto simp: check_Inr row_of_def after_suffix_def terminal_sticky)
  next
    case (Cons s ss)
    have "prun (Cleanup (s # ss) u) (r # rs) p \<longleftrightarrow>
        row_of r = step_row s \<and> allowed r True \<and> r_uncertainty r = sticky u r \<and>
        prun (Cleanup ss (r_uncertainty r)) rs p"
      by (auto simp: prun_cons_simps pstep_cons_simps)
    moreover have "after_suffix (s # ss) (length (r # rs)) = after_suffix ss (length rs)"
      by (simp add: after_suffix_def fun_eq_iff)
    ultimately show ?thesis
      using IH [of ss "sticky u r"] Cons by (auto simp: check_Inr row_of_def step_row_def)
  qed
qed

definition classify :: "records \<Rightarrow> nat \<times> nat option \<Rightarrow> phase result" where
  "classify rs x =
     (case x of
        (happy, None) \<Rightarrow> Inr (Normal happy)
      | (happy, Some i) \<Rightarrow>
          rbind (cleanup_steps (take i rs)) (\<lambda>steps.
          fail (length (drop (Suc i) rs) \<le> length steps + 1) ''record after failure terminal''
          (rbind (check_suffix steps (r_uncertainty (rs ! i)) (drop (Suc i) rs)) (\<lambda>unc.
           Inr (after_suffix steps (length (drop (Suc i) rs)) unc)))))"

lemma fail_rbind: "rbind (fail c m k) f = fail c m (rbind k f)"
  by (simp add: fail_def require_def)

lemma rbind_assoc: "rbind (rbind m f) g = rbind m (\<lambda>x. rbind (f x) g)"
  by (cases m) simp_all

lemma reduce_campaign_classify:
  "reduce_campaign H rs =
     rbind (check_common H rs) (\<lambda>_. rbind (normal_prefix rs) (\<lambda>x.
       rbind (classify rs x) (\<lambda>p. Inr (view (length rs) p))))"
proof -
  have c: "drop k steps = steps ! k # drop (Suc k) steps" if "k < length steps" for k and steps :: "cleanup_step list"
    using that by (simp add: Cons_nth_drop_Suc)
  show ?thesis
    unfolding reduce_campaign_def classify_def
    by (intro rbind_cong refl)
      (auto simp: fail_rbind rbind_assoc after_suffix_def c view_def Let_def split: option.splits prod.splits
        intro!: rbind_cong fail_cong)
qed

lemma happy_not_failure: "h < 103 \<Longrightarrow> fst (HAPPY_PATH ! h) \<noteq> FAILURE_RECORDED"
proof -
  have "list_all (\<lambda>x. fst x \<noteq> FAILURE_RECORDED) HAPPY_PATH" by code_simp
  then show "h < 103 \<Longrightarrow> fst (HAPPY_PATH ! h) \<noteq> FAILURE_RECORDED" by (simp add: list_all_length)
qed

lemma normal_sticky:
  "r_event r \<noteq> FAILURE_RECORDED \<Longrightarrow> allowed r False \<Longrightarrow> sticky CLEAR r = CLEAR"
  by (cases "r_event r") (auto simp: allowed_def sticky_def required_outcomes_def
    INTENT_EVENTS_def outcome_introduces_uncertainty_def UNCERTAIN_OUTCOMES_def)

lemma normal_prefix_from_runs:
  assumes "map row_of prefix = take h HAPPY_PATH" and "length prefix = h" and "h \<le> 103"
  shows "rbind (normal_prefix_from prefix h CLEAR rs) (classify (prefix @ rs)) = Inr p \<longleftrightarrow>
    prun (Normal h) rs p"
  using assms
proof (induction rs arbitrary: prefix h)
  case Nil
  then show ?case by (auto simp: classify_def)
next
  case (Cons r rs)
  show ?case
  proof (cases "h < 103")
    case False
    then show ?thesis using Cons.prems by (auto simp: prun_cons_simps pstep_normal_simps)
  next
    case True
    obtain e n m where row: "HAPPY_PATH ! h = (e, n, m)" by (cases "HAPPY_PATH ! h")
    note here = cycle_at_position [OF Cons.prems(1,3)]
    show ?thesis
    proof (cases "r_event r = FAILURE_RECORDED")
      case True
      have "e \<noteq> FAILURE_RECORDED" using happy_not_failure [OF \<open>h < 103\<close>] row by simp
      then have "prun (Normal h) (r # rs) p \<longleftrightarrow> 0 < h \<and>
          row_of r = (FAILURE_RECORDED, map_option fst (active_at h), map_option snd (active_at h)) \<and>
          allowed r False \<and> r_uncertainty r = sticky CLEAR r \<and>
          prun (Cleanup (plan_at h) (r_uncertainty r)) rs p"
        using \<open>h < 103\<close> True row by (auto simp: prun_cons_simps pstep_normal_simps row_of_def)
      moreover have "classify (prefix @ r # rs) (h, Some h) = Inr p \<longleftrightarrow>
          prun (Cleanup (plan_at h) (r_uncertainty r)) rs p"
        using Cons.prems(2) here(2)
        by (auto simp: classify_def nth_append simp flip: check_suffix_runs)
      ultimately show ?thesis
        using \<open>h < 103\<close> True here(1) row Cons.prems(2) by (auto simp: check_Inr row_of_def)
    next
      case False
      have "map row_of (prefix @ [r]) = take (Suc h) HAPPY_PATH" if "row_of r = HAPPY_PATH ! h"
        using that Cons.prems(1) True by (simp add: take_Suc_conv_app_nth)
      note IH = Cons.IH [of "prefix @ [r]" "Suc h", OF this]
      have "prun (Normal h) (r # rs) p \<longleftrightarrow> row_of r = HAPPY_PATH ! h \<and> allowed r False \<and>
          r_uncertainty r = CLEAR \<and> prun (Normal (Suc h)) rs p"
        using True False by (auto simp: prun_cons_simps pstep_normal_simps row_of_def)
      then show ?thesis
        using True False row Cons.prems(2) IH normal_sticky [OF False]
        by (auto simp: check_Inr row_of_def)
    qed
  qed
qed

lemma normal_prefix_runs:
  "rbind (normal_prefix rs) (classify rs) = Inr p \<longleftrightarrow> prun (Normal 0) rs p"
  using normal_prefix_from_runs [of "[]" 0 rs p] by (simp add: normal_prefix_def)

lemma reduce_campaign_runs:
  "reduce_campaign H rs = Inr st \<longleftrightarrow>
     check_common H rs = Inr () \<and> (\<exists>p. prun (Normal 0) rs p \<and> st = view (length rs) p)"
  unfolding reduce_campaign_classify
  by (auto simp flip: normal_prefix_runs)

end
