(* ===== verification/CampaignRuns.thy ===== *)
theory CampaignRuns
  imports CampaignState "HOL-Library.Sublist"
begin

text \<open>
  The two halves of an accepted record sequence in closed form: \<open>chain_ok\<close> says what the checks
  common to every sequence demand of it, and the \<open>prun_\<close> lemmas give the exact shape of the runs of
  the phase machine, the cleanup each of them owes, and when a step is possible.
\<close>

section \<open>The chain checks in closed form\<close>

definition digests :: "digest_fun \<Rightarrow> records \<Rightarrow> pystr list" where
  "digests H rs = map (\<lambda>r. projr (record_sha256 H r)) rs"

definition link_at :: "digest_fun \<Rightarrow> records \<Rightarrow> nat \<Rightarrow> bool" where
  "link_at H rs i \<longleftrightarrow>
     r_sequence (rs ! i) = int i + 1 \<and>
     r_batch_commitment (rs ! i) = r_batch_commitment (hd rs) \<and>
     r_batch_commitment (hd rs) \<noteq> ZERO_SHA256 \<and>
     r_prior_record_sha256 (rs ! i) = (if i = 0 then ZERO_SHA256 else digests H rs ! (i - 1)) \<and>
     - 1 \<le> r_monotonic_observation_ns (rs ! i) \<and> - 1 \<le> r_wall_observation_unix_ns (rs ! i) \<and>
     (\<exists>d. record_sha256 H (rs ! i) = Inr d)"

definition chain_ok :: "digest_fun \<Rightarrow> records \<Rightarrow> bool" where
  "chain_ok H rs \<longleftrightarrow>
     (\<forall>i<length rs. link_at H rs i) \<and>
     sorted (map r_monotonic_observation_ns rs) \<and> sorted (map r_wall_observation_unix_ns rs) \<and>
     distinct (map r_payload_sha256 rs) \<and> distinct (digests H rs)"

definition chain_of :: "digest_fun \<Rightarrow> records \<Rightarrow> chain" where
  "chain_of H rs =
     (if rs = [] then empty_chain
      else \<lparr>c_batch = Some (r_batch_commitment (hd rs)), c_prior = last (digests H rs),
            c_monotonic = r_monotonic_observation_ns (last rs),
            c_wall = r_wall_observation_unix_ns (last rs),
            c_payloads = r_payload_sha256 ` set rs, c_hashes = set (digests H rs)\<rparr>)"

lemma check_chain_snoc:
  "check_chain H i c (xs @ [r]) =
     rbind (check_chain H i c xs) (\<lambda>c'. check_link H (i + int (length xs)) c' r)"
proof (induction xs arbitrary: i c)
  case Nil
  then show ?case by (cases "check_link H i c r") simp_all
next
  case (Cons x xs)
  then show ?case by (cases "check_link H i c x") (simp_all add: algebra_simps)
qed

lemma length_digests [simp]: "length (digests H rs) = length rs"
  by (simp add: digests_def)

lemma digests_snoc: "digests H (rs @ [r]) = digests H rs @ [projr (record_sha256 H r)]"
  by (simp add: digests_def)

definition link_ok :: "digest_fun \<Rightarrow> records \<Rightarrow> controller_event_record \<Rightarrow> bool" where
  "link_ok H rs r \<longleftrightarrow>
     r_sequence r = int (length rs) + 1 \<and>
     r_batch_commitment r = r_batch_commitment (hd (rs @ [r])) \<and>
     r_batch_commitment (hd (rs @ [r])) \<noteq> ZERO_SHA256 \<and>
     r_prior_record_sha256 r = (if rs = [] then ZERO_SHA256 else last (digests H rs)) \<and>
     (if rs = [] then - 1 else r_monotonic_observation_ns (last rs)) \<le> r_monotonic_observation_ns r \<and>
     (if rs = [] then - 1 else r_wall_observation_unix_ns (last rs)) \<le> r_wall_observation_unix_ns r \<and>
     r_payload_sha256 r \<notin> r_payload_sha256 ` set rs \<and>
     (\<exists>d. record_sha256 H r = Inr d \<and> d \<notin> set (digests H rs))"

lemma check_link_Inr:
  assumes "rs \<noteq> [] \<Longrightarrow> r_batch_commitment (hd rs) \<noteq> ZERO_SHA256"
  shows "check_link H (int (length rs) + 1) (chain_of H rs) r = Inr c \<longleftrightarrow>
     link_ok H rs r \<and> c = chain_of H (rs @ [r])"
  using assms
  by (cases "rs = []")
    (auto simp: check_link_def chain_of_def link_ok_def empty_chain_def Let_def digests_def)

lemma sorted_snoc: "sorted (xs @ [x :: int]) \<longleftrightarrow> sorted xs \<and> (xs = [] \<or> last xs \<le> x)"
  by (cases xs rule: rev_cases) (auto simp: sorted_append)

lemma link_at_append: "i < length rs \<Longrightarrow> link_at H (rs @ [r]) i = link_at H rs i"
  by (cases "rs = []") (auto simp: link_at_def digests_def nth_append)

lemma link_at_last:
  assumes "rs \<noteq> []"
  shows "link_at H (rs @ [r]) (length rs) \<longleftrightarrow>
     r_sequence r = int (length rs) + 1 \<and> r_batch_commitment r = r_batch_commitment (hd rs) \<and>
     r_batch_commitment (hd rs) \<noteq> ZERO_SHA256 \<and> r_prior_record_sha256 r = last (digests H rs) \<and>
     - 1 \<le> r_monotonic_observation_ns r \<and> - 1 \<le> r_wall_observation_unix_ns r \<and>
     (\<exists>d. record_sha256 H r = Inr d)"
proof -
  have "digests H (rs @ [r]) ! (length rs - 1) = last (digests H rs)"
    using assms by (simp add: digests_def nth_append last_conv_nth)
  with assms show ?thesis by (auto simp: link_at_def)
qed

lemma chain_ok_low:
  assumes "chain_ok H rs" and "rs \<noteq> []"
  shows "- 1 \<le> r_monotonic_observation_ns (last rs)" and "- 1 \<le> r_wall_observation_unix_ns (last rs)"
  using assms by (auto simp: chain_ok_def link_at_def last_conv_nth)

lemma chain_ok_snoc: "chain_ok H (rs @ [r]) \<longleftrightarrow> chain_ok H rs \<and> link_ok H rs r"
proof (cases "rs = []")
  case True
  then show ?thesis by (auto simp: chain_ok_def link_ok_def link_at_def digests_def)
next
  case False
  have "(\<forall>i<length (rs @ [r]). link_at H (rs @ [r]) i) \<longleftrightarrow>
      (\<forall>i<length rs. link_at H rs i) \<and> link_at H (rs @ [r]) (length rs)"
    by (auto simp: less_Suc_eq link_at_append)
  then have "chain_ok H (rs @ [r]) \<longleftrightarrow> chain_ok H rs \<and> link_at H (rs @ [r]) (length rs) \<and>
      r_monotonic_observation_ns (last rs) \<le> r_monotonic_observation_ns r \<and>
      r_wall_observation_unix_ns (last rs) \<le> r_wall_observation_unix_ns r \<and>
      r_payload_sha256 r \<notin> r_payload_sha256 ` set rs \<and> projr (record_sha256 H r) \<notin> set (digests H rs)"
    using False by (auto simp: chain_ok_def sorted_snoc digests_snoc last_map)
  then show ?thesis
    using False chain_ok_low [of H rs] unfolding link_at_last [OF False] link_ok_def by fastforce
qed

lemma check_chain_Inr: "check_chain H 1 empty_chain rs = Inr c \<longleftrightarrow> chain_ok H rs \<and> c = chain_of H rs"
proof (induction rs arbitrary: c rule: rev_induct)
  case Nil
  then show ?case by (auto simp: chain_ok_def chain_of_def digests_def)
next
  case (snoc r rs)
  have "chain_ok H rs \<Longrightarrow> rs \<noteq> [] \<Longrightarrow> r_batch_commitment (hd rs) \<noteq> ZERO_SHA256"
    by (auto simp: chain_ok_def link_at_def)
  note check_link_Inr [OF this]
  then show ?case
    by (auto simp: check_chain_snoc snoc.IH chain_ok_snoc add.commute)
qed

lemma check_common_Inr: "check_common H rs = Inr () \<longleftrightarrow> chain_ok H rs"
  by (auto simp: check_common_def check_chain_Inr)


section \<open>The shape of a run\<close>

definition fail_row :: "nat \<Rightarrow> row" where
  "fail_row h = (FAILURE_RECORDED, map_option fst (active_at h), map_option snd (active_at h))"

lemma prun_to_normal:
  "prun (Normal 0) rs (Normal h) \<Longrightarrow>
     h \<le> 103 \<and> length rs = h \<and> map row_of rs = take h HAPPY_PATH \<and>
     (\<forall>r\<in>set rs. r_uncertainty r = CLEAR \<and> allowed r False \<and> r_event r \<noteq> FAILURE_RECORDED)"
proof (induction rs arbitrary: h rule: rev_induct)
  case (snoc r rs)
  from snoc.prems obtain h' where
    *: "prun (Normal 0) rs (Normal h')" "h = Suc h'" "h' < 103" "row_of r = HAPPY_PATH ! h'"
       "allowed r False" "r_uncertainty r = CLEAR"
    by (auto simp: prun_snoc elim!: pstep.cases)
  moreover have "r_event r \<noteq> FAILURE_RECORDED"
    using happy_not_failure [OF *(3)] *(4) by (metis row_of_def fst_conv)
  ultimately show ?case
    using snoc.IH [OF *(1)] by (auto simp: take_Suc_conv_app_nth)
qed simp

lemma prun_shape:
  assumes "prun (Normal 0) rs p"
  shows "case p of
      Normal h \<Rightarrow> h \<le> 103 \<and> map row_of rs = take h HAPPY_PATH
    | Cleanup todo u \<Rightarrow> \<exists>h taken. 0 < h \<and> h < 103 \<and> plan_at h = taken @ todo \<and>
        map row_of rs = take h HAPPY_PATH @ fail_row h # map step_row taken
    | Done u \<Rightarrow> \<exists>h. 0 < h \<and> h < 103 \<and>
        map row_of rs = take h HAPPY_PATH @ fail_row h # map step_row (plan_at h)
          @ [(failure_terminal u, None, None)]"
  using assms
proof (induction rs arbitrary: p rule: rev_induct)
  case (snoc r rs)
  then obtain q where q: "prun (Normal 0) rs q" "pstep q r p" by (auto simp: prun_snoc)
  from q(2) show ?case
  proof cases
    case (pstep_normal h)
    then show ?thesis using prun_to_normal [of "rs @ [r]" "Suc h"] snoc.prems by auto
  next
    case (pstep_failure h)
    then show ?thesis using prun_to_normal [of rs h] q(1) by (auto simp: fail_row_def)
  next
    case (pstep_cleanup s u ss)
    with snoc.IH [OF q(1)] obtain h taken where
      "0 < h" "h < 103" "plan_at h = taken @ s # ss"
      "map row_of rs = take h HAPPY_PATH @ fail_row h # map step_row taken" by auto
    then show ?thesis using pstep_cleanup
      by (auto intro!: exI [of _ h] exI [of _ "taken @ [s]"])
  next
    case (pstep_terminal u)
    then show ?thesis using snoc.IH [OF q(1)] by auto
  qed
qed (auto)


lemma not_sticky: "u \<noteq> STICKY \<longleftrightarrow> u = CLEAR"
  by (cases u) auto

lemma prun_uncertainty:
  assumes "prun (Normal 0) rs p"
  shows "(p = Done CLEAR \<or> (\<exists>h. p = Normal h) \<or> (\<exists>ss. p = Cleanup ss CLEAR)) \<longleftrightarrow>
    (\<forall>r\<in>set rs. r_uncertainty r = CLEAR)"
  using assms
proof (induction rs arbitrary: p rule: rev_induct)
  case (snoc r rs)
  then obtain q where q: "prun (Normal 0) rs q" "pstep q r p" by (auto simp: prun_snoc)
  from q(2) snoc.IH [OF q(1)] show ?case
    by cases (auto simp: sticky_def not_sticky split: if_splits)
qed auto

lemma prun_allowed:
  "prun (Normal 0) rs p \<Longrightarrow> \<forall>r\<in>set rs. allowed r True \<and>
     (r_uncertainty r = CLEAR \<longrightarrow> \<not> outcome_introduces_uncertainty (r_event r) (r_outcome r))"
proof (induction rs arbitrary: p rule: rev_induct)
  case (snoc r rs)
  have a: "allowed r False \<Longrightarrow> allowed r True"
    by (cases "r_event r") (auto simp: allowed_def required_outcomes_def INTENT_EVENTS_def)
  obtain q where q: "prun (Normal 0) rs q" "pstep q r p" using snoc.prems by (auto simp: prun_snoc)
  have s: "r_uncertainty r = CLEAR \<Longrightarrow> \<not> outcome_introduces_uncertainty (r_event r) (r_outcome r)"
    if "r_uncertainty r = sticky u r" for u
    using that by (auto simp: sticky_def)
  from q(2) have "allowed r True \<and>
     (r_uncertainty r = CLEAR \<longrightarrow> \<not> outcome_introduces_uncertainty (r_event r) (r_outcome r))"
  proof cases
    case (pstep_normal h)
    have "r_event r \<noteq> FAILURE_RECORDED"
      using pstep_normal happy_not_failure [of h] by (metis row_of_def fst_conv)
    then show ?thesis using pstep_normal a s [of CLEAR] normal_sticky [of r] by auto
  next
    case (pstep_terminal u)
    then have "sticky u r = u" using terminal_sticky [of r u] by (simp add: row_of_def)
    then show ?thesis using pstep_terminal a s [of u] by auto
  qed (use a s in auto)
  then show ?case using snoc.IH [OF q(1)] by auto
qed simp

section \<open>Extensions\<close>

lemma reduce_prefix:
  "reduce_campaign H (rs @ [r]) = Inr st \<longleftrightarrow>
     chain_ok H rs \<and> link_ok H rs r \<and>
     (\<exists>q p. prun (Normal 0) rs q \<and> pstep q r p \<and> st = view (Suc (length rs)) p)"
  by (auto simp: reduce_campaign_runs check_common_Inr chain_ok_snoc prun_snoc)

lemma pstep_next:
  assumes "pstep p r q" and "p = Normal h \<Longrightarrow> h \<le> 103"
  shows "\<not> terminal (view n p) \<and>
    (status (view n p) = ''normal'' \<and> r_event r = FAILURE_RECORDED \<or>
     next_event (view n p) = Some (r_event r) \<and>
     next_cycle_ordinal (view n p) = r_cycle_ordinal r \<and> next_cycle_mode (view n p) = r_cycle_mode r)"
  using assms
  by cases (auto simp: view_def row_of_def step_row_def split: list.splits dest: sym [of "(_, _, _)"])

lemma view_terminal:
  "terminal (view n p) \<longleftrightarrow> p = Normal 103 \<or> (\<exists>u. p = Done u)"
  by (auto simp: view_def split: phase.splits list.splits)


lemma prun_normal_le: "prun (Normal 0) rs (Normal h) \<Longrightarrow> h \<le> 103"
  using prun_to_normal by blast

lemma happy_failure_row: "h < 103 \<Longrightarrow> HAPPY_PATH ! h \<noteq> (FAILURE_RECORDED, n, m)"
  using happy_not_failure by fastforce

lemma pstep_deterministic: "pstep p r q \<Longrightarrow> pstep p r q' \<Longrightarrow> q' = q"
  by (auto elim!: pstep.cases dest: happy_failure_row [THEN not_sym])

lemma prun_deterministic: "prun p rs q \<Longrightarrow> prun p rs q' \<Longrightarrow> q' = q"
proof (induction arbitrary: q' rule: prun.induct)
  case (prun_cons p r q rs p')
  from prun_cons.prems obtain q1 where "pstep p r q1" "prun q1 rs q'" by (auto simp: prun_cons_simps)
  with prun_cons pstep_deterministic show ?case by blast
qed simp

lemma prun_terminal_stops:
  assumes "prun (Normal 0) rs p" and "p = Normal 103 \<or> (\<exists>u. p = Done u)"
  shows "\<not> prun (Normal 0) (rs @ r # tail) q"
proof
  assume "prun (Normal 0) (rs @ r # tail) q"
  then obtain p' where "prun (Normal 0) rs p'" "prun p' (r # tail) q" by (auto simp: prun_append)
  with prun_deterministic [OF assms(1)] have "prun p (r # tail) q" by blast
  with assms(2) show False by (auto simp: prun_cons_simps pstep_normal_simps)
qed

section \<open>Cleanup owed by position\<close>

text \<open>
  The five events that close a cycle that asked for an apply, in their order.
\<close>

definition teardown :: "int \<Rightarrow> cycle_mode \<Rightarrow> row list" where
  "teardown n m = map (\<lambda>e. (e, Some n, Some m))
     [APPLY_INTENT, DESTROY_INTENT, DESTROY_SETTLED, ZERO_OBSERVATION_INTENT, ZERO_ACCEPTED]"

definition mode_at :: "nat \<Rightarrow> cycle_mode" where
  "mode_at k = (if k = 0 then FULL else READINESS)"

lemma apply_positions:
  "list_all (\<lambda>i. fst (HAPPY_PATH ! i) = APPLY_INTENT \<longrightarrow>
     HAPPY_PATH ! i = (APPLY_INTENT, Some (int ((i - 1) div 14) + 1), Some (mode_at ((i - 1) div 14))) \<and>
     (i - 1) mod 14 = 3 \<and> (i - 1) div 14 < 7) [0..<103]"
  by code_simp

lemma apply_position:
  assumes "i < 103" and "HAPPY_PATH ! i = (APPLY_INTENT, n, m)"
  shows "n = Some (int ((i - 1) div 14) + 1) \<and> m = Some (mode_at ((i - 1) div 14)) \<and>
    (i - 1) mod 14 = 3 \<and> (i - 1) div 14 < 7"
proof -
  have "i \<in> set [0..<103]" using assms(1) by simp
  note apply_positions [unfolded list_all_iff, rule_format, OF this]
  then show ?thesis using assms(2) by simp
qed

lemma teardown_complete:
  "list_all (\<lambda>k. subseq (teardown (int k + 1) (mode_at k)) (take (15 + 14 * k) HAPPY_PATH)) [0..<7]"
  by code_simp

lemma teardown_running:
  "list_all (\<lambda>k. list_all (\<lambda>j. subseq (teardown (int k + 1) (mode_at k))
       (drop (14 * k + 1) (take (14 * k + 1 + j) HAPPY_PATH) @ map step_row (plan_at (14 * k + 1 + j)))) [4..<14])
     [0..<7]"
  by code_simp

lemma teardown_owed:
  assumes "(APPLY_INTENT, Some n, Some m) \<in> set (take h HAPPY_PATH)" and "h \<le> 103"
  shows "subseq (teardown n m) (take h HAPPY_PATH @ x # map step_row (plan_at h) @ ys)"
    and "h = 103 \<Longrightarrow> subseq (teardown n m) (take h HAPPY_PATH)"
proof -
  obtain i where i: "i < h" "HAPPY_PATH ! i = (APPLY_INTENT, Some n, Some m)"
    using assms by (auto simp: in_set_conv_nth)
  define k where "k = (i - 1) div 14"
  have pos: "n = int k + 1" "m = mode_at k" "(i - 1) mod 14 = 3" "k < 7"
    using apply_position [OF _ i(2)] i(1) assms(2) by (auto simp: k_def)
  then have i_eq: "i = 14 * k + 4" using div_mult_mod_eq [of "i - 1" 14] unfolding k_def by linarith
  have full: "subseq (teardown n m) (take h HAPPY_PATH)" if "15 + 14 * k \<le> h"
  proof -
    have "subseq (teardown n m) (take (15 + 14 * k) HAPPY_PATH)"
      using teardown_complete pos by (auto simp: list_all_iff)
    moreover have "prefix (take (15 + 14 * k) HAPPY_PATH) (take h HAPPY_PATH)"
      using that by (metis take_take min.absorb1 take_is_prefix)
    ultimately show ?thesis using prefix_imp_subseq subseq_order.trans by blast
  qed
  then show "h = 103 \<Longrightarrow> subseq (teardown n m) (take h HAPPY_PATH)" using pos by simp
  show "subseq (teardown n m) (take h HAPPY_PATH @ x # map step_row (plan_at h) @ ys)"
  proof (cases "15 + 14 * k \<le> h")
    case True
    then show ?thesis using full by (meson list_emb_append2 list_emb_append_mono subseq_rev_drop_many)
  next
    case False
    define j where "j = h - (14 * k + 1)"
    have h: "h = 14 * k + 1 + j" and j: "j \<in> set [4..<14]" and k: "k \<in> set [0..<7]"
      using False i(1) i_eq pos(4) unfolding set_upt atLeastLessThan_iff j_def by linarith+
    let ?d = "drop (14 * k + 1) (take h HAPPY_PATH)"
    have "subseq (teardown n m) (?d @ map step_row (plan_at h))"
      using teardown_running j k pos(1,2) unfolding list_all_iff h by blast
    moreover have "subseq (?d @ ps) (take h HAPPY_PATH @ x # ps @ ys)" for ps
    proof (rule list_emb_append_mono)
      show "subseq ?d (take h HAPPY_PATH)" by (rule suffix_imp_subseq) (rule suffix_drop)
      have "subseq ps (ps @ ys)" by (rule prefix_imp_subseq) simp
      then show "subseq ps (x # ps @ ys)" by (rule list_emb_Cons)
    qed
    ultimately show ?thesis by (rule subseq_order.trans)
  qed
qed

lemma plan_length: "h \<le> 103 \<Longrightarrow> h + length (plan_at h) \<le> 102 \<or> h = 103 \<or> plan_at h = []"
  by (auto simp: plan_at_def active_at_def Let_def)

lemma plan_no_apply: "s \<in> set (plan_at h) \<Longrightarrow> step_event s \<noteq> APPLY_INTENT"
  by (auto simp: plan_at_def Let_def split: option.splits if_splits)

lemma apply_bound:
  "(APPLY_INTENT, n, m) \<in> set HAPPY_PATH \<Longrightarrow> \<exists>n' m'. n = Some n' \<and> m = Some m'"
  by (auto simp: in_set_conv_nth dest: apply_position)

lemma append_record_extends:
  "append_record H rs r = Inr rs' \<longleftrightarrow>
     rs' = rs @ [r] \<and> (\<exists>st. reduce_campaign H (rs @ [r]) = Inr st)"
proof -
  have "\<exists>st. reduce_campaign H rs = Inr st \<and> \<not> terminal st \<and>
      (status st = ''normal'' \<and> r_event r = FAILURE_RECORDED \<or>
       next_event st = Some (r_event r) \<and> next_cycle_ordinal st = r_cycle_ordinal r \<and>
       next_cycle_mode st = r_cycle_mode r)"
    if "reduce_campaign H (rs @ [r]) = Inr st'" for st'
  proof -
    from that obtain q p where *: "chain_ok H rs" "prun (Normal 0) rs q" "pstep q r p"
      by (auto simp: reduce_prefix)
    then show ?thesis
      using pstep_next [OF *(3)] prun_normal_le [of rs] by (auto simp: reduce_campaign_runs check_common_Inr)
  qed
  then show ?thesis
    by (auto simp: append_record_def check_binding_def split: if_splits) fastforce+
qed

lemma required_outcomes_nonempty: "\<exists>S out. required_outcomes e cleanup = Inr S \<and> out \<in> S"
  by (cases e) (auto simp: required_outcomes_def INTENT_EVENTS_def)

lemma pstep_possible:
  assumes "\<not> terminal (view n p)" and "\<And>h. p = Normal h \<Longrightarrow> h \<le> 103"
  shows "\<exists>out unc. \<forall>r. Some (r_event r) = next_event (view n p) \<and>
    r_cycle_ordinal r = next_cycle_ordinal (view n p) \<and> r_cycle_mode r = next_cycle_mode (view n p) \<and>
    r_outcome r = out \<and> r_uncertainty r = unc \<longrightarrow> (\<exists>q. pstep p r q)"
proof (cases p)
  case (Normal h)
  then have h: "h < 103" using assms(1) assms(2) [OF Normal] by (auto simp: view_def split: if_splits)
  obtain e n m where row: "HAPPY_PATH ! h = (e, n, m)" by (cases "HAPPY_PATH ! h")
  obtain S out where out: "required_outcomes e False = Inr S" "out \<in> S"
    using required_outcomes_nonempty by blast
  show ?thesis
    by (rule exI [of _ out], rule exI [of _ CLEAR])
      (use Normal h row out in \<open>auto simp: view_def row_of_def allowed_def intro!: exI pstep_normal\<close>)
next
  case (Cleanup ss u)
  show ?thesis
  proof (cases ss)
    case Nil
    obtain S out where out: "required_outcomes (failure_terminal u) False = Inr S" "out \<in> S"
      using required_outcomes_nonempty by blast
    show ?thesis
      by (rule exI [of _ out], rule exI [of _ u])
        (use Cleanup Nil out in \<open>auto simp: view_def row_of_def allowed_def intro!: exI pstep_terminal\<close>)
  next
    case (Cons s ss')
    obtain S out where out: "required_outcomes (step_event s) True = Inr S" "out \<in> S"
      using required_outcomes_nonempty by blast
    let ?u = "if u = STICKY \<or> outcome_introduces_uncertainty (step_event s) out then STICKY else CLEAR"
    have "\<exists>q. pstep p r q" if "row_of r = step_row s" "r_outcome r = out" "r_uncertainty r = ?u" for r
      unfolding Cleanup Cons
      by (rule exI, rule pstep_cleanup) (use that out in \<open>auto simp: row_of_def step_row_def allowed_def sticky_def\<close>)
    then show ?thesis
      by (intro exI [of _ out] exI [of _ ?u]) (use Cleanup Cons in \<open>auto simp: view_def row_of_def step_row_def\<close>)
  qed
next
  case (Done u)
  then show ?thesis using assms by (simp add: view_def)
qed

section \<open>Tamper evidence\<close>

lemma last_digest:
  assumes "chain_ok H rs" and "rs \<noteq> []"
  shows "record_sha256 H (last rs) = Inr (last (digests H rs))"
proof -
  have "\<exists>d. record_sha256 H (last rs) = Inr d"
    using assms by (auto simp: chain_ok_def link_at_def last_conv_nth)
  then show ?thesis using assms(2) by (auto simp: digests_def last_map)
qed

lemma chain_unique:
  assumes "chain_ok H rs" and "chain_ok H rs'" and "rs \<noteq> []" and "rs' \<noteq> []" and "last rs = last rs'"
    and "\<And>r r'. r \<in> set rs \<Longrightarrow> r' \<in> set rs' \<Longrightarrow> record_sha256 H r = record_sha256 H r' \<Longrightarrow> r = r'"
  shows "rs = rs'"
  using assms
proof (induction rs arbitrary: rs' rule: rev_induct)
  case (snoc r xs)
  obtain ys where ys: "rs' = ys @ [r]"
    using snoc.prems(4,5) by (cases rs' rule: rev_cases) auto
  have ok: "chain_ok H xs" "link_ok H xs r" "chain_ok H ys" "link_ok H ys r"
    using snoc.prems(1,2) by (auto simp: ys chain_ok_snoc)
  then have len: "length xs = length ys" by (simp add: link_ok_def)
  show ?case
  proof (cases "xs = []")
    case True
    then show ?thesis using len ys by simp
  next
    case False
    then have ne: "ys \<noteq> []" using len by auto
    then have "last (digests H xs) = last (digests H ys)" using ok False by (auto simp: link_ok_def)
    then have "last xs = last ys"
      using last_digest [OF ok(1) False] last_digest [OF ok(3) ne] False ne snoc.prems(6) by (simp add: ys)
    then have "xs = ys" using snoc.IH [OF ok(1,3) False ne] snoc.prems(6) by (simp add: ys)
    then show ?thesis by (simp add: ys)
  qed
qed simp

lemma record_sha256_inj:
  assumes "record_wf r" "record_wf r'" and "record_sha256 H r = record_sha256 H r'"
    and "inj_on H (projr ` record_canonical_bytes ` {r, r'})"
  shows "r = r'"
proof -
  obtain b b' where b: "record_canonical_bytes r = Inr b" "record_canonical_bytes r' = Inr b'"
    using record_canonical_total assms(1,2) by meson
  then have "H b = H b'" using assms(3) by (simp add: record_sha256_def sha256_hex_def)
  moreover have "inj_on H {b, b'}" using assms(4) b by simp
  ultimately have "b = b'" by (meson inj_onD insertI1 insertI2)
  then show ?thesis using record_canonical_inj assms(1,2) b by blast
qed

section \<open>Length\<close>

lemma accepted_length:
  assumes "reduce_campaign H rs = Inr st"
  shows "length rs \<le> 104"
proof -
  from assms obtain p where p: "prun (Normal 0) rs p" by (auto simp: reduce_campaign_runs)
  have "length (map row_of rs) \<le> 104"
  proof (cases p)
    case (Normal h)
    then show ?thesis using prun_shape [OF p] by auto
  next
    case (Cleanup todo u)
    with prun_shape [OF p] obtain h taken where "h < 103" "plan_at h = taken @ todo"
      "map row_of rs = take h HAPPY_PATH @ fail_row h # map step_row taken" by auto
    then show ?thesis using plan_length [of h] by (auto simp: min_def)
  next
    case (Done u)
    with prun_shape [OF p] obtain h where "h < 103"
      "map row_of rs = take h HAPPY_PATH @ fail_row h # map step_row (plan_at h)
          @ [(failure_terminal u, None, None)]" by auto
    then show ?thesis using plan_length [of h] by (auto simp: min_def)
  qed
  then show ?thesis by simp
qed

lemma accepted_next:
  assumes "reduce_campaign H rs = Inr st" and "\<not> terminal st"
  shows "\<exists>e. next_event st = Some e"
proof -
  have "\<exists>e. next_event (view n p) = Some e" if "\<not> terminal (view n p)" for n p
    using that by (cases p) (auto simp: view_def split: list.splits)
  then show ?thesis using assms by (auto simp: reduce_campaign_runs)
qed

end
