(* ===== verification/Samples.thy ===== *)
theory Samples
  imports CampaignRuns
begin

text \<open>
  Concrete campaigns. \<open>sequence_digest\<close> is a digest function that reads a record back from its
  canonical bytes and returns its sequence number in the form of a SHA-256 text; by the round trip
  of the record encoding the digest of a well-formed record is known without computing its bytes.
  \<open>laid\<close> chains records over a list of rows, and \<open>laid_ok\<close> shows that the chain checks
  accept it, so the campaigns of the witnesses are laid over explicit rows.
\<close>

section \<open>Hexadecimal texts\<close>

definition hex_digit :: "nat \<Rightarrow> nat" where
  "hex_digit d = (if d < 10 then 48 + d else 87 + d)"

primrec hex_digits :: "nat \<Rightarrow> nat \<Rightarrow> pystr" where
  "hex_digits 0 n = []"
| "hex_digits (Suc k) n = hex_digit (n mod 16) # hex_digits k (n div 16)"

definition hex_text :: "nat \<Rightarrow> pystr" where
  "hex_text n = hex_digits 64 n"

lemma hex_digit_inj: "d < 16 \<Longrightarrow> d' < 16 \<Longrightarrow> hex_digit d = hex_digit d' \<Longrightarrow> d = d'"
  by (auto simp: hex_digit_def split: if_splits)

lemma hex_digits_inj:
  "n < 16 ^ k \<Longrightarrow> m < 16 ^ k \<Longrightarrow> hex_digits k n = hex_digits k m \<Longrightarrow> n = m"
proof (induction k arbitrary: n m)
  case (Suc k)
  then have "n div 16 = m div 16" "n mod 16 = m mod 16"
    by (auto simp: less_mult_imp_div_less mult.commute intro: hex_digit_inj)
  then show ?case by (metis div_mult_mod_eq)
qed simp

lemma is_hex_hex_digit: "d < 16 \<Longrightarrow> is_hex (hex_digit d)"
  by (auto simp: is_hex_def hex_digit_def)

lemma hex_digits_hex: "length (hex_digits k n) = k \<and> list_all is_hex (hex_digits k n)"
  by (induction k arbitrary: n) (auto simp: is_hex_hex_digit)

lemma is_hex64_hex_text [simp]: "is_hex64 (hex_text n)"
  using hex_digits_hex by (simp add: hex_text_def is_hex64_def)

lemma hex_text_inj: "n < 2 ^ 64 \<Longrightarrow> m < 2 ^ 64 \<Longrightarrow> hex_text n = hex_text m \<longleftrightarrow> n = m"
  using hex_digits_inj [of n 64 m] by (auto simp: hex_text_def)

lemma hex_text_0: "hex_text 0 = ZERO_SHA256"
proof -
  have "hex_digits k 0 = replicate k 48" for k by (induction k) (simp_all add: hex_digit_def)
  then show ?thesis by (simp add: hex_text_def ZERO_SHA256_def)
qed

section \<open>Laying records over rows\<close>

definition sequence_digest :: digest_fun where
  "sequence_digest b =
     (case record_from_canonical_bytes b of
        Inr r \<Rightarrow> hex_text (nat (r_sequence r))
      | Inl _ \<Rightarrow> ZERO_SHA256)"

lemma sequence_digest_record:
  "record_wf r \<Longrightarrow> record_sha256 sequence_digest r = Inr (hex_text (nat (r_sequence r)))"
  using record_canonical_total [of r] record_roundtrip [of r]
  by (auto simp: record_sha256_def sha256_hex_def sequence_digest_def)

type_synonym entry = "row \<times> outcome \<times> uncertainty"

definition laid_record :: "nat \<Rightarrow> entry \<Rightarrow> controller_event_record" where
  "laid_record i x = (case x of ((e, n, m), out, unc) \<Rightarrow>
     \<lparr>r_version = CONTROLLER_EVENT_VERSION, r_batch_commitment = hex_text 1,
      r_sequence = int i + 1, r_event = e, r_cycle_ordinal = n, r_cycle_mode = m,
      r_prior_record_sha256 = hex_text i, r_payload_sha256 = hex_text (1000 + i),
      r_monotonic_observation_ns = int i, r_wall_observation_unix_ns = int i,
      r_outcome = out, r_uncertainty = unc\<rparr>)"

definition laid :: "entry list \<Rightarrow> records" where
  "laid xs = map (\<lambda>i. laid_record i (xs ! i)) [0..<length xs]"

definition entry_ok :: "entry \<Rightarrow> bool" where
  "entry_ok x = (case x of ((e, n, m), out, unc) \<Rightarrow>
     (case required_outcomes e True of Inr S \<Rightarrow> out \<in> S | Inl _ \<Rightarrow> False) \<and>
     (outcome_introduces_uncertainty e out \<longrightarrow> unc = STICKY) \<and>
     (e = TERMINAL_UNCERTAIN_SEALED \<longrightarrow> unc = STICKY) \<and>
     (e = SEALED \<or> e = TERMINAL_FAILURE_SEALED \<longrightarrow> unc = CLEAR) \<and> binding_ok e n m)"

lemma laid_record_wf: "entry_ok x \<Longrightarrow> i < 256 \<Longrightarrow> record_wf (laid_record i x)"
  by (auto simp: entry_ok_def laid_record_def record_wf_def MAX_SEQUENCE_def MAX_OBSERVATION_NS_def
      split: sum.splits)

lemma laid_digest:
  "entry_ok x \<Longrightarrow> i < 256 \<Longrightarrow> record_sha256 sequence_digest (laid_record i x) = Inr (hex_text (i + 1))"
  using sequence_digest_record [OF laid_record_wf [of x i]]
  by (auto simp: laid_record_def split: prod.splits) (metis Suc_as_int add.commute nat_int of_nat_1 of_nat_add plus_1_eq_Suc)

lemma laid_wf:
  assumes "list_all entry_ok xs" and "length xs \<le> 256"
  shows "\<forall>r\<in>set (laid xs). record_wf r"
  using assms by (auto simp: laid_def list_all_length intro!: laid_record_wf)

lemma laid_fields:
  "r_sequence (laid_record i x) = int i + 1" "r_batch_commitment (laid_record i x) = hex_text 1"
  "r_prior_record_sha256 (laid_record i x) = hex_text i" "r_payload_sha256 (laid_record i x) = hex_text (1000 + i)"
  "r_monotonic_observation_ns (laid_record i x) = int i" "r_wall_observation_unix_ns (laid_record i x) = int i"
  by (simp_all add: laid_record_def split: prod.splits)

lemma sorted_map_int: "sorted (map int [0..<n])"
  by (simp add: sorted_iff_nth_mono)

lemma laid_ok:
  assumes "list_all entry_ok xs" and "length xs \<le> 256"
  shows "chain_ok sequence_digest (laid xs)"
proof -
  have d: "record_sha256 sequence_digest (laid_record i (xs ! i)) = Inr (hex_text (i + 1))" if "i < length xs" for i
    using assms that laid_digest [of "xs ! i" i] by (simp add: list_all_length)
  then have ds: "digests sequence_digest (laid xs) = map (\<lambda>i. hex_text (i + 1)) [0..<length xs]"
    by (simp add: digests_def laid_def)
  have hd: "r_batch_commitment (hd (laid xs)) = hex_text 1" if "i < length xs" for i
    using that by (cases xs) (simp_all add: laid_def upt_conv_Cons laid_fields del: upt_Suc)
  have one: "hex_text 1 \<noteq> ZERO_SHA256" unfolding hex_text_0 [symmetric] by (subst hex_text_inj) simp_all
  have inj: "inj_on (\<lambda>i. hex_text (f i)) {0..<length xs}" if "\<And>i. i < 256 \<Longrightarrow> f i < 2000" "inj f" for f
  proof (rule inj_onI)
    fix i j assume *: "i \<in> {0..<length xs}" "j \<in> {0..<length xs}" "hex_text (f i) = hex_text (f j)"
    then have "f i < 2000" "f j < 2000" using assms(2) by (auto intro: that(1))
    then have "f i = f j" using *(3) by (simp add: hex_text_inj)
    then show "i = j" using that(2) by (simp add: inj_eq)
  qed
  show ?thesis
    unfolding chain_ok_def ds
  proof (intro conjI allI impI)
    fix i assume "i < length (laid xs)"
    then have i: "i < length xs" by (simp add: laid_def)
    show "link_at sequence_digest (laid xs) i"
      using i hd [OF i] one d [OF i] unfolding link_at_def ds by (auto simp: laid_def laid_fields hex_text_0)
  next
    show "distinct (map r_payload_sha256 (laid xs))"
      using inj [of "\<lambda>i. 1000 + i"] by (simp add: laid_def laid_fields distinct_map comp_def)
    show "distinct (map (\<lambda>i. hex_text (i + 1)) [0..<length xs])"
      using inj [of "\<lambda>i. i + 1"] by (simp add: distinct_map)
  qed (simp_all add: laid_def laid_fields comp_def sorted_map_int)
qed

lemma laid_collision_free:
  assumes "list_all entry_ok xs" and "length xs \<le> 256"
  shows "inj_on sequence_digest (projr ` record_canonical_bytes ` set (laid xs))"
proof -
  have d: "sequence_digest (projr (record_canonical_bytes (laid_record i (xs ! i)))) = hex_text (i + 1)"
    if "i < length xs" for i
    using assms that laid_digest [of "xs ! i" i]
    by (auto simp: list_all_length record_sha256_def sha256_hex_def)
  have "i = j" if "i < length xs" "j < length xs" "hex_text (i + 1) = hex_text (j + 1)" for i j
    using that assms(2) hex_text_inj [of "i + 1" "j + 1"] by simp
  with d show ?thesis unfolding laid_def by (intro inj_onI) (auto, metis)
qed

text \<open>A run reads of a record its row, its outcome and its uncertainty; \<open>light\<close> keeps these.\<close>

definition entry_of :: "controller_event_record \<Rightarrow> entry" where
  "entry_of r = (row_of r, r_outcome r, r_uncertainty r)"

definition light :: "entry \<Rightarrow> controller_event_record" where
  "light x = (row_record (fst x))\<lparr>r_outcome := fst (snd x), r_uncertainty := snd (snd x)\<rparr>"

lemma entry_of_light [simp]: "entry_of (light x) = x"
  by (cases x) (simp add: entry_of_def light_def row_of_def row_record_def split: prod.splits)

lemma entry_of_laid: "map entry_of (laid xs) = xs"
  by (rule nth_equalityI) (auto simp: laid_def laid_record_def entry_of_def row_of_def split: prod.splits)

lemma pstep_entry:
  assumes "pstep p r q" and "entry_of r = entry_of r'"
  shows "pstep p r' q"
proof -
  have "row_of r' = row_of r" "r_uncertainty r' = r_uncertainty r"
    "allowed r' c = allowed r c" "sticky u r' = sticky u r" for c u
    using assms(2) by (simp_all add: entry_of_def row_of_def allowed_def sticky_def)
  with assms(1) show ?thesis by cases (auto simp: pstep.simps)
qed

lemma prun_entries: "prun p rs q \<Longrightarrow> map entry_of rs = map entry_of rs' \<Longrightarrow> prun p rs' q"
proof (induction arbitrary: rs' rule: prun.induct)
  case (prun_cons p r q rs p')
  then obtain r' rs'' where "rs' = r' # rs''" "entry_of r = entry_of r'" "map entry_of rs = map entry_of rs''"
    by (cases rs') auto
  with prun_cons show ?case by (auto simp: prun_cons_simps intro: pstep_entry)
qed simp

lemma laid_reduces:
  assumes "list_all entry_ok xs" and "length xs \<le> 256"
    and "rbind (normal_prefix (map light xs)) (classify (map light xs)) = Inr p"
  shows "reduce_campaign sequence_digest (laid xs) = Inr (view (length xs) p)"
proof -
  have "prun (Normal 0) (laid xs) p"
    using assms(3) [unfolded normal_prefix_runs]
    by (rule prun_entries) (simp add: entry_of_laid comp_def)
  moreover have "length (laid xs) = length xs" by (simp add: laid_def)
  ultimately show ?thesis
    using laid_ok [OF assms(1,2)] by (auto simp: reduce_campaign_runs check_common_Inr)
qed


section \<open>The sample campaigns\<close>

text \<open>One that fails behind the intent to apply and is cleaned up, one that is sealed.\<close>

definition failed_entries :: "entry list" where
  "failed_entries =
     [((BATCH_ADMITTED, None, None), ACCEPTED, CLEAR),
      ((CYCLE_OPENED, Some 1, Some FULL), ACCEPTED, CLEAR),
      ((PLAN_INTENT, Some 1, Some FULL), INTENDED, CLEAR),
      ((PLAN_ACCEPTED, Some 1, Some FULL), ACCEPTED, CLEAR),
      ((APPLY_INTENT, Some 1, Some FULL), INTENDED, CLEAR),
      ((FAILURE_RECORDED, Some 1, Some FULL), FAILED, CLEAR),
      ((DESTROY_INTENT, Some 1, Some FULL), INTENDED, CLEAR),
      ((DESTROY_SETTLED, Some 1, Some FULL), ACCEPTED, CLEAR),
      ((ZERO_OBSERVATION_INTENT, Some 1, Some FULL), INTENDED, CLEAR),
      ((ZERO_ACCEPTED, Some 1, Some FULL), ZERO, CLEAR),
      ((TERMINAL_FAILURE_SEALED, None, None), OUTCOME_SEALED, CLEAR)]"

definition plain_outcome :: "event \<Rightarrow> outcome" where
  "plain_outcome e =
     (if e \<in> INTENT_EVENTS then INTENDED
      else if e = RUNNING_OBSERVED then OBSERVED
      else if e \<in> {ZERO_ACCEPTED, FINAL_ZERO_ACCEPTED} then ZERO
      else if e \<in> {PRE_DESTROY_SEALED, CYCLE_SEALED, TERMINAL_CANDIDATE_VALIDATED, SEALED} then OUTCOME_SEALED
      else ACCEPTED)"

definition sealed_entries :: "entry list" where
  "sealed_entries = map (\<lambda>x. (x, plain_outcome (fst x), CLEAR)) HAPPY_PATH"

lemma failed_entries_ok: "list_all entry_ok failed_entries"
  by code_simp

lemma sealed_entries_ok: "list_all entry_ok sealed_entries"
  by code_simp

lemma failed_reduces: "reduce_campaign sequence_digest (laid failed_entries) = Inr (view 11 (Done CLEAR))"
proof -
  have "rbind (normal_prefix (map light failed_entries)) (classify (map light failed_entries)) = Inr (Done CLEAR)"
    by code_simp
  moreover have "length failed_entries = 11" by (simp add: failed_entries_def)
  ultimately show ?thesis using laid_reduces [OF failed_entries_ok] by simp
qed

lemma sealed_reduces: "reduce_campaign sequence_digest (laid sealed_entries) = Inr (view 103 (Normal 103))"
proof -
  have "rbind (normal_prefix (map light sealed_entries)) (classify (map light sealed_entries)) = Inr (Normal 103)"
    by code_simp
  moreover have "length sealed_entries = 103" by (simp add: sealed_entries_def)
  ultimately show ?thesis using laid_reduces [OF sealed_entries_ok] by simp
qed

end
