(* ===== verification/CampaignEncoding.thy ===== *)
theory CampaignEncoding
  imports Samples
begin

text \<open>
  The theorems of the codec and of the record contract. The parser's hooks are strict (no key
  twice, integers in range, nothing else), so decoding is the exact inverse of encoding: each
  document has one encoding and each accepted byte string one document.
\<close>

section \<open>Strict hooks\<close>

locale strict_hooks = json_hooks +
  assumes pairs_sound: "object_pairs_hook h ps = Inr v \<Longrightarrow> v = JObj ps \<and> distinct (map fst ps)"
    and parse_int_sound: "parse_int h s = Inr v \<Longrightarrow> \<exists>i. v = JInt i \<and> p i"
    and no_float: "parse_float h s \<noteq> Inr v"
    and no_constant: "parse_constant h s \<noteq> Inr v"
begin

definition mode_ok :: "mode \<Rightarrow> bool" where
  "mode_ok m = (case m of Item xs \<Rightarrow> items_ok p xs | Items xs \<Rightarrow> items_ok p xs
     | Member ps \<Rightarrow> members_ok p ps | Members ps \<Rightarrow> members_ok p ps | Once \<Rightarrow> True)"

lemma items_ok_append: "items_ok p (xs @ ys) \<longleftrightarrow> items_ok p xs \<and> items_ok p ys"
  by (auto simp: items_ok_iff)

lemma members_ok_append: "members_ok p (xs @ ys) \<longleftrightarrow> members_ok p xs \<and> members_ok p ys"
  by (auto simp: members_ok_iff)

lemma scan_scalar_ok: "scan_scalar h s = Inr (v, r) \<Longrightarrow> json_ok p v"
  using no_float no_constant
  by (auto simp: scan_scalar_def scan_constant_def split: if_splits option.splits dest!: parse_int_sound)

lemma scan_ok: "scan n h m s = Inr (v, r) \<Longrightarrow> mode_ok m \<Longrightarrow> json_ok p v"
proof (induction n arbitrary: m s v r)
  case (Suc n)
  have once: "scan n h Once s' = Inr (v', r') \<Longrightarrow> json_ok p v'" for s' v' r'
    using Suc.IH [of Once] by (simp add: mode_ok_def)
  show ?case
  proof (cases m)
    case Once
    then show ?thesis
      using Suc.prems Suc.IH [of "Item []"] Suc.IH [of "Member []"]
      by (auto simp: Let_def mode_ok_def split: if_splits dest: scan_scalar_ok dest!: pairs_sound)
  next
    case (Item acc)
    then show ?thesis
      using Suc.prems Suc.IH [of "Items (acc @ [_])"] by (auto simp: mode_ok_def items_ok_append dest!: once)
  next
    case (Items acc)
    then show ?thesis
      using Suc.prems Suc.IH [of "Item acc"] by (auto simp: Let_def mode_ok_def split: if_splits)
  next
    case (Member acc)
    then show ?thesis
      using Suc.prems Suc.IH [of "Members (acc @ [(_, _)])"]
      by (auto simp: Let_def mode_ok_def members_ok_append split: if_splits dest!: once)
  next
    case (Members acc)
    then show ?thesis
      using Suc.prems Suc.IH [of "Member acc"]
      by (auto simp: Let_def mode_ok_def split: if_splits dest!: pairs_sound)
  qed
qed simp

lemma loads_ok: "json_loads h s = Inr v \<Longrightarrow> json_ok p v"
  by (auto simp: json_loads_def mode_ok_def simp del: scan.simps split: if_splits dest!: scan_ok)

end

lemma pairs_loop_Inr: "pairs_loop acc ps = Inr qs \<Longrightarrow> distinct (map fst acc) \<Longrightarrow>
    qs = acc @ ps \<and> distinct (map fst qs)"
proof (induction acc ps rule: pairs_loop.induct)
  case (2 acc key v ps)
  then have a: "key \<notin> fst ` set acc" "pairs_loop (acc @ [(key, v)]) ps = Inr qs"
    and d: "distinct (map fst (acc @ [(key, v)]))" by simp_all
  from "2.IH" [OF a d] show ?case by (intro conjI) (simp, erule conjunct2)
qed simp

interpretation strict: strict_hooks codec_hooks int_in_range
proof unfold_locales
  fix ps v assume "object_pairs_hook codec_hooks ps = Inr v"
  then show "v = JObj ps \<and> distinct (map fst ps)"
    by (auto simp: codec_hooks_def pairs_hook_def dest: pairs_loop_Inr)
qed (auto simp: codec_hooks_def integer_hook_def reject_constant_def int_in_range_def Let_def)

section \<open>Decoding\<close>

lemma json_ok_mono: "json_ok p v \<Longrightarrow> (\<And>i. p i \<Longrightarrow> q i) \<Longrightarrow> json_ok q v"
  and "items_ok p xs \<Longrightarrow> (\<And>i. p i \<Longrightarrow> q i) \<Longrightarrow> items_ok q xs"
  and "members_ok p ps \<Longrightarrow> (\<And>i. p i \<Longrightarrow> q i) \<Longrightarrow> members_ok q ps"
  by (induction p v and p xs and p ps rule: json_ok_items_ok_members_ok.induct) auto

lemma load_canonical_dict_ok: "load_canonical_bytes raw = Inr v \<Longrightarrow> dict_ok v"
proof -
  assume "load_canonical_bytes raw = Inr v"
  then obtain s where "json_loads codec_hooks s = Inr v"
    by (auto simp: load_canonical_bytes_def split: option.splits sum.splits)
  then have "json_ok int_in_range v" by (rule strict.loads_ok)
  then show "dict_ok v" by (rule json_ok_mono) simp
qed

lemma load_canonical_iff:
  "load_canonical_bytes raw = Inr v \<longleftrightarrow> dict_ok v \<and> sort_keys v = v \<and> canonical_bytes v = Inr raw"
proof
  assume l: "load_canonical_bytes raw = Inr v"
  have "dict_ok v" "canonical_bytes v = Inr raw"
    using l by (auto intro: load_canonical_dict_ok load_canonical_Inr)
  with load_canonical [OF this] l show "dict_ok v \<and> sort_keys v = v \<and> canonical_bytes v = Inr raw" by simp
qed (auto dest: load_canonical)

section \<open>Records\<close>

lemma enum_of_Inr: "enum_of members f j = Inr x \<Longrightarrow> j = JStr (ustr (f x))"
  by (auto simp: enum_of_def find_Some_iff split: json.splits option.splits)

lemma member_Inr: "member qs k = Inr v \<longleftrightarrow> map_of qs (ustr k) = Some v"
  by (auto simp: member_def split: option.splits)

lemma mode_member:
  "(if mv = JNull then Inr None else rbind (enum_of ALL_MODES mode_value mv) (\<lambda>m. Inr (Some m))) = Inr mode
     \<Longrightarrow> mv = mode_json mode"
  by (auto simp: mode_json_def split: if_splits dest!: enum_of_Inr)

lemma record_from_mapping_Inr:
  assumes "record_from_mapping (JObj qs) = Inr r" and "record_as_dict r = JObj ps"
  shows "record_wf r" and "set (map fst qs) = set (map fst ps)" and "\<forall>(k, v)\<in>set ps. map_of qs k = Some v"
proof -
  show "record_wf r"
    using assms(1) unfolding record_from_mapping_def by (auto simp: post_init_Inr)
  show "set (map fst qs) = set (map fst ps)"
    using assms(1) record_keys [OF assms(2)] unfolding record_from_mapping_def by simp
  from assms(1) obtain ev e ov out uv unc mv mode version batch seq ord prior payload mono wall where
    m: "member qs ''event'' = Inr ev" "enum_of ALL_EVENTS event_value ev = Inr e"
      "member qs ''outcome'' = Inr ov" "enum_of ALL_OUTCOMES outcome_value ov = Inr out"
      "member qs ''uncertainty'' = Inr uv" "enum_of ALL_UNCERTAINTIES uncertainty_value uv = Inr unc"
      "member qs ''cycle_mode'' = Inr mv"
      "(if mv = JNull then Inr None else rbind (enum_of ALL_MODES mode_value mv) (\<lambda>m. Inr (Some m))) = Inr mode"
      "member qs ''version'' = Inr version" "member qs ''batch_commitment'' = Inr batch"
      "member qs ''sequence'' = Inr seq" "member qs ''cycle_ordinal'' = Inr ord"
      "member qs ''prior_record_sha256'' = Inr prior" "member qs ''payload_sha256'' = Inr payload"
      "member qs ''monotonic_observation_ns'' = Inr mono" "member qs ''wall_observation_unix_ns'' = Inr wall"
    and init: "post_init \<lparr>w_version = version, w_batch_commitment = batch, w_sequence = seq,
               w_event = e, w_cycle_ordinal = ord, w_cycle_mode = mode,
               w_prior_record_sha256 = prior, w_payload_sha256 = payload,
               w_monotonic_observation_ns = mono, w_wall_observation_unix_ns = wall,
               w_outcome = out, w_uncertainty = unc\<rparr> = Inr r"
    unfolding record_from_mapping_def json.case require_Inr rbind_Inr
    by (elim exE conjE) (rule that; assumption)
  note v = enum_of_Inr [OF m(2)] enum_of_Inr [OF m(4)] enum_of_Inr [OF m(6)] mode_member [OF m(8)]
  note f = init [unfolded post_init_Inr raw_of_def, THEN conjunct1]
  show "\<forall>(k, v)\<in>set ps. map_of qs k = Some v"
    using m [unfolded member_Inr] v f assms(2) unfolding record_as_dict_def by auto
qed

lemma sort_fst_unique:
  assumes "distinct (map fst qs)" "distinct (map fst ps)"
    and "set (map fst qs) = set (map fst ps)" and "\<forall>(k, v)\<in>set ps. map_of qs k = Some v"
  shows "sort_key fst qs = sort_key fst (ps :: (pystr \<times> json) list)"
proof (rule map_sorted_distinct_set_unique [of fst])
  have sub: "set ps \<subseteq> set qs" using assms(4) by (auto dest!: map_of_SomeD)
  have "card (set xs) = card (set (map fst xs))" if "distinct (map fst xs)" for xs :: "(pystr \<times> json) list"
    using that by (simp add: distinct_map card_image)
  then have "card (set qs) = card (set ps)" using assms(1,2,3) by simp
  with sub have eq: "set qs = set ps" using card_subset_eq [of "set qs" "set ps"] by simp
  then show "set (sort_key fst qs) = set (sort_key fst ps)" by simp
  show "inj_on fst (set (sort_key fst qs) \<union> set (sort_key fst ps))"
    using eq assms(1) by (simp add: distinct_map)
qed (use assms in \<open>simp_all add: distinct_sort_fst\<close>)

lemma record_decoding:
  "record_from_canonical_bytes raw = Inr r \<longleftrightarrow> record_wf r \<and> record_canonical_bytes r = Inr raw"
proof
  assume "record_from_canonical_bytes raw = Inr r"
  then obtain v where v: "load_canonical_bytes raw = Inr v"
    "(case v of JObj ps \<Rightarrow> record_from_mapping v
      | _ \<Rightarrow> Inl (CampaignContractError ''controller-event must be an object'')) = Inr r"
    by (auto simp: record_from_canonical_bytes_def)
  then obtain qs where l: "load_canonical_bytes raw = Inr (JObj qs)" and m: "record_from_mapping (JObj qs) = Inr r"
    by (cases v) auto
  obtain ps where ps: "record_as_dict r = JObj ps" by (simp add: record_as_dict_def)
  have d: "distinct (map fst qs)" and s: "sort_keys (JObj qs) = JObj qs"
    and c: "canonical_bytes (JObj qs) = Inr raw" using l by (auto simp: load_canonical_iff)
  have "map (on_value sort_keys) ps = ps"
    using ps by (auto simp: record_as_dict_def ordinal_json_def mode_json_def split: option.splits)
  then have "sort_keys (JObj ps) = JObj (sort_key fst ps)" by (simp only: sort_keys.simps)
  also have "sort_key fst ps = sort_key fst qs"
    using sort_fst_unique [OF d, of ps] record_dict_ok [of r] ps record_from_mapping_Inr [OF m ps] by simp
  also have "sort_key fst qs = qs"
    using s by (metis json.inject(5) sort_key_id_if_sorted sorted_sort_key sort_keys.simps(2))
  finally have eq: "sort_keys (JObj ps) = JObj qs" .
  then have "json_dumps (record_as_dict r) = json_dumps (JObj qs)" using s ps by (simp add: json_dumps_def)
  moreover have "within_bounds (record_as_dict r) = within_bounds (JObj qs)" 
    using within_bounds_sort_keys [of "JObj ps"] eq ps by simp
  ultimately show "record_wf r \<and> record_canonical_bytes r = Inr raw"
    using c record_from_mapping_Inr(1) [OF m ps] by (auto simp: record_canonical_bytes_def canonical_bytes_Inr)
qed (auto dest: record_roundtrip)

section \<open>Properties of the codec\<close>

text \<open>C4. Decoding inverts encoding: \<open>load_canonical_bytes\<close> accepts a byte string exactly when it is
  the canonical encoding of a document with sorted, distinct keys, and returns that document. The
  bytes of a document are unique, and every non-canonical spelling is refused.\<close>

theorem codec_bijection:
  "load_canonical_bytes raw = Inr v \<longleftrightarrow> dict_ok v \<and> sort_keys v = v \<and> canonical_bytes v = Inr raw"
  by (rule load_canonical_iff)

text \<open>Validation is the declared bounds: the counting traversal accepts a document exactly when
  its depth, node count, collection sizes, integers, keys and strings are within the bounds.\<close>

theorem validate_is_bounds: "validate v = Inr () \<longleftrightarrow> within_bounds v"
  by (rule validate_Inr)

text \<open>Commitments are framed unambiguously: with a digest free of collisions, equal commitments
  have the same domain, the same salt and the same canonical document.\<close>

theorem commitment_binding:
  assumes "commitment_sha256 H d v salt = Inr c" and "commitment_sha256 H d' v' salt' = Inr c"
    and "inj H"
  shows "d = d' \<and> salt = salt' \<and> canonical_bytes v = canonical_bytes v'"
proof -
  from assms(1) obtain p b where 1: "length salt = 32" "canonical_bytes v = Inr p"
    "commitment_preimage d salt p = Inr b" "c = H b" by (auto simp: commitment_sha256_Inr)
  from assms(2) obtain p' b' where 2: "length salt' = 32" "canonical_bytes v' = Inr p'"
    "commitment_preimage d' salt' p' = Inr b'" "c = H b'" by (auto simp: commitment_sha256_Inr)
  have "b = b'" using 1(4) 2(4) assms(3) by (simp add: inj_eq)
  with commitment_preimage_inj [OF 1(3) _ 1(1) 2(1)] 2 1 show ?thesis by auto
qed

theorem commitment_binding_witness:
  "canonical_bytes JNull = canonical_bytes JNull \<and>
   (\<exists>c. commitment_sha256 id (ustr ''cogs.a/v1'') JNull (replicate 32 0) = Inr c)"
proof -
  have d: "domain_matches (ustr ''cogs.a/v1'')" by code_simp
  have "within_bounds JNull" by (simp add: within_bounds_def MAX_DEPTH_def MAX_NODES_def MAX_CANONICAL_BYTES_def)
  then obtain p where p: "canonical_bytes JNull = Inr p"
    using canonical_bytes_total [of JNull] by (auto simp: MAX_CANONICAL_BYTES_def)
  then have "length p \<le> MAX_CANONICAL_BYTES" by (auto simp: canonical_bytes_Inr)
  then obtain b where b: "commitment_preimage (ustr ''cogs.a/v1'') (replicate 32 0) p = Inr b"
    by (simp add: commitment_preimage_def to_bytes_big_def ustr_def MAX_CANONICAL_BYTES_def)
  then have c: "commitment_sha256 id (ustr ''cogs.a/v1'') JNull (replicate 32 0) = Inr b"
    using d p by (auto simp: commitment_sha256_Inr)
  with commitment_binding [OF c c] show ?thesis by auto
qed

section \<open>Properties of the record contract\<close>

text \<open>C5. Records round trip: decoding accepts a byte string as a controller event exactly when it is
  the canonical encoding of a well-formed record, and returns that record.\<close>

theorem record_bijection:
  "record_from_canonical_bytes raw = Inr r \<longleftrightarrow> record_wf r \<and> record_canonical_bytes r = Inr raw"
  by (rule record_decoding)

text \<open>The constructor establishes the invariant: \<open>new_record\<close> returns a record exactly when the
  record with those fields is well formed, and every well-formed record has an encoding and a digest.\<close>

theorem new_record_invariant:
  "(\<exists>r. new_record batch sequence e prior payload monotonic wall out unc ordinal mode = Inr r) \<longleftrightarrow>
     record_wf \<lparr>r_version = CONTROLLER_EVENT_VERSION, r_batch_commitment = batch, r_sequence = sequence,
          r_event = e, r_cycle_ordinal = ordinal, r_cycle_mode = mode,
          r_prior_record_sha256 = prior, r_payload_sha256 = payload,
          r_monotonic_observation_ns = monotonic, r_wall_observation_unix_ns = wall,
          r_outcome = out, r_uncertainty = unc\<rparr>"
  by (auto simp: new_record_Inr)

text \<open>C9. Every well-formed record can be stored: its canonical encoding exists, within the size bound
  of the codec, and so does its digest.\<close>

theorem record_encodable:
  assumes "record_wf r"
  shows "\<exists>raw. record_canonical_bytes r = Inr raw \<and> length raw \<le> MAX_CANONICAL_BYTES \<and>
    is_bytes raw \<and> record_sha256 H r = Inr (H raw)"
proof -
  obtain raw where raw: "record_canonical_bytes r = Inr raw" using record_canonical_total [OF assms] ..
  then have "length raw \<le> MAX_CANONICAL_BYTES" "is_bytes raw"
    using canonical_bytes_is_bytes [of _ raw] by (auto simp: record_canonical_bytes_def canonical_bytes_Inr)
  then show ?thesis using raw by (auto simp: record_sha256_def sha256_hex_def)
qed

theorem record_encodable_witness:
  "\<exists>raw. record_canonical_bytes (laid_record 0 ((BATCH_ADMITTED, None, None), ACCEPTED, CLEAR)) = Inr raw"
proof -
  have "record_wf (laid_record 0 ((BATCH_ADMITTED, None, None), ACCEPTED, CLEAR))"
    by (rule laid_record_wf) (simp_all add: entry_ok_def required_outcomes_def binding_ok_def
      outcome_introduces_uncertainty_def UNCERTAIN_OUTCOMES_def INTENT_EVENTS_def CYCLE_EVENTS_def)
  from record_encodable [OF this] show ?thesis by blast
qed

end
