(* ===== verification/CampaignSafety.thy ===== *)
theory CampaignSafety
  imports Samples
begin

text \<open>
  The theorems of the reducer: it implements the phase machine, it accepts exactly the extensions
  that reduce, terminals are final and have one of two shapes, every cycle that asked for an apply
  is torn down before a terminal, uncertainty is sticky, a campaign that is not terminal can always
  move on, and the hash chain is tamper evident. Each theorem with hypotheses is followed by its
  application to a sample campaign.
\<close>

text \<open>C1. The reducer refines the phase machine: \<open>reduce_campaign\<close> accepts a record sequence
  exactly when its hash chain, clocks and replay checks hold and its records are a run of the phase
  machine, and the state it returns is the view of the phase reached.\<close>

theorem reduce_refines_machine:
  "reduce_campaign H rs = Inr st \<longleftrightarrow>
     chain_ok H rs \<and> (\<exists>p. prun (Normal 0) rs p \<and> st = view (length rs) p)"
  by (simp add: reduce_campaign_runs check_common_Inr)

text \<open>Appending accepts exactly the sequences that reduce: \<open>append_record\<close> returns the extended
  sequence when and only when \<open>reduce_campaign\<close> accepts it, so its own next-event checks reject
  nothing that reduction would accept.\<close>

theorem append_record_iff:
  "append_record H rs r = Inr rs' \<longleftrightarrow>
     rs' = rs @ [r] \<and> (\<exists>st. reduce_campaign H (rs @ [r]) = Inr st)"
  by (rule append_record_extends)

text \<open>C2. No cycle is left behind: in a terminal campaign every cycle that recorded the intent to
  apply has recorded, in this order, the intent to destroy, the settled destroy, the intent to
  observe zero resources and that observation.\<close>

theorem cleanup_before_terminal:
  assumes "reduce_campaign H rs = Inr st" and "terminal st"
    and "r \<in> set rs" and "r_event r = APPLY_INTENT"
  shows "\<exists>n m. r_cycle_ordinal r = Some n \<and> r_cycle_mode r = Some m \<and>
    subseq (teardown n m) (map row_of rs)"
proof -
  from assms(1,2) obtain p where p: "prun (Normal 0) rs p" "p = Normal 103 \<or> (\<exists>u. p = Done u)"
    by (auto simp: reduce_campaign_runs view_terminal)
  have r: "(APPLY_INTENT, r_cycle_ordinal r, r_cycle_mode r) \<in> set (map row_of rs)"
    using assms(3,4) by (force simp: row_of_def)
  have "\<exists>h x ys. h \<le> 103 \<and> (APPLY_INTENT, r_cycle_ordinal r, r_cycle_mode r) \<in> set (take h HAPPY_PATH) \<and>
     (map row_of rs = take h HAPPY_PATH @ x # map step_row (plan_at h) @ ys \<or>
      h = 103 \<and> map row_of rs = take h HAPPY_PATH)"
    using p(2)
  proof
    assume "p = Normal 103"
    then show ?thesis using prun_shape [OF p(1)] r by auto
  next
    assume "\<exists>u. p = Done u"
    then obtain u where "p = Done u" ..
    with prun_shape [OF p(1)] obtain h where h: "h < 103"
      "map row_of rs = take h HAPPY_PATH @ fail_row h # map step_row (plan_at h) @
         [(failure_terminal u, None, None)]" by auto
    moreover have "(APPLY_INTENT, r_cycle_ordinal r, r_cycle_mode r) \<in> set (take h HAPPY_PATH)"
      using r unfolding h(2)
      by (auto simp: fail_row_def failure_terminal_def step_row_def dest: plan_no_apply split: if_splits)
    ultimately show ?thesis
      by (intro exI [of _ h] exI [of _ "fail_row h"] exI [of _ "[(failure_terminal u, None, None)]"]) simp
  qed
  then obtain h x ys where *: "h \<le> 103"
    "(APPLY_INTENT, r_cycle_ordinal r, r_cycle_mode r) \<in> set (take h HAPPY_PATH)"
    "map row_of rs = take h HAPPY_PATH @ x # map step_row (plan_at h) @ ys \<or>
      h = 103 \<and> map row_of rs = take h HAPPY_PATH" by blast
  then obtain n m where "r_cycle_ordinal r = Some n" "r_cycle_mode r = Some m"
    using apply_bound set_take_subset [of h HAPPY_PATH] by blast
  with * teardown_owed(1) [of n m h x ys] teardown_owed(2) [of n m h] show ?thesis by auto
qed

theorem cleanup_before_terminal_witness:
  "subseq (teardown 1 FULL) (map row_of (laid failed_entries))"
  using cleanup_before_terminal [OF failed_reduces, of "laid failed_entries ! 4"]
  by (auto simp: view_def laid_def laid_record_def failed_entries_def)

text \<open>C3. A terminal campaign has one of two shapes: all 103 rows of the fixed path, or a proper
  prefix of it, the failure bound to the running cycle, exactly the cleanup that position owes,
  and the terminal its uncertainty selects.\<close>

theorem terminal_shape:
  assumes "reduce_campaign H rs = Inr st" and "terminal st"
  shows "status st = ''sealed'' \<and> map row_of rs = HAPPY_PATH \<or>
    (\<exists>h u. 0 < h \<and> h < 103 \<and>
      status st = (if u = STICKY then ''terminal-uncertain'' else ''terminal-failure'') \<and>
      map row_of rs = take h HAPPY_PATH @ fail_row h # map step_row (plan_at h)
        @ [(failure_terminal u, None, None)])"
proof -
  from assms obtain p where p: "prun (Normal 0) rs p" "p = Normal 103 \<or> (\<exists>u. p = Done u)"
    and st: "st = view (length rs) p"
    by (auto simp: reduce_campaign_runs view_terminal)
  show ?thesis
  proof (cases p)
    case (Normal h)
    then show ?thesis using p(2) prun_shape [OF p(1)] st by (simp add: view_def)
  next
    case (Done u)
    then have "status st = (if u = STICKY then ''terminal-uncertain'' else ''terminal-failure'')"
      by (simp add: st view_def)
    then show ?thesis using prun_shape [OF p(1)] Done by auto
  qed (use p(2) in simp)
qed

theorem terminal_shape_witness:
  "\<exists>h u. 0 < h \<and> h < 103 \<and> map row_of (laid failed_entries) =
     take h HAPPY_PATH @ fail_row h # map step_row (plan_at h) @ [(failure_terminal u, None, None)]"
  using terminal_shape [OF failed_reduces] by (auto simp: view_def)

text \<open>Terminals are final: a terminal campaign refuses every append with one error, and no
  longer sequence that starts with it is ever accepted.\<close>

theorem terminal_is_final:
  assumes "reduce_campaign H rs = Inr st" and "terminal st"
  shows "append_record H rs r = Inl (CampaignStateError ''terminal state has no outgoing transition'') \<and>
    reduce_campaign H (rs @ r # tail) \<noteq> Inr st'"
proof
  show "append_record H rs r = Inl (CampaignStateError ''terminal state has no outgoing transition'')"
    using assms by (simp add: append_record_def fail_def)
  from assms obtain p where p: "prun (Normal 0) rs p" "p = Normal 103 \<or> (\<exists>u. p = Done u)"
    by (auto simp: reduce_campaign_runs view_terminal)
  then show "reduce_campaign H (rs @ r # tail) \<noteq> Inr st'"
    using prun_terminal_stops [OF p] by (simp add: reduce_campaign_runs)
qed

theorem terminal_is_final_witness:
  "append_record sequence_digest (laid failed_entries) (light ((SEALED, None, None), OUTCOME_SEALED, CLEAR)) =
     Inl (CampaignStateError ''terminal state has no outgoing transition'')"
  using terminal_is_final [OF failed_reduces] by (simp add: view_def)

text \<open>C7. Success is exactly the full path: an accepted campaign is eligible for success if and
  only if its rows are all of the fixed path, and then no record carries or introduces
  uncertainty.\<close>

theorem sealed_iff_full_path:
  assumes "reduce_campaign H rs = Inr st"
  shows "(success_eligible st \<longleftrightarrow> map row_of rs = HAPPY_PATH) \<and>
    (success_eligible st \<longrightarrow> (\<forall>r\<in>set rs. r_uncertainty r = CLEAR \<and>
      \<not> outcome_introduces_uncertainty (r_event r) (r_outcome r)))"
proof
  from assms obtain p where p: "prun (Normal 0) rs p" and st: "st = view (length rs) p"
    by (auto simp: reduce_campaign_runs)
  have s: "success_eligible st \<longleftrightarrow> p = Normal 103"
    by (auto simp: st view_def split: phase.splits list.splits)
  have no_fail: "fail_row h \<notin> set HAPPY_PATH" for h
    using happy_failure_row by (fastforce simp: fail_row_def in_set_conv_nth)
  have "p = Normal 103" if rows: "map row_of rs = HAPPY_PATH"
  proof (cases p)
    case (Normal h)
    then have "h \<le> 103" "length HAPPY_PATH = length (take h HAPPY_PATH)"
      using prun_shape [OF p] rows by simp_all
    then show ?thesis using Normal by simp
  next
    case (Cleanup todo u)
    with prun_shape [OF p] rows obtain h ys where "HAPPY_PATH = take h HAPPY_PATH @ fail_row h # ys" by auto
    then show ?thesis using no_fail in_set_conv_decomp by metis
  next
    case (Done u)
    with prun_shape [OF p] rows obtain h ys where "HAPPY_PATH = take h HAPPY_PATH @ fail_row h # ys" by auto
    then show ?thesis using no_fail in_set_conv_decomp by metis
  qed
  then show "success_eligible st \<longleftrightarrow> map row_of rs = HAPPY_PATH"
    using s prun_shape [OF p] by auto
  show "success_eligible st \<longrightarrow> (\<forall>r\<in>set rs. r_uncertainty r = CLEAR \<and>
      \<not> outcome_introduces_uncertainty (r_event r) (r_outcome r))"
    using p s prun_uncertainty [OF p] prun_allowed [OF p] by auto
qed

theorem sealed_iff_full_path_witness:
  "map row_of (laid sealed_entries) = HAPPY_PATH"
  using sealed_iff_full_path [OF sealed_reduces] by (simp add: view_def)

text \<open>A clear campaign is really cleaned up: while no uncertainty is recorded, every settled
  destroy was accepted and every observation of zero resources, in a cycle or final, found
  zero.\<close>

theorem clear_terminal_settled:
  assumes "reduce_campaign H rs = Inr st" and "state_uncertainty st = CLEAR" and "r \<in> set rs"
  shows "(r_event r = DESTROY_SETTLED \<longrightarrow> r_outcome r = ACCEPTED) \<and>
    (r_event r \<in> {ZERO_ACCEPTED, FINAL_ZERO_ACCEPTED} \<longrightarrow> r_outcome r = ZERO)"
proof -
  from assms obtain p where p: "prun (Normal 0) rs p" and st: "st = view (length rs) p"
    by (auto simp: reduce_campaign_runs)
  have "p = Done CLEAR \<or> (\<exists>h. p = Normal h) \<or> (\<exists>ss. p = Cleanup ss CLEAR)"
    using assms(2) by (cases p) (auto simp: st view_def split: list.splits)
  then have "allowed r True" "\<not> outcome_introduces_uncertainty (r_event r) (r_outcome r)"
    using prun_uncertainty [OF p] prun_allowed [OF p] assms(3) by blast+
  then show ?thesis
    by (auto simp: allowed_def required_outcomes_def INTENT_EVENTS_def
        outcome_introduces_uncertainty_def UNCERTAIN_OUTCOMES_def)
qed

theorem clear_terminal_settled_witness:
  "r_event (laid failed_entries ! 7) = DESTROY_SETTLED \<and> r_outcome (laid failed_entries ! 7) = ACCEPTED"
proof -
  have e: "r_event (laid failed_entries ! 7) = DESTROY_SETTLED"
    and i: "laid failed_entries ! 7 \<in> set (laid failed_entries)"
    by (simp_all add: laid_def laid_record_def failed_entries_def)
  from clear_terminal_settled [OF failed_reduces _ i] e show ?thesis by (simp add: view_def)
qed

text \<open>No campaign outgrows its sequence numbers: an accepted sequence has at most 104
  records, within the 256 the record contract admits.\<close>

theorem campaign_length_bound:
  assumes "reduce_campaign H rs = Inr st"
  shows "length rs \<le> 104"
  by (rule accepted_length [OF assms])

theorem campaign_length_bound_witness: "length (laid sealed_entries) \<le> 104"
  by (rule campaign_length_bound [OF sealed_reduces])

text \<open>C8. A campaign is never stuck: from an accepted, non-terminal state there is an outcome and
  an uncertainty with which every chained record of the announced next event and binding is
  appended.\<close>

theorem campaign_progress:
  assumes "reduce_campaign H rs = Inr st" and "\<not> terminal st"
  shows "\<exists>out unc. \<forall>r. Some (r_event r) = next_event st \<and> r_cycle_ordinal r = next_cycle_ordinal st \<and>
    r_cycle_mode r = next_cycle_mode st \<and> r_outcome r = out \<and> r_uncertainty r = unc \<and> link_ok H rs r
      \<longrightarrow> append_record H rs r = Inr (rs @ [r])"
proof -
  from assms obtain p where p: "prun (Normal 0) rs p" and st: "st = view (length rs) p" and ch: "chain_ok H rs"
    by (auto simp: reduce_campaign_runs check_common_Inr)
  have ok: "append_record H rs r = Inr (rs @ [r])" if "pstep p r q" "link_ok H rs r" for r q
    using that p ch by (auto simp: append_record_extends reduce_prefix)
  obtain out unc where *: "\<forall>r. Some (r_event r) = next_event st \<and> r_cycle_ordinal r = next_cycle_ordinal st \<and>
    r_cycle_mode r = next_cycle_mode st \<and> r_outcome r = out \<and> r_uncertainty r = unc \<longrightarrow> (\<exists>q. pstep p r q)"
    using pstep_possible [of "length rs" p] assms(2) prun_normal_le p st by metis
  show ?thesis
    by (intro exI [of _ out] exI [of _ unc]) (use * ok in blast)
qed

theorem campaign_progress_witness:
  "\<exists>out unc. \<forall>r. r_event r = BATCH_ADMITTED \<and> r_cycle_ordinal r = None \<and> r_cycle_mode r = None \<and>
     r_outcome r = out \<and> r_uncertainty r = unc \<and> link_ok sequence_digest [] r
       \<longrightarrow> append_record sequence_digest [] r = Inr [r]"
proof -
  have start: "reduce_campaign sequence_digest [] = Inr (view 0 (Normal 0))"
    using reduce_campaign_runs [of sequence_digest "[]"] by (auto simp: check_common_def)
  have "HAPPY_PATH ! 0 = (BATCH_ADMITTED, None, None)" by code_simp
  then show ?thesis using campaign_progress [OF start] by (simp add: view_def)
qed

text \<open>C6. The chain is tamper evident: two accepted campaigns of well-formed records with the
  same last record are the same campaign, when the digest has no collision among their canonical
  bytes.\<close>

theorem chain_tamper_evident:
  assumes "reduce_campaign H rs = Inr st" and "reduce_campaign H rs' = Inr st'"
    and "rs \<noteq> []" and "rs' \<noteq> []" and "last rs = last rs'"
    and "\<forall>r\<in>set rs \<union> set rs'. record_wf r"
    and "inj_on H (projr ` record_canonical_bytes ` (set rs \<union> set rs'))"
  shows "rs = rs'"
proof (rule chain_unique [of H])
  fix r r' assume *: "r \<in> set rs" "r' \<in> set rs'" "record_sha256 H r = record_sha256 H r'"
  then have "inj_on H (projr ` record_canonical_bytes ` {r, r'})"
    by (intro inj_on_subset [OF assms(7)]) auto
  then show "r = r'" using * assms(6) record_sha256_inj by blast
qed (use assms in \<open>auto simp: reduce_campaign_runs check_common_Inr\<close>)

theorem chain_tamper_evident_witness:
  "inj_on sequence_digest (projr ` record_canonical_bytes ` set (laid failed_entries)) \<and>
   laid (map entry_of (laid failed_entries)) = laid failed_entries"
proof -
  have len: "length failed_entries \<le> 256" and ne: "laid failed_entries \<noteq> []"
    by (simp_all add: failed_entries_def laid_def)
  note free = laid_collision_free [OF failed_entries_ok len]
  have "laid (map entry_of (laid failed_entries)) = laid failed_entries"
    by (rule chain_tamper_evident [of sequence_digest _ "view 11 (Done CLEAR)" _ "view 11 (Done CLEAR)"])
      (use free ne failed_reduces laid_wf [OF failed_entries_ok len] in \<open>simp_all add: entry_of_laid\<close>)
  with free show ?thesis ..
qed

end
