(* ===== verification/Effects.thy ===== *)
theory Effects
  imports Prelude
begin

text \<open>
  Stateful code with exceptions. An effect takes the state to a result and the state left behind:
  what an operation changed before it raised stays changed, as in the sources. \<open>ebind\<close> is
  sequencing, \<open>lift\<close> runs a pure fallible function, \<open>zoom\<close> runs an effect on a part of the state,
  \<open>catch\<close> is \<^verbatim>\<open>try ... except\<close>, and \<open>guard\<close> the sources' checks.
\<close>

type_synonym ('s, 'a) eff = "'s \<Rightarrow> 'a result \<times> 's"

definition ret :: "'a \<Rightarrow> ('s, 'a) eff" where
  "ret x = (\<lambda>s. (Inr x, s))"

definition raise :: "exn \<Rightarrow> ('s, 'a) eff" where
  "raise e = (\<lambda>s. (Inl e, s))"

definition lift :: "'a result \<Rightarrow> ('s, 'a) eff" where
  "lift m = (\<lambda>s. (m, s))"

definition ebind :: "('s, 'a) eff \<Rightarrow> ('a \<Rightarrow> ('s, 'b) eff) \<Rightarrow> ('s, 'b) eff" where
  "ebind m f = (\<lambda>s. case m s of (Inl e, t) \<Rightarrow> (Inl e, t) | (Inr x, t) \<Rightarrow> f x t)"

definition gets :: "('s \<Rightarrow> 'a) \<Rightarrow> ('s, 'a) eff" where
  "gets f = (\<lambda>s. (Inr (f s), s))"

definition modify :: "('s \<Rightarrow> 's) \<Rightarrow> ('s, unit) eff" where
  "modify f = (\<lambda>s. (Inr (), f s))"

definition guard :: "bool \<Rightarrow> exn \<Rightarrow> ('s, unit) eff" where
  "guard c e = (\<lambda>s. (if c then Inr () else Inl e, s))"

definition zoom :: "('s \<Rightarrow> 't) \<Rightarrow> ('t \<Rightarrow> 's \<Rightarrow> 's) \<Rightarrow> ('t, 'a) eff \<Rightarrow> ('s, 'a) eff" where
  "zoom get_part put_part m = (\<lambda>s. case m (get_part s) of (r, t) \<Rightarrow> (r, put_part t s))"

text \<open>\<open>catch\<close> hands every exception to the handler, which may raise it again.\<close>

definition catch :: "('s, 'a) eff \<Rightarrow> (exn \<Rightarrow> ('s, 'a) eff) \<Rightarrow> ('s, 'a) eff" where
  "catch m h = (\<lambda>s. case m s of
     (Inl e, t) \<Rightarrow> h e t
   | (Inr x, t) \<Rightarrow> (Inr x, t))"

text \<open>\<^verbatim>\<open>try: ... finally: cleanup\<close>; an error of the cleanup replaces the one on the way.\<close>

definition finally_do :: "('s, unit) eff \<Rightarrow> ('s, 'a) eff \<Rightarrow> ('s, 'a) eff" where
  "finally_do cleanup m = (\<lambda>s. case m s of (r, t) \<Rightarrow> (case cleanup t of (Inl e, u) \<Rightarrow> (Inl e, u) | (Inr _, u) \<Rightarrow> (r, u)))"

text \<open>The exceptions that \<^verbatim>\<open>except OSError\<close> catches.\<close>

definition is_os_error :: "exn \<Rightarrow> bool" where
  "is_os_error e = (case e of OSError _ \<Rightarrow> True | _ \<Rightarrow> False)"

text \<open>
  A loop with fuel may also not return at all: \<open>None\<close> is a run that used up its fuel. No handler
  sees it, and the theorems on loops show that it does not happen.
\<close>

type_synonym ('s, 'a) loop = "'s \<Rightarrow> ('a result \<times> 's) option"

definition once :: "('s, 'a) eff \<Rightarrow> ('s, 'a) loop" where
  "once m = (\<lambda>s. Some (m s))"

definition lbind :: "('s, 'a) loop \<Rightarrow> ('a \<Rightarrow> ('s, 'b) loop) \<Rightarrow> ('s, 'b) loop" where
  "lbind m f = (\<lambda>s. case m s of
     None \<Rightarrow> None
   | Some (Inl e, t) \<Rightarrow> Some (Inl e, t)
   | Some (Inr x, t) \<Rightarrow> f x t)"

definition lcatch :: "('s, 'a) loop \<Rightarrow> (exn \<Rightarrow> ('s, 'a) loop) \<Rightarrow> ('s, 'a) loop" where
  "lcatch m h = (\<lambda>s. case m s of
     None \<Rightarrow> None
   | Some (Inl e, t) \<Rightarrow> h e t
   | Some (Inr x, t) \<Rightarrow> Some (Inr x, t))"

named_theorems eff_defs

lemmas [eff_defs] = ret_def raise_def lift_def gets_def modify_def guard_def

lemma ebind_Inr:
  "ebind m f s = (Inr y, t) \<longleftrightarrow> (\<exists>x u. m s = (Inr x, u) \<and> f x u = (Inr y, t))"
  by (auto simp: ebind_def split: prod.splits sum.splits)

lemma ebind_Inl:
  "ebind m f s = (Inl e, t) \<longleftrightarrow> m s = (Inl e, t) \<or> (\<exists>x u. m s = (Inr x, u) \<and> f x u = (Inl e, t))"
  by (auto simp: ebind_def split: prod.splits sum.splits)

lemma ret_eq [simp]: "ret x s = (r, t) \<longleftrightarrow> r = Inr x \<and> t = s"
  by (auto simp: ret_def)

lemma raise_eq [simp]: "raise e s = (r, t) \<longleftrightarrow> r = Inl e \<and> t = s"
  by (auto simp: raise_def)

lemma lift_eq [simp]: "lift m s = (r, t) \<longleftrightarrow> r = m \<and> t = s"
  by (auto simp: lift_def)

lemma gets_eq [simp]: "gets f s = (r, t) \<longleftrightarrow> r = Inr (f s) \<and> t = s"
  by (auto simp: gets_def)

lemma modify_eq [simp]: "modify f s = (r, t) \<longleftrightarrow> r = Inr () \<and> t = f s"
  by (auto simp: modify_def)

lemma guard_eq [simp]: "guard c e s = (r, t) \<longleftrightarrow> t = s \<and> (c \<and> r = Inr () \<or> \<not> c \<and> r = Inl e)"
  by (auto simp: guard_def)

lemma zoom_eq: "zoom g p m s = (r, t) \<longleftrightarrow> (\<exists>u. m (g s) = (r, u) \<and> t = p u s)"
  by (auto simp: zoom_def split: prod.splits)

lemma catch_Inr:
  "catch m h s = (Inr y, t) \<longleftrightarrow>
     m s = (Inr y, t) \<or> (\<exists>e u. m s = (Inl e, u) \<and> h e u = (Inr y, t))"
  by (auto simp: catch_def split: prod.splits sum.splits)

lemma finally_Inr: "finally_do c m s = (Inr x, t) \<longleftrightarrow> (\<exists>u y. m s = (Inr x, u) \<and> c u = (Inr y, t))"
  by (auto simp: finally_do_def split: prod.splits sum.splits)

lemma lift_Inr: "lift m s = (Inr x, t) \<longleftrightarrow> m = Inr x \<and> t = s"
  by auto

lemma is_os_error_OSError [simp]: "is_os_error (OSError message)"
  by (simp add: is_os_error_def)

lemma lbind_Some:
  "lbind m f s = Some (r, t) \<longleftrightarrow>
     (\<exists>e. m s = Some (Inl e, t) \<and> r = Inl e) \<or> (\<exists>x u. m s = Some (Inr x, u) \<and> f x u = Some (r, t))"
  by (auto simp: lbind_def split: option.splits prod.splits sum.splits)

lemma lcatch_Some:
  "lcatch m h s = Some (r, t) \<longleftrightarrow>
     (\<exists>x. m s = Some (Inr x, t) \<and> r = Inr x) \<or> (\<exists>e u. m s = Some (Inl e, u) \<and> h e u = Some (r, t))"
  by (auto simp: lcatch_def split: option.splits prod.splits sum.splits)

lemma once_Some [simp]: "once m s = Some (r, t) \<longleftrightarrow> m s = (r, t)"
  by (simp add: once_def)

text \<open>That a loop returns, with a value or an exception.\<close>

definition returns :: "('s, 'a) loop \<Rightarrow> 's \<Rightarrow> bool" where
  "returns m s \<longleftrightarrow> (\<exists>r t. m s = Some (r, t))"

lemma returns_once: "returns (once m) s"
  by (simp add: returns_def once_def)

lemma returns_lbind: "returns m s \<Longrightarrow> (\<And>x t. m s = Some (Inr x, t) \<Longrightarrow> returns (f x) t) \<Longrightarrow> returns (lbind m f) s"
  by (auto simp: returns_def lbind_def split: prod.splits sum.splits)

lemma returns_lcatch:
  "returns m s \<Longrightarrow> (\<And>e t. m s = Some (Inl e, t) \<Longrightarrow> returns (h e) t) \<Longrightarrow> returns (lcatch m h) s"
  by (auto simp: returns_def lcatch_def split: prod.splits sum.splits)

lemma returns_if: "(c \<Longrightarrow> returns m s) \<Longrightarrow> (\<not> c \<Longrightarrow> returns m' s) \<Longrightarrow> returns (if c then m else m') s"
  by simp

lemmas returns_intros = returns_once returns_lbind returns_lcatch returns_if

section \<open>Invariants of effects\<close>

text \<open>
  \<open>keeps P m\<close>: the effect \<open>m\<close> preserves \<open>P\<close> whether it returns or raises. \<open>within R m\<close>: every
  execution of \<open>m\<close>, returned or raised, relates its first to its last state by \<open>R\<close>; \<open>lwithin\<close> says
  the same of a loop that returns.
\<close>

definition keeps :: "('s \<Rightarrow> bool) \<Rightarrow> ('s, 'a) eff \<Rightarrow> bool" where
  "keeps P m \<longleftrightarrow> (\<forall>s. P s \<longrightarrow> P (snd (m s)))"

definition within :: "('s \<Rightarrow> 's \<Rightarrow> bool) \<Rightarrow> ('s, 'a) eff \<Rightarrow> bool" where
  "within R m \<longleftrightarrow> (\<forall>s. R s (snd (m s)))"

definition lwithin :: "('s \<Rightarrow> 's \<Rightarrow> bool) \<Rightarrow> ('s, 'a) loop \<Rightarrow> bool" where
  "lwithin R m \<longleftrightarrow> (\<forall>s r t. m s = Some (r, t) \<longrightarrow> R s t)"

lemma withinD: "within R m \<Longrightarrow> m s = (r, t) \<Longrightarrow> R s t"
  by (metis within_def snd_conv)

lemma lwithinD: "lwithin R m \<Longrightarrow> m s = Some (r, t) \<Longrightarrow> R s t"
  by (simp add: lwithin_def)

text \<open>
  The interface of a relation that sequences of effects can be checked against: it has to be
  reflexive and transitive, and then every combinator preserves it.
\<close>

locale effect_order =
  fixes R :: "'s \<Rightarrow> 's \<Rightarrow> bool"
  assumes R_refl: "R s s"
    and R_trans: "R s t \<Longrightarrow> R t u \<Longrightarrow> R s u"
begin

lemma within_pure:
  "within R (ret x)" "within R (raise e)" "within R (lift r)" "within R (gets f)" "within R (guard c e)"
  by (simp_all add: within_def eff_defs R_refl)

lemma within_modify: "(\<And>s. R s (f s)) \<Longrightarrow> within R (modify f)"
  by (simp add: within_def eff_defs)

lemma within_ebind: "within R m \<Longrightarrow> (\<And>x. within R (f x)) \<Longrightarrow> within R (ebind m f)"
  unfolding within_def ebind_def by (auto split: prod.splits sum.splits) (metis R_trans snd_conv)+

lemma within_catch: "within R m \<Longrightarrow> (\<And>e. within R (h e)) \<Longrightarrow> within R (catch m h)"
  unfolding within_def catch_def by (auto split: prod.splits sum.splits) (metis R_trans snd_conv)+

lemma within_finally: "within R c \<Longrightarrow> within R m \<Longrightarrow> within R (finally_do c m)"
  unfolding within_def finally_do_def by (auto split: prod.splits sum.splits) (metis R_trans snd_conv)+

lemma within_zoom: "(\<And>s t. R s (p t s)) \<Longrightarrow> within R (zoom g p m)"
  by (auto simp: within_def zoom_def split: prod.splits)

lemma within_if: "(c \<Longrightarrow> within R m) \<Longrightarrow> (\<not> c \<Longrightarrow> within R m') \<Longrightarrow> within R (if c then m else m')"
  by simp

lemma within_option:
  "(v = None \<Longrightarrow> within R m) \<Longrightarrow> (\<And>x. v = Some x \<Longrightarrow> within R (f x)) \<Longrightarrow>
   within R (case v of None \<Rightarrow> m | Some x \<Rightarrow> f x)"
  by (cases v) simp_all

lemmas within_intros = within_pure within_modify within_ebind within_catch within_if within_option

lemma lwithin_once: "within R m \<Longrightarrow> lwithin R (once m)"
  by (auto simp: lwithin_def dest: withinD)

lemma lwithin_lbind: "lwithin R m \<Longrightarrow> (\<And>x. lwithin R (f x)) \<Longrightarrow> lwithin R (lbind m f)"
  unfolding lwithin_def by (auto simp: lbind_Some) (metis R_trans)

lemma lwithin_lcatch: "lwithin R m \<Longrightarrow> (\<And>e. lwithin R (h e)) \<Longrightarrow> lwithin R (lcatch m h)"
  unfolding lwithin_def by (auto simp: lcatch_Some) (metis R_trans)

lemma lwithin_if: "(c \<Longrightarrow> lwithin R m) \<Longrightarrow> (\<not> c \<Longrightarrow> lwithin R m') \<Longrightarrow> lwithin R (if c then m else m')"
  by simp

lemmas lwithin_intros = lwithin_once lwithin_lbind lwithin_lcatch lwithin_if

end

end
