(* ===== verification/CampaignEvidence.thy ===== *)
theory CampaignEvidence
  imports CampaignContracts Effects
begin

text \<open>
  \<^verbatim>\<open>completion_campaign_evidence.py\<close>: private receipts, their issuer, and the custody chain that
  accepts them in order and seals the synthetic verdict. An object's identity is a number, the
  module's two registries of issued receipts map identities to receipts, and a receipt handed to
  the chain is an identity with the fields the caller claims for it.
\<close>

section \<open>Constants and checks\<close>

definition SYNTHETIC_RECEIPT_VERSION :: pystr where
  "SYNTHETIC_RECEIPT_VERSION = ustr ''cogs.stage2-completion-synthetic-private-receipt/v1''"
definition SYNTHETIC_ZERO_VERSION :: pystr where
  "SYNTHETIC_ZERO_VERSION = ustr ''cogs.stage2-completion-synthetic-private-zero/v1''"
definition SYNTHETIC_VERDICT_VERSION :: pystr where
  "SYNTHETIC_VERDICT_VERSION = ustr ''cogs.stage2-completion-synthetic-custody-verdict/v1''"
definition PRODUCTION_EVIDENCE_VERSION :: pystr where
  "PRODUCTION_EVIDENCE_VERSION = ustr ''cogs.aws-stage2-completion-evidence/v1''"
definition PRODUCTION_AUTHORITY :: pystr where
  "PRODUCTION_AUTHORITY = ustr ''aws-stage2-completion''"
definition NORMAL_DEADLINE_NS :: int where "NORMAL_DEADLINE_NS = 5400000000000"
definition BILLING_HOUR_NS :: int where "BILLING_HOUR_NS = 3600000000000"

definition TEARDOWN_PHASES :: "string list" where
  "TEARDOWN_PHASES =
     [''READINESS_REVOKED'', ''TASK_STOPPED'', ''TASK_ABSENT'', ''RUNTIME_PROCESSES_ABSENT'',
      ''NETWORK_ABSENT'', ''CONTAINER_ABSENT'', ''SHARE_AND_MOUNTS_ABSENT'',
      ''FIREWALL_ABSENT'', ''CONTAINERD_ABSENT'', ''INPUTS_ABSENT'', ''ROOTFS_ABSENT'',
      ''FINAL_BASELINES'', ''RETIRED'']"

definition FRESHNESS_NAMES :: "string list" where
  "FRESHNESS_NAMES =
     [''instance'', ''root_volume'', ''launch_template_generation'', ''host_boot'',
      ''operation'', ''client_key'', ''host_key'', ''pre_destroy_receipt'']"

definition ev_require :: "bool \<Rightarrow> string \<Rightarrow> 'a result \<Rightarrow> 'a result" where
  "ev_require condition message k = require condition (SyntheticEvidenceError message) k"

lemma ev_require_Inr [simp]: "ev_require c m k = Inr x \<longleftrightarrow> c \<and> k = Inr x"
  by (simp add: ev_require_def)

definition ev_digest :: "pystr \<Rightarrow> 'a result \<Rightarrow> 'a result" where
  "ev_digest v k = ev_require (is_hex64 v) ''exact lowercase SHA-256 commitment required'' k"

lemma ev_digest_Inr [simp]: "ev_digest v k = Inr x \<longleftrightarrow> is_hex64 v \<and> k = Inr x"
  by (simp add: ev_digest_def)

definition ev_positive :: "int \<Rightarrow> int \<Rightarrow> 'a result \<Rightarrow> 'a result" where
  "ev_positive v maximum k = ev_require (1 \<le> v \<and> v \<le> maximum) ''positive nanosecond bound'' k"

lemma ev_positive_Inr [simp]: "ev_positive v mx k = Inr x \<longleftrightarrow> 1 \<le> v \<and> v \<le> mx \<and> k = Inr x"
  by (simp add: ev_positive_def)

definition jints :: "int list \<Rightarrow> json" where "jints xs = JArr (map JInt xs)"
definition jstrs :: "pystr list \<Rightarrow> json" where "jstrs xs = JArr (map JStr xs)"

definition summary :: "int list \<Rightarrow> json result" where
  "summary values =
     ev_require (length values = 7 \<and> list_all (\<lambda>v. 0 < v) values) ''exact seven positive samples required''
     (let ordered = sort values in
      Inr (JObj [(ustr ''samples_ns'', jints values), (ustr ''min_ns'', JInt (ordered ! 0)),
                 (ustr ''p50_ns'', JInt (ordered ! 3)), (ustr ''p95_ns'', JInt (ordered ! 6)),
                 (ustr ''max_ns'', JInt (ordered ! 6))]))"

definition ceil_cost :: "int \<Rightarrow> int \<Rightarrow> int result" where
  "ceil_cost duration_ns rate =
     ev_require (1 \<le> rate \<and> rate \<le> 1000000000) ''integer rate bound''
       (Inr ((duration_ns * rate + BILLING_HOUR_NS - 1) div BILLING_HOUR_NS))"

section \<open>Receipts\<close>

record workload_sample =
  wl_category :: string
  wl_ordinal :: int
  wl_duration_ns :: int
  wl_output_commitment :: pystr
  wl_deleted :: bool
  wl_cycle_receipt_commitment :: pystr

text \<open>The checks of \<^verbatim>\<open>SyntheticWorkloadSample.__post_init__\<close>.\<close>

definition workload_init :: "workload_sample \<Rightarrow> workload_sample result" where
  "workload_init w =
     ev_require (wl_category w \<in> {''git'', ''build'', ''install''}) ''closed workload category''
     (ev_require (1 \<le> wl_ordinal w \<and> wl_ordinal w \<le> 7) ''workload ordinal''
     (ev_positive (wl_duration_ns w) NORMAL_DEADLINE_NS
     (ev_digest (wl_output_commitment w)
     (ev_digest (wl_cycle_receipt_commitment w)
     (ev_require (wl_deleted w) ''sample deletion required'' (Inr w))))))"

record cycle_receipt =
  cr_version :: pystr
  cr_batch_commitment :: pystr
  cr_previous_custody_sha256 :: pystr
  cr_ordinal :: int
  cr_mode :: cycle_mode
  cr_expiry_at :: pystr
  cr_deadline_binding_commitment :: pystr
  cr_effect_started_offset_ns :: int
  cr_effect_ended_offset_ns :: int
  cr_apply_to_running_ns :: int
  cr_kata_launch_to_ssh_ready_ns :: int
  cr_receipt_commitment :: pystr
  cr_freshness_commitments :: "pystr list"
  cr_workloads :: "workload_sample list"
  cr_teardown_phases :: "string list"
  cr_destroy_commitment :: pystr
  cr_costs_micro_usd :: "int list"

definition workload_value :: "workload_sample \<Rightarrow> json" where
  "workload_value w = JObj
     [(ustr ''category'', JStr (ustr (wl_category w))), (ustr ''ordinal'', JInt (wl_ordinal w)),
      (ustr ''duration_ns'', JInt (wl_duration_ns w)),
      (ustr ''output_commitment'', JStr (wl_output_commitment w)),
      (ustr ''deleted'', JBool (wl_deleted w)),
      (ustr ''cycle_receipt_commitment'', JStr (wl_cycle_receipt_commitment w))]"

definition cycle_custody_value :: "cycle_receipt \<Rightarrow> json" where
  "cycle_custody_value r = JObj
     [(ustr ''version'', JStr (cr_version r)),
      (ustr ''batch_commitment'', JStr (cr_batch_commitment r)),
      (ustr ''previous_custody_sha256'', JStr (cr_previous_custody_sha256 r)),
      (ustr ''ordinal'', JInt (cr_ordinal r)), (ustr ''mode'', JStr (ustr (mode_value (cr_mode r)))),
      (ustr ''expiry_at'', JStr (cr_expiry_at r)),
      (ustr ''deadline_binding_commitment'', JStr (cr_deadline_binding_commitment r)),
      (ustr ''effect_started_offset_ns'', JInt (cr_effect_started_offset_ns r)),
      (ustr ''effect_ended_offset_ns'', JInt (cr_effect_ended_offset_ns r)),
      (ustr ''apply_to_running_ns'', JInt (cr_apply_to_running_ns r)),
      (ustr ''kata_launch_to_ssh_ready_ns'', JInt (cr_kata_launch_to_ssh_ready_ns r)),
      (ustr ''receipt_commitment'', JStr (cr_receipt_commitment r)),
      (ustr ''freshness_commitments'', jstrs (cr_freshness_commitments r)),
      (ustr ''workloads'', JArr (map workload_value (cr_workloads r))),
      (ustr ''teardown_phases'', jstrs (map ustr (cr_teardown_phases r))),
      (ustr ''destroy_commitment'', JStr (cr_destroy_commitment r)),
      (ustr ''costs_micro_usd'', jints (cr_costs_micro_usd r))]"

record zero_receipt =
  zr_version :: pystr
  zr_batch_commitment :: pystr
  zr_previous_custody_sha256 :: pystr
  zr_observation_sequence :: int
  zr_cycle_ordinal :: "int option"
  zr_zero_commitment :: pystr

definition zero_custody_value :: "zero_receipt \<Rightarrow> json" where
  "zero_custody_value r = JObj
     [(ustr ''version'', JStr (zr_version r)),
      (ustr ''batch_commitment'', JStr (zr_batch_commitment r)),
      (ustr ''previous_custody_sha256'', JStr (zr_previous_custody_sha256 r)),
      (ustr ''observation_sequence'', JInt (zr_observation_sequence r)),
      (ustr ''cycle_ordinal'', ordinal_json (zr_cycle_ordinal r)),
      (ustr ''zero_commitment'', JStr (zr_zero_commitment r))]"

text \<open>The module's registries of receipts issued and not yet accepted.\<close>

record registry =
  fresh_id :: nat
  issued_cycles :: "nat \<Rightarrow> cycle_receipt option"
  issued_zeros :: "nat \<Rightarrow> zero_receipt option"

section \<open>The issuer\<close>

record issuer =
  is_batch_commitment :: pystr
  is_expiry_at :: pystr
  is_deadline_binding_commitment :: pystr
  is_rates :: "int list"

definition issuer_init :: "pystr \<Rightarrow> pystr \<Rightarrow> pystr \<Rightarrow> int list \<Rightarrow> issuer result" where
  "issuer_init batch_commitment expiry_at deadline_binding_commitment rates =
     ev_digest batch_commitment
     (ev_digest deadline_binding_commitment
     (ev_require (expiry_at \<noteq> [] \<and> last expiry_at = 90 \<and> length expiry_at = 20) ''fixed UTC expiry required''
     (ev_require (length rates = 4) ''four exact rates required''
     (rbind (map_result (ceil_cost 1) rates) (\<lambda>_.
       Inr \<lparr>is_batch_commitment = batch_commitment, is_expiry_at = expiry_at,
            is_deadline_binding_commitment = deadline_binding_commitment, is_rates = rates\<rparr>)))))"

text \<open>The keyword arguments of \<^verbatim>\<open>issue_cycle\<close>.\<close>

record cycle_facts =
  cf_previous_custody_sha256 :: pystr
  cf_ordinal :: int
  cf_mode :: cycle_mode
  cf_effect_started_offset_ns :: int
  cf_effect_ended_offset_ns :: int
  cf_apply_to_running_ns :: int
  cf_kata_launch_to_ssh_ready_ns :: int
  cf_receipt_commitment :: pystr
  cf_freshness_commitments :: "pystr list"
  cf_workloads :: "workload_sample list"
  cf_teardown_phases :: "string list"
  cf_destroy_commitment :: pystr
  cf_costs_micro_usd :: "int list"
  cf_expiry_at :: "pystr option"
  cf_deadline_binding_commitment :: "pystr option"

definition expected_workloads :: "(string \<times> int) list" where
  "expected_workloads = concat (map (\<lambda>category. map (\<lambda>i. (category, i)) [1, 2, 3, 4, 5, 6, 7])
     [''git'', ''build'', ''install''])"

fun check_digests :: "pystr list \<Rightarrow> 'a result \<Rightarrow> 'a result" where
  "check_digests [] k = k"
| "check_digests (x # xs) k = ev_digest x (check_digests xs k)"

definition check_workloads :: "cycle_facts \<Rightarrow> 'a result \<Rightarrow> 'a result" where
  "check_workloads f k =
     (if cf_ordinal f = 1 then
        ev_require (length (cf_workloads f) = 21) ''full cycle requires 21 workload rows''
        (ev_require (map (\<lambda>w. (wl_category w, wl_ordinal w)) (cf_workloads f) = expected_workloads)
           ''workload order mismatch''
        (ev_require (list_all (\<lambda>w. wl_cycle_receipt_commitment w = cf_receipt_commitment f) (cf_workloads f))
           ''workload receipt swap'' k))
      else ev_require (cf_workloads f = []) ''readiness receipt cannot contain workload fields'' k)"

text \<open>An instance of the sealed sample class is a sample its constructor accepted.\<close>

definition issue_cycle_receipt :: "issuer \<Rightarrow> cycle_facts \<Rightarrow> cycle_receipt result" where
  "issue_cycle_receipt i f =
     ev_digest (cf_previous_custody_sha256 f)
     (ev_require (1 \<le> cf_ordinal f \<and> cf_ordinal f \<le> 7) ''cycle ordinal''
     (ev_require (cf_mode f = expected_mode (cf_ordinal f)) ''fixed seven-cycle mode mismatch''
     (ev_require (0 \<le> cf_effect_started_offset_ns f \<and> cf_effect_started_offset_ns f < NORMAL_DEADLINE_NS)
        ''effect start offset bound''
     (ev_require (cf_effect_started_offset_ns f < cf_effect_ended_offset_ns f \<and>
        cf_effect_ended_offset_ns f < NORMAL_DEADLINE_NS) ''effect end deadline bound''
     (let duration = cf_effect_ended_offset_ns f - cf_effect_started_offset_ns f in
      ev_positive (cf_apply_to_running_ns f) duration
     (ev_positive (cf_kata_launch_to_ssh_ready_ns f) duration
     (ev_digest (cf_receipt_commitment f)
     (ev_require (length (cf_freshness_commitments f) = length FRESHNESS_NAMES) ''exact freshness vector required''
     (check_digests (cf_freshness_commitments f)
     (ev_require (distinct (cf_freshness_commitments f)) ''domain-separated freshness required''
     (ev_require (list_all (\<lambda>w. workload_init w = Inr w) (cf_workloads f))
        ''closed validated workload sample type required''
     (check_workloads f
     (ev_require (cf_teardown_phases f = TEARDOWN_PHASES) ''exact 13 teardown phases required''
     (ev_digest (cf_destroy_commitment f)
     (ev_require (length (cf_costs_micro_usd f) = 4) ''exact component costs required''
     (rbind (map_result (ceil_cost duration) (is_rates i)) (\<lambda>expected_costs.
      ev_require (cf_costs_micro_usd f = expected_costs) ''deadline-duration cost binding mismatch''
     (ev_require (cf_expiry_at f \<in> {None, Some (is_expiry_at i)}) ''common expiry drift''
     (ev_require (cf_deadline_binding_commitment f \<in> {None, Some (is_deadline_binding_commitment i)})
        ''deadline binding drift''
       (Inr \<lparr>cr_version = SYNTHETIC_RECEIPT_VERSION, cr_batch_commitment = is_batch_commitment i,
          cr_previous_custody_sha256 = cf_previous_custody_sha256 f, cr_ordinal = cf_ordinal f,
          cr_mode = cf_mode f, cr_expiry_at = is_expiry_at i,
          cr_deadline_binding_commitment = is_deadline_binding_commitment i,
          cr_effect_started_offset_ns = cf_effect_started_offset_ns f,
          cr_effect_ended_offset_ns = cf_effect_ended_offset_ns f,
          cr_apply_to_running_ns = cf_apply_to_running_ns f,
          cr_kata_launch_to_ssh_ready_ns = cf_kata_launch_to_ssh_ready_ns f,
          cr_receipt_commitment = cf_receipt_commitment f,
          cr_freshness_commitments = cf_freshness_commitments f, cr_workloads = cf_workloads f,
          cr_teardown_phases = cf_teardown_phases f, cr_destroy_commitment = cf_destroy_commitment f,
          cr_costs_micro_usd = cf_costs_micro_usd f\<rparr>))))))))))))))))))))"

definition issue_cycle :: "issuer \<Rightarrow> cycle_facts \<Rightarrow> (registry, nat \<times> cycle_receipt) eff" where
  "issue_cycle i f =
     ebind (lift (issue_cycle_receipt i f)) (\<lambda>receipt.
     ebind (gets fresh_id) (\<lambda>n.
     ebind (modify (\<lambda>g. g\<lparr>fresh_id := Suc n, issued_cycles := (issued_cycles g)(n \<mapsto> receipt)\<rparr>)) (\<lambda>_.
       ret (n, receipt))))"

definition issue_zero_receipt ::
  "issuer \<Rightarrow> pystr \<Rightarrow> int \<Rightarrow> int option \<Rightarrow> pystr \<Rightarrow> zero_receipt result" where
  "issue_zero_receipt i previous observation_sequence cycle_ordinal zero_commitment =
     ev_digest previous
     (ev_require (1 \<le> observation_sequence \<and> observation_sequence \<le> 8) ''zero observation sequence''
     (let expected_cycle = (if observation_sequence \<le> 7 then Some observation_sequence else None) in
      ev_require (cycle_ordinal = expected_cycle) ''zero cycle binding mismatch''
     (ev_digest zero_commitment
       (Inr \<lparr>zr_version = SYNTHETIC_ZERO_VERSION, zr_batch_commitment = is_batch_commitment i,
          zr_previous_custody_sha256 = previous, zr_observation_sequence = observation_sequence,
          zr_cycle_ordinal = cycle_ordinal, zr_zero_commitment = zero_commitment\<rparr>))))"

definition issue_zero ::
  "issuer \<Rightarrow> pystr \<Rightarrow> int \<Rightarrow> int option \<Rightarrow> pystr \<Rightarrow> (registry, nat \<times> zero_receipt) eff" where
  "issue_zero i previous observation_sequence cycle_ordinal zero_commitment =
     ebind (lift (issue_zero_receipt i previous observation_sequence cycle_ordinal zero_commitment)) (\<lambda>receipt.
     ebind (gets fresh_id) (\<lambda>n.
     ebind (modify (\<lambda>g. g\<lparr>fresh_id := Suc n, issued_zeros := (issued_zeros g)(n \<mapsto> receipt)\<rparr>)) (\<lambda>_.
       ret (n, receipt))))"

section \<open>The custody chain\<close>

record custody =
  cu_batch :: pystr
  cu_expiry :: pystr
  cu_deadline :: pystr
  cu_root :: pystr
  cu_cycles :: "cycle_receipt list"
  cu_zeros :: "zero_receipt list"
  cu_sealed :: bool

definition custody_init :: "pystr \<Rightarrow> pystr \<Rightarrow> pystr \<Rightarrow> custody result" where
  "custody_init batch_commitment expiry_at deadline_binding_commitment =
     ev_digest batch_commitment
     (ev_digest deadline_binding_commitment
       (Inr \<lparr>cu_batch = batch_commitment, cu_expiry = expiry_at,
          cu_deadline = deadline_binding_commitment, cu_root = ZERO_SHA256, cu_cycles = [],
          cu_zeros = [], cu_sealed = False\<rparr>))"

text \<open>\<^verbatim>\<open>bytes.fromhex\<close> of a lower-case hexadecimal text.\<close>

definition hex_value :: "nat \<Rightarrow> nat option" where
  "hex_value c = (if 48 \<le> c \<and> c \<le> 57 then Some (c - 48) else if 97 \<le> c \<and> c \<le> 102 then Some (c - 87) else None)"

fun fromhex :: "pystr \<Rightarrow> bytes result" where
  "fromhex [] = Inr []"
| "fromhex [c] = Inl (PyValueError ''non-hexadecimal number'')"
| "fromhex (a # b # s) =
     (case (hex_value a, hex_value b) of
        (Some x, Some y) \<Rightarrow> rbind (fromhex s) (\<lambda>r. Inr ((16 * x + y) # r))
      | _ \<Rightarrow> Inl (PyValueError ''non-hexadecimal number''))"

definition CUSTODY_DOMAIN :: pystr where
  "CUSTODY_DOMAIN = ustr ''cogs.stage2-completion/synthetic-custody-record/v1''"

definition accept :: "digest_fun \<Rightarrow> pystr \<Rightarrow> pystr \<Rightarrow> json \<Rightarrow> (custody, unit) eff" where
  "accept H batch previous custody_value =
     ebind (gets id) (\<lambda>c.
     ebind (guard (\<not> cu_sealed c) (SyntheticEvidenceError ''sealed synthetic custody'')) (\<lambda>_.
     ebind (guard (batch = cu_batch c \<and> previous = cu_root c)
       (SyntheticEvidenceError ''cross-batch or spliced synthetic receipt'')) (\<lambda>_.
     ebind (lift (rbind (fromhex (cu_batch c)) (\<lambda>salt. commitment_sha256 H CUSTODY_DOMAIN custody_value salt))) (\<lambda>root.
       modify (\<lambda>c. c\<lparr>cu_root := root\<rparr>)))))"

text \<open>The chain works on the registries and its own fields.\<close>

record vault =
  v_registry :: registry
  v_custody :: custody

abbreviation on_custody :: "(custody, 'a) eff \<Rightarrow> (vault, 'a) eff" where
  "on_custody m \<equiv> zoom v_custody (\<lambda>c v. v\<lparr>v_custody := c\<rparr>) m"

abbreviation on_registry :: "(registry, 'a) eff \<Rightarrow> (vault, 'a) eff" where
  "on_registry m \<equiv> zoom v_registry (\<lambda>g v. v\<lparr>v_registry := g\<rparr>) m"

definition check_cycle :: "nat \<Rightarrow> cycle_receipt \<Rightarrow> vault \<Rightarrow> unit result" where
  "check_cycle oid r v =
     (let c = v_custody v; ordinal = length (cu_cycles c) + 1 in
      ev_require (issued_cycles (v_registry v) oid = Some r)
        ''custody accepts only validated synthetic cycle receipt type''
      (ev_require (length (cu_cycles c) = length (cu_zeros c) \<and> cr_ordinal r = int ordinal) ''cycle order barrier''
      (require (ordinal \<le> 7) PyIndexError
      (ev_require (cr_mode r = CYCLE_MODES ! (ordinal - 1)) ''cycle order barrier''
      (ev_require (cr_expiry_at r = cu_expiry c \<and> cr_deadline_binding_commitment r = cu_deadline c)
        ''custody common binding mismatch''
      (if cu_cycles c \<noteq> [] then
         ev_require (cr_effect_ended_offset_ns (last (cu_cycles c)) \<le> cr_effect_started_offset_ns r)
           ''synthetic cycle overlap'' (Inr ())
       else ev_require (cr_effect_started_offset_ns r = 0) ''first effect must define zero offset'' (Inr ())))))))"

definition accept_cycle :: "digest_fun \<Rightarrow> nat \<times> cycle_receipt \<Rightarrow> (vault, unit) eff" where
  "accept_cycle H x = (case x of (oid, r) \<Rightarrow>
     ebind (gets (check_cycle oid r)) (\<lambda>ok. ebind (lift ok) (\<lambda>_.
     ebind (on_custody (accept H (cr_batch_commitment r) (cr_previous_custody_sha256 r) (cycle_custody_value r))) (\<lambda>_.
     ebind (on_registry (modify (\<lambda>g. g\<lparr>issued_cycles := (issued_cycles g)(oid := None)\<rparr>))) (\<lambda>_.
       on_custody (modify (\<lambda>c. c\<lparr>cu_cycles := cu_cycles c @ [r]\<rparr>)))))))"

definition check_zero :: "nat \<Rightarrow> zero_receipt \<Rightarrow> vault \<Rightarrow> unit result" where
  "check_zero oid r v =
     (let c = v_custody v; expected_sequence = length (cu_zeros c) + 1 in
      ev_require (issued_zeros (v_registry v) oid = Some r)
        ''custody accepts only validated synthetic zero receipt type''
      (ev_require (zr_observation_sequence r = int expected_sequence) ''zero observation order mismatch''
      (if expected_sequence \<le> 7 then
         ev_require (length (cu_cycles c) = expected_sequence \<and> zr_cycle_ordinal r = Some (int expected_sequence))
           ''cycle zero barrier''
           (ev_require (zr_zero_commitment r \<notin> zr_zero_commitment ` set (cu_zeros c)) ''zero receipt replay'' (Inr ()))
       else
         ev_require (length (cu_cycles c) = 7 \<and> length (cu_zeros c) = 7 \<and> zr_cycle_ordinal r = None)
           ''distinct final zero required''
           (ev_require (zr_zero_commitment r \<notin> zr_zero_commitment ` set (cu_zeros c)) ''zero receipt replay'' (Inr ())))))"

definition accept_zero :: "digest_fun \<Rightarrow> nat \<times> zero_receipt \<Rightarrow> (vault, unit) eff" where
  "accept_zero H x = (case x of (oid, r) \<Rightarrow>
     ebind (gets (check_zero oid r)) (\<lambda>ok. ebind (lift ok) (\<lambda>_.
     ebind (on_custody (accept H (zr_batch_commitment r) (zr_previous_custody_sha256 r) (zero_custody_value r))) (\<lambda>_.
     ebind (on_registry (modify (\<lambda>g. g\<lparr>issued_zeros := (issued_zeros g)(oid := None)\<rparr>))) (\<lambda>_.
       on_custody (modify (\<lambda>c. c\<lparr>cu_zeros := cu_zeros c @ [r]\<rparr>)))))))"

section \<open>Sealing\<close>

definition seal_check :: "custody \<Rightarrow> unit result" where
  "seal_check c =
     ev_require (\<not> cu_sealed c \<and> length (cu_cycles c) = 7 \<and> length (cu_zeros c) = 8) ''incomplete synthetic custody''
     (ev_require (distinct (concat (map cr_freshness_commitments (cu_cycles c)))) ''cross-cycle freshness replay''
     (ev_require (card (cr_receipt_commitment ` set (cu_cycles c)) = 7) ''cycle receipt replay''
     (ev_require (card (cr_destroy_commitment ` set (cu_cycles c)) = 7) ''destroy receipt replay'' (Inr ()))))"

definition group :: "cycle_receipt \<Rightarrow> string \<Rightarrow> int list" where
  "group full category = map wl_duration_ns (filter (\<lambda>w. wl_category w = category) (cr_workloads full))"

definition verdict_value :: "custody \<Rightarrow> json result" where
  "verdict_value c =
     (let full = hd (cu_cycles c) in
      rbind (summary (map cr_apply_to_running_ns (cu_cycles c))) (\<lambda>launch.
      rbind (summary (map cr_kata_launch_to_ssh_ready_ns (cu_cycles c))) (\<lambda>ssh.
      rbind (summary (group full ''git'')) (\<lambda>git.
      rbind (summary (group full ''build'')) (\<lambda>build.
      rbind (summary (group full ''install'')) (\<lambda>install.
      Inr (JObj
       [(ustr ''version'', JStr SYNTHETIC_VERDICT_VERSION),
        (ustr ''authority'', JStr (ustr ''synthetic-private-test-model'')),
        (ustr ''result'', JStr (ustr ''pass'')),
        (ustr ''cycle_modes'', jstrs (map (\<lambda>r. ustr (mode_value (cr_mode r))) (cu_cycles c))),
        (ustr ''launch_summary'', launch), (ustr ''ssh_ready_summary'', ssh),
        (ustr ''workload_summaries'',
           JObj [(ustr ''git'', git), (ustr ''build'', build), (ustr ''install'', install)]),
        (ustr ''workload_count'', JInt (int (sum_list (map (\<lambda>r. length (cr_workloads r)) (cu_cycles c))))),
        (ustr ''cycle_zero_commitments'', jstrs (map zr_zero_commitment (take 7 (cu_zeros c)))),
        (ustr ''final_zero_commitment'', JStr (zr_zero_commitment (cu_zeros c ! 7))),
        (ustr ''zero_receipt_count'', JInt 8),
        (ustr ''aggregate_duration_ns'',
           JInt (sum_list (map (\<lambda>r. cr_effect_ended_offset_ns r - cr_effect_started_offset_ns r) (cu_cycles c)))),
        (ustr ''aggregate_cost_micro_usd'',
           JInt (sum_list (map (\<lambda>r. sum_list (cr_costs_micro_usd r)) (cu_cycles c)))),
        (ustr ''custody_root'', JStr (cu_root c)),
        (ustr ''production_evidence_version'', JNull), (ustr ''production_authority'', JNull),
        (ustr ''production_publication_authorized'', JBool False),
        (ustr ''provider_execution_observed'', JBool False)])))))))"

text \<open>\<^verbatim>\<open>needle in text\<close>.\<close>

fun contains :: "pystr \<Rightarrow> pystr \<Rightarrow> bool" where
  "contains needle [] = (needle = [])"
| "contains needle (c # s) = (take (length needle) (c # s) = needle \<or> contains needle s)"

definition decode_ascii :: "bytes \<Rightarrow> pystr result" where
  "decode_ascii b = require (list_all (\<lambda>x. x < 128) b) (PyValueError ''ordinal not in range(128)'') (Inr b)"

definition check_verdict :: "json \<Rightarrow> json result" where
  "check_verdict verdict =
     rbind (canonical_bytes verdict) (\<lambda>raw. rbind (decode_ascii raw) (\<lambda>text.
     ev_require (\<not> contains PRODUCTION_EVIDENCE_VERSION text \<and> \<not> contains PRODUCTION_AUTHORITY text)
       ''synthetic verdict attempted production authority'' (Inr verdict)))"

definition seal_fake_verdict :: "(custody, json) eff" where
  "seal_fake_verdict =
     ebind (gets seal_check) (\<lambda>ok. ebind (lift ok) (\<lambda>_.
     ebind (modify (\<lambda>c. c\<lparr>cu_sealed := True\<rparr>)) (\<lambda>_.
     ebind (gets verdict_value) (\<lambda>value. ebind (lift value) (\<lambda>verdict.
       lift (check_verdict verdict))))))"

section \<open>Well-formed receipts\<close>

definition workload_wf :: "workload_sample \<Rightarrow> bool" where
  "workload_wf w \<longleftrightarrow> wl_category w \<in> {''git'', ''build'', ''install''} \<and> 1 \<le> wl_ordinal w \<and> wl_ordinal w \<le> 7 \<and>
     1 \<le> wl_duration_ns w \<and> wl_duration_ns w \<le> NORMAL_DEADLINE_NS \<and> is_hex64 (wl_output_commitment w) \<and>
     is_hex64 (wl_cycle_receipt_commitment w) \<and> wl_deleted w"

definition cycle_wf :: "cycle_receipt \<Rightarrow> bool" where
  "cycle_wf r \<longleftrightarrow>
     1 \<le> cr_ordinal r \<and> cr_ordinal r \<le> 7 \<and> cr_mode r = expected_mode (cr_ordinal r) \<and>
     0 \<le> cr_effect_started_offset_ns r \<and> cr_effect_started_offset_ns r < cr_effect_ended_offset_ns r \<and>
     cr_effect_ended_offset_ns r < NORMAL_DEADLINE_NS \<and>
     1 \<le> cr_apply_to_running_ns r \<and> 1 \<le> cr_kata_launch_to_ssh_ready_ns r \<and>
     length (cr_freshness_commitments r) = 8 \<and> distinct (cr_freshness_commitments r) \<and>
     list_all workload_wf (cr_workloads r) \<and>
     (if cr_ordinal r = 1 then map (\<lambda>w. (wl_category w, wl_ordinal w)) (cr_workloads r) = expected_workloads
      else cr_workloads r = []) \<and>
     cr_teardown_phases r = TEARDOWN_PHASES \<and> length (cr_costs_micro_usd r) = 4"

definition zero_wf :: "zero_receipt \<Rightarrow> bool" where
  "zero_wf r \<longleftrightarrow> 1 \<le> zr_observation_sequence r \<and> zr_observation_sequence r \<le> 8 \<and> is_hex64 (zr_zero_commitment r) \<and>
     zr_cycle_ordinal r = (if zr_observation_sequence r \<le> 7 then Some (zr_observation_sequence r) else None)"

lemma workload_init_Inr: "workload_init w = Inr w' \<longleftrightarrow> w' = w \<and> workload_wf w"
  by (auto simp: workload_init_def workload_wf_def)

lemma check_digests_Inr: "check_digests xs k = Inr x \<longleftrightarrow> list_all is_hex64 xs \<and> k = Inr x"
  by (induction xs) auto

lemma check_workloads_Inr: "check_workloads f k = Inr x \<longleftrightarrow>
    (if cf_ordinal f = 1 then map (\<lambda>w. (wl_category w, wl_ordinal w)) (cf_workloads f) = expected_workloads \<and>
       list_all (\<lambda>w. wl_cycle_receipt_commitment w = cf_receipt_commitment f) (cf_workloads f)
     else cf_workloads f = []) \<and> k = Inr x"
proof -
  have "length ws = 21" if "map (\<lambda>w. (wl_category w, wl_ordinal w)) ws = expected_workloads" for ws
    using arg_cong [OF that, of length] by (simp add: expected_workloads_def)
  then show ?thesis by (auto simp: check_workloads_def)
qed

lemma issue_cycle_receipt_wf: "issue_cycle_receipt i f = Inr r \<Longrightarrow> cycle_wf r \<and> cr_batch_commitment r = is_batch_commitment i"
  by (auto simp: issue_cycle_receipt_def cycle_wf_def Let_def check_digests_Inr check_workloads_Inr
      workload_init_Inr FRESHNESS_NAMES_def)

lemma issue_zero_receipt_wf: "issue_zero_receipt i p n k z = Inr r \<Longrightarrow> zero_wf r"
  by (auto simp: issue_zero_receipt_def zero_wf_def Let_def)

section \<open>The invariant of the vault\<close>

definition registry_wf :: "registry \<Rightarrow> bool" where
  "registry_wf g \<longleftrightarrow> (\<forall>n r. issued_cycles g n = Some r \<longrightarrow> cycle_wf r) \<and>
     (\<forall>n r. issued_zeros g n = Some r \<longrightarrow> zero_wf r)"

definition cycles_ok :: "cycle_receipt list \<Rightarrow> bool" where
  "cycles_ok cs \<longleftrightarrow>
     (\<forall>i<length cs. cycle_wf (cs ! i) \<and> cr_ordinal (cs ! i) = int i + 1) \<and>
     (cs \<noteq> [] \<longrightarrow> cr_effect_started_offset_ns (hd cs) = 0) \<and>
     (\<forall>i. Suc i < length cs \<longrightarrow>
        cr_effect_ended_offset_ns (cs ! i) \<le> cr_effect_started_offset_ns (cs ! Suc i))"

definition zeros_ok :: "zero_receipt list \<Rightarrow> bool" where
  "zeros_ok zs \<longleftrightarrow> (\<forall>i<length zs. zero_wf (zs ! i) \<and> zr_observation_sequence (zs ! i) = int i + 1) \<and>
     distinct (map zr_zero_commitment zs)"

definition custody_wf :: "custody \<Rightarrow> bool" where
  "custody_wf c \<longleftrightarrow> cycles_ok (cu_cycles c) \<and> zeros_ok (cu_zeros c) \<and> length (cu_cycles c) \<le> 7 \<and>
     (length (cu_cycles c) = length (cu_zeros c) \<or> length (cu_cycles c) = Suc (length (cu_zeros c)) \<or>
      length (cu_cycles c) = 7 \<and> length (cu_zeros c) = 8)"

definition vault_wf :: "vault \<Rightarrow> bool" where
  "vault_wf v \<longleftrightarrow> registry_wf (v_registry v) \<and> custody_wf (v_custody v)"

lemma custody_init_wf: "custody_init b e d = Inr c \<Longrightarrow> custody_wf c"
  by (auto simp: custody_init_def custody_wf_def cycles_ok_def zeros_ok_def)

lemma issue_cycle_keeps: "keeps registry_wf (issue_cycle i f)"
  by (auto simp: keeps_def issue_cycle_def ebind_def eff_defs registry_wf_def
      split: sum.splits dest!: issue_cycle_receipt_wf)

lemma issue_zero_keeps: "keeps registry_wf (issue_zero i p n k z)"
  by (auto simp: keeps_def issue_zero_def ebind_def eff_defs registry_wf_def
      split: sum.splits dest!: issue_zero_receipt_wf)

lemma accept_state:
  "accept H b p j c = (r, c') \<Longrightarrow> (\<exists>e. r = Inl e \<and> c' = c) \<or>
     (\<exists>root. r = Inr () \<and> c' = c\<lparr>cu_root := root\<rparr> \<and> \<not> cu_sealed c \<and> b = cu_batch c \<and> p = cu_root c \<and>
        rbind (fromhex (cu_batch c)) (commitment_sha256 H CUSTODY_DOMAIN j) = Inr root)"
  by (auto simp: accept_def ebind_def eff_defs split: sum.splits if_splits)

lemma cycles_ok_snoc:
  assumes "cycles_ok cs" and "cycle_wf r" and "cr_ordinal r = int (length cs) + 1"
    and "if cs \<noteq> [] then cr_effect_ended_offset_ns (last cs) \<le> cr_effect_started_offset_ns r
         else cr_effect_started_offset_ns r = 0"
  shows "cycles_ok (cs @ [r])"
  unfolding cycles_ok_def
proof (intro conjI allI impI)
  fix i assume "Suc i < length (cs @ [r])"
  then consider "Suc i < length cs" | "cs \<noteq> []" "i = length cs - 1" by fastforce
  then show "cr_effect_ended_offset_ns ((cs @ [r]) ! i) \<le> cr_effect_started_offset_ns ((cs @ [r]) ! Suc i)"
  proof cases
    case 1
    then show ?thesis using assms(1) by (simp add: cycles_ok_def nth_append)
  next
    case 2
    then show ?thesis using assms(4) by (simp add: nth_append last_conv_nth)
  qed
next
  assume "cs @ [r] \<noteq> []"
  then show "cr_effect_started_offset_ns (hd (cs @ [r])) = 0" using assms(1,4) by (cases cs) (auto simp: cycles_ok_def)
qed (use assms in \<open>auto simp: cycles_ok_def nth_append less_Suc_eq\<close>)

lemma zeros_ok_snoc:
  assumes "zeros_ok zs" and "zero_wf r" and "zr_observation_sequence r = int (length zs) + 1"
    and "zr_zero_commitment r \<notin> zr_zero_commitment ` set zs"
  shows "zeros_ok (zs @ [r])"
  using assms by (auto simp: zeros_ok_def nth_append less_Suc_eq)

lemma check_cycle_Inr:
  "check_cycle oid r v = Inr () \<longleftrightarrow>
     issued_cycles (v_registry v) oid = Some r \<and>
     (let cs = cu_cycles (v_custody v) in
      length cs = length (cu_zeros (v_custody v)) \<and> length cs < 7 \<and> cr_ordinal r = int (length cs) + 1 \<and>
      cr_mode r = CYCLE_MODES ! length cs \<and>
      cr_expiry_at r = cu_expiry (v_custody v) \<and> cr_deadline_binding_commitment r = cu_deadline (v_custody v) \<and>
      (if cs \<noteq> [] then cr_effect_ended_offset_ns (last cs) \<le> cr_effect_started_offset_ns r
       else cr_effect_started_offset_ns r = 0))"
  by (auto simp: check_cycle_def Let_def split: if_splits)

lemma check_zero_Inr:
  "check_zero oid r v = Inr () \<longleftrightarrow>
     issued_zeros (v_registry v) oid = Some r \<and>
     (let zs = cu_zeros (v_custody v); n = length (cu_cycles (v_custody v)) in
      zr_observation_sequence r = int (length zs) + 1 \<and>
      (if length zs < 7 then n = Suc (length zs) \<and> zr_cycle_ordinal r = Some (int (length zs) + 1)
       else n = 7 \<and> length zs = 7 \<and> zr_cycle_ordinal r = None) \<and>
      zr_zero_commitment r \<notin> zr_zero_commitment ` set zs)"
  by (auto simp: check_zero_def Let_def split: if_splits)

text \<open>What an accepted receipt does to the vault, and that a refused one does nothing.\<close>

lemma accept_cycle_effect:
  assumes "accept_cycle H (oid, r) v = (res, v')"
  shows "(\<exists>e. res = Inl e \<and> v' = v) \<or>
    (\<exists>root. res = Inr () \<and> check_cycle oid r v = Inr () \<and> \<not> cu_sealed (v_custody v) \<and>
       cr_batch_commitment r = cu_batch (v_custody v) \<and> cr_previous_custody_sha256 r = cu_root (v_custody v) \<and>
       rbind (fromhex (cu_batch (v_custody v))) (commitment_sha256 H CUSTODY_DOMAIN (cycle_custody_value r)) = Inr root \<and>
       v' = v\<lparr>v_registry := (v_registry v)\<lparr>issued_cycles := (issued_cycles (v_registry v))(oid := None)\<rparr>,
             v_custody := (v_custody v)\<lparr>cu_root := root, cu_cycles := cu_cycles (v_custody v) @ [r]\<rparr>\<rparr>)"
proof (cases "check_cycle oid r v")
  case (Inl e)
  then have "res = Inl e" "v' = v" using assms by (simp_all add: accept_cycle_def ebind_def eff_defs)
  then show ?thesis by simp
next
  case (Inr u)
  obtain ar c' where acc: "accept H (cr_batch_commitment r) (cr_previous_custody_sha256 r)
    (cycle_custody_value r) (v_custody v) = (ar, c')" by force
  from accept_state [OF acc] show ?thesis
  proof (elim disjE exE conjE)
    fix e assume "ar = Inl e" "c' = v_custody v"
    then have "res = Inl e" "v' = v" using assms Inr acc
      by (simp_all add: accept_cycle_def ebind_def zoom_def eff_defs)
    then show ?thesis by simp
  next
    fix root assume ok: "ar = Inr ()" "c' = (v_custody v)\<lparr>cu_root := root\<rparr>"
    then have "v' = v\<lparr>v_registry := (v_registry v)\<lparr>issued_cycles := (issued_cycles (v_registry v))(oid := None)\<rparr>,
             v_custody := (v_custody v)\<lparr>cu_root := root, cu_cycles := cu_cycles (v_custody v) @ [r]\<rparr>\<rparr>" "res = Inr ()"
      using assms Inr acc by (auto simp: accept_cycle_def ebind_def zoom_def eff_defs)
    moreover assume "\<not> cu_sealed (v_custody v)" "cr_batch_commitment r = cu_batch (v_custody v)"
      "cr_previous_custody_sha256 r = cu_root (v_custody v)"
      "rbind (fromhex (cu_batch (v_custody v))) (commitment_sha256 H CUSTODY_DOMAIN (cycle_custody_value r)) = Inr root"
    ultimately show ?thesis using Inr by (intro disjI2 exI [of _ root]) simp
  qed
qed

lemma accept_zero_effect:
  assumes "accept_zero H (oid, r) v = (res, v')"
  shows "(\<exists>e. res = Inl e \<and> v' = v) \<or>
    (\<exists>root. res = Inr () \<and> check_zero oid r v = Inr () \<and> \<not> cu_sealed (v_custody v) \<and>
       zr_batch_commitment r = cu_batch (v_custody v) \<and> zr_previous_custody_sha256 r = cu_root (v_custody v) \<and>
       rbind (fromhex (cu_batch (v_custody v))) (commitment_sha256 H CUSTODY_DOMAIN (zero_custody_value r)) = Inr root \<and>
       v' = v\<lparr>v_registry := (v_registry v)\<lparr>issued_zeros := (issued_zeros (v_registry v))(oid := None)\<rparr>,
             v_custody := (v_custody v)\<lparr>cu_root := root, cu_zeros := cu_zeros (v_custody v) @ [r]\<rparr>\<rparr>)"
proof (cases "check_zero oid r v")
  case (Inl e)
  then have "res = Inl e" "v' = v" using assms by (simp_all add: accept_zero_def ebind_def eff_defs)
  then show ?thesis by simp
next
  case (Inr u)
  obtain ar c' where acc: "accept H (zr_batch_commitment r) (zr_previous_custody_sha256 r)
    (zero_custody_value r) (v_custody v) = (ar, c')" by force
  from accept_state [OF acc] show ?thesis
  proof (elim disjE exE conjE)
    fix e assume "ar = Inl e" "c' = v_custody v"
    then have "res = Inl e" "v' = v" using assms Inr acc
      by (simp_all add: accept_zero_def ebind_def zoom_def eff_defs)
    then show ?thesis by simp
  next
    fix root assume ok: "ar = Inr ()" "c' = (v_custody v)\<lparr>cu_root := root\<rparr>"
    then have "v' = v\<lparr>v_registry := (v_registry v)\<lparr>issued_zeros := (issued_zeros (v_registry v))(oid := None)\<rparr>,
             v_custody := (v_custody v)\<lparr>cu_root := root, cu_zeros := cu_zeros (v_custody v) @ [r]\<rparr>\<rparr>" "res = Inr ()"
      using assms Inr acc by (auto simp: accept_zero_def ebind_def zoom_def eff_defs)
    moreover assume "\<not> cu_sealed (v_custody v)" "zr_batch_commitment r = cu_batch (v_custody v)"
      "zr_previous_custody_sha256 r = cu_root (v_custody v)"
      "rbind (fromhex (cu_batch (v_custody v))) (commitment_sha256 H CUSTODY_DOMAIN (zero_custody_value r)) = Inr root"
    ultimately show ?thesis using Inr by (intro disjI2 exI [of _ root]) simp
  qed
qed

lemma accept_cycle_keeps: "keeps vault_wf (accept_cycle H x)"
proof -
  have "vault_wf v'" if wf: "vault_wf v" and acc: "accept_cycle H (oid, r) v = (res, v')" for v v' res oid r
    using accept_cycle_effect [OF acc]
  proof (elim disjE exE conjE)
    fix root assume ok: "check_cycle oid r v = Inr ()"
      and v': "v' = v\<lparr>v_registry := (v_registry v)\<lparr>issued_cycles := (issued_cycles (v_registry v))(oid := None)\<rparr>,
        v_custody := (v_custody v)\<lparr>cu_root := root, cu_cycles := cu_cycles (v_custody v) @ [r]\<rparr>\<rparr>"
    have "cycle_wf r" using ok wf by (auto simp: check_cycle_Inr vault_wf_def registry_wf_def)
    then have "cycles_ok (cu_cycles (v_custody v) @ [r])"
      using ok wf by (intro cycles_ok_snoc) (auto simp: check_cycle_Inr vault_wf_def custody_wf_def Let_def)
    then show "vault_wf v'" using ok wf
      by (auto simp: v' vault_wf_def registry_wf_def custody_wf_def check_cycle_Inr Let_def split: if_splits)
  qed (use wf in simp)
  then show ?thesis unfolding keeps_def by (cases x) (metis prod.collapse)
qed

lemma accept_zero_keeps: "keeps vault_wf (accept_zero H x)"
proof -
  have "vault_wf v'" if wf: "vault_wf v" and acc: "accept_zero H (oid, r) v = (res, v')" for v v' res oid r
    using accept_zero_effect [OF acc] wf
    by (auto simp: vault_wf_def registry_wf_def custody_wf_def check_zero_Inr Let_def split: if_splits intro!: zeros_ok_snoc)
  then show ?thesis unfolding keeps_def by (cases x) (metis prod.collapse)
qed

lemma seal_keeps: "keeps custody_wf seal_fake_verdict"
  by (auto simp: keeps_def seal_fake_verdict_def ebind_def eff_defs custody_wf_def split: sum.splits)

section \<open>Costs and summaries\<close>

lemma ceil_cost_bounds:
  assumes "ceil_cost d rate = Inr c"
  shows "d * rate \<le> c * BILLING_HOUR_NS" and "c * BILLING_HOUR_NS < d * rate + BILLING_HOUR_NS"
proof -
  let ?n = "d * rate + BILLING_HOUR_NS - 1"
  have c: "c = ?n div BILLING_HOUR_NS" using assms by (simp add: ceil_cost_def)
  have "c * BILLING_HOUR_NS = ?n - ?n mod BILLING_HOUR_NS" unfolding c by (simp add: minus_mod_eq_div_mult)
  moreover have "0 \<le> ?n mod BILLING_HOUR_NS" "?n mod BILLING_HOUR_NS < BILLING_HOUR_NS"
    by (simp_all add: BILLING_HOUR_NS_def)
  ultimately show "d * rate \<le> c * BILLING_HOUR_NS" and "c * BILLING_HOUR_NS < d * rate + BILLING_HOUR_NS"
    by linarith+
qed

lemma cycle_duration_sum:
  assumes "cycles_ok cs" and "cs \<noteq> []"
  shows "sum_list (map (\<lambda>r. cr_effect_ended_offset_ns r - cr_effect_started_offset_ns r) cs)
    \<le> cr_effect_ended_offset_ns (last cs)"
  using assms
proof (induction cs rule: rev_induct)
  case (snoc r cs)
  show ?case
  proof (cases "cs = []")
    case True
    then show ?thesis using snoc.prems by (simp add: cycles_ok_def)
  next
    case False
    have "cycles_ok cs" using snoc.prems(1) False by (auto simp: cycles_ok_def nth_append split: if_splits)
    moreover have "cr_effect_ended_offset_ns (last cs) \<le> cr_effect_started_offset_ns r"
    proof -
      have "Suc (length cs - 1) < length (cs @ [r])" using False by simp
      then have "cr_effect_ended_offset_ns ((cs @ [r]) ! (length cs - 1)) \<le>
          cr_effect_started_offset_ns ((cs @ [r]) ! Suc (length cs - 1))"
        using snoc.prems(1) unfolding cycles_ok_def by blast
      then show ?thesis using False by (simp add: nth_append last_conv_nth)
    qed
    ultimately show ?thesis using snoc.IH False by simp
  qed
qed simp

lemma summary_Inr:
  "summary xs = Inr j \<longleftrightarrow> length xs = 7 \<and> list_all (\<lambda>v. 0 < v) xs \<and>
     j = JObj [(ustr ''samples_ns'', jints xs), (ustr ''min_ns'', JInt (sort xs ! 0)),
               (ustr ''p50_ns'', JInt (sort xs ! 3)), (ustr ''p95_ns'', JInt (sort xs ! 6)),
               (ustr ''max_ns'', JInt (sort xs ! 6))]"
  by (auto simp: summary_def Let_def)

lemma cycles_ok_modes:
  assumes "cycles_ok cs" and "length cs = 7"
  shows "map cr_mode cs = CYCLE_MODES"
proof (rule nth_equalityI)
  fix i assume "i < length (map cr_mode cs)"
  then have "i < 7" using assms(2) by simp
  then show "map cr_mode cs ! i = CYCLE_MODES ! i"
    using assms by (auto simp: cycles_ok_def cycle_wf_def expected_mode_def)
qed (use assms(2) in simp)

text \<open>Only the first cycle carries workloads, and they are the expected ones.\<close>

lemma cycles_ok_workloads:
  assumes "cycles_ok cs" and "length cs = 7"
  shows "map (\<lambda>w. (wl_category w, wl_ordinal w)) (cr_workloads (hd cs)) = expected_workloads"
    and "list_all workload_wf (cr_workloads (hd cs))"
    and "sum_list (map (\<lambda>r. length (cr_workloads r)) cs) = 21"
proof -
  obtain r rs where cs: "cs = r # rs" using assms(2) by (cases cs) auto
  have 0: "cycle_wf r" "cr_ordinal r = 1" using assms(1) cs by (force simp: cycles_ok_def)+
  then show w: "map (\<lambda>w. (wl_category w, wl_ordinal w)) (cr_workloads (hd cs)) = expected_workloads"
    and "list_all workload_wf (cr_workloads (hd cs))" by (simp_all add: cs cycle_wf_def)
  have "cr_workloads x = []" if "x \<in> set rs" for x
  proof -
    from that obtain i where "i < length rs" "rs ! i = x" by (auto simp: in_set_conv_nth)
    then have "cycle_wf x" "cr_ordinal x = int (Suc i) + 1" using assms(1) cs by (force simp: cycles_ok_def)+
    then show ?thesis by (simp add: cycle_wf_def split: if_splits)
  qed
  then have "sum_list (map (\<lambda>r. length (cr_workloads r)) rs) = 0" by simp
  moreover have "length (cr_workloads r) = 21"
    using arg_cong [OF w, of length] by (simp add: cs expected_workloads_def)
  ultimately show "sum_list (map (\<lambda>r. length (cr_workloads r)) cs) = 21" by (simp add: cs)
qed

lemma group_length:
  assumes "map (\<lambda>w. (wl_category w, wl_ordinal w)) (cr_workloads r) = expected_workloads"
    and "category \<in> {''git'', ''build'', ''install''}" and "list_all workload_wf (cr_workloads r)"
  shows "length (group r category) = 7" and "list_all (\<lambda>v. 0 < v) (group r category)"
proof -
  have "length (group r category) = length (filter (\<lambda>x. fst x = category) (map (\<lambda>w. (wl_category w, wl_ordinal w)) (cr_workloads r)))"
    by (simp add: group_def filter_map comp_def)
  also have "\<dots> = 7" using assms(2) unfolding assms(1) expected_workloads_def by auto
  finally show "length (group r category) = 7" .
  show "list_all (\<lambda>v. 0 < v) (group r category)"
    using assms(3) by (auto simp: group_def list_all_iff workload_wf_def)
qed

lemma verdict_total:
  assumes "cycles_ok (cu_cycles c)" and "length (cu_cycles c) = 7"
  shows "\<exists>ps. verdict_value c = Inr (JObj ps) \<and>
    map_of ps (ustr ''workload_count'') = Some (JInt 21) \<and>
    map_of ps (ustr ''production_publication_authorized'') = Some (JBool False) \<and>
    map_of ps (ustr ''provider_execution_observed'') = Some (JBool False) \<and>
    map_of ps (ustr ''custody_root'') = Some (JStr (cu_root c)) \<and>
    map_of ps (ustr ''aggregate_duration_ns'') = Some (JInt
      (sum_list (map (\<lambda>r. cr_effect_ended_offset_ns r - cr_effect_started_offset_ns r) (cu_cycles c))))"
proof -
  note w = cycles_ok_workloads [OF assms]
  have pos: "list_all (\<lambda>v. 0 < v) (map cr_apply_to_running_ns (cu_cycles c))"
    "list_all (\<lambda>v. 0 < v) (map cr_kata_launch_to_ssh_ready_ns (cu_cycles c))"
    using assms(1) by (auto simp: list_all_length cycles_ok_def cycle_wf_def)
  have s: "\<exists>j. summary xs = Inr j" if "length xs = 7" "list_all (\<lambda>v. 0 < v) xs" for xs
    using that by (simp add: summary_Inr)
  have g: "\<exists>j. summary (group (hd (cu_cycles c)) category) = Inr j" if "category \<in> {''git'', ''build'', ''install''}" for category
    using group_length [OF w(1) that w(2)] by (rule s)
  from s [OF _ pos(1)] s [OF _ pos(2)] g assms(2) obtain l k a b i where
    "summary (map cr_apply_to_running_ns (cu_cycles c)) = Inr l"
    "summary (map cr_kata_launch_to_ssh_ready_ns (cu_cycles c)) = Inr k"
    "summary (group (hd (cu_cycles c)) ''git'') = Inr a" "summary (group (hd (cu_cycles c)) ''build'') = Inr b"
    "summary (group (hd (cu_cycles c)) ''install'') = Inr i" by fastforce
  then show ?thesis using w(3) by (simp add: verdict_value_def)
qed

end
