(* ===== verification/EvidenceSafety.thy ===== *)
theory EvidenceSafety
  imports CampaignEvidence Samples
begin

text \<open>
  The theorems of the private evidence: the invariant of the vault, single use of receipts, what a
  sealed custody amounts to, and the arithmetic of costs and durations. A sample custody of seven
  cycles and eight zero observations shows that the hypotheses can hold.
\<close>

section \<open>A sample custody\<close>

definition sample_workloads :: "workload_sample list" where
  "sample_workloads = map (\<lambda>(category, i). \<lparr>wl_category = category, wl_ordinal = i, wl_duration_ns = 1000 + i,
     wl_output_commitment = hex_text 7, wl_deleted = True, wl_cycle_receipt_commitment = hex_text 100\<rparr>) expected_workloads"

definition sample_cycle :: "nat \<Rightarrow> cycle_receipt" where
  "sample_cycle i =
     \<lparr>cr_version = SYNTHETIC_RECEIPT_VERSION, cr_batch_commitment = hex_text 1,
      cr_previous_custody_sha256 = hex_text 2, cr_ordinal = int i + 1, cr_mode = CYCLE_MODES ! i,
      cr_expiry_at = ustr ''2030-01-01T00:00:00Z'', cr_deadline_binding_commitment = hex_text 3,
      cr_effect_started_offset_ns = int i * 1000, cr_effect_ended_offset_ns = int i * 1000 + 900,
      cr_apply_to_running_ns = 100, cr_kata_launch_to_ssh_ready_ns = 200,
      cr_receipt_commitment = hex_text (100 + i),
      cr_freshness_commitments = map (\<lambda>j. hex_text (1000 + 8 * i + j)) [0..<8],
      cr_workloads = (if i = 0 then sample_workloads else []), cr_teardown_phases = TEARDOWN_PHASES,
      cr_destroy_commitment = hex_text (200 + i), cr_costs_micro_usd = [1, 1, 1, 1]\<rparr>"

definition sample_zero :: "nat \<Rightarrow> zero_receipt" where
  "sample_zero i =
     \<lparr>zr_version = SYNTHETIC_ZERO_VERSION, zr_batch_commitment = hex_text 1,
      zr_previous_custody_sha256 = hex_text 2, zr_observation_sequence = int i + 1,
      zr_cycle_ordinal = (if i < 7 then Some (int i + 1) else None), zr_zero_commitment = hex_text (300 + i)\<rparr>"

definition sample_custody :: custody where
  "sample_custody =
     \<lparr>cu_batch = hex_text 1, cu_expiry = ustr ''2030-01-01T00:00:00Z'', cu_deadline = hex_text 3,
      cu_root = hex_text 4, cu_cycles = map sample_cycle [0..<7], cu_zeros = map sample_zero [0..<8], cu_sealed = False\<rparr>"

lemma hex_text_less: "n < 10000 \<Longrightarrow> m < 10000 \<Longrightarrow> hex_text n = hex_text m \<longleftrightarrow> n = m"
  by (simp add: hex_text_inj)

lemma sample_workloads_ok:
  "map (\<lambda>w. (wl_category w, wl_ordinal w)) sample_workloads = expected_workloads" "list_all workload_wf sample_workloads"
  by (simp_all add: sample_workloads_def expected_workloads_def workload_wf_def NORMAL_DEADLINE_NS_def)

lemma sample_cycle_wf: "i < 7 \<Longrightarrow> cycle_wf (sample_cycle i)"
proof -
  assume i: "i < 7"
  have "distinct (map (\<lambda>j. hex_text (1000 + 8 * i + j)) [0..<8])"
    unfolding distinct_map using i by (auto simp: inj_on_def hex_text_less)
  then show ?thesis
    using i sample_workloads_ok
    by (auto simp: cycle_wf_def sample_cycle_def expected_mode_def NORMAL_DEADLINE_NS_def)
qed

lemma sample_custody_wf: "custody_wf sample_custody"
proof -
  have "cycles_ok (map sample_cycle [0..<7])"
    using sample_cycle_wf unfolding cycles_ok_def
    by (auto simp: hd_map simp del: upt_rec_numeral) (simp_all add: sample_cycle_def)
  moreover have "distinct (map zr_zero_commitment (map sample_zero [0..<8]))"
    unfolding map_map distinct_map by (auto simp: inj_on_def sample_zero_def hex_text_less)
  then have "zeros_ok (map sample_zero [0..<8])"
    by (auto simp: zeros_ok_def zero_wf_def sample_zero_def simp del: upt_rec_numeral)
  ultimately show ?thesis by (simp add: custody_wf_def sample_custody_def)
qed

lemma sample_seal_check: "seal_check sample_custody = Inr ()"
proof -
  have "concat (map cr_freshness_commitments (map sample_cycle [0..<7])) = map hex_text (map ((+) 1000) [0..<56])"
    by (simp add: sample_cycle_def upt_rec)
  moreover have "distinct (map hex_text (map ((+) 1000) [0..<56]))"
    unfolding map_map distinct_map by (auto simp: inj_on_def hex_text_less)
  ultimately have 1: "distinct (concat (map cr_freshness_commitments (cu_cycles sample_custody)))"
    by (simp add: sample_custody_def)
  have card: "card (f ` set (map sample_cycle [0..<7])) = 7" if "\<And>i. i < 7 \<Longrightarrow> f (sample_cycle i) = hex_text (k + i)" "k < 1000" for f k
  proof -
    have "f ` set (map sample_cycle [0..<7]) = (\<lambda>i. hex_text (k + i)) ` {0..<7}" using that(1) by (auto simp: image_image)
    moreover have "inj_on (\<lambda>i. hex_text (k + i)) {0..<7}" using that(2) by (auto simp: inj_on_def hex_text_less)
    ultimately show ?thesis by (simp add: card_image)
  qed
  show ?thesis
    using 1 card [of cr_receipt_commitment 100] card [of cr_destroy_commitment 200]
    by (simp add: seal_check_def sample_custody_def sample_cycle_def ev_require_def require_def)
qed

section \<open>Properties\<close>

text \<open>C13. The vault stays well formed: issuing, accepting and sealing, whether they return or raise,
  preserve that issued and accepted receipts are well formed, that cycles and zero observations
  alternate in their fixed order, that effects do not overlap and that no zero observation is
  accepted twice.\<close>

theorem vault_invariant:
  "keeps registry_wf (issue_cycle i f) \<and> keeps registry_wf (issue_zero i p n k z) \<and>
   keeps vault_wf (accept_cycle H x) \<and> keeps vault_wf (accept_zero H y) \<and> keeps custody_wf seal_fake_verdict"
  by (simp add: issue_cycle_keeps issue_zero_keeps accept_cycle_keeps accept_zero_keeps seal_keeps)

text \<open>A receipt is accepted at most once: after the custody accepted a cycle or a zero receipt,
  offering the same receipt object again is refused and changes nothing.\<close>

theorem receipts_single_use:
  "(isl (fst (accept_cycle H (oid, r) v)) \<or>
    accept_cycle H (oid, r') (snd (accept_cycle H (oid, r) v)) =
      (Inl (SyntheticEvidenceError ''custody accepts only validated synthetic cycle receipt type''),
       snd (accept_cycle H (oid, r) v))) \<and>
   (isl (fst (accept_zero H (oid, z) v)) \<or>
    accept_zero H (oid, z') (snd (accept_zero H (oid, z) v)) =
      (Inl (SyntheticEvidenceError ''custody accepts only validated synthetic zero receipt type''),
       snd (accept_zero H (oid, z) v)))"
proof
  obtain res v' where a: "accept_cycle H (oid, r) v = (res, v')" by force
  show "isl (fst (accept_cycle H (oid, r) v)) \<or>
    accept_cycle H (oid, r') (snd (accept_cycle H (oid, r) v)) =
      (Inl (SyntheticEvidenceError ''custody accepts only validated synthetic cycle receipt type''),
       snd (accept_cycle H (oid, r) v))"
    using accept_cycle_effect [OF a] a
    by (elim disjE exE conjE)
      (simp_all add: accept_cycle_def check_cycle_def ebind_def eff_defs ev_require_def require_def)
next
  obtain res v' where a: "accept_zero H (oid, z) v = (res, v')" by force
  show "isl (fst (accept_zero H (oid, z) v)) \<or>
    accept_zero H (oid, z') (snd (accept_zero H (oid, z) v)) =
      (Inl (SyntheticEvidenceError ''custody accepts only validated synthetic zero receipt type''),
       snd (accept_zero H (oid, z) v))"
    using accept_zero_effect [OF a] a
    by (elim disjE exE conjE)
      (simp_all add: accept_zero_def check_zero_def ebind_def eff_defs ev_require_def require_def)
qed

text \<open>Sealing is total on complete custody: when a well-formed custody passes the seal's checks it
  is sealed, its cycles ran in the seven fixed modes, and the verdict exists with 21 workloads, the
  custody root, the summed duration, and no claim of production authority or provider execution.\<close>

theorem seal_verdict_content:
  assumes "custody_wf c" and "seal_check c = Inr ()"
  shows "map cr_mode (cu_cycles c) = CYCLE_MODES \<and> cu_sealed (snd (seal_fake_verdict c)) \<and>
    (\<exists>ps. verdict_value c = Inr (JObj ps) \<and>
      map_of ps (ustr ''workload_count'') = Some (JInt 21) \<and>
      map_of ps (ustr ''production_publication_authorized'') = Some (JBool False) \<and>
      map_of ps (ustr ''provider_execution_observed'') = Some (JBool False) \<and>
      map_of ps (ustr ''custody_root'') = Some (JStr (cu_root c)) \<and>
      map_of ps (ustr ''aggregate_duration_ns'') = Some (JInt
        (sum_list (map (\<lambda>r. cr_effect_ended_offset_ns r - cr_effect_started_offset_ns r) (cu_cycles c)))))"
proof -
  have len: "length (cu_cycles c) = 7" and ok: "cycles_ok (cu_cycles c)"
    using assms by (auto simp: seal_check_def custody_wf_def)
  have "cu_sealed (snd (seal_fake_verdict c))"
    using assms(2) by (auto simp: seal_fake_verdict_def ebind_def eff_defs split: sum.splits)
  then show ?thesis using cycles_ok_modes [OF ok len] verdict_total [OF ok len] by simp
qed

theorem seal_verdict_content_witness:
  "map cr_mode (cu_cycles sample_custody) = CYCLE_MODES \<and> cu_sealed (snd (seal_fake_verdict sample_custody))"
  using seal_verdict_content [OF sample_custody_wf sample_seal_check] by simp

text \<open>The aggregate duration stays within the deadline: the effects of an accepted custody are
  disjoint intervals, so their summed duration is below the deadline of ninety minutes.\<close>

theorem aggregate_within_deadline:
  assumes "custody_wf c" and "cu_cycles c \<noteq> []"
  shows "sum_list (map (\<lambda>r. cr_effect_ended_offset_ns r - cr_effect_started_offset_ns r) (cu_cycles c))
    < NORMAL_DEADLINE_NS"
proof -
  have ok: "cycles_ok (cu_cycles c)" using assms(1) by (simp add: custody_wf_def)
  then have "cycle_wf (last (cu_cycles c))" using assms(2) by (auto simp: cycles_ok_def last_conv_nth)
  then show ?thesis using cycle_duration_sum [OF ok assms(2)] by (simp add: cycle_wf_def)
qed

theorem aggregate_within_deadline_witness:
  "sum_list (map (\<lambda>r. cr_effect_ended_offset_ns r - cr_effect_started_offset_ns r) (cu_cycles sample_custody))
    < NORMAL_DEADLINE_NS"
  by (rule aggregate_within_deadline [OF sample_custody_wf]) (simp add: sample_custody_def)

text \<open>Costs are rounded up to the next micro-dollar and never further; a rate out of bounds is
  refused.\<close>

theorem ceil_cost_is_ceiling:
  "case ceil_cost d rate of
     Inl e \<Rightarrow> e = SyntheticEvidenceError ''integer rate bound'' \<and> (rate < 1 \<or> 1000000000 < rate)
   | Inr c \<Rightarrow> d * rate \<le> c * BILLING_HOUR_NS \<and> c * BILLING_HOUR_NS < d * rate + BILLING_HOUR_NS"
proof (cases "ceil_cost d rate")
  case (Inl e)
  then show ?thesis by (auto simp: ceil_cost_def ev_require_def require_def split: if_splits)
next
  case (Inr c)
  then show ?thesis using ceil_cost_bounds by auto
qed

text \<open>A latency summary is ordered and faithful: for seven positive samples it lists the samples as
  given, its minimum and maximum bound every sample, and the median lies between them; any other
  input is refused.\<close>

theorem summary_ordered:
  "case summary xs of
     Inl e \<Rightarrow> \<not> (length xs = 7 \<and> list_all (\<lambda>v. 0 < v) xs)
   | Inr j \<Rightarrow> \<exists>lo mid hi. j = JObj [(ustr ''samples_ns'', jints xs), (ustr ''min_ns'', JInt lo),
        (ustr ''p50_ns'', JInt mid), (ustr ''p95_ns'', JInt hi), (ustr ''max_ns'', JInt hi)] \<and>
        lo \<le> mid \<and> mid \<le> hi \<and> lo \<in> set xs \<and> mid \<in> set xs \<and> hi \<in> set xs \<and> list_all (\<lambda>v. lo \<le> v \<and> v \<le> hi) xs"
proof (cases "summary xs")
  case (Inl e)
  then show ?thesis by (auto simp: summary_def ev_require_def require_def Let_def split: if_splits)
next
  case (Inr j)
  then have len: "length (sort xs) = 7" by (simp add: summary_Inr)
  have mono: "sort xs ! i \<le> sort xs ! k" if "i \<le> k" "k < 7" for i k
    using that len by (intro sorted_nth_mono) simp_all
  have mem: "sort xs ! i \<in> set xs" if "i < 7" for i using nth_mem [of i "sort xs"] that len by simp
  have "sort xs ! 0 \<le> v \<and> v \<le> sort xs ! 6" if "v \<in> set xs" for v
  proof -
    have "v \<in> set (sort xs)" using that by simp
    then obtain i where "i < 7" "v = sort xs ! i" using len by (metis in_set_conv_nth)
    then show ?thesis using mono [of 0 i] mono [of i 6] by simp
  qed
  then have range: "list_all (\<lambda>v. sort xs ! 0 \<le> v \<and> v \<le> sort xs ! 6) xs" by (simp add: list_all_iff)
  have "j = JObj [(ustr ''samples_ns'', jints xs), (ustr ''min_ns'', JInt (sort xs ! 0)),
      (ustr ''p50_ns'', JInt (sort xs ! 3)), (ustr ''p95_ns'', JInt (sort xs ! 6)), (ustr ''max_ns'', JInt (sort xs ! 6))]"
    using Inr by (simp add: summary_Inr)
  with range show ?thesis
    using mono [of 0 3] mono [of 3 6] mem [of 0] mem [of 3] mem [of 6] unfolding Inr sum.case
    by (intro exI [of _ "sort xs ! 0"] exI [of _ "sort xs ! 3"] exI [of _ "sort xs ! 6"]) simp
qed

end
