(* ===== verification/CampaignController.thy ===== *)
theory CampaignController
  imports CampaignEvidence CampaignRuns
begin

text \<open>
  \<^verbatim>\<open>completion_campaign_controller.py\<close>: the one-shot controller over sealed in-memory ports, with
  injected faults. The ports are one record; every method of the sources is an effect on it, so that
  a raised exception leaves what was changed before it. The module's registry of remote receipts is
  part of the record. The two \<^verbatim>\<open>while\<close> loops take fuel; \<open>CONTROLLER_FUEL\<close> is more than the longest
  campaign, and the theorems show that it is never used up.
\<close>

section \<open>Approval and ports\<close>

definition FAKE_APPROVAL_VERSION :: pystr where
  "FAKE_APPROVAL_VERSION = ustr ''cogs.stage2-completion-fake-approval/v1''"
definition FAKE_PAYLOAD_VERSION :: pystr where
  "FAKE_PAYLOAD_VERSION = ustr ''cogs.stage2-completion-fake-payload/v1''"
definition APPROVAL_PHRASE :: pystr where
  "APPROVAL_PHRASE = ustr ''run-seven-sequential-stage2-completion-launches''"

record fake_approval =
  fa_version :: pystr
  fa_batch_commitment :: pystr
  fa_phrase :: pystr
  fa_not_before_wall_ns :: int
  fa_expires_wall_ns :: int
  fa_one_attempt :: bool
  fa_signatures_valid :: bool
  fa_source_clean :: bool
  fa_modes :: "pystr list"

definition approval_valid :: "digest_fun \<Rightarrow> pystr \<Rightarrow> fake_approval" where
  "approval_valid H batch_label =
     \<lparr>fa_version = FAKE_APPROVAL_VERSION, fa_batch_commitment = H (ustr ''fake:'' @ batch_label),
      fa_phrase = APPROVAL_PHRASE, fa_not_before_wall_ns = 1, fa_expires_wall_ns = 2 ^ 63,
      fa_one_attempt = True, fa_signatures_valid = True, fa_source_clean = True,
      fa_modes = map (\<lambda>m. ustr (mode_value m)) CYCLE_MODES\<rparr>"

record controller_result =
  res_status :: string
  res_terminal :: bool
  res_uncertainty :: uncertainty
  res_verdict :: "json option"

definition fault_exn :: "string \<Rightarrow> pystr \<Rightarrow> exn option" where
  "fault_exn kind point =
     (if kind = ''failure'' then Some (InjectedFailure point)
      else if kind = ''uncertain'' then Some (InjectedUncertainty point)
      else if kind = ''INT'' \<or> kind = ''TERM'' then Some (InjectedSignal point)
      else if kind = ''crash'' then Some (InjectedCrash point)
      else None)"

definition ACTIONS :: "string list" where
  "ACTIONS = [''plan'', ''apply'', ''running'', ''remote'', ''destroy'', ''inventory'', ''validate'']"

text \<open>A remote receipt object; the class of full receipts is the one with a workload count.\<close>

record remote_receipt =
  rr_batch_commitment :: pystr
  rr_ordinal :: int
  rr_mode :: cycle_mode
  rr_commitment :: pystr
  rr_workload_count :: "int option"

datatype port_receipt = DictReceipt json | RemoteReceipt nat remote_receipt

record ports =
  p_approval :: fake_approval
  p_faults :: "pystr \<Rightarrow> string option"
  p_receipt_replays :: "string \<times> int \<Rightarrow> int option"
  p_records :: records
  p_payloads :: "pystr \<Rightarrow> json option"
  p_consumed :: bool
  p_mono :: int
  p_wall :: int
  p_active :: bool
  p_maximum_active :: int
  p_calls :: "(pystr \<times> int option \<times> cycle_mode option) list"
  p_action_counts :: "string \<Rightarrow> int"
  p_accepted :: "string \<times> int \<Rightarrow> pystr option"
  p_pre_destroy :: "int \<Rightarrow> pystr option"
  p_private_issuer :: issuer
  p_vault :: vault
  p_custody_verdict :: "json option"
  p_remote_fresh :: nat
  p_remote_issued :: "nat \<Rightarrow> remote_receipt option"

definition FAKE_EXPIRY :: pystr where "FAKE_EXPIRY = ustr ''2030-01-01T00:00:00Z''"

definition ports_init ::
  "digest_fun \<Rightarrow> registry \<Rightarrow> nat \<Rightarrow> (nat \<Rightarrow> remote_receipt option) \<Rightarrow> fake_approval \<Rightarrow>
     (pystr \<Rightarrow> string option) \<Rightarrow> (string \<times> int \<Rightarrow> int option) \<Rightarrow> ports result" where
  "ports_init H registry fresh issued approval faults receipt_replays =
     (let deadline = H (ustr ''fake-deadline-binding-v1'') in
      rbind (issuer_init (fa_batch_commitment approval) FAKE_EXPIRY deadline [100, 200, 300, 400]) (\<lambda>iss.
      rbind (custody_init (fa_batch_commitment approval) FAKE_EXPIRY deadline) (\<lambda>cust.
      Inr \<lparr>p_approval = approval, p_faults = faults, p_receipt_replays = receipt_replays,
         p_records = [], p_payloads = (\<lambda>_. None), p_consumed = False, p_mono = 0, p_wall = 1000000,
         p_active = False, p_maximum_active = 0, p_calls = [], p_action_counts = (\<lambda>_. 0),
         p_accepted = (\<lambda>_. None), p_pre_destroy = (\<lambda>_. None), p_private_issuer = iss,
         p_vault = \<lparr>v_registry = registry, v_custody = cust\<rparr>, p_custody_verdict = None,
         p_remote_fresh = fresh, p_remote_issued = issued\<rparr>)))"

section \<open>Faults and formats\<close>

text \<open>\<^verbatim>\<open>f"{n:06d}"\<close> and \<^verbatim>\<open>f"{n:02}"\<close>.\<close>

definition zero_padded :: "nat \<Rightarrow> nat \<Rightarrow> pystr" where
  "zero_padded width n = replicate (width - length (decimal n)) 48 @ decimal n"

definition checkpoint :: "pystr \<Rightarrow> (ports, unit) eff" where
  "checkpoint point =
     ebind (gets (\<lambda>s. p_faults s point)) (\<lambda>kind.
     ebind (modify (\<lambda>s. s\<lparr>p_faults := (p_faults s)(point := None)\<rparr>)) (\<lambda>_.
       case kind of
         None \<Rightarrow> ret ()
       | Some k \<Rightarrow> (case fault_exn k point of
           None \<Rightarrow> raise (ControllerError ''unknown fake fault'')
         | Some e \<Rightarrow> raise e)))"

text \<open>A tuple subscript: negative indices count from the end.\<close>

definition py_index :: "'a list \<Rightarrow> int \<Rightarrow> 'a result" where
  "py_index xs i =
     (if 0 \<le> i \<and> i < int (length xs) then Inr (xs ! nat i)
      else if - int (length xs) \<le> i \<and> i < 0 then Inr (xs ! nat (int (length xs) + i))
      else Inl PyIndexError)"

section \<open>Publication\<close>

definition validate_approval :: "ports \<Rightarrow> unit result" where
  "validate_approval s =
     (let v = p_approval s in
      require (fa_version v = FAKE_APPROVAL_VERSION \<and> is_hex64 (fa_batch_commitment v) \<and>
         fa_batch_commitment v \<noteq> ZERO_SHA256 \<and> fa_phrase v = APPROVAL_PHRASE \<and>
         fa_not_before_wall_ns v \<le> p_wall s \<and> p_wall s < fa_expires_wall_ns v \<and>
         fa_one_attempt v \<and> fa_signatures_valid v \<and> fa_source_clean v \<and>
         fa_modes v = map (\<lambda>m. ustr (mode_value m)) CYCLE_MODES)
        (ApprovalDenied ''fake approval rejected without consumption'') (Inr ()))"

definition payload_json :: "int \<Rightarrow> event \<Rightarrow> int option \<Rightarrow> cycle_mode option \<Rightarrow> json \<Rightarrow> json" where
  "payload_json sequence e ordinal mode fct = JObj
     [(ustr ''version'', JStr FAKE_PAYLOAD_VERSION), (ustr ''sequence'', JInt sequence),
      (ustr ''event'', JStr (ustr (event_value e))), (ustr ''cycle_ordinal'', ordinal_json ordinal),
      (ustr ''cycle_mode'', mode_json mode), (ustr ''fact'', fct),
      (ustr ''production_publication_authorized'', JBool False)]"

definition prior_digest :: "digest_fun \<Rightarrow> records \<Rightarrow> pystr result" where
  "prior_digest H rs = (if rs = [] then Inr ZERO_SHA256 else record_sha256 H (last rs))"

definition publish ::
  "digest_fun \<Rightarrow> event \<Rightarrow> int option \<Rightarrow> cycle_mode option \<Rightarrow> outcome \<Rightarrow> json \<Rightarrow> (ports, unit) eff" where
  "publish H e ordinal mode out fct =
     ebind (gets (\<lambda>s. int (length (p_records s)) + 1)) (\<lambda>sequence.
     ebind (ret (payload_json sequence e ordinal mode fct)) (\<lambda>payload.
     ebind (lift (canonical_sha256 H payload)) (\<lambda>payload_digest.
     ebind (gets (\<lambda>s. p_payloads s payload_digest)) (\<lambda>seen.
     ebind (guard (seen = None) (CampaignStateError ''fake payload replay'')) (\<lambda>_.
     ebind (modify (\<lambda>s. s\<lparr>p_mono := p_mono s + 10\<rparr>)) (\<lambda>_.
     ebind (modify (\<lambda>s. s\<lparr>p_wall := p_wall s + 10\<rparr>)) (\<lambda>_.
     ebind (gets (\<lambda>s. reduce_campaign H (p_records s))) (\<lambda>reduced. ebind (lift reduced) (\<lambda>st.
     ebind (ret (if out \<in> {UNCERTAIN, NONZERO} \<or> e = DESTROY_SETTLED \<and> out = FAILED then STICKY
                 else state_uncertainty st)) (\<lambda>sticky.
     ebind (gets (\<lambda>s. rbind (prior_digest H (p_records s)) (\<lambda>prior.
        new_record (fa_batch_commitment (p_approval s)) sequence e prior payload_digest (p_mono s) (p_wall s)
          out sticky ordinal mode))) (\<lambda>made. ebind (lift made) (\<lambda>record.
     ebind (gets (\<lambda>s. append_record H (p_records s) record)) (\<lambda>appended. ebind (lift appended) (\<lambda>rs.
     ebind (modify (\<lambda>s. s\<lparr>p_records := rs\<rparr>)) (\<lambda>_.
     ebind (modify (\<lambda>s. s\<lparr>p_payloads := (p_payloads s)(payload_digest \<mapsto> payload)\<rparr>)) (\<lambda>_.
       modify (\<lambda>s. s\<lparr>p_calls := p_calls s @ [(ustr ''event:'' @ ustr (event_value e), ordinal, mode)]\<rparr>)))))))))))))))))"

definition admit :: "digest_fun \<Rightarrow> (ports, unit) eff" where
  "admit H =
     ebind (gets validate_approval) (\<lambda>ok. ebind (lift ok) (\<lambda>_.
     ebind (gets (\<lambda>s. \<not> (p_consumed s \<or> p_records s \<noteq> []))) (\<lambda>fresh.
     ebind (guard fresh (ApprovalDenied ''fake approval already consumed'')) (\<lambda>_.
     ebind (modify (\<lambda>s. s\<lparr>p_consumed := True\<rparr>)) (\<lambda>_.
     ebind (publish H BATCH_ADMITTED None None ACCEPTED (JObj [(ustr ''admitted'', JBool True)])) (\<lambda>_.
       modify (\<lambda>s. s\<lparr>p_calls := p_calls s @ [(ustr ''admit'', None, None)]\<rparr>)))))))"

section \<open>Actions\<close>

definition commit :: "digest_fun \<Rightarrow> pystr \<Rightarrow> string \<Rightarrow> json \<Rightarrow> pystr result" where
  "commit H batch domain doc = rbind (fromhex batch) (\<lambda>salt. commitment_sha256 H (ustr domain) doc salt)"

definition issue_remote :: "digest_fun \<Rightarrow> pystr \<Rightarrow> int \<Rightarrow> cycle_mode \<Rightarrow> int \<Rightarrow> (ports, port_receipt) eff" where
  "issue_remote H batch ordinal mode nonce =
     ebind (lift (commit H batch ''cogs.stage2-completion/synthetic-remote-owner/v1'' (JObj
       [(ustr ''batch_commitment'', JStr batch), (ustr ''ordinal'', JInt ordinal),
        (ustr ''mode'', JStr (ustr (mode_value mode))), (ustr ''nonce'', JInt nonce),
        (ustr ''production_publication_authorized'', JBool False),
        (ustr ''provider_execution_observed'', JBool False)]))) (\<lambda>commitment.
     ebind (ret \<lparr>rr_batch_commitment = batch, rr_ordinal = ordinal, rr_mode = mode, rr_commitment = commitment,
        rr_workload_count = (if mode = FULL then Some 21 else None)\<rparr>) (\<lambda>receipt.
     ebind (gets p_remote_fresh) (\<lambda>n.
     ebind (modify (\<lambda>s. s\<lparr>p_remote_fresh := Suc n, p_remote_issued := (p_remote_issued s)(n \<mapsto> receipt)\<rparr>)) (\<lambda>_.
       ret (RemoteReceipt n receipt)))))"

definition consume_remote :: "port_receipt \<Rightarrow> pystr \<Rightarrow> int \<Rightarrow> cycle_mode \<Rightarrow> (ports, pystr) eff" where
  "consume_remote receipt batch ordinal mode =
     (case receipt of
        DictReceipt _ \<Rightarrow> raise (InjectedFailure (ustr ''fake remote receipt binding rejected''))
      | RemoteReceipt n r \<Rightarrow>
          ebind (gets (\<lambda>s. (rr_workload_count r \<noteq> None) = (mode = FULL) \<and> p_remote_issued s n = Some r \<and>
             rr_batch_commitment r = batch \<and> rr_ordinal r = ordinal \<and> rr_mode r = mode)) (\<lambda>ok.
          ebind (guard ok (InjectedFailure (ustr ''fake remote receipt binding rejected''))) (\<lambda>_.
          ebind (modify (\<lambda>s. s\<lparr>p_remote_issued := (p_remote_issued s)(n := None)\<rparr>)) (\<lambda>_.
            ret (rr_commitment r)))))"

definition action_point :: "string \<Rightarrow> int option \<Rightarrow> pystr" where
  "action_point kind ordinal = ustr ''call:'' @ ustr kind @ [58] @
     (case ordinal of None \<Rightarrow> ustr ''final'' | Some n \<Rightarrow> zero_padded 2 (nat n))"

definition dict_receipt :: "digest_fun \<Rightarrow> ports \<Rightarrow> string \<Rightarrow> int \<Rightarrow> port_receipt result" where
  "dict_receipt H s kind source =
     rbind (if source = 0 then Inr JNull
            else rbind (py_index CYCLE_MODES (source - 1)) (\<lambda>m. Inr (JStr (ustr (mode_value m))))) (\<lambda>mode.
     Inr (DictReceipt (JObj
       [(ustr ''kind'', JStr (ustr kind)), (ustr ''batch_commitment'', JStr (fa_batch_commitment (p_approval s))),
        (ustr ''cycle_ordinal'', if source = 0 then JNull else JInt source), (ustr ''cycle_mode'', mode),
        (ustr ''identity'', JStr (H (ustr ''fake-receipt:'' @ ustr kind @ [58] @ print_int source @ [58] @
           print_int (p_action_counts s kind)))),
        (ustr ''certain'', JBool True)])))"

definition action :: "digest_fun \<Rightarrow> string \<Rightarrow> int option \<Rightarrow> cycle_mode option \<Rightarrow> (ports, port_receipt) eff" where
  "action H kind ordinal mode =
     ebind (lift (if kind \<notin> set ACTIONS then Inr False
        else case ordinal of None \<Rightarrow> Inr True
           | Some n \<Rightarrow> rbind (py_index CYCLE_MODES (n - 1)) (\<lambda>m. Inr (mode = Some m)))) (\<lambda>sealed.
     ebind (guard sealed (ControllerError ''unsealed fake action'')) (\<lambda>_.
     ebind (modify (\<lambda>s. s\<lparr>p_action_counts := (p_action_counts s)(kind := p_action_counts s kind + 1)\<rparr>)) (\<lambda>_.
     ebind (modify (\<lambda>s. s\<lparr>p_calls := p_calls s @ [(ustr kind, ordinal, mode)]\<rparr>)) (\<lambda>_.
     ebind (ret (action_point kind ordinal)) (\<lambda>point.
     ebind (gets (\<lambda>s. p_faults s point)) (\<lambda>fault.
     ebind (modify (\<lambda>s. s\<lparr>p_faults := (p_faults s)(point := None)\<rparr>)) (\<lambda>_.
     ebind (if kind = ''apply'' \<and> fault \<noteq> Some ''failure'' then
              ebind (gets (\<lambda>s. \<not> p_active s)) (\<lambda>idle.
              ebind (guard idle (ControllerError ''overlapping fake apply'')) (\<lambda>_.
              ebind (modify (\<lambda>s. s\<lparr>p_active := True\<rparr>)) (\<lambda>_.
                modify (\<lambda>s. s\<lparr>p_maximum_active := max (p_maximum_active s) 1\<rparr>))))
            else ret ()) (\<lambda>_.
     ebind (case fault of
              None \<Rightarrow> ret ()
            | Some k \<Rightarrow> (case fault_exn k point of
                None \<Rightarrow> raise (ControllerError ''unknown fake action fault'')
              | Some e \<Rightarrow> raise e)) (\<lambda>_.
     ebind (if kind = ''destroy'' then modify (\<lambda>s. s\<lparr>p_active := False\<rparr>) else ret ()) (\<lambda>_.
     ebind (gets (\<lambda>s. \<not> (kind = ''inventory'' \<and> p_active s))) (\<lambda>quiet.
     ebind (guard quiet (InjectedUncertainty (ustr ''fake inventory is nonzero''))) (\<lambda>_.
     ebind (ret (case ordinal of None \<Rightarrow> 0 | Some n \<Rightarrow> n)) (\<lambda>asked.
     ebind (gets (\<lambda>s. case p_receipt_replays s (kind, asked) of None \<Rightarrow> asked | Some n \<Rightarrow> n)) (\<lambda>source.
       if kind = ''remote'' then
         ebind (guard (1 \<le> source \<and> source \<le> 7) (ControllerError ''fake remote receipt source'')) (\<lambda>_.
         ebind (gets (\<lambda>s. (fa_batch_commitment (p_approval s), p_action_counts s kind))) (\<lambda>(batch, nonce).
           issue_remote H batch source (CYCLE_MODES ! nat (source - 1)) nonce))
       else ebind (gets (\<lambda>s. dict_receipt H s kind source)) lift))))))))))))))"

definition RECEIPT_KEYS :: "string list" where
  "RECEIPT_KEYS = [''kind'', ''batch_commitment'', ''cycle_ordinal'', ''cycle_mode'', ''identity'', ''certain'']"

definition verify_dict :: "pystr \<Rightarrow> port_receipt \<Rightarrow> string \<Rightarrow> int option \<Rightarrow> cycle_mode option \<Rightarrow> pystr option" where
  "verify_dict batch receipt kind ordinal mode =
     (case receipt of
        DictReceipt (JObj ps) \<Rightarrow>
          (case map_of ps (ustr ''identity'') of
             Some (JStr identity) \<Rightarrow>
               if set (map fst ps) = set (map ustr RECEIPT_KEYS) \<and>
                  map_of ps (ustr ''kind'') = Some (JStr (ustr kind)) \<and>
                  map_of ps (ustr ''batch_commitment'') = Some (JStr batch) \<and>
                  map_of ps (ustr ''cycle_ordinal'') = Some (ordinal_json ordinal) \<and>
                  map_of ps (ustr ''cycle_mode'') = Some (mode_json mode) \<and>
                  length identity = 64 \<and> map_of ps (ustr ''certain'') = Some (JBool True)
               then Some identity else None
           | _ \<Rightarrow> None)
      | _ \<Rightarrow> None)"

definition verify_receipt ::
  "port_receipt \<Rightarrow> string \<Rightarrow> int option \<Rightarrow> cycle_mode option \<Rightarrow> (ports, pystr) eff" where
  "verify_receipt receipt kind ordinal mode =
     ebind (gets (\<lambda>s. fa_batch_commitment (p_approval s))) (\<lambda>batch.
     if kind = ''remote'' then
       (case (ordinal, mode) of
          (Some n, Some m) \<Rightarrow> consume_remote receipt batch n m
        | _ \<Rightarrow> raise (InjectedFailure (ustr ''unbound fake remote receipt'')))
     else
       (case verify_dict batch receipt kind ordinal mode of
          Some identity \<Rightarrow> ret identity
        | None \<Rightarrow> raise (InjectedFailure (ustr ''fake receipt binding rejected''))))"

definition fake_verdict :: "(ports, json) eff" where
  "fake_verdict =
     ebind (gets p_custody_verdict) (\<lambda>v.
       case v of None \<Rightarrow> raise (ControllerError ''synthetic private custody is not sealed'')
       | Some verdict \<Rightarrow> ret verdict)"

section \<open>The controller\<close>

definition emit_point :: "nat \<Rightarrow> event \<Rightarrow> pystr" where
  "emit_point sequence e = zero_padded 6 sequence @ [58] @ ustr (event_value e)"

definition emit ::
  "digest_fun \<Rightarrow> event \<Rightarrow> int option \<Rightarrow> cycle_mode option \<Rightarrow> outcome \<Rightarrow> json \<Rightarrow> (ports, unit) eff" where
  "emit H e ordinal mode out fct =
     ebind (gets (\<lambda>s. emit_point (length (p_records s) + 1) e)) (\<lambda>point.
     ebind (checkpoint (ustr ''before:'' @ point)) (\<lambda>_.
     ebind (publish H e ordinal mode out fct) (\<lambda>_.
       checkpoint (ustr ''after:'' @ point))))"

text \<open>The receipt as a fact; a remote receipt enters a payload only as its commitment.\<close>

definition receipt_json :: "port_receipt \<Rightarrow> json" where
  "receipt_json r = (case r of DictReceipt j \<Rightarrow> j | RemoteReceipt _ _ \<Rightarrow> JNull)"

definition effect ::
  "digest_fun \<Rightarrow> event \<Rightarrow> event \<Rightarrow> string \<Rightarrow> int option \<Rightarrow> cycle_mode option \<Rightarrow> outcome \<Rightarrow> (ports, pystr) eff" where
  "effect H intent settled kind ordinal mode out =
     ebind (emit H intent ordinal mode INTENDED (JObj [(ustr ''action'', JStr (ustr kind))])) (\<lambda>_.
     ebind (action H kind ordinal mode) (\<lambda>receipt.
     ebind (verify_receipt receipt kind ordinal mode) (\<lambda>commitment.
     ebind (emit H settled ordinal mode out
        (if kind = ''remote'' then JObj [(ustr ''remote_receipt_commitment'', JStr commitment)]
         else JObj [(ustr ''receipt'', receipt_json receipt)])) (\<lambda>_.
     ebind (case ordinal of
              Some n \<Rightarrow> modify (\<lambda>s. s\<lparr>p_accepted := (p_accepted s)((kind, n) \<mapsto> commitment)\<rparr>)
            | None \<Rightarrow> if kind = ''inventory'' then modify (\<lambda>s. s\<lparr>p_accepted := (p_accepted s)((kind, 0) \<mapsto> commitment)\<rparr>)
                      else ret ()) (\<lambda>_.
       ret commitment)))))"

definition accepted :: "string \<Rightarrow> int \<Rightarrow> (ports, pystr) eff" where
  "accepted kind n = ebind (gets (\<lambda>s. p_accepted s (kind, n))) (\<lambda>v.
     case v of None \<Rightarrow> raise PyKeyError | Some c \<Rightarrow> ret c)"

definition pre_destroy_of :: "int \<Rightarrow> (ports, pystr) eff" where
  "pre_destroy_of n = ebind (gets (\<lambda>s. p_pre_destroy s n)) (\<lambda>v.
     case v of None \<Rightarrow> raise PyKeyError | Some c \<Rightarrow> ret c)"

definition batch_of :: "ports \<Rightarrow> pystr" where
  "batch_of s = fa_batch_commitment (p_approval s)"

abbreviation on_vault :: "(vault, 'a) eff \<Rightarrow> (ports, 'a) eff" where
  "on_vault m \<equiv> zoom p_vault (\<lambda>v s. s\<lparr>p_vault := v\<rparr>) m"

definition fake_workloads :: "digest_fun \<Rightarrow> cycle_mode \<Rightarrow> pystr \<Rightarrow> workload_sample list result" where
  "fake_workloads H mode receipt_commitment =
     (if mode = FULL then
        map_result (\<lambda>(category, sample). workload_init
          \<lparr>wl_category = category, wl_ordinal = sample, wl_duration_ns = 1000 + sample,
           wl_output_commitment = H (ustr ''fake-workload:'' @ ustr category @ [58] @ print_int sample),
           wl_deleted = True, wl_cycle_receipt_commitment = receipt_commitment\<rparr>) expected_workloads
      else Inr [])"

definition fake_freshness :: "digest_fun \<Rightarrow> int \<Rightarrow> pystr list" where
  "fake_freshness H ordinal =
     map (\<lambda>name. H (ustr ''fake-freshness:'' @ print_int ordinal @ [58] @ ustr name)) FRESHNESS_NAMES"

definition seal_private_cycle :: "digest_fun \<Rightarrow> int \<Rightarrow> cycle_mode \<Rightarrow> (ports, pystr) eff" where
  "seal_private_cycle H ordinal mode =
     ebind (accepted ''plan'' ordinal) (\<lambda>_. ebind (accepted ''apply'' ordinal) (\<lambda>_.
     ebind (accepted ''running'' ordinal) (\<lambda>_. ebind (accepted ''remote'' ordinal) (\<lambda>remote.
     ebind (accepted ''destroy'' ordinal) (\<lambda>destroy. ebind (accepted ''inventory'' ordinal) (\<lambda>inventory.
     ebind (pre_destroy_of ordinal) (\<lambda>pre_destroy.
     ebind (gets batch_of) (\<lambda>batch.
     ebind (lift (commit H batch ''cogs.stage2-completion/synthetic-cycle-owner/v1'' (JObj
       [(ustr ''ordinal'', JInt ordinal), (ustr ''mode'', JStr (ustr (mode_value mode))),
        (ustr ''remote'', JStr remote), (ustr ''pre_destroy'', JStr pre_destroy),
        (ustr ''destroy'', JStr destroy), (ustr ''zero'', JStr inventory)]))) (\<lambda>receipt_commitment.
     ebind (lift (fake_workloads H mode receipt_commitment)) (\<lambda>workloads.
     ebind (gets p_private_issuer) (\<lambda>iss.
     ebind (gets (\<lambda>s. cu_root (v_custody (p_vault s)))) (\<lambda>root.
     ebind (on_vault (on_registry (issue_cycle iss
       \<lparr>cf_previous_custody_sha256 = root, cf_ordinal = ordinal, cf_mode = mode,
        cf_effect_started_offset_ns = (ordinal - 1) * 1000,
        cf_effect_ended_offset_ns = (ordinal - 1) * 1000 + 900, cf_apply_to_running_ns = 100,
        cf_kata_launch_to_ssh_ready_ns = 200, cf_receipt_commitment = receipt_commitment,
        cf_freshness_commitments = fake_freshness H ordinal, cf_workloads = workloads,
        cf_teardown_phases = TEARDOWN_PHASES, cf_destroy_commitment = destroy,
        cf_costs_micro_usd = map (\<lambda>rate. (900 * rate + BILLING_HOUR_NS - 1) div BILLING_HOUR_NS) (is_rates iss),
        cf_expiry_at = None, cf_deadline_binding_commitment = None\<rparr>))) (\<lambda>cycle.
     ebind (on_vault (accept_cycle H cycle)) (\<lambda>_.
     ebind (gets (\<lambda>s. cu_root (v_custody (p_vault s)))) (\<lambda>root'.
     ebind (on_vault (on_registry (issue_zero iss root' ordinal (Some ordinal) inventory))) (\<lambda>zero.
     ebind (on_vault (accept_zero H zero)) (\<lambda>_.
       ret receipt_commitment)))))))))))))))))"

definition seal_terminal_custody :: "digest_fun \<Rightarrow> (ports, json) eff" where
  "seal_terminal_custody H =
     ebind (accepted ''inventory'' 0) (\<lambda>final_commitment.
     ebind (gets p_private_issuer) (\<lambda>iss.
     ebind (gets (\<lambda>s. cu_root (v_custody (p_vault s)))) (\<lambda>root.
     ebind (on_vault (on_registry (issue_zero iss root 8 None final_commitment))) (\<lambda>zero.
     ebind (on_vault (accept_zero H zero)) (\<lambda>_.
     ebind (on_vault (on_custody seal_fake_verdict)) (\<lambda>verdict.
     ebind (modify (\<lambda>s. s\<lparr>p_custody_verdict := Some verdict\<rparr>)) (\<lambda>_.
       ret verdict)))))))"

definition reduced :: "digest_fun \<Rightarrow> (ports, campaign_state) eff" where
  "reduced H = ebind (gets (\<lambda>s. reduce_campaign H (p_records s))) lift"

definition json_member :: "json \<Rightarrow> string \<Rightarrow> json result" where
  "json_member j key = (case j of JObj ps \<Rightarrow> member ps key | _ \<Rightarrow> Inl (PyTypeError ''not subscriptable''))"

definition ignore :: "('s, 'a) eff \<Rightarrow> ('s, unit) eff" where
  "ignore m = ebind m (\<lambda>_. ret ())"

text \<open>The branches of \<^verbatim>\<open>_step\<close> that seal.\<close>

definition step_running :: "digest_fun \<Rightarrow> int \<Rightarrow> cycle_mode \<Rightarrow> (ports, unit) eff" where
  "step_running H ordinal mode =
     ebind (action H ''running'' (Some ordinal) (Some mode)) (\<lambda>receipt.
     ebind (verify_receipt receipt ''running'' (Some ordinal) (Some mode)) (\<lambda>commitment.
     ebind (modify (\<lambda>s. s\<lparr>p_accepted := (p_accepted s)((''running'', ordinal) \<mapsto> commitment)\<rparr>)) (\<lambda>_.
       emit H RUNNING_OBSERVED (Some ordinal) (Some mode) OBSERVED (JObj [(ustr ''receipt'', receipt_json receipt)]))))"

definition step_pre_destroy :: "digest_fun \<Rightarrow> int \<Rightarrow> cycle_mode \<Rightarrow> (ports, unit) eff" where
  "step_pre_destroy H ordinal mode =
     ebind (accepted ''remote'' ordinal) (\<lambda>remote.
     ebind (accepted ''running'' ordinal) (\<lambda>running.
     ebind (gets batch_of) (\<lambda>batch.
     ebind (lift (commit H batch ''cogs.stage2-completion/synthetic-pre-destroy/v1'' (JObj
       [(ustr ''ordinal'', JInt ordinal), (ustr ''mode'', JStr (ustr (mode_value mode))),
        (ustr ''remote_receipt_commitment'', JStr remote), (ustr ''running_receipt_commitment'', JStr running)]))) (\<lambda>pre_destroy.
     ebind (modify (\<lambda>s. s\<lparr>p_pre_destroy := (p_pre_destroy s)(ordinal \<mapsto> pre_destroy)\<rparr>)) (\<lambda>_.
       emit H PRE_DESTROY_SEALED (Some ordinal) (Some mode) OUTCOME_SEALED (JObj
         [(ustr ''remote_receipt_commitment'', JStr remote),
          (ustr ''pre_destroy_receipt_commitment'', JStr pre_destroy)]))))))"

definition step_cycle_sealed :: "digest_fun \<Rightarrow> int \<Rightarrow> cycle_mode \<Rightarrow> (ports, unit) eff" where
  "step_cycle_sealed H ordinal mode =
     ebind (seal_private_cycle H ordinal mode) (\<lambda>commitment.
     ebind (accepted ''remote'' ordinal) (\<lambda>remote.
     ebind (pre_destroy_of ordinal) (\<lambda>pre_destroy.
       emit H CYCLE_SEALED (Some ordinal) (Some mode) OUTCOME_SEALED (JObj
         [(ustr ''remote_receipt_commitment'', JStr remote),
          (ustr ''pre_destroy_receipt_commitment'', JStr pre_destroy),
          (ustr ''private_cycle_receipt_commitment'', JStr commitment)]))))"

definition step_candidate :: "digest_fun \<Rightarrow> (ports, unit) eff" where
  "step_candidate H =
     ebind (seal_terminal_custody H) (\<lambda>verdict.
     ebind (lift (json_member verdict ''custody_root'')) (\<lambda>root.
     ebind (lift (json_member verdict ''version'')) (\<lambda>version.
       emit H TERMINAL_CANDIDATE_VALIDATED None None OUTCOME_SEALED (JObj
         [(ustr ''synthetic_custody_root'', root), (ustr ''synthetic_custody_version'', version)]))))"

text \<open>
  A branch that formats the ordinal or the mode of a cycle event: both are present there, and
  using an absent one would be an attribute error.
\<close>

definition with_cycle ::
  "int option \<Rightarrow> cycle_mode option \<Rightarrow> (int \<Rightarrow> cycle_mode \<Rightarrow> (ports, unit) eff) \<Rightarrow> (ports, unit) eff" where
  "with_cycle ordinal mode f =
     (case (ordinal, mode) of (Some n, Some m) \<Rightarrow> f n m | _ \<Rightarrow> raise (PyTypeError ''unbound cycle''))"

definition step :: "digest_fun \<Rightarrow> (ports, unit) eff" where
  "step H =
     ebind (reduced H) (\<lambda>st.
     let ordinal = next_cycle_ordinal st; mode = next_cycle_mode st in
     case next_event st of
       None \<Rightarrow> ret ()
     | Some e \<Rightarrow>
         if e = PLAN_INTENT then ignore (effect H e PLAN_ACCEPTED ''plan'' ordinal mode ACCEPTED)
         else if e = APPLY_INTENT then ignore (effect H e APPLY_ACCEPTED ''apply'' ordinal mode ACCEPTED)
         else if e = REMOTE_INTENT then ignore (effect H e REMOTE_ACCEPTED ''remote'' ordinal mode ACCEPTED)
         else if e = DESTROY_INTENT then ignore (effect H e DESTROY_SETTLED ''destroy'' ordinal mode ACCEPTED)
         else if e = ZERO_OBSERVATION_INTENT then ignore (effect H e ZERO_ACCEPTED ''inventory'' ordinal mode ZERO)
         else if e = FINAL_ZERO_OBSERVATION_INTENT then
           ignore (effect H e FINAL_ZERO_ACCEPTED ''inventory'' None None ZERO)
         else if e = RUNNING_OBSERVED then with_cycle ordinal mode (step_running H)
         else if e = PRE_DESTROY_SEALED then with_cycle ordinal mode (step_pre_destroy H)
         else if e = CYCLE_SEALED then with_cycle ordinal mode (step_cycle_sealed H)
         else if e = TERMINAL_CANDIDATE_VALIDATED then step_candidate H
         else emit H e ordinal mode (if e = CYCLE_OPENED then ACCEPTED else OUTCOME_SEALED)
           (JObj [(ustr ''internal'', JBool True)]))"

definition exn_name :: "exn \<Rightarrow> string" where
  "exn_name e =
     (case e of
        CampaignCodecError _ \<Rightarrow> ''CampaignCodecError''
      | CampaignPublicationUncertain _ \<Rightarrow> ''CampaignPublicationUncertain''
      | CampaignContractError _ \<Rightarrow> ''CampaignContractError''
      | CampaignStateError _ \<Rightarrow> ''CampaignStateError''
      | SyntheticEvidenceError _ \<Rightarrow> ''SyntheticEvidenceError''
      | ControllerError _ \<Rightarrow> ''ControllerError'' | ApprovalDenied _ \<Rightarrow> ''ApprovalDenied''
      | RecoveryDenied _ \<Rightarrow> ''RecoveryDenied'' | InjectedFailure _ \<Rightarrow> ''InjectedFailure''
      | InjectedUncertainty _ \<Rightarrow> ''InjectedUncertainty'' | InjectedSignal _ \<Rightarrow> ''InjectedSignal''
      | InjectedCrash _ \<Rightarrow> ''InjectedCrash'' | JSONDecodeError _ \<Rightarrow> ''JSONDecodeError''
      | PyValueError _ \<Rightarrow> ''ValueError'' | PyRecursionError \<Rightarrow> ''RecursionError''
      | PyKeyError \<Rightarrow> ''KeyError'' | PyIndexError \<Rightarrow> ''IndexError'' | PyTypeError _ \<Rightarrow> ''TypeError''
      | PyOverflowError \<Rightarrow> ''OverflowError'' | ElfParseError \<Rightarrow> ''ElfParseError'' | OSError _ \<Rightarrow> ''OSError''
      | ArchivePreflightError \<Rightarrow> ''ArchivePreflightError'' | RootfsModelError \<Rightarrow> ''RootfsModelError''
      | RootfsPlanError \<Rightarrow> ''RootfsPlanError'' | CanonicalError \<Rightarrow> ''CanonicalError''
      | FdMapError _ \<Rightarrow> ''FdMapError'' | PyUnicodeError \<Rightarrow> ''UnicodeError''
      | VerificationError _ \<Rightarrow> ''VerificationError'' | CoordinatorError _ \<Rightarrow> ''CoordinatorError''
      | NetworkError _ \<Rightarrow> ''NetworkError''
      | RuntimeClosureError missing \<Rightarrow> (if missing then ''_Missing'' else ''RuntimeClosureError'') | StructError \<Rightarrow> ''error'')"

fun is_uncertain :: "exn \<Rightarrow> bool" where
  "is_uncertain (InjectedUncertainty _) = True"
| "is_uncertain (InjectedSignal _) = True"
| "is_uncertain (InjectedCrash _) = True"
| "is_uncertain _ = False"

definition class_fact :: "exn \<Rightarrow> json" where
  "class_fact error = JObj [(ustr ''class'', JStr (ustr (exn_name error)))]"

definition count_event :: "event \<Rightarrow> records \<Rightarrow> nat" where
  "count_event e rs = length (filter (\<lambda>r. r_event r = e) rs)"

definition record_failure :: "digest_fun \<Rightarrow> exn \<Rightarrow> bool \<Rightarrow> (ports, unit) eff" where
  "record_failure H error force_uncertain =
     ebind (reduced H) (\<lambda>st.
     if failure_recorded st \<or> terminal st then ret ()
     else
       ebind (gets (\<lambda>s. count_event CYCLE_SEALED (p_records s) < count_event CYCLE_OPENED (p_records s))) (\<lambda>active.
         emit H FAILURE_RECORDED (if active then next_cycle_ordinal st else None)
           (if active then next_cycle_mode st else None)
           (if force_uncertain \<or> is_uncertain error then UNCERTAIN else FAILED) (class_fact error)))"

fun is_crash :: "exn \<Rightarrow> bool" where
  "is_crash (InjectedCrash _) = True"
| "is_crash _ = False"

text \<open>\<^verbatim>\<open>except InjectedCrash: raise\<close> followed by \<^verbatim>\<open>except BaseException as error\<close>.\<close>

definition rescue :: "('s, 'a) eff \<Rightarrow> (exn \<Rightarrow> ('s, 'a) eff) \<Rightarrow> ('s, 'a) eff" where
  "rescue m h = catch m (\<lambda>e. if is_crash e then raise e else h e)"

definition cleanup_effect ::
  "digest_fun \<Rightarrow> string \<Rightarrow> event \<Rightarrow> event \<Rightarrow> outcome \<Rightarrow> int option \<Rightarrow> cycle_mode option \<Rightarrow> (ports, unit) eff" where
  "cleanup_effect H kind intent settled out ordinal mode =
     ebind (emit H intent ordinal mode INTENDED (JObj [(ustr ''cleanup'', JBool True)])) (\<lambda>_.
     rescue
       (ebind (action H kind ordinal mode) (\<lambda>receipt.
        ebind (verify_receipt receipt kind ordinal mode) (\<lambda>_.
          emit H settled ordinal mode out (JObj [(ustr ''receipt'', receipt_json receipt)]))))
       (\<lambda>error. emit H settled ordinal mode UNCERTAIN (class_fact error)))"

definition cleanup_step_of :: "digest_fun \<Rightarrow> event \<Rightarrow> int option \<Rightarrow> cycle_mode option \<Rightarrow> (ports, unit) eff" where
  "cleanup_step_of H e ordinal mode =
     (if e = DESTROY_INTENT then cleanup_effect H ''destroy'' e DESTROY_SETTLED ACCEPTED ordinal mode
      else if e = DESTROY_SETTLED then
        emit H e ordinal mode UNCERTAIN (JObj [(ustr ''unreplayed_intent'', JBool True)])
      else if e \<in> {ZERO_OBSERVATION_INTENT, FINAL_ZERO_OBSERVATION_INTENT} then
        cleanup_effect H ''inventory'' e (if ordinal \<noteq> None then ZERO_ACCEPTED else FINAL_ZERO_ACCEPTED) ZERO ordinal mode
      else if e \<in> {ZERO_ACCEPTED, FINAL_ZERO_ACCEPTED} then
        emit H e ordinal mode UNCERTAIN (JObj [(ustr ''unreplayed_intent'', JBool True)])
      else emit H e ordinal mode OUTCOME_SEALED (JObj [(ustr ''cleanup_terminal'', JBool True)]))"

primrec cleanup :: "digest_fun \<Rightarrow> nat \<Rightarrow> (ports, controller_result) loop" where
  "cleanup H 0 = (\<lambda>s. None)"
| "cleanup H (Suc fuel) =
     lbind (once (reduced H)) (\<lambda>st.
     if terminal st then
       once (ret \<lparr>res_status = status st, res_terminal = True, res_uncertainty = state_uncertainty st,
                  res_verdict = None\<rparr>)
     else
       lbind (once (case next_event st of
                None \<Rightarrow> raise (PyTypeError ''no event'')
              | Some e \<Rightarrow> cleanup_step_of H e (next_cycle_ordinal st) (next_cycle_mode st))) (\<lambda>_.
         cleanup H fuel))"

primrec run_steps :: "digest_fun \<Rightarrow> nat \<Rightarrow> (ports, unit) loop" where
  "run_steps H 0 = (\<lambda>s. None)"
| "run_steps H (Suc fuel) =
     lbind (once (reduced H)) (\<lambda>st.
     if terminal st then once (ret ()) else lbind (once (step H)) (\<lambda>_. run_steps H fuel))"

definition CONTROLLER_FUEL :: nat where "CONTROLLER_FUEL = 106"

definition run_attempt :: "digest_fun \<Rightarrow> (ports, controller_result) loop" where
  "run_attempt H =
     lbind (once (checkpoint (ustr ''after:000001:BATCH_ADMITTED''))) (\<lambda>_.
     lbind (run_steps H CONTROLLER_FUEL) (\<lambda>_.
     lbind (once (reduced H)) (\<lambda>st.
     lbind (once fake_verdict) (\<lambda>verdict.
       once (ret \<lparr>res_status = status st, res_terminal = True, res_uncertainty = state_uncertainty st,
                  res_verdict = Some verdict\<rparr>)))))"

definition run :: "digest_fun \<Rightarrow> (ports, controller_result) loop" where
  "run H =
     lbind (once (gets (\<lambda>s. \<not> (p_records s \<noteq> [] \<or> p_consumed s)))) (\<lambda>fresh.
     lbind (once (guard fresh (ApprovalDenied ''normal invocation cannot resume''))) (\<lambda>_.
     lbind (once (admit H)) (\<lambda>_.
     lcatch (run_attempt H)
       (\<lambda>error. if is_crash error then once (raise error)
          else lbind (once (record_failure H error False)) (\<lambda>_. cleanup H CONTROLLER_FUEL)))))"

definition recover :: "digest_fun \<Rightarrow> (ports, controller_result) loop" where
  "recover H =
     lbind (once (gets (\<lambda>s. \<not> (\<not> p_consumed s \<or> p_records s = [])))) (\<lambda>consumed.
     lbind (once (guard consumed (RecoveryDenied ''nothing consumed''))) (\<lambda>_.
     lbind (once (reduced H)) (\<lambda>st.
     lbind (once (guard (\<not> terminal st) (RecoveryDenied ''terminal custody has no recovery transition''))) (\<lambda>_.
     lbind (once (if failure_recorded st then ret ()
            else record_failure H (InjectedCrash (ustr ''reopened consumed custody'')) True)) (\<lambda>_.
       cleanup H CONTROLLER_FUEL)))))"

end
