(* ===== verification/ControllerRuns.thy ===== *)
theory ControllerRuns
  imports CampaignController Samples
begin

text \<open>
  What every execution of the controller relates. \<open>controller_frame\<close> is the interface of a relation
  between the states before and after an effect: the fields it does not look at, and the two
  operations, publication and action, that have to be checked for it. Inside the locale each method
  of the controller is shown to stay within the relation; the interpretations instantiate it with the
  growth of the record log, with the counters that cleanup must not touch, and with consumption.
\<close>

section \<open>Relations the controller stays within\<close>

locale controller_frame = effect_order R for R :: "ports \<Rightarrow> ports \<Rightarrow> bool" +
  fixes H :: digest_fun and K :: "string set"
  assumes frame_faults: "R s (s\<lparr>p_faults := a\<rparr>)"
    and frame_accepted: "R s (s\<lparr>p_accepted := b\<rparr>)"
    and frame_pre_destroy: "R s (s\<lparr>p_pre_destroy := c\<rparr>)"
    and frame_vault: "R s (s\<lparr>p_vault := d\<rparr>)"
    and frame_verdict: "R s (s\<lparr>p_custody_verdict := f\<rparr>)"
    and frame_remote: "R s (s\<lparr>p_remote_issued := g\<rparr>)"
    and publish_R: "within R (publish H e n m out j)"
    and action_R: "kind \<in> K \<Longrightarrow> within R (action H kind n m)"
begin

lemma checkpoint_R: "within R (checkpoint point)"
  unfolding checkpoint_def by (intro within_intros frame_faults)

lemma emit_R: "within R (emit H e n m out j)"
  unfolding emit_def by (intro within_intros checkpoint_R publish_R)

lemma consume_R: "within R (consume_remote receipt batch n m)"
  unfolding consume_remote_def by (cases receipt) (auto intro!: within_intros frame_remote)

lemma verify_R: "within R (verify_receipt receipt kind n m)"
  unfolding verify_receipt_def
  by (intro within_intros) (auto intro!: within_intros consume_R split: option.splits)

lemma effect_R: "kind \<in> K \<Longrightarrow> within R (effect H intent settled kind n m out)"
  unfolding effect_def by (intro within_intros emit_R action_R verify_R frame_accepted)

lemma accepted_R: "within R (accepted kind n)"
  unfolding accepted_def by (intro within_intros)

lemma pre_destroy_of_R: "within R (pre_destroy_of n)"
  unfolding pre_destroy_of_def by (intro within_intros)

lemma reduced_R: "within R (reduced H)"
  unfolding reduced_def by (intro within_intros)

lemma seal_private_cycle_R: "within R (seal_private_cycle H n m)"
  unfolding seal_private_cycle_def
  by (intro within_intros accepted_R pre_destroy_of_R within_zoom frame_vault)

lemma seal_terminal_custody_R: "within R (seal_terminal_custody H)"
  unfolding seal_terminal_custody_def
  by (intro within_intros accepted_R within_zoom frame_vault frame_verdict)

lemma steps_R:
  "''running'' \<in> K \<Longrightarrow> within R (step_running H n m')" "within R (step_pre_destroy H n m')"
  "within R (step_cycle_sealed H n m')" "within R (step_candidate H)"
  unfolding step_running_def step_pre_destroy_def step_cycle_sealed_def step_candidate_def
  by (intro within_intros action_R verify_R frame_accepted frame_pre_destroy accepted_R pre_destroy_of_R
      seal_private_cycle_R seal_terminal_custody_R emit_R; assumption?)+

lemma with_cycle_R: "(\<And>n m. within R (f n m)) \<Longrightarrow> within R (with_cycle ordinal mode f)"
  unfolding with_cycle_def by (auto intro!: within_intros split: option.splits)

lemma ignore_R: "within R x \<Longrightarrow> within R (ignore x)"
  unfolding ignore_def by (intro within_intros)

lemma step_R: "set ACTIONS \<subseteq> K \<Longrightarrow> within R (step H)"
  unfolding step_def Let_def
  by (intro within_intros reduced_R ignore_R effect_R with_cycle_R steps_R emit_R) (auto simp: ACTIONS_def)

lemma record_failure_R: "within R (record_failure H error force)"
  unfolding record_failure_def by (intro within_intros reduced_R emit_R)

lemma rescue_R: "within R x \<Longrightarrow> (\<And>e. within R (h e)) \<Longrightarrow> within R (rescue x h)"
  unfolding rescue_def by (intro within_intros)

lemma cleanup_effect_R: "kind \<in> K \<Longrightarrow> within R (cleanup_effect H kind intent settled out n m)"
  unfolding cleanup_effect_def by (intro within_intros rescue_R emit_R action_R verify_R)

lemma cleanup_step_R: "{''destroy'', ''inventory''} \<subseteq> K \<Longrightarrow> within R (cleanup_step_of H e n m)"
  unfolding cleanup_step_of_def by (intro within_intros cleanup_effect_R emit_R) auto

lemma cleanup_R: "{''destroy'', ''inventory''} \<subseteq> K \<Longrightarrow> lwithin R (cleanup H fuel)"
proof (induction fuel)
  case 0
  then show ?case by (simp add: lwithin_def)
next
  case (Suc fuel)
  then show ?case unfolding cleanup.simps
    by (intro lwithin_intros within_intros reduced_R cleanup_step_R) auto
qed

lemma run_steps_R: "set ACTIONS \<subseteq> K \<Longrightarrow> lwithin R (run_steps H fuel)"
proof (induction fuel)
  case 0
  then show ?case by (simp add: lwithin_def)
next
  case (Suc fuel)
  then show ?case unfolding run_steps.simps by (intro lwithin_intros within_intros reduced_R step_R) auto
qed

lemma fake_verdict_R: "within R fake_verdict"
  unfolding fake_verdict_def by (intro within_intros)

lemma run_attempt_R: "set ACTIONS \<subseteq> K \<Longrightarrow> lwithin R (run_attempt H)"
  unfolding run_attempt_def by (intro lwithin_intros within_intros checkpoint_R run_steps_R reduced_R fake_verdict_R)

lemma recover_R: "{''destroy'', ''inventory''} \<subseteq> K \<Longrightarrow> lwithin R (recover H)"
  unfolding recover_def
  by (intro lwithin_intros within_intros reduced_R record_failure_R cleanup_R)

lemma run_R: "set ACTIONS \<subseteq> K \<Longrightarrow> within R (admit H) \<Longrightarrow> lwithin R (run H)"
  unfolding run_def
  by (intro lwithin_intros within_intros run_attempt_R record_failure_R cleanup_R) (auto simp: ACTIONS_def)

end

section \<open>The record log\<close>

definition recs_ok :: "digest_fun \<Rightarrow> ports \<Rightarrow> bool" where
  "recs_ok H s \<longleftrightarrow> (\<exists>st. reduce_campaign H (p_records s) = Inr st)"

definition log_grows :: "digest_fun \<Rightarrow> ports \<Rightarrow> ports \<Rightarrow> bool" where
  "log_grows H s t \<longleftrightarrow> (recs_ok H s \<longrightarrow> recs_ok H t) \<and> prefix (p_records s) (p_records t)"

lemma publish_records:
  assumes "publish H e n m out j s = (r, t)"
  shows "(\<exists>x. r = Inl x \<and> p_records t = p_records s) \<or>
    (\<exists>record. r = Inr () \<and> p_records t = p_records s @ [record] \<and> recs_ok H t \<and>
       row_of record = (e, n, m) \<and> r_outcome record = out)"
  using assms
  by (auto simp: publish_def ebind_def eff_defs recs_ok_def append_record_extends new_record_Inr row_of_def
      split: sum.splits if_splits)

lemma log_grows_order: "effect_order (log_grows H)"
  by unfold_locales (auto simp: log_grows_def)

lemma publish_log: "within (log_grows H) (publish H e n m out j)"
  unfolding within_def
proof
  fix s
  obtain r t where p: "publish H e n m out j s = (r, t)" by force
  from publish_records [OF p] show "log_grows H s (snd (publish H e n m out j s))"
    by (auto simp: p log_grows_def recs_ok_def)
qed

text \<open>
  An action reaches every field but the log, the payloads and the consumption; what a relation has
  to tolerate of it is listed here once.
\<close>

lemma action_within:
  assumes ord: "effect_order R"
    and "\<And>s c. R s (s\<lparr>p_action_counts := (p_action_counts s)(kind := c)\<rparr>)"
    and "\<And>s c. R s (s\<lparr>p_calls := c\<rparr>)" "\<And>s c. R s (s\<lparr>p_faults := c\<rparr>)" "\<And>s c. R s (s\<lparr>p_active := c\<rparr>)"
    and "\<And>s c. R s (s\<lparr>p_maximum_active := c\<rparr>)"
    and "\<And>s c d. R s (s\<lparr>p_remote_fresh := c, p_remote_issued := d\<rparr>)"
  shows "within R (action H kind n m)"
  unfolding action_def issue_remote_def
  by (intro effect_order.within_intros [OF ord] assms)
    (auto intro!: effect_order.within_intros [OF ord] assms split: prod.splits)

lemma action_log: "within (log_grows H) (action H kind n m)"
  by (rule action_within [OF log_grows_order]) (simp_all add: log_grows_def recs_ok_def)

interpretation logged: controller_frame "log_grows H" H UNIV for H
  by (unfold_locales, unfold log_grows_def recs_ok_def) 
    (auto intro: publish_log [unfolded log_grows_def recs_ok_def] action_log [unfolded log_grows_def recs_ok_def])

section \<open>Growth and termination\<close>

text \<open>
  \<open>grows H m\<close>: from an accepted log, whenever \<open>m\<close> returns it has appended at least one record.
\<close>

definition grows :: "digest_fun \<Rightarrow> (ports, 'a) eff \<Rightarrow> bool" where
  "grows H m \<longleftrightarrow> (\<forall>s x t. m s = (Inr x, t) \<longrightarrow> recs_ok H s \<longrightarrow>
     recs_ok H t \<and> length (p_records s) < length (p_records t))"

lemma log_growsD: "within (log_grows H) m \<Longrightarrow> m s = (r, t) \<Longrightarrow> recs_ok H s \<Longrightarrow>
    recs_ok H t \<and> length (p_records s) \<le> length (p_records t)"
  by (drule (1) withinD) (auto simp: log_grows_def dest: prefix_length_le)

lemma grows_first: "grows H m \<Longrightarrow> (\<And>x. within (log_grows H) (f x)) \<Longrightarrow> grows H (ebind m f)"
  unfolding grows_def by (auto simp: ebind_Inr) (meson log_growsD less_le_trans)+

lemma grows_second: "within (log_grows H) m \<Longrightarrow> (\<And>x. grows H (f x)) \<Longrightarrow> grows H (ebind m f)"
  unfolding grows_def by (auto simp: ebind_Inr) (meson log_growsD le_less_trans)+

lemma grows_if: "(c \<Longrightarrow> grows H m) \<Longrightarrow> (\<not> c \<Longrightarrow> grows H m') \<Longrightarrow> grows H (if c then m else m')"
  by simp

lemma grows_raise: "grows H (raise e)"
  by (simp add: grows_def)

lemma publish_grows: "grows H (publish H e n m out j)"
  unfolding grows_def by (auto dest!: publish_records)

lemma emit_grows: "grows H (emit H e n m out j)"
  unfolding emit_def
  by (intro grows_second grows_first publish_grows logged.checkpoint_R logged.within_intros)

lemma effect_grows: "grows H (ignore (effect H intent settled kind n m out))"
  unfolding effect_def ignore_def
  by (intro grows_first emit_grows)
    (intro logged.within_intros logged.emit_R logged.action_R logged.verify_R logged.frame_accepted UNIV_I)+

lemma steps_grow:
  "grows H (step_running H k m)" "grows H (step_pre_destroy H k m)" "grows H (step_cycle_sealed H k m)"
  "grows H (step_candidate H)"
  unfolding step_running_def step_pre_destroy_def step_cycle_sealed_def step_candidate_def
  by (intro grows_second emit_grows logged.within_intros logged.action_R logged.verify_R UNIV_I
      logged.frame_accepted logged.frame_pre_destroy logged.accepted_R logged.pre_destroy_of_R
      logged.seal_private_cycle_R logged.seal_terminal_custody_R)+

lemma with_cycle_grows: "(\<And>n m. grows H (f n m)) \<Longrightarrow> grows H (with_cycle ordinal mode f)"
  unfolding with_cycle_def by (auto intro!: grows_raise split: option.splits)

lemma cleanup_step_grows: "grows H (cleanup_step_of H e n m)"
  unfolding cleanup_step_of_def cleanup_effect_def
  by (intro grows_if grows_first emit_grows logged.rescue_R)
    (intro logged.within_intros logged.emit_R logged.action_R logged.verify_R UNIV_I)+

lemma step_progress:
  assumes "reduce_campaign H (p_records s) = Inr st" and "\<not> terminal st" and "step H s = (Inr x, t)"
  shows "recs_ok H t \<and> length (p_records s) < length (p_records t)"
proof -
  obtain e where e: "next_event st = Some e" using accepted_next [OF assms(1,2)] by blast
  let ?body = "\<lambda>st. let ordinal = next_cycle_ordinal st; mode = next_cycle_mode st in
     case next_event st of
       None \<Rightarrow> ret ()
     | Some e \<Rightarrow>
         if e = PLAN_INTENT then ignore (effect H e PLAN_ACCEPTED ''plan'' ordinal mode ACCEPTED)
         else if e = APPLY_INTENT then ignore (effect H e APPLY_ACCEPTED ''apply'' ordinal mode ACCEPTED)
         else if e = REMOTE_INTENT then ignore (effect H e REMOTE_ACCEPTED ''remote'' ordinal mode ACCEPTED)
         else if e = DESTROY_INTENT then ignore (effect H e DESTROY_SETTLED ''destroy'' ordinal mode ACCEPTED)
         else if e = ZERO_OBSERVATION_INTENT then ignore (effect H e ZERO_ACCEPTED ''inventory'' ordinal mode ZERO)
         else if e = FINAL_ZERO_OBSERVATION_INTENT then
           ignore (effect H e FINAL_ZERO_ACCEPTED ''inventory'' None None ZERO)
         else if e = RUNNING_OBSERVED then with_cycle ordinal mode (step_running H)
         else if e = PRE_DESTROY_SEALED then with_cycle ordinal mode (step_pre_destroy H)
         else if e = CYCLE_SEALED then with_cycle ordinal mode (step_cycle_sealed H)
         else if e = TERMINAL_CANDIDATE_VALIDATED then step_candidate H
         else emit H e ordinal mode (if e = CYCLE_OPENED then ACCEPTED else OUTCOME_SEALED)
           (JObj [(ustr ''internal'', JBool True)])"
  have "grows H (?body st)"
    unfolding e Let_def option.case
    by (intro grows_if effect_grows with_cycle_grows steps_grow emit_grows)
  moreover have "?body st s = (Inr x, t)"
    using assms(1,3) by (simp add: step_def reduced_def ebind_def gets_def lift_def)
  ultimately show ?thesis using assms(1) unfolding grows_def recs_ok_def by blast
qed

lemma reduced_cases:
  "reduced H s = (r, t) \<longleftrightarrow> t = s \<and> reduce_campaign H (p_records s) = r"
  by (auto simp: reduced_def ebind_def eff_defs split: sum.splits)

lemma once_reduced: "once (reduced H) s = Some (reduce_campaign H (p_records s), s)"
  by (simp add: reduced_cases)

lemma run_steps_returns: "104 < fuel + length (p_records s) \<Longrightarrow> 0 < fuel \<Longrightarrow> returns (run_steps H fuel) s"
proof (induction fuel arbitrary: s)
  case (Suc fuel)
  have "returns (run_steps H fuel) t"
    if st: "reduce_campaign H (p_records s) = Inr st" "\<not> terminal st" and t: "step H s = (Inr x, t)" for st x t
  proof -
    have "recs_ok H t" "length (p_records s) < length (p_records t)" using step_progress [OF st t] by blast+
    moreover from this(1) have "length (p_records t) \<le> 104" by (auto simp: recs_ok_def dest: accepted_length)
    ultimately show ?thesis using Suc.IH [of t] Suc.prems by auto
  qed
  then show ?case
    unfolding run_steps.simps by (intro returns_intros) (auto simp: reduced_cases)
qed simp

lemma cleanup_returns: "104 < fuel + length (p_records s) \<Longrightarrow> 0 < fuel \<Longrightarrow> returns (cleanup H fuel) s"
proof (induction fuel arbitrary: s)
  case (Suc fuel)
  have "returns (cleanup H fuel) t"
    if st: "reduce_campaign H (p_records s) = Inr st" and t: "cleanup_step_of H e n m s = (Inr x, t)" for st e n m x t
  proof -
    have "recs_ok H t" "length (p_records s) < length (p_records t)"
      using cleanup_step_grows [of H e n m] st t unfolding grows_def recs_ok_def by blast+
    moreover from this(1) have "length (p_records t) \<le> 104" by (auto simp: recs_ok_def dest: accepted_length)
    ultimately show ?thesis using Suc.IH [of t] Suc.prems by auto
  qed
  then show ?case
    unfolding cleanup.simps by (intro returns_intros) (auto simp: reduced_cases split: option.splits)
qed simp

lemma fuel_enough: "104 < CONTROLLER_FUEL + n" "0 < CONTROLLER_FUEL"
  by (simp_all add: CONTROLLER_FUEL_def)

lemma run_total: "returns (run H) s"
  unfolding run_def run_attempt_def
  by (intro returns_intros run_steps_returns cleanup_returns fuel_enough)

lemma recover_total: "returns (recover H) s"
  unfolding recover_def by (intro returns_intros cleanup_returns fuel_enough)

section \<open>Results\<close>

lemma cleanup_result:
  "cleanup H fuel s = Some (Inr res, t) \<Longrightarrow>
     \<exists>st. reduce_campaign H (p_records t) = Inr st \<and> terminal st \<and> res_status res = status st \<and>
       res_terminal res \<and> res_uncertainty res = state_uncertainty st \<and> res_verdict res = None"
proof (induction fuel arbitrary: s)
  case (Suc fuel)
  then show ?case
    by (auto simp: lbind_Some once_reduced reduced_cases split: if_splits)
qed simp

lemma run_steps_result:
  "run_steps H fuel s = Some (Inr x, t) \<Longrightarrow> \<exists>st. reduce_campaign H (p_records t) = Inr st \<and> terminal st"
proof (induction fuel arbitrary: s)
  case (Suc fuel)
  then show ?case
    by (auto simp: lbind_Some once_reduced reduced_cases split: if_splits)
qed simp

lemma run_result:
  assumes "run H s = Some (Inr res, t)"
  shows "\<exists>st. reduce_campaign H (p_records t) = Inr st \<and> terminal st \<and> res_status res = status st \<and>
    res_terminal res \<and> res_uncertainty res = state_uncertainty st"
proof -
  have r: "\<exists>st. reduce_campaign H (p_records t) = Inr st \<and> terminal st \<and> res_status res = status st \<and>
      res_terminal res \<and> res_uncertainty res = state_uncertainty st"
    if att: "run_attempt H u = Some (Inr res, t)" for u
  proof -
    from att obtain v st verdict where v: "run_steps H CONTROLLER_FUEL v = Some (Inr (), t)"
      and st: "reduce_campaign H (p_records t) = Inr st"
      and res: "res = \<lparr>res_status = status st, res_terminal = True, res_uncertainty = state_uncertainty st,
        res_verdict = Some verdict\<rparr>"
      by (auto simp: run_attempt_def lbind_Some reduced_cases fake_verdict_def ebind_Inr split: option.splits)
    with run_steps_result [OF v] show ?thesis by simp
  qed
  from assms consider u where "run_attempt H u = Some (Inr res, t)"
    | u where "cleanup H CONTROLLER_FUEL u = Some (Inr res, t)"
    by (auto simp: run_def lbind_Some lcatch_Some split: if_splits)
  then show ?thesis by cases (auto dest: r cleanup_result)
qed

lemma recover_result:
  "recover H s = Some (Inr res, t) \<Longrightarrow>
     \<exists>st. reduce_campaign H (p_records t) = Inr st \<and> terminal st \<and> res_status res = status st \<and>
       res_terminal res \<and> res_uncertainty res = state_uncertainty st \<and> res_verdict res = None"
  by (auto simp: recover_def lbind_Some dest!: cleanup_result)

section \<open>Counters and consumption\<close>

definition only_cleanup :: "ports \<Rightarrow> ports \<Rightarrow> bool" where
  "only_cleanup s t \<longleftrightarrow>
     (\<forall>kind. kind \<noteq> ''destroy'' \<and> kind \<noteq> ''inventory'' \<longrightarrow> p_action_counts t kind = p_action_counts s kind)"

lemma only_cleanup_order: "effect_order only_cleanup"
  by unfold_locales (auto simp: only_cleanup_def)

lemma publish_only_cleanup: "within only_cleanup (publish H e n m out j)"
  unfolding publish_def
  by (intro effect_order.within_intros [OF only_cleanup_order]) (simp_all add: only_cleanup_def)

interpretation cleaning: controller_frame only_cleanup H "{''destroy'', ''inventory''}" for H
proof unfold_locales
  fix kind n m assume "kind \<in> {''destroy'', ''inventory''}"
  then show "within only_cleanup (action H kind n m)"
    by (intro action_within [OF only_cleanup_order]) (auto simp: only_cleanup_def)
qed (auto simp: only_cleanup_def intro: publish_only_cleanup)

definition stays_consumed :: "ports \<Rightarrow> ports \<Rightarrow> bool" where
  "stays_consumed s t \<longleftrightarrow> (p_consumed s \<longrightarrow> p_consumed t)"

lemma stays_consumed_order: "effect_order stays_consumed"
  by unfold_locales (auto simp: stays_consumed_def)

lemma publish_stays_consumed: "within stays_consumed (publish H e n m out j)"
  unfolding publish_def
  by (intro effect_order.within_intros [OF stays_consumed_order]) (simp_all add: stays_consumed_def)

interpretation consumption: controller_frame stays_consumed H UNIV for H
proof unfold_locales
  fix kind n m
  show "within stays_consumed (action H kind n m)"
    by (rule action_within [OF stays_consumed_order]) (simp_all add: stays_consumed_def)
qed (auto simp: stays_consumed_def intro: publish_stays_consumed)

lemma admit_consumes: "admit H s = (Inr x, t) \<Longrightarrow> p_consumed t"
proof -
  assume "admit H s = (Inr x, t)"
  then obtain u where "publish H BATCH_ADMITTED None None ACCEPTED (JObj [(ustr ''admitted'', JBool True)])
      (s\<lparr>p_consumed := True\<rparr>) = (Inr (), u)" "p_consumed t = p_consumed u"
    by (auto simp: admit_def ebind_Inr)
  with withinD [OF publish_stays_consumed this(1)] show ?thesis by (simp add: stays_consumed_def)
qed

lemma admit_refused: "admit H s = (Inl e, t) \<Longrightarrow> p_consumed t \<or> t = s"
  by (auto simp: admit_def ebind_Inl ebind_Inr stays_consumed_def
      dest: withinD [OF publish_stays_consumed])

lemma run_consumes:
  assumes "run H s = Some (r, t)"
  shows "p_consumed t \<or> t = s"
proof -
  have attempt: "lwithin stays_consumed (lcatch (run_attempt H)
       (\<lambda>error. if is_crash error then once (raise error)
          else lbind (once (record_failure H error False)) (\<lambda>_. cleanup H CONTROLLER_FUEL)))"
    by (intro consumption.lwithin_intros consumption.within_intros consumption.run_attempt_R
        consumption.record_failure_R consumption.cleanup_R) simp_all
  from assms show ?thesis
    by (auto simp: run_def lbind_Some dest!: admit_refused)
      (blast dest: admit_consumes lwithinD [OF attempt, unfolded stays_consumed_def])
qed

lemma run_attempt_consumed:
  assumes "run H s = Some (Inr res, t)"
  shows "p_consumed t"
proof -
  have after: "lwithin stays_consumed (lcatch (run_attempt H)
       (\<lambda>error. if is_crash error then once (raise error)
          else lbind (once (record_failure H error False)) (\<lambda>_. cleanup H CONTROLLER_FUEL)))"
    by (intro consumption.lwithin_intros consumption.within_intros consumption.run_attempt_R
        consumption.record_failure_R consumption.cleanup_R) simp_all
  from assms show ?thesis
    by (auto simp: run_def lbind_Some)
      (blast dest: admit_consumes lwithinD [OF after, unfolded stays_consumed_def])
qed

section \<open>No event twice\<close>

lemma plan_ahead:
  "list_all (\<lambda>h. distinct (map step_row (plan_at h)) \<and>
     list_all (\<lambda>x. x \<in> set (drop h HAPPY_PATH)) (map step_row (plan_at h))) [1..<103]"
  by code_simp

lemma distinct_HAPPY_PATH: "distinct HAPPY_PATH"
  by code_simp

lemma happy_not_terminal: "(failure_terminal u, n, m) \<notin> set HAPPY_PATH"
proof -
  have "list_all (\<lambda>x. fst x \<noteq> TERMINAL_UNCERTAIN_SEALED \<and> fst x \<noteq> TERMINAL_FAILURE_SEALED) HAPPY_PATH" by code_simp
  then show ?thesis by (auto simp: list_all_iff failure_terminal_def)
qed

lemma failing_rows_distinct:
  assumes "0 < h" and "h < 103"
  shows "distinct (take h HAPPY_PATH @ fail_row h # map step_row (plan_at h) @ [(failure_terminal u, None, None)])"
proof -
  have "h \<in> set [1..<103]" using assms by simp
  note plan = plan_ahead [unfolded list_all_iff, rule_format, OF this]
  have sub: "set (map step_row (plan_at h)) \<subseteq> set (drop h HAPPY_PATH)" using plan by blast
  have disj: "set (take h HAPPY_PATH) \<inter> set (drop h HAPPY_PATH) = {}"
    using distinct_HAPPY_PATH by (metis append_take_drop_id distinct_append)
  have fail: "fail_row h \<notin> set HAPPY_PATH"
    using happy_failure_row by (fastforce simp: fail_row_def in_set_conv_nth)
  have last_row: "(failure_terminal u, None, None) \<notin> set HAPPY_PATH" by (rule happy_not_terminal)
  have "fail_row h \<noteq> (failure_terminal u, None, None)" by (simp add: fail_row_def failure_terminal_def)
  then show ?thesis
    using plan sub disj fail last_row distinct_HAPPY_PATH set_take_subset [of h HAPPY_PATH] set_drop_subset [of h HAPPY_PATH]
    by auto
qed

lemma accepted_rows_distinct:
  assumes "reduce_campaign H rs = Inr st"
  shows "distinct (map row_of rs)"
proof -
  from assms obtain p where p: "prun (Normal 0) rs p" by (auto simp: reduce_campaign_runs)
  show ?thesis
  proof (cases p)
    case (Normal h)
    then show ?thesis using prun_shape [OF p] distinct_HAPPY_PATH by simp
  next
    case (Cleanup todo u)
    with prun_shape [OF p] obtain h taken where h: "0 < h" "h < 103" "plan_at h = taken @ todo"
      "map row_of rs = take h HAPPY_PATH @ fail_row h # map step_row taken" by auto
    then show ?thesis using failing_rows_distinct [OF h(1,2), of u] by auto
  next
    case (Done u)
    with prun_shape [OF p] failing_rows_distinct show ?thesis by auto
  qed
qed

text \<open>The event and the cycle name a record already: the mode follows from the cycle.\<close>

definition key_of_row :: "row \<Rightarrow> event \<times> int option" where
  "key_of_row = (\<lambda>(e, n, m). (e, n))"

lemma happy_keys: "distinct (map key_of_row HAPPY_PATH)"
  by code_simp

lemma accepted_row_cases:
  assumes "reduce_campaign H rs = Inr st"
  shows "\<exists>h u. set (map row_of rs) \<subseteq> set HAPPY_PATH \<union> {fail_row h, (failure_terminal u, None, None)}"
proof -
  have plan: "set (map step_row (plan_at h)) \<subseteq> set HAPPY_PATH" if "0 < h" "h < 103" for h
  proof -
    have "h \<in> set [1..<103]" using that by simp
    from plan_ahead [unfolded list_all_iff, rule_format, OF this] show ?thesis using set_drop_subset [of h HAPPY_PATH] by blast
  qed
  from assms obtain p where p: "prun (Normal 0) rs p" by (auto simp: reduce_campaign_runs)
  show ?thesis
  proof (cases p)
    case (Normal h)
    then show ?thesis using prun_shape [OF p] set_take_subset [of h HAPPY_PATH] by auto
  next
    case (Cleanup todo u)
    with prun_shape [OF p] obtain h taken where h: "0 < h" "h < 103" "plan_at h = taken @ todo"
      "map row_of rs = take h HAPPY_PATH @ fail_row h # map step_row taken" by auto
    then show ?thesis using plan [OF h(1,2)] set_take_subset [of h HAPPY_PATH] by (intro exI [of _ h]) auto
  next
    case (Done u)
    with prun_shape [OF p] obtain h where h: "0 < h" "h < 103"
      "map row_of rs = take h HAPPY_PATH @ fail_row h # map step_row (plan_at h) @ [(failure_terminal u, None, None)]" by auto
    then show ?thesis using plan [OF h(1,2)] set_take_subset [of h HAPPY_PATH] by (intro exI [of _ h] exI [of _ u]) auto
  qed
qed

lemma happy_events: "list_all (\<lambda>x. fst x \<notin> {FAILURE_RECORDED, TERMINAL_UNCERTAIN_SEALED, TERMINAL_FAILURE_SEALED}) HAPPY_PATH"
  by code_simp

lemma accepted_keys_distinct:
  assumes "reduce_campaign H rs = Inr st"
  shows "distinct (map (key_of_row \<circ> row_of) rs)"
proof -
  obtain h u where rows: "set (map row_of rs) \<subseteq> set HAPPY_PATH \<union> {fail_row h, (failure_terminal u, None, None)}"
    using accepted_row_cases [OF assms] by blast
  have "inj_on key_of_row (set HAPPY_PATH)" using happy_keys by (simp add: distinct_map)
  moreover have "fst x \<notin> {FAILURE_RECORDED, TERMINAL_UNCERTAIN_SEALED, TERMINAL_FAILURE_SEALED}" if "x \<in> set HAPPY_PATH" for x
    using happy_events that by (simp add: list_all_iff)
  ultimately have "inj_on key_of_row (set HAPPY_PATH \<union> {fail_row h, (failure_terminal u, None, None)})"
    by (force simp: inj_on_def key_of_row_def fail_row_def failure_terminal_def split: prod.splits if_splits)
  from inj_on_subset [OF this rows] show ?thesis
    using accepted_rows_distinct [OF assms] distinct_map [of key_of_row "map row_of rs"] by simp
qed

text \<open>What is in the log is refused: publishing it raises and leaves the log as it is.\<close>

lemma publish_refused:
  assumes "(e, n) \<in> set (map (key_of_row \<circ> row_of) (p_records s))"
  shows "isl (fst (publish H e n m out j s)) \<and> p_records (snd (publish H e n m out j s)) = p_records s"
proof -
  obtain r t where p: "publish H e n m out j s = (r, t)" by force
  have "\<not> recs_ok H t" if "p_records t = p_records s @ [entry]" "row_of entry = (e, n, m)" for entry
    using that assms by (auto simp: recs_ok_def key_of_row_def dest!: accepted_keys_distinct)
  with publish_records [OF p] show ?thesis by (auto simp: p)
qed

lemma admit_log: "within (log_grows H) (admit H)"
  unfolding admit_def
  by (intro logged.within_intros publish_log) (simp_all add: log_grows_def recs_ok_def)

end
