(* ===== verification/ControllerSafety.thy ===== *)
theory ControllerSafety
  imports ControllerRuns
begin

text \<open>
  The theorems of the controller, for every schedule of injected faults and every digest function:
  both entry points return, what they return is the terminal state of the log they leave, the log
  only grows and stays accepted, an approval is good for one attempt, recovery performs no action
  but cleanup, and no event is recorded twice.
\<close>

text \<open>C12. Both entry points return: whatever faults are injected, \<open>run\<close> and \<open>recover\<close> come back with
  a result or an exception; the fuel of the two loops is never used up.\<close>

theorem controller_terminates: "returns (run H) s \<and> returns (recover H) s"
  by (simp add: run_total recover_total)

text \<open>C11. What \<open>run\<close> does: it returns the terminal state of the accepted log it leaves behind, or it
  raises, and in both cases it has consumed the approval unless it changed nothing at all.\<close>

theorem run_outcome:
  "case run H s of
     None \<Rightarrow> False
   | Some (Inl e, t) \<Rightarrow> p_consumed t \<or> t = s
   | Some (Inr res, t) \<Rightarrow> p_consumed t \<and>
       (\<exists>st. reduce_campaign H (p_records t) = Inr st \<and> terminal st \<and> res_status res = status st \<and>
         res_terminal res \<and> res_uncertainty res = state_uncertainty st)"
proof -
  obtain r t where rt: "run H s = Some (r, t)" using run_total [of H s] unfolding returns_def by blast
  note c = run_consumes [OF rt]
  show ?thesis
  proof (cases r)
    case (Inl e)
    then show ?thesis using rt c by simp
  next
    case (Inr res)
    with rt have r: "run H s = Some (Inr res, t)" by simp
    have "p_consumed t"
      using r run_attempt_consumed [of H s res t] by blast
    then show ?thesis using r run_result [OF r] by simp
  qed
qed

text \<open>What \<open>recover\<close> returns is a terminal state of the log it leaves behind, never with a verdict:
  recovery cannot produce success evidence.\<close>

theorem recover_outcome:
  "case recover H s of
     None \<Rightarrow> False
   | Some (Inl e, t) \<Rightarrow> True
   | Some (Inr res, t) \<Rightarrow> res_verdict res = None \<and>
       (\<exists>st. reduce_campaign H (p_records t) = Inr st \<and> terminal st \<and> res_status res = status st)"
proof -
  obtain r t where rt: "recover H s = Some (r, t)" using recover_total [of H s] unfolding returns_def by blast
  then show ?thesis by (cases r) (auto dest!: recover_result)
qed

text \<open>The log is append only and stays accepted: every execution of \<open>run\<close> or \<open>recover\<close>, returned
  or raised, extends the records it started from, and an accepted log is left accepted.\<close>

theorem log_append_only: "lwithin (log_grows H) (run H) \<and> lwithin (log_grows H) (recover H)"
  by (simp add: logged.run_R logged.recover_R admit_log)

text \<open>C10. Recovery is cleanup only: it performs no plan, apply, running, remote or validate action, at
  whatever point the campaign was interrupted and whatever faults are injected.\<close>

theorem recovery_is_cleanup_only: "lwithin only_cleanup (recover H)"
  by (simp add: cleaning.recover_R)

text \<open>One approval, one attempt: after any execution of \<open>run\<close> that changed anything, a second
  one is denied and changes nothing.\<close>

theorem one_attempt:
  "case run H s of
     None \<Rightarrow> False
   | Some (r, t) \<Rightarrow> t = s \<or> run H t = Some (Inl (ApprovalDenied ''normal invocation cannot resume''), t)"
proof -
  obtain r t where rt: "run H s = Some (r, t)" using run_total [of H s] unfolding returns_def by blast
  have "run H t = Some (Inl (ApprovalDenied ''normal invocation cannot resume''), t)" if "p_consumed t"
    using that by (simp add: run_def lbind_def once_def eff_defs)
  then show ?thesis using rt run_consumes [OF rt] by auto
qed

text \<open>No event is recorded twice: in an accepted campaign the event, the cycle and the mode of any
  two records differ, so no effect is ever retried.\<close>

theorem no_event_twice:
  assumes "reduce_campaign H rs = Inr st"
  shows "distinct (map row_of rs)"
  using assms by (rule accepted_rows_distinct)

theorem no_event_twice_witness: "distinct (map row_of (laid sealed_entries))"
  by (rule no_event_twice [OF sealed_reduces])

section \<open>Published once\<close>

text \<open>The operations of the ports and of the controller that may come between two publications.\<close>

datatype controller_call =
    CPublish event "int option" "cycle_mode option" outcome json
  | CCheckpoint pystr
  | CAction string "int option" "cycle_mode option"
  | CVerify port_receipt string "int option" "cycle_mode option"
  | CEmit event "int option" "cycle_mode option" outcome json
  | CEffect event event string "int option" "cycle_mode option" outcome
  | CStep
  | CFailure exn bool
  | CCleanupEffect string event event outcome "int option" "cycle_mode option"
  | CAdmit
  | CRun
  | CRecover

definition left_by :: "(ports, 'a) loop \<Rightarrow> ports \<Rightarrow> ports" where
  "left_by m s = (case m s of None \<Rightarrow> s | Some (r, t) \<Rightarrow> t)"

fun after_call :: "digest_fun \<Rightarrow> controller_call \<Rightarrow> ports \<Rightarrow> ports" where
  "after_call H (CPublish e n m out j) s = snd (publish H e n m out j s)"
| "after_call H (CCheckpoint point) s = snd (checkpoint point s)"
| "after_call H (CAction kind n m) s = snd (action H kind n m s)"
| "after_call H (CVerify receipt kind n m) s = snd (verify_receipt receipt kind n m s)"
| "after_call H (CEmit e n m out j) s = snd (emit H e n m out j s)"
| "after_call H (CEffect intent settled kind n m out) s = snd (effect H intent settled kind n m out s)"
| "after_call H CStep s = snd (step H s)"
| "after_call H (CFailure error force) s = snd (record_failure H error force s)"
| "after_call H (CCleanupEffect kind intent settled out n m) s = snd (cleanup_effect H kind intent settled out n m s)"
| "after_call H CAdmit s = snd (admit H s)"
| "after_call H CRun s = left_by (run H) s"
| "after_call H CRecover s = left_by (recover H) s"

definition after_calls :: "digest_fun \<Rightarrow> controller_call list \<Rightarrow> ports \<Rightarrow> ports" where
  "after_calls H calls s = fold (after_call H) calls s"

lemma within_left: "within R m \<Longrightarrow> R s (snd (m s))"
  by (simp add: within_def)

lemma lwithin_left: "lwithin R m \<Longrightarrow> R s s \<Longrightarrow> R s (left_by m s)"
  by (auto simp: left_by_def lwithin_def split: option.splits)

lemmas log_left = within_left [OF logged.publish_R] within_left [OF logged.checkpoint_R] within_left [OF logged.action_R]
  within_left [OF logged.verify_R] within_left [OF logged.emit_R] within_left [OF logged.effect_R] within_left [OF logged.step_R]
  within_left [OF logged.record_failure_R] within_left [OF logged.cleanup_effect_R] within_left [OF admit_log]
  lwithin_left [OF logged.run_R] lwithin_left [OF logged.recover_R]

lemma call_log: "log_grows H s (after_call H call s)"
  by (cases call) (simp_all add: log_left logged.R_refl admit_log)

lemma calls_log: "prefix (p_records s) (p_records (after_calls H calls s))"
proof (induction calls arbitrary: s)
  case (Cons call calls)
  have "prefix (p_records s) (p_records (after_call H call s))" using call_log by (simp add: log_grows_def)
  then show ?case using Cons.IH [of "after_call H call s"] by (auto simp: after_calls_def intro: prefix_order.order_trans)
qed (simp add: after_calls_def)

text \<open>C14. An event of a cycle is published once. After a successful publication and any further calls of the ports and
  the controller, whole runs and recoveries, faults and their handlers included, the record is still in the log, and
  publishing the same event of the same cycle again raises and leaves the log as it is, whatever mode, outcome and fact
  it is given. A publication that raises has not touched the log either.\<close>

theorem settled_published_once:
  "case publish H e n m out j s of
     (Inl error, t) \<Rightarrow> p_records t = p_records s
   | (Inr _, t) \<Rightarrow>
       (let u = after_calls H calls t in
        (\<exists>record\<in>set (p_records u). row_of record = (e, n, m) \<and> r_outcome record = out) \<and>
        isl (fst (publish H e n m' out' j' u)) \<and> p_records (snd (publish H e n m' out' j' u)) = p_records u)"
proof -
  obtain r t where p: "publish H e n m out j s = (r, t)" by force
  show ?thesis
  proof (cases r)
    case (Inr x)
    let ?u = "after_calls H calls t"
    obtain entry where "entry \<in> set (p_records t)" "row_of entry = (e, n, m)" "r_outcome entry = out"
      using publish_records [OF p] Inr by (auto intro: that)
    then have entry: "entry \<in> set (p_records ?u)" "row_of entry = (e, n, m)" "r_outcome entry = out"
      using set_mono_prefix [OF calls_log [of t H calls]] by auto
    then have "(e, n) \<in> set (map (key_of_row \<circ> row_of) (p_records ?u))" by (force simp: key_of_row_def)
    from publish_refused [OF this] entry show ?thesis by (auto simp: p Inr Let_def)
  qed (use publish_records [OF p] in \<open>auto simp: p\<close>)
qed

end
