(* ===== verification/PyBytes.thy ===== *)
theory PyBytes
  imports Json
begin

text \<open>
  What the image pipeline uses of Python's \<^verbatim>\<open>bytes\<close> and \<^verbatim>\<open>str\<close>: slices, searches, splitting,
  stripping, and integers written in a base. The laws below say how they act on a concatenation,
  which is how the written and the parsed form of a header meet, and that a number written in a
  base reads back.
\<close>

section \<open>Slices and searches\<close>

text \<open>\<open>slice a b xs\<close> is \<^verbatim>\<open>xs[a:b]\<close> for indices that are not negative; \<open>py_slice\<close> is the general
  case with Python's reading of negative indices.\<close>

definition slice :: "nat \<Rightarrow> nat \<Rightarrow> 'a list \<Rightarrow> 'a list" where
  "slice a b xs = take (b - a) (drop a xs)"

definition clip :: "int \<Rightarrow> nat \<Rightarrow> nat" where
  "clip i n = (if i < 0 then nat (i + int n) else min (nat i) n)"

definition py_slice :: "int \<Rightarrow> int \<Rightarrow> 'a list \<Rightarrow> 'a list" where
  "py_slice i j xs = slice (clip i (length xs)) (clip j (length xs)) xs"

definition starts_with :: "'a list \<Rightarrow> 'a list \<Rightarrow> bool" where
  "starts_with p xs \<longleftrightarrow> take (length p) xs = p"

definition ends_with :: "'a list \<Rightarrow> 'a list \<Rightarrow> bool" where
  "ends_with p xs \<longleftrightarrow> length p \<le> length xs \<and> drop (length xs - length p) xs = p"

fun find_first :: "('a \<Rightarrow> bool) \<Rightarrow> 'a list \<Rightarrow> nat option" where
  "find_first P [] = None"
| "find_first P (x # xs) = (if P x then Some 0 else map_option Suc (find_first P xs))"

text \<open>\<^verbatim>\<open>xs.strip(c)\<close> and \<^verbatim>\<open>xs.rstrip(c)\<close> for one character.\<close>

definition rstrip :: "'a \<Rightarrow> 'a list \<Rightarrow> 'a list" where
  "rstrip c xs = rev (dropWhile (\<lambda>x. x = c) (rev xs))"

definition strip :: "'a \<Rightarrow> 'a list \<Rightarrow> 'a list" where
  "strip c xs = rstrip c (dropWhile (\<lambda>x. x = c) xs)"

section \<open>Splitting and joining\<close>

text \<open>\<^verbatim>\<open>xs.split(c)\<close>, \<^verbatim>\<open>xs.split(c, 1)\<close> for a text that contains \<open>c\<close>, and \<^verbatim>\<open>c.join(parts)\<close>.\<close>

fun split_on :: "'a \<Rightarrow> 'a list \<Rightarrow> 'a list list" where
  "split_on c [] = [[]]"
| "split_on c (x # xs) =
     (if x = c then [] # split_on c xs
      else (case split_on c xs of [] \<Rightarrow> [[x]] | p # ps \<Rightarrow> (x # p) # ps))"

definition split_once :: "'a \<Rightarrow> 'a list \<Rightarrow> 'a list \<times> 'a list" where
  "split_once c xs = (takeWhile (\<lambda>x. x \<noteq> c) xs, tl (dropWhile (\<lambda>x. x \<noteq> c) xs))"

fun join_on :: "'a \<Rightarrow> 'a list list \<Rightarrow> 'a list" where
  "join_on c [] = []"
| "join_on c [p] = p"
| "join_on c (p # q # ps) = p @ c # join_on c (q # ps)"

text \<open>
  \<^verbatim>\<open>str.splitlines\<close> and \<^verbatim>\<open>bytes.splitlines\<close>: lines end at a boundary character, carriage return
  and line feed together are one boundary, and there is no empty line behind the last boundary.
\<close>

fun split_lines :: "('a \<Rightarrow> bool) \<Rightarrow> 'a \<Rightarrow> 'a \<Rightarrow> 'a list \<Rightarrow> 'a list list" where
  "split_lines B cr lf [] = []"
| "split_lines B cr lf (x # xs) =
     (if B x then [] # split_lines B cr lf (if x = cr \<and> xs \<noteq> [] \<and> hd xs = lf then tl xs else xs)
      else (case split_lines B cr lf xs of [] \<Rightarrow> [[x]] | p # ps \<Rightarrow> (x # p) # ps))"

definition str_splitlines :: "pystr \<Rightarrow> pystr list" where
  "str_splitlines = split_lines (\<lambda>c. c \<in> set [10, 11, 12, 13, 28, 29, 30, 133, 8232, 8233]) 13 10"

definition bytes_splitlines :: "bytes \<Rightarrow> bytes list" where
  "bytes_splitlines = split_lines (\<lambda>c. c = 10 \<or> c = 13) 13 10"

section \<open>Numbers in a base\<close>

text \<open>\<^verbatim>\<open>int(core, base)\<close> on digits of the base, and \<^verbatim>\<open>format(value, "o")\<close>.\<close>

definition base_value :: "nat \<Rightarrow> bytes \<Rightarrow> nat" where
  "base_value base ds = foldl (\<lambda>a d. a * base + (d - 48)) 0 ds"

fun octal_digits :: "nat \<Rightarrow> bytes" where
  "octal_digits n = (if n < 8 then [48 + n] else octal_digits (n div 8) @ [48 + n mod 8])"

declare octal_digits.simps [simp del]

definition is_octal :: "nat \<Rightarrow> bool" where
  "is_octal c \<longleftrightarrow> 48 \<le> c \<and> c \<le> 55"

text \<open>\<^verbatim>\<open>value.rjust(width, b"0")\<close>.\<close>

definition rjust :: "nat \<Rightarrow> 'a \<Rightarrow> 'a list \<Rightarrow> 'a list" where
  "rjust width c xs = replicate (width - length xs) c @ xs"

section \<open>Laws\<close>

lemma slice_append_left [simp]: "length xs \<le> a \<Longrightarrow> slice a b (xs @ ys) = slice (a - length xs) (b - length xs) ys"
  by (simp add: slice_def)

lemma slice_whole [simp]: "slice 0 (length xs) xs = xs"
  by (simp add: slice_def)

lemma slice_prefix [simp]: "b \<le> length xs \<Longrightarrow> slice a b (xs @ ys) = slice a b xs"
  by (cases "a \<le> b") (simp_all add: slice_def)

lemma slice_exact: "length xs = n \<Longrightarrow> slice 0 n (xs @ ys) = xs"
  by (simp add: slice_def)

lemma length_slice [simp]: "length (slice a b xs) = min (b - a) (length xs - a)"
  by (simp add: slice_def)

lemma slice_nat: "0 \<le> i \<Longrightarrow> 0 \<le> n \<Longrightarrow> i + n \<le> int (length xs) \<Longrightarrow> py_slice i (i + n) xs = slice (nat i) (nat i + nat n) xs"
  by (auto simp: py_slice_def clip_def nat_add_distrib min_def)

lemma find_first_None: "find_first P xs = None \<longleftrightarrow> (\<forall>x\<in>set xs. \<not> P x)"
  by (induction xs) auto

lemma find_first_Some:
  "find_first P xs = Some i \<Longrightarrow> i < length xs \<and> P (xs ! i) \<and> (\<forall>x\<in>set (take i xs). \<not> P x)"
  by (induction xs arbitrary: i) (auto split: if_splits)

lemma find_first_append:
  "find_first P (xs @ ys) =
     (case find_first P xs of Some i \<Rightarrow> Some i
      | None \<Rightarrow> (case find_first P ys of Some i \<Rightarrow> Some (length xs + i) | None \<Rightarrow> None))"
  by (induction xs) (auto split: option.splits)

lemma find_first_replicate: "find_first P (replicate n x) = (if 0 < n \<and> P x then Some 0 else None)"
  by (induction n) auto

lemma strip_replicate [simp]: "strip c (replicate n c) = []"
  by (simp add: strip_def rstrip_def)

lemma rstrip_Nil: "rstrip c xs = [] \<longleftrightarrow> list_all (\<lambda>x. x = c) xs"
  by (induction xs) (simp_all add: rstrip_def dropWhile_append list_all_iff dropWhile_eq_Nil_conv)

lemma strip_Nil: "strip c xs = [] \<longleftrightarrow> list_all (\<lambda>x. x = c) xs"
  by (induction xs) (simp_all add: strip_def rstrip_Nil)

lemma split_on_nonempty [simp]: "split_on c xs \<noteq> []"
  by (induction xs) (auto split: list.splits)

lemma split_on_parts: "p \<in> set (split_on c xs) \<Longrightarrow> c \<notin> set p"
  by (induction xs arbitrary: p) (fastforce split: if_splits list.splits)+

lemma join_split [simp]: "join_on c (split_on c xs) = xs"
proof (induction xs)
  case (Cons x xs)
  then show ?case by (cases "split_on c xs"; cases "tl (split_on c xs)") auto
qed simp

lemma split_join: "ps \<noteq> [] \<Longrightarrow> (\<And>p. p \<in> set ps \<Longrightarrow> c \<notin> set p) \<Longrightarrow> split_on c (join_on c ps) = ps"
proof (induction c ps rule: join_on.induct)
  case (2 c p)
  then have "c \<notin> set p" by simp
  then show ?case by (induction p) auto
next
  case (3 c p q ps)
  then have "c \<notin> set p" and "split_on c (join_on c (q # ps)) = q # ps" by auto
  then show ?case by (induction p) auto
qed simp

lemma base_value_append: "base_value b (xs @ [d]) = base_value b xs * b + (d - 48)"
  by (simp add: base_value_def)

lemma base_value_zeros [simp]: "base_value b (replicate n 48 @ xs) = base_value b xs"
  by (induction n) (simp_all add: base_value_def)

lemma base_value_octal [simp]: "base_value 8 (octal_digits n) = n"
proof (induction n rule: octal_digits.induct)
  case (1 n)
  then show ?case
    by (subst octal_digits.simps) (auto simp: base_value_append, simp add: base_value_def)
qed

lemma octal_digits_ok: "list_all is_octal (octal_digits n)"
proof (induction n rule: octal_digits.induct)
  case (1 n)
  then show ?case
    by (subst octal_digits.simps, cases "n < 8")
      (auto simp: list_all_append is_octal_def [of "48 + n"] is_octal_def [of "48 + n mod 8"])
qed

lemma octal_digits_nonempty [simp]: "octal_digits n \<noteq> []"
  by (subst octal_digits.simps) simp

lemma base_value_ge: "foldl (\<lambda>a d. a * b + (d - 48)) acc ds \<ge> (acc::nat)" if "0 < b" for b :: nat
proof (induction ds arbitrary: acc)
  case (Cons d ds)
  have "acc \<le> acc * b + (d - 48)" using that by (cases b) auto
  then show ?case using Cons [of "acc * b + (d - 48)"] by simp
qed simp

lemma base_value_pos: "0 < b \<Longrightarrow> ds \<noteq> [] \<Longrightarrow> 48 < hd ds \<Longrightarrow> 0 < base_value b ds"
  using base_value_ge [of b "hd ds - 48" "tl ds"] by (cases ds) (auto simp: base_value_def)

end
