(* ===== verification/CampaignStore.thy ===== *)
theory CampaignStore
  imports CampaignCodec Effects PyBytes
begin

text \<open>
  The file custody of the campaign codec (\<^verbatim>\<open>completion_campaign_codec.py\<close>, second half): reading one
  immutable record and publishing one, relative to a held directory.

  The directory is a state that other processes may change: the record \<open>os_env\<close> says, for the \<open>n\<close>-th
  system call, what the world does to the directory before it, whether the call fails with
  \<^verbatim>\<open>OSError\<close>, and how many bytes a read or write takes. The calls of the code that change the
  directory are logged. \<^verbatim>\<open>renameat2\<close> with \<^verbatim>\<open>RENAME_NOREPLACE\<close> and \<^verbatim>\<open>open\<close> with \<^verbatim>\<open>O_CREAT | O_EXCL\<close>
  fail when their target exists, as the kernel documents; the platform is Linux.
\<close>

section \<open>The directory\<close>

record stat =
  st_dev :: int
  st_ino :: int
  st_type :: string
  st_perm :: int
  st_uid :: int
  st_gid :: int
  st_nlink :: int
  st_size :: int
  st_mtime_ns :: int
  st_ctime_ns :: int

record node =
  nd_stat :: stat
  nd_data :: bytes

text \<open>The held directory: its own status, its names, and the open files by inode.\<close>

record custody_fs =
  fs_dir :: stat
  fs_names :: "(pystr \<times> nat) list"
  fs_nodes :: "nat \<Rightarrow> node"
  fs_next :: nat

datatype mutation = Created pystr nat | Wrote nat bytes | Renamed pystr pystr

record custody_state =
  cs_fs :: custody_fs
  cs_calls :: nat
  cs_log :: "mutation list"

record os_env =
  oe_world :: "nat \<Rightarrow> custody_fs \<Rightarrow> custody_fs"
  oe_fails :: "nat \<Rightarrow> bool"
  oe_amount :: "nat \<Rightarrow> nat"
  oe_new_stat :: stat

section \<open>System calls\<close>

definition call :: "os_env \<Rightarrow> (custody_fs \<Rightarrow> 'a result) \<Rightarrow> (custody_state, 'a) eff" where
  "call E f = (\<lambda>s.
     let n = cs_calls s; fs = oe_world E n (cs_fs s); s' = s\<lparr>cs_fs := fs, cs_calls := n + 1\<rparr> in
     if oe_fails E n then (Inl (OSError ''injected''), s') else (f fs, s'))"

definition mutate :: "os_env \<Rightarrow> (custody_fs \<Rightarrow> (custody_fs \<times> mutation \<times> 'a) result) \<Rightarrow> (custody_state, 'a) eff" where
  "mutate E f = (\<lambda>s.
     let n = cs_calls s; fs = oe_world E n (cs_fs s); s' = s\<lparr>cs_fs := fs, cs_calls := n + 1\<rparr> in
     if oe_fails E n then (Inl (OSError ''injected''), s')
     else case f fs of
         Inl e \<Rightarrow> (Inl e, s')
       | Inr (fs', m, x) \<Rightarrow> (Inr x, s'\<lparr>cs_fs := fs', cs_log := cs_log s' @ [m]\<rparr>))"

definition sys_fstat_dir :: "os_env \<Rightarrow> (custody_state, stat) eff" where
  "sys_fstat_dir E = call E (\<lambda>fs. Inr (fs_dir fs))"

definition sys_stat :: "os_env \<Rightarrow> pystr \<Rightarrow> (custody_state, stat) eff" where
  "sys_stat E name = call E (\<lambda>fs. case map_of (fs_names fs) name of
     None \<Rightarrow> Inl (OSError ''ENOENT'') | Some i \<Rightarrow> Inr (nd_stat (fs_nodes fs i)))"

definition sys_fstat :: "os_env \<Rightarrow> nat \<Rightarrow> (custody_state, stat) eff" where
  "sys_fstat E i = call E (\<lambda>fs. Inr (nd_stat (fs_nodes fs i)))"

definition sys_open :: "os_env \<Rightarrow> pystr \<Rightarrow> (custody_state, nat) eff" where
  "sys_open E name = call E (\<lambda>fs. case map_of (fs_names fs) name of
     None \<Rightarrow> Inl (OSError ''ENOENT'')
   | Some i \<Rightarrow> if st_type (nd_stat (fs_nodes fs i)) = ''symlink'' then Inl (OSError ''ELOOP'') else Inr i)"

definition sys_read :: "os_env \<Rightarrow> nat \<Rightarrow> nat \<Rightarrow> nat \<Rightarrow> (custody_state, bytes) eff" where
  "sys_read E i position request = (\<lambda>s.
     call E (\<lambda>fs. let rest = drop position (nd_data (fs_nodes fs i)) in
       Inr (take (max 1 (min request (oe_amount E (cs_calls s)))) (take request rest))) s)"

definition sys_close :: "os_env \<Rightarrow> (custody_state, unit) eff" where
  "sys_close E = call E (\<lambda>fs. Inr ())"

definition sys_fsync :: "os_env \<Rightarrow> (custody_state, unit) eff" where
  "sys_fsync E = call E (\<lambda>fs. Inr ())"

definition sys_listdir :: "os_env \<Rightarrow> (custody_state, pystr list) eff" where
  "sys_listdir E = call E (\<lambda>fs. Inr (map fst (fs_names fs)))"

definition sys_create :: "os_env \<Rightarrow> pystr \<Rightarrow> (custody_state, nat) eff" where
  "sys_create E name = mutate E (\<lambda>fs.
     if map_of (fs_names fs) name \<noteq> None then Inl (OSError ''EEXIST'')
     else let i = fs_next fs in
       Inr (fs\<lparr>fs_names := fs_names fs @ [(name, i)], fs_nodes := (fs_nodes fs)(i := \<lparr>nd_stat = oe_new_stat E, nd_data = []\<rparr>),
               fs_next := i + 1\<rparr>, Created name i, i))"

definition sys_write :: "os_env \<Rightarrow> nat \<Rightarrow> bytes \<Rightarrow> (custody_state, nat) eff" where
  "sys_write E i raw = (\<lambda>s.
     mutate E (\<lambda>fs.
       let k = min (length raw) (oe_amount E (cs_calls s)); node = fs_nodes fs i; data = nd_data node @ take k raw in
       Inr (fs\<lparr>fs_nodes := (fs_nodes fs)(i := node\<lparr>nd_data := data, nd_stat := (nd_stat node)\<lparr>st_size := int (length data)\<rparr>\<rparr>)\<rparr>,
            Wrote i (take k raw), k)) s)"

definition sys_rename_noreplace :: "os_env \<Rightarrow> pystr \<Rightarrow> pystr \<Rightarrow> (custody_state, unit) eff" where
  "sys_rename_noreplace E source destination = mutate E (\<lambda>fs.
     case map_of (fs_names fs) source of
       None \<Rightarrow> Inl (OSError ''ENOENT'')
     | Some i \<Rightarrow>
         if map_of (fs_names fs) destination \<noteq> None then Inl (OSError ''EEXIST'')
         else Inr (fs\<lparr>fs_names := map (\<lambda>(n, j). (if n = source then destination else n, j)) (fs_names fs)\<rparr>,
              Renamed source destination, ()))"

section \<open>Checks\<close>

definition codec_fail :: "bool \<Rightarrow> string \<Rightarrow> ('s, unit) eff" where
  "codec_fail c message = guard c (CampaignCodecError message)"

definition check_directory :: "os_env \<Rightarrow> int \<Rightarrow> int \<Rightarrow> (custody_state, unit) eff" where
  "check_directory E parent_fd owner_uid =
     ebind (codec_fail (0 \<le> parent_fd) ''invalid held directory descriptor'') (\<lambda>_.
     ebind (codec_fail (0 \<le> owner_uid) ''invalid expected owner'') (\<lambda>_.
     ebind (sys_fstat_dir E) (\<lambda>observed.
     ebind (codec_fail (st_type observed = ''directory'') ''held descriptor is not a directory'') (\<lambda>_.
     ebind (codec_fail (st_perm observed = 448) ''custody directory mode mismatch'') (\<lambda>_.
     codec_fail (st_uid observed = owner_uid) ''custody directory owner mismatch'')))))"

definition is_upper_word :: "nat \<Rightarrow> bool" where
  "is_upper_word c \<longleftrightarrow> 65 \<le> c \<and> c \<le> 90 \<or> 48 \<le> c \<and> c \<le> 57 \<or> c = 95"

text \<open>\<^verbatim>\<open>_RECORD_NAME\<close>: six digits, a hyphen, an upper-case word and \<^verbatim>\<open>.json\<close>.\<close>

definition record_name :: "pystr \<Rightarrow> bool" where
  "record_name name \<longleftrightarrow> 13 \<le> length name \<and> list_all is_digit (take 6 name) \<and> name ! 6 = 45 \<and>
     65 \<le> name ! 7 \<and> name ! 7 \<le> 90 \<and> ends_with (ustr ''.json'') name \<and>
     list_all is_upper_word (slice 8 (length name - 5) name)"

text \<open>\<^verbatim>\<open>os.fsencode\<close> with the surrogate escapes of UTF-8.\<close>

definition fs_length :: "pystr \<Rightarrow> nat result" where
  "fs_length s =
     (if list_all (\<lambda>c. is_scalar c \<or> 56448 \<le> c \<and> c \<le> 56575) s
      then Inr (sum_list (map (\<lambda>c. if is_scalar c then length (utf8_char c) else 1) s))
      else Inl PyUnicodeError)"

definition check_name :: "pystr \<Rightarrow> bool \<Rightarrow> unit result" where
  "check_name name is_record =
     require (name \<notin> {[], ustr ''.'', ustr ''..''}) (CampaignCodecError ''invalid custody name'')
     (require (47 \<notin> set name \<and> 0 \<notin> set name) (CampaignCodecError ''unsafe custody name'')
     (rbind (fs_length name) (\<lambda>n.
      require (n \<le> 255) (CampaignCodecError ''unsafe custody name'')
      (require (\<not> is_record \<or> record_name name) (CampaignCodecError ''invalid sequence record name'') (Inr ())))))"

section \<open>Loading\<close>

definition same_identity :: "stat \<Rightarrow> stat \<Rightarrow> bool" where
  "same_identity left right \<longleftrightarrow>
     (st_dev left, st_ino left, st_type left, st_perm left, st_uid left, st_gid left, st_nlink left, st_size left,
      st_mtime_ns left, st_ctime_ns left) =
     (st_dev right, st_ino right, st_type right, st_perm right, st_uid right, st_gid right, st_nlink right, st_size right,
      st_mtime_ns right, st_ctime_ns right)"

text \<open>The reading loop: every turn reads at least one byte, so the bytes still allowed bound it.\<close>

primrec read_loop :: "os_env \<Rightarrow> nat \<Rightarrow> nat \<Rightarrow> nat \<Rightarrow> bytes \<Rightarrow> (custody_state, bytes) eff" where
  "read_loop E i maximum 0 raw = ret raw"
| "read_loop E i maximum (Suc n) raw =
     (if length raw = maximum + 1 then ret raw
      else ebind (sys_read E i (length raw) (min 65536 (maximum + 1 - length raw))) (\<lambda>chunk.
        if chunk = [] then ret raw else read_loop E i maximum n (raw @ chunk)))"

definition read_all :: "os_env \<Rightarrow> nat \<Rightarrow> nat \<Rightarrow> (custody_state, bytes) eff" where
  "read_all E i maximum =
     ebind (read_loop E i maximum (maximum + 1) []) (\<lambda>raw.
     ebind (codec_fail (length raw \<le> maximum) ''file byte bound exceeded'') (\<lambda>_.
     ret raw))"

definition load_canonical_file_at :: "os_env \<Rightarrow> int \<Rightarrow> pystr \<Rightarrow> int \<Rightarrow> (custody_state, json) eff" where
  "load_canonical_file_at E parent_fd name expected_uid =
     ebind (check_directory E parent_fd expected_uid) (\<lambda>_.
     ebind (lift (check_name name False)) (\<lambda>_.
     ebind (sys_stat E name) (\<lambda>before.
     ebind (codec_fail (st_type before = ''regular'') ''record is not regular'') (\<lambda>_.
     ebind (codec_fail (st_perm before = 256) ''record mode mismatch'') (\<lambda>_.
     ebind (codec_fail (st_uid before = expected_uid) ''record owner mismatch'') (\<lambda>_.
     ebind (codec_fail (st_nlink before = 1) ''record hardlink rejected'') (\<lambda>_.
     ebind (sys_open E name) (\<lambda>i.
     ebind (finally_do (sys_close E)
       (ebind (sys_fstat E i) (\<lambda>opened.
        ebind (sys_stat E name) (\<lambda>current.
        ebind (codec_fail (same_identity before opened \<and> same_identity opened current) ''record identity changed'') (\<lambda>_.
        ebind (read_all E i MAX_CANONICAL_BYTES) (\<lambda>raw.
        ebind (sys_fstat E i) (\<lambda>after.
        ebind (sys_stat E name) (\<lambda>current_after.
        ebind (codec_fail (same_identity opened after \<and> same_identity after current_after)
          ''record mutated or was replaced while read'') (\<lambda>_.
        ret raw)))))))))
     (\<lambda>raw. lift (load_canonical_bytes raw))))))))))"

section \<open>Publishing\<close>

definition MAX_DIRECTORY_ENTRIES :: nat where "MAX_DIRECTORY_ENTRIES = 512"

text \<open>\<^verbatim>\<open>except OSError as error: raise CampaignPublicationUncertain(message) from error\<close>, and the handler
  of the staging step, which does so for every error but that one itself.\<close>

definition is_doubt :: "exn \<Rightarrow> bool" where
  "is_doubt e = (case e of CampaignPublicationUncertain _ \<Rightarrow> True | _ \<Rightarrow> False)"

definition uncertain :: "string \<Rightarrow> ('s, 'a) eff \<Rightarrow> ('s, 'a) eff" where
  "uncertain message m =
     catch m (\<lambda>e. raise (if is_os_error e then CampaignPublicationUncertain message else e))"

definition is_staging :: "pystr \<Rightarrow> bool" where
  "is_staging name \<longleftrightarrow> starts_with (ustr ''.staging-'') name"

definition check_staging_set :: "os_env \<Rightarrow> pystr option \<Rightarrow> (custody_state, unit) eff" where
  "check_staging_set E allowed =
     ebind (uncertain ''custody directory enumeration failed'' (sys_listdir E)) (\<lambda>names.
     ebind (guard (length names \<le> MAX_DIRECTORY_ENTRIES)
       (CampaignPublicationUncertain ''custody directory entry bound exceeded'')) (\<lambda>_.
     guard (set (filter is_staging names) = (case allowed of None \<Rightarrow> {} | Some a \<Rightarrow> {a}))
       (CampaignPublicationUncertain ''stale or competing staging record'')))"

text \<open>Every turn writes at least one byte, so the length of the record bounds the loop.\<close>

primrec write_loop :: "os_env \<Rightarrow> nat \<Rightarrow> nat \<Rightarrow> bytes \<Rightarrow> (custody_state, unit) eff" where
  "write_loop E i 0 view = ret ()"
| "write_loop E i (Suc n) view =
     (if view = [] then ret ()
      else ebind (sys_write E i view) (\<lambda>written.
        if written = 0 then raise (CampaignPublicationUncertain ''short record write'')
        else write_loop E i n (drop written view)))"

definition write_all :: "os_env \<Rightarrow> nat \<Rightarrow> bytes \<Rightarrow> (custody_state, unit) eff" where
  "write_all E i raw = write_loop E i (length raw) raw"

definition rename_noreplace :: "os_env \<Rightarrow> pystr \<Rightarrow> pystr \<Rightarrow> (custody_state, unit) eff" where
  "rename_noreplace E source destination =
     catch (sys_rename_noreplace E source destination) (\<lambda>e.
       if e = OSError ''EEXIST'' then raise (CampaignPublicationUncertain ''record destination already exists'')
       else raise (CampaignPublicationUncertain ''record no-replace publication failed''))"

text \<open>\<^verbatim>\<open>f"{sequence:06d}"\<close>: the sign counts towards the width.\<close>

definition sequence_text :: "int \<Rightarrow> pystr" where
  "sequence_text i = (if i < 0 then 45 # rjust 5 48 (decimal (nat (- i))) else rjust 6 48 (decimal (nat i)))"

definition published_name :: "json \<Rightarrow> pystr result" where
  "published_name value =
     (case value of
        JObj ps \<Rightarrow>
          (case (map_of ps (ustr ''sequence''), map_of ps (ustr ''event'')) of
             (Some (JInt sequence), Some (JStr event)) \<Rightarrow> Inr (sequence_text sequence @ 45 # event @ ustr ''.json'')
           | _ \<Rightarrow> Inl (CampaignCodecError ''published record identity missing''))
      | _ \<Rightarrow> Inl (CampaignCodecError ''published record must be a plain object''))"

definition staging_name :: "pystr \<Rightarrow> pystr" where
  "staging_name token = ustr ''.staging-'' @ token"

definition stage_record :: "os_env \<Rightarrow> int \<Rightarrow> nat \<Rightarrow> bytes \<Rightarrow> (custody_state, unit) eff" where
  "stage_record E expected_uid i raw =
     finally_do (uncertain ''staging close failed'' (sys_close E))
       (catch
         (ebind (sys_fstat E i) (\<lambda>opened.
          ebind (guard (st_type opened = ''regular'' \<and> st_perm opened = 256 \<and> st_uid opened = expected_uid \<and> st_nlink opened = 1)
            (CampaignPublicationUncertain ''staging identity mismatch'')) (\<lambda>_.
          ebind (write_all E i raw) (\<lambda>_.
          sys_fsync E))))
         (\<lambda>e. raise (if is_doubt e then e else CampaignPublicationUncertain ''staging write or fsync failed'')))"

definition publish_record_at ::
  "digest_fun \<Rightarrow> os_env \<Rightarrow> int \<Rightarrow> pystr \<Rightarrow> json \<Rightarrow> int \<Rightarrow> pystr \<Rightarrow> (custody_state, pystr) eff" where
  "publish_record_at H E parent_fd final_name value expected_uid token =
     ebind (check_directory E parent_fd expected_uid) (\<lambda>_.
     ebind (lift (check_name final_name True)) (\<lambda>_.
     ebind (lift (published_name value)) (\<lambda>name.
     ebind (codec_fail (final_name = name) ''record name does not bind sequence and event'') (\<lambda>_.
     ebind (lift (canonical_bytes value)) (\<lambda>raw.
     ebind (check_staging_set E None) (\<lambda>_.
     ebind (lift (check_name (staging_name token) False)) (\<lambda>_.
     ebind (uncertain ''staging create failed'' (sys_create E (staging_name token))) (\<lambda>i.
     ebind (stage_record E expected_uid i raw) (\<lambda>_.
     ebind (check_staging_set E (Some (staging_name token))) (\<lambda>_.
     ebind (rename_noreplace E (staging_name token) final_name) (\<lambda>_.
     ebind (uncertain ''parent fsync failed after publication'' (sys_fsync E)) (\<lambda>_.
     ret (sha256_hex H raw)))))))))))))"

end
