(* ===== verification/StoreSafety.thy ===== *)
theory StoreSafety
  imports CampaignStore
begin

text \<open>
  The theorems of the file custody. \<open>silent\<close> effects change nothing in the directory, \<open>doubtful\<close>
  ones raise only \<^verbatim>\<open>CampaignPublicationUncertain\<close>; publication is a silent part, one creation, and a
  doubtful part.
\<close>

section \<open>Silent and doubtful effects\<close>

definition silent :: "custody_state \<Rightarrow> custody_state \<Rightarrow> bool" where
  "silent s t \<longleftrightarrow> cs_log t = cs_log s"

interpretation silence: effect_order silent
  by unfold_locales (simp_all add: silent_def)

lemma call_silent: "within silent (call E f)"
  by (simp add: within_def call_def silent_def Let_def)

lemma sys_silent:
  "within silent (sys_fstat_dir E)" "within silent (sys_stat E name)" "within silent (sys_fstat E i)"
  "within silent (sys_open E name)" "within silent (sys_close E)" "within silent (sys_fsync E)"
  "within silent (sys_listdir E)" "within silent (sys_read E i p n)"
  by (simp_all add: sys_fstat_dir_def sys_stat_def sys_fstat_def sys_open_def sys_close_def sys_fsync_def sys_listdir_def
      call_silent)
    (simp add: within_def sys_read_def call_silent [unfolded within_def])

lemma codec_fail_silent: "within silent (codec_fail c message)"
  by (simp add: codec_fail_def silence.within_pure)

lemmas silent_intros = silence.within_intros sys_silent codec_fail_silent

lemma check_directory_silent: "within silent (check_directory E fd uid)"
  by (auto simp: check_directory_def intro!: silent_intros)

lemma uncertain_silent: "within silent m \<Longrightarrow> within silent (uncertain message m)"
  by (auto simp: uncertain_def intro!: silent_intros)

lemma check_staging_silent: "within silent (check_staging_set E allowed)"
  by (auto simp: check_staging_set_def intro!: silent_intros uncertain_silent)

lemma read_loop_silent: "within silent (read_loop E i maximum n raw)"
  by (induction n arbitrary: raw) (auto intro!: silent_intros)

definition doubtful :: "('s, 'a) eff \<Rightarrow> bool" where
  "doubtful m \<longleftrightarrow> (\<forall>s e t. m s = (Inl e, t) \<longrightarrow> is_doubt e)"

lemma is_doubt_uncertain [simp]: "is_doubt (CampaignPublicationUncertain message)"
  by (simp add: is_doubt_def)

lemma doubtful_ret: "doubtful (ret x)"
  by (simp add: doubtful_def)

lemma doubtful_ebind: "doubtful m \<Longrightarrow> (\<And>x. doubtful (f x)) \<Longrightarrow> doubtful (ebind m f)"
  by (auto simp: doubtful_def ebind_Inl) blast+

lemma doubtful_guard: "doubtful (guard c (CampaignPublicationUncertain message))"
  by (simp add: doubtful_def)

text \<open>System calls raise \<^verbatim>\<open>OSError\<close> only.\<close>

definition os_only :: "('s, 'a) eff \<Rightarrow> bool" where
  "os_only m \<longleftrightarrow> (\<forall>s e t. m s = (Inl e, t) \<longrightarrow> is_os_error e)"

lemma os_only_calls: "os_only (sys_listdir E)" "os_only (sys_close E)" "os_only (sys_fsync E)" "os_only (sys_create E name)"
  by (auto simp: os_only_def sys_listdir_def sys_close_def sys_fsync_def sys_create_def call_def mutate_def Let_def
      split: if_splits)

lemma uncertain_doubtful: "os_only m \<Longrightarrow> doubtful (uncertain message m)"
  by (auto simp: doubtful_def os_only_def uncertain_def catch_def split: prod.splits sum.splits)

lemma catch_doubtful: "(\<And>e. doubtful (h e)) \<Longrightarrow> doubtful (catch m h)"
  by (auto simp: doubtful_def catch_def split: prod.splits sum.splits)

lemma raise_doubtful: "doubtful (raise (CampaignPublicationUncertain message))"
  by (simp add: doubtful_def)

lemma check_staging_doubtful: "doubtful (check_staging_set E allowed)"
  by (auto simp: check_staging_set_def intro!: doubtful_ebind doubtful_guard uncertain_doubtful os_only_calls)

lemma finally_doubtful: "doubtful c \<Longrightarrow> doubtful m \<Longrightarrow> doubtful (finally_do c m)"
  unfolding doubtful_def finally_do_def by (auto split: prod.splits sum.splits) blast+

lemma stage_doubtful: "doubtful (stage_record E uid i raw)"
  by (auto simp: stage_record_def doubtful_def [of "raise _"]
      intro!: finally_doubtful uncertain_doubtful os_only_calls catch_doubtful)

lemma rename_doubtful: "doubtful (rename_noreplace E a b)"
  by (auto simp: rename_noreplace_def intro!: catch_doubtful raise_doubtful)

section \<open>What the mutating calls log\<close>

lemma create_log: "sys_create E name s = (Inr i, t) \<Longrightarrow> cs_log t = cs_log s @ [Created name i]"
  by (auto simp: sys_create_def mutate_def Let_def split: if_splits)

lemma create_fail_log: "sys_create E name s = (Inl e, t) \<Longrightarrow> cs_log t = cs_log s"
  by (auto simp: sys_create_def mutate_def Let_def split: if_splits)

lemma write_log: "sys_write E i raw s = (Inr k, t) \<Longrightarrow> k \<le> length raw \<and> cs_log t = cs_log s @ [Wrote i (take k raw)]"
  by (auto simp: sys_write_def mutate_def Let_def split: if_splits)

lemma write_loop_log:
  "write_loop E i n view s = (Inr x, t) \<Longrightarrow> length view \<le> n \<Longrightarrow>
     \<exists>parts. cs_log t = cs_log s @ map (Wrote i) parts \<and> concat parts = view"
proof (induction n arbitrary: view s)
  case (Suc n)
  show ?case
  proof (cases "view = []")
    case False
    with Suc.prems obtain k u where u: "sys_write E i view s = (Inr k, u)" "k \<noteq> 0" "write_loop E i n (drop k view) u = (Inr x, t)"
      by (auto simp: ebind_Inr split: if_splits)
    then obtain parts where "cs_log t = cs_log u @ map (Wrote i) parts" "concat parts = drop k view"
      using Suc.IH [of "drop k view" u] Suc.prems(2) by fastforce
    with write_log [OF u(1)] show ?thesis by (intro exI [of _ "take k view # parts"]) simp
  qed (use Suc.prems in \<open>auto intro: exI [of _ "[]"]\<close>)
qed (auto intro: exI [of _ "[]"])

lemma uncertain_Inr: "uncertain message m s = (Inr x, t) \<longleftrightarrow> m s = (Inr x, t)"
  by (auto simp: uncertain_def catch_def split: prod.splits sum.splits)

lemma stage_log:
  assumes "stage_record E uid i raw s = (Inr x, t)"
  shows "\<exists>parts. cs_log t = cs_log s @ map (Wrote i) parts \<and> concat parts = raw"
proof -
  from assms obtain u y where c: "sys_close E u = (Inr y, t)" and m: "(catch
         (ebind (sys_fstat E i) (\<lambda>opened.
          ebind (guard (st_type opened = ''regular'' \<and> st_perm opened = 256 \<and> st_uid opened = uid \<and> st_nlink opened = 1)
            (CampaignPublicationUncertain ''staging identity mismatch'')) (\<lambda>_.
          ebind (write_all E i raw) (\<lambda>_.
          sys_fsync E))))
         (\<lambda>e. raise (if is_doubt e then e else CampaignPublicationUncertain ''staging write or fsync failed''))) s = (Inr x, u)"
    unfolding stage_record_def finally_Inr uncertain_Inr by blast
  from m obtain a b v w where f: "sys_fstat E i s = (Inr a, v)" and w: "write_all E i raw v = (Inr b, w)"
    and fs: "sys_fsync E w = (Inr x, u)"
    by (auto simp: catch_Inr ebind_Inr)
  obtain parts where "cs_log w = cs_log v @ map (Wrote i) parts" "concat parts = raw"
    using write_loop_log [OF w [unfolded write_all_def]] by auto
  moreover have "cs_log v = cs_log s" "cs_log u = cs_log w" "cs_log t = cs_log u"
    using withinD [OF sys_silent(3) f] withinD [OF sys_silent(6) fs] withinD [OF sys_silent(5) c] by (simp_all add: silent_def)
  ultimately show ?thesis by auto
qed

lemma rename_log: "rename_noreplace E a b s = (Inr x, t) \<Longrightarrow> cs_log t = cs_log s @ [Renamed a b]"
  by (auto simp: rename_noreplace_def catch_Inr sys_rename_noreplace_def mutate_def Let_def split: if_splits option.splits)

section \<open>Publication\<close>

text \<open>\<open>certain m\<close>: when \<open>m\<close> raises, it changed nothing or says that the outcome is uncertain.\<close>

definition certain :: "(custody_state, 'a) eff \<Rightarrow> bool" where
  "certain m \<longleftrightarrow> (\<forall>s e t. m s = (Inl e, t) \<longrightarrow> silent s t \<or> is_doubt e)"

lemma certain_after_silent: "within silent m \<Longrightarrow> (\<And>x. certain (f x)) \<Longrightarrow> certain (ebind m f)"
  unfolding certain_def ebind_Inl by (metis silence.R_trans withinD)

lemma certain_before_doubtful: "certain m \<Longrightarrow> (\<And>x. doubtful (f x)) \<Longrightarrow> certain (ebind m f)"
  unfolding certain_def doubtful_def ebind_Inl by blast

lemma create_certain: "certain (uncertain message (sys_create E name))"
  by (simp add: certain_def uncertain_doubtful [OF os_only_calls(4), unfolded doubtful_def])

lemma publish_certain: "certain (publish_record_at H E fd name value uid token)"
  unfolding publish_record_at_def
  by (intro certain_after_silent check_directory_silent codec_fail_silent check_staging_silent silence.within_pure
      certain_before_doubtful create_certain doubtful_ebind stage_doubtful check_staging_doubtful rename_doubtful
      uncertain_doubtful os_only_calls doubtful_ret)

lemma publication_log:
  assumes "publish_record_at H E fd name value uid token s = (Inr d, t)"
  shows "\<exists>raw i parts. canonical_bytes value = Inr raw \<and> d = sha256_hex H raw \<and> concat parts = raw \<and>
    cs_log t = cs_log s @ Created (staging_name token) i # map (Wrote i) parts @ [Renamed (staging_name token) name]"
proof -
  from assms obtain raw i s1 s2 s3 s4 s5 s6 s7 where
      raw: "canonical_bytes value = Inr raw" and d: "d = sha256_hex H raw"
    and dir: "check_directory E fd uid s = (Inr (), s1)"
    and before: "check_staging_set E None s1 = (Inr (), s2)"
    and create: "sys_create E (staging_name token) s2 = (Inr i, s3)"
    and stage: "stage_record E uid i raw s3 = (Inr (), s4)"
    and after: "check_staging_set E (Some (staging_name token)) s4 = (Inr (), s5)"
    and ren: "rename_noreplace E (staging_name token) name s5 = (Inr (), s6)"
    and sync: "sys_fsync E s6 = (Inr (), t)"
    unfolding publish_record_at_def codec_fail_def by (auto simp: ebind_Inr uncertain_Inr lift_Inr simp del: lift_eq)
  obtain parts where p: "cs_log s4 = cs_log s3 @ map (Wrote i) parts" "concat parts = raw"
    using stage_log [OF stage] by blast
  have "cs_log s1 = cs_log s" "cs_log s2 = cs_log s1" "cs_log s5 = cs_log s4" "cs_log t = cs_log s6"
    using withinD [OF check_directory_silent dir] withinD [OF check_staging_silent before]
      withinD [OF check_staging_silent after] withinD [OF sys_silent(6) sync] by (simp_all add: silent_def)
  then have "cs_log t = cs_log s @ Created (staging_name token) i # map (Wrote i) parts @ [Renamed (staging_name token) name]"
    using create_log [OF create] rename_log [OF ren] p(1) by simp
  with raw d p(2) show ?thesis by blast
qed

text \<open>C25. Publishing a record either changes nothing, or ends in \<^verbatim>\<open>CampaignPublicationUncertain\<close>, or succeeds,
  and then what it did to the directory is exactly: create the staging name exclusively, write the canonical
  encoding of the record in some parts, and rename it to the record's name without replacing; the digest it
  returns is that of the bytes written. This holds whatever other processes do to the directory in between,
  whichever system calls fail and however short the writes are.\<close>
theorem publish_all_or_uncertain:
  "case publish_record_at H E fd name value uid token s of
     (Inl e, t) \<Rightarrow> cs_log t = cs_log s \<or> is_doubt e
   | (Inr d, t) \<Rightarrow> \<exists>raw i parts. canonical_bytes value = Inr raw \<and> d = sha256_hex H raw \<and> concat parts = raw \<and>
       cs_log t = cs_log s @ Created (staging_name token) i # map (Wrote i) parts @ [Renamed (staging_name token) name]"
  using publish_certain [of H E fd name _ uid token] publication_log [of H E fd name _ uid token s]
  by (auto simp: certain_def silent_def split: prod.split sum.split)

section \<open>Loading\<close>

lemma read_all_silent: "within silent (read_all E i n)"
  by (auto simp: read_all_def intro!: silent_intros read_loop_silent)

lemma load_silent: "within silent (load_canonical_file_at E fd name uid)"
  unfolding load_canonical_file_at_def
  by (intro silent_intros check_directory_silent silence.within_finally read_all_silent)

section \<open>Publishing and loading in a directory that nobody else changes\<close>

text \<open>No other process changes the directory and no system call fails; the writes may still be short.\<close>

definition quiet :: "os_env \<Rightarrow> bool" where
  "quiet E \<longleftrightarrow> (\<forall>n. oe_world E n = id \<and> \<not> oe_fails E n)"

definition same_fs :: "custody_state \<Rightarrow> custody_state \<Rightarrow> bool" where
  "same_fs s t \<longleftrightarrow> cs_fs t = cs_fs s"

interpretation calm: effect_order same_fs
  by unfold_locales (simp_all add: same_fs_def)

lemma quiet_call: "quiet E \<Longrightarrow> call E f s = (f (cs_fs s), s\<lparr>cs_calls := Suc (cs_calls s)\<rparr>)"
  by (simp add: call_def quiet_def Let_def)

lemma quiet_mutate:
  "quiet E \<Longrightarrow> mutate E f s = (Inr x, t) \<Longrightarrow> \<exists>m fs. f (cs_fs s) = Inr (fs, m, x) \<and> cs_fs t = fs"
  by (auto simp: mutate_def quiet_def Let_def split: sum.splits)

lemma quiet_calls:
  assumes "quiet E"
  shows "within same_fs (sys_fstat_dir E)" "within same_fs (sys_stat E name)" "within same_fs (sys_fstat E i)"
    "within same_fs (sys_open E name)" "within same_fs (sys_close E)" "within same_fs (sys_fsync E)"
    "within same_fs (sys_listdir E)" "within same_fs (sys_read E i p n)"
  using assms by (simp_all add: within_def same_fs_def quiet_call sys_fstat_dir_def sys_stat_def sys_fstat_def sys_open_def
      sys_close_def sys_fsync_def sys_listdir_def sys_read_def)

lemma quiet_check_directory: "quiet E \<Longrightarrow> within same_fs (check_directory E fd uid)"
  by (auto simp: check_directory_def codec_fail_def intro!: calm.within_intros quiet_calls)

lemma quiet_check_staging: "quiet E \<Longrightarrow> within same_fs (check_staging_set E allowed)"
  by (auto simp: check_staging_set_def uncertain_def intro!: calm.within_intros quiet_calls)

text \<open>What the directory keeps for one file: its bytes, and the status fields the code looks at.\<close>

definition file_is :: "custody_fs \<Rightarrow> nat \<Rightarrow> int \<Rightarrow> bytes \<Rightarrow> bool" where
  "file_is fs i uid raw \<longleftrightarrow> nd_data (fs_nodes fs i) = raw \<and>
     (let st = nd_stat (fs_nodes fs i) in
      st_type st = ''regular'' \<and> st_perm st = 256 \<and> st_uid st = uid \<and> st_nlink st = 1)"

definition same_names :: "custody_state \<Rightarrow> custody_state \<Rightarrow> bool" where
  "same_names s t \<longleftrightarrow> fs_names (cs_fs t) = fs_names (cs_fs s) \<and> fs_dir (cs_fs t) = fs_dir (cs_fs s)"

lemma quiet_write:
  assumes "quiet E" "sys_write E i view s = (Inr k, t)"
  shows "same_names s t" "file_is (cs_fs s) i uid raw \<Longrightarrow> file_is (cs_fs t) i uid (raw @ take k view)"
  using quiet_mutate [OF assms(1) assms(2) [unfolded sys_write_def]]
  by (auto simp: same_names_def file_is_def Let_def)

lemma quiet_write_loop:
  assumes "quiet E"
  shows "write_loop E i n view s = (Inr x, t) \<Longrightarrow> length view \<le> n \<Longrightarrow> file_is (cs_fs s) i uid raw \<Longrightarrow>
     same_names s t \<and> file_is (cs_fs t) i uid (raw @ view)"
proof (induction n arbitrary: view s raw)
  case (Suc n)
  show ?case
  proof (cases "view = []")
    case False
    with Suc.prems obtain k u where u: "sys_write E i view s = (Inr k, u)" "k \<noteq> 0" "write_loop E i n (drop k view) u = (Inr x, t)"
      by (auto simp: ebind_Inr split: if_splits)
    have "file_is (cs_fs u) i uid (raw @ take k view)" and n: "same_names s u"
      using quiet_write [OF assms u(1)] Suc.prems(3) by blast+
    then have "same_names u t \<and> file_is (cs_fs t) i uid ((raw @ take k view) @ drop k view)"
      using Suc.IH [OF u(3), of "raw @ take k view"] Suc.prems(2) u(2) by simp
    with n show ?thesis by (simp add: same_names_def)
  qed (use Suc.prems in \<open>auto simp: same_names_def\<close>)
qed (auto simp: same_names_def)

lemma quiet_stage:
  assumes "quiet E" and stage: "stage_record E uid i raw s = (Inr x, t)" and new: "nd_data (fs_nodes (cs_fs s) i) = []"
  shows "same_names s t \<and> file_is (cs_fs t) i uid raw"
proof -
  from stage obtain u v w a y where c: "sys_close E u = (Inr y, t)" and f: "sys_fstat E i s = (Inr a, v)"
    and a: "st_type a = ''regular'' \<and> st_perm a = 256 \<and> st_uid a = uid \<and> st_nlink a = 1"
    and w: "write_loop E i (length raw) raw v = (Inr (), w)" and fs: "sys_fsync E w = (Inr x, u)"
    unfolding stage_record_def finally_Inr uncertain_Inr by (auto simp: catch_Inr ebind_Inr write_all_def)
  have same: "cs_fs v = cs_fs s" "cs_fs u = cs_fs w" "cs_fs t = cs_fs u"
    using withinD [OF quiet_calls(3) [OF assms(1)] f] withinD [OF quiet_calls(6) [OF assms(1)] fs]
      withinD [OF quiet_calls(5) [OF assms(1)] c] by (simp_all add: same_fs_def)
  have "a = nd_stat (fs_nodes (cs_fs s) i)" using f assms(1) by (simp add: sys_fstat_def quiet_call)
  with a new same(1) have "file_is (cs_fs v) i uid []" by (simp add: file_is_def Let_def)
  from quiet_write_loop [OF assms(1) w _ this] show ?thesis by (simp add: same same_names_def)
qed

lemma map_of_renamed:
  "map_of ps a = None \<Longrightarrow> map_of ps b = None \<Longrightarrow>
   map_of (map (\<lambda>(n, j). (if n = a then b else n, j)) (ps @ [(a, i)])) b = Some i"
  by (induction ps) (auto split: if_splits)

lemma publish_stores:
  assumes q: "quiet E" and "publish_record_at H E fd name value uid token s = (Inr d, t)"
  shows "\<exists>raw i. canonical_bytes value = Inr raw \<and> map_of (fs_names (cs_fs t)) name = Some i \<and> file_is (cs_fs t) i uid raw \<and>
    check_name name True = Inr () \<and> fs_dir (cs_fs t) = fs_dir (cs_fs s) \<and> check_directory E fd uid s \<in> {Inr ()} \<times> UNIV"
proof -
  from assms(2) obtain raw i s1 s2 s3 s4 s5 s6 where
      raw: "canonical_bytes value = Inr raw" and name: "check_name name True = Inr ()"
    and dir: "check_directory E fd uid s = (Inr (), s1)"
    and before: "check_staging_set E None s1 = (Inr (), s2)"
    and create: "sys_create E (staging_name token) s2 = (Inr i, s3)"
    and stage: "stage_record E uid i raw s3 = (Inr (), s4)"
    and after: "check_staging_set E (Some (staging_name token)) s4 = (Inr (), s5)"
    and ren: "sys_rename_noreplace E (staging_name token) name s5 = (Inr (), s6)"
    and sync: "sys_fsync E s6 = (Inr (), t)"
    unfolding publish_record_at_def codec_fail_def rename_noreplace_def
    by (auto simp: ebind_Inr uncertain_Inr lift_Inr catch_Inr simp del: lift_eq split: if_splits)
  note [simp] = withinD [OF quiet_check_directory [OF q] dir, unfolded same_fs_def]
    withinD [OF quiet_check_staging [OF q] before, unfolded same_fs_def]
    withinD [OF quiet_check_staging [OF q] after, unfolded same_fs_def]
    withinD [OF quiet_calls(6) [OF q] sync, unfolded same_fs_def]
  let ?tmp = "staging_name token" and ?ps = "fs_names (cs_fs s)"
  have c: "map_of ?ps ?tmp = None" "fs_names (cs_fs s3) = ?ps @ [(?tmp, i)]" "nd_data (fs_nodes (cs_fs s3) i) = []"
    "fs_dir (cs_fs s3) = fs_dir (cs_fs s)"
    using quiet_mutate [OF q create [unfolded sys_create_def]] by (auto simp: Let_def dest!: sym [of _ "cs_fs s3"] split: if_splits)
  from quiet_stage [OF q stage c(3)] c have s4: "fs_names (cs_fs s4) = ?ps @ [(?tmp, i)]" "fs_dir (cs_fs s4) = fs_dir (cs_fs s)"
    "file_is (cs_fs s4) i uid raw" by (simp_all add: same_names_def)
  have "map_of ?ps name = None" "fs_names (cs_fs t) = map (\<lambda>(n, j). (if n = ?tmp then name else n, j)) (?ps @ [(?tmp, i)])"
    "fs_dir (cs_fs t) = fs_dir (cs_fs s)" "fs_nodes (cs_fs t) = fs_nodes (cs_fs s4)"
    using quiet_mutate [OF q ren [unfolded sys_rename_noreplace_def]] s4 c(1)
    by (auto simp: map_add_def dest!: sym [of _ "cs_fs s6"] split: option.splits if_splits)
  with map_of_renamed [OF c(1)] s4(3) raw name dir show ?thesis
    by (auto simp: file_is_def)
qed

lemma quiet_read_loop:
  assumes "quiet E" "nd_data (fs_nodes (cs_fs s) i) = raw" "length raw \<le> maximum" "k \<le> length raw" "length raw - k < n"
  shows "\<exists>u. read_loop E i maximum n (take k raw) s = (Inr raw, u) \<and> cs_fs u = cs_fs s"
  using assms(2-)
proof (induction n arbitrary: k s)
  case (Suc n)
  define s' where "s' = s\<lparr>cs_calls := Suc (cs_calls s)\<rparr>"
  define r where "r = min 65536 (maximum + 1 - k)"
  define a where "a = min (max 1 (min r (oe_amount E (cs_calls s)))) r"
  have chunk: "sys_read E i k r s = (Inr (take a (drop k raw)), s')"
    using assms(1) Suc.prems(1) by (simp add: sys_read_def quiet_call Let_def s'_def a_def)
  have r: "0 < a" using Suc.prems by (simp add: a_def r_def)
  show ?case
  proof (cases "k = length raw")
    case True
    with chunk Suc.prems show ?thesis by (simp add: ebind_def r_def s'_def)
  next
    case False
    define j where "j = min (length raw) (k + a)"
    have j: "take k raw @ take a (drop k raw) = take j raw" "k < j" "j \<le> length raw"
      using False r Suc.prems(3) by (auto simp: j_def take_add min_def)
    moreover have "take a (drop k raw) \<noteq> []" using False Suc.prems(3) r by simp
    moreover have "\<exists>u. read_loop E i maximum n (take j raw) s' = (Inr raw, u) \<and> cs_fs u = cs_fs s'"
      using Suc.prems j by (intro Suc.IH) (auto simp: s'_def)
    ultimately show ?thesis
      using chunk Suc.prems False by (simp add: ebind_def r_def s'_def)
  qed
qed simp

lemma quiet_directory:
  assumes "quiet E" "quiet E'" "check_directory E fd uid s = (Inr (), u)" "fs_dir (cs_fs t) = fs_dir (cs_fs s)"
  shows "check_directory E' fd uid t = (Inr (), t\<lparr>cs_calls := Suc (cs_calls t)\<rparr>)"
  using assms by (auto simp: check_directory_def codec_fail_def ebind_def guard_def sys_fstat_dir_def quiet_call split: if_splits)

lemma check_name_weaken: "check_name name True = Inr () \<Longrightarrow> check_name name False = Inr ()"
  by (auto simp: check_name_def rbind_def require_def split: if_splits sum.splits)

lemma quiet_load:
  assumes q: "quiet E" and dir: "check_directory E fd uid t = (Inr (), t\<lparr>cs_calls := Suc (cs_calls t)\<rparr>)"
    and "check_name name False = Inr ()" "map_of (fs_names (cs_fs t)) name = Some i" "file_is (cs_fs t) i uid raw"
    and len: "length raw \<le> MAX_CANONICAL_BYTES"
  shows "fst (load_canonical_file_at E fd name uid t) = load_canonical_bytes raw"
proof -
  have "\<exists>u. read_all E i MAX_CANONICAL_BYTES s = (Inr raw, u) \<and> cs_fs u = cs_fs s" if "cs_fs s = cs_fs t" for s
    using quiet_read_loop [OF q, of s i raw MAX_CANONICAL_BYTES 0 "MAX_CANONICAL_BYTES + 1"] that assms(5) len
    by (auto simp: read_all_def file_is_def ebind_def codec_fail_def guard_def ret_def simp del: read_loop.simps)
  then obtain f where f: "read_all E i MAX_CANONICAL_BYTES s = (Inr raw, f s) \<and> cs_fs (f s) = cs_fs s" if "cs_fs s = cs_fs t" for s
    by metis
  show ?thesis
    using assms f unfolding load_canonical_file_at_def
    by (simp add: ebind_def lift_def codec_fail_def guard_def finally_do_def sys_stat_def sys_open_def sys_fstat_def
        sys_close_def quiet_call file_is_def Let_def same_identity_def ret_def)
qed

text \<open>C26. In a directory that nobody else changes, and where no system call fails, what was published is what is
  loaded: after a successful publication of a record under its name, loading that name returns the record,
  its keys in canonical order, however short the writes of the one and the reads of the other are.\<close>
theorem publish_then_load:
  assumes "quiet E" and "quiet E'" and "dict_ok value"
    and "publish_record_at H E fd name value uid token s = (Inr d, t)"
  shows "fst (load_canonical_file_at E' fd name uid t) = Inr (sort_keys value)"
proof -
  obtain raw i u where raw: "canonical_bytes value = Inr raw" and i: "map_of (fs_names (cs_fs t)) name = Some i"
      "file_is (cs_fs t) i uid raw" and name: "check_name name True = Inr ()"
    and dir: "fs_dir (cs_fs t) = fs_dir (cs_fs s)" "check_directory E fd uid s = (Inr (), u)"
    using publish_stores [OF assms(1,4)] by auto
  have "length raw \<le> MAX_CANONICAL_BYTES" using raw by (auto simp: canonical_bytes_Inr)
  then show ?thesis
    using quiet_load [OF assms(2) quiet_directory [OF assms(1,2) dir(2,1)] check_name_weaken [OF name] i]
      load_canonical [OF assms(3) raw] by simp
qed

definition sample_stat :: stat where
  "sample_stat = \<lparr>st_dev = 1, st_ino = 7, st_type = ''regular'', st_perm = 256, st_uid = 0, st_gid = 0, st_nlink = 1, st_size = 0,
     st_mtime_ns = 0, st_ctime_ns = 0\<rparr>"

definition quiet_env :: "nat \<Rightarrow> os_env" where
  "quiet_env n = \<lparr>oe_world = (\<lambda>_ fs. fs), oe_fails = (\<lambda>_. False), oe_amount = (\<lambda>_. n), oe_new_stat = sample_stat\<rparr>"

definition sample_directory :: custody_state where
  "sample_directory = \<lparr>cs_fs = \<lparr>fs_dir = sample_stat\<lparr>st_type := ''directory'', st_perm := 448\<rparr>, fs_names = [],
     fs_nodes = (\<lambda>_. \<lparr>nd_stat = sample_stat, nd_data = []\<rparr>), fs_next = 0\<rparr>, cs_calls = 0, cs_log = []\<rparr>"

definition sample_value :: json where
  "sample_value = JObj [(ustr ''sequence'', JInt 2), (ustr ''event'', JStr (ustr ''INTENT''))]"

lemma quiet_env_simps [simp]:
  "oe_world (quiet_env n) = (\<lambda>_ fs. fs)" "oe_fails (quiet_env n) = (\<lambda>_. False)" "oe_amount (quiet_env n) = (\<lambda>_. n)"
  "oe_new_stat (quiet_env n) = sample_stat"
  by (simp_all add: quiet_env_def)

lemma sample_quiet: "quiet (quiet_env n)"
  by (simp add: quiet_def fun_eq_iff)

lemma sample_encoded: "\<exists>raw. canonical_bytes sample_value = Inr raw"
  by (rule canonical_bytes_total)
    (simp_all add: sample_value_def within_bounds_def ustr_def str_fits_ascii str_bytes_ascii MAX_DEPTH_def MAX_NODES_def
      MAX_CANONICAL_BYTES_def MAX_OBJECT_PROPERTIES_def MAX_KEY_BYTES_def MAX_STRING_BYTES_def int_in_range_def MIN_INTEGER_def MAX_INTEGER_def)

lemma replicate_5: "replicate 5 (x :: nat) = [x, x, x, x, x]"
  by (simp add: numeral_eq_Suc)

lemma sample_names:
  "check_name (ustr ''000002-INTENT.json'') True = Inr ()" "check_name (staging_name (ustr ''ab'')) False = Inr ()"
  "published_name sample_value = Inr (ustr ''000002-INTENT.json'')"
  by (simp_all add: check_name_def fs_length_def is_scalar_def is_surrogate_def utf8_char_def record_name_def is_digit_def is_upper_word_def slice_def
      ends_with_def staging_name_def published_name_def sample_value_def sequence_text_def rjust_def decimal.simps ustr_def replicate_5)

lemma sample_staging:
  "is_staging (staging_name (ustr ''ab''))" "ustr ''000002-INTENT.json'' \<noteq> staging_name (ustr ''ab'')"
  "{x. x = staging_name (ustr ''ab'') \<and> is_staging x} = {staging_name (ustr ''ab'')}"
  by (auto simp: is_staging_def staging_name_def starts_with_def ustr_def)

lemma write_loop_nil: "write_loop E i n [] = ret ()"
  by (cases n) simp_all

lemma sample_write: "raw \<noteq> [] \<Longrightarrow> length raw \<le> n \<Longrightarrow> \<exists>u. write_all (quiet_env n) i raw s = (Inr (), u) \<and> same_names s u"
  by (cases raw) (auto simp: write_all_def write_loop_nil sys_write_def mutate_def ebind_def ret_def Let_def same_names_def)

lemma sample_published:
  "\<exists>d t. publish_record_at (\<lambda>_. []) (quiet_env 262144) 3 (ustr ''000002-INTENT.json'') sample_value 0 (ustr ''ab'') sample_directory =
     (Inr d, t)"
proof -
  obtain raw where raw: "canonical_bytes sample_value = Inr raw" using sample_encoded ..
  then have "raw \<noteq> []" "length raw \<le> 262144" by (auto simp: canonical_bytes_Inr MAX_CANONICAL_BYTES_def)
  then obtain f where f: "write_all (quiet_env 262144) i raw s = (Inr (), f i s) \<and> same_names s (f i s)" for i s
    using sample_write by metis
  show ?thesis
    using sample_names f [unfolded same_names_def]
    by (simp add: publish_record_at_def raw ebind_def lift_def check_directory_def codec_fail_def guard_def check_staging_set_def
      uncertain_def catch_def stage_record_def finally_do_def sys_fstat_dir_def sys_listdir_def sys_fstat_def sys_fsync_def
      sys_close_def quiet_call [OF sample_quiet] sys_create_def rename_noreplace_def sys_rename_noreplace_def mutate_def sample_directory_def
      sample_stat_def ret_def Let_def MAX_DIRECTORY_ENTRIES_def sample_staging)
qed

theorem publish_then_load_witness:
  "\<exists>d t. publish_record_at (\<lambda>_. []) (quiet_env 262144) 3 (ustr ''000002-INTENT.json'') sample_value 0 (ustr ''ab'') sample_directory =
       (Inr d, t) \<and>
     fst (load_canonical_file_at (quiet_env 5) 3 (ustr ''000002-INTENT.json'') 0 t) = Inr (sort_keys sample_value)"
proof -
  have v: "dict_ok sample_value" by (simp add: sample_value_def ustr_def)
  obtain d t where p: "publish_record_at (\<lambda>_. []) (quiet_env 262144) 3 (ustr ''000002-INTENT.json'') sample_value 0
      (ustr ''ab'') sample_directory = (Inr d, t)"
    using sample_published by blast
  with publish_then_load [OF sample_quiet sample_quiet v p, of 5] show ?thesis by blast
qed

end
