(* ===== verification/ArchivePreflight.thy ===== *)
theory ArchivePreflight
  imports PyBytes
begin

text \<open>
  The structural preflight of Debian packages and image layers
  (\<^verbatim>\<open>src/deploy/aws-feasibility/remote/completion_archive_preflight.py\<close>): the \<^verbatim>\<open>ar\<close> container, the
  decompression loop, the raw reading of the tar frames with their pax and GNU extensions, the
  second reading by \<^verbatim>\<open>tarfile\<close> and its comparison with the frames, paths, links, and the control
  stanza.

  Code that is not in the repository is a parameter: \<open>H\<close> is SHA-256, the record \<open>unicode_db\<close> the
  tables of \<^verbatim>\<open>unicodedata\<close>, \<open>tarfile_reader\<close> the module \<^verbatim>\<open>tarfile\<close>, and \<open>decoder\<close> the stream decoders
  of \<^verbatim>\<open>zlib\<close> and \<^verbatim>\<open>lzma\<close>. The inner decompression loop ends only when the decoder says so and is a
  partial function. Python's object identity (\<^verbatim>\<open>is\<close>) is the field \<open>mr_obj\<close> and \<open>pt_obj\<close> of the
  objects that are compared by it; a preflight is given the address \<open>at\<close> of the archive it
  allocates.
\<close>

definition afail :: "bool \<Rightarrow> 'a result \<Rightarrow> 'a result" where
  "afail c k = require c ArchivePreflightError k"

lemma afail_Inr [simp]: "afail c k = Inr x \<longleftrightarrow> c \<and> k = Inr x"
  by (simp add: afail_def)

lemma afail_cong [fundef_cong]: "c = c' \<Longrightarrow> (c' \<Longrightarrow> k = k') \<Longrightarrow> afail c k = afail c' k'"
  by (simp add: afail_def)

lemma afail_True [simp]: "afail True k = k"
  by (simp add: afail_def)

section \<open>Data\<close>

datatype entry_kind = KFile | KHardlink | KSymlink | KDirectory

type_synonym obj = "nat \<times> nat"

record archive_record =
  ar_path :: pystr
  ar_kind :: entry_kind
  ar_mode :: nat
  ar_uid :: nat
  ar_gid :: nat
  ar_mtime :: nat
  ar_size :: nat
  ar_link_target :: "pystr option"

record material_record =
  mr_path :: pystr
  mr_kind :: entry_kind
  mr_mode :: nat
  mr_uid :: nat
  mr_gid :: nat
  mr_mtime :: nat
  mr_archive_size :: nat
  mr_link_text :: "pystr option"
  mr_resolved_link_path :: "pystr option"
  mr_hardlink_target :: "pystr option"
  mr_content_sha256 :: "pystr option"
  mr_data_offset :: int
  mr_obj :: obj

record archive_root =
  rt_kind :: entry_kind
  rt_mode :: nat
  rt_uid :: nat
  rt_gid :: nat
  rt_mtime :: nat
  rt_archive_size :: nat

record preflighted_tar =
  pt_raw :: bytes
  pt_root :: archive_root
  pt_records :: "material_record list"
  pt_archive_records :: "archive_record list"
  pt_obj :: nat

definition tar_content :: "digest_fun \<Rightarrow> preflighted_tar \<Rightarrow> material_record \<Rightarrow> bytes result" where
  "tar_content H t r =
     afail (list_ex (\<lambda>item. mr_obj item = mr_obj r) (pt_records t))
     (afail (mr_kind r = KFile)
     (let v = py_slice (mr_data_offset r) (mr_data_offset r + int (mr_archive_size r)) (pt_raw t) in
      afail (length v = mr_archive_size r \<and> Some (H v) = mr_content_sha256 r) (Inr v)))"

record preflighted_deb =
  pd_raw :: bytes
  pd_members :: "(pystr \<times> nat \<times> pystr) list"
  pd_data_member :: pystr
  pd_payload :: preflighted_tar

record raw_member =
  rm_name :: pystr
  rm_linkname :: pystr
  rm_kind :: entry_kind
  rm_mode :: nat
  rm_uid :: nat
  rm_gid :: nat
  rm_mtime :: nat
  rm_size :: nat
  rm_data_offset :: nat
  rm_pax :: "(pystr \<times> pystr) list"
  rm_extensions :: "string list"

text \<open>The bounds of the verified contract.\<close>

record bounds =
  max_entries :: int
  max_regular_bytes :: int
  max_path_bytes :: int
  max_component_bytes :: int
  max_file_bytes :: int

record unicode_db =
  nfc :: "pystr \<Rightarrow> pystr"
  other_category :: "nat \<Rightarrow> bool"

section \<open>Numbers and the ar container\<close>

definition ar_number :: "bytes \<Rightarrow> nat \<Rightarrow> nat \<Rightarrow> nat result" where
  "ar_number field base maximum =
     (case find_first (\<lambda>b. b = 32) field of
        None \<Rightarrow> Inl ArchivePreflightError
      | Some terminator \<Rightarrow>
          afail (0 < terminator \<and> drop terminator field = replicate (length field - terminator) 32)
          (let core = take terminator field in
           afail (list_all (\<lambda>b. 48 \<le> b \<and> b \<le> (if base = 8 then 55 else 57)) core)
           (let value = base_value base core in afail (value \<le> maximum) (Inr value))))"

definition tar_octal :: "bytes \<Rightarrow> int \<Rightarrow> nat result" where
  "tar_octal field maximum =
     (case find_first (\<lambda>b. b = 0 \<or> b = 32) field of
        None \<Rightarrow> Inl ArchivePreflightError
      | Some terminator \<Rightarrow>
          afail (0 < terminator \<and> list_all (\<lambda>b. b = 0 \<or> b = 32) (drop terminator field))
          (let core = take terminator field in
           afail (list_all is_octal core)
           (let value = base_value 8 core in afail (int value \<le> maximum) (Inr value))))"

text \<open>One 60-byte \<^verbatim>\<open>ar\<close> header: the member's name and size.\<close>

definition ar_header :: "bytes \<Rightarrow> nat \<Rightarrow> (pystr \<times> nat) result" where
  "ar_header header limit =
     afail (slice 58 60 header = [96, 10])
     (afail (list_all (\<lambda>b. b < 128) (slice 0 16 header))
     (let name = rstrip 32 (slice 0 16 header) in
      afail (name \<noteq> [] \<and> 32 \<notin> set name \<and> \<not> starts_with [47] name \<and> \<not> starts_with (ustr ''#1/'') name)
      (let name = (if ends_with [47] name then butlast name else name) in
       afail (name \<noteq> [] \<and> 47 \<notin> set name \<and> name \<noteq> ustr ''.'' \<and> name \<noteq> ustr ''..'')
       (rbind (ar_number (slice 16 28 header) 10 (2 ^ 63 - 1)) (\<lambda>_.
        rbind (ar_number (slice 28 34 header) 10 (2 ^ 31 - 1)) (\<lambda>_.
        rbind (ar_number (slice 34 40 header) 10 (2 ^ 31 - 1)) (\<lambda>_.
        rbind (ar_number (slice 40 48 header) 8 65535) (\<lambda>_.
        rbind (ar_number (slice 48 58 header) 10 limit) (\<lambda>size.
        Inr (name, size))))))))))"

function ar_loop :: "bytes \<Rightarrow> nat \<Rightarrow> (pystr \<times> bytes) list \<Rightarrow> (pystr \<times> bytes) list result" where
  "ar_loop raw offset members =
     (if offset < length raw then
        afail (length members < 4 \<and> offset + 60 \<le> length raw)
        (rbind (ar_header (slice offset (offset + 60) raw) (length raw)) (\<lambda>(name, size).
         let start = offset + 60; stop = start + size in
         afail (stop \<le> length raw)
         (if odd size
          then afail (stop < length raw \<and> slice stop (stop + 1) raw = [10])
            (ar_loop raw (stop + 1) (members @ [(name, slice start stop raw)]))
          else ar_loop raw stop (members @ [(name, slice start stop raw)]))))
      else afail (offset = length raw) (Inr members))"
  by pat_completeness auto

termination
  by (relation "measure (\<lambda>(raw, offset, members). length raw - offset)") auto

declare ar_loop.simps [simp del]

definition ar_members :: "bytes \<Rightarrow> (pystr \<times> bytes) list result" where
  "ar_members raw =
     afail (starts_with [33, 60, 97, 114, 99, 104, 62, 10] raw)
     (rbind (ar_loop raw 8 []) (\<lambda>members.
      afail (length members = 3)
      (afail (members ! 0 = (ustr ''debian-binary'', [50, 46, 48, 10]))
      (afail (fst (members ! 1) \<in> set (map ustr [''control.tar'', ''control.tar.gz'', ''control.tar.xz'']))
      (afail (fst (members ! 2) \<in> set (map ustr [''data.tar'', ''data.tar.gz'', ''data.tar.xz'']))
      (Inr members))))))"

section \<open>Decompression\<close>

text \<open>
  A decoder object: its state, \<^verbatim>\<open>decompress(pending, max_length)\<close> (\<open>None\<close> when it raises its error),
  \<^verbatim>\<open>eof\<close>, \<^verbatim>\<open>unused_data\<close>, and the two attributes of which each library has one.
\<close>

record 'd decoder =
  d_start :: 'd
  d_decompress :: "'d \<Rightarrow> bytes \<Rightarrow> int \<Rightarrow> (bytes \<times> 'd) option"
  d_eof :: "'d \<Rightarrow> bool"
  d_unused :: "'d \<Rightarrow> bytes"
  d_needs_input :: "('d \<Rightarrow> bool) option"
  d_unconsumed :: "('d \<Rightarrow> bytes) option"

partial_function (option) inflate_pending ::
  "'d decoder \<Rightarrow> int \<Rightarrow> bytes \<Rightarrow> 'd \<Rightarrow> bytes \<Rightarrow> ('d \<times> bytes) result option" where
  "inflate_pending D maximum pending d out =
     (if pending \<noteq> [] \<or> (case d_needs_input D of None \<Rightarrow> False | Some f \<Rightarrow> \<not> f d \<and> \<not> d_eof D d) then
        (case d_decompress D d pending (maximum + 1 - int (length out)) of
           None \<Rightarrow> Some (Inl ArchivePreflightError)
         | Some (output, d') \<Rightarrow>
             if int (length (out @ output)) \<le> maximum \<and> d_unused D d' = [] \<and>
                (case d_unconsumed D of None \<Rightarrow> True | Some f \<Rightarrow> f d' = [])
             then inflate_pending D maximum [] d' (out @ output)
             else Some (Inl ArchivePreflightError))
      else Some (Inr (d, out)))"

definition orbind :: "'a result option \<Rightarrow> ('a \<Rightarrow> 'b result option) \<Rightarrow> 'b result option" where
  "orbind m f = (case m of None \<Rightarrow> None | Some (Inl e) \<Rightarrow> Some (Inl e) | Some (Inr x) \<Rightarrow> f x)"

definition CHUNK :: nat where "CHUNK = 1048576"

definition chunks :: "bytes \<Rightarrow> bytes list" where
  "chunks raw = map (\<lambda>i. slice (i * CHUNK) (i * CHUNK + CHUNK) raw) [0..<(length raw + CHUNK - 1) div CHUNK]"

fun inflate :: "'d decoder \<Rightarrow> int \<Rightarrow> bytes list \<Rightarrow> 'd \<Rightarrow> bytes \<Rightarrow> bytes result option" where
  "inflate D maximum [] d out =
     Some (afail (d_eof D d \<and> d_unused D d = []) (Inr out))"
| "inflate D maximum (c # cs) d out =
     (if d_eof D d then Some (Inl ArchivePreflightError)
      else orbind (inflate_pending D maximum c d out) (\<lambda>(d', out'). inflate D maximum cs d' out'))"

definition GZIP_MAGIC :: bytes where "GZIP_MAGIC = [31, 139]"
definition XZ_MAGIC :: bytes where "XZ_MAGIC = [253, 55, 122, 88, 90, 0]"
definition ZSTD_MAGIC :: bytes where "ZSTD_MAGIC = [40, 181, 47, 253]"
definition BZIP_MAGIC :: bytes where "BZIP_MAGIC = [66, 90, 104]"

definition decompress_tar ::
  "'g decoder \<Rightarrow> 'x decoder \<Rightarrow> pystr \<Rightarrow> bytes \<Rightarrow> int \<Rightarrow> bytes result option" where
  "decompress_tar gz xz name raw maximum =
     (if maximum < 0 then Some (Inl ArchivePreflightError)
      else if ends_with (ustr ''.tar'') name then
        Some (afail (\<not> list_ex (\<lambda>m. starts_with m raw) [GZIP_MAGIC, XZ_MAGIC, ZSTD_MAGIC, BZIP_MAGIC] \<and>
          int (length raw) \<le> maximum) (Inr raw))
      else if ends_with (ustr ''.tar.gz'') name then
        (if starts_with GZIP_MAGIC raw then inflate gz maximum (chunks raw) (d_start gz) []
         else Some (Inl ArchivePreflightError))
      else if ends_with (ustr ''.tar.xz'') name then
        (if starts_with XZ_MAGIC raw then inflate xz maximum (chunks raw) (d_start xz) []
         else Some (Inl ArchivePreflightError))
      else Some (Inl ArchivePreflightError))"

section \<open>Text fields\<close>

definition decode_utf8 :: "bytes \<Rightarrow> pystr result" where
  "decode_utf8 raw = (case utf8_decode raw of None \<Rightarrow> Inl ArchivePreflightError | Some s \<Rightarrow> Inr s)"

definition encoded_length :: "pystr \<Rightarrow> nat result" where
  "encoded_length s = (case utf8_encode s of None \<Rightarrow> Inl PyUnicodeError | Some b \<Rightarrow> Inr (length b))"

definition text_of :: "bytes \<Rightarrow> pystr result" where
  "text_of raw =
     (case find_first (\<lambda>b. b = 0) raw of
        Some i \<Rightarrow> afail (strip 0 (drop i raw) = []) (decode_utf8 (take i raw))
      | None \<Rightarrow> decode_utf8 raw)"

definition safe_text :: "unicode_db \<Rightarrow> pystr \<Rightarrow> int \<Rightarrow> unit result" where
  "safe_text U value maximum =
     afail (value \<noteq> [] \<and> nfc U value = value)
     (afail (92 \<notin> set value)
     (rbind (encoded_length value) (\<lambda>n.
      afail (int n \<le> maximum)
      (afail (list_all (\<lambda>c. 32 \<le> c \<and> \<not> other_category U c) value) (Inr ())))))"

definition header_name :: "bytes \<Rightarrow> pystr result" where
  "header_name header =
     rbind (text_of (slice 0 100 header)) (\<lambda>name.
     rbind (text_of (slice 345 500 header)) (\<lambda>prefix.
     Inr (if prefix \<noteq> [] then prefix @ 47 # name else name)))"

definition pseudo_name :: "bytes \<Rightarrow> unit result" where
  "pseudo_name header =
     rbind (header_name header) (\<lambda>value.
     afail (list_all (\<lambda>c. c < 128) value)
     (afail (value \<noteq> [] \<and> length value \<le> 255 \<and> \<not> starts_with [47] value \<and> 92 \<notin> set value)
     (let parts = filter (\<lambda>p. p \<noteq> [] \<and> p \<noteq> ustr ''.'') (split_on 47 value) in
      afail (parts \<noteq> [] \<and> ustr ''..'' \<notin> set parts \<and> list_all (\<lambda>p. length p \<le> 255) parts) (Inr ()))))"

text \<open>\<^verbatim>\<open>int(digits)\<close> refuses more than 4300 digits with a \<^verbatim>\<open>ValueError\<close>.\<close>

definition int_digits :: "bytes \<Rightarrow> nat result" where
  "int_digits ds = require (length ds \<le> 4300) (PyValueError ''digit limit'') (Inr (base_value 10 ds))"

definition pax_step :: "bytes \<Rightarrow> nat \<Rightarrow> (pystr \<times> pystr) list \<Rightarrow> (nat \<times> (pystr \<times> pystr) list) result" where
  "pax_step raw offset values =
     (case find_first (\<lambda>b. b = 32) (drop offset raw) of
        None \<Rightarrow> Inl ArchivePreflightError
      | Some space \<Rightarrow>
          afail (0 < space)
          (let length_raw = slice offset (offset + space) raw in
           afail (list_all is_digit length_raw \<and> \<not> starts_with [48] length_raw)
           (rbind (int_digits length_raw) (\<lambda>n.
            let stop = offset + n in
            afail (stop \<le> length raw \<and> slice (stop - 1) stop raw = [10])
            (let entry = slice (offset + space + 1) (stop - 1) raw in
             afail (61 \<in> set entry)
             (let key_raw = fst (split_once 61 entry); value_raw = snd (split_once 61 entry) in
              afail (list_all (\<lambda>c. c < 128) key_raw)
              (rbind (decode_utf8 value_raw) (\<lambda>value.
               afail (key_raw \<in> {ustr ''path'', ustr ''linkpath''} \<and> key_raw \<notin> fst ` set values \<and> value \<noteq> [])
               (afail (length key_raw \<le> 32 \<and> length value_raw \<le> 4096)
               (Inr (stop, values @ [(key_raw, value)]))))))))))
     )"

lemma pax_step_progress: "pax_step raw offset values = Inr (stop, values') \<Longrightarrow> offset < stop \<and> stop \<le> length raw"
proof -
  assume a: "pax_step raw offset values = Inr (stop, values')"
  then obtain space where space: "find_first (\<lambda>b. b = 32) (drop offset raw) = Some space"
    by (auto simp: pax_step_def split: option.splits)
  define ds where "ds = slice offset (offset + space) raw"
  from a space have "0 < space" "list_all is_digit ds" "\<not> starts_with [48] ds"
    and stop: "stop = offset + base_value 10 ds" "stop \<le> length raw"
    by (auto simp: pax_step_def Let_def int_digits_def ds_def)
  moreover from find_first_Some [OF space] have "length ds = space" by (simp add: ds_def)
  ultimately have "ds \<noteq> []" and "48 < hd ds"
    by (auto simp: starts_with_def is_digit_def neq_Nil_conv Suc_le_eq)
  then show ?thesis using base_value_pos [of 10 ds] stop by simp
qed

function pax_loop :: "bytes \<Rightarrow> nat \<Rightarrow> (pystr \<times> pystr) list \<Rightarrow> (pystr \<times> pystr) list result" where
  "pax_loop raw offset values =
     (if offset < length raw then
        rbind (pax_step raw offset values) (\<lambda>(stop, values'). pax_loop raw stop values')
      else afail (offset = length raw) (Inr values))"
  by pat_completeness auto

termination
  by (relation "measure (\<lambda>(raw, offset, values). length raw - offset)") (auto dest: pax_step_progress)

declare pax_loop.simps [simp del]

definition pax_records :: "bytes \<Rightarrow> (pystr \<times> pystr) list result" where
  "pax_records raw = afail (0 < length raw \<and> length raw \<le> 65536) (pax_loop raw 0 [])"

definition gnu_text :: "bytes \<Rightarrow> pystr result" where
  "gnu_text raw =
     afail (1 < length raw \<and> length raw \<le> 65536 \<and> ends_with [0] raw \<and> 0 \<notin> set (butlast raw))
     (text_of (butlast raw))"

section \<open>Raw frames\<close>

definition zero_block :: bytes where "zero_block = replicate 512 0"

record tar_header =
  th_mode :: nat
  th_uid :: nat
  th_gid :: nat
  th_size :: nat
  th_mtime :: nat
  th_kind :: nat

definition tar_header_of :: "bounds \<Rightarrow> bytes \<Rightarrow> tar_header result" where
  "tar_header_of B header =
     rbind (tar_octal (slice 148 156 header) (512 * 255)) (\<lambda>expected.
     afail (sum_list (take 148 header) + 8 * 32 + sum_list (drop 156 header) = expected)
     (afail ((slice 257 263 header, slice 263 265 header)
        \<in> {([117, 115, 116, 97, 114, 0], [48, 48]), ([117, 115, 116, 97, 114, 32], [32, 0])})
     (rbind (tar_octal (slice 100 108 header) 4095) (\<lambda>mode.
      rbind (tar_octal (slice 108 116 header) (2 ^ 31 - 1)) (\<lambda>uid.
      rbind (tar_octal (slice 116 124 header) (2 ^ 31 - 1)) (\<lambda>gid.
      rbind (tar_octal (slice 124 136 header) (max_regular_bytes B)) (\<lambda>size.
      rbind (tar_octal (slice 136 148 header) (2 ^ 63 - 1)) (\<lambda>mtime.
      Inr \<lparr>th_mode = mode, th_uid = uid, th_gid = gid, th_size = size, th_mtime = mtime,
           th_kind = (if header ! 156 = 0 then 48 else header ! 156)\<rparr>)))))))) "

record frame_state =
  fs_offset :: nat
  fs_physical :: nat
  fs_members :: "raw_member list"
  fs_pax :: "(pystr \<times> pystr) list option"
  fs_long_name :: "pystr option"
  fs_long_link :: "pystr option"
  fs_extensions :: "string list"

definition frame_init :: frame_state where
  "frame_init = \<lparr>fs_offset = 0, fs_physical = 0, fs_members = [], fs_pax = None, fs_long_name = None,
     fs_long_link = None, fs_extensions = []\<rparr>"

text \<open>The extension headers \<^verbatim>\<open>x\<close>, \<^verbatim>\<open>g\<close>, \<^verbatim>\<open>L\<close> and \<^verbatim>\<open>K\<close>.\<close>

definition is_extension :: "nat \<Rightarrow> bool" where
  "is_extension kind \<longleftrightarrow> kind \<in> {120, 103, 76, 75}"

definition extension_frame :: "bytes \<Rightarrow> tar_header \<Rightarrow> bytes \<Rightarrow> frame_state \<Rightarrow> frame_state result" where
  "extension_frame header h body st =
     rbind (pseudo_name header) (\<lambda>_.
     afail (th_size h \<le> 65536 \<and> th_kind h \<noteq> 103)
     (if th_kind h = 120 then
        afail (fs_pax st = None \<and> fs_extensions st = [])
        (rbind (pax_records body) (\<lambda>p. Inr (st\<lparr>fs_pax := Some p\<rparr>)))
      else if th_kind h = 76 then
        afail (fs_pax st = None \<and> fs_long_name st = None \<and> fs_extensions st = [])
        (rbind (gnu_text body) (\<lambda>n. Inr (st\<lparr>fs_long_name := Some n, fs_extensions := fs_extensions st @ [''L'']\<rparr>)))
      else
        afail (fs_pax st = None \<and> fs_long_link st = None \<and> fs_extensions st \<in> {[], [''L'']})
        (rbind (gnu_text body) (\<lambda>n. Inr (st\<lparr>fs_long_link := Some n, fs_extensions := fs_extensions st @ [''K'']\<rparr>)))))"

definition kind_of_flag :: "nat \<Rightarrow> entry_kind option" where
  "kind_of_flag = map_of [(48, KFile), (49, KHardlink), (50, KSymlink), (53, KDirectory)]"

text \<open>\<^verbatim>\<open>(pax or {}).get(key, default)\<close>; the default is computed before the lookup, as in Python.\<close>

definition pax_get :: "(pystr \<times> pystr) list option \<Rightarrow> string \<Rightarrow> pystr \<Rightarrow> pystr" where
  "pax_get pax key fallback = (case map_of (case pax of None \<Rightarrow> [] | Some p \<Rightarrow> p) (ustr key) of None \<Rightarrow> fallback | Some v \<Rightarrow> v)"

definition member_frame :: "bounds \<Rightarrow> bytes \<Rightarrow> tar_header \<Rightarrow> nat \<Rightarrow> frame_state \<Rightarrow> frame_state result" where
  "member_frame B header h start st =
     (case kind_of_flag (th_kind h) of
        None \<Rightarrow> Inl ArchivePreflightError
      | Some kind \<Rightarrow>
          rbind (case fs_long_name st of Some n \<Rightarrow> Inr n | None \<Rightarrow> header_name header) (\<lambda>name.
          rbind (case fs_long_link st of Some n \<Rightarrow> Inr n | None \<Rightarrow> text_of (slice 157 257 header)) (\<lambda>link.
          afail (map_of (case fs_pax st of None \<Rightarrow> [] | Some p \<Rightarrow> p) (ustr ''linkpath'') = None \<or> th_kind h \<in> {49, 50})
          (let member = \<lparr>rm_name = pax_get (fs_pax st) ''path'' name, rm_linkname = pax_get (fs_pax st) ''linkpath'' link,
             rm_kind = kind, rm_mode = th_mode h, rm_uid = th_uid h, rm_gid = th_gid h, rm_mtime = th_mtime h,
             rm_size = th_size h, rm_data_offset = start,
             rm_pax = (case fs_pax st of None \<Rightarrow> [] | Some p \<Rightarrow> p), rm_extensions = fs_extensions st\<rparr> in
           afail (int (length (fs_members st) + 1) \<le> max_entries B)
           (Inr (st\<lparr>fs_members := fs_members st @ [member], fs_pax := None, fs_long_name := None,
                   fs_long_link := None, fs_extensions := []\<rparr>))))))"

definition frame_step :: "bytes \<Rightarrow> bounds \<Rightarrow> frame_state \<Rightarrow> frame_state result" where
  "frame_step raw B st =
     (let offset = fs_offset st; st1 = st\<lparr>fs_physical := fs_physical st + 1\<rparr>;
          header = slice offset (offset + 512) raw in
      afail (int (fs_physical st1) \<le> 2 * max_entries B + 20 \<and> offset + 512 \<le> length raw)
      (rbind (tar_header_of B header) (\<lambda>h.
       let start = offset + 512; stop = start + th_size h; padded = start + ((th_size h + 511) div 512) * 512;
           st2 = st1\<lparr>fs_offset := padded\<rparr> in
       afail (stop \<le> length raw \<and> padded \<le> length raw \<and> strip 0 (slice stop padded raw) = [])
       (if is_extension (th_kind h) then extension_frame header h (slice start stop raw) st2
        else member_frame B header h start st2))))"

lemma extension_frame_offset: "extension_frame header h body st = Inr st' \<Longrightarrow> fs_offset st' = fs_offset st"
  by (auto simp: extension_frame_def split: if_splits)

lemma member_frame_offset: "member_frame B header h start st = Inr st' \<Longrightarrow> fs_offset st' = fs_offset st"
  by (auto simp: member_frame_def Let_def split: option.splits)

lemma frame_step_progress:
  "frame_step raw B st = Inr st' \<Longrightarrow> fs_offset st + 512 \<le> fs_offset st' \<and> fs_offset st' \<le> length raw"
  by (auto simp: frame_step_def Let_def split: if_splits dest!: extension_frame_offset member_frame_offset)

function frames_loop :: "bytes \<Rightarrow> bounds \<Rightarrow> frame_state \<Rightarrow> frame_state result" where
  "frames_loop raw B st =
     (if fs_offset st < length raw \<and> slice (fs_offset st) (fs_offset st + 512) raw \<noteq> zero_block
      then rbind (frame_step raw B st) (frames_loop raw B)
      else Inr st)"
  by pat_completeness auto

termination
  by (relation "measure (\<lambda>(raw, B, st). length raw - fs_offset st)") (auto dest!: frame_step_progress)

declare frames_loop.simps [simp del]

definition raw_tar_frames :: "bytes \<Rightarrow> bounds \<Rightarrow> raw_member list result" where
  "raw_tar_frames raw B =
     afail (raw \<noteq> [] \<and> length raw mod 512 = 0)
     (rbind (frames_loop raw B frame_init) (\<lambda>st.
      afail (fs_pax st = None \<and> fs_long_name st = None \<and> fs_long_link st = None \<and> fs_extensions st = [])
      (let terminal = (length raw - fs_offset st) div 512 in
       afail (2 \<le> terminal \<and> terminal \<le> 21 \<and> drop (fs_offset st) raw = concat (replicate terminal zero_block))
       (Inr (fs_members st)))))"

section \<open>Paths\<close>

definition components_fit :: "bounds \<Rightarrow> pystr list \<Rightarrow> unit result" where
  "components_fit B parts =
     check_all (\<lambda>p. rbind (encoded_length p) (\<lambda>n. afail (int n \<le> max_component_bytes B) (Inr ()))) parts"

definition plain_part :: "pystr \<Rightarrow> bool" where
  "plain_part p \<longleftrightarrow> p \<noteq> [] \<and> p \<noteq> ustr ''.'' \<and> p \<noteq> ustr ''..''"

definition strip_dot :: "pystr \<Rightarrow> pystr result" where
  "strip_dot value =
     (if starts_with (ustr ''./'') value
      then afail (\<not> starts_with (ustr ''./'') (drop 2 value)) (Inr (drop 2 value))
      else Inr value)"

definition normalize_path :: "unicode_db \<Rightarrow> bounds \<Rightarrow> pystr \<Rightarrow> entry_kind \<Rightarrow> pystr option result" where
  "normalize_path U B value kind =
     rbind (safe_text U value (max_path_bytes B)) (\<lambda>_.
     if value = ustr ''./'' then afail (kind = KDirectory) (Inr None)
     else rbind (strip_dot value) (\<lambda>value.
       afail (\<not> starts_with [47] value \<and> value \<noteq> [])
       (let value = (if kind = KDirectory \<and> ends_with [47] value then butlast value else value);
            parts = split_on 47 value in
        afail (list_all plain_part parts)
        (rbind (components_fit B parts) (\<lambda>_.
         afail (list_all (\<lambda>p. \<not> starts_with (ustr ''.wh.'') p) parts)
         (Inr (Some (join_on 47 parts))))))))"

fun resolve_parts :: "bounds \<Rightarrow> pystr list \<Rightarrow> pystr list \<Rightarrow> pystr list result" where
  "resolve_parts B [] acc = Inr acc"
| "resolve_parts B (p # ps) acc =
     afail (p \<noteq> [])
     (rbind (encoded_length p) (\<lambda>n.
      afail (int n \<le> max_component_bytes B)
      (if p = ustr ''.'' then resolve_parts B ps acc
       else if p = ustr ''..'' then afail (acc \<noteq> []) (resolve_parts B ps (butlast acc))
       else resolve_parts B ps (acc @ [p]))))"

definition normalize_symlink ::
  "unicode_db \<Rightarrow> bounds \<Rightarrow> pystr \<Rightarrow> pystr \<Rightarrow> bool \<Rightarrow> (pystr \<times> pystr) result" where
  "normalize_symlink U B path target allow_guest_absolute =
     rbind (safe_text U target (max_path_bytes B)) (\<lambda>_.
     rbind
       (if starts_with [47] target then
          afail allow_guest_absolute
          (let parts = split_on 47 (drop 1 target) in
           afail (list_all plain_part parts)
           (rbind (components_fit B parts) (\<lambda>_. Inr (join_on 47 parts))))
        else
          rbind (resolve_parts B (split_on 47 target) (butlast (split_on 47 path))) (\<lambda>parts.
          afail (parts \<noteq> []) (Inr (join_on 47 parts)))) (\<lambda>resolved.
     rbind (safe_text U resolved (max_path_bytes B)) (\<lambda>_.
     Inr (target, resolved))))"

end
