(* ===== verification/ArchiveSemantics.thy ===== *)
theory ArchiveSemantics
  imports ArchivePreflight
begin

text \<open>
  The second half of the archive preflight: the reading of \<^verbatim>\<open>tarfile\<close> is compared with the raw
  frames member by member, every member becomes an archive record and a material record, links are
  checked against the whole archive, and the entry points for image layers and Debian packages
  put the parts together.
\<close>

section \<open>Semantic records\<close>

text \<open>A \<^verbatim>\<open>TarInfo\<close>, and \<^verbatim>\<open>tarfile\<close> reading bytes: whether the archive has global pax headers, and its
  members, or \<open>None\<close> for the errors the caller turns into its own.\<close>

record tar_info =
  ti_name :: pystr
  ti_linkname :: pystr
  ti_size :: int
  ti_mode :: int
  ti_uid :: int
  ti_gid :: int
  ti_mtime :: int
  ti_pax :: "(pystr \<times> pystr) list"
  ti_sparse :: bool
  ti_kind :: "entry_kind option"

type_synonym tarfile_reader = "bytes \<Rightarrow> (bool \<times> tar_info list) option"

record archive_env =
  e_digest :: digest_fun
  e_unicode :: unicode_db
  e_tarfile :: tarfile_reader

datatype archive_profile = Package | Oci

record semantic_state =
  ss_records :: "archive_record list"
  ss_material :: "material_record list"
  ss_seen :: "pystr list"
  ss_total :: nat
  ss_control :: "bytes option"
  ss_root :: "archive_root option"

definition semantic_init :: semantic_state where
  "semantic_init = \<lparr>ss_records = [], ss_material = [], ss_seen = [], ss_total = 0, ss_control = None, ss_root = None\<rparr>"

text \<open>The member's path in both readings.\<close>

definition agreed_path :: "archive_env \<Rightarrow> bounds \<Rightarrow> raw_member \<Rightarrow> tar_info \<Rightarrow> pystr option result" where
  "agreed_path E B frame info =
     rbind (normalize_path (e_unicode E) B (rm_name frame) (rm_kind frame)) (\<lambda>raw_path.
     case raw_path of
       None \<Rightarrow> afail (ti_name info = ustr ''.'' \<or> ti_name info = ustr ''./'') (Inr None)
     | Some _ \<Rightarrow>
         rbind (normalize_path (e_unicode E) B (ti_name info) (rm_kind frame)) (\<lambda>path.
         afail (path = raw_path) (Inr path)))"

definition readings_agree :: "raw_member \<Rightarrow> tar_info \<Rightarrow> 'a result \<Rightarrow> 'a result" where
  "readings_agree frame info k =
     afail (ti_linkname info = rm_linkname frame \<and> ti_size info = int (rm_size frame))
     (afail (ti_mode info = int (rm_mode frame) \<and> ti_uid info = int (rm_uid frame) \<and>
        ti_gid info = int (rm_gid frame) \<and> ti_mtime info = int (rm_mtime frame))
     (afail (ti_pax info = rm_pax frame \<and> \<not> ti_sparse info)
     (afail (ti_kind info = Some (rm_kind frame)) k)))"

text \<open>The links and the digest of one member: link text, resolved link, hard link target, digest and
  the running total of regular bytes.\<close>

definition member_links ::
  "archive_env \<Rightarrow> bounds \<Rightarrow> archive_profile \<Rightarrow> bytes \<Rightarrow> raw_member \<Rightarrow> tar_info \<Rightarrow> pystr \<Rightarrow> nat \<Rightarrow>
   (pystr option \<times> pystr option \<times> pystr option \<times> pystr option \<times> nat) result" where
  "member_links E B profile raw frame info path regular =
     (case rm_kind frame of
        KSymlink \<Rightarrow>
          rbind (normalize_symlink (e_unicode E) B path (ti_linkname info) (profile = Oci)) (\<lambda>(text, resolved).
          Inr (Some text, Some resolved, None, None, regular))
      | KHardlink \<Rightarrow>
          rbind (normalize_path (e_unicode E) B (ti_linkname info) KFile) (\<lambda>target.
          afail (target \<noteq> None) (Inr (None, None, target, None, regular)))
      | KFile \<Rightarrow>
          afail (int (rm_size frame) \<le> max_file_bytes B)
          (afail (int (regular + rm_size frame) \<le> max_regular_bytes B)
          (Inr (None, None, None,
             Some (e_digest E (slice (rm_data_offset frame) (rm_data_offset frame + rm_size frame) raw)),
             regular + rm_size frame)))
      | KDirectory \<Rightarrow> Inr (None, None, None, None, regular))"

definition control_member :: "bool \<Rightarrow> bytes \<Rightarrow> raw_member \<Rightarrow> pystr \<Rightarrow> bytes option \<Rightarrow> bytes option result" where
  "control_member control raw frame path found =
     (if control then
        afail (rm_kind frame = KFile \<or> rm_kind frame = KDirectory)
        (if path = ustr ''control'' then
           afail (rm_kind frame = KFile \<and> found = None)
           (Inr (Some (slice (rm_data_offset frame) (rm_data_offset frame + rm_size frame) raw)))
         else Inr found)
      else Inr found)"

definition semantic_step ::
  "archive_env \<Rightarrow> bounds \<Rightarrow> bool \<Rightarrow> archive_profile \<Rightarrow> nat \<Rightarrow> bytes \<Rightarrow> raw_member \<times> tar_info \<Rightarrow>
   semantic_state \<Rightarrow> semantic_state result" where
  "semantic_step E B control profile at raw fi st =
     (let frame = fst fi; info = snd fi in
      rbind (agreed_path E B frame info) (\<lambda>agreed.
      readings_agree frame info
      (case agreed of
         None \<Rightarrow>
           afail (ss_root st = None \<and> rm_name frame = ustr ''./'' \<and> rm_pax frame = [] \<and>
             rm_extensions frame = [] \<and> rm_size frame = 0)
           (Inr (st\<lparr>ss_root := Some \<lparr>rt_kind = rm_kind frame, rt_mode = rm_mode frame, rt_uid = rm_uid frame,
              rt_gid = rm_gid frame, rt_mtime = rm_mtime frame, rt_archive_size = rm_size frame\<rparr>\<rparr>))
       | Some path \<Rightarrow>
           afail (path \<notin> set (ss_seen st))
           (afail (rm_kind frame = KFile \<or> rm_size frame = 0)
           (rbind (member_links E B profile raw frame info path (ss_total st))
              (\<lambda>(text, resolved, hard, sha, regular).
            rbind (control_member control raw frame path (ss_control st)) (\<lambda>found.
            Inr (st\<lparr>
              ss_seen := path # ss_seen st, ss_total := regular, ss_control := found,
              ss_records := ss_records st @ [\<lparr>ar_path = path, ar_kind = rm_kind frame, ar_mode = rm_mode frame,
                ar_uid = rm_uid frame, ar_gid = rm_gid frame, ar_mtime = rm_mtime frame, ar_size = rm_size frame,
                ar_link_target = (if rm_kind frame = KSymlink then resolved else hard)\<rparr>],
              ss_material := ss_material st @ [\<lparr>mr_path = path, mr_kind = rm_kind frame, mr_mode = rm_mode frame,
                mr_uid = rm_uid frame, mr_gid = rm_gid frame, mr_mtime = rm_mtime frame,
                mr_archive_size = rm_size frame, mr_link_text = text, mr_resolved_link_path = resolved,
                mr_hardlink_target = hard, mr_content_sha256 = sha,
                mr_data_offset = int (rm_data_offset frame), mr_obj = (at, length (ss_material st))\<rparr>]\<rparr>))))))))"

fun semantic_loop ::
  "archive_env \<Rightarrow> bounds \<Rightarrow> bool \<Rightarrow> archive_profile \<Rightarrow> nat \<Rightarrow> bytes \<Rightarrow> (raw_member \<times> tar_info) list \<Rightarrow>
   semantic_state \<Rightarrow> semantic_state result" where
  "semantic_loop E B control profile at raw [] st = Inr st"
| "semantic_loop E B control profile at raw (fi # rest) st =
     rbind (semantic_step E B control profile at raw fi st) (semantic_loop E B control profile at raw rest)"

text \<open>The directories above a path, outermost first: \<^verbatim>\<open>"/".join(parts[:index])\<close> for each index.\<close>

definition parents :: "pystr \<Rightarrow> pystr list" where
  "parents path = (let parts = split_on 47 path in map (\<lambda>i. join_on 47 (take i parts)) [1..<length parts])"

definition lookup_path :: "material_record list \<Rightarrow> pystr \<Rightarrow> material_record option" where
  "lookup_path rs path = find (\<lambda>r. mr_path r = path) (rev rs)"

definition link_check :: "material_record list \<Rightarrow> material_record \<Rightarrow> unit result" where
  "link_check material r =
     afail (list_all (\<lambda>p. p \<notin> mr_path ` set (filter (\<lambda>s. mr_kind s = KSymlink) material)) (parents (mr_path r)))
     (if mr_kind r = KHardlink then
        (case mr_hardlink_target r of
           None \<Rightarrow> Inl ArchivePreflightError
         | Some target \<Rightarrow>
             (case lookup_path material target of
                None \<Rightarrow> Inl ArchivePreflightError
              | Some t \<Rightarrow>
                  afail (mr_kind t = KFile)
                  (afail ((mr_mode r, mr_uid r, mr_gid r, mr_mtime r) = (mr_mode t, mr_uid t, mr_gid t, mr_mtime t))
                  (Inr ()))))
      else Inr ())"

definition semantic_tar_records ::
  "archive_env \<Rightarrow> bytes \<Rightarrow> raw_member list \<Rightarrow> bounds \<Rightarrow> bool \<Rightarrow> archive_profile \<Rightarrow> nat \<Rightarrow>
   (archive_root \<times> archive_record list \<times> bytes option \<times> material_record list) result" where
  "semantic_tar_records E raw frames B control profile at =
     (case e_tarfile E raw of
        None \<Rightarrow> Inl ArchivePreflightError
      | Some (global_pax, infos) \<Rightarrow>
          afail (\<not> global_pax)
          (afail (length infos = length frames)
          (rbind (semantic_loop E B control profile at raw (zip frames infos) semantic_init) (\<lambda>st.
           rbind (check_all (link_check (ss_material st)) (ss_material st)) (\<lambda>_.
           case ss_root st of
             None \<Rightarrow> Inl ArchivePreflightError
           | Some root \<Rightarrow>
               afail (\<not> control \<or> ss_control st \<noteq> None)
               (Inr (root, ss_records st, ss_control st, ss_material st)))))))"

definition preflight_tar :: "archive_env \<Rightarrow> bytes \<Rightarrow> bounds \<Rightarrow> bool \<Rightarrow> (archive_record list \<times> bytes option) result" where
  "preflight_tar E raw B control =
     rbind (raw_tar_frames raw B) (\<lambda>frames.
     rbind (semantic_tar_records E raw frames B control Package 0) (\<lambda>(root, records, found, material).
     Inr (records, found)))"

definition preflight_material_tar ::
  "archive_env \<Rightarrow> bytes \<Rightarrow> bounds \<Rightarrow> archive_profile \<Rightarrow> nat \<Rightarrow> preflighted_tar result" where
  "preflight_material_tar E raw B profile at =
     rbind (raw_tar_frames raw B) (\<lambda>frames.
     rbind (semantic_tar_records E raw frames B False profile at) (\<lambda>(root, records, found, material).
     Inr \<lparr>pt_raw = raw, pt_root = root, pt_records = material, pt_archive_records = records, pt_obj = at\<rparr>))"

section \<open>The control stanza\<close>

record package_row =
  row_name :: pystr
  row_version :: pystr
  row_architecture :: pystr

definition is_alnum :: "nat \<Rightarrow> bool" where
  "is_alnum c \<longleftrightarrow> 48 \<le> c \<and> c \<le> 57 \<or> 65 \<le> c \<and> c \<le> 90 \<or> 97 \<le> c \<and> c \<le> 122"

definition field_name :: "pystr \<Rightarrow> bool" where
  "field_name name \<longleftrightarrow> name \<noteq> [] \<and> is_alnum (hd name) \<and> list_all (\<lambda>c. is_alnum c \<or> c = 45) (tl name)"

text \<open>A dict assignment: an existing key keeps its place.\<close>

fun dict_set :: "'k \<Rightarrow> 'v \<Rightarrow> ('k \<times> 'v) list \<Rightarrow> ('k \<times> 'v) list" where
  "dict_set k v [] = [(k, v)]"
| "dict_set k v ((k', v') # ps) = (if k' = k then (k, v) # ps else (k', v') # dict_set k v ps)"

fun stanza_loop :: "pystr list \<Rightarrow> (pystr \<times> pystr) list \<Rightarrow> pystr option \<Rightarrow> bool \<Rightarrow> (pystr \<times> pystr) list result" where
  "stanza_loop [] found_fields latest ended = Inr found_fields"
| "stanza_loop (line # rest) found_fields latest ended =
     rbind (encoded_length line) (\<lambda>n.
     afail (n \<le> 131072)
     (if line = [] then stanza_loop rest found_fields latest True
      else
        afail (\<not> ended)
        (if hd line = 32 \<or> hd line = 9 then
           (case latest of
              None \<Rightarrow> Inl ArchivePreflightError
            | Some l \<Rightarrow> stanza_loop rest (dict_set l ((case map_of found_fields l of None \<Rightarrow> [] | Some v \<Rightarrow> v) @ 10 # tl line) found_fields) latest ended)
         else
           afail (58 \<in> set line)
           (let name = fst (split_once 58 line); value = snd (split_once 58 line) in
            afail (field_name name \<and> name \<notin> fst ` set found_fields)
            (afail (starts_with [32] value)
            (stanza_loop rest (dict_set name (drop 1 value) found_fields) (Some name) ended))))))"

definition control_stanza :: "bytes \<Rightarrow> package_row \<Rightarrow> unit result" where
  "control_stanza raw expected =
     afail (ends_with [10] raw \<and> 13 \<notin> set raw \<and> length raw \<le> 1048576)
     (rbind (decode_utf8 raw) (\<lambda>text.
      afail (list_all (\<lambda>c. c = 10 \<or> c = 9 \<or> 32 \<le> c \<and> c < 127 \<or> 160 \<le> c) text)
      (rbind (stanza_loop (str_splitlines text) [] None False) (\<lambda>found_fields.
       afail (map_of found_fields (ustr ''Package'') = Some (row_name expected) \<and>
         map_of found_fields (ustr ''Version'') = Some (row_version expected) \<and>
         map_of found_fields (ustr ''Architecture'') = Some (row_architecture expected)) (Inr ())))))"

section \<open>Entry points\<close>

definition preflight_oci_layer_bytes :: "archive_env \<Rightarrow> bytes \<Rightarrow> bounds \<Rightarrow> nat \<Rightarrow> preflighted_tar result" where
  "preflight_oci_layer_bytes E raw B at = preflight_material_tar E raw B Oci at"

definition preflight_fixed_deb ::
  "archive_env \<Rightarrow> 'g decoder \<Rightarrow> 'x decoder \<Rightarrow> bytes \<Rightarrow> package_row \<Rightarrow> bounds \<Rightarrow> nat \<Rightarrow> preflighted_deb result option" where
  "preflight_fixed_deb E gz xz raw expected B at =
     orbind (Some (ar_members raw)) (\<lambda>members.
     let identities = map (\<lambda>(name, body). (name, length body, e_digest E body)) members in
     orbind (decompress_tar gz xz (fst (members ! 1)) (snd (members ! 1)) (max_regular_bytes B)) (\<lambda>control_raw.
     orbind (Some (rbind (preflight_tar E control_raw B True) (\<lambda>(records, control).
       case control of None \<Rightarrow> Inl ArchivePreflightError | Some c \<Rightarrow> control_stanza c expected))) (\<lambda>_.
     orbind (decompress_tar gz xz (fst (members ! 2)) (snd (members ! 2)) (max_regular_bytes B)) (\<lambda>data_raw.
     Some (rbind (preflight_material_tar E data_raw B Package at) (\<lambda>payload.
       Inr \<lparr>pd_raw = raw, pd_members = identities, pd_data_member = fst (members ! 2), pd_payload = payload\<rparr>))))))"

definition preflight_deb_payload ::
  "archive_env \<Rightarrow> 'g decoder \<Rightarrow> 'x decoder \<Rightarrow> bytes \<Rightarrow> package_row \<Rightarrow> bounds \<Rightarrow> nat \<Rightarrow> preflighted_tar result option" where
  "preflight_deb_payload E gz xz raw expected B at =
     orbind (preflight_fixed_deb E gz xz raw expected B at) (\<lambda>deb. Some (Inr (pd_payload deb)))"

definition preflight_deb_bytes ::
  "archive_env \<Rightarrow> 'g decoder \<Rightarrow> 'x decoder \<Rightarrow> bytes \<Rightarrow> package_row \<Rightarrow> bounds \<Rightarrow> nat \<Rightarrow> archive_record list result option" where
  "preflight_deb_bytes E gz xz raw expected B at =
     orbind (preflight_fixed_deb E gz xz raw expected B at) (\<lambda>deb. Some (Inr (pt_archive_records (pd_payload deb))))"

end
