(* ===== verification/RootfsPlan.thy ===== *)
theory RootfsPlan
  imports ArchiveSemantics
begin

text \<open>
  The image plan: the shared model (\<^verbatim>\<open>remote/completion_rootfs_model.py\<close>) and the planner
  (\<^verbatim>\<open>remote/completion_rootfs_plan.py\<close>). \<open>plan_sources\<close> overlays the package archives on the base
  layer, \<open>apply_transitions\<close> applies checked changes, \<open>fixed_transitions\<close> computes the changes of the
  fixed image (the \<^verbatim>\<open>sshd\<close> account, the unlocked root entry, the daemon's configuration and run
  directories), and \<open>check_graph\<close> is the check both end with. A Python dict of entries is an
  association list in insertion order.
\<close>

definition pfail :: "bool \<Rightarrow> 'a result \<Rightarrow> 'a result" where
  "pfail c k = require c RootfsPlanError k"

lemma pfail_Inr [simp]: "pfail c k = Inr x \<longleftrightarrow> c \<and> k = Inr x"
  by (simp add: pfail_def)

lemma pfail_True [simp]: "pfail True k = k"
  by (simp add: pfail_def)

section \<open>The model\<close>

definition SOURCE_DATE_EPOCH :: nat where "SOURCE_DATE_EPOCH = 1782172800"

definition ROOT_POLICY :: archive_root where
  "ROOT_POLICY = \<lparr>rt_kind = KDirectory, rt_mode = 493, rt_uid = 0, rt_gid = 0,
     rt_mtime = SOURCE_DATE_EPOCH, rt_archive_size = 0\<rparr>"

record entry_identity =
  id_kind :: entry_kind
  id_mode :: nat
  id_uid :: nat
  id_gid :: nat
  id_mtime :: nat
  id_archive_size :: nat
  id_link_text :: "pystr option"
  id_resolved_link_path :: "pystr option"
  id_hardlink_target :: "pystr option"
  id_content_sha256 :: "pystr option"

record planned_entry =
  pe_source :: pystr
  pe_owner :: "preflighted_tar option"
  pe_record :: material_record
  pe_generated :: "bytes option"

definition planned_content :: "digest_fun \<Rightarrow> planned_entry \<Rightarrow> bytes result" where
  "planned_content H e =
     require (mr_kind (pe_record e) = KFile) RootfsModelError
     (case pe_generated e of
        Some c \<Rightarrow> require (length c = mr_archive_size (pe_record e)) RootfsModelError (Inr c)
      | None \<Rightarrow>
          (case pe_owner e of
             None \<Rightarrow> Inl RootfsModelError
           | Some t \<Rightarrow> tar_content H t (pe_record e)))"

datatype change = Create | Replace | Delete

record transition =
  tr_path :: pystr
  tr_action :: change
  tr_expected :: "entry_identity option"
  tr_result :: "planned_entry option"

record rootfs_plan =
  pl_root :: archive_root
  pl_source_order :: "pystr list"
  pl_entries :: "planned_entry list"
  pl_transitions :: "transition list"

section \<open>The fixed policy\<close>

definition PACKAGE_ORDER :: "pystr list" where
  "PACKAGE_ORDER = map ustr [''git'', ''openssh-server'', ''libcom-err2'', ''libgssapi-krb5-2'', ''libk5crypto3'',
     ''libkeyutils1'', ''libkrb5-3'', ''libkrb5support0'', ''libwrap0'', ''libwtmpdb0'']"

definition file_identity :: "nat \<Rightarrow> nat \<Rightarrow> nat \<Rightarrow> nat \<Rightarrow> pystr \<Rightarrow> entry_identity" where
  "file_identity mode gid mtime bytes_count digest = \<lparr>id_kind = KFile, id_mode = mode, id_uid = 0, id_gid = gid,
     id_mtime = mtime, id_archive_size = bytes_count, id_link_text = None, id_resolved_link_path = None,
     id_hardlink_target = None, id_content_sha256 = Some digest\<rparr>"

definition directory_identity :: "nat \<Rightarrow> nat \<Rightarrow> entry_identity" where
  "directory_identity mode mtime = \<lparr>id_kind = KDirectory, id_mode = mode, id_uid = 0, id_gid = 0,
     id_mtime = mtime, id_archive_size = 0, id_link_text = None, id_resolved_link_path = None,
     id_hardlink_target = None, id_content_sha256 = None\<rparr>"

definition ACCOUNT_EXPECTED :: "(pystr \<times> entry_identity) list" where
  "ACCOUNT_EXPECTED =
    [(ustr ''etc/passwd'', file_identity 420 0 SOURCE_DATE_EPOCH 839
       (ustr ''21352194cc533bc5878721507450d867d28ccb1c2f5cd773c792251fa1e63185'')),
     (ustr ''etc/group'', file_identity 420 0 SOURCE_DATE_EPOCH 434
       (ustr ''74842904631a5088b134a25257b8180367913d2b64cf1e3fed061db5fcbd8379'')),
     (ustr ''etc/shadow'', file_identity 416 42 SOURCE_DATE_EPOCH 474
       (ustr ''f2006a36b96df0ce4c9204a26fa9106337b2a4aade2d86c0003c660b3a89972d'')),
     (ustr ''etc/gshadow'', file_identity 416 42 SOURCE_DATE_EPOCH 364
       (ustr ''27d5db44cdaa830dee778f68b22a34cd9ac4b3fa84f185592bcc2952fa22ce26''))]"

definition PARENT_EXPECTED :: "(pystr \<times> entry_identity) list" where
  "PARENT_EXPECTED =
    [(ustr ''run'', directory_identity 493 SOURCE_DATE_EPOCH),
     (ustr ''etc/ssh'', directory_identity 493 1778070812),
     (ustr ''usr/sbin/nologin'', file_identity 493 0 1746831247 22912
       (ustr ''aeec170744644673ce699b98fdb517fd5c672af1322de37c4315cdd43e7f3945''))]"

definition ACCOUNT_LINES :: "(pystr \<times> bytes) list" where
  "ACCOUNT_LINES =
    [(ustr ''etc/passwd'', ustr ''sshd:x:101:101::/run/sshd:/usr/sbin/nologin'' @ [10]),
     (ustr ''etc/group'', ustr ''sshd:x:101:'' @ [10]),
     (ustr ''etc/shadow'', ustr ''sshd:!:0:0:99999:7:::'' @ [10]),
     (ustr ''etc/gshadow'', ustr ''sshd:!::'' @ [10])]"

definition ROOT_SHADOW_SOURCE :: bytes where "ROOT_SHADOW_SOURCE = ustr ''root:*:20627:0:99999:7:::''"
definition ROOT_SHADOW_PASSWORD :: bytes where "ROOT_SHADOW_PASSWORD = ustr ''x''"
definition ROOT_SHADOW_RESULT :: bytes where
  "ROOT_SHADOW_RESULT = ustr ''root:'' @ ROOT_SHADOW_PASSWORD @ ustr '':20627:0:99999:7:::''"

definition SSHD_CONFIG :: bytes where
  "SSHD_CONFIG = concat (map (\<lambda>l. ustr l @ [10])
    [''Port 22'', ''ListenAddress 192.0.2.2'', ''HostKey /run/cogs-stage2-ssh/ssh_host_ed25519_key'',
     ''PidFile /run/cogs-stage2-ssh/sshd.pid'', ''AuthorizedKeysFile /run/cogs-stage2-ssh/authorized_keys'',
     ''PermitRootLogin prohibit-password'', ''StrictModes yes'', ''PubkeyAuthentication yes'',
     ''AuthenticationMethods publickey'', ''PasswordAuthentication no'', ''KbdInteractiveAuthentication no'',
     ''PermitEmptyPasswords no'', ''UsePAM no'', ''AllowUsers root'', ''DisableForwarding yes'',
     ''AllowAgentForwarding no'', ''AllowTcpForwarding no'', ''AllowStreamLocalForwarding no'',
     ''GatewayPorts no'', ''X11Forwarding no'', ''PermitTunnel no'', ''PermitUserEnvironment no'',
     ''PermitTTY no'', ''UseDNS no'', ''MaxAuthTries 2'', ''MaxSessions 1'', ''LoginGraceTime 15'',
     ''ClientAliveInterval 0'', ''PrintMotd no'', ''PrintLastLog no''])"

section \<open>Graph and overlay\<close>

definition identity_of :: "material_record \<Rightarrow> entry_identity" where
  "identity_of r = \<lparr>id_kind = mr_kind r, id_mode = mr_mode r, id_uid = mr_uid r, id_gid = mr_gid r,
     id_mtime = mr_mtime r, id_archive_size = mr_archive_size r, id_link_text = mr_link_text r,
     id_resolved_link_path = mr_resolved_link_path r, id_hardlink_target = mr_hardlink_target r,
     id_content_sha256 = mr_content_sha256 r\<rparr>"

definition plan_path :: "pystr \<Rightarrow> pystr result" where
  "plan_path value =
     pfail (value \<noteq> [] \<and> \<not> starts_with [47] value \<and> 92 \<notin> set value)
     (pfail (list_all plain_part (split_on 47 value)) (Inr value))"

type_synonym entries = "(pystr \<times> planned_entry) list"

definition entry_map :: "rootfs_plan \<Rightarrow> entries" where
  "entry_map plan = foldl (\<lambda>m e. dict_set (mr_path (pe_record e)) e m) [] (pl_entries plan)"

definition kind_at :: "entries \<Rightarrow> pystr \<Rightarrow> entry_kind option" where
  "kind_at m p = map_option (\<lambda>e. mr_kind (pe_record e)) (map_of m p)"

definition check_entry :: "entries \<Rightarrow> pystr \<times> planned_entry \<Rightarrow> unit result" where
  "check_entry m pe =
     (let path = fst pe; r = pe_record (snd pe) in
      rbind (plan_path path) (\<lambda>_.
      pfail (mr_path r = path \<and> (mr_kind r = KFile \<or> mr_archive_size r = 0))
      (pfail ((mr_kind r = KFile) = (mr_content_sha256 r \<noteq> None))
      (pfail ((mr_kind r = KSymlink) = (mr_link_text r \<noteq> None \<and> mr_resolved_link_path r \<noteq> None))
      (pfail ((mr_kind r = KHardlink) = (mr_hardlink_target r \<noteq> None))
      (pfail (list_all (\<lambda>parent. kind_at m parent = Some KDirectory) (parents path))
      (if mr_kind r = KHardlink then
         (case mr_hardlink_target r of
            None \<Rightarrow> Inl RootfsPlanError
          | Some target \<Rightarrow>
              (case map_of m target of
                 None \<Rightarrow> Inl RootfsPlanError
               | Some t \<Rightarrow>
                   pfail (mr_kind (pe_record t) = KFile)
                   (pfail ((mr_mode r, mr_uid r, mr_gid r, mr_mtime r) =
                      (mr_mode (pe_record t), mr_uid (pe_record t), mr_gid (pe_record t), mr_mtime (pe_record t)))
                   (Inr ()))))
       else Inr ())))))))"

definition check_graph :: "entries \<Rightarrow> unit result" where
  "check_graph m = check_all (check_entry m) m"

definition valid_package_root :: "archive_root \<Rightarrow> bool" where
  "valid_package_root root \<longleftrightarrow>
     (rt_kind root, rt_mode root, rt_uid root, rt_gid root, rt_archive_size root) = (KDirectory, 493, 0, 0, 0)"

text \<open>\<^verbatim>\<open>sorted(entries, key=lambda value: value.encode("utf-8"))\<close>.\<close>

definition encode_path :: "pystr \<Rightarrow> bytes result" where
  "encode_path p = (case utf8_encode p of None \<Rightarrow> Inl PyUnicodeError | Some b \<Rightarrow> Inr b)"

definition ordered :: "entries \<Rightarrow> planned_entry list result" where
  "ordered m =
     rbind (map_result (\<lambda>(p, e). rbind (encode_path p) (\<lambda>b. Inr (b, e))) m) (\<lambda>ks.
     Inr (map snd (sort_key fst ks)))"

definition overlay_record :: "pystr \<Rightarrow> preflighted_tar \<Rightarrow> material_record \<Rightarrow> entries \<Rightarrow> entries result" where
  "overlay_record source archive r m =
     pfail (case map_of m (mr_path r) of
              None \<Rightarrow> True
            | Some current \<Rightarrow> mr_kind (pe_record current) = KDirectory \<and> mr_kind r = KDirectory)
     (Inr (dict_set (mr_path r) \<lparr>pe_source = source, pe_owner = Some archive, pe_record = r, pe_generated = None\<rparr> m))"

fun overlay_records :: "pystr \<Rightarrow> preflighted_tar \<Rightarrow> material_record list \<Rightarrow> entries \<Rightarrow> entries result" where
  "overlay_records source archive [] m = Inr m"
| "overlay_records source archive (r # rs) m =
     rbind (overlay_record source archive r m) (overlay_records source archive rs)"

definition OCI_LAYER :: pystr where "OCI_LAYER = ustr ''oci-layer''"

fun overlay :: "(pystr \<times> preflighted_tar) list \<Rightarrow> entries \<Rightarrow> entries result" where
  "overlay [] m = Inr m"
| "overlay ((source, archive) # rest) m =
     pfail (source = OCI_LAYER \<or> valid_package_root (pt_root archive))
     (rbind (overlay_records source archive (pt_records archive) m) (overlay rest))"

definition plan_sources :: "preflighted_tar \<Rightarrow> (pystr \<times> preflighted_tar) list \<Rightarrow> rootfs_plan result" where
  "plan_sources base packages =
     pfail (pt_root base = ROOT_POLICY)
     (let names = OCI_LAYER # map fst packages in
      pfail (distinct names \<and> list_all (\<lambda>n. n \<noteq> []) names)
      (rbind (overlay ((OCI_LAYER, base) # packages) []) (\<lambda>m.
       rbind (check_graph m) (\<lambda>_.
       rbind (ordered m) (\<lambda>es.
       Inr \<lparr>pl_root = pt_root base, pl_source_order = names, pl_entries = es, pl_transitions = []\<rparr>)))))"

section \<open>Transitions\<close>

definition transition_check :: "transition \<Rightarrow> planned_entry option \<Rightarrow> bool" where
  "transition_check tr current =
     (case tr_action tr of
        Create \<Rightarrow> current = None \<and> tr_expected tr = None \<and> tr_result tr \<noteq> None
      | act \<Rightarrow>
          (case current of
             None \<Rightarrow> False
           | Some c \<Rightarrow> tr_expected tr = Some (identity_of (pe_record c)) \<and> (act = Replace) = (tr_result tr \<noteq> None)))"

definition apply_one :: "digest_fun \<Rightarrow> transition \<Rightarrow> entries \<Rightarrow> entries result" where
  "apply_one H tr m =
     pfail (transition_check tr (map_of m (tr_path tr)))
     (case tr_result tr of
        None \<Rightarrow> Inr (filter (\<lambda>(p, e). p \<noteq> tr_path tr) m)
      | Some e \<Rightarrow>
          pfail (mr_path (pe_record e) = tr_path tr)
          (rbind (if mr_kind (pe_record e) = KFile
                  then rbind (planned_content H e) (\<lambda>content.
                    pfail (Some (H content) = mr_content_sha256 (pe_record e)) (Inr ()))
                  else Inr ()) (\<lambda>_.
           Inr (dict_set (tr_path tr) e m))))"

fun apply_all :: "digest_fun \<Rightarrow> transition list \<Rightarrow> pystr list \<Rightarrow> entries \<Rightarrow> entries result" where
  "apply_all H [] seen m = Inr m"
| "apply_all H (tr # trs) seen m =
     rbind (plan_path (tr_path tr)) (\<lambda>path.
     pfail (path \<notin> set seen)
     (rbind (apply_one H tr m) (apply_all H trs (path # seen))))"

definition apply_transitions :: "digest_fun \<Rightarrow> rootfs_plan \<Rightarrow> transition list \<Rightarrow> rootfs_plan result" where
  "apply_transitions H source_plan transitions =
     rbind (apply_all H transitions [] (entry_map source_plan)) (\<lambda>m.
     rbind (check_graph m) (\<lambda>_.
     rbind (ordered m) (\<lambda>es.
     Inr \<lparr>pl_root = pl_root source_plan, pl_source_order = pl_source_order source_plan, pl_entries = es,
          pl_transitions = transitions\<rparr>)))"

definition generated_file :: "digest_fun \<Rightarrow> pystr \<Rightarrow> bytes \<Rightarrow> nat \<Rightarrow> nat \<Rightarrow> planned_entry" where
  "generated_file H path content mode gid =
     \<lparr>pe_source = ustr ''generated'', pe_owner = None,
      pe_record = \<lparr>mr_path = path, mr_kind = KFile, mr_mode = mode, mr_uid = 0, mr_gid = gid,
        mr_mtime = SOURCE_DATE_EPOCH, mr_archive_size = length content, mr_link_text = None,
        mr_resolved_link_path = None, mr_hardlink_target = None, mr_content_sha256 = Some (H content),
        mr_data_offset = - 1, mr_obj = (0, 0)\<rparr>,
      pe_generated = Some content\<rparr>"

definition generated_directory :: "pystr \<Rightarrow> nat \<Rightarrow> planned_entry" where
  "generated_directory path mode =
     \<lparr>pe_source = ustr ''generated'', pe_owner = None,
      pe_record = \<lparr>mr_path = path, mr_kind = KDirectory, mr_mode = mode, mr_uid = 0, mr_gid = 0,
        mr_mtime = SOURCE_DATE_EPOCH, mr_archive_size = 0, mr_link_text = None,
        mr_resolved_link_path = None, mr_hardlink_target = None, mr_content_sha256 = None,
        mr_data_offset = - 1, mr_obj = (0, 0)\<rparr>,
      pe_generated = None\<rparr>"

section \<open>The fixed transitions\<close>

definition one_root_line :: "bytes list \<Rightarrow> bool" where
  "one_root_line ls \<longleftrightarrow> length (filter (starts_with (ustr ''root:'')) ls) = 1"

definition require_account :: "digest_fun \<Rightarrow> entries \<Rightarrow> pystr \<times> entry_identity \<Rightarrow> unit result" where
  "require_account H m pe =
     (let path = fst pe; expected = snd pe in
      case map_of m path of
        None \<Rightarrow> Inl PyKeyError
      | Some e \<Rightarrow>
          rbind (planned_content H e) (\<lambda>raw.
          pfail (ends_with [10] raw \<and> Some (H raw) = id_content_sha256 expected)
          (case utf8_decode raw of
             None \<Rightarrow> Inl PyUnicodeError
           | Some text \<Rightarrow>
               let rows = map (split_on 58) (str_splitlines text) in
               pfail (list_all (\<lambda>line. line \<noteq> []) (str_splitlines text) \<and> list_all (\<lambda>parts. 3 \<le> length parts) rows)
               (pfail (list_all (\<lambda>parts. hd parts \<noteq> ustr ''sshd'') rows)
               (pfail (path \<notin> {ustr ''etc/passwd'', ustr ''etc/group''} \<or> list_all (\<lambda>parts. parts ! 2 \<noteq> ustr ''101'') rows)
               (if path = ustr ''etc/shadow'' then
                  (case bytes_splitlines raw of
                     [] \<Rightarrow> Inl PyIndexError
                   | l # ls \<Rightarrow> pfail (l = ROOT_SHADOW_SOURCE) (pfail (one_root_line (l # ls)) (Inr ())))
                else Inr ()))))))"

definition require_accounts :: "digest_fun \<Rightarrow> rootfs_plan \<Rightarrow> unit result" where
  "require_accounts H plan =
     (let m = entry_map plan in
      rbind (check_all (\<lambda>(path, expected).
          pfail (map_option (\<lambda>e. identity_of (pe_record e)) (map_of m path) = Some expected) (Inr ()))
        (ACCOUNT_EXPECTED @ PARENT_EXPECTED)) (\<lambda>_.
      check_all (require_account H m) ACCOUNT_EXPECTED))"

definition account_result :: "pystr \<Rightarrow> bytes \<Rightarrow> bytes result" where
  "account_result path raw =
     (case map_of ACCOUNT_LINES path of
        None \<Rightarrow> Inl RootfsPlanError
      | Some line \<Rightarrow>
          pfail (ends_with [10] raw)
          (rbind
            (if path = ustr ''etc/shadow'' then
               (case bytes_splitlines raw of
                  [] \<Rightarrow> Inl RootfsPlanError
                | l # ls \<Rightarrow>
                    pfail (l = ROOT_SHADOW_SOURCE)
                    (pfail (one_root_line (l # ls))
                    (pfail (ROOT_SHADOW_PASSWORD \<noteq> [] \<and> hd ROOT_SHADOW_PASSWORD \<notin> {33, 42})
                    (Inr (join_on 10 (ROOT_SHADOW_RESULT # ls) @ [10])))))
             else Inr raw) (\<lambda>raw'.
           Inr (raw' @ line))))"

definition account_transition :: "digest_fun \<Rightarrow> entries \<Rightarrow> pystr \<times> entry_identity \<Rightarrow> transition result" where
  "account_transition H m pe =
     (let path = fst pe; expected = snd pe in
      case map_of m path of
        None \<Rightarrow> Inl PyKeyError
      | Some e \<Rightarrow>
          rbind (planned_content H e) (\<lambda>raw.
          rbind (account_result path raw) (\<lambda>content.
          Inr \<lparr>tr_path = path, tr_action = Replace, tr_expected = Some expected,
               tr_result = Some (generated_file H path content (mr_mode (pe_record e)) (mr_gid (pe_record e)))\<rparr>)))"

definition created_transitions :: "digest_fun \<Rightarrow> transition list" where
  "created_transitions H =
     [\<lparr>tr_path = ustr ''etc/ssh/sshd_config'', tr_action = Create, tr_expected = None,
        tr_result = Some (generated_file H (ustr ''etc/ssh/sshd_config'') SSHD_CONFIG 384 0)\<rparr>,
      \<lparr>tr_path = ustr ''run/cogs-stage2-ssh'', tr_action = Create, tr_expected = None,
        tr_result = Some (generated_directory (ustr ''run/cogs-stage2-ssh'') 448)\<rparr>,
      \<lparr>tr_path = ustr ''run/sshd'', tr_action = Create, tr_expected = None,
        tr_result = Some (generated_directory (ustr ''run/sshd'') 493)\<rparr>]"

text \<open>All paths sorted here are ASCII, so they are their own UTF-8 encoding.\<close>

definition fixed_transitions :: "digest_fun \<Rightarrow> rootfs_plan \<Rightarrow> transition list result" where
  "fixed_transitions H source_plan =
     rbind (require_accounts H source_plan) (\<lambda>_.
     let m = entry_map source_plan in
     pfail (list_all (\<lambda>p. map_of m (ustr p) = None) [''etc/ssh/sshd_config'', ''run/sshd'', ''run/cogs-stage2-ssh''])
     (rbind (map_result (account_transition H m) (sort_key fst ACCOUNT_EXPECTED)) (\<lambda>accounts.
      Inr (sort_key tr_path (accounts @ created_transitions H)))))"

section \<open>Summary\<close>

definition plan_summary :: "rootfs_plan \<Rightarrow> json" where
  "plan_summary plan =
     (let count = (\<lambda>k. JInt (int (length (filter (\<lambda>e. mr_kind (pe_record e) = k) (pl_entries plan))))) in
      JObj [(ustr ''version'', JStr (ustr ''cogs.stage2-completion-rootfs-plan/v1'')), (ustr ''result'', JStr (ustr ''pass'')),
        (ustr ''source_count'', JInt (int (length (pl_source_order plan)))),
        (ustr ''entry_count'', JInt (int (length (pl_entries plan)))),
        (ustr ''transition_count'', JInt (int (length (pl_transitions plan)))),
        (ustr ''kinds'', JObj [(ustr ''file'', count KFile), (ustr ''directory'', count KDirectory),
           (ustr ''symlink'', count KSymlink), (ustr ''hardlink'', count KHardlink)])])"

end
