(* ===== verification/RootfsCanonical.thy ===== *)
theory RootfsCanonical
  imports RootfsPlan Effects "HOL-Library.Product_Lexorder"
begin

text \<open>
  The canonical form of a planned image (\<^verbatim>\<open>remote/completion_rootfs_canonical.py\<close>): the logical
  manifest in JSON and the ustar stream with its headers, entry order and short-write loop. What
  the stream reads through \<^verbatim>\<open>completion_rootfs_fs\<close> (the regular files of the held root), the cancel
  checks and the counts returned by \<^verbatim>\<open>os.write\<close> are parameters, numbered by the calls made so far.
\<close>

definition cfail :: "bool \<Rightarrow> 'a result \<Rightarrow> 'a result" where
  "cfail c k = require c CanonicalError k"

lemma cfail_Inr [simp]: "cfail c k = Inr x \<longleftrightarrow> c \<and> k = Inr x"
  by (simp add: cfail_def)

lemma cfail_True [simp]: "cfail True k = k"
  by (simp add: cfail_def)

section \<open>The manifest\<close>

fun kind_name :: "entry_kind \<Rightarrow> string" where
  "kind_name KFile = ''file''"
| "kind_name KHardlink = ''hardlink''"
| "kind_name KSymlink = ''symlink''"
| "kind_name KDirectory = ''directory''"

definition jopt :: "pystr option \<Rightarrow> json" where
  "jopt x = (case x of None \<Rightarrow> JNull | Some s \<Rightarrow> JStr s)"

definition jnat :: "nat \<Rightarrow> json" where
  "jnat n = JInt (int n)"

definition root_value :: "archive_root \<Rightarrow> json" where
  "root_value root = JObj
     [(ustr ''kind'', JStr (ustr (kind_name (rt_kind root)))), (ustr ''mode'', jnat (rt_mode root)),
      (ustr ''uid'', jnat (rt_uid root)), (ustr ''gid'', jnat (rt_gid root)), (ustr ''mtime'', jnat (rt_mtime root)),
      (ustr ''archive_size'', jnat (rt_archive_size root))]"

definition entry_value :: "planned_entry \<Rightarrow> json" where
  "entry_value e = (let r = pe_record e in JObj
     [(ustr ''path'', JStr (mr_path r)), (ustr ''kind'', JStr (ustr (kind_name (mr_kind r)))),
      (ustr ''mode'', jnat (mr_mode r)), (ustr ''uid'', jnat (mr_uid r)), (ustr ''gid'', jnat (mr_gid r)),
      (ustr ''mtime'', jnat (mr_mtime r)), (ustr ''archive_size'', jnat (mr_archive_size r)),
      (ustr ''content_sha256'', jopt (mr_content_sha256 r)), (ustr ''link_text'', jopt (mr_link_text r)),
      (ustr ''hardlink_target'', jopt (mr_hardlink_target r))])"

definition manifest_value :: "rootfs_plan \<Rightarrow> json" where
  "manifest_value plan = JObj
     [(ustr ''version'', JStr (ustr ''cogs.stage2-rootfs-canonical/v1'')), (ustr ''root'', root_value (pl_root plan)),
      (ustr ''entries'', JArr (map entry_value (pl_entries plan)))]"

text \<open>
  The defaults of \<^verbatim>\<open>json.loads\<close>: of two members with one key the last stays, in the place of the
  first; integers have at most 4300 digits. The manifest has no other numbers, so the value a
  float would be is left out.
\<close>

definition default_hooks :: hooks where
  "default_hooks = \<lparr>
     object_pairs_hook = (\<lambda>ps. Inr (JObj (foldl (\<lambda>m (k, v). dict_set k v m) [] ps))),
     parse_int = (\<lambda>text. require (length (if starts 45 text then tl text else text) \<le> 4300)
       (PyValueError ''Exceeds the limit for integer string conversion'') (Inr (JInt (int_of_text text)))),
     parse_float = (\<lambda>text. Inl (PyValueError ''float'')),
     parse_constant = (\<lambda>text. Inl (PyValueError ''float''))\<rparr>"

definition plan_paths :: "rootfs_plan \<Rightarrow> pystr list" where
  "plan_paths plan = map (\<lambda>e. mr_path (pe_record e)) (pl_entries plan)"

definition manifest :: "rootfs_plan \<Rightarrow> bytes result" where
  "manifest plan =
     rbind (map_result encode_path (plan_paths plan)) (\<lambda>keys.
     cfail (plan_paths plan = map snd (sort_key fst (zip keys (plan_paths plan))))
     (cfail (distinct (plan_paths plan))
     (case utf8_encode (print_json (manifest_value plan)) of
        None \<Rightarrow> Inl CanonicalError
      | Some text \<Rightarrow>
          (case utf8_decode (text @ [10]) of
             None \<Rightarrow> Inl PyUnicodeError
           | Some s \<Rightarrow>
               rbind (json_loads default_hooks s) (\<lambda>v. cfail (v = manifest_value plan) (Inr (text @ [10])))))))"

section \<open>Headers\<close>

definition octal_field :: "nat \<Rightarrow> nat \<Rightarrow> bytes result" where
  "octal_field value width =
     (let digits = octal_digits value in
      cfail (length digits < width) (Inr (rjust (width - 1) 48 digits @ [0])))"

definition tar_name :: "pystr \<Rightarrow> (bytes \<times> bytes) result" where
  "tar_name value =
     rbind (encode_path value) (\<lambda>raw.
     cfail (raw \<noteq> [] \<and> \<not> starts_with [47] raw \<and> length raw \<le> 255)
     (if length raw \<le> 100 then Inr (raw, [])
      else
        (let choices = filter (\<lambda>i. raw ! i = 47 \<and> i \<le> 155 \<and> length raw - i - 1 \<le> 100) [0..<length raw] in
         cfail (choices \<noteq> [])
         (let split = last choices in Inr (drop (split + 1) raw, take split raw)))))"

text \<open>The owner, mode and time a header takes from its record, and \<^verbatim>\<open>header[at : at + len(field)] = field\<close>.\<close>

record tar_fields =
  tf_mode :: nat
  tf_uid :: nat
  tf_gid :: nat
  tf_mtime :: nat

definition root_fields :: "archive_root \<Rightarrow> tar_fields" where
  "root_fields r = \<lparr>tf_mode = rt_mode r, tf_uid = rt_uid r, tf_gid = rt_gid r, tf_mtime = rt_mtime r\<rparr>"

definition record_fields :: "material_record \<Rightarrow> tar_fields" where
  "record_fields r = \<lparr>tf_mode = mr_mode r, tf_uid = mr_uid r, tf_gid = mr_gid r, tf_mtime = mr_mtime r\<rparr>"

definition put :: "nat \<Rightarrow> bytes \<Rightarrow> bytes \<Rightarrow> bytes" where
  "put at field header = take at header @ field @ drop (at + length field) header"

definition checksum_field :: "nat \<Rightarrow> bytes" where
  "checksum_field checksum = rjust 6 48 (octal_digits checksum) @ [0, 32]"

text \<open>The block before its checksum is known, the checksum field filled with spaces.\<close>

definition blank_header ::
  "bytes \<Rightarrow> bytes \<Rightarrow> bytes \<Rightarrow> bytes \<Rightarrow> bytes \<Rightarrow> bytes \<Rightarrow> bytes \<Rightarrow> bytes \<Rightarrow> nat \<Rightarrow> bytes \<Rightarrow> bytes" where
  "blank_header name_field prefix mode uid gid bsize mtime zero typeflag linkname =
     put 345 prefix (put 337 zero (put 329 zero (put 263 [48, 48] (put 257 [117, 115, 116, 97, 114, 0]
       (put 157 linkname (put 156 [typeflag] (put 148 (replicate 8 32) (put 136 mtime (put 124 bsize
       (put 116 gid (put 108 uid (put 100 mode (put 0 name_field (replicate 512 0))))))))))))))"

definition header :: "pystr \<Rightarrow> tar_fields \<Rightarrow> nat \<Rightarrow> nat \<Rightarrow> bytes \<Rightarrow> bytes result" where
  "header name f typeflag body_size linkname =
     rbind (tar_name name) (\<lambda>(name_field, prefix).
     cfail (length linkname \<le> 100)
     (rbind (octal_field (tf_mode f) 8) (\<lambda>mode.
      rbind (octal_field (tf_uid f) 8) (\<lambda>uid.
      rbind (octal_field (tf_gid f) 8) (\<lambda>gid.
      rbind (octal_field body_size 12) (\<lambda>bsize.
      rbind (octal_field (tf_mtime f) 12) (\<lambda>mtime.
      rbind (octal_field 0 8) (\<lambda>zero.
      let h = blank_header name_field prefix mode uid gid bsize mtime zero typeflag linkname; checksum = sum_list h in
      cfail (checksum < 8 ^ 6) (Inr (put 148 (checksum_field checksum) h))))))))))"

section \<open>The stream\<close>

definition slashes :: "pystr \<Rightarrow> nat" where
  "slashes p = length (filter (\<lambda>c. c = 47) p)"

definition keyed :: "entry_kind \<Rightarrow> planned_entry list \<Rightarrow> ((nat \<times> bytes) \<times> planned_entry) list result" where
  "keyed k es =
     map_result (\<lambda>e. rbind (encode_path (mr_path (pe_record e))) (\<lambda>b.
         Inr ((if k = KDirectory then slashes (mr_path (pe_record e)) else 0, b), e)))
       (filter (\<lambda>e. mr_kind (pe_record e) = k) es)"

definition ordered_entries :: "rootfs_plan \<Rightarrow> planned_entry list result" where
  "ordered_entries plan =
     rbind (keyed KDirectory (pl_entries plan)) (\<lambda>ds.
     rbind (keyed KFile (pl_entries plan)) (\<lambda>fs.
     rbind (keyed KSymlink (pl_entries plan)) (\<lambda>ss.
     rbind (keyed KHardlink (pl_entries plan)) (\<lambda>hs.
     Inr (map snd (sort_key fst ds @ sort_key fst fs @ sort_key fst ss @ sort_key fst hs))))))"

record ustar_env =
  ue_check :: "nat \<Rightarrow> unit result"
  ue_write :: "nat \<Rightarrow> bytes \<Rightarrow> int result"
  ue_read :: "pystr \<Rightarrow> nat \<Rightarrow> bytes result"

record ustar_state =
  us_written :: bytes
  us_calls :: nat

text \<open>The calls with an outcome of their own, counted; \<open>emit_write\<close> is \<^verbatim>\<open>os.write\<close> on the descriptor,
  which takes as many bytes as it says.\<close>

definition emit_check :: "ustar_env \<Rightarrow> (ustar_state, unit) eff" where
  "emit_check U = (\<lambda>s. (ue_check U (us_calls s), s\<lparr>us_calls := us_calls s + 1\<rparr>))"

definition emit_write :: "ustar_env \<Rightarrow> bytes \<Rightarrow> (ustar_state, int) eff" where
  "emit_write U raw = (\<lambda>s. case ue_write U (us_calls s) raw of
     Inl e \<Rightarrow> (Inl e, s\<lparr>us_calls := us_calls s + 1\<rparr>)
   | Inr taken \<Rightarrow> (Inr taken, s\<lparr>us_calls := us_calls s + 1, us_written := us_written s @ take (nat taken) raw\<rparr>))"

definition emit_part :: "ustar_env \<Rightarrow> bytes \<Rightarrow> (ustar_state, nat) eff" where
  "emit_part U raw =
     ebind (emit_check U) (\<lambda>_.
     ebind (emit_write U raw) (\<lambda>taken.
     ebind (emit_check U) (\<lambda>_.
     ebind (guard (0 < taken \<and> taken \<le> int (length raw)) CanonicalError) (\<lambda>_.
     ret (nat taken)))))"

lemma emit_part_progress: "emit_part U raw s = (Inr n, t) \<Longrightarrow> 0 < n \<and> n \<le> length raw"
  by (auto simp: emit_part_def ebind_Inr)

function emit_all :: "ustar_env \<Rightarrow> bytes \<Rightarrow> ustar_state \<Rightarrow> unit result \<times> ustar_state" where
  "emit_all U raw s =
     (if raw = [] then (Inr (), s)
      else (case emit_part U raw s of
         (Inl e, t) \<Rightarrow> (Inl e, t)
       | (Inr n, t) \<Rightarrow> emit_all U (drop n raw) t))"
  by pat_completeness auto

termination
  by (relation "measure (\<lambda>(U, raw, s). length raw)") (auto dest!: emit_part_progress [OF sym])

declare emit_all.simps [simp del]

definition padding :: "bytes \<Rightarrow> bytes" where
  "padding raw = replicate ((512 - length raw mod 512) mod 512) 0"

text \<open>A file's body goes out in chunks of one mebibyte.\<close>

fun emit_chunks :: "ustar_env \<Rightarrow> bytes list \<Rightarrow> (ustar_state, unit) eff" where
  "emit_chunks U [] = ret ()"
| "emit_chunks U (c # cs) = ebind (emit_all U c) (\<lambda>_. emit_chunks U cs)"

definition emit_header ::
  "ustar_env \<Rightarrow> pystr \<Rightarrow> tar_fields \<Rightarrow> nat \<Rightarrow> nat \<Rightarrow> bytes \<Rightarrow> (ustar_state, unit) eff" where
  "emit_header U name f typeflag body_size linkname =
     ebind (lift (header name f typeflag body_size linkname)) (emit_all U)"

definition parent_of :: "pystr \<Rightarrow> pystr" where
  "parent_of path = join_on 47 (butlast (split_on 47 path))"

text \<open>\<^verbatim>\<open>os.fsencode\<close> of a link text: UTF-8, with lone low surrogates standing for raw bytes.\<close>

definition fsencode :: "pystr \<Rightarrow> bytes result" where
  "fsencode s =
     (if list_all (\<lambda>c. is_scalar c \<or> 56448 \<le> c \<and> c \<le> 56575) s
      then Inr (concat (map (\<lambda>c. if is_scalar c then utf8_char c else [c - 56320]) s))
      else Inl PyUnicodeError)"

definition emit_entry :: "digest_fun \<Rightarrow> ustar_env \<Rightarrow> pystr list \<Rightarrow> planned_entry \<Rightarrow> (ustar_state, unit) eff" where
  "emit_entry H U emitted e =
     (let r = pe_record e; path = mr_path r; f = record_fields r in
      ebind (guard (parent_of path = [] \<or> parent_of path \<in> set emitted) CanonicalError) (\<lambda>_.
      case mr_kind r of
        KDirectory \<Rightarrow> emit_header U (path @ [47]) f 53 0 []
      | KFile \<Rightarrow>
          ebind (lift (ue_read U path (mr_archive_size r))) (\<lambda>raw.
          ebind (guard (Some (H raw) = mr_content_sha256 r) CanonicalError) (\<lambda>_.
          ebind (emit_header U path f 48 (length raw) []) (\<lambda>_.
          ebind (emit_chunks U (chunks raw)) (\<lambda>_.
          emit_all U (padding raw)))))
      | KSymlink \<Rightarrow>
          (case mr_link_text r of
             None \<Rightarrow> raise (PyTypeError ''expected str, bytes or os.PathLike object, not NoneType'')
           | Some text \<Rightarrow> ebind (lift (fsencode text)) (emit_header U path f 50 0))
      | KHardlink \<Rightarrow>
          (case mr_hardlink_target r of
             None \<Rightarrow> raise CanonicalError
           | Some target \<Rightarrow>
               ebind (guard (target \<in> set emitted) CanonicalError) (\<lambda>_.
               ebind (lift (encode_path target)) (emit_header U path f 49 0)))))"

fun emit_entries :: "digest_fun \<Rightarrow> ustar_env \<Rightarrow> pystr list \<Rightarrow> planned_entry list \<Rightarrow> (ustar_state, pystr list) eff" where
  "emit_entries H U emitted [] = ret emitted"
| "emit_entries H U emitted (e # es) =
     ebind (emit_entry H U emitted e) (\<lambda>_. emit_entries H U (mr_path (pe_record e) # emitted) es)"

definition write_ustar :: "digest_fun \<Rightarrow> ustar_env \<Rightarrow> rootfs_plan \<Rightarrow> (ustar_state, pystr \<times> nat) eff" where
  "write_ustar H U plan =
     ebind (modify (\<lambda>s. s\<lparr>us_written := []\<rparr>)) (\<lambda>_.
     ebind (emit_header U (ustr ''./'') (root_fields (pl_root plan)) 53 0 []) (\<lambda>_.
     ebind (lift (ordered_entries plan)) (\<lambda>es.
     ebind (emit_entries H U [] es) (\<lambda>emitted.
     ebind (guard (card (set emitted) = length (pl_entries plan)) CanonicalError) (\<lambda>_.
     ebind (emit_all U (replicate 1024 0)) (\<lambda>_.
     ebind (gets (\<lambda>s. length (us_written s))) (\<lambda>taken.
     ebind (guard (taken mod 512 = 0) CanonicalError) (\<lambda>_.
     gets (\<lambda>s. (H (us_written s), taken))))))))))"

record canonical_metadata =
  cm_manifest :: bytes
  cm_manifest_sha256 :: pystr
  cm_ustar_sha256 :: pystr
  cm_ustar_size :: nat
  cm_entry_count :: nat

definition canonical_metadata_of :: "digest_fun \<Rightarrow> ustar_env \<Rightarrow> rootfs_plan \<Rightarrow> (ustar_state, canonical_metadata) eff" where
  "canonical_metadata_of H U plan =
     ebind (lift (manifest plan)) (\<lambda>m.
     ebind (write_ustar H U plan) (\<lambda>(sha, taken).
     ret \<lparr>cm_manifest = m, cm_manifest_sha256 = H m, cm_ustar_sha256 = sha, cm_ustar_size = taken,
          cm_entry_count = length (pl_entries plan)\<rparr>))"

end
