(* ===== verification/UstarHeaders.thy ===== *)
theory UstarHeaders
  imports RootfsCanonical
begin

text \<open>
  A header written by \<^verbatim>\<open>completion_rootfs_canonical\<close> is read back by \<^verbatim>\<open>completion_archive_preflight\<close>:
  octal fields, checksum, name and prefix, link name. \<open>header_read\<close> and \<open>header_name_read\<close> are the
  two results; the stream of headers and bodies builds on them.
\<close>

section \<open>Octal fields\<close>

lemma octal_digits_bound: "n < 8 ^ length (octal_digits n)"
proof (induction n rule: octal_digits.induct)
  case (1 n)
  show ?case
  proof (cases "n < 8")
    case True
    then show ?thesis by (subst octal_digits.simps) simp
  next
    case False
    then have "n div 8 < 8 ^ length (octal_digits (n div 8))" using 1 by simp
    then have "n < 8 * 8 ^ length (octal_digits (n div 8))" by simp
    with False show ?thesis using octal_digits.simps [of n] by simp
  qed
qed

lemma octal_digits_length: "n < 8 ^ k \<Longrightarrow> 0 < k \<Longrightarrow> length (octal_digits n) \<le> k"
proof (induction n arbitrary: k rule: octal_digits.induct)
  case (1 n)
  show ?case
  proof (cases "n < 8")
    case True
    then show ?thesis using "1.prems" by (subst octal_digits.simps) simp
  next
    case False
    then obtain m where k: "k = Suc m" "0 < m" using "1.prems" by (cases k) (auto, cases "k - 1", auto)
    with "1.prems" have "n div 8 < 8 ^ m" by (simp add: less_mult_imp_div_less mult.commute)
    with 1 False k have "length (octal_digits (n div 8)) \<le> m" by simp
    with False k show ?thesis by (subst octal_digits.simps) simp
  qed
qed

lemma octal_not_end: "list_all is_octal xs \<Longrightarrow> find_first (\<lambda>b. b = 0 \<or> b = 32) xs = None"
  by (auto simp: find_first_None list_all_iff is_octal_def)

lemma tar_octal_read:
  assumes "list_all is_octal ds" and "ds \<noteq> []" and "ends \<noteq> []" and "list_all (\<lambda>b. b = 0 \<or> b = 32) ends"
    and "int (base_value 8 ds) \<le> maximum"
  shows "tar_octal (ds @ ends) maximum = Inr (base_value 8 ds)"
proof -
  have "find_first (\<lambda>b. b = 0 \<or> b = 32) (ds @ ends) = Some (length ds)"
    using assms by (cases ends) (auto simp: find_first_append octal_not_end)
  with assms show ?thesis by (simp add: tar_octal_def)
qed

lemma rjust_octal: "list_all is_octal (rjust w 48 (octal_digits v))" "base_value 8 (rjust w 48 (octal_digits v)) = v"
  "rjust w 48 (octal_digits v) \<noteq> []"
  using octal_digits_ok [of v] by (auto simp: rjust_def list_all_iff is_octal_def)

lemma octal_field_read:
  assumes "octal_field v w = Inr f" and "int v \<le> maximum"
  shows "tar_octal f maximum = Inr v"
  using assms tar_octal_read [of "rjust (w - 1) 48 (octal_digits v)" "[0]" maximum]
  by (auto simp: octal_field_def Let_def rjust_octal)

lemma octal_field_length: "octal_field v w = Inr f \<Longrightarrow> length f = w"
  by (auto simp: octal_field_def Let_def rjust_def)

lemma octal_field_bound: "octal_field v (Suc w) = Inr f \<Longrightarrow> v < 8 ^ w"
proof -
  assume "octal_field v (Suc w) = Inr f"
  then have "length (octal_digits v) \<le> w" by (auto simp: octal_field_def Let_def)
  then have "(8::nat) ^ length (octal_digits v) \<le> 8 ^ w" by (intro power_increasing) auto
  with octal_digits_bound [of v] show ?thesis by (rule less_le_trans)
qed

lemma is_octal_byte: "list_all is_octal xs \<Longrightarrow> is_bytes xs"
  by (auto simp: list_all_iff is_octal_def is_bytes_def)

lemma octal_field_bytes: "octal_field v w = Inr f \<Longrightarrow> is_bytes f"
  using is_octal_byte [OF rjust_octal(1) [of "w - 1" v]] by (auto simp: octal_field_def Let_def is_bytes_def)

lemma checksum_field_length: "c < 8 ^ 6 \<Longrightarrow> length (checksum_field c) = 8"
  using octal_digits_length [of c 6] by (simp add: checksum_field_def rjust_def)

lemma checksum_field_read: "int c \<le> maximum \<Longrightarrow> tar_octal (checksum_field c) maximum = Inr c"
  using tar_octal_read [of "rjust 6 48 (octal_digits c)" "[0, 32]" maximum]
  by (simp add: checksum_field_def rjust_octal)

section \<open>Writing into a block\<close>

text \<open>All writes go into one block of 512 bytes, and no write leaves it.\<close>

lemma length_put: "length h = 512 \<Longrightarrow> at + length f \<le> 512 \<Longrightarrow> length (put at f h) = 512"
  by (simp add: put_def)

lemma slice_put_before: "length h = 512 \<Longrightarrow> b \<le> at \<Longrightarrow> at \<le> 512 \<Longrightarrow> slice a b (put at f h) = slice a b h"
  by (simp add: put_def slice_def take_drop min_def)

lemma slice_put_after: "length h = 512 \<Longrightarrow> at + length f \<le> a \<Longrightarrow> at \<le> 512 \<Longrightarrow> slice a b (put at f h) = slice a b h"
  by (simp add: put_def slice_def min_def)

lemma slice_put_at:
  "length h = 512 \<Longrightarrow> at + length f \<le> b \<Longrightarrow> at \<le> 512 \<Longrightarrow> slice at b (put at f h) = f @ slice (at + length f) b h"
  by (auto simp: put_def slice_def min_def)

lemma slice_replicate: "b \<le> n \<Longrightarrow> slice a b (replicate n x) = replicate (b - a) x"
  by (simp add: slice_def)

lemma slice_empty: "b \<le> a \<Longrightarrow> slice a b xs = []"
  by (simp add: slice_def)

lemma take_put: "length h = 512 \<Longrightarrow> at \<le> 512 \<Longrightarrow> take at (put at f h) = take at h"
  by (simp add: put_def)

lemma drop_put: "length h = 512 \<Longrightarrow> at + length f \<le> n \<Longrightarrow> at \<le> 512 \<Longrightarrow> drop n (put at f h) = drop n h"
  by (simp add: put_def min_def)

lemma is_bytes_put: "is_bytes f \<Longrightarrow> is_bytes h \<Longrightarrow> is_bytes (put at f h)"
  by (auto simp: is_bytes_def put_def dest: in_set_takeD in_set_dropD)

lemma sum_bytes: "is_bytes xs \<Longrightarrow> sum_list xs \<le> 255 * length xs"
  by (induction xs) (auto simp: is_bytes_def)

lemma sum_parts: "b \<le> length h \<Longrightarrow> a \<le> b \<Longrightarrow> sum_list h = sum_list (take a h) + sum_list (slice a b h) + sum_list (drop b (h::nat list))"
proof -
  assume "b \<le> length h" "a \<le> b"
  then have "drop b h = drop (b - a) (drop a h)" by simp
  then have "h = take a h @ slice a b h @ drop b h" by (simp only: slice_def append_take_drop_id)
  then show ?thesis by (metis sum_list_append add.assoc)
qed

section \<open>The header\<close>

text \<open>A name goes into the name field, or is cut at a slash into prefix and name.\<close>

lemma tar_name_parts:
  assumes "tar_name name = Inr (nf, prefix)"
  obtains raw where "utf8_encode name = Some raw" and "length nf \<le> 100" and "length prefix \<le> 155"
    and "prefix = [] \<and> nf = raw \<or> prefix \<noteq> [] \<and> raw = prefix @ 47 # nf"
proof -
  from assms obtain raw where raw: "utf8_encode name = Some raw" "raw \<noteq> []" "\<not> starts_with [47] raw"
    by (auto simp: tar_name_def encode_path_def split: option.splits)
  show ?thesis
  proof (cases "length raw \<le> 100")
    case True
    with assms raw show ?thesis by (auto simp: tar_name_def encode_path_def intro: that)
  next
    case False
    define cs where "cs = filter (\<lambda>i. raw ! i = 47 \<and> i \<le> 155 \<and> length raw - i - 1 \<le> 100) [0..<length raw]"
    define i where "i = last cs"
    from False assms raw have "cs \<noteq> []" and p: "nf = drop (Suc i) raw" "prefix = take i raw"
      by (auto simp: tar_name_def encode_path_def Let_def cs_def i_def)
    then have "i \<in> set cs" by (simp add: i_def)
    then have i: "raw ! i = 47" "i \<le> 155" "length raw - i - 1 \<le> 100" "i < length raw" by (auto simp: cs_def)
    then have split: "raw = prefix @ 47 # nf" using p id_take_nth_drop [of i raw] by simp
    have "prefix \<noteq> []" using raw(3) split by (auto simp: starts_with_def)
    with split p i raw(1) show ?thesis by (intro that [of raw]) auto
  qed
qed

text \<open>The fields of a written header.\<close>

lemma header_fields:
  assumes "header name f flag n link = Inr h"
  obtains nf prefix mode uid gid bsize mtime c where
    "tar_name name = Inr (nf, prefix)" and "length link \<le> 100"
    and "octal_field (tf_mode f) 8 = Inr mode" and "octal_field (tf_uid f) 8 = Inr uid"
    and "octal_field (tf_gid f) 8 = Inr gid" and "octal_field n 12 = Inr bsize"
    and "octal_field (tf_mtime f) 12 = Inr mtime"
    and "length h = 512"
    and "slice 0 100 h = nf @ replicate (100 - length nf) 0"
    and "slice 100 108 h = mode" and "slice 108 116 h = uid" and "slice 116 124 h = gid"
    and "slice 124 136 h = bsize" and "slice 136 148 h = mtime" and "slice 148 156 h = checksum_field c"
    and "slice 156 157 h = [flag]" and "slice 157 257 h = link @ replicate (100 - length link) 0"
    and "slice 257 263 h = [117, 115, 116, 97, 114, 0]" and "slice 263 265 h = [48, 48]"
    and "slice 345 500 h = prefix @ replicate (155 - length prefix) 0"
    and "sum_list (take 148 h) + 256 + sum_list (drop 156 h) = c" and "c < 8 ^ 6"
proof -
  from assms obtain nf prefix mode uid gid bsize mtime zero h0 where
    parts: "tar_name name = Inr (nf, prefix)" "length link \<le> 100"
      "octal_field (tf_mode f) 8 = Inr mode" "octal_field (tf_uid f) 8 = Inr uid"
      "octal_field (tf_gid f) 8 = Inr gid" "octal_field n 12 = Inr bsize"
      "octal_field (tf_mtime f) 12 = Inr mtime" "octal_field 0 8 = Inr zero"
    and h0: "h0 = blank_header nf prefix mode uid gid bsize mtime zero flag link"
    and sum: "sum_list h0 < 8 ^ 6" and h: "h = put 148 (checksum_field (sum_list h0)) h0"
    by (auto simp: header_def Let_def)
  obtain lname: "length nf \<le> 100" "length prefix \<le> 155" by (rule tar_name_parts [OF parts(1)])
  note len = octal_field_length [OF parts(3)] octal_field_length [OF parts(4)] octal_field_length [OF parts(5)]
    octal_field_length [OF parts(6)] octal_field_length [OF parts(7)] octal_field_length [OF parts(8)]
    lname parts(2)
  note block = h0 blank_header_def length_put slice_put_before slice_put_after slice_put_at slice_replicate
  have l0: "length h0 = 512" using len by (simp add: block)
  have blank: "slice 148 156 h0 = replicate 8 32" using len by (simp add: block slice_empty)
  have rest: "slice 0 100 h0 = nf @ replicate (100 - length nf) 0" "slice 100 108 h0 = mode"
    "slice 108 116 h0 = uid" "slice 116 124 h0 = gid" "slice 124 136 h0 = bsize" "slice 136 148 h0 = mtime"
    "slice 156 157 h0 = [flag]" "slice 157 257 h0 = link @ replicate (100 - length link) 0"
    "slice 257 263 h0 = [117, 115, 116, 97, 114, 0]" "slice 263 265 h0 = [48, 48]"
    "slice 345 500 h0 = prefix @ replicate (155 - length prefix) 0"
    using len by (simp_all add: block slice_empty)
  have c8: "length (checksum_field (sum_list h0)) = 8" using sum by (rule checksum_field_length)
  have same: "slice a b h = slice a b h0" if "b \<le> 148 \<or> 156 \<le> a" for a b
    using that c8 l0 by (auto simp: h slice_put_before slice_put_after)
  have total: "sum_list h0 = sum_list (take 148 h0) + sum_list (slice 148 156 h0) + sum_list (drop 156 h0)"
    using l0 by (intro sum_parts) auto
  show ?thesis
  proof (rule that [OF parts(1-7)])
    show "length h = 512" using l0 c8 by (simp add: h length_put)
    show "slice 148 156 h = checksum_field (sum_list h0)" using l0 c8 by (simp add: h slice_put_at slice_empty)
    show "sum_list (take 148 h) + 256 + sum_list (drop 156 h) = sum_list h0"
      using total l0 c8 by (simp add: h take_put drop_put blank sum_list_replicate)
    show "sum_list h0 < 8 ^ 6" by (rule sum)
  qed (simp_all add: same rest)
qed

section \<open>Text in a block\<close>

lemma utf8_char_nul: "0 \<in> set (utf8_char c) \<longleftrightarrow> c = 0"
  by (auto simp: utf8_char_def)

lemma utf8_char_slash: "47 \<in> set (utf8_char c) \<Longrightarrow> c = 47"
  by (auto simp: utf8_char_def split: if_splits)

lemma utf8_encode_nul: "utf8_encode s = Some b \<Longrightarrow> 0 \<in> set b \<longleftrightarrow> 0 \<in> set s"
  by (auto simp: utf8_encode_def utf8_char_nul split: if_splits)

lemma utf8_encode_Cons:
  "utf8_encode (c # s) = Some b \<longleftrightarrow> (\<exists>b'. is_scalar c \<and> utf8_encode s = Some b' \<and> b = utf8_char c @ b')"
  by (auto simp: utf8_encode_def split: if_splits)

lemma utf8_encode_Nil [simp]: "utf8_encode [] = Some []"
  by (simp add: utf8_encode_def)

lemma utf8_char_nonempty [simp]: "utf8_char c \<noteq> []"
  by (simp add: utf8_char_def)

text \<open>A slash in encoded text is a slash of the text, so cutting there cuts the text.\<close>

lemma utf8_encode_split:
  "utf8_encode s = Some (xs @ 47 # ys) \<Longrightarrow> \<exists>p q. s = p @ 47 # q \<and> utf8_encode p = Some xs \<and> utf8_encode q = Some ys"
proof (induction s arbitrary: xs)
  case (Cons c s)
  then obtain b where c: "is_scalar c" "utf8_encode s = Some b" "xs @ 47 # ys = utf8_char c @ b"
    by (auto simp: utf8_encode_Cons)
  show ?case
  proof (cases "length (utf8_char c) \<le> length xs")
    case True
    then obtain xs' where "xs = utf8_char c @ xs'" using c(3) by (metis append_eq_append_conv_if append_eq_conv_conj)
    with c(3) have xs: "xs = utf8_char c @ xs'" "b = xs' @ 47 # ys" by auto
    then obtain p q where "s = p @ 47 # q" "utf8_encode p = Some xs'" "utf8_encode q = Some ys"
      using Cons.IH [of xs'] c(2) by auto
    with xs c show ?thesis
      by (intro exI [of _ "c # p"] exI [of _ q]) (auto simp: utf8_encode_Cons)
  next
    case False
    then have "(utf8_char c @ b) ! length xs = utf8_char c ! length xs" by (simp add: nth_append)
    then have "utf8_char c ! length xs = 47" using c(3) by (metis nth_append_length)
    then have "47 \<in> set (utf8_char c)" using False by (metis not_le nth_mem)
    then have "c = 47" by (rule utf8_char_slash)
    then have u: "utf8_char c = [47]" "c = 47" by (simp_all add: utf8_char_def)
    with False have "xs = []" by (cases xs) auto
    with u c show ?thesis by (intro exI [of _ "[]"] exI [of _ s]) auto
  qed
qed simp

lemma text_of_padded:
  assumes "utf8_encode s = Some b" and "0 \<notin> set s"
  shows "text_of (b @ replicate n 0) = Inr s"
proof -
  have "0 \<notin> set b" using assms utf8_encode_nul by blast
  then have clean: "find_first (\<lambda>x. x = 0) b = None" unfolding find_first_None by metis
  have "utf8_decode b = Some s" using assms(1) by (rule utf8_roundtrip)
  then show ?thesis
    by (cases n) (simp_all add: text_of_def find_first_append clean find_first_replicate decode_utf8_def
        del: replicate_Suc)
qed

lemma tar_name_read:
  assumes "tar_name name = Inr (nf, prefix)" and "0 \<notin> set name"
    and "slice 0 100 h = nf @ replicate (100 - length nf) 0"
    and "slice 345 500 h = prefix @ replicate (155 - length prefix) 0"
  shows "header_name h = Inr name"
proof -
  from assms(1) obtain raw where raw: "utf8_encode name = Some raw"
    and c: "prefix = [] \<and> nf = raw \<or> prefix \<noteq> [] \<and> raw = prefix @ 47 # nf"
    by (rule tar_name_parts)
  from c show ?thesis
  proof
    assume "prefix = [] \<and> nf = raw"
    then show ?thesis
      using assms(3,4) text_of_padded [OF raw assms(2)] text_of_padded [of "[]" "[]" 155]
      by (simp add: header_name_def)
  next
    assume p: "prefix \<noteq> [] \<and> raw = prefix @ 47 # nf"
    then obtain a b where ab: "name = a @ 47 # b" "utf8_encode a = Some prefix" "utf8_encode b = Some nf"
      using utf8_encode_split [of name prefix nf] raw by auto
    with p have "a \<noteq> []" by auto
    then show ?thesis
      using assms(2-4) ab text_of_padded [OF ab(3), of "100 - length nf"] text_of_padded [OF ab(2), of "155 - length prefix"]
      by (simp add: header_name_def)
  qed
qed

section \<open>Reading a written header\<close>

lemma slice_one: "slice n (Suc n) xs = [x] \<Longrightarrow> xs ! n = x"
  by (cases "n < length xs") (auto simp: slice_def Cons_nth_drop_Suc [symmetric])

lemma tar_name_bytes: "tar_name name = Inr (nf, prefix) \<Longrightarrow> is_bytes nf \<and> is_bytes prefix"
  by (erule tar_name_parts) (auto dest!: utf8_encode_bytes simp: is_bytes_def)

lemma header_bytes:
  assumes "header name f flag n link = Inr h" and "is_bytes link" and "flag < 256"
  shows "is_bytes h"
proof -
  have "is_bytes (replicate k x)" if "x < 256" for k x using that by (simp add: is_bytes_def)
  moreover have "is_bytes (checksum_field c)" for c
    using is_octal_byte [OF rjust_octal(1) [of 6 c]] by (auto simp: checksum_field_def is_bytes_def)
  moreover have "is_bytes [flag]" using assms(3) by (simp add: is_bytes_def)
  ultimately show ?thesis
    using assms(1,2) tar_name_bytes
    by (auto simp: header_def blank_header_def Let_def intro!: is_bytes_put dest!: octal_field_bytes)
      (auto simp: is_bytes_def)
qed

lemma header_read:
  assumes h: "header name f flag n link = Inr h" and mode: "tf_mode f \<le> 4095"
    and size: "int n \<le> max_regular_bytes B" and bytes: "is_bytes link" and flag: "flag < 256" "flag \<noteq> 0"
  shows "tar_header_of B h = Inr \<lparr>th_mode = tf_mode f, th_uid = tf_uid f, th_gid = tf_gid f, th_size = n,
     th_mtime = tf_mtime f, th_kind = flag\<rparr>"
proof -
  have b: "is_bytes h" using h bytes flag(1) by (rule header_bytes)
  from h show ?thesis
  proof (rule header_fields)
    fix nf prefix mode' uid gid bsize mtime c
    assume l: "length h = 512" and c: "sum_list (take 148 h) + 256 + sum_list (drop 156 h) = c"
      and o: "octal_field (tf_mode f) 8 = Inr mode'" "octal_field (tf_uid f) 8 = Inr uid"
        "octal_field (tf_gid f) 8 = Inr gid" "octal_field n 12 = Inr bsize" "octal_field (tf_mtime f) 12 = Inr mtime"
      and s: "slice 100 108 h = mode'" "slice 108 116 h = uid" "slice 116 124 h = gid" "slice 124 136 h = bsize"
        "slice 136 148 h = mtime" "slice 148 156 h = checksum_field c" "slice 156 157 h = [flag]"
        "slice 257 263 h = [117, 115, 116, 97, 114, 0]" "slice 263 265 h = [48, 48]"
    have "is_bytes (take 148 h)" "is_bytes (drop 156 h)"
      using b by (auto simp: is_bytes_def dest: in_set_takeD in_set_dropD)
    then have "sum_list (take 148 h) \<le> 255 * 148" "sum_list (drop 156 h) \<le> 255 * 356"
      using sum_bytes [of "take 148 h"] sum_bytes [of "drop 156 h"] l by auto
    then have "int c \<le> 512 * 255" using c by simp
    then have "tar_octal (checksum_field c) (512 * 255) = Inr c" by (rule checksum_field_read)
    moreover have "tf_uid f < 8 ^ 7" "tf_gid f < 8 ^ 7" "tf_mtime f < 8 ^ 11"
      using octal_field_bound [of "tf_uid f" 7 uid] octal_field_bound [of "tf_gid f" 7 gid]
        octal_field_bound [of "tf_mtime f" 11 mtime] o by simp_all
    moreover have "h ! 156 = flag" using slice_one [of 156 h flag] s(7) by simp
    ultimately show ?thesis
      using c size mode flag(2) o s
      by (simp add: tar_header_of_def octal_field_read [OF o(1)] octal_field_read [OF o(2)] octal_field_read [OF o(3)]
          octal_field_read [OF o(4)] octal_field_read [OF o(5)])
  qed
qed

lemma header_texts:
  assumes h: "header name f flag n link = Inr h" and "0 \<notin> set name" and "utf8_encode target = Some link"
    and "0 \<notin> set target"
  shows "header_name h = Inr name \<and> text_of (slice 157 257 h) = Inr target"
  using h
proof (rule header_fields)
  fix nf prefix
  assume "tar_name name = Inr (nf, prefix)" "slice 0 100 h = nf @ replicate (100 - length nf) 0"
    "slice 345 500 h = prefix @ replicate (155 - length prefix) 0"
    and l: "slice 157 257 h = link @ replicate (100 - length link) 0"
  then show ?thesis using assms tar_name_read text_of_padded by simp
qed

lemma header_length: "header name f flag n link = Inr h \<Longrightarrow> length h = 512"
  by (erule header_fields)

lemma header_not_zero:
  assumes "header name f flag n link = Inr h"
  shows "h \<noteq> zero_block"
proof
  assume "h = zero_block"
  then have "slice 263 265 h = [0, 0]" by (simp add: zero_block_def slice_replicate numeral_2_eq_2)
  with assms show False by (elim header_fields) simp
qed

end
