(* ===== verification/UstarStream.thy ===== *)
theory UstarStream
  imports UstarHeaders
begin

text \<open>
  The stream written by \<open>write_ustar\<close>, as a concatenation of blocks, and its reading by
  \<open>raw_tar_frames\<close>. A \<open>piece\<close> is what one header and its body say; \<open>emitted_stream\<close> shows that
  short writes do not matter, \<open>frames_of_stream\<close> that the raw reader returns the pieces in order.
\<close>

record piece =
  pc_name :: pystr
  pc_fields :: tar_fields
  pc_flag :: nat
  pc_link :: pystr
  pc_body :: bytes

definition piece_link :: "piece \<Rightarrow> bytes" where
  "piece_link p = (case utf8_encode (pc_link p) of None \<Rightarrow> [] | Some b \<Rightarrow> b)"

definition block :: "piece \<Rightarrow> bytes result" where
  "block p = rbind (header (pc_name p) (pc_fields p) (pc_flag p) (length (pc_body p)) (piece_link p))
     (\<lambda>h. Inr (h @ pc_body p @ padding (pc_body p)))"

text \<open>What the reader needs of a piece: encodable text without NUL, and values within its bounds.\<close>

definition piece_ok :: "bounds \<Rightarrow> piece \<Rightarrow> bool" where
  "piece_ok B p \<longleftrightarrow> 0 \<notin> set (pc_name p) \<and> utf8_encode (pc_link p) \<noteq> None \<and> 0 \<notin> set (pc_link p) \<and>
     tf_mode (pc_fields p) \<le> 4095 \<and> int (length (pc_body p)) \<le> max_regular_bytes B \<and>
     pc_flag p \<in> {48, 49, 50, 53}"

definition piece_member :: "piece \<Rightarrow> nat \<Rightarrow> raw_member" where
  "piece_member p offset = \<lparr>rm_name = pc_name p, rm_linkname = pc_link p,
     rm_kind = (case kind_of_flag (pc_flag p) of Some k \<Rightarrow> k | None \<Rightarrow> KFile),
     rm_mode = tf_mode (pc_fields p), rm_uid = tf_uid (pc_fields p), rm_gid = tf_gid (pc_fields p),
     rm_mtime = tf_mtime (pc_fields p), rm_size = length (pc_body p), rm_data_offset = offset + 512,
     rm_pax = [], rm_extensions = []\<rparr>"

definition block_size :: "piece \<Rightarrow> nat" where
  "block_size p = 512 + ((length (pc_body p) + 511) div 512) * 512"

fun members_at :: "nat \<Rightarrow> piece list \<Rightarrow> raw_member list" where
  "members_at offset [] = []"
| "members_at offset (p # ps) = piece_member p offset # members_at (offset + block_size p) ps"

lemma padding_length: "length raw + length (padding raw) = ((length raw + 511) div 512) * 512"
proof -
  define q r where "q = length raw div 512" and "r = length raw mod 512"
  then have l: "length raw = 512 * q + r" "r < 512" by simp_all
  show ?thesis
  proof (cases "r = 0")
    case True
    with l show ?thesis by (simp add: padding_def)
  next
    case False
    have "(512 * q + r + 511) div 512 = q + 1" using False l(2) by (simp add: div_nat_eqI)
    moreover have "(512 * q + r) mod 512 = r" using l(2) by simp
    ultimately show ?thesis using l False by (simp add: padding_def)
  qed
qed

lemma block_length: "block p = Inr b \<Longrightarrow> length b = block_size p"
  using padding_length [of "pc_body p"] by (auto simp: block_def block_size_def dest: header_length)

lemma padding_strip [simp]: "strip 0 (padding raw) = []"
  by (simp add: padding_def)

text \<open>One frame of the reader consumes one block.\<close>

lemma frame_step_block:
  assumes raw: "raw = pre @ b @ rest" and off: "fs_offset st = length pre" and b: "block p = Inr b"
    and ok: "piece_ok B p" and clean: "fs_pax st = None" "fs_long_name st = None" "fs_long_link st = None" "fs_extensions st = []"
    and physical: "fs_physical st = length (fs_members st)" and room: "int (length (fs_members st)) < max_entries B"
  shows "frame_step raw B st = Inr (st\<lparr>fs_offset := length pre + block_size p, fs_physical := fs_physical st + 1,
     fs_members := fs_members st @ [piece_member p (length pre)]\<rparr>)"
proof -
  from b obtain h where h: "header (pc_name p) (pc_fields p) (pc_flag p) (length (pc_body p)) (piece_link p) = Inr h"
    and bb: "b = h @ pc_body p @ padding (pc_body p)"
    by (auto simp: block_def)
  obtain link where link: "utf8_encode (pc_link p) = Some link" using ok by (auto simp: piece_ok_def)
  then have pl: "piece_link p = link" by (simp add: piece_link_def)
  have lh: "length h = 512" using h by (rule header_length)
  let ?stop = "length pre + 512 + length (pc_body p)"
  let ?padded = "length pre + 512 + ((length (pc_body p) + 511) div 512) * 512"
  have lp: "length (pc_body p) + length (padding (pc_body p)) = ((length (pc_body p) + 511) div 512) * 512"
    by (rule padding_length)
  have hd: "slice (length pre) (length pre + 512) raw = h" using lh by (simp add: raw bb slice_def)
  have pad: "slice ?stop ?padded raw = padding (pc_body p)"
    using lh lp by (simp add: raw bb slice_def)
  have len: "?padded \<le> length raw" "?stop \<le> length raw" using lh lp by (simp_all add: raw bb)
  have flag: "pc_flag p < 256" "pc_flag p \<noteq> 0" "\<not> is_extension (pc_flag p)" using ok by (auto simp: piece_ok_def is_extension_def)
  have head: "tar_header_of B h = Inr \<lparr>th_mode = tf_mode (pc_fields p), th_uid = tf_uid (pc_fields p),
      th_gid = tf_gid (pc_fields p), th_size = length (pc_body p), th_mtime = tf_mtime (pc_fields p), th_kind = pc_flag p\<rparr>"
    using header_read [OF h] ok flag utf8_encode_bytes [OF link] by (simp add: piece_ok_def pl)
  have texts: "header_name h = Inr (pc_name p)" "text_of (slice 157 257 h) = Inr (pc_link p)"
    using header_texts [OF h _ _, of "pc_link p"] ok link pl by (auto simp: piece_ok_def)
  obtain k where k: "kind_of_flag (pc_flag p) = Some k" using ok by (auto simp: piece_ok_def kind_of_flag_def)
  have "int (fs_physical st + 1) \<le> 2 * max_entries B + 20" using physical room by simp
  then show ?thesis
    using len room
    by (simp add: frame_step_def Let_def off hd head pad flag(3) member_frame_def k clean texts pax_get_def
        piece_member_def block_size_def)
qed

lemma block_first: "block p = Inr b \<Longrightarrow> 512 \<le> length b \<and> take 512 b \<noteq> zero_block"
  using header_length header_not_zero by (fastforce simp: block_def)

lemma frames_of_blocks:
  assumes "list_all2 (\<lambda>p b. block p = Inr b) ps bs" and "list_all (piece_ok B) ps"
    and "fs_offset st = length pre" and "fs_physical st = length (fs_members st)"
    and "fs_pax st = None" "fs_long_name st = None" "fs_long_link st = None" "fs_extensions st = []"
    and "int (length (fs_members st) + length ps) \<le> max_entries B"
  shows "frames_loop (pre @ concat bs @ replicate 1024 0) B st =
    Inr (st\<lparr>fs_offset := length pre + length (concat bs), fs_physical := fs_physical st + length ps,
      fs_members := fs_members st @ members_at (length pre) ps\<rparr>)"
  using assms
proof (induction ps bs arbitrary: pre st rule: list_all2_induct)
  case Nil
  have "slice (length pre) (length pre + 512) (pre @ replicate 1024 0) = zero_block"
    by (simp add: slice_replicate zero_block_def)
  with Nil show ?case by (subst frames_loop.simps) simp
next
  case (Cons p ps b bs)
  let ?raw = "pre @ concat (b # bs) @ replicate 1024 0"
  let ?st = "st\<lparr>fs_offset := length pre + block_size p, fs_physical := fs_physical st + 1,
     fs_members := fs_members st @ [piece_member p (length pre)]\<rparr>"
  have b: "length b = block_size p" using Cons.hyps(1) by (rule block_length)
  have step: "frame_step ?raw B st = Inr ?st"
    by (rule frame_step_block [where rest = "concat bs @ replicate 1024 0"]) (use Cons.prems Cons.hyps in auto)
  have "slice (length pre) (length pre + 512) ?raw \<noteq> zero_block"
    using block_first [OF Cons.hyps(1)] by (simp add: slice_def)
  then have "frames_loop ?raw B st = frames_loop ?raw B ?st"
    using step Cons.prems(2) by (subst frames_loop.simps) simp
  also have "\<dots> = frames_loop ((pre @ b) @ concat bs @ replicate 1024 0) B ?st" by simp
  also have "\<dots> = Inr (?st\<lparr>fs_offset := length (pre @ b) + length (concat bs), fs_physical := fs_physical ?st + length ps,
      fs_members := fs_members ?st @ members_at (length (pre @ b)) ps\<rparr>)"
    by (rule Cons.IH) (use Cons.prems b in auto)
  finally show ?case using b by (simp add: add.assoc)
qed

lemma blocks_mod: "list_all2 (\<lambda>p b. block p = Inr b) ps bs \<Longrightarrow> length (concat bs) mod 512 = 0"
proof (induction rule: list_all2_induct)
  case (Cons p ps b bs)
  then have "length b mod 512 = 0" using block_length [of p b] by (simp add: block_size_def)
  with Cons show ?case by (simp add: mod_add_eq [symmetric])
qed simp

lemma frames_of_stream:
  assumes "list_all2 (\<lambda>p b. block p = Inr b) ps bs" and "list_all (piece_ok B) ps"
    and "int (length ps) \<le> max_entries B"
  shows "raw_tar_frames (concat bs @ replicate 1024 0) B = Inr (members_at 0 ps)"
proof -
  have "frames_loop ([] @ concat bs @ replicate 1024 0) B frame_init =
      Inr (frame_init\<lparr>fs_offset := length ([]::bytes) + length (concat bs), fs_physical := fs_physical frame_init + length ps,
        fs_members := fs_members frame_init @ members_at (length ([]::bytes)) ps\<rparr>)"
    by (rule frames_of_blocks) (use assms in \<open>auto simp: frame_init_def\<close>)
  moreover have "concat (replicate 2 zero_block) = replicate 1024 (0::nat)"
    by (simp add: zero_block_def numeral_2_eq_2 flip: replicate_add)
  moreover have "(length (concat bs) + 1024) mod 512 = 0" using blocks_mod [OF assms(1)] by (simp add: mod_add_eq [symmetric])
  ultimately show ?thesis by (simp add: raw_tar_frames_def frame_init_def Let_def)
qed

section \<open>What the writer emits\<close>

lemma emit_part_written: "emit_part U raw s = (Inr n, t) \<Longrightarrow> us_written t = us_written s @ take n raw"
  by (auto simp: emit_part_def ebind_Inr emit_check_def emit_write_def split: sum.splits)

lemma emit_all_written: "emit_all U raw s = (Inr x, t) \<Longrightarrow> us_written t = us_written s @ raw"
proof (induction U raw s rule: emit_all.induct)
  case (1 U raw s)
  show ?case
  proof (cases "raw = []")
    case False
    with "1.prems" obtain n u where u: "emit_part U raw s = (Inr n, u)" "emit_all U (drop n raw) u = (Inr x, t)"
      by (subst (asm) emit_all.simps) (auto split: prod.splits sum.splits)
    with 1 False have "us_written t = us_written u @ drop n raw" by auto
    with emit_part_written [OF u(1)] show ?thesis by simp
  qed (use "1.prems" in \<open>simp add: emit_all.simps\<close>)
qed

lemma emit_chunks_written: "emit_chunks U cs s = (Inr x, t) \<Longrightarrow> us_written t = us_written s @ concat cs"
  by (induction cs arbitrary: s) (auto simp: ebind_Inr dest!: emit_all_written)

lemma concat_slices: "concat (map (\<lambda>i. slice (i * c) (i * c + c) raw) [0..<n]) = take (n * c) raw"
  by (induction n) (simp_all add: slice_def take_add [symmetric] add.commute)

lemma round_up: "n \<le> (n + c - 1) div c * c" if "0 < c" for n c :: nat
  using div_mult_mod_eq [of "n + c - 1" c] mod_less_divisor [OF that, of "n + c - 1"] by linarith

lemma concat_chunks: "concat (chunks raw) = raw"
proof -
  have "0 < CHUNK" by (simp add: CHUNK_def)
  then have "length raw \<le> (length raw + CHUNK - 1) div CHUNK * CHUNK" by (rule round_up)
  then show ?thesis by (simp add: chunks_def concat_slices)
qed

lemma emit_header_written:
  "emit_header U name f flag n link s = (Inr x, t) \<Longrightarrow>
     \<exists>h. header name f flag n link = Inr h \<and> us_written t = us_written s @ h"
  by (auto simp: emit_header_def ebind_Inr dest!: emit_all_written)

lemma fsencode_utf8: "utf8_encode s = Some b \<Longrightarrow> fsencode s = Inr b"
  by (auto simp: fsencode_def utf8_encode_def list_all_iff split: if_splits intro!: arg_cong [of _ _ concat])

section \<open>Entries\<close>

definition entry_link :: "material_record \<Rightarrow> pystr" where
  "entry_link r =
     (case mr_kind r of
        KSymlink \<Rightarrow> (case mr_link_text r of None \<Rightarrow> [] | Some t \<Rightarrow> t)
      | KHardlink \<Rightarrow> (case mr_hardlink_target r of None \<Rightarrow> [] | Some t \<Rightarrow> t)
      | _ \<Rightarrow> [])"

definition entry_name :: "material_record \<Rightarrow> pystr" where
  "entry_name r = (if mr_kind r = KDirectory then mr_path r @ [47] else mr_path r)"

fun flag_of :: "entry_kind \<Rightarrow> nat" where
  "flag_of KFile = 48"
| "flag_of KHardlink = 49"
| "flag_of KSymlink = 50"
| "flag_of KDirectory = 53"

definition entry_piece :: "planned_entry \<Rightarrow> bytes \<Rightarrow> piece" where
  "entry_piece e body =
     \<lparr>pc_name = entry_name (pe_record e), pc_fields = record_fields (pe_record e),
      pc_flag = flag_of (mr_kind (pe_record e)), pc_link = entry_link (pe_record e), pc_body = body\<rparr>"

text \<open>The body that goes with an entry: a file's content has the planned digest, and nothing else has
  a body.\<close>

definition body_of :: "digest_fun \<Rightarrow> ustar_env \<Rightarrow> planned_entry \<Rightarrow> bytes \<Rightarrow> bool" where
  "body_of H U e body \<longleftrightarrow>
     (let r = pe_record e in
      if mr_kind r = KFile then ue_read U (mr_path r) (mr_archive_size r) = Inr body \<and> Some (H body) = mr_content_sha256 r
      else body = [])"

text \<open>What the reader needs of an entry: encodable link text, no NUL, and values within its bounds.\<close>

definition entry_readable :: "bounds \<Rightarrow> planned_entry \<Rightarrow> bool" where
  "entry_readable B e \<longleftrightarrow> (let r = pe_record e in
     0 \<notin> set (mr_path r) \<and> 0 \<notin> set (entry_link r) \<and> utf8_encode (entry_link r) \<noteq> None \<and>
     mr_mode r \<le> 4095 \<and> int (mr_archive_size r) \<le> max_regular_bytes B)"

lemma padding_Nil [simp]: "padding [] = []"
  by (simp add: padding_def)

lemma entry_block:
  assumes "utf8_encode (entry_link (pe_record e)) = Some link"
    and "header (entry_name (pe_record e)) (record_fields (pe_record e)) (flag_of (mr_kind (pe_record e))) (length body) link = Inr h"
  shows "block (entry_piece e body) = Inr (h @ body @ padding body)"
  using assms by (simp add: block_def entry_piece_def piece_link_def)

lemma emit_entry_block:
  assumes e: "emit_entry H U emitted e s = (Inr x, t)" and "entry_readable B e"
  shows "\<exists>body b. body_of H U e body \<and> block (entry_piece e body) = Inr b \<and> us_written t = us_written s @ b"
proof -
  obtain link where link: "utf8_encode (entry_link (pe_record e)) = Some link"
    using assms(2) by (auto simp: entry_readable_def Let_def)
  note blockI = entry_block [OF link]
  show ?thesis
  proof (cases "mr_kind (pe_record e)")
    case KFile
    with e obtain raw a b c where r: "Inr raw = ue_read U (mr_path (pe_record e)) (mr_archive_size (pe_record e))"
      "Some (H raw) = mr_content_sha256 (pe_record e)"
      and h: "emit_header U (mr_path (pe_record e)) (record_fields (pe_record e)) 48 (length raw) [] s = (Inr a, b)"
      and ch: "emit_chunks U (chunks raw) b = (Inr (), c)" and p: "emit_all U (padding raw) c = (Inr x, t)"
      by (auto simp: emit_entry_def Let_def ebind_Inr)
    from emit_header_written [OF h] obtain hb where hb:
      "header (mr_path (pe_record e)) (record_fields (pe_record e)) 48 (length raw) [] = Inr hb"
      "us_written b = us_written s @ hb" by blast
    have "link = []" using link KFile by (simp add: entry_link_def)
    then have "block (entry_piece e raw) = Inr (hb @ raw @ padding raw)"
      using hb KFile by (intro blockI) (simp add: entry_name_def)
    moreover have "us_written t = us_written s @ (hb @ raw @ padding raw)"
      using emit_chunks_written [OF ch] emit_all_written [OF p] hb(2) by (simp add: concat_chunks)
    moreover have "body_of H U e raw" using r [symmetric] KFile by (simp add: body_of_def Let_def)
    ultimately show ?thesis by blast
  next
    case KDirectory
    with e have "emit_header U (entry_name (pe_record e)) (record_fields (pe_record e)) 53 0 [] s = (Inr x, t)"
      by (auto simp: emit_entry_def Let_def ebind_Inr entry_name_def)
    moreover have "link = []" using link KDirectory by (simp add: entry_link_def)
    ultimately show ?thesis
      using blockI [of "[]"] KDirectory by (auto dest!: emit_header_written simp: body_of_def Let_def)
  next
    case KSymlink
    with e have "emit_header U (entry_name (pe_record e)) (record_fields (pe_record e)) 50 0 link s = (Inr x, t)"
      using link fsencode_utf8 [OF link]
      by (auto simp: emit_entry_def Let_def ebind_Inr entry_link_def entry_name_def split: option.splits)
    then show ?thesis using blockI [of "[]"] KSymlink by (auto dest!: emit_header_written simp: body_of_def Let_def)
  next
    case KHardlink
    with e have "emit_header U (entry_name (pe_record e)) (record_fields (pe_record e)) 49 0 link s = (Inr x, t)"
      using link
      by (auto simp: emit_entry_def Let_def ebind_Inr entry_link_def entry_name_def encode_path_def split: option.splits)
    then show ?thesis using blockI [of "[]"] KHardlink by (auto dest!: emit_header_written simp: body_of_def Let_def)
  qed
qed

lemma emit_entries_blocks:
  assumes "emit_entries H U emitted es s = (Inr x, t)" and "list_all (entry_readable B) es"
  shows "\<exists>bodies bs. list_all2 (body_of H U) es bodies \<and> us_written t = us_written s @ concat bs \<and>
    list_all2 (\<lambda>p b. block p = Inr b) (map2 entry_piece es bodies) bs"
  using assms
proof (induction es arbitrary: emitted s)
  case (Cons e es)
  from Cons.prems obtain u where u: "emit_entry H U emitted e s = (Inr (), u)"
    "emit_entries H U (mr_path (pe_record e) # emitted) es u = (Inr x, t)" by (auto simp: ebind_Inr)
  obtain body b where "body_of H U e body" "block (entry_piece e body) = Inr b" "us_written u = us_written s @ b"
    using emit_entry_block [OF u(1), of B] Cons.prems(2) by auto
  moreover obtain bodies bs where "list_all2 (body_of H U) es bodies" "us_written t = us_written u @ concat bs"
    "list_all2 (\<lambda>p b. block p = Inr b) (map2 entry_piece es bodies) bs"
    using Cons.IH [OF u(2)] Cons.prems(2) by auto
  ultimately show ?case by (intro exI [of _ "body # bodies"] exI [of _ "b # bs"]) simp
qed auto

lemma map_result_snd:
  "map_result (\<lambda>e. rbind (f e) (\<lambda>k. Inr (g e k, e))) es = Inr ks \<Longrightarrow> map snd ks = es"
  by (induction es arbitrary: ks) auto

lemma keyed_mset: "keyed k es = Inr ks \<Longrightarrow> mset (map snd (sort_key fst ks)) = mset (filter (\<lambda>e. mr_kind (pe_record e) = k) es)"
proof -
  assume "keyed k es = Inr ks"
  then have "map snd ks = filter (\<lambda>e. mr_kind (pe_record e) = k) es"
    unfolding keyed_def by (rule map_result_snd)
  then show ?thesis by (metis mset_map mset_sort)
qed

lemma kinds_mset:
  "mset (filter (\<lambda>e. kind e = KDirectory) es) + mset (filter (\<lambda>e. kind e = KFile) es) +
   mset (filter (\<lambda>e. kind e = KSymlink) es) + mset (filter (\<lambda>e. kind e = KHardlink) es) = mset es"
proof (induction es)
  case (Cons e es)
  then show ?case by (cases "kind e") auto
qed simp

lemma ordered_entries_mset: "ordered_entries plan = Inr es \<Longrightarrow> mset es = mset (pl_entries plan)"
  using kinds_mset [of "\<lambda>e. mr_kind (pe_record e)" "pl_entries plan"]
  by (auto simp: ordered_entries_def keyed_mset ac_simps simp del: mset_map mset_filter)

end
