(* ===== verification/ArchiveInvariants.thy ===== *)
theory ArchiveInvariants
  imports ArchiveSemantics
begin

text \<open>
  What an accepted archive is: \<open>archive_sound\<close> states it, \<open>preflight_sound\<close> proves it of every
  archive the preflight returns. Paths stay below the root, a link leads where the walk of its text
  ends (\<open>walks\<close>, which has no step out of the root), no path passes
  through a symbolic link of the archive, hard links name files of the archive with the same owner,
  mode and time, every file's content is present with its digest, and the regular bytes are within
  the bounds.
\<close>

section \<open>Contained paths\<close>

definition contained :: "pystr \<Rightarrow> bool" where
  "contained p \<longleftrightarrow> list_all plain_part (split_on 47 p)"

lemma contained_nonempty: "contained p \<Longrightarrow> p \<noteq> []"
  by (auto simp: contained_def plain_part_def)

lemma contained_relative: "contained p \<Longrightarrow> \<not> starts_with [47] p"
  by (cases p) (auto simp: contained_def plain_part_def starts_with_def)

lemma contained_join: "ps \<noteq> [] \<Longrightarrow> list_all plain_part ps \<Longrightarrow> (\<And>p. p \<in> set ps \<Longrightarrow> 47 \<notin> set p) \<Longrightarrow> contained (join_on 47 ps)"
  by (simp add: contained_def split_join)

lemma normalize_contained:
  assumes "normalize_path U B value kind = Inr (Some p)"
  shows "contained p \<and> 92 \<notin> set p"
proof -
  have "value \<noteq> ustr ''./''" using assms by (auto simp: normalize_path_def)
  with assms obtain value' where v: "strip_dot value = Inr value'" and clean: "92 \<notin> set value"
    and p: "p = (if kind = KDirectory \<and> ends_with [47] value' then butlast value' else value')"
    and parts: "list_all plain_part (split_on 47 p)"
    by (auto simp: normalize_path_def safe_text_def Let_def)
  have "set value' \<subseteq> set value" using v by (auto simp: strip_dot_def split: if_splits dest: in_set_dropD)
  with clean p have "92 \<notin> set p" by (auto dest: in_set_butlastD split: if_splits)
  with parts show ?thesis by (simp add: contained_def)
qed

text \<open>
  What a link text means, independently of how it is resolved: a walk from the directory of the link that takes one name at
  a time, stays for \<^verbatim>\<open>.\<close>, goes to the parent for \<^verbatim>\<open>..\<close> and down for any other name. There is no rule that goes up from
  the root, so a text that would leave the archive has no walk.
\<close>

inductive walks :: "pystr list \<Rightarrow> pystr list \<Rightarrow> pystr list \<Rightarrow> bool" where
  walk_end: "walks dir [] dir"
| walk_stay: "walks dir ps dest \<Longrightarrow> walks dir (ustr ''.'' # ps) dest"
| walk_up: "walks dir ps dest \<Longrightarrow> walks (dir @ [name]) (ustr ''..'' # ps) dest"
| walk_down: "plain_part name \<Longrightarrow> walks (dir @ [name]) ps dest \<Longrightarrow> walks dir (name # ps) dest"

inductive_cases walks_NilE: "walks dir [] dest"
inductive_cases walks_ConsE: "walks dir (p # ps) dest"

lemma dot_names: "ustr ''.'' \<noteq> []" "ustr ''..'' \<noteq> []" "ustr ''..'' \<noteq> ustr ''.''"
  "\<not> plain_part (ustr ''.'')" "\<not> plain_part (ustr ''..'')"
  by (simp_all add: ustr_def plain_part_def)

lemma walks_Nil: "walks dir [] dest \<longleftrightarrow> dest = dir"
  by (auto elim: walks_NilE intro: walk_end)

lemma walks_stay: "walks dir (ustr ''.'' # ps) dest \<longleftrightarrow> walks dir ps dest"
  by (auto elim!: walks_ConsE intro: walk_stay simp: dot_names dot_names(3) [symmetric] simp del: ustr_inj)

lemma walks_up: "walks dir (ustr ''..'' # ps) dest \<longleftrightarrow> dir \<noteq> [] \<and> walks (butlast dir) ps dest"
proof
  assume "walks dir (ustr ''..'' # ps) dest"
  then show "dir \<noteq> [] \<and> walks (butlast dir) ps dest"
    by (rule walks_ConsE) (use dot_names in \<open>auto simp del: ustr_inj\<close>)
next
  assume "dir \<noteq> [] \<and> walks (butlast dir) ps dest"
  then show "walks dir (ustr ''..'' # ps) dest" using walk_up [of "butlast dir" ps dest "last dir"] by simp
qed

lemma walks_down:
  "p \<noteq> ustr ''.'' \<Longrightarrow> p \<noteq> ustr ''..'' \<Longrightarrow> walks dir (p # ps) dest \<longleftrightarrow> p \<noteq> [] \<and> walks (dir @ [p]) ps dest"
  by (auto elim: walks_ConsE intro: walk_down simp: plain_part_def simp del: ustr_inj)

lemma walks_Cons: "walks dir (p # ps) dest \<longleftrightarrow>
    (if p = ustr ''.'' then walks dir ps dest else if p = ustr ''..'' then dir \<noteq> [] \<and> walks (butlast dir) ps dest
     else p \<noteq> [] \<and> walks (dir @ [p]) ps dest)"
  by (simp add: walks_stay walks_up walks_down del: ustr_inj)

definition fits_component :: "bounds \<Rightarrow> pystr \<Rightarrow> bool" where
  "fits_component B p \<longleftrightarrow> (\<exists>n. encoded_length p = Inr n \<and> int n \<le> max_component_bytes B)"

text \<open>The resolution of the sources accepts exactly the walks of components within the bound.\<close>

lemma resolve_parts_iff: "resolve_parts B ps acc = Inr qs \<longleftrightarrow> walks acc ps qs \<and> list_all (fits_component B) ps"
proof (induction ps arbitrary: acc)
  case Nil
  show ?case by (auto simp: walks_Nil)
next
  case (Cons p ps)
  consider "p = []" | "p \<noteq> []" "\<not> fits_component B p" | n where "p \<noteq> []" "encoded_length p = Inr n" "int n \<le> max_component_bytes B"
    by (auto simp: fits_component_def)
  then show ?case
  proof cases
    case 1
    then show ?thesis using dot_names by (auto simp: walks_Cons simp del: ustr_inj)
  next
    case 3
    then have "fits_component B p" by (simp add: fits_component_def)
    with 3 Cons.IH show ?thesis by (auto simp: walks_Cons simp del: ustr_inj)
  qed (auto simp: fits_component_def)
qed

lemma walks_contained:
  "walks dir ps dest \<Longrightarrow> list_all plain_part dir \<Longrightarrow> \<forall>q\<in>set dir \<union> set ps. 47 \<notin> set q \<Longrightarrow>
     list_all plain_part dest \<and> (\<forall>q\<in>set dest. 47 \<notin> set q)"
  by (induction rule: walks.induct) auto

text \<open>Where the text of a symbolic link leads: an absolute text names the path below the root, any other is walked from the
  directory of the link and ends at a path of the archive.\<close>

definition link_leads :: "pystr \<Rightarrow> pystr \<Rightarrow> pystr \<Rightarrow> bool" where
  "link_leads path text resolved \<longleftrightarrow>
     (if starts_with [47] text then contained resolved \<and> text = 47 # resolved
      else \<exists>parts. walks (butlast (split_on 47 path)) (split_on 47 text) parts \<and> parts \<noteq> [] \<and> resolved = join_on 47 parts)"

lemma symlink_leads:
  assumes "normalize_symlink U B path target allow = Inr (text, resolved)"
  shows "text = target \<and> link_leads path target resolved \<and> (starts_with [47] target \<longrightarrow> allow)"
proof (cases "starts_with [47] target")
  case True
  with assms have "list_all plain_part (split_on 47 (drop 1 target)) \<and> drop 1 target = resolved \<and> target = text \<and> allow"
    unfolding normalize_symlink_def Let_def by simp blast
  moreover from True have "target = 47 # drop 1 target" by (cases target) (auto simp: starts_with_def)
  ultimately show ?thesis using True unfolding contained_def link_leads_def by (metis (full_types))
next
  case False
  with assms obtain parts where "resolve_parts B (split_on 47 target) (butlast (split_on 47 path)) = Inr parts"
    "parts \<noteq> []" "resolved = join_on 47 parts" "text = target"
    unfolding normalize_symlink_def if_not_P [OF False] rbind_Inr afail_Inr by (elim exE conjE) (auto simp only: sum.inject prod.inject)
  then show ?thesis using False by (auto simp: link_leads_def resolve_parts_iff)
qed

lemma link_contained:
  assumes "link_leads path text resolved" and "contained path"
  shows "contained resolved"
proof (cases "starts_with [47] text")
  case False
  then obtain parts where p: "walks (butlast (split_on 47 path)) (split_on 47 text) parts" "parts \<noteq> []" "resolved = join_on 47 parts"
    using assms(1) by (auto simp: link_leads_def)
  have "list_all plain_part (butlast (split_on 47 path))" "\<forall>q\<in>set (butlast (split_on 47 path)) \<union> set (split_on 47 text). 47 \<notin> set q"
    using assms(2) split_on_parts [of _ 47 path] split_on_parts [of _ 47 "text"]
    by (auto simp: contained_def list_all_iff dest: in_set_butlastD)
  from walks_contained [OF p(1) this] p(2,3) show ?thesis by (auto intro: contained_join)
qed (use assms in \<open>simp add: link_leads_def\<close>)

section \<open>Frames lie within the archive\<close>

definition frames_inside :: "bytes \<Rightarrow> raw_member list \<Rightarrow> bool" where
  "frames_inside raw fs \<longleftrightarrow> (\<forall>f\<in>set fs. rm_data_offset f + rm_size f \<le> length raw)"

lemma extension_frame_members: "extension_frame header h body st = Inr st' \<Longrightarrow> fs_members st' = fs_members st"
  by (auto simp: extension_frame_def split: if_splits)

lemma member_frame_members:
  "member_frame B header h start st = Inr st' \<Longrightarrow>
     \<exists>m. fs_members st' = fs_members st @ [m] \<and> rm_data_offset m = start \<and> rm_size m = th_size h"
  by (auto simp: member_frame_def Let_def split: option.splits)

lemma frame_step_inside:
  assumes "frame_step raw B st = Inr st'" and "frames_inside raw (fs_members st)"
  shows "frames_inside raw (fs_members st')"
proof -
  let ?header = "slice (fs_offset st) (fs_offset st + 512) raw"
  from assms(1) obtain h where h: "tar_header_of B ?header = Inr h" and len: "fs_offset st + 512 + th_size h \<le> length raw"
    by (auto simp: frame_step_def Let_def)
  show ?thesis
  proof (cases "is_extension (th_kind h)")
    case True
    with assms h show ?thesis by (auto simp: frame_step_def Let_def dest!: extension_frame_members)
  next
    case False
    with assms h len show ?thesis
      by (auto simp: frame_step_def Let_def frames_inside_def dest!: member_frame_members)
  qed
qed

lemma frames_loop_inside:
  "frames_loop raw B st = Inr st' \<Longrightarrow> frames_inside raw (fs_members st) \<Longrightarrow> frames_inside raw (fs_members st')"
proof (induction raw B st rule: frames_loop.induct)
  case (1 raw B st)
  show ?case
  proof (cases "fs_offset st < length raw \<and> slice (fs_offset st) (fs_offset st + 512) raw \<noteq> zero_block")
    case True
    with "1.prems" obtain u where "frame_step raw B st = Inr u" "frames_loop raw B u = Inr st'"
      by (subst (asm) frames_loop.simps) auto
    with True 1 show ?thesis using frame_step_inside by blast
  next
    case False
    with "1.prems" show ?thesis by (subst (asm) frames_loop.simps) simp
  qed
qed

lemma raw_frames_inside: "raw_tar_frames raw B = Inr fs \<Longrightarrow> frames_inside raw fs"
  using frames_loop_inside [of raw B frame_init]
  by (auto simp: raw_tar_frames_def frame_init_def frames_inside_def Let_def)

section \<open>The records of an archive\<close>

text \<open>What the loop over the members keeps: paths are new, objects are numbered, and every record
  says the truth about its member.\<close>

definition record_true :: "archive_env \<Rightarrow> bounds \<Rightarrow> bytes \<Rightarrow> material_record \<Rightarrow> bool" where
  "record_true E B raw r \<longleftrightarrow>
     contained (mr_path r) \<and> 92 \<notin> set (mr_path r) \<and>
     (case mr_kind r of
        KFile \<Rightarrow> mr_link_text r = None \<and> mr_resolved_link_path r = None \<and> mr_hardlink_target r = None \<and>
          int (mr_archive_size r) \<le> max_file_bytes B \<and> 0 \<le> mr_data_offset r \<and>
          mr_data_offset r + int (mr_archive_size r) \<le> int (length raw) \<and>
          mr_content_sha256 r = Some (e_digest E (slice (nat (mr_data_offset r)) (nat (mr_data_offset r) + mr_archive_size r) raw))
      | KSymlink \<Rightarrow> mr_archive_size r = 0 \<and> mr_hardlink_target r = None \<and> mr_content_sha256 r = None \<and>
          (\<exists>text resolved. mr_link_text r = Some text \<and> mr_resolved_link_path r = Some resolved \<and>
            link_leads (mr_path r) text resolved \<and> contained resolved)
      | KHardlink \<Rightarrow> mr_archive_size r = 0 \<and> mr_link_text r = None \<and> mr_resolved_link_path r = None \<and>
          mr_content_sha256 r = None \<and> (\<exists>target. mr_hardlink_target r = Some target \<and> contained target)
      | KDirectory \<Rightarrow> mr_archive_size r = 0 \<and> mr_link_text r = None \<and> mr_resolved_link_path r = None \<and>
          mr_hardlink_target r = None \<and> mr_content_sha256 r = None)"

definition semantic_inv :: "archive_env \<Rightarrow> bounds \<Rightarrow> bytes \<Rightarrow> nat \<Rightarrow> semantic_state \<Rightarrow> bool" where
  "semantic_inv E B raw at st \<longleftrightarrow>
     ss_seen st = rev (map mr_path (ss_material st)) \<and> distinct (ss_seen st) \<and>
     map mr_obj (ss_material st) = map (Pair at) [0..<length (ss_material st)] \<and>
     list_all (record_true E B raw) (ss_material st) \<and>
     ss_total st = sum_list (map mr_archive_size (ss_material st)) \<and>
     (ss_total st = 0 \<or> int (ss_total st) \<le> max_regular_bytes B)"

lemma semantic_step_inv:
  assumes "semantic_step E B control profile at raw (f, i) st = Inr st'" and "semantic_inv E B raw at st"
    and "rm_data_offset f + rm_size f \<le> length raw"
  shows "semantic_inv E B raw at st'"
proof -
  from assms(1) obtain agreed where agreed: "agreed_path E B f i = Inr agreed"
    by (auto simp: semantic_step_def Let_def)
  show ?thesis
  proof (cases agreed)
    case None
    with assms agreed show ?thesis by (auto simp: semantic_step_def Let_def readings_agree_def semantic_inv_def)
  next
    case (Some path)
    with agreed have "contained path \<and> 92 \<notin> set path"
      by (auto simp: agreed_path_def dest: normalize_contained split: option.splits)
    with Some assms agreed show ?thesis
      by (cases "rm_kind f")
        (auto simp: semantic_step_def Let_def readings_agree_def semantic_inv_def member_links_def record_true_def
          dest!: symlink_leads intro: link_contained dest: normalize_contained)
  qed
qed

lemma semantic_loop_inv:
  assumes "semantic_loop E B control profile at raw fis st = Inr st'" and "semantic_inv E B raw at st"
    and "\<And>f i. (f, i) \<in> set fis \<Longrightarrow> rm_data_offset f + rm_size f \<le> length raw"
  shows "semantic_inv E B raw at st'"
  using assms
proof (induction fis arbitrary: st)
  case (Cons fi fis)
  obtain f i where fi: "fi = (f, i)" by (cases fi)
  with Cons.prems obtain u where "semantic_step E B control profile at raw (f, i) st = Inr u"
    "semantic_loop E B control profile at raw fis u = Inr st'" by auto
  with Cons fi show ?case using semantic_step_inv by (metis list.set_intros)
qed simp

lemma semantic_init_inv: "semantic_inv E B raw at semantic_init"
  by (simp add: semantic_inv_def semantic_init_def)

text \<open>A hard link names a file of the archive with the same mode, owner and time.\<close>

definition same_owner :: "material_record \<Rightarrow> material_record \<Rightarrow> bool" where
  "same_owner r t \<longleftrightarrow> (mr_mode r, mr_uid r, mr_gid r, mr_mtime r) = (mr_mode t, mr_uid t, mr_gid t, mr_mtime t)"

definition links_sound :: "material_record list \<Rightarrow> material_record \<Rightarrow> bool" where
  "links_sound rs r \<longleftrightarrow>
     (\<forall>s\<in>set rs. mr_kind s = KSymlink \<longrightarrow> mr_path s \<notin> set (parents (mr_path r))) \<and>
     (mr_kind r = KHardlink \<longrightarrow>
        (\<exists>t\<in>set rs. mr_hardlink_target r = Some (mr_path t) \<and> mr_kind t = KFile \<and> same_owner r t))"

definition archive_sound :: "archive_env \<Rightarrow> bounds \<Rightarrow> preflighted_tar \<Rightarrow> bool" where
  "archive_sound E B t \<longleftrightarrow>
     distinct (map mr_path (pt_records t)) \<and> distinct (map mr_obj (pt_records t)) \<and>
     list_all (record_true E B (pt_raw t)) (pt_records t) \<and> list_all (links_sound (pt_records t)) (pt_records t) \<and>
     (sum_list (map mr_archive_size (pt_records t)) = 0 \<or>
      int (sum_list (map mr_archive_size (pt_records t))) \<le> max_regular_bytes B)"

lemma lookup_path_in: "lookup_path rs p = Some r \<Longrightarrow> r \<in> set rs \<and> mr_path r = p"
  by (auto simp: lookup_path_def find_Some_iff) (metis length_rev nth_mem set_rev)

lemma link_check_sound: "link_check rs r = Inr () \<Longrightarrow> links_sound rs r"
  by (auto simp: link_check_def links_sound_def same_owner_def list_all_iff split: if_splits option.splits
      dest!: lookup_path_in)

lemma material_sound:
  assumes "preflight_material_tar E raw B profile at = Inr t"
  shows "archive_sound E B t \<and> pt_raw t = raw \<and> pt_obj t = at"
proof -
  from assms obtain frames root records found material where
    f: "raw_tar_frames raw B = Inr frames"
    and s: "semantic_tar_records E raw frames B False profile at = Inr (root, records, found, material)"
    and t: "t = \<lparr>pt_raw = raw, pt_root = root, pt_records = material, pt_archive_records = records, pt_obj = at\<rparr>"
    by (auto simp: preflight_material_tar_def)
  from s obtain infos st where l: "semantic_loop E B False profile at raw (zip frames infos) semantic_init = Inr st"
    and m: "material = ss_material st" and c: "\<forall>r\<in>set material. link_check material r = Inr ()"
    by (auto simp: semantic_tar_records_def split: option.splits)
  have inv: "semantic_inv E B raw at st"
    using semantic_loop_inv [OF l semantic_init_inv] raw_frames_inside [OF f]
    by (auto simp: frames_inside_def dest: set_zip_leftD)
  then have "distinct (map mr_path material)" "list_all (record_true E B raw) material"
    "map mr_obj material = map (Pair at) [0..<length material]"
    "sum_list (map mr_archive_size material) = 0 \<or> int (sum_list (map mr_archive_size material)) \<le> max_regular_bytes B"
    by (auto simp: semantic_inv_def m)
  moreover from this(3) have "distinct (map mr_obj material)" by (simp add: distinct_map inj_on_def)
  ultimately show ?thesis using c by (auto simp: t archive_sound_def list_all_iff dest: link_check_sound)
qed

text \<open>A record says what its member says: the path is the member's name in normal form, mode, owner, time and size are the
  member's, and the text of a link is the member's link name, absolute only in a guest image.\<close>

definition records_member :: "archive_env \<Rightarrow> bounds \<Rightarrow> archive_profile \<Rightarrow> raw_member \<Rightarrow> material_record \<Rightarrow> bool" where
  "records_member E B profile f r \<longleftrightarrow>
     normalize_path (e_unicode E) B (rm_name f) (rm_kind f) = Inr (Some (mr_path r)) \<and> mr_kind r = rm_kind f \<and>
     (mr_mode r, mr_uid r, mr_gid r, mr_mtime r, mr_archive_size r, mr_data_offset r) =
       (rm_mode f, rm_uid f, rm_gid f, rm_mtime f, rm_size f, int (rm_data_offset f)) \<and>
     (case rm_kind f of
        KSymlink \<Rightarrow> mr_link_text r = Some (rm_linkname f) \<and> (starts_with [47] (rm_linkname f) \<longrightarrow> profile = Oci)
      | KHardlink \<Rightarrow> normalize_path (e_unicode E) B (rm_linkname f) KFile = Inr (mr_hardlink_target r)
      | _ \<Rightarrow> True)"

lemma semantic_step_member:
  assumes "semantic_step E B control profile at raw (f, i) st = Inr st'"
  shows "ss_material st' = ss_material st \<or> (\<exists>r. ss_material st' = ss_material st @ [r] \<and> records_member E B profile f r)"
proof -
  from assms obtain agreed where agreed: "agreed_path E B f i = Inr agreed"
    by (auto simp: semantic_step_def Let_def)
  show ?thesis
  proof (cases agreed)
    case None
    with assms agreed show ?thesis by (auto simp: semantic_step_def Let_def readings_agree_def)
  next
    case (Some path)
    with agreed have "normalize_path (e_unicode E) B (rm_name f) (rm_kind f) = Inr (Some path)"
      by (auto simp: agreed_path_def split: option.splits)
    with Some assms agreed show ?thesis
      by (cases "rm_kind f")
        (auto simp: semantic_step_def Let_def readings_agree_def member_links_def records_member_def dest!: symlink_leads)
  qed
qed

lemma semantic_loop_members:
  assumes "semantic_loop E B control profile at raw fis st = Inr st'"
  shows "\<forall>r\<in>set (ss_material st'). r \<in> set (ss_material st) \<or> (\<exists>f\<in>fst ` set fis. records_member E B profile f r)"
  using assms
proof (induction fis arbitrary: st)
  case (Cons fi fis)
  obtain f i where fi: "fi = (f, i)" by (cases fi)
  with Cons.prems obtain u where u: "semantic_step E B control profile at raw (f, i) st = Inr u"
    "semantic_loop E B control profile at raw fis u = Inr st'" by auto
  from semantic_step_member [OF u(1)] Cons.IH [OF u(2)] fi show ?case by force
qed simp

lemma material_members:
  assumes "preflight_material_tar E raw B profile at = Inr t"
  shows "\<exists>frames. raw_tar_frames raw B = Inr frames \<and> list_all (\<lambda>r. list_ex (\<lambda>f. records_member E B profile f r) frames) (pt_records t)"
proof -
  from assms obtain frames root records found material where
    f: "raw_tar_frames raw B = Inr frames"
    and s: "semantic_tar_records E raw frames B False profile at = Inr (root, records, found, material)"
    and t: "pt_records t = material"
    by (auto simp: preflight_material_tar_def)
  from s obtain infos st where l: "semantic_loop E B False profile at raw (zip frames infos) semantic_init = Inr st"
    and m: "material = ss_material st"
    by (auto simp: semantic_tar_records_def split: option.splits)
  from semantic_loop_members [OF l] show ?thesis
    unfolding t m list_all_iff list_ex_iff
    by (intro exI [of _ frames] conjI f) (fastforce simp: semantic_init_def dest: set_zip_leftD)
qed

lemma sound_content:
  assumes "archive_sound E B t" and "r \<in> set (pt_records t)" and "mr_kind r = KFile"
  obtains v where "tar_content (e_digest E) t r = Inr v" and "length v = mr_archive_size r"
    and "mr_content_sha256 r = Some (e_digest E v)"
proof -
  from assms have r: "0 \<le> mr_data_offset r" "mr_data_offset r + int (mr_archive_size r) \<le> int (length (pt_raw t))"
    "mr_content_sha256 r = Some (e_digest E (slice (nat (mr_data_offset r)) (nat (mr_data_offset r) + mr_archive_size r) (pt_raw t)))"
    by (auto simp: archive_sound_def list_all_iff record_true_def)
  let ?v = "slice (nat (mr_data_offset r)) (nat (mr_data_offset r) + mr_archive_size r) (pt_raw t)"
  have "py_slice (mr_data_offset r) (mr_data_offset r + int (mr_archive_size r)) (pt_raw t) = ?v"
    using slice_nat [OF r(1) _ r(2)] by simp
  moreover have "length ?v = mr_archive_size r" using r(1,2) by simp
  ultimately have "tar_content (e_digest E) t r = Inr ?v"
    using assms r(3) by (auto simp: tar_content_def Let_def list_ex_iff)
  with r(3) \<open>length ?v = mr_archive_size r\<close> show ?thesis by (intro that)
qed

end
