(* ===== verification/PlanInvariants.thy ===== *)
theory PlanInvariants
  imports ArchiveInvariants RootfsPlan
begin

text \<open>
  What a plan is: \<open>plan_sound\<close>. Entries are strictly ordered by the bytes of their paths, so no
  path is planned twice, and the whole graph passes \<open>check_graph\<close>. The overlay and the transitions
  are described by what they do to a lookup.
\<close>

section \<open>Dicts\<close>

lemma map_of_dict_set [simp]: "map_of (dict_set k v m) = (map_of m)(k \<mapsto> v)"
  by (induction k v m rule: dict_set.induct) (auto simp: fun_upd_twist)

lemma keys_dict_set: "fst ` set (dict_set k v m) = insert k (fst ` set m)"
  by (induction k v m rule: dict_set.induct) auto

lemma distinct_dict_set: "distinct (map fst m) \<Longrightarrow> distinct (map fst (dict_set k v m))"
proof (induction k v m rule: dict_set.induct)
  case (2 k v k' v' ps)
  moreover have "k' \<notin> set (map fst (dict_set k v ps))" if "k' \<noteq> k" "k' \<notin> set (map fst ps)"
    using that keys_dict_set [of k v ps] by auto
  ultimately show ?case by auto
qed simp

text \<open>A dict of entries is keyed by the paths of its records, each once.\<close>

definition keyed_by_path :: "entries \<Rightarrow> bool" where
  "keyed_by_path m \<longleftrightarrow> distinct (map fst m) \<and> (\<forall>(p, e)\<in>set m. mr_path (pe_record e) = p)"

lemma set_dict_set: "pe \<in> set (dict_set k v m) \<Longrightarrow> pe = (k, v) \<or> pe \<in> set m"
  by (induction k v m rule: dict_set.induct) (auto split: if_splits)

lemma keyed_dict_set: "keyed_by_path m \<Longrightarrow> mr_path (pe_record e) = p \<Longrightarrow> keyed_by_path (dict_set p e m)"
  by (auto simp: keyed_by_path_def distinct_dict_set dest!: set_dict_set)

lemma keyed_filter: "keyed_by_path m \<Longrightarrow> keyed_by_path (filter P m)"
  by (auto simp: keyed_by_path_def distinct_map_filter)

lemma keyed_map: "keyed_by_path m \<Longrightarrow> map (\<lambda>e. (mr_path (pe_record e), e)) (map snd m) = m"
  by (induction m) (auto simp: keyed_by_path_def)

lemma keyed_fst: "keyed_by_path m \<Longrightarrow> map (\<lambda>e. mr_path (pe_record e)) (map snd m) = map fst m"
  by (induction m) (auto simp: keyed_by_path_def)

lemma dict_set_new: "k \<notin> set (map fst m) \<Longrightarrow> dict_set k v m = m @ [(k, v)]"
  by (induction k v m rule: dict_set.induct) auto

lemma entry_map_distinct:
  assumes "distinct (map (\<lambda>e. mr_path (pe_record e)) es)"
    and "set (map fst m) \<inter> set (map (\<lambda>e. mr_path (pe_record e)) es) = {}"
  shows "foldl (\<lambda>m e. dict_set (mr_path (pe_record e)) e m) m es = m @ map (\<lambda>e. (mr_path (pe_record e), e)) es"
  using assms
proof (induction es arbitrary: m)
  case (Cons e es)
  then show ?case using Cons.IH [of "m @ [(mr_path (pe_record e), e)]"] by (auto simp: dict_set_new)
qed simp

section \<open>Order\<close>

definition path_bytes :: "planned_entry \<Rightarrow> bytes" where
  "path_bytes e = (case utf8_encode (mr_path (pe_record e)) of None \<Rightarrow> [] | Some b \<Rightarrow> b)"

definition plan_ordered :: "planned_entry list \<Rightarrow> bool" where
  "plan_ordered es \<longleftrightarrow> list_all (\<lambda>e. utf8_encode (mr_path (pe_record e)) \<noteq> None) es \<and> sorted_wrt (<) (map path_bytes es)"

lemma utf8_encode_inj: "utf8_encode s = Some b \<Longrightarrow> utf8_encode t = Some b \<Longrightarrow> s = t"
  by (metis option.inject utf8_roundtrip)

lemma plan_ordered_distinct: "plan_ordered es \<Longrightarrow> distinct (map (\<lambda>e. mr_path (pe_record e)) es)"
proof (induction es)
  case (Cons e es)
  have "mr_path (pe_record e) \<noteq> mr_path (pe_record e')" if "e' \<in> set es" for e'
    using Cons.prems that by (auto simp: plan_ordered_def path_bytes_def)
  with Cons show ?case by (auto simp: plan_ordered_def)
qed simp

lemma map_result_keys:
  "map_result (\<lambda>(p, e). rbind (encode_path p) (\<lambda>b. Inr (b, e))) m = Inr ks \<Longrightarrow> keyed_by_path m \<Longrightarrow>
     map snd ks = map snd m \<and> (\<forall>(b, e)\<in>set ks. utf8_encode (mr_path (pe_record e)) = Some b)"
  by (induction m arbitrary: ks) (fastforce simp: keyed_by_path_def encode_path_def split: option.splits)+

lemma ordered_sound:
  assumes "ordered m = Inr es" and m: "keyed_by_path m"
  shows "mset es = mset (map snd m) \<and> plan_ordered es"
proof -
  from assms(1) obtain ks where k: "map_result (\<lambda>(p, e). rbind (encode_path p) (\<lambda>b. Inr (b, e))) m = Inr ks"
    and es: "es = map snd (sort_key fst ks)" by (auto simp: ordered_def)
  note ks = map_result_keys [OF k m]
  have bytes: "path_bytes (snd q) = fst q \<and> utf8_encode (mr_path (pe_record (snd q))) = Some (fst q)" if "q \<in> set ks" for q
    using ks that by (cases q) (auto simp: path_bytes_def)
  have "distinct (map (\<lambda>e. mr_path (pe_record e)) (map snd ks))"
    using ks m keyed_fst [OF m] by (simp add: keyed_by_path_def del: map_map)
  then have d: "distinct (map (\<lambda>q. mr_path (pe_record (snd q))) ks)" by (simp add: comp_def)
  have "inj_on fst (set ks)"
  proof (rule inj_onI)
    fix q q' assume q: "q \<in> set ks" "q' \<in> set ks" "fst q = fst q'"
    then have "mr_path (pe_record (snd q)) = mr_path (pe_record (snd q'))"
      using bytes [OF q(1)] bytes [OF q(2)] by (metis utf8_encode_inj)
    with d q show "q = q'" unfolding distinct_map by (auto dest: inj_onD)
  qed
  with d have "distinct (map fst ks)" unfolding distinct_map by blast
  then have "sorted_wrt (<) (map fst (sort_key fst ks))"
    using sorted_sort_key [of fst ks] by (simp add: strict_sorted_iff distinct_sort_fst)
  moreover have "map path_bytes es = map fst (sort_key fst ks)"
    using bytes by (auto simp: es)
  moreover have "list_all (\<lambda>e. utf8_encode (mr_path (pe_record e)) \<noteq> None) es"
    using bytes by (auto simp: es list_all_iff)
  moreover have "mset es = mset (map snd m)" using ks by (metis es mset_map mset_sort)
  ultimately show ?thesis by (simp add: plan_ordered_def)
qed

section \<open>Sound plans\<close>

definition plan_sound :: "rootfs_plan \<Rightarrow> bool" where
  "plan_sound plan \<longleftrightarrow> plan_ordered (pl_entries plan) \<and> check_graph (entry_map plan) = Inr ()"

lemma entry_map_keyed:
  "plan_ordered (pl_entries plan) \<Longrightarrow>
     entry_map plan = map (\<lambda>e. (mr_path (pe_record e), e)) (pl_entries plan) \<and> keyed_by_path (entry_map plan)"
  using plan_ordered_distinct [of "pl_entries plan"] entry_map_distinct [of "pl_entries plan" "[]"]
  by (auto simp: entry_map_def keyed_by_path_def comp_def)

lemma check_graph_cong:
  assumes "set m = set m'" and "distinct (map fst m)" "distinct (map fst m')"
  shows "check_graph m = Inr () \<longleftrightarrow> check_graph m' = Inr ()"
proof -
  have "map_of m = map_of m'" using assms by (metis map_of_inject_set)
  then have "check_entry m = check_entry m'" by (intro ext) (simp only: check_entry_def kind_at_def)
  then show ?thesis using assms(1) by (simp add: check_graph_def)
qed

text \<open>The plan made of a dict that passes the check is sound and has the dict's entries.\<close>

lemma plan_of_dict:
  assumes m: "keyed_by_path m" "check_graph m = Inr ()" and es: "ordered m = Inr (pl_entries plan)"
  shows "plan_sound plan \<and> map_of (entry_map plan) = map_of m"
proof -
  note o = ordered_sound [OF es m(1)]
  note em = entry_map_keyed [of plan]
  have "mset (map snd m) = mset (pl_entries plan)" using o by simp
  then have "mset (map (\<lambda>e. (mr_path (pe_record e), e)) (map snd m)) = mset (entry_map plan)"
    using em o by (metis mset_map)
  then have same: "set m = set (entry_map plan)" using keyed_map [OF m(1)] by (metis mset_eq_setD)
  moreover have d: "distinct (map fst m)" "distinct (map fst (entry_map plan))"
    using m(1) em o by (auto simp: keyed_by_path_def)
  ultimately show ?thesis
    using m(2) o check_graph_cong [of m "entry_map plan"] map_of_inject_set [OF d] by (auto simp: plan_sound_def)
qed

section \<open>The overlay\<close>

text \<open>Where an entry of the overlay comes from, and what becomes of a record: a directory may be
  covered by a directory of a later archive, anything else stays.\<close>

definition comes_from :: "(pystr \<times> preflighted_tar) list \<Rightarrow> planned_entry \<Rightarrow> bool" where
  "comes_from sources e \<longleftrightarrow> (\<exists>source archive. (source, archive) \<in> set sources \<and>
     pe_record e \<in> set (pt_records archive) \<and>
     e = \<lparr>pe_source = source, pe_owner = Some archive, pe_record = pe_record e, pe_generated = None\<rparr>)"

definition covered :: "entries \<Rightarrow> pystr \<Rightarrow> preflighted_tar \<Rightarrow> material_record \<Rightarrow> bool" where
  "covered m source archive r \<longleftrightarrow> (case map_of m (mr_path r) of
     None \<Rightarrow> False
   | Some e \<Rightarrow> e = \<lparr>pe_source = source, pe_owner = Some archive, pe_record = r, pe_generated = None\<rparr> \<or>
       mr_kind r = KDirectory \<and> mr_kind (pe_record e) = KDirectory)"

lemma overlay_record_step:
  assumes "overlay_record source archive r m = Inr m'" and "keyed_by_path m"
  shows "keyed_by_path m' \<and> covered m' source archive r \<and>
    (\<forall>s a x. covered m s a x \<longrightarrow> covered m' s a x) \<and>
    (\<forall>(p, e)\<in>set m'. (p, e) \<in> set m \<or> e = \<lparr>pe_source = source, pe_owner = Some archive, pe_record = r, pe_generated = None\<rparr>)"
proof -
  let ?e = "\<lparr>pe_source = source, pe_owner = Some archive, pe_record = r, pe_generated = None\<rparr>"
  from assms(1) have m': "m' = dict_set (mr_path r) ?e m"
    and c: "\<And>e. map_of m (mr_path r) = Some e \<Longrightarrow> mr_kind (pe_record e) = KDirectory \<and> mr_kind r = KDirectory"
    by (auto simp: overlay_record_def split: option.splits)
  have "covered m' s a x" if "covered m s a x" for s a x
    using that c by (auto simp: covered_def m' split: option.splits if_splits)
  then show ?thesis
    using assms(2) by (auto simp: m' keyed_dict_set covered_def dest!: set_dict_set)
qed

lemma overlay_records_step:
  assumes "overlay_records source archive rs m = Inr m'" and "keyed_by_path m"
  shows "keyed_by_path m' \<and> (\<forall>r\<in>set rs. covered m' source archive r) \<and>
    (\<forall>s a x. covered m s a x \<longrightarrow> covered m' s a x) \<and>
    (\<forall>(p, e)\<in>set m'. (p, e) \<in> set m \<or>
       (\<exists>r\<in>set rs. e = \<lparr>pe_source = source, pe_owner = Some archive, pe_record = r, pe_generated = None\<rparr>))"
  using assms
proof (induction rs arbitrary: m)
  case (Cons r rs)
  then obtain u where u: "overlay_record source archive r m = Inr u" "overlay_records source archive rs u = Inr m'" by auto
  note a = overlay_record_step [OF u(1) Cons.prems(2)]
  note b = Cons.IH [OF u(2)]
  from a b show ?case by (fastforce)
qed auto

lemma overlay_step:
  assumes "overlay sources m = Inr m'" and "keyed_by_path m"
  shows "keyed_by_path m' \<and> (\<forall>(source, archive)\<in>set sources. \<forall>r\<in>set (pt_records archive). covered m' source archive r) \<and>
    (\<forall>s a x. covered m s a x \<longrightarrow> covered m' s a x) \<and>
    (\<forall>(p, e)\<in>set m'. (p, e) \<in> set m \<or> comes_from sources e)"
  using assms
proof (induction sources arbitrary: m)
  case (Cons sa sources)
  obtain source archive where sa: "sa = (source, archive)" by (cases sa)
  with Cons.prems obtain u where u: "overlay_records source archive (pt_records archive) m = Inr u" "overlay sources u = Inr m'" by auto
  note a = overlay_records_step [OF u(1) Cons.prems(2)]
  note b = Cons.IH [OF u(2)]
  have "comes_from (sa # sources) e" if "comes_from sources e" for e using that by (auto simp: comes_from_def)
  moreover have "comes_from (sa # sources) \<lparr>pe_source = source, pe_owner = Some archive, pe_record = r, pe_generated = None\<rparr>"
    if "r \<in> set (pt_records archive)" for r using that sa by (auto simp: comes_from_def)
  ultimately show ?case using a b sa by fastforce
qed auto

lemma plan_sources_dict:
  assumes "plan_sources base packages = Inr plan"
  obtains m where "keyed_by_path m" and "plan_sound plan" and "map_of (entry_map plan) = map_of m"
    and "\<forall>(source, archive)\<in>set ((OCI_LAYER, base) # packages). \<forall>r\<in>set (pt_records archive). covered m source archive r"
    and "\<forall>e\<in>set (pl_entries plan). comes_from ((OCI_LAYER, base) # packages) e"
proof -
  from assms obtain m where m: "overlay ((OCI_LAYER, base) # packages) [] = Inr m" "check_graph m = Inr ()"
    and es: "ordered m = Inr (pl_entries plan)"
    by (auto simp: plan_sources_def Let_def)
  note o = overlay_step [OF m(1)]
  then have k: "keyed_by_path m" by (simp add: keyed_by_path_def)
  have "set (pl_entries plan) = set (map snd m)" using ordered_sound [OF es k] by (metis mset_eq_setD)
  with o k plan_of_dict [OF k m(2) es] show ?thesis
    by (intro that [of m]) (auto simp: keyed_by_path_def)
qed

section \<open>Transitions\<close>

text \<open>A file entry whose content can be had and has the planned digest.\<close>

definition content_ok :: "digest_fun \<Rightarrow> planned_entry \<Rightarrow> bool" where
  "content_ok H e \<longleftrightarrow> mr_kind (pe_record e) = KFile \<longrightarrow>
     (\<exists>v. planned_content H e = Inr v \<and> mr_content_sha256 (pe_record e) = Some (H v))"

definition after_transitions :: "transition list \<Rightarrow> (pystr \<rightharpoonup> planned_entry) \<Rightarrow> pystr \<Rightarrow> planned_entry option" where
  "after_transitions trs old p =
     (case find (\<lambda>tr. tr_path tr = p) trs of None \<Rightarrow> old p | Some tr \<Rightarrow> tr_result tr)"

lemma map_of_filter_key: "map_of (filter (\<lambda>(p, e). p \<noteq> k) m) = (map_of m)(k := None)"
  by (induction m) auto

lemma apply_one_effect:
  assumes "apply_one H tr m = Inr m'" and "keyed_by_path m"
  shows "keyed_by_path m' \<and> map_of m' = (map_of m)(tr_path tr := tr_result tr) \<and>
    transition_check tr (map_of m (tr_path tr)) \<and> (\<forall>e. tr_result tr = Some e \<longrightarrow> content_ok H e)"
proof (cases "tr_result tr")
  case None
  with assms have "m' = filter (\<lambda>(p, e). p \<noteq> tr_path tr) m" "transition_check tr (map_of m (tr_path tr))"
    by (auto simp: apply_one_def)
  with None show ?thesis using keyed_filter [OF assms(2)] map_of_filter_key [of "tr_path tr" m] by auto
next
  case (Some e)
  with assms have "m' = dict_set (tr_path tr) e m" "transition_check tr (map_of m (tr_path tr))"
    "mr_path (pe_record e) = tr_path tr" "content_ok H e"
    by (auto simp: apply_one_def content_ok_def split: if_splits)
  with Some show ?thesis using keyed_dict_set [OF assms(2), of e "tr_path tr"] by auto
qed

lemma apply_all_effect:
  assumes "apply_all H trs seen m = Inr m'" and "keyed_by_path m"
  shows "keyed_by_path m' \<and> map_of m' = after_transitions trs (map_of m) \<and> distinct (map tr_path trs) \<and>
    set seen \<inter> tr_path ` set trs = {} \<and>
    (\<forall>tr\<in>set trs. transition_check tr (map_of m (tr_path tr)) \<and> (\<forall>e. tr_result tr = Some e \<longrightarrow> content_ok H e))"
  using assms
proof (induction trs arbitrary: seen m)
  case Nil
  then show ?case by (auto simp: after_transitions_def)
next
  case (Cons tr trs)
  then obtain u where u: "apply_one H tr m = Inr u" "apply_all H trs (tr_path tr # seen) u = Inr m'"
    and new: "tr_path tr \<notin> set seen"
    by (auto simp: plan_path_def)
  note a = apply_one_effect [OF u(1) Cons.prems(2)]
  then have b: "keyed_by_path m' \<and> map_of m' = after_transitions trs (map_of u) \<and> distinct (map tr_path trs) \<and>
    set (tr_path tr # seen) \<inter> tr_path ` set trs = {} \<and>
    (\<forall>t\<in>set trs. transition_check t (map_of u (tr_path t)) \<and> (\<forall>e. tr_result t = Some e \<longrightarrow> content_ok H e))"
    using Cons.IH [OF u(2)] by blast
  have "find (\<lambda>t. tr_path t = tr_path tr) trs = None" using b by (simp add: find_None_iff) (metis image_eqI)
  then have "after_transitions trs (map_of u) = after_transitions (tr # trs) (map_of m)"
    using a by (auto simp: after_transitions_def fun_eq_iff split: option.splits)
  moreover have "map_of u (tr_path t) = map_of m (tr_path t)" if "t \<in> set trs" for t
  proof -
    have "tr_path t \<noteq> tr_path tr" using b that by (auto intro: rev_image_eqI)
    with a show ?thesis by simp
  qed
  ultimately show ?case using a b new by auto
qed

lemma apply_transitions_effect:
  assumes "apply_transitions H plan trs = Inr plan'" and "plan_ordered (pl_entries plan)"
  shows "plan_sound plan' \<and> map_of (entry_map plan') = after_transitions trs (map_of (entry_map plan)) \<and>
    distinct (map tr_path trs) \<and> pl_root plan' = pl_root plan \<and> pl_transitions plan' = trs \<and>
    (\<forall>tr\<in>set trs. transition_check tr (map_of (entry_map plan) (tr_path tr)) \<and>
       (\<forall>e. tr_result tr = Some e \<longrightarrow> content_ok H e))"
proof -
  from assms(1) obtain m where m: "apply_all H trs [] (entry_map plan) = Inr m" "check_graph m = Inr ()"
    "ordered m = Inr (pl_entries plan')" and p: "pl_root plan' = pl_root plan" "pl_transitions plan' = trs"
    by (auto simp: apply_transitions_def)
  have k: "keyed_by_path (entry_map plan)" using entry_map_keyed [OF assms(2)] by (rule conjunct2)
  note a = apply_all_effect [OF m(1) k]
  then show ?thesis using plan_of_dict [of m plan'] m p by auto
qed

section \<open>Contents\<close>

lemma source_content_ok:
  assumes "comes_from sources e" and "\<forall>(source, archive)\<in>set sources. \<exists>B. archive_sound E B archive"
  shows "content_ok (e_digest E) e"
proof -
  from assms(1) obtain source archive where s: "(source, archive) \<in> set sources" "pe_record e \<in> set (pt_records archive)"
    and e: "e = \<lparr>pe_source = source, pe_owner = Some archive, pe_record = pe_record e, pe_generated = None\<rparr>"
    unfolding comes_from_def by blast
  then have o: "pe_owner e = Some archive" "pe_generated e = None" by (metis planned_entry.select_convs)+
  from assms(2) s obtain B where B: "archive_sound E B archive" by blast
  show ?thesis unfolding content_ok_def
  proof
    assume k: "mr_kind (pe_record e) = KFile"
    from sound_content [OF B s(2) k] show "\<exists>v. planned_content (e_digest E) e = Inr v \<and>
        mr_content_sha256 (pe_record e) = Some (e_digest E v)"
      using k o by (auto simp: planned_content_def)
  qed
qed

lemma entry_of_map: "plan_ordered (pl_entries plan) \<Longrightarrow> e \<in> set (pl_entries plan) \<longleftrightarrow> map_of (entry_map plan) (mr_path (pe_record e)) = Some e"
  using entry_map_keyed [of plan] by (auto simp: keyed_by_path_def map_of_eq_Some_iff)

lemma transitions_content_ok:
  assumes "apply_transitions H plan trs = Inr plan'" and "plan_ordered (pl_entries plan)"
    and "\<forall>e\<in>set (pl_entries plan). content_ok H e"
  shows "\<forall>e\<in>set (pl_entries plan'). content_ok H e"
proof
  fix e assume e: "e \<in> set (pl_entries plan')"
  note t = apply_transitions_effect [OF assms(1,2)]
  then have "map_of (entry_map plan') (mr_path (pe_record e)) = Some e"
    using e entry_of_map [of plan' e] by (simp add: plan_sound_def)
  then have "after_transitions trs (map_of (entry_map plan)) (mr_path (pe_record e)) = Some e" using t by simp
  then consider tr where "tr \<in> set trs" "tr_result tr = Some e" | "map_of (entry_map plan) (mr_path (pe_record e)) = Some e"
    by (auto simp: after_transitions_def find_Some_iff split: option.splits) (metis nth_mem)
  then show "content_ok H e"
    by cases (use t entry_of_map [OF assms(2)] assms(3) in auto)
qed

end
