(* ===== verification/RootfsSamples.thy ===== *)
theory RootfsSamples
  imports UstarStream PlanInvariants
begin

text \<open>
  A small image the theorems are applied to: a base layer with one directory and one file, its plan,
  and an environment whose writes take everything.
\<close>

section \<open>Totality of headers\<close>

lemma octal_field_total: "v < 8 ^ w \<Longrightarrow> 0 < w \<Longrightarrow> \<exists>f. octal_field v (Suc w) = Inr f"
  using octal_digits_length [of v w] by (simp add: octal_field_def Let_def cfail_def)

lemma tar_name_total:
  "list_all (\<lambda>c. c < 128) name \<Longrightarrow> name \<noteq> [] \<Longrightarrow> hd name \<noteq> 47 \<Longrightarrow> length name \<le> 100 \<Longrightarrow> tar_name name = Inr (name, [])"
  by (cases name) (auto simp: tar_name_def encode_path_def utf8_encode_ascii starts_with_def cfail_def)

lemma header_total:
  assumes name: "tar_name name = Inr (nf, prefix)" and link: "length link \<le> 100" "is_bytes link" and flag: "flag < 256"
    and f: "tf_mode f < 8 ^ 7" "tf_uid f < 8 ^ 7" "tf_gid f < 8 ^ 7" "tf_mtime f < 8 ^ 11" "n < 8 ^ 11"
  shows "\<exists>h. header name f flag n link = Inr h"
proof -
  obtain mode uid gid mtime bsize zero where o: "octal_field (tf_mode f) 8 = Inr mode" "octal_field (tf_uid f) 8 = Inr uid"
    "octal_field (tf_gid f) 8 = Inr gid" "octal_field n 12 = Inr bsize" "octal_field (tf_mtime f) 12 = Inr mtime"
    "octal_field 0 8 = Inr zero"
    using octal_field_total [OF f(1)] octal_field_total [OF f(2)] octal_field_total [OF f(3)] octal_field_total [OF f(4)]
      octal_field_total [OF f(5)] octal_field_total [of 0 7] by auto
  let ?h = "blank_header nf prefix mode uid gid bsize mtime zero flag link"
  have "is_bytes ?h"
    using o tar_name_bytes [OF name] link flag
    by (auto simp: blank_header_def intro!: is_bytes_put dest!: octal_field_bytes) (auto simp: is_bytes_def)
  moreover obtain "length nf \<le> 100" "length prefix \<le> 155" by (rule tar_name_parts [OF name])
  then have "length ?h = 512"
    using octal_field_length [OF o(1)] octal_field_length [OF o(2)] octal_field_length [OF o(3)]
      octal_field_length [OF o(4)] octal_field_length [OF o(5)] octal_field_length [OF o(6)] link
    by (simp add: blank_header_def length_put)
  ultimately have "sum_list ?h < 8 ^ 6" using sum_bytes [of ?h] by simp
  then have "header name f flag n link = Inr (put 148 (checksum_field (sum_list ?h)) ?h)"
    by (simp only: header_def name o rbind_Inr_left case_prod_conv Let_def cfail_def require_True) (simp add: link)
  then show ?thesis by blast
qed

section \<open>Writes that take everything\<close>

definition whole_writes :: "ustar_env \<Rightarrow> bool" where
  "whole_writes U \<longleftrightarrow> (\<forall>n. ue_check U n = Inr ()) \<and> (\<forall>n raw. ue_write U n raw = Inr (int (length raw)))"

lemma emit_all_whole:
  "whole_writes U \<Longrightarrow> \<exists>k. emit_all U raw s = (Inr (), s\<lparr>us_written := us_written s @ raw, us_calls := k\<rparr>)"
proof (cases "raw = []")
  case True
  assume "whole_writes U"
  show ?thesis by (intro exI [of _ "us_calls s"]) (simp add: True emit_all.simps)
next
  case False
  assume "whole_writes U"
  then have "emit_part U raw s = (Inr (length raw), s\<lparr>us_written := us_written s @ raw, us_calls := us_calls s + 3\<rparr>)"
    using False by (simp add: whole_writes_def emit_part_def emit_check_def emit_write_def ebind_def eff_defs)
  then have "emit_all U raw s = (Inr (), s\<lparr>us_written := us_written s @ raw, us_calls := us_calls s + 3\<rparr>)"
    using False by (subst emit_all.simps) (simp add: emit_all.simps)
  then show ?thesis by blast
qed

lemma emit_header_whole:
  "whole_writes U \<Longrightarrow> header name f flag n link = Inr h \<Longrightarrow>
     \<exists>k. emit_header U name f flag n link s = (Inr (), s\<lparr>us_written := us_written s @ h, us_calls := k\<rparr>)"
  using emit_all_whole [of U h s] by (simp add: emit_header_def ebind_def eff_defs)

lemma emit_chunks_whole: "whole_writes U \<Longrightarrow> \<exists>t. emit_chunks U cs s = (Inr (), t)"
proof (induction cs arbitrary: s)
  case (Cons c cs)
  then show ?case using emit_all_whole [of U c s] by (auto simp: ebind_def)
qed (simp add: eff_defs)

section \<open>The sample\<close>

definition sample_digest :: digest_fun where
  "sample_digest = (\<lambda>_. ustr ''d'')"

definition sample_dir :: material_record where
  "sample_dir = \<lparr>mr_path = ustr ''a'', mr_kind = KDirectory, mr_mode = 493, mr_uid = 0, mr_gid = 0, mr_mtime = 7,
     mr_archive_size = 0, mr_link_text = None, mr_resolved_link_path = None, mr_hardlink_target = None,
     mr_content_sha256 = None, mr_data_offset = 512, mr_obj = (1, 0)\<rparr>"

definition sample_file :: material_record where
  "sample_file = \<lparr>mr_path = ustr ''a/b'', mr_kind = KFile, mr_mode = 420, mr_uid = 0, mr_gid = 0, mr_mtime = 7,
     mr_archive_size = 3, mr_link_text = None, mr_resolved_link_path = None, mr_hardlink_target = None,
     mr_content_sha256 = Some (ustr ''d''), mr_data_offset = 0, mr_obj = (1, 1)\<rparr>"

definition sample_base :: preflighted_tar where
  "sample_base = \<lparr>pt_raw = [1, 2, 3], pt_root = ROOT_POLICY, pt_records = [sample_dir, sample_file],
     pt_archive_records = [], pt_obj = 1\<rparr>"

definition sample_entry :: "material_record \<Rightarrow> planned_entry" where
  "sample_entry r = \<lparr>pe_source = OCI_LAYER, pe_owner = Some sample_base, pe_record = r, pe_generated = None\<rparr>"

definition sample_plan :: rootfs_plan where
  "sample_plan = \<lparr>pl_root = ROOT_POLICY, pl_source_order = [OCI_LAYER],
     pl_entries = [sample_entry sample_dir, sample_entry sample_file], pl_transitions = []\<rparr>"

definition sample_env :: ustar_env where
  "sample_env = \<lparr>ue_check = (\<lambda>n. Inr ()), ue_write = (\<lambda>n raw. Inr (int (length raw))),
     ue_read = (\<lambda>path n. if n = 3 then Inr [1, 2, 3] else Inl (OSError ''absent''))\<rparr>"

definition sample_state :: ustar_state where
  "sample_state = \<lparr>us_written = [], us_calls = 0\<rparr>"

lemma ascii_encode [simp]: "encode_path (ustr ''a'') = Inr (ustr ''a'')" "encode_path (ustr ''a/b'') = Inr (ustr ''a/b'')"
  by (simp_all add: encode_path_def utf8_encode_ascii ustr_def)

lemma sample_planned: "plan_sources sample_base [] = Inr sample_plan"
  by (simp add: plan_sources_def sample_base_def sample_plan_def sample_entry_def sample_dir_def sample_file_def
      ROOT_POLICY_def OCI_LAYER_def overlay_record_def check_graph_def check_entry_def plan_path_def plain_part_def
      parents_def kind_at_def ordered_def ustr_def starts_with_def encode_path_def utf8_encode_def is_scalar_def is_surrogate_def utf8_char_def)

lemma sample_sound:
  "archive_sound \<lparr>e_digest = sample_digest, e_unicode = U, e_tarfile = T\<rparr>
     \<lparr>max_entries = 9, max_regular_bytes = 9, max_path_bytes = 9, max_component_bytes = 9, max_file_bytes = 9\<rparr> sample_base"
  by (simp add: archive_sound_def sample_base_def sample_dir_def sample_file_def record_true_def links_sound_def
      contained_def plain_part_def sample_digest_def ustr_def)

lemma sample_ordered: "ordered_entries sample_plan = Inr [sample_entry sample_dir, sample_entry sample_file]"
  by (simp add: ordered_entries_def keyed_def sample_plan_def sample_entry_def sample_dir_def sample_file_def)

lemma sample_whole: "whole_writes sample_env"
  by (simp add: whole_writes_def sample_env_def)

lemma sample_headers:
  "\<exists>h. header (ustr ''./'') (root_fields ROOT_POLICY) 53 0 [] = Inr h"
  "\<exists>h. header (ustr ''a/'') (record_fields sample_dir) 53 0 [] = Inr h"
  "\<exists>h. header (ustr ''a/b'') (record_fields sample_file) 48 3 [] = Inr h"
  by (rule header_total [OF tar_name_total];
      simp add: ustr_def is_bytes_def root_fields_def ROOT_POLICY_def SOURCE_DATE_EPOCH_def record_fields_def
        sample_dir_def sample_file_def)+

lemma sample_written: "\<exists>sha n t. write_ustar sample_digest sample_env sample_plan sample_state = (Inr (sha, n), t)"
proof -
  let ?U = sample_env
  obtain h1 h2 h3 where h: "header (ustr ''./'') (root_fields ROOT_POLICY) 53 0 [] = Inr h1"
    "header (ustr ''a/'') (record_fields sample_dir) 53 0 [] = Inr h2"
    "header (ustr ''a/b'') (record_fields sample_file) 48 3 [] = Inr h3" using sample_headers by blast
  obtain t1 where t1: "emit_header ?U (ustr ''./'') (root_fields ROOT_POLICY) 53 0 [] (sample_state\<lparr>us_written := []\<rparr>) = (Inr (), t1)"
    using emit_header_whole [OF sample_whole h(1)] by blast
  obtain t2 where t2: "emit_header ?U (ustr ''a/'') (record_fields sample_dir) 53 0 [] t1 = (Inr (), t2)"
    using emit_header_whole [OF sample_whole h(2)] by blast
  obtain t3 where t3: "emit_header ?U (ustr ''a/b'') (record_fields sample_file) 48 3 [] t2 = (Inr (), t3)"
    using emit_header_whole [OF sample_whole h(3)] by blast
  obtain t4 where t4: "emit_chunks ?U (chunks [1, 2, 3]) t3 = (Inr (), t4)"
    using emit_chunks_whole [OF sample_whole] by blast
  obtain t5 where t5: "emit_all ?U (padding [1, 2, 3]) t4 = (Inr (), t5)" using emit_all_whole [OF sample_whole] by blast
  obtain t6 where t6: "emit_all ?U (replicate 1024 0) t5 = (Inr (), t6)" using emit_all_whole [OF sample_whole] by blast
  have e2: "emit_entry sample_digest ?U [] (sample_entry sample_dir) t1 = (Inr (), t2)"
    using t2 by (simp add: emit_entry_def Let_def sample_entry_def ebind_def eff_defs sample_dir_def parent_of_def ustr_def)
  have e3: "emit_entry sample_digest ?U [ustr ''a''] (sample_entry sample_file) t2 = (Inr (), t5)"
    using t3 t4 t5
    by (simp add: emit_entry_def Let_def sample_entry_def ebind_def eff_defs sample_file_def sample_env_def parent_of_def
        sample_digest_def ustr_def numeral_3_eq_3)
  have "us_written t6 = h1 @ h2 @ h3 @ [1, 2, 3] @ padding [1, 2, 3] @ replicate 1024 0"
    using emit_header_written [OF t1] emit_header_written [OF t2] emit_header_written [OF t3] h
      emit_chunks_written [OF t4] emit_all_written [OF t5] emit_all_written [OF t6]
    by (simp add: concat_chunks)
  then have "length (us_written t6) mod 512 = 0"
    using header_length [OF h(1)] header_length [OF h(2)] header_length [OF h(3)] padding_length [of "[1, 2, 3]"] by simp
  then have "write_ustar sample_digest ?U sample_plan sample_state = (Inr (sample_digest (us_written t6), length (us_written t6)), t6)"
    using t1 e2 e3 t6
    by (simp add: write_ustar_def ebind_def eff_defs sample_ordered)
      (simp add: sample_plan_def sample_entry_def sample_dir_def sample_file_def)
  then show ?thesis by blast
qed

section \<open>A transition of the sample\<close>

definition sample_transition :: transition where
  "sample_transition = \<lparr>tr_path = ustr ''a/c'', tr_action = Create, tr_expected = None,
     tr_result = Some (generated_file sample_digest (ustr ''a/c'') [4] 384 0)\<rparr>"

lemma sample_transition_applies: "\<exists>plan. apply_transitions sample_digest sample_plan [sample_transition] = Inr plan"
  by (simp add: apply_transitions_def sample_plan_def entry_map_def sample_entry_def sample_dir_def sample_file_def
      sample_transition_def plan_path_def plain_part_def apply_one_def transition_check_def generated_file_def
      planned_content_def check_graph_def check_entry_def parents_def kind_at_def ordered_def ustr_def starts_with_def
      encode_path_def utf8_encode_def is_scalar_def is_surrogate_def utf8_char_def)

end
