(* ===== verification/RootfsSafety.thy ===== *)
theory RootfsSafety
  imports RootfsSamples
begin

text \<open>
  The theorems of the image pipeline: archive preflight, plan and canonical stream.
\<close>

section \<open>Reading back the canonical stream\<close>

definition frame_matches :: "digest_fun \<Rightarrow> bytes \<Rightarrow> raw_member \<Rightarrow> planned_entry \<Rightarrow> bool" where
  "frame_matches H raw f e \<longleftrightarrow> (let r = pe_record e in
     rm_name f = entry_name r \<and> rm_linkname f = entry_link r \<and> rm_kind f = mr_kind r \<and> rm_mode f = mr_mode r \<and>
     rm_uid f = mr_uid r \<and> rm_gid f = mr_gid r \<and> rm_mtime f = mr_mtime r \<and> rm_pax f = [] \<and> rm_extensions f = [] \<and>
     (if mr_kind r = KFile
      then Some (H (slice (rm_data_offset f) (rm_data_offset f + rm_size f) raw)) = mr_content_sha256 r
      else rm_size f = 0))"

lemma members_match:
  assumes "list_all2 (body_of H U) es bodies"
    and "list_all2 (\<lambda>p b. block p = Inr b) (map2 entry_piece es bodies) bs"
  shows "list_all2 (frame_matches H (pre @ concat bs @ rest)) (members_at (length pre) (map2 entry_piece es bodies)) es"
  using assms
proof (induction es bodies arbitrary: pre bs rule: list_all2_induct)
  case (Cons e es body bodies)
  then obtain b bs' where bs: "bs = b # bs'" "block (entry_piece e body) = Inr b"
    "list_all2 (\<lambda>p b. block p = Inr b) (map2 entry_piece es bodies) bs'" by (auto simp: list_all2_Cons1)
  obtain h where h: "b = h @ body @ padding body" "length h = 512"
    using bs(2) header_length by (fastforce simp: block_def entry_piece_def)
  have "slice (length pre + 512) (length pre + 512 + length body) (pre @ concat bs @ rest) = body"
    using h by (simp add: bs slice_def)
  then have "frame_matches H (pre @ concat bs @ rest) (piece_member (entry_piece e body) (length pre)) e"
    using Cons.hyps(1)
    by (cases "mr_kind (pe_record e)")
      (simp_all add: frame_matches_def piece_member_def entry_piece_def record_fields_def body_of_def kind_of_flag_def Let_def)
  moreover have "list_all2 (frame_matches H ((pre @ b) @ concat bs' @ rest)) (members_at (length (pre @ b)) (map2 entry_piece es bodies)) es"
    by (rule Cons.IH) (rule bs(3))
  ultimately show ?case using block_length [OF bs(2)] by (simp add: bs)
qed simp

definition reads_bounded :: "ustar_env \<Rightarrow> bool" where
  "reads_bounded U \<longleftrightarrow> (\<forall>path n raw. ue_read U path n = Inr raw \<longrightarrow> length raw \<le> n)"

lemma pieces_ok:
  assumes "list_all2 (body_of H U) es bodies" and "list_all (entry_readable B) es" and "reads_bounded U"
    and "0 \<le> max_regular_bytes B"
  shows "list_all (piece_ok B) (map2 entry_piece es bodies)"
  using assms(1,2)
proof (induction es bodies rule: list_all2_induct)
  case (Cons e es body bodies)
  have "int (length body) \<le> max_regular_bytes B"
  proof (cases "mr_kind (pe_record e) = KFile")
    case True
    then have "length body \<le> mr_archive_size (pe_record e)"
      using Cons.hyps(1) assms(3) by (auto simp: body_of_def reads_bounded_def Let_def)
    with Cons.prems show ?thesis by (auto simp: entry_readable_def Let_def)
  qed (use Cons.hyps(1) assms(4) in \<open>simp add: body_of_def Let_def\<close>)
  moreover have "flag_of k \<in> {48, 49, 50, 53}" for k by (cases k) auto
  moreover have "0 \<notin> set (entry_name (pe_record e))"
    using Cons.prems by (auto simp: entry_readable_def entry_name_def Let_def)
  ultimately show ?case
    using Cons by (auto simp: piece_ok_def entry_piece_def entry_readable_def record_fields_def Let_def)
qed simp

definition root_piece :: "archive_root \<Rightarrow> piece" where
  "root_piece r = \<lparr>pc_name = ustr ''./'', pc_fields = root_fields r, pc_flag = 53, pc_link = [], pc_body = []\<rparr>"

lemma write_ustar_stream:
  assumes "write_ustar H U plan s = (Inr (sha, n), t)" and "list_all (entry_readable B) (pl_entries plan)"
  obtains es bodies b bs where "ordered_entries plan = Inr es" and "list_all2 (body_of H U) es bodies"
    and "block (root_piece (pl_root plan)) = Inr b"
    and "list_all2 (\<lambda>p b. block p = Inr b) (map2 entry_piece es bodies) bs"
    and "us_written t = concat (b # bs) @ replicate 1024 0"
    and "sha = H (us_written t)" and "n = length (us_written t)"
proof -
  let ?s = "s\<lparr>us_written := []\<rparr>"
  from assms(1) obtain u v es emitted where
    h: "emit_header U (ustr ''./'') (root_fields (pl_root plan)) 53 0 [] ?s = (Inr (), u)"
    and es': "Inr es = ordered_entries plan" and e: "emit_entries H U [] es u = (Inr emitted, v)"
    and z: "emit_all U (replicate 1024 0) v = (Inr (), t)" and r: "sha = H (us_written t)" "n = length (us_written t)"
    by (auto simp: write_ustar_def ebind_Inr)
  note es = es' [symmetric]
  have "list_all (entry_readable B) es"
    using assms(2) ordered_entries_mset [OF es] by (metis list_all_iff mset_eq_setD)
  from emit_entries_blocks [OF e this] obtain bodies bs where b: "list_all2 (body_of H U) es bodies"
    "us_written v = us_written u @ concat bs" "list_all2 (\<lambda>p b. block p = Inr b) (map2 entry_piece es bodies) bs"
    by blast
  from emit_header_written [OF h] obtain hb where hb:
    "header (ustr ''./'') (root_fields (pl_root plan)) 53 0 [] = Inr hb" "us_written u = hb" by auto
  then have "block (root_piece (pl_root plan)) = Inr hb" by (simp add: block_def root_piece_def piece_link_def)
  moreover have "us_written t = concat (hb # bs) @ replicate 1024 0" using emit_all_written [OF z] b(2) hb(2) by simp
  ultimately show ?thesis using es b r by (intro that)
qed

text \<open>C15. The canonical stream reads back: when \<open>write_ustar\<close> returns, whatever the lengths of the
  writes, the reader of the archive preflight accepts the bytes written and finds the root and then
  exactly the planned entries in canonical order, each with its name, kind, owner, mode, time and
  link, and every file with content of the planned digest; the digest and the size returned are
  those of the bytes written.\<close>

theorem ustar_reads_back:
  assumes "write_ustar H U plan s = (Inr (sha, n), t)" and "reads_bounded U"
    and "list_all (entry_readable B) (pl_entries plan)" and "rt_mode (pl_root plan) \<le> 4095"
    and "int (length (pl_entries plan)) < max_entries B" and "0 \<le> max_regular_bytes B"
  shows "\<exists>es root frames. ordered_entries plan = Inr es \<and> mset es = mset (pl_entries plan) \<and>
    raw_tar_frames (us_written t) B = Inr (root # frames) \<and> rm_name root = ustr ''./'' \<and> rm_kind root = KDirectory \<and>
    list_all2 (frame_matches H (us_written t)) frames es \<and> sha = H (us_written t) \<and> n = length (us_written t)"
  using assms(1,3)
proof (rule write_ustar_stream)
  fix es bodies b bs
  assume es: "ordered_entries plan = Inr es" and bodies: "list_all2 (body_of H U) es bodies"
    and b: "block (root_piece (pl_root plan)) = Inr b"
    and bs: "list_all2 (\<lambda>p b. block p = Inr b) (map2 entry_piece es bodies) bs"
    and t: "us_written t = concat (b # bs) @ replicate 1024 0" and r: "sha = H (us_written t)" "n = length (us_written t)"
  let ?ps = "root_piece (pl_root plan) # map2 entry_piece es bodies"
  have perm: "mset es = mset (pl_entries plan)" using es by (rule ordered_entries_mset)
  then have "length es = length (pl_entries plan)" "list_all (entry_readable B) es"
    using assms(3) by (metis size_mset, metis list_all_iff mset_eq_setD)
  moreover from this have "list_all (piece_ok B) ?ps"
    using pieces_ok [OF bodies _ assms(2,6)] assms(4,6)
    by (simp add: piece_ok_def root_piece_def root_fields_def ustr_def)
  ultimately have frames: "raw_tar_frames (us_written t) B = Inr (members_at 0 ?ps)"
    unfolding t using assms(5) b bs list_all2_lengthD [OF bodies] by (intro frames_of_stream) auto
  have "list_all2 (frame_matches H (us_written t)) (members_at (length b) (map2 entry_piece es bodies)) es"
    using members_match [OF bodies bs, of b "replicate 1024 0"] by (simp add: t)
  then show ?thesis
    using es perm frames r block_length [OF b]
    by (simp add: piece_member_def root_piece_def kind_of_flag_def)
qed

theorem ustar_reads_back_witness:
  "\<exists>sha n t es root frames. write_ustar sample_digest sample_env sample_plan sample_state = (Inr (sha, n), t) \<and>
    ordered_entries sample_plan = Inr es \<and>
    raw_tar_frames (us_written t) \<lparr>max_entries = 9, max_regular_bytes = 9, max_path_bytes = 9, max_component_bytes = 9, max_file_bytes = 9\<rparr>
      = Inr (root # frames) \<and> list_all2 (frame_matches sample_digest (us_written t)) frames es"
proof -
  obtain sha n t where w: "write_ustar sample_digest sample_env sample_plan sample_state = (Inr (sha, n), t)"
    using sample_written by blast
  have "reads_bounded sample_env" by (auto simp: reads_bounded_def sample_env_def)
  from ustar_reads_back [OF w this, of "\<lparr>max_entries = 9, max_regular_bytes = 9, max_path_bytes = 9,
      max_component_bytes = 9, max_file_bytes = 9\<rparr>"] w show ?thesis
    by (auto simp: sample_plan_def sample_entry_def sample_dir_def sample_file_def entry_readable_def entry_link_def
        ROOT_POLICY_def ustr_def)
qed

section \<open>The archive preflight\<close>

definition stays_bounded :: "int \<Rightarrow> bytes \<Rightarrow> ('d \<times> bytes) result \<Rightarrow> bool" where
  "stays_bounded maximum out r \<longleftrightarrow> int (length out) \<le> maximum \<longrightarrow> (\<forall>d v. r = Inr (d, v) \<longrightarrow> int (length v) \<le> maximum)"

lemma inflate_pending_bound: "inflate_pending D maximum pending d out = Some r \<Longrightarrow> stays_bounded maximum out r"
proof (erule inflate_pending.raw_induct [where P = "\<lambda>D maximum pending d out r. stays_bounded maximum out r", rotated])
  fix ip :: "'a decoder \<Rightarrow> int \<Rightarrow> bytes \<Rightarrow> 'a \<Rightarrow> bytes \<Rightarrow> ('a \<times> bytes) result option"
    and D :: "'a decoder" and maximum pending d out r
  assume IH: "\<And>D maximum pending d out r. ip D maximum pending d out = Some r \<Longrightarrow> stays_bounded maximum out r"
  assume step: "(if pending \<noteq> [] \<or> (case d_needs_input D of None \<Rightarrow> False | Some f \<Rightarrow> \<not> f d \<and> \<not> d_eof D d) then
        (case d_decompress D d pending (maximum + 1 - int (length out)) of
           None \<Rightarrow> Some (Inl ArchivePreflightError)
         | Some (output, d') \<Rightarrow>
             if int (length (out @ output)) \<le> maximum \<and> d_unused D d' = [] \<and>
                (case d_unconsumed D of None \<Rightarrow> True | Some f \<Rightarrow> f d' = [])
             then ip D maximum [] d' (out @ output)
             else Some (Inl ArchivePreflightError))
      else Some (Inr (d, out))) = Some r"
  then consider "r = Inl ArchivePreflightError" | "r = Inr (d, out)"
    | more_out d' where "int (length (out @ more_out)) \<le> maximum" "ip D maximum [] d' (out @ more_out) = Some r"
    by (auto split: if_splits option.splits)
  then show "stays_bounded maximum out r"
    by cases (auto simp: stays_bounded_def dest!: IH)
qed

lemma inflate_bound:
  "inflate D maximum cs d out = Some (Inr v) \<Longrightarrow> int (length out) \<le> maximum \<Longrightarrow> int (length v) \<le> maximum"
proof (induction D maximum cs d out rule: inflate.induct)
  case (2 D maximum c cs d out)
  then obtain d' out' where i: "inflate_pending D maximum c d out = Some (Inr (d', out'))"
    and r: "inflate D maximum cs d' out' = Some (Inr v)"
    by (auto simp: orbind_def split: if_splits option.splits sum.splits)
  have "int (length out') \<le> maximum" using inflate_pending_bound [OF i] "2.prems"(2) by (simp add: stays_bounded_def)
  with r i 2 show ?case by (auto split: if_splits)
qed simp

text \<open>C23. Decompression is bounded: whatever the decoder produces, a decompressed member never exceeds
  the maximum of the contract.\<close>

theorem decompress_bounded:
  "case decompress_tar gz xz name raw maximum of
     Some (Inr out) \<Rightarrow> int (length out) \<le> maximum
   | _ \<Rightarrow> True"
proof (cases "decompress_tar gz xz name raw maximum")
  case (Some r)
  show ?thesis
  proof (cases r)
    case (Inr out)
    with Some have "int (length out) \<le> maximum"
      by (auto simp: decompress_tar_def split: if_splits dest!: inflate_bound)
    with Some Inr show ?thesis by simp
  qed (simp add: Some)
qed simp

text \<open>C18. An accepted archive is sound. Its paths are distinct and stay below the root. The text of every symbolic link is
  the link name of its member, and walked from the directory of the link, going up for each \<^verbatim>\<open>..\<close> and never above the root, it
  ends at the recorded path below the root; an absolute text, which only a guest image may have, is that path behind a slash. No path passes through a symbolic
  link; hard links name files of the archive with the same mode, owner and time; every file's bytes lie in the archive and
  have the recorded digest; sizes are within the contract; and every record describes a member of the archive.\<close>

theorem preflight_sound:
  "case preflight_material_tar E raw B profile at of
     Inl e \<Rightarrow> True
   | Inr t \<Rightarrow> archive_sound E B t \<and> pt_raw t = raw \<and>
       (\<exists>frames. raw_tar_frames raw B = Inr frames \<and>
          list_all (\<lambda>r. list_ex (\<lambda>f. records_member E B profile f r) frames) (pt_records t))"
proof (cases "preflight_material_tar E raw B profile at")
  case (Inr t)
  then show ?thesis using material_sound [OF Inr] material_members [OF Inr] by simp
qed simp

text \<open>An accepted Debian package has exactly its three members, recorded with their lengths and
  digests, and a sound payload.\<close>

theorem deb_preflight_sound:
  "case preflight_fixed_deb E gz xz raw expected B at of
     Some (Inr deb) \<Rightarrow> archive_sound E B (pd_payload deb) \<and>
       (\<exists>members. ar_members raw = Inr members \<and> length members = 3 \<and>
         pd_members deb = map (\<lambda>(name, body). (name, length body, e_digest E body)) members)
   | _ \<Rightarrow> True"
proof (cases "preflight_fixed_deb E gz xz raw expected B at")
  case (Some r)
  show ?thesis
  proof (cases r)
    case (Inr deb)
    with Some obtain members data_raw payload where m: "ar_members raw = Inr members"
      "preflight_material_tar E data_raw B Package at = Inr payload"
      and d: "pd_members deb = map (\<lambda>(name, body). (name, length body, e_digest E body)) members" "pd_payload deb = payload"
      by (auto simp: preflight_fixed_deb_def orbind_def Let_def split: option.splits sum.splits)
    moreover from m(1) have "length members = 3" by (auto simp: ar_members_def)
    ultimately show ?thesis using Some Inr material_sound [OF m(2)] by simp
  qed (simp add: Some)
qed simp

section \<open>The plan\<close>

text \<open>The overlay: an accepted plan is strictly ordered by path, its graph is closed (every parent
  is a planned directory, hard links name planned files), every entry is a record of one of the
  sources, and every record of every source is planned, or is a directory planned by a later one.\<close>

theorem plan_sources_sound:
  "case plan_sources base packages of
     Inl e \<Rightarrow> True
   | Inr plan \<Rightarrow> plan_sound plan \<and>
       list_all (comes_from ((OCI_LAYER, base) # packages)) (pl_entries plan) \<and>
       list_all (\<lambda>(source, archive). list_all (covered (entry_map plan) source archive) (pt_records archive))
         ((OCI_LAYER, base) # packages)"
proof (cases "plan_sources base packages")
  case (Inr plan)
  then show ?thesis
  proof (rule plan_sources_dict)
    fix m assume "plan_sound plan" and m: "map_of (entry_map plan) = map_of m"
      and c: "\<forall>(source, archive)\<in>set ((OCI_LAYER, base) # packages). \<forall>r\<in>set (pt_records archive). covered m source archive r"
      and f: "\<forall>e\<in>set (pl_entries plan). comes_from ((OCI_LAYER, base) # packages) e"
    moreover have "covered (entry_map plan) = covered m" by (intro ext) (simp only: covered_def m)
    ultimately show ?thesis by (simp add: Inr list_all_iff)
  qed
qed simp

text \<open>C17. Transitions do what they say and nothing else: after an accepted application the plan is
  sound again, a path that a transition names holds its result, every other path what it held, each
  transition was checked against the entry it replaces, and the content of every file it installs
  has the recorded digest.\<close>

theorem transitions_effect:
  assumes "plan_ordered (pl_entries plan)"
  shows "case apply_transitions H plan trs of
     Inl e \<Rightarrow> True
   | Inr plan' \<Rightarrow> plan_sound plan' \<and> map_of (entry_map plan') = after_transitions trs (map_of (entry_map plan)) \<and>
       distinct (map tr_path trs) \<and>
       list_all (\<lambda>tr. transition_check tr (map_of (entry_map plan) (tr_path tr)) \<and>
         (case tr_result tr of None \<Rightarrow> True | Some e \<Rightarrow> content_ok H e)) trs"
proof (cases "apply_transitions H plan trs")
  case (Inr plan')
  then show ?thesis
    using apply_transitions_effect [OF Inr assms] by (auto simp: list_all_iff split: option.splits)
qed simp

lemma sample_plan_ordered: "plan_ordered (pl_entries sample_plan)"
  by (rule plan_sources_dict [OF sample_planned]) (simp add: plan_sound_def)

theorem transitions_effect_witness:
  "\<exists>plan'. apply_transitions sample_digest sample_plan [sample_transition] = Inr plan' \<and> plan_sound plan' \<and>
     map_of (entry_map plan') = after_transitions [sample_transition] (map_of (entry_map sample_plan))"
proof -
  obtain plan' where p: "apply_transitions sample_digest sample_plan [sample_transition] = Inr plan'"
    using sample_transition_applies by blast
  then show ?thesis
    using transitions_effect [OF sample_plan_ordered, where H = sample_digest and trs = "[sample_transition]"] by auto
qed

text \<open>C16. The image is complete: in a plan made from sound archives and accepted transitions, the
  content of every file can be had and has the planned digest.\<close>

theorem image_contents:
  assumes "list_all (\<lambda>(source, archive). archive_sound E B archive) ((OCI_LAYER, base) # packages)"
    and "plan_sources base packages = Inr plan" and "apply_transitions (e_digest E) plan trs = Inr plan'"
  shows "list_all (content_ok (e_digest E)) (pl_entries plan')"
  using assms(2)
proof (rule plan_sources_dict)
  assume "plan_sound plan" and f: "\<forall>e\<in>set (pl_entries plan). comes_from ((OCI_LAYER, base) # packages) e"
  have "content_ok (e_digest E) e" if "e \<in> set (pl_entries plan)" for e
    by (rule source_content_ok [of "(OCI_LAYER, base) # packages"]) (use f that assms(1) in \<open>auto simp: list_all_iff\<close>)
  with \<open>plan_sound plan\<close> transitions_content_ok [OF assms(3)] show ?thesis by (auto simp: plan_sound_def list_all_iff)
qed

theorem image_contents_witness:
  "\<exists>plan'. apply_transitions sample_digest sample_plan [sample_transition] = Inr plan' \<and>
     list_all (content_ok sample_digest) (pl_entries plan')"
proof -
  let ?E = "\<lparr>e_digest = sample_digest, e_unicode = \<lparr>nfc = (\<lambda>s. s), other_category = (\<lambda>c. False)\<rparr>, e_tarfile = (\<lambda>raw. None)\<rparr>"
  let ?B = "\<lparr>max_entries = 9, max_regular_bytes = 9, max_path_bytes = 9, max_component_bytes = 9, max_file_bytes = 9\<rparr>"
  obtain plan' where p: "apply_transitions sample_digest sample_plan [sample_transition] = Inr plan'"
    using sample_transition_applies by blast
  then show ?thesis
    using image_contents [of ?E ?B sample_base "[]" sample_plan "[sample_transition]" plan'] sample_planned sample_sound
    by simp
qed

end
