(* ===== verification/Elf.thy ===== *)
theory Elf
  imports PyBytes
begin

unbundle bit_operations_syntax

text \<open>
  The bounded parser of the fixed x86-64 ELF profile (\<^verbatim>\<open>remote/completion_elf.py\<close>). Fields are
  Python integers read little-endian with \<^verbatim>\<open>struct.unpack_from\<close>; the addresses of the file are
  64-bit, and \<open>span\<close> is where the source checks that a start and a size stay below \<open>2 ^ 64\<close>. A read
  past the end is \<^verbatim>\<open>struct.error\<close>, which \<open>parse_elf64\<close> turns into its own error; an index past the
  end would be an \<^verbatim>\<open>IndexError\<close> that it does not catch.
\<close>

definition MAX_FILE_SIZE :: nat where "MAX_FILE_SIZE = 134217728"
definition MAX_PROGRAM_HEADERS :: int where "MAX_PROGRAM_HEADERS = 256"
definition MAX_SECTION_HEADERS :: int where "MAX_SECTION_HEADERS = 4096"
definition MAX_DYNAMIC_SIZE :: int where "MAX_DYNAMIC_SIZE = 65536"
definition MAX_INTERPRETER_SIZE :: int where "MAX_INTERPRETER_SIZE = 256"
definition MAX_NAME_SIZE :: int where "MAX_NAME_SIZE = 255"
definition MAX_NEEDED :: nat where "MAX_NEEDED = 128"
definition PAGE_SIZE :: int where "PAGE_SIZE = 4096"
definition PAGE_MASK :: int where "PAGE_MASK = PAGE_SIZE - 1"
definition U64_MAX :: int where "U64_MAX = 2 ^ 64 - 1"

definition INTERPRETER :: pystr where "INTERPRETER = ustr ''/lib64/ld-linux-x86-64.so.2''"

definition NAME_BYTES :: bytes where
  "NAME_BYTES = ustr ''ABCDEFGHIJKLMNOPQRSTUVWXYZabcdefghijklmnopqrstuvwxyz0123456789._+-''"

definition FORBIDDEN_DYNAMIC_TAGS :: "int list" where
  "FORBIDDEN_DYNAMIC_TAGS = [15, 29, 0x6FFFFEFA, 0x6FFFFEFB, 0x6FFFFEFC, 0x7FFFFFFD, 0x7FFFFFFF]"

definition supported_tag :: "int \<Rightarrow> bool" where
  "supported_tag t \<longleftrightarrow> 1 \<le> t \<and> t < 15 \<or> 16 \<le> t \<and> t < 29 \<or> t \<in> {30, 32, 33, 34, 35, 36, 37} \<or>
     t \<in> {0x6FFFFEF5, 0x6FFFFFF0} \<or> 0x6FFFFFF9 \<le> t \<and> t < 0x70000000 \<or> t \<in> {0x70000000, 0x70000001, 0x70000003}"

definition erequire :: "bool \<Rightarrow> 'a result \<Rightarrow> 'a result" where
  "erequire c k = require c ElfParseError k"

lemma erequire_Inr [simp]: "erequire c k = Inr x \<longleftrightarrow> c \<and> k = Inr x"
  by (simp add: erequire_def)

record elf_metadata =
  em_interpreter :: "pystr option"
  em_soname :: "pystr option"
  em_needed :: "pystr list"

record load =
  virtual_start :: int
  virtual_end :: int
  file_start :: int
  file_end :: int
  virtual_page_start :: int
  memory_page_end :: int
  file_page_start :: int
  file_page_end :: int
  bss_start :: "int option"

definition delta :: "load \<Rightarrow> int" where
  "delta l = file_page_start l - virtual_page_start l"

definition virtual_file_page_end :: "load \<Rightarrow> int" where
  "virtual_file_page_end l = virtual_page_start l + file_page_end l - file_page_start l"

definition file_identity_end :: "load \<Rightarrow> int" where
  "file_identity_end l = (case bss_start l of Some b \<Rightarrow> b | None \<Rightarrow> virtual_file_page_end l)"

section \<open>Fields\<close>

fun le_value :: "bytes \<Rightarrow> int" where
  "le_value [] = 0"
| "le_value (b # bs) = int b + 256 * le_value bs"

definition field :: "bytes \<Rightarrow> int \<Rightarrow> nat \<Rightarrow> int result" where
  "field data offset width =
     (let at = nat offset in
      erequire (at + width \<le> length data) (Inr (le_value (slice at (at + width) data))))"

definition span :: "int \<Rightarrow> int \<Rightarrow> int \<Rightarrow> (int \<times> int) result" where
  "span start bytes limit =
     erequire (0 \<le> start \<and> start \<le> U64_MAX)
     (erequire (0 \<le> bytes \<and> bytes \<le> U64_MAX)
     (erequire (start \<le> U64_MAX - bytes)
     (erequire (start + bytes \<le> limit) (Inr (start, start + bytes)))))"

definition page_start :: "int \<Rightarrow> int" where
  "page_start v = v AND NOT PAGE_MASK"

definition page_end :: "int \<Rightarrow> int result" where
  "page_end v = (let rounded = (v + PAGE_MASK) AND NOT PAGE_MASK in erequire (rounded \<le> U64_MAX) (Inr rounded))"

section \<open>The file header\<close>

definition elf_header :: "bytes \<Rightarrow> (int \<times> int) result" where
  "elf_header data =
     erequire (64 \<le> length data \<and> length data \<le> MAX_FILE_SIZE)
     (rbind (field data 16 2) (\<lambda>elf_type. rbind (field data 18 2) (\<lambda>machine. rbind (field data 20 4) (\<lambda>version.
      rbind (field data 32 8) (\<lambda>program_offset. rbind (field data 40 8) (\<lambda>section_offset.
      rbind (field data 48 4) (\<lambda>flags. rbind (field data 52 2) (\<lambda>header_size. rbind (field data 54 2) (\<lambda>program_size.
      rbind (field data 56 2) (\<lambda>program_count. rbind (field data 58 2) (\<lambda>section_size.
      rbind (field data 60 2) (\<lambda>section_count. rbind (field data 62 2) (\<lambda>section_names.
      erequire (take 7 data = [127, 69, 76, 70, 2, 1, 1])
      (erequire (data ! 7 \<in> {0, 3} \<and> slice 8 16 data = replicate 8 0)
      (erequire (elf_type \<in> {2, 3} \<and> machine = 62 \<and> version = 1)
      (erequire (flags = 0 \<and> header_size = 64 \<and> program_size = 56)
      (erequire (0 < program_count \<and> program_count \<le> MAX_PROGRAM_HEADERS)
      (erequire (program_offset mod 8 = 0)
      (erequire
         (section_offset = 0 \<and> section_size = 0 \<and> section_count = 0 \<and> section_names = 0 \<or>
          section_offset mod 8 = 0 \<and> section_size = 64 \<and> 0 < section_count \<and> section_count \<le> MAX_SECTION_HEADERS \<and>
          section_names < section_count)
      (rbind (span program_offset (program_count * program_size) (int (length data))) (\<lambda>(program_start, program_end).
       erequire (header_size \<le> program_start)
       (if section_count \<noteq> 0 then
          rbind (span section_offset (section_count * section_size) (int (length data))) (\<lambda>(section_start, section_end).
          erequire (header_size \<le> section_start)
          (erequire (section_end \<le> program_start \<or> program_end \<le> section_start)
          (Inr (program_start, program_count))))
        else Inr (program_start, program_count)))))))))))))))))))))))"

section \<open>Program headers\<close>

type_synonym segment = "int \<times> int \<times> int \<times> int"

record segments =
  sg_loads :: "load list"
  sg_dynamic :: "segment list"
  sg_interpreter :: "segment list"

definition load_segment :: "int \<Rightarrow> int \<Rightarrow> int \<Rightarrow> int \<Rightarrow> int \<Rightarrow> int \<Rightarrow> load result" where
  "load_segment address memory_end file_offset file_stop file_size memory_size =
     rbind (page_end memory_end) (\<lambda>memory_page.
     rbind (page_end file_stop) (\<lambda>file_page.
     Inr \<lparr>virtual_start = address, virtual_end = memory_end, file_start = file_offset, file_end = file_stop,
          virtual_page_start = page_start address, memory_page_end = memory_page,
          file_page_start = page_start file_offset, file_page_end = file_page,
          bss_start = (if file_size < memory_size then Some (address + file_size) else None)\<rparr>))"

definition program_header :: "bytes \<Rightarrow> int \<Rightarrow> segments \<Rightarrow> segments result" where
  "program_header data offset sg =
     rbind (field data offset 4) (\<lambda>kind. rbind (field data (offset + 4) 4) (\<lambda>segment_flags.
     rbind (field data (offset + 8) 8) (\<lambda>file_offset. rbind (field data (offset + 16) 8) (\<lambda>address.
     rbind (field data (offset + 32) 8) (\<lambda>file_size. rbind (field data (offset + 40) 8) (\<lambda>memory_size.
     rbind (field data (offset + 48) 8) (\<lambda>alignment.
     rbind (span file_offset file_size (int (length data))) (\<lambda>(_, file_stop).
     erequire (segment_flags AND NOT 7 = 0)
     (erequire (file_size \<le> memory_size)
     (erequire (alignment = 0 \<or> alignment AND (alignment - 1) = 0)
     (erequire (alignment \<in> {0, 1} \<or> file_offset mod alignment = address mod alignment)
     (rbind (span address memory_size U64_MAX) (\<lambda>(_, memory_end).
      let segment = (address, memory_end, file_offset, file_stop) in
      if kind = 1 then
        erequire (0 < file_size \<and> 0 < memory_size)
        (erequire (PAGE_SIZE \<le> alignment)
        (erequire (file_offset mod PAGE_SIZE = address mod PAGE_SIZE)
        (rbind (load_segment address memory_end file_offset file_stop file_size memory_size) (\<lambda>l.
         erequire (virtual_file_page_end l \<le> memory_page_end l)
         (erequire (sg_loads sg = [] \<or>
            virtual_page_start (last (sg_loads sg)) < virtual_page_start l \<and>
            file_page_start (last (sg_loads sg)) \<le> file_page_start l)
         (Inr (sg\<lparr>sg_loads := sg_loads sg @ [l]\<rparr>)))))))
      else if kind = 2 then
        erequire (file_size = memory_size) (Inr (sg\<lparr>sg_dynamic := sg_dynamic sg @ [segment]\<rparr>))
      else if kind = 3 then
        erequire (file_size = memory_size) (Inr (sg\<lparr>sg_interpreter := sg_interpreter sg @ [segment]\<rparr>))
      else Inr sg))))))))))))) "

fun program_headers :: "bytes \<Rightarrow> int list \<Rightarrow> segments \<Rightarrow> segments result" where
  "program_headers data [] sg = Inr sg"
| "program_headers data (offset # rest) sg = rbind (program_header data offset sg) (program_headers data rest)"

definition pair_ok :: "load \<Rightarrow> load \<Rightarrow> bool" where
  "pair_ok left right \<longleftrightarrow>
     (let vs = max (virtual_page_start left) (virtual_page_start right);
          ve = min (memory_page_end left) (memory_page_end right) in
      \<not> vs < ve \<or> delta left = delta right \<and> ve \<le> file_identity_end left \<and> ve \<le> file_identity_end right)"

fun overlaps_ok :: "load list \<Rightarrow> bool" where
  "overlaps_ok [] = True"
| "overlaps_ok (l # ls) \<longleftrightarrow> list_all (pair_ok l) ls \<and> overlaps_ok ls"

section \<open>Mapped bytes\<close>

definition covers :: "load \<Rightarrow> int \<Rightarrow> int \<Rightarrow> bool" where
  "covers l address stop \<longleftrightarrow> virtual_start l \<le> address \<and> stop \<le> virtual_start l + file_end l - file_start l"

definition mapped :: "load list \<Rightarrow> int \<Rightarrow> int \<Rightarrow> int result" where
  "mapped loads address bytes =
     rbind (span address bytes U64_MAX) (\<lambda>(_, stop).
     let offsets = remdups (map (\<lambda>l. file_start l + address - virtual_start l) (filter (\<lambda>l. covers l address stop) loads)) in
     erequire (length offsets = 1) (Inr (hd offsets)))"

definition interpreter_of :: "bytes \<Rightarrow> segments \<Rightarrow> pystr option result" where
  "interpreter_of data sg =
     (case sg_interpreter sg of
        [] \<Rightarrow> Inr None
      | (address, _, offset, file_stop) # _ \<Rightarrow>
          let bytes = file_stop - offset in
          erequire (1 < bytes \<and> bytes \<le> MAX_INTERPRETER_SIZE)
          (rbind (mapped (sg_loads sg) address bytes) (\<lambda>at.
           erequire (at = offset)
           (let raw = py_slice offset file_stop data in
            erequire (ends_with [0] raw)
            (erequire (0 \<notin> set (butlast raw))
            (erequire (list_all (\<lambda>b. 32 \<le> b \<and> b \<le> 126) (butlast raw))
            (erequire (butlast raw = INTERPRETER) (Inr (Some (butlast raw))))))))))"

fun dynamic_tags :: "bytes \<Rightarrow> int list \<Rightarrow> bool \<Rightarrow> (int \<times> int) list \<Rightarrow> (int \<times> int) list result" where
  "dynamic_tags data [] terminated tags = erequire terminated (Inr tags)"
| "dynamic_tags data (offset # rest) terminated tags =
     rbind (field data offset 8) (\<lambda>tag. rbind (field data (offset + 8) 8) (\<lambda>v.
     if terminated then erequire (tag = 0 \<and> v = 0) (dynamic_tags data rest True tags)
     else if tag = 0 then erequire (v = 0) (dynamic_tags data rest True tags)
     else erequire (tag \<notin> set FORBIDDEN_DYNAMIC_TAGS)
       (erequire (supported_tag tag) (dynamic_tags data rest False (tags @ [(tag, v)])))))"

definition tag_values :: "(int \<times> int) list \<Rightarrow> int \<Rightarrow> int list" where
  "tag_values tags t = map snd (filter (\<lambda>(t', v). t' = t) tags)"

definition offsets_between :: "int \<Rightarrow> int \<Rightarrow> int \<Rightarrow> int list" where
  "offsets_between start stop step = map (\<lambda>i. start + int i * step) [0..<nat ((stop - start) div step)]"

definition dynamic_of :: "bytes \<Rightarrow> segments \<Rightarrow> (int \<times> int) list result" where
  "dynamic_of data sg =
     (case sg_dynamic sg of
        [] \<Rightarrow> Inl PyIndexError
      | (address, _, dynamic_offset, dynamic_end) # _ \<Rightarrow>
          let bytes = dynamic_end - dynamic_offset in
          erequire (16 \<le> bytes \<and> bytes \<le> MAX_DYNAMIC_SIZE)
          (erequire (bytes mod 16 = 0)
          (rbind (mapped (sg_loads sg) address bytes) (\<lambda>at.
           erequire (at = dynamic_offset)
           (rbind (dynamic_tags data (offsets_between dynamic_offset dynamic_end 16) False []) (\<lambda>tags.
            erequire (list_all (\<lambda>(t, v). t = 1 \<or> length (tag_values tags t) = 1) tags)
            (erequire (tag_values tags 30 = [] \<or> hd (tag_values tags 30) AND NOT 31 = 0)
            (erequire (tag_values tags 0x6FFFFFFB = [] \<or>
               hd (tag_values tags 0x6FFFFFFB) AND NOT 0x7FFFFFFF = 0 \<and> hd (tag_values tags 0x6FFFFFFB) AND 0x800 = 0)
            (Inr tags)))))))))"

section \<open>Names\<close>

definition string_table :: "bytes \<Rightarrow> load list \<Rightarrow> (int \<times> int) list \<Rightarrow> (int \<times> int) result" where
  "string_table data loads tags =
     (case (tag_values tags 5, tag_values tags 10) of
        ([table], [string_size]) \<Rightarrow>
          erequire (0 < string_size \<and> string_size \<le> int (length data))
          (rbind (mapped loads table string_size) (\<lambda>string_offset.
           rbind (span string_offset string_size (int (length data))) (\<lambda>(_, string_end).
           require (nat string_offset < length data) PyIndexError
           (erequire (data ! nat string_offset = 0) (Inr (string_offset, string_end))))))
      | _ \<Rightarrow> Inl ElfParseError)"

text \<open>\<^verbatim>\<open>data.find(b"\0", start, limit)\<close>, as the index it returns or \<open>-1\<close>.\<close>

definition find_nul :: "bytes \<Rightarrow> int \<Rightarrow> int \<Rightarrow> int" where
  "find_nul data start limit =
     (case find_first (\<lambda>b. b = 0) (slice (nat start) (nat limit) data) of None \<Rightarrow> - 1 | Some i \<Rightarrow> start + int i)"

definition name_at :: "bytes \<Rightarrow> int \<Rightarrow> int \<Rightarrow> int \<Rightarrow> pystr result" where
  "name_at data string_offset string_end relative =
     erequire (relative < string_end - string_offset)
     (let start = string_offset + relative; limit = min (start + MAX_NAME_SIZE + 1) string_end;
          stop = find_nul data start limit in
      erequire (start < stop \<and> stop < string_end)
      (let raw = slice (nat start) (nat stop) data in
       erequire (list_all (\<lambda>b. b \<in> set NAME_BYTES) raw) (Inr raw)))"

definition parse_elf64 :: "bytes \<Rightarrow> elf_metadata result" where
  "parse_elf64 data =
     rbind (elf_header data) (\<lambda>(program_start, program_count).
     rbind (program_headers data (map (\<lambda>i. program_start + int i * 56) [0..<nat program_count])
       \<lparr>sg_loads = [], sg_dynamic = [], sg_interpreter = []\<rparr>) (\<lambda>sg.
     erequire (sg_loads sg \<noteq> [] \<and> length (sg_dynamic sg) = 1)
     (erequire (length (sg_interpreter sg) \<le> 1)
     (erequire (overlaps_ok (sg_loads sg))
     (rbind (interpreter_of data sg) (\<lambda>interpreter.
      rbind (dynamic_of data sg) (\<lambda>tags.
      rbind (string_table data (sg_loads sg) tags) (\<lambda>(string_offset, string_end).
      erequire (length (tag_values tags 1) \<le> MAX_NEEDED)
      (rbind (map_result (name_at data string_offset string_end) (tag_values tags 1)) (\<lambda>needed.
       erequire (distinct needed)
       (rbind (case tag_values tags 14 of
                 [] \<Rightarrow> Inr None
               | relative # _ \<Rightarrow> rbind (name_at data string_offset string_end relative) (\<lambda>n. Inr (Some n))) (\<lambda>soname.
        Inr \<lparr>em_interpreter = interpreter, em_soname = soname, em_needed = needed\<rparr>))))))))))))"

end
