(* ===== verification/ElfSafety.thy ===== *)
theory ElfSafety
  imports Elf
begin

text \<open>
  The theorems of the ELF parser: it raises nothing but its own error, and the dependency metadata
  it returns is made of bounded names that stand, terminated, in the file.
\<close>

section \<open>Only one error\<close>

definition only :: "exn \<Rightarrow> 'a result \<Rightarrow> bool" where
  "only e m \<longleftrightarrow> (\<forall>x. m = Inl x \<longrightarrow> x = e)"

lemma only_Inr: "only e (Inr x)"
  by (simp add: only_def)

lemma only_Inl: "only e (Inl e)"
  by (simp add: only_def)

lemma only_erequire: "(c \<Longrightarrow> only ElfParseError k) \<Longrightarrow> only ElfParseError (erequire c k)"
  by (simp add: only_def erequire_def require_def)

lemma only_require: "c \<Longrightarrow> only e k \<Longrightarrow> only e (require c e' k)"
  by (simp add: only_def)

lemma only_rbind: "only e m \<Longrightarrow> (\<And>x. m = Inr x \<Longrightarrow> only e (f x)) \<Longrightarrow> only e (rbind m f)"
  by (cases m) (auto simp: only_def)

lemma only_if: "(c \<Longrightarrow> only e m) \<Longrightarrow> (\<not> c \<Longrightarrow> only e m') \<Longrightarrow> only e (if c then m else m')"
  by simp

lemma only_prod: "(\<And>a b. x = (a, b) \<Longrightarrow> only e (f a b)) \<Longrightarrow> only e (case x of (a, b) \<Rightarrow> f a b)"
  by (cases x) simp

lemmas only_intros = only_Inr only_Inl only_erequire only_rbind only_if only_prod

lemma only_map_result: "(\<And>x. only e (f x)) \<Longrightarrow> only e (map_result f xs)"
  by (induction xs) (auto intro!: only_intros)

lemma only_field: "only ElfParseError (field data offset width)"
  by (auto simp: field_def Let_def intro!: only_intros)

lemma only_span: "only ElfParseError (span start n limit)"
  by (auto simp: span_def intro!: only_intros)

lemma only_header: "only ElfParseError (elf_header data)"
  by (auto simp: elf_header_def intro!: only_intros only_field only_span)

lemma only_page_end: "only ElfParseError (page_end v)"
  by (auto simp: page_end_def Let_def intro!: only_intros)

lemma only_program_header: "only ElfParseError (program_header data offset sg)"
  by (auto simp: program_header_def load_segment_def Let_def intro!: only_intros only_field only_span only_page_end)

lemma only_program_headers: "only ElfParseError (program_headers data offsets sg)"
  by (induction offsets arbitrary: sg) (auto intro!: only_intros only_program_header)

lemma only_mapped: "only ElfParseError (mapped loads address n)"
  by (auto simp: mapped_def Let_def intro!: only_intros only_span)

lemma only_interpreter: "only ElfParseError (interpreter_of data sg)"
  by (auto simp: interpreter_of_def Let_def intro!: only_intros only_mapped split: list.splits)

lemma only_tags: "only ElfParseError (dynamic_tags data offsets terminated tags)"
  by (induction offsets arbitrary: terminated tags) (auto intro!: only_intros only_field)

lemma only_dynamic: "sg_dynamic sg \<noteq> [] \<Longrightarrow> only ElfParseError (dynamic_of data sg)"
  by (auto simp: dynamic_of_def Let_def intro!: only_intros only_mapped only_tags split: list.splits)

lemma span_inside: "span start n limit = Inr (a, b) \<Longrightarrow> a = start \<and> b = start + n \<and> 0 \<le> start \<and> 0 \<le> n \<and> start + n \<le> limit"
  by (auto simp: span_def)

lemma only_string_table: "only ElfParseError (string_table data loads tags)"
  by (auto simp: string_table_def intro!: only_intros only_mapped only_span only_require split: list.splits dest!: span_inside)

lemma only_name: "only ElfParseError (name_at data a b r)"
  by (auto simp: name_at_def Let_def intro!: only_intros)

lemma only_parse: "only ElfParseError (parse_elf64 data)"
  by (auto simp: parse_elf64_def intro!: only_intros only_header only_program_headers only_interpreter only_dynamic
      only_string_table only_map_result only_name split: list.splits)

section \<open>Names of the file\<close>

definition name_in :: "bytes \<Rightarrow> pystr \<Rightarrow> bool" where
  "name_in data n \<longleftrightarrow> n \<noteq> [] \<and> length n \<le> 255 \<and> set n \<subseteq> set NAME_BYTES \<and>
     (\<exists>p. p + length n < length data \<and> slice p (p + length n + 1) data = n @ [0])"

lemma slice_Suc: "b < length xs \<Longrightarrow> a \<le> b \<Longrightarrow> slice a (Suc b) xs = slice a b xs @ [xs ! b]"
  by (simp add: slice_def Suc_diff_le take_Suc_conv_app_nth)

lemma name_at_in:
  assumes "name_at data a b r = Inr n" and "0 \<le> a + r" and "b \<le> int (length data)"
  shows "name_in data n"
proof -
  define start where "start = a + r"
  define limit where "limit = min (start + 256) b"
  define stop where "stop = find_nul data start limit"
  have n: "start < stop" "stop < b" "n = slice (nat start) (nat stop) data" "list_all (\<lambda>c. c \<in> set NAME_BYTES) n"
    using assms(1) by (auto simp: name_at_def Let_def start_def limit_def stop_def MAX_NAME_SIZE_def add.assoc)
  obtain i where i: "find_first (\<lambda>c. c = 0) (slice (nat start) (nat limit) data) = Some i" "stop = start + int i"
    using n(1) assms(2) by (auto simp: stop_def find_nul_def start_def split: option.splits)
  have f: "i < nat limit - nat start" "i < length data - nat start" "slice (nat start) (nat limit) data ! i = 0"
    using find_first_Some [OF i(1)] by auto
  then have "nat start + i < length data" by (simp add: less_diff_conv add.commute)
  moreover have "i \<le> 255"
  proof -
    have "nat limit \<le> nat start + 256" using assms(2) by (simp add: limit_def start_def)
    with f(1) show ?thesis by linarith
  qed
  moreover from f have "data ! (nat start + i) = 0" by (auto simp: slice_def)
  moreover have stop: "nat stop = nat start + i" using i(2) assms(2) by (simp add: start_def)
  ultimately have len: "length n = i" and short: "i \<le> 255" "nat start + i < length data"
    and s: "slice (nat start) (Suc (nat start + i)) data = n @ [0]"
    using n(3) slice_Suc [of "nat start + i" data "nat start"] by auto
  have "n \<noteq> []" using len n(1) i(2) by auto
  moreover have "set n \<subseteq> set NAME_BYTES" using n(4) by (auto simp: list_all_iff)
  moreover have "\<exists>p. p + length n < length data \<and> slice p (p + length n + 1) data = n @ [0]"
    unfolding len by (rule exI [of _ "nat start"]) (simp add: short s)
  ultimately show ?thesis using len short(1) by (simp add: name_in_def)
qed

lemma le_value_nonneg: "0 \<le> le_value bs"
  by (induction bs) auto

lemma field_nonneg: "field data offset width = Inr v \<Longrightarrow> 0 \<le> v"
  by (auto simp: field_def Let_def le_value_nonneg)

lemma tags_nonneg:
  "dynamic_tags data offsets terminated tags = Inr tags' \<Longrightarrow> list_all (\<lambda>(t, v). 0 \<le> v) tags \<Longrightarrow> list_all (\<lambda>(t, v). 0 \<le> v) tags'"
  by (induction offsets arbitrary: terminated tags) (fastforce split: if_splits dest: field_nonneg)+

lemma tag_values_nonneg: "list_all (\<lambda>(t, v). 0 \<le> v) tags \<Longrightarrow> v \<in> set (tag_values tags t) \<Longrightarrow> 0 \<le> v"
  by (auto simp: tag_values_def list_all_iff)

lemma map_result_all: "map_result f xs = Inr ys \<Longrightarrow> (\<And>x y. x \<in> set xs \<Longrightarrow> f x = Inr y \<Longrightarrow> P y) \<Longrightarrow> list_all P ys"
proof (induction xs arbitrary: ys)
  case (Cons x xs)
  then obtain z zs where "f x = Inr z" "map_result f xs = Inr zs" "ys = z # zs" by auto
  with Cons show ?case by (metis list.pred_inject(2) list.set_intros(1,2))
qed simp

lemma map_result_length: "map_result f xs = Inr ys \<Longrightarrow> length ys = length xs"
  by (induction xs arbitrary: ys) auto

lemma dynamic_nonneg: "dynamic_of data sg = Inr tags \<Longrightarrow> list_all (\<lambda>(t, v). 0 \<le> v) tags"
  by (auto simp: dynamic_of_def Let_def split: list.splits dest!: tags_nonneg)

lemma string_table_inside:
  "string_table data loads tags = Inr (a, b) \<Longrightarrow> 0 \<le> a \<and> b \<le> int (length data)"
  by (auto simp: string_table_def split: list.splits dest!: span_inside)

lemma interpreter_fixed: "interpreter_of data sg = Inr i \<Longrightarrow> i = None \<or> i = Some INTERPRETER"
  by (auto simp: interpreter_of_def Let_def split: list.splits)

section \<open>Properties\<close>

text \<open>C24. The parser of ELF files never raises anything but its own error, whatever the bytes. What it
  returns names the fixed interpreter or none, and at most 128 distinct libraries; every name is one
  to 255 bytes of the allowed set and stands in the file, terminated by a zero byte.\<close>

theorem parse_elf64_sound:
  "case parse_elf64 data of
     Inl e \<Rightarrow> e = ElfParseError
   | Inr m \<Rightarrow> (em_interpreter m = None \<or> em_interpreter m = Some INTERPRETER) \<and>
       distinct (em_needed m) \<and> length (em_needed m) \<le> 128 \<and> list_all (name_in data) (em_needed m) \<and>
       (case em_soname m of None \<Rightarrow> True | Some n \<Rightarrow> name_in data n)"
proof (cases "parse_elf64 data")
  case (Inl e)
  then show ?thesis using only_parse [of data] by (simp add: only_def)
next
  case (Inr m)
  then obtain sg tags a b where i: "interpreter_of data sg = Inr (em_interpreter m)" and t: "dynamic_of data sg = Inr tags"
    and st: "string_table data (sg_loads sg) tags = Inr (a, b)"
    and needed: "map_result (name_at data a b) (tag_values tags 1) = Inr (em_needed m)" "distinct (em_needed m)"
      "length (tag_values tags 1) \<le> 128"
    and soname: "(case tag_values tags 14 of [] \<Rightarrow> Inr None
        | relative # _ \<Rightarrow> rbind (name_at data a b relative) (\<lambda>n. Inr (Some n))) = Inr (em_soname m)"
    by (auto simp: parse_elf64_def MAX_NEEDED_def)
  note inside = string_table_inside [OF st]
  have names: "name_in data n" if "r \<in> set (tag_values tags k)" "name_at data a b r = Inr n" for r k n
    using that inside tag_values_nonneg [OF dynamic_nonneg [OF t]] by (intro name_at_in) auto
  have "list_all (name_in data) (em_needed m)" using needed(1) names by (rule map_result_all)
  moreover have "length (em_needed m) \<le> 128"
    using needed(1,3) by (metis map_result_length)
  moreover have "case em_soname m of None \<Rightarrow> True | Some n \<Rightarrow> name_in data n"
    using soname names [of _ 14] by (fastforce split: list.splits option.splits)
  ultimately show ?thesis using Inr interpreter_fixed [OF i] needed(2) by simp
qed

end
