(* ===== verification/Fdmap.thy ===== *)
theory Fdmap
  imports Effects Json PyBytes
begin

text \<open>
  Descriptor identities, one-use input bindings and the child's descriptor table
  (\<^verbatim>\<open>remote/completion_kata_fdmap.py\<close>).

  The process has a table of descriptors that point to file objects. Only the process itself changes the
  table, but the objects belong to everybody: the record \<open>kernel_env\<close> says, for the \<open>n\<close>-th system call, what
  the world does to the objects before it, whether the call fails with \<^verbatim>\<open>OSError\<close>, how much a read
  returns, and whether a failing \<^verbatim>\<open>close\<close> released the descriptor. Python objects that no caller can
  forge are numbers: the position, in the table of the route that creates them, in the order of creation.
\<close>

section \<open>Identities and bindings\<close>

record fd_identity =
  mount_id :: "nat option"
  device :: int
  inode :: int
  fd_mode :: int
  fd_uid :: int
  fd_gid :: int
  fd_nlink :: int
  fd_bytes :: int
  mtime_ns :: int
  ctime_ns :: int

datatype role = CLIENT_KEY | KNOWN_HOSTS | NFT_WRITER_LOCK

definition NFT_WRITER_LOCK_FD :: int where "NFT_WRITER_LOCK_FD = 202"
definition MAX_INPUT :: int where "MAX_INPUT = 65536"

fun ROLE_TARGETS :: "role \<Rightarrow> int" where
  "ROLE_TARGETS CLIENT_KEY = 200"
| "ROLE_TARGETS KNOWN_HOSTS = 201"
| "ROLE_TARGETS NFT_WRITER_LOCK = NFT_WRITER_LOCK_FD"

record inherited_binding =
  ib_role :: role
  source_fd :: int
  target_fd :: int
  ib_identity :: fd_identity
  ib_sha256 :: pystr

section \<open>The process and its kernel\<close>

text \<open>What \<^verbatim>\<open>fstat\<close> reports of an object, its \<^verbatim>\<open>fdinfo\<close> text where the platform has one, and its bytes.\<close>

record file_object =
  fo_stat :: fd_identity
  fo_fdinfo :: "pystr option"
  fo_data :: bytes

record descriptor =
  d_object :: nat
  d_inheritable :: bool

text \<open>
  The tables of the routes: an owner with its rows and whether it was claimed; a production binding with its
  rows, operation token, manifest digest and use; a claimed one with rows and use; a writer lock likewise.
  \<open>fm_held\<close> is the local list of duplicates that a \<^verbatim>\<open>finally\<close> clause closes.
\<close>

type_synonym bindings = "inherited_binding list"

record fdmap_state =
  fm_table :: "(int \<times> descriptor) list"
  fm_objects :: "nat \<Rightarrow> file_object"
  fm_calls :: nat
  fm_held :: "int list"
  fm_owners :: "(bindings \<times> bool) list"
  fm_production :: "((bindings \<times> pystr \<times> pystr) \<times> bool) list"
  fm_claimed :: "(bindings \<times> bool) list"
  fm_locks :: "((bindings \<times> pystr) \<times> bool) list"

record kernel_env =
  ke_world :: "nat \<Rightarrow> (nat \<Rightarrow> file_object) \<Rightarrow> nat \<Rightarrow> file_object"
  ke_fails :: "nat \<Rightarrow> bool"
  ke_amount :: "nat \<Rightarrow> nat"
  ke_released :: "nat \<Rightarrow> bool"

type_synonym 'a proc = "(fdmap_state, 'a) eff"

definition tick :: "kernel_env \<Rightarrow> nat proc" where
  "tick E = (\<lambda>s. let n = fm_calls s in (Inr n, s\<lparr>fm_calls := n + 1, fm_objects := ke_world E n (fm_objects s)\<rparr>))"

definition may_fail :: "kernel_env \<Rightarrow> nat \<Rightarrow> unit proc" where
  "may_fail E n = guard (\<not> ke_fails E n) (OSError ''injected'')"

definition lookup_fd :: "int \<Rightarrow> descriptor proc" where
  "lookup_fd fd = (\<lambda>s. (case map_of (fm_table s) fd of None \<Rightarrow> Inl (OSError ''EBADF'') | Some d \<Rightarrow> Inr d, s))"

definition set_fd :: "int \<Rightarrow> descriptor \<Rightarrow> unit proc" where
  "set_fd fd d = modify (\<lambda>s. s\<lparr>fm_table := (fd, d) # filter (\<lambda>(k, _). k \<noteq> fd) (fm_table s)\<rparr>)"

definition drop_fd :: "int \<Rightarrow> unit proc" where
  "drop_fd fd = modify (\<lambda>s. s\<lparr>fm_table := filter (\<lambda>(k, _). k \<noteq> fd) (fm_table s)\<rparr>)"

text \<open>A call that only looks at the object behind a descriptor.\<close>

definition sys_object :: "kernel_env \<Rightarrow> int \<Rightarrow> (nat \<Rightarrow> file_object \<Rightarrow> 'a) \<Rightarrow> 'a proc" where
  "sys_object E fd f =
     ebind (tick E) (\<lambda>n. ebind (may_fail E n) (\<lambda>_. ebind (lookup_fd fd) (\<lambda>d.
     gets (\<lambda>s. f n (fm_objects s (d_object d))))))"

definition sys_inheritable :: "kernel_env \<Rightarrow> int \<Rightarrow> bool proc" where
  "sys_inheritable E fd = ebind (tick E) (\<lambda>n. ebind (may_fail E n) (\<lambda>_. ebind (lookup_fd fd) (\<lambda>d. ret (d_inheritable d))))"

text \<open>\<^verbatim>\<open>F_DUPFD_CLOEXEC\<close>: the lowest free number from the floor on.\<close>

definition lowest_free :: "(int \<times> descriptor) list \<Rightarrow> int \<Rightarrow> int" where
  "lowest_free table floor = hd (filter (\<lambda>fd. fd \<notin> set (map fst table)) (map (\<lambda>i. floor + int i) [0..<Suc (length table)]))"

definition sys_dupfd :: "kernel_env \<Rightarrow> int \<Rightarrow> int \<Rightarrow> int proc" where
  "sys_dupfd E fd floor =
     ebind (tick E) (\<lambda>n. ebind (may_fail E n) (\<lambda>_. ebind (lookup_fd fd) (\<lambda>d.
     ebind (gets (\<lambda>s. lowest_free (fm_table s) floor)) (\<lambda>new.
     ebind (set_fd new (d\<lparr>d_inheritable := False\<rparr>)) (\<lambda>_. ret new)))))"

definition sys_dup2 :: "kernel_env \<Rightarrow> int \<Rightarrow> int \<Rightarrow> unit proc" where
  "sys_dup2 E fd target =
     ebind (tick E) (\<lambda>n. ebind (may_fail E n) (\<lambda>_. ebind (lookup_fd fd) (\<lambda>d.
     if fd = target then ret () else set_fd target (d\<lparr>d_inheritable := True\<rparr>))))"

definition sys_close_fd :: "kernel_env \<Rightarrow> int \<Rightarrow> unit proc" where
  "sys_close_fd E fd =
     ebind (tick E) (\<lambda>n. ebind (lookup_fd fd) (\<lambda>_.
     if ke_fails E n then ebind (if ke_released E n then drop_fd fd else ret ()) (\<lambda>_. raise (OSError ''injected''))
     else drop_fd fd))"

section \<open>Identity and digest of a descriptor\<close>

definition is_regular :: "fd_identity \<Rightarrow> bool" where
  "is_regular i \<longleftrightarrow> fd_mode i div 4096 mod 16 = 8"

definition MNT_ID :: pystr where "MNT_ID = ustr ''mnt_id:'' @ [9]"

definition mount_of :: "pystr option \<Rightarrow> nat option result" where
  "mount_of info =
     (case info of
        None \<Rightarrow> Inr None
      | Some text \<Rightarrow>
          require (list_all (\<lambda>c. c < 128) text) PyUnicodeError
          (let rows = filter (starts_with MNT_ID) (str_splitlines (take 4096 text)) in
           (case rows of
              [row] \<Rightarrow>
                let digits = drop (length MNT_ID) row in
                require (digits \<noteq> [] \<and> list_all is_digit digits) (FdMapError ''invalid descriptor mount identity'')
                (Inr (Some (base_value 10 digits)))
            | _ \<Rightarrow> Inl (FdMapError ''invalid descriptor mount identity''))))"

definition identity :: "kernel_env \<Rightarrow> int \<Rightarrow> fd_identity proc" where
  "identity E fd =
     ebind (sys_object E fd (\<lambda>_. fo_stat)) (\<lambda>st.
     ebind (sys_object E fd (\<lambda>_. fo_fdinfo)) (\<lambda>info.
     ebind (lift (mount_of info)) (\<lambda>mount.
     ret (st\<lparr>mount_id := mount\<rparr>))))"

text \<open>Every turn reads at least one byte, so the bytes still missing bound the loop.\<close>

primrec digest_loop :: "kernel_env \<Rightarrow> int \<Rightarrow> nat \<Rightarrow> nat \<Rightarrow> bytes \<Rightarrow> bytes proc" where
  "digest_loop E fd want 0 raw = ret raw"
| "digest_loop E fd want (Suc n) raw =
     (if want \<le> length raw then ret raw
      else ebind (sys_object E fd (\<lambda>call object.
              let request = min 16384 (want - length raw) in
              take (max 1 (min request (ke_amount E call))) (take request (drop (length raw) (fo_data object))))) (\<lambda>part.
        if part = [] then raise (FdMapError ''short inherited object'')
        else digest_loop E fd want n (raw @ part)))"

definition digest_regular :: "digest_fun \<Rightarrow> kernel_env \<Rightarrow> int \<Rightarrow> fd_identity \<Rightarrow> pystr proc" where
  "digest_regular H E fd expected =
     ebind (guard (is_regular expected \<and> fd_nlink expected = 1 \<and> 0 \<le> fd_bytes expected \<and> fd_bytes expected \<le> MAX_INPUT)
       (FdMapError ''invalid inherited object'')) (\<lambda>_.
     ebind (digest_loop E fd (nat (fd_bytes expected)) (nat (fd_bytes expected)) []) (\<lambda>raw.
     ebind (identity E fd) (\<lambda>now.
     ebind (guard (now = expected) (FdMapError ''inherited object changed'')) (\<lambda>_.
     ret (H raw)))))"

section \<open>One-use owners of the SSH inputs\<close>

definition observe :: "digest_fun \<Rightarrow> kernel_env \<Rightarrow> role \<Rightarrow> int \<Rightarrow> fd_identity \<Rightarrow> inherited_binding proc" where
  "observe H E r fd expected =
     ebind (identity E fd) (\<lambda>now.
     ebind (guard (now = expected) (FdMapError ''input identity mismatch'')) (\<lambda>_.
     ebind (digest_regular H E fd expected) (\<lambda>digest.
     ret \<lparr>ib_role = r, source_fd = fd, target_fd = ROLE_TARGETS r, ib_identity = expected, ib_sha256 = digest\<rparr>)))"

text \<open>\<^verbatim>\<open>states.get(owner)\<close> on a table in the order of creation.\<close>

definition slot :: "('a \<times> bool) list \<Rightarrow> nat \<Rightarrow> ('a \<times> bool) option" where
  "slot table i = (if i < length table then Some (table ! i) else None)"

definition bind_inputs :: "digest_fun \<Rightarrow> kernel_env \<Rightarrow> int \<Rightarrow> int \<Rightarrow> fd_identity \<Rightarrow> fd_identity \<Rightarrow> nat proc" where
  "bind_inputs H E client_fd known_hosts_fd expected_client expected_known_hosts =
     ebind (guard (0 \<le> client_fd \<and> 0 \<le> known_hosts_fd \<and> client_fd \<noteq> known_hosts_fd) (FdMapError ''invalid fixed inputs'')) (\<lambda>_.
     ebind (observe H E CLIENT_KEY client_fd expected_client) (\<lambda>client.
     ebind (observe H E KNOWN_HOSTS known_hosts_fd expected_known_hosts) (\<lambda>known_hosts.
     ebind (guard ((device expected_client, inode expected_client) \<noteq> (device expected_known_hosts, inode expected_known_hosts))
       (FdMapError ''roles share one underlying object'')) (\<lambda>_.
     ebind (gets (\<lambda>s. length (fm_owners s))) (\<lambda>owner.
     ebind (modify (\<lambda>s. s\<lparr>fm_owners := fm_owners s @ [([client, known_hosts], False)]\<rparr>)) (\<lambda>_.
     ret owner))))))"

text \<open>The check of one row: its descriptor still has the identity and the bytes it had.\<close>

definition revalidate_row :: "digest_fun \<Rightarrow> kernel_env \<Rightarrow> inherited_binding \<Rightarrow> unit proc" where
  "revalidate_row H E row =
     ebind (identity E (source_fd row)) (\<lambda>now.
     ebind (guard (now = ib_identity row) (FdMapError ''inherited descriptor replaced'')) (\<lambda>_.
     ebind (digest_regular H E (source_fd row) (ib_identity row)) (\<lambda>digest.
     guard (digest = ib_sha256 row) (FdMapError ''inherited descriptor replaced''))))"

fun each :: "('a \<Rightarrow> 's \<Rightarrow> unit result \<times> 's) \<Rightarrow> 'a list \<Rightarrow> ('s, unit) eff" where
  "each f [] = ret ()"
| "each f (x # xs) = ebind (f x) (\<lambda>_. each f xs)"

definition binding_shape :: "bindings \<Rightarrow> bool" where
  "binding_shape rows \<longleftrightarrow>
     map (\<lambda>r. (ib_role r, target_fd r)) rows \<in> {[(CLIENT_KEY, 200), (KNOWN_HOSTS, 201)], [(NFT_WRITER_LOCK, NFT_WRITER_LOCK_FD)]}"

definition revalidate :: "digest_fun \<Rightarrow> kernel_env \<Rightarrow> bindings \<Rightarrow> bindings proc" where
  "revalidate H E rows =
     (if rows = [] then ret rows
      else ebind (guard (binding_shape rows) (FdMapError ''invalid inherited bindings'')) (\<lambda>_.
           ebind (each (revalidate_row H E) rows) (\<lambda>_. ret rows)))"

definition claim :: "digest_fun \<Rightarrow> kernel_env \<Rightarrow> int list \<Rightarrow> nat \<Rightarrow> bindings proc" where
  "claim H E targets owner =
     ebind (gets (\<lambda>s. slot (fm_owners s) owner)) (\<lambda>state.
     (case state of
        Some (rows, False) \<Rightarrow>
          ebind (guard (targets = [200, 201]) (FdMapError ''invalid input claim'')) (\<lambda>_.
          ebind (revalidate H E rows) (\<lambda>checked.
          ebind (modify (\<lambda>s. s\<lparr>fm_owners := (fm_owners s)[owner := (rows, True)]\<rparr>)) (\<lambda>_.
          ret checked)))
      | _ \<Rightarrow> raise (FdMapError ''invalid input claim'')))"

section \<open>Production bindings\<close>

definition is_token :: "pystr \<Rightarrow> bool" where
  "is_token s \<longleftrightarrow> is_hex64 s \<and> s \<noteq> replicate 64 48"

definition bind_production_inputs ::
  "digest_fun \<Rightarrow> kernel_env \<Rightarrow> int \<Rightarrow> int \<Rightarrow> fd_identity \<Rightarrow> fd_identity \<Rightarrow> pystr \<Rightarrow> pystr \<Rightarrow> nat proc" where
  "bind_production_inputs H E client_fd known_hosts_fd expected_client expected_known_hosts operation_token manifest_sha256 =
     ebind (guard (is_token operation_token \<and> is_hex64 manifest_sha256) (FdMapError ''invalid input lineage'')) (\<lambda>_.
     ebind (bind_inputs H E client_fd known_hosts_fd expected_client expected_known_hosts) (\<lambda>owner.
     ebind (claim H E [200, 201] owner) (\<lambda>rows.
     ebind (gets (\<lambda>s. length (fm_production s))) (\<lambda>value.
     ebind (modify (\<lambda>s. s\<lparr>fm_production := fm_production s @ [((rows, operation_token, manifest_sha256), False)]\<rparr>)) (\<lambda>_.
     ret value)))))"

definition claim_production_inputs :: "digest_fun \<Rightarrow> kernel_env \<Rightarrow> nat \<Rightarrow> pystr \<Rightarrow> pystr \<Rightarrow> nat proc" where
  "claim_production_inputs H E value operation_token manifest_sha256 =
     ebind (gets (\<lambda>s. slot (fm_production s) value)) (\<lambda>state.
     (case state of
        Some ((rows, token, digest), False) \<Rightarrow>
          ebind (guard (operation_token = token \<and> manifest_sha256 = digest)
            (FdMapError ''invalid, stale, or reused production binding'')) (\<lambda>_.
          ebind (revalidate H E rows) (\<lambda>checked.
          ebind (modify (\<lambda>s. s\<lparr>fm_production := (fm_production s)[value := ((rows, token, digest), True)]\<rparr>)) (\<lambda>_.
          ebind (gets (\<lambda>s. length (fm_claimed s))) (\<lambda>claimed.
          ebind (modify (\<lambda>s. s\<lparr>fm_claimed := fm_claimed s @ [(checked, False)]\<rparr>)) (\<lambda>_.
          ret claimed)))))
      | _ \<Rightarrow> raise (FdMapError ''invalid, stale, or reused production binding'')))"

definition consume_production_inputs :: "digest_fun \<Rightarrow> kernel_env \<Rightarrow> int list \<Rightarrow> nat \<Rightarrow> bindings proc" where
  "consume_production_inputs H E targets claimed =
     ebind (gets (\<lambda>s. slot (fm_claimed s) claimed)) (\<lambda>state.
     (case state of
        Some (rows, False) \<Rightarrow>
          ebind (guard (targets = [200, 201]) (FdMapError ''invalid or reused claimed production inputs'')) (\<lambda>_.
          ebind (revalidate H E rows) (\<lambda>checked.
          ebind (modify (\<lambda>s. s\<lparr>fm_claimed := (fm_claimed s)[claimed := (rows, True)]\<rparr>)) (\<lambda>_.
          ret checked)))
      | _ \<Rightarrow> raise (FdMapError ''invalid or reused claimed production inputs'')))"

section \<open>The writer lock\<close>

definition claim_nft_writer_lock :: "digest_fun \<Rightarrow> kernel_env \<Rightarrow> int \<Rightarrow> fd_identity \<Rightarrow> pystr \<Rightarrow> nat proc" where
  "claim_nft_writer_lock H E fd expected operation_token =
     ebind (guard (0 \<le> fd \<and> is_token operation_token) (FdMapError ''invalid NFT writer lock lineage'')) (\<lambda>_.
     ebind (identity E fd) (\<lambda>now.
     ebind (guard (now = expected \<and> is_regular expected \<and> fd_uid expected = 0 \<and> fd_gid expected = 0 \<and>
         fd_nlink expected = 1 \<and> fd_bytes expected = 0) (FdMapError ''invalid NFT writer lock lineage'')) (\<lambda>_.
     ebind (digest_regular H E fd expected) (\<lambda>digest.
     ebind (gets (\<lambda>s. length (fm_locks s))) (\<lambda>owner.
     ebind (modify (\<lambda>s. s\<lparr>fm_locks := fm_locks s @
       [(([\<lparr>ib_role = NFT_WRITER_LOCK, source_fd = fd, target_fd = NFT_WRITER_LOCK_FD, ib_identity = expected, ib_sha256 = digest\<rparr>],
         operation_token), False)]\<rparr>)) (\<lambda>_.
     ret owner))))))"

definition consume_nft_writer_lock :: "digest_fun \<Rightarrow> kernel_env \<Rightarrow> int list \<Rightarrow> nat \<Rightarrow> bindings proc" where
  "consume_nft_writer_lock H E targets owner =
     ebind (gets (\<lambda>s. slot (fm_locks s) owner)) (\<lambda>state.
     (case state of
        Some ((rows, token), False) \<Rightarrow>
          ebind (guard (targets = [NFT_WRITER_LOCK_FD]) (FdMapError ''invalid or reused NFT writer lock binding'')) (\<lambda>_.
          ebind (revalidate H E rows) (\<lambda>checked.
          ebind (modify (\<lambda>s. s\<lparr>fm_locks := (fm_locks s)[owner := ((rows, token), True)]\<rparr>)) (\<lambda>_.
          ret checked)))
      | _ \<Rightarrow> raise (FdMapError ''invalid or reused NFT writer lock binding'')))"

section \<open>Moving and installing descriptors\<close>

definition hold :: "int \<Rightarrow> unit proc" where
  "hold fd = modify (\<lambda>s. s\<lparr>fm_held := fm_held s @ [fd]\<rparr>)"

definition clear_held :: "unit proc" where
  "clear_held = modify (\<lambda>s. s\<lparr>fm_held := []\<rparr>)"

definition close_quietly :: "kernel_env \<Rightarrow> int \<Rightarrow> unit proc" where
  "close_quietly E fd = catch (sys_close_fd E fd) (\<lambda>e. if is_os_error e then ret () else raise e)"

text \<open>The \<^verbatim>\<open>finally\<close> clause of both routines, and the routine run with an empty list of duplicates.\<close>

definition close_held :: "kernel_env \<Rightarrow> unit proc" where
  "close_held E = ebind (gets fm_held) (each (close_quietly E))"

definition with_held :: "kernel_env \<Rightarrow> 'a proc \<Rightarrow> 'a proc" where
  "with_held E m = ebind clear_held (\<lambda>_. finally_do (close_held E) m)"

fun identities :: "kernel_env \<Rightarrow> int list \<Rightarrow> fd_identity list proc" where
  "identities E [] = ret []"
| "identities E (fd # fds) = ebind (identity E fd) (\<lambda>i. ebind (identities E fds) (\<lambda>is. ret (i # is)))"

definition check_identity :: "kernel_env \<Rightarrow> int \<Rightarrow> fd_identity \<Rightarrow> string \<Rightarrow> unit proc" where
  "check_identity E fd expected message =
     ebind (identity E fd) (\<lambda>now. guard (now = expected) (OSError message))"

fun relocate_loop :: "kernel_env \<Rightarrow> int \<Rightarrow> int list \<Rightarrow> (int \<times> fd_identity) list \<Rightarrow> int list proc" where
  "relocate_loop E floor reserved [] = ret []"
| "relocate_loop E floor reserved ((fd, observed) # rest) =
     ebind
       (if fd \<in> set reserved then
          ebind (sys_dupfd E fd floor) (\<lambda>duplicate.
          ebind (hold duplicate) (\<lambda>_.
          ebind (check_identity E duplicate observed ''child descriptor relocation mismatch'') (\<lambda>_. ret duplicate)))
        else ret fd)
       (\<lambda>new. ebind (relocate_loop E floor reserved rest) (\<lambda>news. ret (new # news)))"

definition RESERVED :: "int list" where "RESERVED = [0, 1, 2, 3, 198, 200, 201, NFT_WRITER_LOCK_FD]"

definition floor_above :: "int list \<Rightarrow> int" where
  "floor_above fds = (if fds = [] then 2 else Max (set fds)) + 1"

definition relocate_internals :: "kernel_env \<Rightarrow> int list \<Rightarrow> int list \<Rightarrow> int list proc" where
  "relocate_internals E fds reserved =
     ebind (guard (list_all (\<lambda>fd. 0 \<le> fd) (fds @ reserved) \<and> distinct fds) (OSError ''invalid child descriptors'')) (\<lambda>_.
     ebind (identities E fds) (\<lambda>observed.
     with_held E
       (ebind (relocate_loop E (floor_above reserved) reserved (zip fds observed)) (\<lambda>relocated.
        ebind (each (\<lambda>(old, new). if new \<noteq> old then sys_close_fd E old else ret ()) (zip fds relocated)) (\<lambda>_.
        ebind (guard (set relocated \<inter> set reserved = {}) (OSError ''child descriptor remains reserved'')) (\<lambda>_.
        ebind (each (\<lambda>(fd, expected). check_identity E fd expected ''child descriptor changed'') (zip relocated observed)) (\<lambda>_.
        ebind clear_held (\<lambda>_.
        ret relocated))))))))"

fun duplicate_loop :: "kernel_env \<Rightarrow> int \<Rightarrow> bindings \<Rightarrow> int list proc" where
  "duplicate_loop E floor [] = ret []"
| "duplicate_loop E floor (row # rest) =
     ebind (sys_dupfd E (source_fd row) floor) (\<lambda>temporary.
     ebind (hold temporary) (\<lambda>_.
     ebind (check_identity E temporary (ib_identity row) ''inherited descriptor duplicate mismatch'') (\<lambda>_.
     ebind (duplicate_loop E floor rest) (\<lambda>temporaries.
     ret (temporary # temporaries)))))"

definition install_target :: "kernel_env \<Rightarrow> int \<times> inherited_binding \<Rightarrow> unit proc" where
  "install_target E = (\<lambda>(temporary, row).
     ebind (sys_dup2 E temporary (target_fd row)) (\<lambda>_.
     ebind (check_identity E (target_fd row) (ib_identity row) ''inherited descriptor target mismatch'') (\<lambda>_.
     ebind (sys_inheritable E (target_fd row)) (\<lambda>i.
     guard i (OSError ''inherited descriptor target mismatch'')))))"

definition install_rows :: "kernel_env \<Rightarrow> bindings \<Rightarrow> unit proc" where
  "install_rows E rows =
     ebind (duplicate_loop E (floor_above (map target_fd rows)) rows) (\<lambda>temporaries.
     ebind (each (install_target E) (zip temporaries rows)) (\<lambda>_.
     ebind (each (\<lambda>row. if source_fd row \<notin> set (map target_fd rows) then sys_close_fd E (source_fd row) else ret ()) rows) (\<lambda>_.
     ebind (each (\<lambda>row. check_identity E (target_fd row) (ib_identity row)
         ''inherited target changed while closing originals'') rows) (\<lambda>_.
     ebind (each (sys_close_fd E) temporaries) (\<lambda>_.
     clear_held)))))"

definition is_fd_map_error :: "exn \<Rightarrow> bool" where
  "is_fd_map_error e = (case e of FdMapError _ \<Rightarrow> True | _ \<Rightarrow> False)"

definition install :: "digest_fun \<Rightarrow> kernel_env \<Rightarrow> bindings \<Rightarrow> unit proc" where
  "install H E rows =
     ebind (catch (ebind (revalidate H E rows) (\<lambda>_. ret ()))
       (\<lambda>e. raise (if is_fd_map_error e then OSError ''ESTALE'' else e))) (\<lambda>_.
     with_held E (install_rows E rows))"

section \<open>Sequences of operations\<close>

text \<open>The operations of the module as a caller issues them, and what one of them leaves behind.\<close>

datatype fd_op =
    Bind_Inputs int int fd_identity fd_identity
  | Claim "int list" nat
  | Bind_Production int int fd_identity fd_identity pystr pystr
  | Claim_Production nat pystr pystr
  | Consume_Production "int list" nat
  | Claim_Lock int fd_identity pystr
  | Consume_Lock "int list" nat
  | Relocate "int list" "int list"
  | Install bindings

fun perform :: "digest_fun \<Rightarrow> kernel_env \<Rightarrow> fd_op \<Rightarrow> fdmap_state \<Rightarrow> fdmap_state" where
  "perform H E (Bind_Inputs a b i j) s = snd (bind_inputs H E a b i j s)"
| "perform H E (Claim targets owner) s = snd (claim H E targets owner s)"
| "perform H E (Bind_Production a b i j token digest) s = snd (bind_production_inputs H E a b i j token digest s)"
| "perform H E (Claim_Production v token digest) s = snd (claim_production_inputs H E v token digest s)"
| "perform H E (Consume_Production targets c) s = snd (consume_production_inputs H E targets c s)"
| "perform H E (Claim_Lock fd i token) s = snd (claim_nft_writer_lock H E fd i token s)"
| "perform H E (Consume_Lock targets owner) s = snd (consume_nft_writer_lock H E targets owner s)"
| "perform H E (Relocate fds reserved) s = snd (relocate_internals E fds reserved s)"
| "perform H E (Install rows) s = snd (install H E rows s)"

fun perform_all :: "digest_fun \<Rightarrow> kernel_env \<Rightarrow> fd_op list \<Rightarrow> fdmap_state \<Rightarrow> fdmap_state" where
  "perform_all H E [] s = s"
| "perform_all H E (x # xs) s = perform_all H E xs (perform H E x s)"

end
