(* ===== verification/FdmapSafety.thy ===== *)
theory FdmapSafety
  imports Fdmap
begin

text \<open>
  The theorems of the descriptor map. The abstract view of a process is the function from descriptor numbers to
  descriptors; \<open>installed\<close> and \<open>relocated\<close> say what the two routines do to it. \<open>looks\<close> relates states that differ
  in nothing but the world's objects and the number of calls.
\<close>

context effect_order
begin

lemma within_each: "(\<And>x. within R (f x)) \<Longrightarrow> within R (each f xs)"
  by (induction xs) (auto intro!: within_intros)

end

section \<open>Effects that only look\<close>

definition looks :: "fdmap_state \<Rightarrow> fdmap_state \<Rightarrow> bool" where
  "looks s t \<longleftrightarrow> (\<exists>objects calls. t = s\<lparr>fm_objects := objects, fm_calls := calls\<rparr>)"

lemma looksI: "looks s (s\<lparr>fm_calls := c, fm_objects := o'\<rparr>)"
  unfolding looks_def by (intro exI [of _ o'] exI [of _ c]) simp

interpretation looking: effect_order looks
proof
  show "looks s s" for s unfolding looks_def by (intro exI [of _ "fm_objects s"] exI [of _ "fm_calls s"]) simp
  show "looks s u" if "looks s t" "looks t u" for s t u using that by (auto simp: looks_def) blast
qed

lemma looksD:
  assumes "looks s t"
  shows "fm_table t = fm_table s" "fm_held t = fm_held s" "fm_owners t = fm_owners s"
    "fm_production t = fm_production s" "fm_claimed t = fm_claimed s" "fm_locks t = fm_locks s"
  using assms by (auto simp: looks_def)

lemma tick_looks: "within looks (tick E)"
  by (simp add: within_def tick_def Let_def looksI)

lemma lookup_looks: "within looks (lookup_fd fd)"
  by (simp add: within_def lookup_fd_def looking.R_refl)

lemma may_fail_looks: "within looks (may_fail E n)"
  by (simp add: may_fail_def looking.within_pure)

lemmas looks_intros = looking.within_intros tick_looks lookup_looks may_fail_looks

lemma sys_looks: "within looks (sys_object E fd f)" "within looks (sys_inheritable E fd)"
  by (auto simp: sys_object_def sys_inheritable_def intro!: looks_intros)

lemma identity_looks: "within looks (identity E fd)"
  by (auto simp: identity_def intro!: looks_intros sys_looks)

lemma digest_looks: "within looks (digest_regular H E fd i)"
proof -
  have "within looks (digest_loop E fd want n raw)" for want n raw
    by (induction n arbitrary: raw) (auto intro!: looks_intros sys_looks)
  then show ?thesis by (auto simp: digest_regular_def intro!: looks_intros identity_looks)
qed

lemma observe_looks: "within looks (observe H E r fd i)"
  by (auto simp: observe_def intro!: looks_intros identity_looks digest_looks)

lemma check_identity_looks: "within looks (check_identity E fd i m)"
  by (auto simp: check_identity_def intro!: looks_intros identity_looks)

lemma identities_looks: "within looks (identities E fds)"
  by (induction fds) (auto intro!: looks_intros identity_looks)

lemma revalidate_looks: "within looks (revalidate H E rows)"
  by (auto simp: revalidate_def revalidate_row_def intro!: looks_intros looking.within_each identity_looks digest_looks)

lemma revalidate_Inr: "revalidate H E rows s = (Inr x, t) \<Longrightarrow> rows = [] \<or> binding_shape rows"
  by (auto simp: revalidate_def ebind_Inr split: if_splits)

section \<open>The descriptor table\<close>

abbreviation descriptors :: "fdmap_state \<Rightarrow> int \<Rightarrow> descriptor option" where
  "descriptors s \<equiv> map_of (fm_table s)"

lemma map_of_without: "map_of (filter (\<lambda>(k, _). k \<noteq> x) ps) = (map_of ps)(x := None)"
  by (induction ps) auto

lemma lookup_Inr: "lookup_fd fd s = (Inr d, t) \<longleftrightarrow> descriptors s fd = Some d \<and> t = s"
  by (auto simp: lookup_fd_def split: option.splits)

lemma tick_Inr: "tick E s = (Inr n, t) \<Longrightarrow> fm_table t = fm_table s \<and> fm_held t = fm_held s"
  by (auto simp: tick_def Let_def)

lemma lowest_free: "floor \<le> lowest_free table floor \<and> lowest_free table floor \<notin> fst ` set table"
proof -
  let ?ns = "map (\<lambda>i. floor + int i) [0..<Suc (length table)]" and ?used = "set (map fst table)"
  have "card (set ?ns) = Suc (length table)" by (subst distinct_card) (auto simp: distinct_map inj_on_def)
  moreover have "card ?used \<le> length table" using card_length [of "map fst table"] by simp
  ultimately have "\<not> set ?ns \<subseteq> ?used" using card_mono [of ?used "set ?ns"] by auto
  then have "filter (\<lambda>fd. fd \<notin> ?used) ?ns \<noteq> []" by (simp add: filter_empty_conv) blast
  then have "lowest_free table floor \<in> set (filter (\<lambda>fd. fd \<notin> ?used) ?ns)"
    unfolding lowest_free_def by (rule hd_in_set)
  then show ?thesis by (auto simp del: upt_Suc)
qed

lemma dupfd_Inr:
  assumes "sys_dupfd E fd floor s = (Inr new, t)"
  shows "\<exists>d. descriptors s fd = Some d \<and> floor \<le> new \<and> new \<notin> dom (descriptors s) \<and>
    descriptors t = (descriptors s)(new \<mapsto> d\<lparr>d_inheritable := False\<rparr>) \<and> fm_held t = fm_held s"
  using assms lowest_free [of floor "fm_table s"]
  by (auto simp: sys_dupfd_def may_fail_def ebind_Inr lookup_Inr set_fd_def map_of_without dom_map_of_conv_image_fst
      dest!: tick_Inr)

lemma dup2_Inr:
  assumes "sys_dup2 E fd target s = (Inr x, t)" "fd \<noteq> target"
  shows "\<exists>d. descriptors s fd = Some d \<and> descriptors t = (descriptors s)(target \<mapsto> d\<lparr>d_inheritable := True\<rparr>)"
  using assms by (auto simp: sys_dup2_def may_fail_def ebind_Inr lookup_Inr set_fd_def map_of_without dest!: tick_Inr)

lemma close_Inr: "sys_close_fd E fd s = (Inr x, t) \<Longrightarrow> descriptors t = (descriptors s)(fd := None)"
  by (auto simp: sys_close_fd_def ebind_Inr lookup_Inr drop_fd_def map_of_without dest!: tick_Inr split: if_splits)

lemma each_close:
  "each (\<lambda>x. if c x then sys_close_fd E (f x) else ret ()) xs s = (Inr u, t) \<Longrightarrow>
     descriptors t = (\<lambda>fd. if fd \<in> f ` {x \<in> set xs. c x} then None else descriptors s fd)"
proof (induction xs arbitrary: s)
  case (Cons x xs)
  then obtain s' where 1: "(if c x then sys_close_fd E (f x) else ret ()) s = (Inr (), s')"
    and 2: "each (\<lambda>x. if c x then sys_close_fd E (f x) else ret ()) xs s' = (Inr u, t)"
    by (auto simp: ebind_Inr)
  show ?case unfolding Cons.IH [OF 2]
    using 1 by (auto simp: fun_eq_iff split: if_splits dest!: close_Inr)
qed auto

section \<open>Installation refines its specification\<close>

definition installed :: "bindings \<Rightarrow> (int \<Rightarrow> descriptor option) \<Rightarrow> int \<Rightarrow> descriptor option" where
  "installed rows T fd =
     (case find (\<lambda>row. target_fd row = fd) rows of
        Some row \<Rightarrow> map_option (\<lambda>d. d\<lparr>d_inheritable := True\<rparr>) (T (source_fd row))
      | None \<Rightarrow> if fd \<in> set (map source_fd rows) then None else T fd)"

lemma duplicate_loop_Inr:
  "duplicate_loop E floor rows s = (Inr ts, t) \<Longrightarrow> source_fd ` set rows \<subseteq> dom (descriptors s) \<Longrightarrow>
     length ts = length rows \<and> (\<forall>x\<in>set ts. floor \<le> x \<and> x \<notin> dom (descriptors s)) \<and>
     (\<forall>fd. fd \<notin> set ts \<longrightarrow> descriptors t fd = descriptors s fd) \<and>
     list_all2 (\<lambda>x row. \<exists>d. descriptors s (source_fd row) = Some d \<and> descriptors t x = Some (d\<lparr>d_inheritable := False\<rparr>)) ts rows"
proof (induction rows arbitrary: s ts)
  case (Cons row rows)
  from Cons.prems obtain x xs s1 s2 s3 where ts: "ts = x # xs"
    and dup: "sys_dupfd E (source_fd row) floor s = (Inr x, s1)" and hold: "hold x s1 = (Inr (), s2)"
    and chk: "check_identity E x (ib_identity row) ''inherited descriptor duplicate mismatch'' s2 = (Inr (), s3)"
    and rest: "duplicate_loop E floor rows s3 = (Inr xs, t)"
    by (auto simp: ebind_Inr)
  obtain d where d: "descriptors s (source_fd row) = Some d" "floor \<le> x" "x \<notin> dom (descriptors s)"
    "descriptors s1 = (descriptors s)(x \<mapsto> d\<lparr>d_inheritable := False\<rparr>)"
    using dupfd_Inr [OF dup] by blast
  have s3: "descriptors s3 = descriptors s1"
    using hold looksD(1) [OF withinD [OF check_identity_looks chk]] by (auto simp: hold_def)
  have dom3: "dom (descriptors s3) = insert x (dom (descriptors s))" by (simp add: s3 d(4))
  have sub: "source_fd ` set rows \<subseteq> dom (descriptors s3)" using Cons.prems(2) unfolding dom3 by auto
  note IH = Cons.IH [OF rest sub, unfolded dom3]
  have same: "descriptors s3 (source_fd r) = descriptors s (source_fd r)" if "r \<in> set rows" for r
    using that d(3) Cons.prems(2) by (auto simp: s3 d(4))
  have "list_all2 (\<lambda>y row. \<exists>d. descriptors s (source_fd row) = Some d \<and> descriptors t y = Some (d\<lparr>d_inheritable := False\<rparr>)) xs rows"
    using IH by (auto elim!: list.rel_mono_strong simp: same)
  moreover have "descriptors t x = Some (d\<lparr>d_inheritable := False\<rparr>)" using IH by (auto simp: s3 d(4))
  moreover have "descriptors t fd = descriptors s fd" if "fd \<notin> set (x # xs)" for fd using IH that by (simp add: s3 d(4))
  moreover have "length xs = length rows" "\<forall>y\<in>set xs. floor \<le> y \<and> y \<notin> dom (descriptors s)" using IH by blast+
  ultimately show ?case using d(1-3) unfolding ts by auto
qed auto

lemma install_target_Inr:
  assumes "install_target E (x, row) s = (Inr u, t)" "x \<noteq> target_fd row"
  shows "\<exists>d. descriptors s x = Some d \<and> descriptors t = (descriptors s)(target_fd row \<mapsto> d\<lparr>d_inheritable := True\<rparr>)"
proof -
  from assms(1) obtain v s1 s2 s3 b where dup: "sys_dup2 E x (target_fd row) s = (Inr v, s1)"
    and chk: "check_identity E (target_fd row) (ib_identity row) ''inherited descriptor target mismatch'' s1 = (Inr (), s2)"
    and inh: "sys_inheritable E (target_fd row) s2 = (Inr b, s3)" and "t = s3"
    by (auto simp: install_target_def ebind_Inr)
  then show ?thesis
    using dup2_Inr [OF dup assms(2)] looksD(1) [OF withinD [OF check_identity_looks chk]] looksD(1) [OF withinD [OF sys_looks(2) inh]]
    by auto
qed

lemma each_install:
  "each (install_target E) zs s = (Inr u, t) \<Longrightarrow> distinct (map (target_fd \<circ> snd) zs) \<Longrightarrow>
     fst ` set zs \<inter> (target_fd \<circ> snd) ` set zs = {} \<Longrightarrow>
     (\<forall>fd. fd \<notin> (target_fd \<circ> snd) ` set zs \<longrightarrow> descriptors t fd = descriptors s fd) \<and>
     (\<forall>(x, row)\<in>set zs. \<exists>d. descriptors s x = Some d \<and> descriptors t (target_fd row) = Some (d\<lparr>d_inheritable := True\<rparr>))"
proof (induction zs arbitrary: s)
  case (Cons z zs)
  obtain x row where z: "z = (x, row)" by (cases z)
  from Cons.prems(1) obtain s1 where 1: "install_target E (x, row) s = (Inr (), s1)" and 2: "each (install_target E) zs s1 = (Inr u, t)"
    by (auto simp: z ebind_Inr)
  obtain d where d: "descriptors s x = Some d" "descriptors s1 = (descriptors s)(target_fd row \<mapsto> d\<lparr>d_inheritable := True\<rparr>)"
    using install_target_Inr [OF 1] Cons.prems(3) by (auto simp: z)
  have IH: "\<forall>fd. fd \<notin> (target_fd \<circ> snd) ` set zs \<longrightarrow> descriptors t fd = descriptors s1 fd"
    "\<forall>(x, row)\<in>set zs. \<exists>d. descriptors s1 x = Some d \<and> descriptors t (target_fd row) = Some (d\<lparr>d_inheritable := True\<rparr>)"
    using Cons.IH [OF 2] Cons.prems(2,3) by auto
  have "descriptors t (target_fd row) = Some (d\<lparr>d_inheritable := True\<rparr>)" using IH(1) Cons.prems(2) by (auto simp: z d(2))
  moreover have "descriptors s1 y = descriptors s y" if "(y, r) \<in> set zs" for y r
    using that Cons.prems(3) by (force simp: z d(2))
  ultimately show ?case using IH d by (fastforce simp: z)
qed auto

lemma identity_open: "identity E fd s = (Inr i, t) \<Longrightarrow> fd \<in> dom (descriptors s)"
  by (auto simp: identity_def sys_object_def ebind_Inr lookup_Inr may_fail_def dest!: tick_Inr)

lemma revalidate_open: "revalidate H E rows s = (Inr x, t) \<Longrightarrow> source_fd ` set rows \<subseteq> dom (descriptors s)"
proof -
  have "each (revalidate_row H E) rs u = (Inr x, t) \<Longrightarrow> source_fd ` set rs \<subseteq> dom (descriptors u)" for rs u x
  proof (induction rs arbitrary: u)
    case (Cons r rs)
    then obtain v where r: "revalidate_row H E r u = (Inr (), v)" and rs: "each (revalidate_row H E) rs v = (Inr x, t)"
      by (auto simp: ebind_Inr)
    have "within looks (revalidate_row H E r)"
      by (auto simp: revalidate_row_def intro!: looks_intros identity_looks digest_looks)
    then have "descriptors v = descriptors u" using r by (auto dest!: withinD looksD(1))
    moreover obtain i w where "identity E (source_fd r) u = (Inr i, w)" using r unfolding revalidate_row_def ebind_Inr by blast
    then have "source_fd r \<in> dom (descriptors u)" by (rule identity_open)
    ultimately show ?case using Cons.IH [OF rs] by simp
  qed simp
  then show "revalidate H E rows s = (Inr x, t) \<Longrightarrow> source_fd ` set rows \<subseteq> dom (descriptors s)"
    by (auto simp: revalidate_def ebind_Inr split: if_splits)
qed

lemma shape_targets:
  assumes "rows = [] \<or> binding_shape rows"
  shows "distinct (map target_fd rows)" "r \<in> set rows \<Longrightarrow> target_fd r < floor_above (map target_fd rows)"
  using assms by (auto simp: binding_shape_def floor_above_def NFT_WRITER_LOCK_FD_def)

lemma each_identity:
  assumes "each (\<lambda>x. check_identity E (f x) (g x) m) xs s = (Inr u, t)"
  shows "descriptors t = descriptors s"
proof -
  have "within looks (each (\<lambda>x. check_identity E (f x) (g x) m) xs)" by (rule looking.within_each) (rule check_identity_looks)
  from looksD(1) [OF withinD [OF this assms]] show ?thesis by simp
qed

lemma find_target:
  "distinct (map target_fd rows) \<Longrightarrow> r \<in> set rows \<Longrightarrow> find (\<lambda>row. target_fd row = target_fd r) rows = Some r"
  by (induction rows) (auto simp: image_iff)

lemma install_rows_Inr:
  assumes "install_rows E rows s = (Inr u, t)" "rows = [] \<or> binding_shape rows" "source_fd ` set rows \<subseteq> dom (descriptors s)"
  shows "descriptors t = installed rows (descriptors s)"
proof
  fix fd
  let ?targets = "target_fd ` set rows" and ?floor = "floor_above (map target_fd rows)"
  from assms(1) obtain ts s1 s2 s3 s4 s5 where
      1: "duplicate_loop E ?floor rows s = (Inr ts, s1)"
    and 2: "each (install_target E) (zip ts rows) s1 = (Inr (), s2)"
    and 3: "each (\<lambda>row. if source_fd row \<notin> set (map target_fd rows) then sys_close_fd E (source_fd row) else ret ()) rows s2 = (Inr (), s3)"
    and 4: "each (\<lambda>row. check_identity E (target_fd row) (ib_identity row)
         ''inherited target changed while closing originals'') rows s3 = (Inr (), s4)"
    and 5: "each (sys_close_fd E) ts s4 = (Inr (), s5)" and t: "descriptors t = descriptors s5"
    unfolding install_rows_def by (auto simp: ebind_Inr clear_held_def)
  note dup = duplicate_loop_Inr [OF 1 assms(3)]
  note sh = shape_targets [OF assms(2)]
  have zs: "map (target_fd \<circ> snd) (zip ts rows) = map target_fd rows" using dup by (simp flip: map_map)
  have tgt: "(target_fd \<circ> snd) ` set (zip ts rows) = ?targets" using zs by (metis set_map)
  have sep: "set ts \<inter> ?targets = {}" using dup sh(2) by force
  have sep': "fst ` set (zip ts rows) \<inter> ?targets = {}" using sep by (auto dest: set_zip_leftD)
  have inst1: "fd \<notin> ?targets \<Longrightarrow> descriptors s2 fd = descriptors s1 fd" for fd
    using each_install [OF 2, unfolded zs tgt, OF sh(1) sep'] by auto
  have inst2: "(x, row) \<in> set (zip ts rows) \<Longrightarrow> \<exists>d. descriptors s1 x = Some d \<and> descriptors s2 (target_fd row) = Some (d\<lparr>d_inheritable := True\<rparr>)" for x row
    using each_install [OF 2, unfolded zs tgt, OF sh(1) sep'] by auto
  have s4: "descriptors s4 = (\<lambda>fd. if fd \<in> source_fd ` set rows - ?targets then None else descriptors s2 fd)"
    using each_close [OF 3] each_identity [OF 4] by (auto simp: fun_eq_iff image_iff)
  have t': "descriptors t fd = (if fd \<in> set ts then None else descriptors s4 fd)" for fd
    using each_close [of "\<lambda>_. True" E "\<lambda>x. x" ts s4 "()" s5] 5 by (simp add: t)
  show "descriptors t fd = installed rows (descriptors s) fd"
  proof (cases "fd \<in> ?targets")
    case True
    then obtain row where row: "row \<in> set rows" "fd = target_fd row" by auto
    then obtain x where x: "(x, row) \<in> set (zip ts rows)"
      using dup by (metis in_set_impl_in_set_zip2)
    then obtain d where "descriptors s (source_fd row) = Some d" "descriptors s1 x = Some (d\<lparr>d_inheritable := False\<rparr>)"
      using dup by (auto simp: list_all2_iff)
    then show ?thesis
      using inst2 [OF x] True sep row find_target [OF sh(1) row(1)] by (auto simp: t' s4 installed_def)
  next
    case False
    then have "find (\<lambda>row. target_fd row = fd) rows = None" by (auto simp: find_None_iff)
    then show ?thesis
      using False inst1 [OF False] dup assms(3) by (auto simp: t' s4 installed_def domIff)
  qed
qed

lemma with_held_Inr: "with_held E m s = (Inr x, t) \<Longrightarrow> \<exists>u. m (s\<lparr>fm_held := []\<rparr>) = (Inr x, u) \<and> close_held E u = (Inr (), t)"
  by (auto simp: with_held_def clear_held_def ebind_Inr finally_Inr)

text \<open>C27. Installation refines its specification: when the installation of inherited bindings returns, the
  descriptor table is exactly the one before with every target an inheritable descriptor of the object its
  source referred to, and the sources that are no target closed; no duplicate is left and nothing else is
  touched. This holds for overlapping sources and targets (a source may be the target of the other row)
  and whatever happened to the file objects meanwhile.\<close>
theorem install_refines:
  "case install H E rows s of
     (Inl e, t) \<Rightarrow> True
   | (Inr _, t) \<Rightarrow> map_of (fm_table t) = installed rows (map_of (fm_table s))"
proof -
  have "map_of (fm_table t) = installed rows (map_of (fm_table s))" if inst: "install H E rows s = (Inr u, t)" for u t
  proof -
    from inst obtain x s1 where re: "revalidate H E rows s = (Inr x, s1)" and inst: "with_held E (install_rows E rows) s1 = (Inr u, t)"
      by (auto simp: install_def ebind_Inr catch_Inr)
    obtain s2 where rows: "install_rows E rows (s1\<lparr>fm_held := []\<rparr>) = (Inr u, s2)" and close: "close_held E s2 = (Inr (), t)"
      using with_held_Inr [OF inst] by blast
    have "fm_held s2 = []" using rows by (auto simp: install_rows_def ebind_Inr clear_held_def)
    then have "t = s2" using close by (simp add: close_held_def ebind_Inr)
    moreover have "descriptors s1 = descriptors s" using looksD(1) [OF withinD [OF revalidate_looks re]] by simp
    ultimately show ?thesis
      using install_rows_Inr [OF rows revalidate_Inr [OF re]] revalidate_open [OF re] by simp
  qed
  then show ?thesis by (auto split: prod.split sum.split)
qed

section \<open>Relocation refines its specification\<close>

definition relocated :: "int list \<Rightarrow> int list \<Rightarrow> (int \<Rightarrow> descriptor option) \<Rightarrow> int \<Rightarrow> descriptor option" where
  "relocated fds news T fd =
     (case map_of (zip news fds) fd of
        Some old \<Rightarrow> if old = fd then T fd else map_option (\<lambda>d. d\<lparr>d_inheritable := False\<rparr>) (T old)
      | None \<Rightarrow> if fd \<in> set fds then None else T fd)"

definition moved :: "int list \<Rightarrow> (int \<Rightarrow> descriptor option) \<Rightarrow> (int \<Rightarrow> descriptor option) \<Rightarrow> int \<Rightarrow> int \<Rightarrow> bool" where
  "moved reserved T T' fd new \<longleftrightarrow> new = fd \<and> fd \<notin> set reserved \<or>
     fd \<in> set reserved \<and> new \<notin> dom T \<and> T' new = map_option (\<lambda>d. d\<lparr>d_inheritable := False\<rparr>) (T fd)"

lemma list_all2_right: "list_all2 R xs ys \<Longrightarrow> y \<in> set ys \<Longrightarrow> \<exists>x\<in>set xs. R x y"
  by (induction rule: list_all2_induct) auto

lemma relocate_loop_Inr:
  "relocate_loop E floor reserved zs s = (Inr news, t) \<Longrightarrow> fst ` set zs \<subseteq> dom (descriptors s) \<Longrightarrow> distinct (map fst zs) \<Longrightarrow>
     (\<forall>fd\<in>dom (descriptors s). descriptors t fd = descriptors s fd) \<and>
     (\<forall>fd. fd \<notin> dom (descriptors s) \<and> fd \<notin> set news \<longrightarrow> descriptors t fd = None) \<and> distinct news \<and>
     list_all2 (moved reserved (descriptors s) (descriptors t)) (map fst zs) news"
proof (induction zs arbitrary: s news)
  case (Cons z zs)
  obtain fd obs where z: "z = (fd, obs)" by (cases z)
  from Cons.prems(1) obtain new rest s1 where news: "news = new # rest"
    and step: "(if fd \<in> set reserved then
          ebind (sys_dupfd E fd floor) (\<lambda>duplicate.
          ebind (hold duplicate) (\<lambda>_.
          ebind (check_identity E duplicate obs ''child descriptor relocation mismatch'') (\<lambda>_. ret duplicate)))
        else ret fd) s = (Inr new, s1)" and rest: "relocate_loop E floor reserved zs s1 = (Inr rest, t)"
    by (auto simp: z ebind_Inr)
  have fd: "fd \<in> dom (descriptors s)" and zs: "fst ` set zs \<subseteq> dom (descriptors s)" "fd \<notin> fst ` set zs" "distinct (map fst zs)"
    using Cons.prems(2,3) by (auto simp: z)
  show ?case
  proof (cases "fd \<in> set reserved")
    case False
    then have "s1 = s" "new = fd" using step by auto
    moreover have "fd \<notin> set rest" using Cons.IH [OF rest] zs fd \<open>s1 = s\<close> by (auto simp: moved_def dest: list_all2_right)
    ultimately show ?thesis using Cons.IH [OF rest] zs False fd by (simp add: news z moved_def [of _ _ _ fd fd])
  next
    case True
    with step obtain u v where dup: "sys_dupfd E fd floor s = (Inr new, u)" and hold: "hold new u = (Inr (), v)"
      and chk: "check_identity E new obs ''child descriptor relocation mismatch'' v = (Inr (), s1)"
      by (auto simp: ebind_Inr)
    obtain d where d: "descriptors s fd = Some d" "new \<notin> dom (descriptors s)"
        "descriptors u = (descriptors s)(new \<mapsto> d\<lparr>d_inheritable := False\<rparr>)"
      using dupfd_Inr [OF dup] by blast
    have s1: "descriptors s1 = (descriptors s)(new \<mapsto> d\<lparr>d_inheritable := False\<rparr>)"
      using hold looksD(1) [OF withinD [OF check_identity_looks chk]] d(3) by (auto simp: hold_def)
    have dom1: "dom (descriptors s1) = insert new (dom (descriptors s))" by (simp add: s1)
    have sub: "fst ` set zs \<subseteq> insert new (dom (descriptors s))" using zs(1) by auto
    note IH = Cons.IH [OF rest, unfolded dom1, OF sub zs(3)]
    have same: "descriptors s1 x = descriptors s x" if "x \<in> dom (descriptors s)" for x using that d(2) by (auto simp: s1)
    have rel: "list_all2 (moved reserved (descriptors s1) (descriptors t)) (map fst zs) rest" using IH by blast
    have "new \<notin> set rest"
    proof
      assume "new \<in> set rest"
      then obtain fd' where "fd' \<in> set (map fst zs)" "new = fd'"
        using list_all2_right [OF rel, of new] dom1 unfolding moved_def by blast
      with zs(1) d(2) show False by auto
    qed
    moreover have "list_all2 (moved reserved (descriptors s) (descriptors t)) (map fst zs) rest"
    proof (rule list.rel_mono_strong [OF rel])
      fix x y
      assume "x \<in> set (map fst zs)"
      then have "descriptors s1 x = descriptors s x" using zs(1) by (intro same) auto
      then show "moved reserved (descriptors s1) (descriptors t) x y \<Longrightarrow> moved reserved (descriptors s) (descriptors t) x y"
        using dom1 by (auto simp: moved_def)
    qed
    moreover have "descriptors t new = Some (d\<lparr>d_inheritable := False\<rparr>)" using IH by (simp add: s1)
    moreover have "\<forall>x\<in>dom (descriptors s). descriptors t x = descriptors s x" using IH same by simp
    moreover have "\<forall>x. x \<notin> dom (descriptors s) \<and> x \<notin> set (new # rest) \<longrightarrow> descriptors t x = None" using IH by simp
    moreover have "distinct rest" using IH by blast
    ultimately show ?thesis using True d by (simp add: news z moved_def [of _ _ _ fd new])
  qed
qed auto

lemma identities_open: "identities E fds s = (Inr is, t) \<Longrightarrow> set fds \<subseteq> dom (descriptors s) \<and> length is = length fds"
proof (induction fds arbitrary: s "is")
  case (Cons fd fds)
  then obtain i js u where 1: "identity E fd s = (Inr i, u)" and 2: "identities E fds u = (Inr js, t)" and "is": "is = i # js"
    by (auto simp: ebind_Inr)
  have "descriptors u = descriptors s" using looksD(1) [OF withinD [OF identity_looks 1]] by simp
  with Cons.IH [OF 2] identity_open [OF 1] "is" show ?case by simp
qed simp

lemma relocated_closed:
  assumes rel: "list_all2 (moved reserved T T') fds news" and dist: "distinct fds" "distinct news"
    and sub: "set fds \<subseteq> dom T" and kept: "\<forall>fd\<in>dom T. T' fd = T fd" and none: "\<forall>fd. fd \<notin> dom T \<and> fd \<notin> set news \<longrightarrow> T' fd = None"
  shows "(if fd \<in> fst ` {(old, new) \<in> set (zip fds news). new \<noteq> old} then None else T' fd) = relocated fds news T fd"
proof (cases "fd \<in> set news")
  case True
  have len: "length fds = length news" using rel by (rule list_all2_lengthD)
  then obtain old where old: "(old, fd) \<in> set (zip fds news)" using True by (metis in_set_impl_in_set_zip2)
  then have m: "map_of (zip news fds) fd = Some old" using dist(2) len by (simp add: set_zip) (metis map_of_zip_nth)
  have mv: "moved reserved T T' old fd" using rel old by (auto simp: list_all2_iff)
  have oldT: "old \<in> dom T" using sub old by (auto dest: set_zip_leftD)
  have uniq: "new = fd" if "(old, new) \<in> set (zip fds news)" for new
    using that old dist(1) len by (auto simp: set_zip nth_eq_iff_index_eq)
  show ?thesis
  proof (cases "old = fd")
    case True
    then have "fd \<notin> fst ` {(old, new) \<in> set (zip fds news). new \<noteq> old}" using uniq by auto
    with True m kept oldT show ?thesis by (simp add: relocated_def)
  next
    case False
    with mv have "fd \<notin> dom T" "T' fd = map_option (\<lambda>d. d\<lparr>d_inheritable := False\<rparr>) (T old)" by (auto simp: moved_def)
    moreover from this sub have "fd \<notin> fst ` {(old, new) \<in> set (zip fds news). new \<noteq> old}" by (auto dest: set_zip_leftD)
    ultimately show ?thesis using m False by (simp add: relocated_def)
  qed
next
  case False
  then have m: "map_of (zip news fds) fd = None" by (auto simp: map_of_eq_None_iff dest: set_zip_leftD)
  have len: "length fds = length news" using rel by (rule list_all2_lengthD)
  show ?thesis
  proof (cases "fd \<in> set fds")
    case True
    then obtain new where "(fd, new) \<in> set (zip fds news)" using len by (metis in_set_impl_in_set_zip1)
    moreover from this False have "new \<noteq> fd" by (auto dest: set_zip_rightD)
    ultimately show ?thesis using m True by (force simp: relocated_def)
  next
    case fds: False
    then have "fd \<notin> fst ` {(old, new) \<in> set (zip fds news). new \<noteq> old}" by (auto dest: set_zip_leftD)
    moreover have "T' fd = T fd" using False kept none by (cases "T fd") (auto simp: dom_def)
    ultimately show ?thesis using m fds by (simp add: relocated_def)
  qed
qed

text \<open>Relocation refines its specification: when the relocation of the child's private descriptors returns, none
  of the returned numbers is reserved, there is one for each descriptor, and the descriptor table is the one
  before with every reserved number moved to a close-on-exec duplicate of its object and closed, and
  nothing else changed.\<close>
theorem relocate_refines:
  "case relocate_internals E fds reserved s of
     (Inl e, t) \<Rightarrow> True
   | (Inr news, t) \<Rightarrow> length news = length fds \<and> set news \<inter> set reserved = {} \<and>
       map_of (fm_table t) = relocated fds news (map_of (fm_table s))"
proof -
  have "length news = length fds \<and> set news \<inter> set reserved = {} \<and>
      map_of (fm_table t) = relocated fds news (map_of (fm_table s))"
    if "relocate_internals E fds reserved s = (Inr news, t)" for news t
  proof -
    from that obtain obs s1 where dist: "distinct fds" and ids: "identities E fds s = (Inr obs, s1)"
      and held: "with_held E
       (ebind (relocate_loop E (floor_above reserved) reserved (zip fds obs)) (\<lambda>relocated.
        ebind (each (\<lambda>(old, new). if new \<noteq> old then sys_close_fd E old else ret ()) (zip fds relocated)) (\<lambda>_.
        ebind (guard (set relocated \<inter> set reserved = {}) (OSError ''child descriptor remains reserved'')) (\<lambda>_.
        ebind (each (\<lambda>(fd, expected). check_identity E fd expected ''child descriptor changed'') (zip relocated obs)) (\<lambda>_.
        ebind clear_held (\<lambda>_.
        ret relocated)))))) s1 = (Inr news, t)"
      unfolding relocate_internals_def by (auto simp: ebind_Inr)
    from with_held_Inr [OF held] obtain s2 s3 s4 s5 where
        loop: "relocate_loop E (floor_above reserved) reserved (zip fds obs) (s1\<lparr>fm_held := []\<rparr>) = (Inr news, s2)"
      and close: "each (\<lambda>(old, new). if new \<noteq> old then sys_close_fd E old else ret ()) (zip fds news) s2 = (Inr (), s3)"
      and free: "set news \<inter> set reserved = {}"
      and chk: "each (\<lambda>(fd, expected). check_identity E fd expected ''child descriptor changed'') (zip news obs) s3 = (Inr (), s4)"
      and fin: "close_held E (s4\<lparr>fm_held := []\<rparr>) = (Inr (), t)"
      by (auto simp: ebind_Inr clear_held_def)
    have t: "descriptors t = descriptors s4" using fin by (auto simp: close_held_def ebind_Inr)
    have s4: "descriptors s4 = descriptors s3" using each_identity [of E fst snd] chk by (simp add: case_prod_unfold)
    have s3: "descriptors s3 = (\<lambda>fd. if fd \<in> fst ` {(old, new) \<in> set (zip fds news). new \<noteq> old} then None else descriptors s2 fd)"
      using each_close [of "\<lambda>(old, new). new \<noteq> old" E fst] close by (simp add: case_prod_unfold)
    have s1: "descriptors s1 = descriptors s" using looksD(1) [OF withinD [OF identities_looks ids]] by simp
    have "map fst (zip fds obs) = fds" and sub: "set fds \<subseteq> dom (descriptors s)" using identities_open [OF ids] by simp_all
    with relocate_loop_Inr [OF loop] dist s1 have "list_all2 (moved reserved (descriptors s) (descriptors s2)) fds news"
      "distinct news" "\<forall>fd\<in>dom (descriptors s). descriptors s2 fd = descriptors s fd"
      "\<forall>fd. fd \<notin> dom (descriptors s) \<and> fd \<notin> set news \<longrightarrow> descriptors s2 fd = None" by (simp_all flip: set_map)
    with relocated_closed [OF _ dist _ sub] show ?thesis
      using free by (auto simp: t s4 s3 fun_eq_iff dest: list_all2_lengthD)
  qed
  then show ?thesis by (auto split: prod.split sum.split)
qed

section \<open>Bindings are used once\<close>

text \<open>\<open>used\<close> marks never disappear: no operation of the module takes one back.\<close>

definition used :: "('a \<times> bool) list \<Rightarrow> nat \<Rightarrow> bool" where
  "used table i \<longleftrightarrow> i < length table \<and> snd (table ! i)"

definition spends :: "fdmap_state \<Rightarrow> fdmap_state \<Rightarrow> bool" where
  "spends s t \<longleftrightarrow> used (fm_owners s) \<le> used (fm_owners t) \<and> used (fm_production s) \<le> used (fm_production t) \<and>
     used (fm_claimed s) \<le> used (fm_claimed t) \<and> used (fm_locks s) \<le> used (fm_locks t)"

interpretation spending: effect_order spends
  by unfold_locales (auto simp: spends_def)

lemma used_append: "used table \<le> used (table @ more_entries)"
  by (auto simp: used_def nth_append)

lemma used_mark: "used table \<le> used (table[i := (x, True)])"
  proof -
  have "snd (table ! j) \<Longrightarrow> snd (table[i := (x, True)] ! j)" if "j < length table" for j
    using that by (cases "i = j") simp_all
  then show ?thesis by (auto simp: used_def)
qed

lemma within_mono: "within R m \<Longrightarrow> (\<And>s t. R s t \<Longrightarrow> R' s t) \<Longrightarrow> within R' m"
  by (simp add: within_def)

lemma looks_spends: "looks s t \<Longrightarrow> spends s t"
  by (auto simp: looks_def spends_def)

lemma spends_looks: "within looks m \<Longrightarrow> within spends m"
  by (erule within_mono) (rule looks_spends)

lemma spends_calls:
  "within spends (sys_dupfd E fd n)" "within spends (sys_dup2 E fd n)" "within spends (sys_close_fd E fd)"
  "within spends (hold fd)" "within spends clear_held"
  by (auto simp: sys_dupfd_def sys_dup2_def sys_close_fd_def set_fd_def drop_fd_def hold_def clear_held_def spends_def
      intro!: spending.within_intros spends_looks [OF tick_looks] spends_looks [OF lookup_looks] spends_looks [OF may_fail_looks])

lemmas spends_intros = spending.within_intros spending.within_each spending.within_finally spends_calls
  spends_looks [OF identity_looks] spends_looks [OF digest_looks] spends_looks [OF observe_looks]
  spends_looks [OF check_identity_looks] spends_looks [OF identities_looks] spends_looks [OF revalidate_looks]
  spends_looks [OF sys_looks(2)]

lemma duplicate_spends: "within spends (duplicate_loop E n rows)"
  by (induction rows) (auto intro!: spends_intros)

lemma relocate_loop_spends: "within spends (relocate_loop E n reserved zs)"
  by (induction zs) (auto intro!: spends_intros)

lemma with_held_spends: "within spends m \<Longrightarrow> within spends (with_held E m)"
  by (auto simp: with_held_def close_held_def close_quietly_def intro!: spends_intros)

lemma install_spends: "within spends (install H E rows)"
  by (auto simp: install_def install_rows_def install_target_def
      intro!: spends_intros with_held_spends duplicate_spends split: prod.splits)

lemma relocate_spends: "within spends (relocate_internals E fds reserved)"
  by (auto simp: relocate_internals_def intro!: spends_intros with_held_spends relocate_loop_spends split: prod.splits)

lemma spends_tables:
  "spends s (s\<lparr>fm_owners := fm_owners s @ x\<rparr>)" "spends s (s\<lparr>fm_production := fm_production s @ y\<rparr>)"
  "spends s (s\<lparr>fm_claimed := fm_claimed s @ x\<rparr>)" "spends s (s\<lparr>fm_locks := fm_locks s @ z\<rparr>)"
  "spends s (s\<lparr>fm_owners := (fm_owners s)[i := (a, True)]\<rparr>)" "spends s (s\<lparr>fm_production := (fm_production s)[i := (b, True)]\<rparr>)"
  "spends s (s\<lparr>fm_claimed := (fm_claimed s)[i := (a, True)]\<rparr>)" "spends s (s\<lparr>fm_locks := (fm_locks s)[i := (c, True)]\<rparr>)"
  by (simp_all add: spends_def used_append used_mark)

lemma bind_spends: "within spends (bind_inputs H E a b i j)"
  by (auto simp: bind_inputs_def intro!: spends_intros spends_tables)

lemma claim_spends: "within spends (claim H E targets owner)"
  by (auto simp: claim_def intro!: spends_intros spends_tables split: option.split bool.split)

lemma bind_production_spends: "within spends (bind_production_inputs H E a b i j token digest)"
  by (auto simp: bind_production_inputs_def intro!: spends_intros spends_tables bind_spends claim_spends)

lemma claim_production_spends: "within spends (claim_production_inputs H E v token digest)"
  by (auto simp: claim_production_inputs_def intro!: spends_intros spends_tables split: option.split bool.split)

lemma consume_production_spends: "within spends (consume_production_inputs H E targets c)"
  by (auto simp: consume_production_inputs_def intro!: spends_intros spends_tables split: option.split bool.split)

lemma claim_lock_spends: "within spends (claim_nft_writer_lock H E fd i token)"
  by (auto simp: claim_nft_writer_lock_def intro!: spends_intros spends_tables)

lemma consume_lock_spends: "within spends (consume_nft_writer_lock H E targets c)"
  by (auto simp: consume_nft_writer_lock_def intro!: spends_intros spends_tables split: option.split bool.split)

lemmas operations_spend = bind_spends claim_spends bind_production_spends claim_production_spends consume_production_spends
  claim_lock_spends consume_lock_spends relocate_spends install_spends

lemma perform_spends: "spends s (perform H E x s)"
  by (cases x) (simp_all add: operations_spend [unfolded within_def])

lemma perform_all_spends: "spends s (perform_all H E xs s)"
  by (induction xs arbitrary: s) (auto intro: spending.R_refl spending.R_trans [OF perform_spends])

lemma used_entry: "used table i \<Longrightarrow> \<exists>x. slot table i = Some (x, True)"
  by (auto simp: used_def slot_def prod_eq_iff)

lemma entry_mark: "slot table i = Some x \<Longrightarrow> used (table[i := (y, True)]) i"
  by (auto simp: used_def slot_def split: if_splits)

lemma claim_used: "claim H E targets owner s = (Inr rows, t) \<Longrightarrow> used (fm_owners t) owner"
  by (auto simp: claim_def ebind_Inr entry_mark looksD dest!: withinD [OF revalidate_looks] split: option.splits bool.splits)

lemma claim_production_used: "claim_production_inputs H E v token digest s = (Inr c, t) \<Longrightarrow> used (fm_production t) v"
  by (auto simp: claim_production_inputs_def ebind_Inr entry_mark looksD dest!: withinD [OF revalidate_looks]
      split: option.splits bool.splits)

lemma consume_production_used: "consume_production_inputs H E targets c s = (Inr rows, t) \<Longrightarrow> used (fm_claimed t) c"
  by (auto simp: consume_production_inputs_def ebind_Inr entry_mark looksD dest!: withinD [OF revalidate_looks]
      split: option.splits bool.splits)

lemma consume_lock_used: "consume_nft_writer_lock H E targets c s = (Inr rows, t) \<Longrightarrow> used (fm_locks t) c"
  by (auto simp: consume_nft_writer_lock_def ebind_Inr entry_mark looksD dest!: withinD [OF revalidate_looks]
      split: option.splits bool.splits)

lemma used_refused:
  "used (fm_owners s) owner \<Longrightarrow> claim H E targets owner s = (Inl (FdMapError ''invalid input claim''), s)"
  "used (fm_production s) v \<Longrightarrow> claim_production_inputs H E v token digest s =
     (Inl (FdMapError ''invalid, stale, or reused production binding''), s)"
  "used (fm_claimed s) c \<Longrightarrow> consume_production_inputs H E targets c s =
     (Inl (FdMapError ''invalid or reused claimed production inputs''), s)"
  "used (fm_locks s) l \<Longrightarrow> consume_nft_writer_lock H E targets l s =
     (Inl (FdMapError ''invalid or reused NFT writer lock binding''), s)"
  by (auto dest!: used_entry simp: claim_def claim_production_inputs_def consume_production_inputs_def
      consume_nft_writer_lock_def ebind_def gets_def raise_def)

text \<open>C28. Descriptor bindings are used at most once: after a successful claim of an input owner or a production
  binding, or a successful consumption of claimed production inputs or of the writer lock, and after any
  further sequence of operations of the module, the same object is refused and the refusal changes nothing.\<close>
theorem bindings_single_use:
  "(case claim H E targets owner s of (Inl _, _) \<Rightarrow> True | (Inr _, t) \<Rightarrow>
      (let u = perform_all H E ops t in claim H E' targets' owner u = (Inl (FdMapError ''invalid input claim''), u))) \<and>
   (case claim_production_inputs H E v token digest s of (Inl _, _) \<Rightarrow> True | (Inr _, t) \<Rightarrow>
      (let u = perform_all H E ops t in claim_production_inputs H E' v token' digest' u =
        (Inl (FdMapError ''invalid, stale, or reused production binding''), u))) \<and>
   (case consume_production_inputs H E targets c s of (Inl _, _) \<Rightarrow> True | (Inr _, t) \<Rightarrow>
      (let u = perform_all H E ops t in consume_production_inputs H E' targets' c u =
        (Inl (FdMapError ''invalid or reused claimed production inputs''), u))) \<and>
   (case consume_nft_writer_lock H E targets l s of (Inl _, _) \<Rightarrow> True | (Inr _, t) \<Rightarrow>
      (let u = perform_all H E ops t in consume_nft_writer_lock H E' targets' l u =
        (Inl (FdMapError ''invalid or reused NFT writer lock binding''), u)))"
proof -
  have later: "used (fm_owners t) i \<Longrightarrow> used (fm_owners (perform_all H E ops t)) i"
    "used (fm_production t) i \<Longrightarrow> used (fm_production (perform_all H E ops t)) i"
    "used (fm_claimed t) i \<Longrightarrow> used (fm_claimed (perform_all H E ops t)) i"
    "used (fm_locks t) i \<Longrightarrow> used (fm_locks (perform_all H E ops t)) i" for t i
    using perform_all_spends [of t H E ops] by (auto simp: spends_def le_fun_def)
  show ?thesis
    by (intro conjI) (auto simp: Let_def split: prod.split sum.split
        dest!: claim_used claim_production_used consume_production_used consume_lock_used intro!: used_refused later)
qed

end
