(* ===== verification/ArtifactContract.thy ===== *)
theory ArtifactContract
  imports PyBytes
begin

text \<open>
  The fixed artifact contract (\<^verbatim>\<open>remote/verify-completion-artifacts.py\<close>, first half): what is accepted as the
  contract document. A contract is the Python value \<^verbatim>\<open>json.loads\<close> returns; the parser is a parameter that is
  given the module's own hooks. Dictionaries are lists of members in their order, because the code compares
  the order of keys; a float is the integer it equals, or \<open>None\<close> when it equals none (a fraction, an infinity),
  which is all that comparisons with the constants of the module can tell.
\<close>

section \<open>Python values\<close>

datatype pyval =
    VNone
  | VBool bool
  | VInt int
  | VFloat "int option"
  | VStr pystr
  | VList "pyval list"
  | VDict "(pystr \<times> pyval) list"

text \<open>
  \<^verbatim>\<open>value == expected\<close>: numbers compare by value, dictionaries without order. The expected value is a constant or
  comes from an accepted contract, so it never holds a float that equals no integer.
\<close>

fun number_value :: "pyval \<Rightarrow> int option" where
  "number_value (VInt i) = Some i"
| "number_value (VFloat f) = f"
| "number_value (VBool b) = Some (if b then 1 else 0)"
| "number_value _ = None"

fun py_equals :: "pyval \<Rightarrow> pyval \<Rightarrow> bool"
  and items_equal :: "pyval list \<Rightarrow> pyval list \<Rightarrow> bool"
  and members_equal :: "(pystr \<times> pyval) list \<Rightarrow> (pystr \<times> pyval) list \<Rightarrow> bool" where
  "py_equals v (VInt j) = (number_value v = Some j)"
| "py_equals v (VFloat f) = (f \<noteq> None \<and> number_value v = f)"
| "py_equals v (VBool b) = (number_value v = Some (if b then 1 else 0))"
| "py_equals v (VList ys) = (case v of VList xs \<Rightarrow> items_equal xs ys | _ \<Rightarrow> False)"
| "py_equals v (VDict qs) = (case v of VDict ps \<Rightarrow> length ps = length qs \<and> members_equal ps qs | _ \<Rightarrow> False)"
| "py_equals v c = (v = c)"
| "items_equal xs [] = (xs = [])"
| "items_equal xs (y # ys) = (case xs of [] \<Rightarrow> False | x # xs' \<Rightarrow> py_equals x y \<and> items_equal xs' ys)"
| "members_equal ps [] = True"
| "members_equal ps ((k, c) # qs) = ((case map_of ps k of None \<Rightarrow> False | Some v \<Rightarrow> py_equals v c) \<and> members_equal ps qs)"

abbreviation vstr :: "string \<Rightarrow> pyval" where "vstr s \<equiv> VStr (ustr s)"

definition vdict :: "(string \<times> pyval) list \<Rightarrow> pyval" where
  "vdict ps = VDict (map (\<lambda>(k, v). (ustr k, v)) ps)"

definition vfail :: "bool \<Rightarrow> 'a result \<Rightarrow> 'a result" where
  "vfail c k = require c (VerificationError None) k"

text \<open>\<^verbatim>\<open>value[key]\<close>.\<close>

definition item :: "pyval \<Rightarrow> string \<Rightarrow> pyval result" where
  "item v k = (case v of
     VDict ps \<Rightarrow> (case map_of ps (ustr k) of None \<Rightarrow> Inl PyKeyError | Some x \<Rightarrow> Inr x)
   | _ \<Rightarrow> Inl (PyTypeError ''not subscriptable''))"

definition is_int :: "pyval \<Rightarrow> bool" where
  "is_int v = (case v of VInt _ \<Rightarrow> True | _ \<Rightarrow> False)"

section \<open>Constants\<close>

definition VERSION :: string where "VERSION = ''cogs.stage2-completion-artifacts/v1''"
definition SNAPSHOT :: string where "SNAPSHOT = ''20260713T000000Z''"
definition SNAPSHOT_BASE :: string where
  "SNAPSHOT_BASE = ''https://snapshot.debian.org/archive/debian/'' @ SNAPSHOT @ ''/''"

type_synonym oci_expected = "string \<times> string \<times> string \<times> string \<times> int \<times> string"

definition OCI_EXPECTED :: "oci_expected list" where
  "OCI_EXPECTED =
    [(''index'', ''debian-13-slim-index.json'', ''manifests'', ''application/vnd.oci.image.index.v1+json'', 8973,
      ''28de0877c2189802884ccd20f15ee41c203573bd87bb6b883f5f46362d24c5c2''),
     (''manifest'', ''debian-13-slim-amd64-manifest.json'', ''manifests'', ''application/vnd.oci.image.manifest.v1+json'', 1021,
      ''a617c1cdde36a7e0194b2f07dff669e1753c03c3205356b94f9f350b0f9a57d1''),
     (''config'', ''debian-13-slim-config.json'', ''blobs'', ''application/vnd.oci.image.config.v1+json'', 451,
      ''84645f91e8d166d709fcef984301b2576198bf880c15eb3ce9f4c8fad305c4ea''),
     (''layer'', ''debian-13-slim-amd64-rootfs.tar.gz'', ''blobs'', ''application/vnd.oci.image.layer.v1.tar+gzip'', 29785419,
      ''e95a6c7ea7d49b37920899b023ecd0e32796c976c1748491f76cae53ba86d13a'')]"

definition DIFF_ID :: string where
  "DIFF_ID = ''3edb2192497af6e965b9b7e57dc6dbdce1f3ea721d14a98110419d4ded523298''"

type_synonym snapshot_expected = "string \<times> string \<times> string \<times> int \<times> string"

definition SNAPSHOT_EXPECTED :: "snapshot_expected list" where
  "SNAPSHOT_EXPECTED =
    [(''inrelease'', ''debian-trixie-InRelease'', ''dists/trixie/InRelease'', 140416,
      ''98b25b5cd185c59d34aa6e4c3e9b5b8f01bbe9d104fe2dcfbcd30dc0a14a59ed''),
     (''packages_index'', ''debian-trixie-Packages.xz'', ''dists/trixie/main/binary-amd64/Packages.xz'', 9672648,
      ''3ab4e811cf4f3e5a335d382c58cc19d85f1abe7a4ef4689160ca1f637fa0e9b3'')]"

type_synonym package_expected = "string \<times> string \<times> string \<times> int \<times> string"

definition PACKAGE_EXPECTED :: "package_expected list" where
  "PACKAGE_EXPECTED =
    [(''git'', ''1:2.47.3-0+deb13u1'', ''pool/main/g/git/git_2.47.3-0+deb13u1_amd64.deb'', 8861572,
      ''3e35662fd5c46add561703e54031a1d8ad9df45811927689f0a51122b13be722''),
     (''openssh-server'', ''1:10.0p1-7+deb13u4'', ''pool/main/o/openssh/openssh-server_10.0p1-7+deb13u4_amd64.deb'', 602372,
      ''b4a02524fd2be375624d917ee8102a16567e9e8dd786b41c35e22360cdd37f9d''),
     (''libcom-err2'', ''1.47.2-3+b11'', ''pool/main/e/e2fsprogs/libcom-err2_1.47.2-3+b11_amd64.deb'', 25036,
      ''e1feff126b3e8b3a7b18087e88681469b70d8f6d1b7c4e4b89d98577e1a2fdd7''),
     (''libgssapi-krb5-2'', ''1.21.3-5+deb13u1'', ''pool/main/k/krb5/libgssapi-krb5-2_1.21.3-5+deb13u1_amd64.deb'', 138356,
      ''30847c1fde4240567d7ed3aeab4f655dd591203758b857e85e824045aae70299''),
     (''libk5crypto3'', ''1.21.3-5+deb13u1'', ''pool/main/k/krb5/libk5crypto3_1.21.3-5+deb13u1_amd64.deb'', 81152,
      ''7da07ee674b47f1f0be7cc89317c25310086a1f1761217d0f72e6ae2c5a69b84''),
     (''libkeyutils1'', ''1.6.3-6'', ''pool/main/k/keyutils/libkeyutils1_1.6.3-6_amd64.deb'', 9456,
      ''0b11ad17be0300b63ad4eeb4c6450fed24d34b7b740f23e5363dcb29ee6d5eba''),
     (''libkrb5-3'', ''1.21.3-5+deb13u1'', ''pool/main/k/krb5/libkrb5-3_1.21.3-5+deb13u1_amd64.deb'', 326056,
      ''47d71d6a7f2e59b9bae5f89602397594805113b95889ad18fa703cd53abafc97''),
     (''libkrb5support0'', ''1.21.3-5+deb13u1'', ''pool/main/k/krb5/libkrb5support0_1.21.3-5+deb13u1_amd64.deb'', 33124,
      ''3a0acd8b37955c0e102c756b52c97df2a31f67b96453c35dab70df218d309117''),
     (''libwrap0'', ''7.6.q-36'', ''pool/main/t/tcp-wrappers/libwrap0_7.6.q-36_amd64.deb'', 55256,
      ''cde12afa15d6b1556c5e0564d22edf3b99e6b8fa94c59ccd8b8eebbb62dc19ec''),
     (''libwtmpdb0'', ''0.73.0-3+deb13u1'', ''pool/main/w/wtmpdb/libwtmpdb0_0.73.0-3+deb13u1_amd64.deb'', 13056,
      ''8d6bc1c961d734da58b2d4c35b0a3cd6ad2fe81655bd982c655a97c2255b1c9b'')]"

section \<open>Strict JSON\<close>

definition exact_keys :: "pyval \<Rightarrow> string list \<Rightarrow> unit result" where
  "exact_keys v keys = vfail (case v of VDict ps \<Rightarrow> map fst ps = map ustr keys | _ \<Rightarrow> False) (Inr ())"

lemma check_all_cong [fundef_cong]:
  "xs = ys \<Longrightarrow> (\<And>x. x \<in> set ys \<Longrightarrow> f x = g x) \<Longrightarrow> check_all f xs = check_all g ys"
  by (induction ys arbitrary: xs) (auto intro: rbind_cong)

fun reject_bool :: "pyval \<Rightarrow> unit result" where
  "reject_bool (VBool b) = Inl (VerificationError None)"
| "reject_bool (VDict ps) = check_all (\<lambda>(k, v). reject_bool v) ps"
| "reject_bool (VList xs) = check_all reject_bool xs"
| "reject_bool v = Inr ()"

fun unique_loop :: "(pystr \<times> pyval) list \<Rightarrow> (pystr \<times> pyval) list \<Rightarrow> (pystr \<times> pyval) list result" where
  "unique_loop found [] = Inr found"
| "unique_loop found ((k, v) # rest) = vfail (k \<notin> fst ` set found) (unique_loop (found @ [(k, v)]) rest)"

definition unique_pairs :: "(pystr \<times> pyval) list \<Rightarrow> pyval result" where
  "unique_pairs pairs = rbind (unique_loop [] pairs) (\<lambda>ps. Inr (VDict ps))"

text \<open>\<^verbatim>\<open>json.loads\<close> on bytes, given the two hooks.\<close>

type_synonym json_loader = "((pystr \<times> pyval) list \<Rightarrow> pyval result) \<Rightarrow> (pystr \<Rightarrow> pyval result) \<Rightarrow> bytes \<Rightarrow> pyval result"

fun strict_error :: "exn \<Rightarrow> exn" where
  "strict_error PyUnicodeError = VerificationError None"
| "strict_error (JSONDecodeError _) = VerificationError None"
| "strict_error (PyTypeError _) = VerificationError None"
| "strict_error (VerificationError _) = VerificationError None"
| "strict_error e = e"

definition strict_json :: "json_loader \<Rightarrow> bytes \<Rightarrow> nat \<Rightarrow> pyval result" where
  "strict_json loads raw maximum =
     vfail (length raw \<le> maximum)
     (case loads unique_pairs (\<lambda>_. Inl (VerificationError None)) raw of
        Inl e \<Rightarrow> Inl (strict_error e)
      | Inr v \<Rightarrow> rbind (reject_bool v) (\<lambda>_. Inr v))"

section \<open>URLs\<close>

text \<open>
  \<^verbatim>\<open>urlsplit\<close> and the parts of its result the module looks at. Letters of a scheme or host are lowered in
  ASCII only, and a network location with brackets is refused: the module compares every URL with an ASCII
  constant without brackets before it gets here.
\<close>

definition ascii_lower :: "pystr \<Rightarrow> pystr" where
  "ascii_lower s = map (\<lambda>c. if 65 \<le> c \<and> c \<le> 90 then c + 32 else c) s"

definition scheme_char :: "nat \<Rightarrow> bool" where
  "scheme_char c \<longleftrightarrow> 65 \<le> c \<and> c \<le> 90 \<or> 97 \<le> c \<and> c \<le> 122 \<or> 48 \<le> c \<and> c \<le> 57 \<or> c = 43 \<or> c = 45 \<or> c = 46"

definition is_letter :: "nat \<Rightarrow> bool" where
  "is_letter c \<longleftrightarrow> 65 \<le> c \<and> c \<le> 90 \<or> 97 \<le> c \<and> c \<le> 122"

record url_parts =
  url_scheme :: pystr
  url_netloc :: pystr
  url_path :: pystr
  url_query :: pystr
  url_fragment :: pystr

definition cut :: "nat \<Rightarrow> pystr \<Rightarrow> pystr \<times> pystr" where
  "cut c s = (takeWhile (\<lambda>x. x \<noteq> c) s, drop 1 (dropWhile (\<lambda>x. x \<noteq> c) s))"

definition urlsplit :: "pystr \<Rightarrow> url_parts result" where
  "urlsplit text =
     (let url = filter (\<lambda>c. c \<notin> {9, 10, 13}) (dropWhile (\<lambda>c. c \<le> 32) text);
          head = takeWhile (\<lambda>c. c \<noteq> 58) url;
          has_scheme = head \<noteq> [] \<and> length head < length url \<and> is_letter (hd head) \<and> list_all scheme_char head;
          scheme = (if has_scheme then ascii_lower head else []);
          rest = (if has_scheme then drop (length head + 1) url else url);
          has_netloc = (take 2 rest = [47, 47]);
          netloc = (if has_netloc then takeWhile (\<lambda>c. c \<notin> {47, 63, 35}) (drop 2 rest) else []);
          tail = (if has_netloc then dropWhile (\<lambda>c. c \<notin> {47, 63, 35}) (drop 2 rest) else rest);
          body = fst (cut 35 tail); fragment = snd (cut 35 tail) in
      require (91 \<notin> set netloc \<and> 93 \<notin> set netloc) (PyValueError ''Invalid IPv6 URL'')
      (Inr \<lparr>url_scheme = scheme, url_netloc = netloc, url_path = fst (cut 63 body), url_query = snd (cut 63 body),
            url_fragment = fragment\<rparr>))"

text \<open>\<^verbatim>\<open>hostname\<close> and \<^verbatim>\<open>port\<close>: what stands behind the last at sign, cut at the first colon.\<close>

definition host_info :: "pystr \<Rightarrow> pystr \<times> pystr" where
  "host_info netloc = cut 58 (rev (takeWhile (\<lambda>c. c \<noteq> 64) (rev netloc)))"

definition url_port :: "pystr \<Rightarrow> nat option result" where
  "url_port netloc =
     (let p = snd (host_info netloc) in
      if p = [] then Inr None
      else require (list_all (\<lambda>c. 48 \<le> c \<and> c \<le> 57) p \<and> base_value 10 p \<le> 65535) (PyValueError ''Port out of range'')
        (Inr (Some (base_value 10 p))))"

definition check_url :: "pyval \<Rightarrow> string \<Rightarrow> string \<Rightarrow> unit result" where
  "check_url v host prefix =
     (case v of
        VStr url \<Rightarrow>
          (case urlsplit url of
             Inl _ \<Rightarrow> Inl (VerificationError None)
           | Inr parts \<Rightarrow>
               (case url_port (url_netloc parts) of
                  Inl _ \<Rightarrow> Inl (VerificationError None)
                | Inr port \<Rightarrow>
                    vfail (url_scheme parts = ustr ''https'' \<and> ascii_lower (fst (host_info (url_netloc parts))) = ustr host \<and>
                      port = None)
                    (vfail (64 \<notin> set (url_netloc parts) \<and> url_query parts = [] \<and> url_fragment parts = [])
                    (vfail (starts_with (ustr prefix) (url_path parts)) (Inr ())))))
      | _ \<Rightarrow> Inl (VerificationError None))"

definition check_sha :: "pyval \<Rightarrow> unit result" where
  "check_sha v = vfail (case v of VStr s \<Rightarrow> is_hex64 s | _ \<Rightarrow> False) (Inr ())"

section \<open>The sections of the contract\<close>

definition oci_url :: "string \<Rightarrow> string \<Rightarrow> string" where
  "oci_url endpoint digest = ''https://registry-1.docker.io/v2/library/debian/'' @ endpoint @ ''/sha256:'' @ digest"

definition check_oci_row :: "pyval \<Rightarrow> oci_expected \<Rightarrow> unit result" where
  "check_oci_row oci = (\<lambda>(key, cache_name, endpoint, media_type, bytes, digest).
     rbind (item oci key) (\<lambda>row.
     rbind (exact_keys row ([''cache_name'', ''url'', ''media_type'', ''size'', ''sha256''] @ (if key = ''layer'' then [''diff_id''] else []))) (\<lambda>_.
     rbind (item row ''cache_name'') (\<lambda>name. rbind (item row ''url'') (\<lambda>url.
     vfail (py_equals name (vstr cache_name) \<and> py_equals url (vstr (oci_url endpoint digest)))
     (rbind (item row ''media_type'') (\<lambda>media. rbind (item row ''size'') (\<lambda>stated.
      vfail (py_equals media (vstr media_type) \<and> is_int stated \<and> py_equals stated (VInt bytes))
      (rbind (check_url url ''registry-1.docker.io'' ''/v2/library/debian/'') (\<lambda>_.
       rbind (item row ''sha256'') (\<lambda>sha. rbind (check_sha sha) (\<lambda>_.
       vfail (py_equals sha (vstr digest))
       (if key = ''layer'' then
          rbind (item row ''diff_id'') (\<lambda>diff. rbind (check_sha diff) (\<lambda>_. vfail (py_equals diff (vstr DIFF_ID)) (Inr ())))
        else Inr ())))))))))))))"

definition check_oci :: "pyval \<Rightarrow> unit result" where
  "check_oci contract =
     rbind (item contract ''oci'') (\<lambda>oci.
     rbind (exact_keys oci [''repository'', ''index'', ''manifest'', ''config'', ''layer'']) (\<lambda>_.
     rbind (item oci ''repository'') (\<lambda>repository.
     vfail (py_equals repository (vstr ''library/debian''))
     (check_all (check_oci_row oci) OCI_EXPECTED))))"

definition snapshot_row :: "snapshot_expected \<Rightarrow> pyval" where
  "snapshot_row = (\<lambda>(key, cache_name, path, bytes, digest).
     vdict [(''cache_name'', vstr cache_name), (''path'', vstr path), (''url'', vstr (SNAPSHOT_BASE @ path)), (''size'', VInt bytes),
            (''sha256'', vstr digest)])"

definition check_snapshot_row :: "pyval \<Rightarrow> snapshot_expected \<Rightarrow> unit result" where
  "check_snapshot_row snapshot e =
     rbind (item snapshot (fst e)) (\<lambda>row.
     rbind (exact_keys row [''cache_name'', ''path'', ''url'', ''size'', ''sha256'']) (\<lambda>_.
     vfail (py_equals row (snapshot_row e))
     (rbind (item row ''url'') (\<lambda>url.
      rbind (check_url url ''snapshot.debian.org'' (''/archive/debian/'' @ SNAPSHOT @ ''/'')) (\<lambda>_.
      rbind (item row ''sha256'') check_sha)))))"

definition check_snapshot :: "pyval \<Rightarrow> unit result" where
  "check_snapshot contract =
     rbind (item contract ''snapshot'') (\<lambda>snapshot.
     rbind (exact_keys snapshot [''timestamp'', ''base_url'', ''inrelease'', ''packages_index'']) (\<lambda>_.
     rbind (item snapshot ''timestamp'') (\<lambda>timestamp. rbind (item snapshot ''base_url'') (\<lambda>base.
     vfail (py_equals timestamp (vstr SNAPSHOT) \<and> py_equals base (vstr SNAPSHOT_BASE))
     (rbind (check_url base ''snapshot.debian.org'' (''/archive/debian/'' @ SNAPSHOT @ ''/'')) (\<lambda>_.
      check_all (check_snapshot_row snapshot) SNAPSHOT_EXPECTED))))))"

text \<open>\<^verbatim>\<open>PurePosixPath(path).parts\<close> of a relative path.\<close>

definition path_parts :: "string \<Rightarrow> string list" where
  "path_parts path = filter (\<lambda>p. p \<noteq> [] \<and> p \<noteq> ''.'') (split_on CHR ''/'' path)"

definition file_name :: "string \<Rightarrow> string" where
  "file_name path = (if path_parts path = [] then [] else last (path_parts path))"

definition package_row_value :: "package_expected \<Rightarrow> pyval" where
  "package_row_value = (\<lambda>(name, version, path, bytes, digest).
     vdict [(''name'', vstr name), (''version'', vstr version), (''architecture'', vstr ''amd64''), (''path'', vstr path),
            (''filename'', vstr (file_name path)), (''cache_name'', vstr (file_name path)), (''url'', vstr (SNAPSHOT_BASE @ path)),
            (''size'', VInt bytes), (''sha256'', vstr digest)])"

definition UNIQUE_FIELDS :: "string list" where
  "UNIQUE_FIELDS = [''name'', ''filename'', ''cache_name'', ''url'', ''sha256'']"

definition check_package_row :: "pyval list \<Rightarrow> pyval \<Rightarrow> package_expected \<Rightarrow> unit result" where
  "check_package_row seen row e =
     (case e of (name, version, path, bytes, digest) \<Rightarrow>
        rbind (exact_keys row [''name'', ''version'', ''architecture'', ''path'', ''filename'', ''cache_name'', ''url'', ''size'', ''sha256'']) (\<lambda>_.
        vfail (take 2 (path_parts path) = [''pool'', ''main''] \<and> ''..'' \<notin> set (path_parts path))
        (vfail (py_equals row (package_row_value e))
        (rbind (item row ''url'') (\<lambda>url.
         rbind (check_url url ''snapshot.debian.org'' (''/archive/debian/'' @ SNAPSHOT @ ''/pool/main/'')) (\<lambda>_.
         rbind (item row ''sha256'') (\<lambda>sha. rbind (check_sha sha) (\<lambda>_.
         check_all (\<lambda>field. vfail (item row field \<notin> set (map (\<lambda>r. item r field) seen)) (Inr ())) UNIQUE_FIELDS))))))))"

fun check_package_rows :: "pyval list \<Rightarrow> pyval list \<Rightarrow> package_expected list \<Rightarrow> unit result" where
  "check_package_rows seen (row # rows) (e # es) =
     rbind (check_package_row seen row e) (\<lambda>_. check_package_rows (seen @ [row]) rows es)"
| "check_package_rows seen [] [] = Inr ()"
| "check_package_rows seen _ _ = Inl (PyValueError ''zip() arguments have different lengths'')"

definition number_of :: "pyval \<Rightarrow> int result" where
  "number_of v = (case v of VInt i \<Rightarrow> Inr i | VFloat (Some i) \<Rightarrow> Inr i | _ \<Rightarrow> Inl (PyTypeError ''unsupported operand''))"

definition check_packages :: "pyval \<Rightarrow> unit result" where
  "check_packages contract =
     rbind (item contract ''packages'') (\<lambda>packages.
     (case packages of
        VList rows \<Rightarrow>
          vfail (length rows = length PACKAGE_EXPECTED)
          (rbind (check_package_rows [] rows PACKAGE_EXPECTED) (\<lambda>_.
           rbind (item contract ''package_total_bytes'') (\<lambda>stated.
           vfail (is_int stated)
           (rbind (map_result (\<lambda>row. rbind (item row ''size'') number_of) rows) (\<lambda>sizes.
            vfail (py_equals stated (VInt (sum_list sizes)) \<and> py_equals stated (VInt 10145436)) (Inr ()))))))
      | _ \<Rightarrow> Inl (VerificationError None)))"

section \<open>The whole contract\<close>

definition source_rows :: "pyval \<Rightarrow> pyval list result" where
  "source_rows contract =
     rbind (item contract ''oci'') (\<lambda>oci. rbind (map_result (item oci) [''index'', ''manifest'', ''config'', ''layer'']) (\<lambda>images.
     rbind (item contract ''snapshot'') (\<lambda>snapshot. rbind (map_result (item snapshot) [''inrelease'', ''packages_index'']) (\<lambda>indexes.
     rbind (item contract ''packages'') (\<lambda>packages.
     (case packages of VList rows \<Rightarrow> Inr (images @ indexes @ rows) | _ \<Rightarrow> Inl (PyTypeError ''not iterable'')))))))"

record cache_entry =
  ce_name :: pyval
  ce_size :: pyval
  ce_sha256 :: pyval

definition cache_entry_of :: "pyval \<Rightarrow> cache_entry result" where
  "cache_entry_of row =
     rbind (item row ''cache_name'') (\<lambda>name. rbind (item row ''size'') (\<lambda>bytes. rbind (item row ''sha256'') (\<lambda>sha.
     Inr \<lparr>ce_name = name, ce_size = bytes, ce_sha256 = sha\<rparr>)))"

definition cache_entries :: "pyval \<Rightarrow> cache_entry list result" where
  "cache_entries contract = rbind (source_rows contract) (map_result cache_entry_of)"

text \<open>A section with a fixed value: its keys in order, and the value.\<close>

definition check_section :: "pyval \<Rightarrow> string \<Rightarrow> (string \<times> pyval) list \<Rightarrow> unit result" where
  "check_section contract key expected =
     rbind (item contract key) (\<lambda>v.
     rbind (exact_keys v (map fst expected)) (\<lambda>_.
     vfail (py_equals v (vdict expected)) (Inr ())))"

definition PLATFORM :: "(string \<times> pyval) list" where
  "PLATFORM = [(''os'', vstr ''linux''), (''architecture'', vstr ''amd64'')]"

definition BOUNDS :: "(string \<times> pyval) list" where
  "BOUNDS = [(''artifact_count'', VInt 16), (''max_entries'', VInt 100000), (''max_regular_bytes'', VInt 536870912),
     (''max_file_bytes'', VInt 134217728), (''max_path_bytes'', VInt 4096), (''max_component_bytes'', VInt 255)]"

definition GIT_FIXTURE :: "(string \<times> pyval) list" where
  "GIT_FIXTURE = [(''version'', vstr ''cogs-stage2-git-v1''), (''file_count'', VInt 512), (''lines_per_file'', VInt 128),
     (''modified_count'', VInt 32), (''untracked_count'', VInt 8)]"

definition PACKAGE_FIXTURE :: "(string \<times> pyval) list" where
  "PACKAGE_FIXTURE = [(''name'', vstr ''cogs-stage2-fixture''), (''version'', vstr ''1.0''), (''architecture'', vstr ''all''),
     (''file_count'', VInt 256), (''file_bytes'', VInt 4096)]"

definition TOOLS :: "(string \<times> pyval) list" where
  "TOOLS = [(''python3'', vstr ''/usr/bin/python3''), (''dpkg_deb'', vstr ''/usr/bin/dpkg-deb''), (''dpkg'', vstr ''/usr/bin/dpkg''),
     (''git'', vstr ''/usr/bin/git''), (''sshd'', vstr ''/usr/sbin/sshd'')]"

definition TIMEOUTS :: "(string \<times> pyval) list" where
  "TIMEOUTS = [(''metadata'', VInt 10), (''artifact_read'', VInt 120), (''build'', VInt 300)]"

definition check_fixtures :: "pyval \<Rightarrow> unit result" where
  "check_fixtures contract =
     rbind (item contract ''fixtures'') (\<lambda>fixtures.
     rbind (exact_keys fixtures [''git'', ''package'']) (\<lambda>_.
     rbind (item fixtures ''git'') (\<lambda>git. rbind (exact_keys git (map fst GIT_FIXTURE)) (\<lambda>_.
     rbind (item fixtures ''package'') (\<lambda>package. rbind (exact_keys package (map fst PACKAGE_FIXTURE)) (\<lambda>_.
     vfail (py_equals fixtures (vdict [(''git'', vdict GIT_FIXTURE), (''package'', vdict PACKAGE_FIXTURE)])) (Inr ())))))))"

definition CONTRACT_KEYS :: "string list" where
  "CONTRACT_KEYS = [''version'', ''platform'', ''source_date_epoch'', ''oci'', ''snapshot'', ''packages'', ''package_total_bytes'',
     ''bounds'', ''fixtures'', ''tools'', ''timeouts_seconds'']"

definition distinct_field :: "pyval list \<Rightarrow> string \<Rightarrow> unit result" where
  "distinct_field rows field = rbind (map_result (\<lambda>row. item row field) rows) (\<lambda>vs. vfail (distinct vs) (Inr ()))"

definition check_contract :: "pyval \<Rightarrow> unit result" where
  "check_contract contract =
     rbind (exact_keys contract CONTRACT_KEYS) (\<lambda>_.
     rbind (item contract ''version'') (\<lambda>version.
     vfail (py_equals version (vstr VERSION))
     (rbind (check_section contract ''platform'' PLATFORM) (\<lambda>_.
      rbind (item contract ''source_date_epoch'') (\<lambda>epoch.
      vfail (is_int epoch \<and> py_equals epoch (VInt 1782172800))
      (rbind (check_oci contract) (\<lambda>_.
       rbind (check_snapshot contract) (\<lambda>_.
       rbind (check_packages contract) (\<lambda>_.
       rbind (check_section contract ''bounds'' BOUNDS) (\<lambda>_.
       rbind (check_fixtures contract) (\<lambda>_.
       rbind (check_section contract ''tools'' TOOLS) (\<lambda>_.
       rbind (check_section contract ''timeouts_seconds'' TIMEOUTS) (\<lambda>_.
       rbind (source_rows contract) (\<lambda>rows.
       rbind (cache_entries contract) (\<lambda>cached.
       rbind (item contract ''bounds'') (\<lambda>bounds. rbind (item bounds ''artifact_count'') (\<lambda>stated_count.
       vfail (py_equals stated_count (VInt (int (length cached))))
       (check_all (distinct_field rows) [''cache_name'', ''url'', ''sha256'']))))))))))))))))))"

definition verify_contract :: "json_loader \<Rightarrow> bytes \<Rightarrow> pyval result" where
  "verify_contract loads raw =
     rbind (strict_json loads raw 32768) (\<lambda>contract.
     rbind (check_contract contract) (\<lambda>_. Inr contract))"

end
