(* ===== verification/ArtifactMetadata.thy ===== *)
theory ArtifactMetadata
  imports ArtifactContract ArchiveSemantics
begin

text \<open>
  The documents behind the artifact contract (\<^verbatim>\<open>remote/verify-completion-artifacts.py\<close>, second half): the image
  index, manifest and configuration, the clear-signed release file, and the package index. \<^verbatim>\<open>json.loads\<close>,
  \<^verbatim>\<open>base64.b64decode\<close> and the decoder of \<^verbatim>\<open>lzma\<close> are parameters. The bytes of the documents are those of
  \<^verbatim>\<open>cached_bytes\<close>; reading them from the cache directory is not part of this theory.
\<close>

section \<open>Values of the contract\<close>

definition at_path :: "pyval \<Rightarrow> string list \<Rightarrow> pyval result" where
  "at_path v path = foldl (\<lambda>r k. rbind r (\<lambda>x. item x k)) (Inr v) path"

text \<open>\<^verbatim>\<open>value.get(key)\<close> of a dictionary.\<close>

definition dict_get :: "pyval \<Rightarrow> string \<Rightarrow> pyval" where
  "dict_get v k = (case v of VDict ps \<Rightarrow> (case map_of ps (ustr k) of None \<Rightarrow> VNone | Some x \<Rightarrow> x) | _ \<Rightarrow> VNone)"

fun is_dict :: "pyval \<Rightarrow> bool" where
  "is_dict (VDict _) = True"
| "is_dict _ = False"

text \<open>\<^verbatim>\<open>str(value)\<close> of the strings and numbers of an accepted contract.\<close>

fun py_str :: "pyval \<Rightarrow> pystr result" where
  "py_str (VStr s) = Inr s"
| "py_str (VInt i) = Inr (print_int i)"
| "py_str (VFloat (Some i)) = Inr (print_int i @ ustr ''.0'')"
| "py_str _ = Inl (PyTypeError ''not a number or string'')"

definition limit :: "pyval \<Rightarrow> string \<Rightarrow> nat result" where
  "limit contract key = rbind (at_path contract [''bounds'', key]) (\<lambda>v. rbind (number_of v) (\<lambda>n. Inr (nat n)))"

section \<open>Image documents\<close>

definition descriptor_matches :: "pyval \<Rightarrow> pyval \<Rightarrow> bool result" where
  "descriptor_matches v row =
     (if is_dict v then
        rbind (item row ''media_type'') (\<lambda>media. rbind (item row ''sha256'') (\<lambda>sha. rbind (py_str sha) (\<lambda>digest.
        rbind (item row ''size'') (\<lambda>n.
        Inr (py_equals (dict_get v ''mediaType'') media \<and>
             py_equals (dict_get v ''digest'') (VStr (ustr ''sha256:'' @ digest)) \<and>
             py_equals (dict_get v ''size'') n)))))
      else Inr False)"

definition for_platform :: "pyval \<Rightarrow> bool" where
  "for_platform m =
     (is_dict (dict_get m ''platform'') \<and>
      py_equals (dict_get (dict_get m ''platform'') ''architecture'') (vstr ''amd64'') \<and>
      py_equals (dict_get (dict_get m ''platform'') ''os'') (vstr ''linux''))"

definition check_index :: "pyval \<Rightarrow> pyval \<Rightarrow> unit result" where
  "check_index contract index =
     vfail (is_dict index \<and> py_equals (dict_get index ''schemaVersion'') (VInt 2))
     (rbind (at_path contract [''oci'', ''index'', ''media_type'']) (\<lambda>media.
      vfail (py_equals (dict_get index ''mediaType'') media)
      (case dict_get index ''manifests'' of
         VList manifests \<Rightarrow>
           vfail (0 < length manifests \<and> length manifests \<le> 64)
           (vfail (list_all is_dict manifests)
           (case filter for_platform manifests of
              [selected] \<Rightarrow>
                vfail (py_equals (dict_get selected ''platform'') (vdict [(''architecture'', vstr ''amd64''), (''os'', vstr ''linux'')]))
                (rbind (at_path contract [''oci'', ''manifest'']) (\<lambda>row.
                 rbind (descriptor_matches selected row) (\<lambda>ok. vfail ok (Inr ()))))
            | _ \<Rightarrow> Inl (VerificationError None)))
       | _ \<Rightarrow> Inl (VerificationError None))))"

definition check_manifest :: "(pystr \<Rightarrow> bytes option) \<Rightarrow> pyval \<Rightarrow> pyval \<Rightarrow> bytes \<Rightarrow> unit result" where
  "check_manifest b64decode contract manifest config_raw =
     vfail (is_dict manifest \<and> py_equals (dict_get manifest ''schemaVersion'') (VInt 2))
     (rbind (at_path contract [''oci'', ''manifest'', ''media_type'']) (\<lambda>media.
      vfail (py_equals (dict_get manifest ''mediaType'') media)
      (rbind (at_path contract [''oci'', ''config'']) (\<lambda>config_row.
       rbind (descriptor_matches (dict_get manifest ''config'') config_row) (\<lambda>ok.
       vfail ok
       (case dict_get manifest ''layers'' of
          VList [layer] \<Rightarrow>
            rbind (at_path contract [''oci'', ''layer'']) (\<lambda>layer_row.
            rbind (descriptor_matches layer layer_row) (\<lambda>ok.
            vfail ok
            (case dict_get (dict_get manifest ''config'') ''data'' of
               VStr embedded \<Rightarrow>
                 (case b64decode embedded of
                    None \<Rightarrow> Inl (VerificationError None)
                  | Some decoded \<Rightarrow> vfail (decoded = config_raw) (Inr ()))
             | _ \<Rightarrow> Inl (VerificationError None))))
        | _ \<Rightarrow> Inl (VerificationError None)))))))"

definition IMAGE_CONFIG :: pyval where
  "IMAGE_CONFIG = vdict
     [(''Env'', VList [vstr ''PATH=/usr/local/sbin:/usr/local/bin:/usr/sbin:/usr/bin:/sbin:/bin'']),
      (''Entrypoint'', VList []), (''Cmd'', VList [vstr ''bash''])]"

definition check_config :: "pyval \<Rightarrow> pyval \<Rightarrow> unit result" where
  "check_config contract config =
     vfail (is_dict config \<and> py_equals (dict_get config ''os'') (vstr ''linux'') \<and>
       py_equals (dict_get config ''architecture'') (vstr ''amd64''))
     (rbind (at_path contract [''oci'', ''layer'', ''diff_id'']) (\<lambda>diff. rbind (py_str diff) (\<lambda>diff_id.
      vfail (py_equals (dict_get config ''rootfs'')
        (vdict [(''type'', vstr ''layers''), (''diff_ids'', VList [VStr (ustr ''sha256:'' @ diff_id)])]))
      (vfail (py_equals (dict_get config ''config'') IMAGE_CONFIG) (Inr ())))))"

definition verify_oci_documents ::
  "json_loader \<Rightarrow> (pystr \<Rightarrow> bytes option) \<Rightarrow> pyval \<Rightarrow> bytes \<Rightarrow> bytes \<Rightarrow> bytes \<Rightarrow> unit result" where
  "verify_oci_documents loads b64decode contract index_raw manifest_raw config_raw =
     rbind (limit contract ''max_file_bytes'') (\<lambda>maximum.
     rbind (strict_json loads index_raw maximum) (\<lambda>index.
     rbind (strict_json loads manifest_raw maximum) (\<lambda>manifest.
     rbind (strict_json loads config_raw maximum) (\<lambda>config.
     rbind (check_index contract index) (\<lambda>_.
     rbind (check_manifest b64decode contract manifest config_raw) (\<lambda>_.
     check_config contract config))))))"

section \<open>The release file\<close>

definition SIGNED_BEGIN :: pystr where "SIGNED_BEGIN = ustr ''-----BEGIN PGP SIGNED MESSAGE-----''"
definition HASH_LINE :: pystr where "HASH_LINE = ustr ''Hash: SHA256''"
definition SIGNATURE_BEGIN :: pystr where "SIGNATURE_BEGIN = ustr ''-----BEGIN PGP SIGNATURE-----''"
definition SIGNATURE_END :: pystr where "SIGNATURE_END = ustr ''-----END PGP SIGNATURE-----''"

definition is_base64 :: "nat \<Rightarrow> bool" where
  "is_base64 c \<longleftrightarrow> is_alnum c \<or> c = 43 \<or> c = 47 \<or> c = 61"

definition unescape_line :: "pystr \<Rightarrow> pystr result" where
  "unescape_line line =
     (if starts_with [45] line then vfail (starts_with [45, 32] line) (Inr (drop 2 line)) else Inr line)"

definition clear_signed_body :: "bytes \<Rightarrow> pystr list result" where
  "clear_signed_body raw =
     vfail (length raw \<le> 1048576 \<and> ends_with [10] raw \<and> 13 \<notin> set raw)
     (vfail (list_all (\<lambda>c. c < 128) raw)
     (vfail (list_all (\<lambda>c. c = 10 \<or> 32 \<le> c \<and> c \<le> 126) raw)
     (let lines = str_splitlines raw in
      vfail (list_all (\<lambda>l. length l \<le> 65536) lines)
      (vfail (take 3 lines = [SIGNED_BEGIN, HASH_LINE, []])
      (vfail (count_list lines SIGNED_BEGIN = 1 \<and> count_list lines HASH_LINE = 1)
      (vfail (count_list lines SIGNATURE_BEGIN = 1 \<and> count_list lines SIGNATURE_END = 1)
      (vfail (last lines = SIGNATURE_END)
      (case find_first (\<lambda>l. l = SIGNATURE_BEGIN) lines of
         None \<Rightarrow> Inl (PyValueError ''not in list'')
       | Some signature \<Rightarrow>
           let signature_body = slice (signature + 1) (length lines - 1) lines in
           vfail (3 < signature \<and> 1 < length signature_body \<and> hd signature_body = [])
           (vfail (list_all (\<lambda>l. l \<noteq> [] \<and> list_all is_base64 l) (tl signature_body))
           (map_result unescape_line (slice 3 signature lines)))))))))))"

text \<open>\<^verbatim>\<open>line.split()\<close> of a line whose only white space is the space.\<close>

definition words_of :: "pystr \<Rightarrow> pystr list" where
  "words_of line = filter (\<lambda>w. w \<noteq> []) (split_on 32 line)"

fun release_rows :: "pystr list \<Rightarrow> pystr list list result" where
  "release_rows [] = Inr []"
| "release_rows (line # rest) =
     (if starts_with [32] line then
        vfail (length (words_of line) = 3 \<and> is_hex64 (words_of line ! 0) \<and> list_all is_digit (words_of line ! 1))
        (rbind (release_rows rest) (\<lambda>rows. Inr (words_of line # rows)))
      else Inr [])"

definition SHA256_LINE :: pystr where "SHA256_LINE = ustr ''SHA256:''"

definition verify_inrelease :: "pyval \<Rightarrow> bytes \<Rightarrow> unit result" where
  "verify_inrelease contract raw =
     rbind (clear_signed_body raw) (\<lambda>body.
     vfail (count_list body SHA256_LINE = 1)
     (rbind (release_rows (drop 1 (dropWhile (\<lambda>l. l \<noteq> SHA256_LINE) body))) (\<lambda>rows.
      rbind (at_path contract [''snapshot'', ''packages_index'']) (\<lambda>expected.
      rbind (item expected ''path'') (\<lambda>path.
      (case path of
         VStr text \<Rightarrow>
           let prefix = ustr ''dists/trixie/'';
               release_path = (if starts_with prefix text then drop (length prefix) text else text) in
           vfail (release_path \<noteq> text)
           (rbind (item expected ''sha256'') (\<lambda>sha. rbind (item expected ''size'') (\<lambda>n. rbind (py_str n) (\<lambda>size_text.
            (case filter (\<lambda>row. row ! 2 = release_path) rows of
               [row] \<Rightarrow> vfail (py_equals (VStr (row ! 0)) sha \<and> row ! 1 = size_text) (Inr ())
             | _ \<Rightarrow> Inl (VerificationError None))))))
       | _ \<Rightarrow> Inl (PyTypeError ''no removeprefix'')))))))"

section \<open>The package index\<close>

partial_function (option) expand_chunk ::
  "'d decoder \<Rightarrow> int \<Rightarrow> bytes \<Rightarrow> 'd \<Rightarrow> bytes \<Rightarrow> ('d \<times> bytes) result option" where
  "expand_chunk D maximum chunk d out =
     (if chunk \<noteq> [] \<or> (case d_needs_input D of None \<Rightarrow> False | Some f \<Rightarrow> \<not> f d \<and> \<not> d_eof D d) then
        (case d_decompress D d chunk (maximum + 1 - int (length out)) of
           None \<Rightarrow> Some (Inl (VerificationError None))
         | Some (expanded, d') \<Rightarrow>
             if int (length (out @ expanded)) \<le> maximum \<and> d_unused D d' = []
             then expand_chunk D maximum [] d' (out @ expanded)
             else Some (Inl (VerificationError None)))
      else Some (Inr (d, out)))"

fun expand_chunks :: "'d decoder \<Rightarrow> int \<Rightarrow> bytes list \<Rightarrow> 'd \<Rightarrow> bytes \<Rightarrow> bytes result option" where
  "expand_chunks D maximum [] d out = Some (vfail (d_eof D d \<and> d_unused D d = []) (Inr out))"
| "expand_chunks D maximum (c # cs) d out =
     (if d_eof D d then Some (Inl (VerificationError None))
      else orbind (expand_chunk D maximum c d out) (\<lambda>(d', out'). expand_chunks D maximum cs d' out'))"

definition decompress_xz :: "'d decoder \<Rightarrow> bytes \<Rightarrow> int \<Rightarrow> bytes result option" where
  "decompress_xz xz raw maximum = expand_chunks xz maximum (chunks raw) (d_start xz) []"

type_synonym stanza = "(pystr \<times> pystr) list"

record stanza_state =
  ss_done :: "stanza list"
  ss_current :: stanza
  ss_last :: "pystr option"

definition stanza_line :: "nat \<Rightarrow> pystr \<Rightarrow> stanza_state \<Rightarrow> stanza_state result" where
  "stanza_line maximum line s =
     rbind (encoded_length line) (\<lambda>n.
     vfail (n \<le> 131072)
     (if line = [] then
        (if ss_current s \<noteq> [] then
           vfail (length (ss_done s) + 1 \<le> maximum)
           (Inr \<lparr>ss_done = ss_done s @ [ss_current s], ss_current = [], ss_last = None\<rparr>)
         else Inr s)
      else if hd line = 32 \<or> hd line = 9 then
        (case ss_last s of
           None \<Rightarrow> Inl (VerificationError None)
         | Some l \<Rightarrow>
             (case map_of (ss_current s) l of
                None \<Rightarrow> Inl PyKeyError
              | Some v \<Rightarrow> Inr (s\<lparr>ss_current := dict_set l (v @ 10 # tl line) (ss_current s)\<rparr>)))
      else
        vfail (58 \<in> set line)
        (let name = fst (split_once 58 line); text = snd (split_once 58 line) in
         vfail (field_name name \<and> name \<notin> fst ` set (ss_current s))
         (vfail (starts_with [32] text)
         (Inr (s\<lparr>ss_current := dict_set name (drop 1 text) (ss_current s), ss_last := Some name\<rparr>))))))"

fun stanza_lines :: "nat \<Rightarrow> pystr list \<Rightarrow> stanza_state \<Rightarrow> stanza_state result" where
  "stanza_lines maximum [] s = Inr s"
| "stanza_lines maximum (line # rest) s = rbind (stanza_line maximum line s) (stanza_lines maximum rest)"

definition debian_stanzas :: "bytes \<Rightarrow> nat \<Rightarrow> stanza list result" where
  "debian_stanzas raw maximum =
     vfail (ends_with [10] raw \<and> 13 \<notin> set raw)
     (case utf8_decode raw of
        None \<Rightarrow> Inl (VerificationError None)
      | Some text \<Rightarrow>
          vfail (list_all (\<lambda>c. c = 10 \<or> c = 9 \<or> 32 \<le> c \<and> c < 127 \<or> 160 \<le> c) text)
          (rbind (stanza_lines maximum (str_splitlines text) \<lparr>ss_done = [], ss_current = [], ss_last = None\<rparr>) (\<lambda>s.
           let stanzas = ss_done s @ (if ss_current s \<noteq> [] then [ss_current s] else []) in
           vfail (0 < length stanzas \<and> length stanzas \<le> maximum) (Inr stanzas))))"

text \<open>\<^verbatim>\<open>row.get(field) == value\<close> for a stanza.\<close>

definition stanza_has :: "stanza \<Rightarrow> string \<Rightarrow> pyval \<Rightarrow> bool" where
  "stanza_has row field v = (case map_of row (ustr field) of None \<Rightarrow> v = VNone | Some s \<Rightarrow> py_equals (VStr s) v)"

definition named_stanzas :: "stanza list \<Rightarrow> pyval \<Rightarrow> stanza list" where
  "named_stanzas stanzas name = filter (\<lambda>row. stanza_has row ''Package'' name) stanzas"

definition check_package :: "stanza list \<Rightarrow> pyval \<Rightarrow> int result" where
  "check_package stanzas expected =
     rbind (item expected ''name'') (\<lambda>name.
     (case named_stanzas stanzas name of
        [row] \<Rightarrow>
          rbind (item expected ''version'') (\<lambda>version. rbind (item expected ''architecture'') (\<lambda>architecture.
          rbind (item expected ''path'') (\<lambda>path. rbind (item expected ''size'') (\<lambda>n. rbind (py_str n) (\<lambda>size_text.
          rbind (item expected ''sha256'') (\<lambda>sha.
          vfail (stanza_has row ''Version'' version \<and> stanza_has row ''Architecture'' architecture \<and>
            stanza_has row ''Filename'' path \<and> stanza_has row ''Size'' (VStr size_text) \<and> stanza_has row ''SHA256'' sha)
          (number_of n)))))))
      | _ \<Rightarrow> Inl (VerificationError None)))"

definition check_index_rows :: "pyval \<Rightarrow> stanza list \<Rightarrow> unit result" where
  "check_index_rows contract stanzas =
     rbind (item contract ''packages'') (\<lambda>packages.
     (case packages of
        VList rows \<Rightarrow>
          rbind (map_result (check_package stanzas) rows) (\<lambda>sizes.
          rbind (item contract ''package_total_bytes'') (\<lambda>stated.
          vfail (py_equals (VInt (sum_list sizes)) stated) (Inr ())))
      | _ \<Rightarrow> Inl (PyTypeError ''not iterable'')))"

definition verify_packages_index :: "'d decoder \<Rightarrow> pyval \<Rightarrow> bytes \<Rightarrow> unit result option" where
  "verify_packages_index xz contract raw =
     orbind (Some (limit contract ''max_file_bytes'')) (\<lambda>maximum.
     orbind (decompress_xz xz raw (int maximum)) (\<lambda>expanded.
     orbind (Some (limit contract ''max_entries'')) (\<lambda>entries.
     Some (rbind (debian_stanzas expanded entries) (check_index_rows contract)))))"

end
