(* ===== verification/ArtifactCache.thy ===== *)
theory ArtifactCache
  imports ArtifactMetadata CampaignStore
begin

text \<open>
  The artifact cache (\<^verbatim>\<open>remote/verify-completion-artifacts.py\<close>, the parts that read files): stable reads,
  verification of cached files, of the cache directory and of the layer, and the verification of all metadata.

  Each directory the verifier looks into is a directory of its own as in the custody of the campaign, with other
  processes changing it and calls failing before any call; \<open>tree\<close> finds the directory by name. Bytes hashed
  incrementally are hashed as one sequence. A file name is a name in its directory, not a path.
\<close>

section \<open>Directories\<close>

type_synonym tree = "string \<Rightarrow> custody_state"

definition at_dir :: "string \<Rightarrow> (custody_state, 'a) eff \<Rightarrow> (tree, 'a) eff" where
  "at_dir d m = zoom (\<lambda>s. s d) (\<lambda>t s. s(d := t)) m"

record ('g, 'x) verifier =
  vr_os :: "string \<Rightarrow> os_env"
  vr_euid :: int
  vr_sha256 :: digest_fun
  vr_loads :: json_loader
  vr_b64decode :: "pystr \<Rightarrow> bytes option"
  vr_gzip :: "'g decoder"
  vr_xz :: "'x decoder"

definition efail :: "bool \<Rightarrow> ('s, unit) eff" where
  "efail c = guard c (VerificationError None)"

section \<open>Stable reads\<close>

text \<open>Every turn reads at least one byte and fails beyond the maximum, so \<open>maximum + 1\<close> turns are enough.\<close>

primrec stable_loop :: "os_env \<Rightarrow> nat \<Rightarrow> nat \<Rightarrow> nat \<Rightarrow> bytes \<Rightarrow> (custody_state, bytes) eff" where
  "stable_loop E i maximum 0 raw = ret raw"
| "stable_loop E i maximum (Suc n) raw =
     ebind (sys_read E i (length raw) (min 1048576 (maximum + 1 - length raw))) (\<lambda>chunk.
     if chunk = [] then ret raw
     else ebind (efail (length (raw @ chunk) \<le> maximum)) (\<lambda>_. stable_loop E i maximum n (raw @ chunk)))"

definition read_stable_regular :: "os_env \<Rightarrow> int \<Rightarrow> pystr \<Rightarrow> int \<Rightarrow> nat \<Rightarrow> (custody_state, bytes) eff" where
  "read_stable_regular E euid name mode maximum =
     ebind (sys_stat E name) (\<lambda>pre.
     ebind (efail (st_type pre = ''regular'' \<and> st_nlink pre = 1 \<and> st_uid pre = euid)) (\<lambda>_.
     ebind (efail (st_perm pre = mode \<and> st_size pre \<le> int maximum)) (\<lambda>_.
     ebind (sys_open E name) (\<lambda>i.
     ebind (finally_do (sys_close E)
       (ebind (sys_fstat E i) (\<lambda>opened.
        ebind (efail (same_identity opened pre)) (\<lambda>_.
        stable_loop E i maximum (maximum + 1) [])))) (\<lambda>raw.
     ebind (sys_stat E name) (\<lambda>post.
     ebind (efail (same_identity post pre \<and> int (length raw) = st_size pre)) (\<lambda>_.
     ret raw)))))))"

definition contract_mode :: "bool \<Rightarrow> int" where
  "contract_mode fixed = (if fixed then 256 else 420)"

definition CONTRACT_NAME :: pystr where "CONTRACT_NAME = ustr ''stage2-completion-artifacts-v1.json''"

definition load_contract :: "('g, 'x) verifier \<Rightarrow> bool \<Rightarrow> (tree, pyval) eff" where
  "load_contract V fixed =
     ebind (at_dir ''contract'' (read_stable_regular (vr_os V ''contract'') (vr_euid V) CONTRACT_NAME (contract_mode fixed) 32768)) (\<lambda>raw.
     lift (verify_contract (vr_loads V) raw))"

section \<open>Cached files\<close>

text \<open>
  \<^verbatim>\<open>min(1024 * 1024, expected["size"] + 1 - total)\<close> as the length of a read, which must be an integer. The
  total never exceeds the size, so the length is at least one.
\<close>

fun read_request :: "pyval \<Rightarrow> nat \<Rightarrow> nat result" where
  "read_request (VInt n) got = Inr (nat (min 1048576 (n + 1 - int got)))"
| "read_request (VFloat (Some n)) got = require (1048576 \<le> n + 1 - int got) (PyTypeError ''float as an integer'') (Inr 1048576)"
| "read_request _ got = Inl (PyTypeError ''unsupported operand'')"

primrec cached_loop :: "os_env \<Rightarrow> nat \<Rightarrow> pyval \<Rightarrow> nat \<Rightarrow> nat \<Rightarrow> bytes \<Rightarrow> (custody_state, bytes) eff" where
  "cached_loop E i stated bound 0 raw = ret raw"
| "cached_loop E i stated bound (Suc n) raw =
     ebind (lift (read_request stated (length raw))) (\<lambda>request.
     ebind (sys_read E i (length raw) request) (\<lambda>chunk.
     if chunk = [] then ret raw
     else ebind (efail (length (raw @ chunk) \<le> bound)) (\<lambda>_. cached_loop E i stated bound n (raw @ chunk))))"

definition verify_cached_file :: "os_env \<Rightarrow> int \<Rightarrow> digest_fun \<Rightarrow> cache_entry \<Rightarrow> (custody_state, unit) eff" where
  "verify_cached_file E euid H expected =
     (case ce_name expected of
        VStr name \<Rightarrow>
          ebind (efail (name \<noteq> [] \<and> name \<noteq> ustr ''.'' \<and> 47 \<notin> set name)) (\<lambda>_.
          ebind (sys_stat E name) (\<lambda>pre.
          ebind (efail (st_type pre = ''regular'' \<and> st_uid pre = euid)) (\<lambda>_.
          ebind (efail (st_perm pre = 256 \<and> st_nlink pre = 1 \<and> number_value (ce_size expected) = Some (st_size pre))) (\<lambda>_.
          ebind (sys_open E name) (\<lambda>i.
          ebind (finally_do (sys_close E)
            (ebind (sys_fstat E i) (\<lambda>opened.
             ebind (efail (same_identity opened pre)) (\<lambda>_.
             cached_loop E i (ce_size expected) (nat (st_size pre)) (nat (st_size pre) + 1) [])))) (\<lambda>raw.
          ebind (sys_stat E name) (\<lambda>post.
          ebind (efail (same_identity post pre)) (\<lambda>_.
          efail (int (length raw) = st_size pre \<and> py_equals (VStr (H raw)) (ce_sha256 expected))))))))))
      | _ \<Rightarrow> raise (PyTypeError ''unsupported operand''))"

section \<open>The cache directory\<close>

definition verify_directory :: "('g, 'x) verifier \<Rightarrow> int \<Rightarrow> string \<Rightarrow> (tree, unit) eff" where
  "verify_directory V mode d =
     ebind (at_dir d (sys_fstat_dir (vr_os V d))) (\<lambda>st.
     ebind (efail (st_type st = ''directory'')) (\<lambda>_.
     efail (st_uid st = vr_euid V \<and> st_perm st = mode)))"

primrec for_each :: "('a \<Rightarrow> ('s, unit) eff) \<Rightarrow> 'a list \<Rightarrow> ('s, unit) eff" where
  "for_each f [] = ret ()"
| "for_each f (x # xs) = ebind (f x) (\<lambda>_. for_each f xs)"

definition SENTINEL :: pystr where "SENTINEL = ustr ''.cogs-stage2-completion-artifacts-v1''"
definition SENTINEL_BYTES :: bytes where "SENTINEL_BYTES = ustr ''cogs-stage2-completion-artifacts-v1'' @ [10]"

definition ROOT_NAMES :: "string list" where "ROOT_NAMES = [''.state'', ''completion-v1'', ''artifacts'']"

definition verify_cache_root :: "('g, 'x) verifier \<Rightarrow> string list \<Rightarrow> cache_entry list \<Rightarrow> (tree, unit) eff" where
  "verify_cache_root V artifact_root entries =
     ebind (efail (drop (length artifact_root - 3) artifact_root = ROOT_NAMES)) (\<lambda>_.
     ebind (for_each (verify_directory V 448) ROOT_NAMES) (\<lambda>_.
     ebind (at_dir ''artifacts'' (read_stable_regular (vr_os V ''artifacts'') (vr_euid V) SENTINEL 384 (length SENTINEL_BYTES))) (\<lambda>raw.
     ebind (efail (raw = SENTINEL_BYTES)) (\<lambda>_.
     ebind (verify_directory V 448 ''cache'') (\<lambda>_.
     ebind (efail (distinct (map ce_name entries))) (\<lambda>_.
     ebind (at_dir ''cache'' (sys_listdir (vr_os V ''cache''))) (\<lambda>names.
     ebind (efail (set (map VStr names) = set (map ce_name entries))) (\<lambda>_.
     for_each (\<lambda>e. at_dir ''cache'' (verify_cached_file (vr_os V ''cache'') (vr_euid V) (vr_sha256 V) e)) entries))))))))"

definition verify_cache :: "('g, 'x) verifier \<Rightarrow> bool \<Rightarrow> string list \<Rightarrow> (tree, unit) eff" where
  "verify_cache V fixed artifact_root =
     ebind (load_contract V fixed) (\<lambda>contract.
     ebind (lift (cache_entries contract)) (\<lambda>entries.
     verify_cache_root V artifact_root entries))"

definition cached_bytes :: "('g, 'x) verifier \<Rightarrow> pyval \<Rightarrow> nat \<Rightarrow> (tree, bytes) eff" where
  "cached_bytes V row maximum =
     ebind (lift (rbind (item row ''size'') number_of)) (\<lambda>n.
     ebind (efail (n \<le> int maximum)) (\<lambda>_.
     ebind (lift (item row ''cache_name'')) (\<lambda>name.
     (case name of
        VStr file \<Rightarrow>
          ebind (at_dir ''cache'' (read_stable_regular (vr_os V ''cache'') (vr_euid V) file 256 maximum)) (\<lambda>raw.
          ebind (lift (item row ''sha256'')) (\<lambda>sha.
          ebind (efail (int (length raw) = n \<and> py_equals (VStr (vr_sha256 V raw)) sha)) (\<lambda>_.
          ret raw)))
      | _ \<Rightarrow> raise (PyTypeError ''unsupported operand'')))))"

section \<open>The layer\<close>

definition unconsumed :: "'d decoder \<Rightarrow> 'd \<Rightarrow> bytes" where
  "unconsumed D d = (case d_unconsumed D of None \<Rightarrow> [] | Some f \<Rightarrow> f d)"

primrec layer_loop :: "os_env \<Rightarrow> 'g decoder \<Rightarrow> nat \<Rightarrow> int \<Rightarrow> int \<Rightarrow> nat \<Rightarrow> bytes \<Rightarrow> 'g \<Rightarrow> bytes \<Rightarrow> (custody_state, bytes \<times> bytes) eff" where
  "layer_loop E D i stated maximum 0 raw d out = ret (raw, out)"
| "layer_loop E D i stated maximum (Suc n) raw d out =
     ebind (sys_read E i (length raw) 1048576) (\<lambda>chunk.
     if chunk = [] then
       ebind (efail (d_eof D d \<and> unconsumed D d = [] \<and> d_unused D d = [])) (\<lambda>_. ret (raw, out))
     else
       ebind (efail (\<not> d_eof D d)) (\<lambda>_.
       ebind (efail (int (length (raw @ chunk)) \<le> stated)) (\<lambda>_.
       (case d_decompress D d chunk (maximum + 1 - int (length out)) of
          None \<Rightarrow> raise (VerificationError None)
        | Some (expanded, d') \<Rightarrow>
            ebind (efail (int (length (out @ expanded)) \<le> maximum \<and> unconsumed D d' = [] \<and> d_unused D d' = [])) (\<lambda>_.
            layer_loop E D i stated maximum n (raw @ chunk) d' (out @ expanded))))))"

definition verify_gzip_layer ::
  "os_env \<Rightarrow> int \<Rightarrow> digest_fun \<Rightarrow> 'g decoder \<Rightarrow> pystr \<Rightarrow> pyval \<Rightarrow> pyval \<Rightarrow> pyval \<Rightarrow> int \<Rightarrow> (custody_state, unit) eff" where
  "verify_gzip_layer E euid H D name stated sha diff_id maximum =
     ebind (sys_stat E name) (\<lambda>pre.
     ebind (efail (st_type pre = ''regular'' \<and> st_uid pre = euid \<and> st_nlink pre = 1)) (\<lambda>_.
     ebind (efail (st_perm pre = 256 \<and> number_value stated = Some (st_size pre))) (\<lambda>_.
     ebind (sys_open E name) (\<lambda>i.
     ebind (finally_do (sys_close E)
       (ebind (sys_fstat E i) (\<lambda>opened.
        ebind (efail (same_identity opened pre)) (\<lambda>_.
        layer_loop E D i (st_size pre) maximum (nat (st_size pre) + 1) [] (d_start D) [])))) (\<lambda>(raw, out).
     ebind (sys_stat E name) (\<lambda>post.
     ebind (efail (same_identity post pre)) (\<lambda>_.
     ebind (efail (int (length raw) = st_size pre \<and> py_equals (VStr (H raw)) sha)) (\<lambda>_.
     efail (py_equals (VStr (H out)) diff_id)))))))))"

definition verify_layer :: "('g, 'x) verifier \<Rightarrow> pyval \<Rightarrow> (tree, unit) eff" where
  "verify_layer V contract =
     ebind (lift (at_path contract [''oci'', ''layer''])) (\<lambda>row.
     ebind (lift (item row ''cache_name'')) (\<lambda>name.
     ebind (lift (item row ''size'')) (\<lambda>stated. ebind (lift (item row ''sha256'')) (\<lambda>sha. ebind (lift (item row ''diff_id'')) (\<lambda>diff_id.
     ebind (lift (limit contract ''max_regular_bytes'')) (\<lambda>maximum.
     (case name of
        VStr file \<Rightarrow> at_dir ''cache''
          (verify_gzip_layer (vr_os V ''cache'') (vr_euid V) (vr_sha256 V) (vr_gzip V) file stated sha diff_id (int maximum))
      | _ \<Rightarrow> raise (PyTypeError ''unsupported operand''))))))))"

section \<open>All metadata\<close>

definition row_bytes :: "('g, 'x) verifier \<Rightarrow> pyval \<Rightarrow> string list \<Rightarrow> (tree, bytes) eff" where
  "row_bytes V contract path =
     ebind (lift (limit contract ''max_file_bytes'')) (\<lambda>maximum.
     ebind (lift (at_path contract path)) (\<lambda>row. cached_bytes V row maximum))"

definition verify_metadata :: "('g, 'x) verifier \<Rightarrow> bool \<Rightarrow> string list \<Rightarrow> (tree, unit) loop" where
  "verify_metadata V fixed artifact_root =
     lbind (once (
       ebind (load_contract V fixed) (\<lambda>contract.
       ebind (lift (cache_entries contract)) (\<lambda>entries.
       ebind (verify_cache_root V artifact_root entries) (\<lambda>_.
       ebind (row_bytes V contract [''oci'', ''index'']) (\<lambda>index_raw.
       ebind (row_bytes V contract [''oci'', ''manifest'']) (\<lambda>manifest_raw.
       ebind (row_bytes V contract [''oci'', ''config'']) (\<lambda>config_raw.
       ebind (lift (verify_oci_documents (vr_loads V) (vr_b64decode V) contract index_raw manifest_raw config_raw)) (\<lambda>_.
       ebind (verify_layer V contract) (\<lambda>_.
       ebind (row_bytes V contract [''snapshot'', ''inrelease'']) (\<lambda>inrelease_raw.
       ebind (lift (verify_inrelease contract inrelease_raw)) (\<lambda>_.
       ebind (row_bytes V contract [''snapshot'', ''packages_index'']) (\<lambda>packages_raw.
       ret (contract, packages_raw)))))))))))))) (\<lambda>(contract, packages_raw).
     (\<lambda>s. case verify_packages_index (vr_xz V) contract packages_raw of None \<Rightarrow> None | Some r \<Rightarrow> Some (r, s)))"

end
