(* ===== verification/CacheReads.thy ===== *)
theory CacheReads
  imports ArtifactCache
begin

text \<open>
  What a read returns while other processes change the directory. The calls of the verifier do not change it, so the directory
  during each call follows from the directory at the start and from what the world did before every call (\<open>during\<close>). A file read
  is then tied to the file: every byte it returned was in the file, at its offset, during one of its calls (\<open>file_read\<close>).
\<close>

lemma efail_Inr [simp]: "efail c s = (Inr u, t) \<longleftrightarrow> c \<and> t = s"
  by (auto simp: efail_def)

section \<open>The directory during a call\<close>

primrec world_from :: "os_env \<Rightarrow> custody_fs \<Rightarrow> nat \<Rightarrow> nat \<Rightarrow> custody_fs" where
  "world_from E fs k 0 = fs"
| "world_from E fs k (Suc m) = oe_world E (k + m) (world_from E fs k m)"

text \<open>The directory after the calls below \<open>n\<close>, and the directory that the call \<open>n\<close> acts on.\<close>

definition after :: "os_env \<Rightarrow> custody_state \<Rightarrow> nat \<Rightarrow> custody_fs" where
  "after E s n = world_from E (cs_fs s) (cs_calls s) (n - cs_calls s)"

definition during :: "os_env \<Rightarrow> custody_state \<Rightarrow> nat \<Rightarrow> custody_fs" where
  "during E s n = after E s (Suc n)"

definition later :: "os_env \<Rightarrow> custody_state \<Rightarrow> custody_state \<Rightarrow> bool" where
  "later E s t \<longleftrightarrow> cs_calls s \<le> cs_calls t \<and> cs_fs t = after E s (cs_calls t)"

lemma world_from_add: "world_from E (world_from E fs k m) (k + m) j = world_from E fs k (m + j)"
  by (induction j) (simp_all add: add.assoc)

lemma after_later: "later E s t \<Longrightarrow> cs_calls t \<le> n \<Longrightarrow> after E t n = after E s n"
  using world_from_add [of E "cs_fs s" "cs_calls s" "cs_calls t - cs_calls s" "n - cs_calls t"]
  by (simp add: later_def after_def)

interpretation looking_on: effect_order "later E" for E
proof
  show "later E s s" for s by (simp add: later_def after_def)
  show "later E s u" if "later E s t" "later E t u" for s t u
    using that after_later [OF that(1), of "cs_calls u"] by (simp add: later_def)
qed

lemma call_later:
  assumes "later E s u" "call E f u = (r, w)"
  shows "later E s w" "cs_calls w = Suc (cs_calls u)" "r = Inr x \<Longrightarrow> f (during E s (cs_calls u)) = Inr x"
proof -
  have d: "during E s (cs_calls u) = oe_world E (cs_calls u) (cs_fs u)"
    using assms(1) by (simp add: during_def after_def later_def Suc_diff_le)
  show "cs_calls w = Suc (cs_calls u)" using assms(2) by (auto simp: call_def Let_def split: if_split_asm)
  moreover have "cs_fs w = during E s (cs_calls u)" using assms(2) d by (auto simp: call_def Let_def split: if_split_asm)
  ultimately show "later E s w" using assms(1) by (simp add: later_def during_def)
  show "r = Inr x \<Longrightarrow> f (during E s (cs_calls u)) = Inr x" using assms(2) d by (auto simp: call_def Let_def split: if_split_asm)
qed

lemma call_looks_on: "within (later E) (call E f)"
  unfolding within_def using call_later(1) [OF looking_on.R_refl] by (metis prod.collapse)

lemma sys_looks_on:
  "within (later E) (sys_fstat_dir E)" "within (later E) (sys_stat E name)" "within (later E) (sys_fstat E i)"
  "within (later E) (sys_open E name)" "within (later E) (sys_close E)" "within (later E) (sys_listdir E)" "within (later E) (sys_read E i p n)"
  by (simp_all add: sys_fstat_dir_def sys_stat_def sys_fstat_def sys_open_def sys_close_def sys_listdir_def call_looks_on)
    (simp add: within_def sys_read_def call_looks_on [unfolded within_def])

section \<open>Bytes gathered from a file\<close>

definition data_at :: "os_env \<Rightarrow> custody_state \<Rightarrow> nat \<Rightarrow> nat \<Rightarrow> bytes" where
  "data_at E s i n = nd_data (fs_nodes (during E s n) i)"

definition gathered :: "os_env \<Rightarrow> custody_state \<Rightarrow> nat \<Rightarrow> nat \<Rightarrow> nat \<Rightarrow> bytes \<Rightarrow> bool" where
  "gathered E s i lo hi raw \<longleftrightarrow>
     (\<forall>j<length raw. \<exists>n. lo \<le> n \<and> n < hi \<and> j < length (data_at E s i n) \<and> raw ! j = data_at E s i n ! j)"

text \<open>Everything was read: the last call found no byte behind those gathered.\<close>

definition gathered_all :: "os_env \<Rightarrow> custody_state \<Rightarrow> nat \<Rightarrow> nat \<Rightarrow> nat \<Rightarrow> bytes \<Rightarrow> bool" where
  "gathered_all E s i lo hi raw \<longleftrightarrow> gathered E s i lo hi raw \<and> (\<exists>n. lo \<le> n \<and> n < hi \<and> length (data_at E s i n) \<le> length raw)"

lemma gathered_mono: "gathered E s i lo hi raw \<Longrightarrow> lo' \<le> lo \<Longrightarrow> hi \<le> hi' \<Longrightarrow> gathered E s i lo' hi' raw"
  unfolding gathered_def by (meson le_trans less_le_trans)

lemma gathered_all_mono: "gathered_all E s i lo hi raw \<Longrightarrow> lo' \<le> lo \<Longrightarrow> hi \<le> hi' \<Longrightarrow> gathered_all E s i lo' hi' raw"
  unfolding gathered_all_def using gathered_mono by (meson le_trans less_le_trans)

lemma gather_step:
  assumes "later E s u" "lo \<le> cs_calls u" "gathered E s i lo (cs_calls u) raw" "sys_read E i (length raw) request u = (Inr chunk, w)" "0 < request"
  shows "later E s w" "lo \<le> cs_calls w" "gathered E s i lo (cs_calls w) (raw @ chunk)" "chunk = [] \<Longrightarrow> gathered_all E s i lo (cs_calls w) raw"
proof -
  let ?n = "cs_calls u" and ?data = "data_at E s i (cs_calls u)"
  note c = call_later [OF assms(1) assms(4) [unfolded sys_read_def]]
  show "later E s w" "lo \<le> cs_calls w" using c(1,2) assms(2) by simp_all
  obtain m where m: "chunk = take m (drop (length raw) ?data)" "0 < m"
    using c(3) [OF refl] assms(5) by (auto simp: data_at_def Let_def)
  have old: "gathered E s i lo (cs_calls w) raw" using gathered_mono [OF assms(3), of lo "cs_calls w"] c(2) by simp
  show "gathered E s i lo (cs_calls w) (raw @ chunk)" unfolding gathered_def
  proof (intro allI impI)
    fix j
    assume j: "j < length (raw @ chunk)"
    show "\<exists>n\<ge>lo. n < cs_calls w \<and> j < length (data_at E s i n) \<and> (raw @ chunk) ! j = data_at E s i n ! j"
    proof (cases "j < length raw")
      case True
      then show ?thesis using old by (auto simp: gathered_def nth_append)
    next
      case False
      then show ?thesis using j m(1) assms(2) c(2) by (intro exI [of _ ?n]) (auto simp: nth_append)
    qed
  qed
  assume "chunk = []"
  then have "length ?data \<le> length raw" using m by simp
  then show "gathered_all E s i lo (cs_calls w) raw" unfolding gathered_all_def using old assms(2) c(2) by auto
qed

lemma gathered_nil [simp]: "gathered E s i lo hi []"
  by (simp add: gathered_def)

lemma stable_loop_gathers:
  assumes "stable_loop E i maximum fuel raw u = (Inr r, w)" "later E s u" "lo \<le> cs_calls u" "gathered E s i lo (cs_calls u) raw"
    "length raw \<le> maximum" "maximum < length raw + fuel"
  shows "gathered_all E s i lo (cs_calls w) r \<and> later E s w"
  using assms
proof (induction fuel arbitrary: raw u)
  case (Suc fuel)
  from Suc.prems(1) obtain chunk v where c: "sys_read E i (length raw) (min 1048576 (maximum + 1 - length raw)) u = (Inr chunk, v)"
    "(if chunk = [] then ret raw else ebind (efail (length (raw @ chunk) \<le> maximum)) (\<lambda>_. stable_loop E i maximum fuel (raw @ chunk))) v = (Inr r, w)"
    by (auto simp: ebind_Inr)
  note g = gather_step [OF Suc.prems(2-4) c(1)]
  show ?case
  proof (cases "chunk = []")
    case True
    with c(2) g Suc.prems(5) show ?thesis by auto
  next
    case False
    with c(2) have "stable_loop E i maximum fuel (raw @ chunk) v = (Inr r, w)" "length (raw @ chunk) \<le> maximum"
      by (auto simp: ebind_Inr efail_def)
    moreover have "maximum < length (raw @ chunk) + fuel" using Suc.prems(6) False by (cases chunk) auto
    ultimately show ?thesis using g Suc.prems(5) by (intro Suc.IH [of "raw @ chunk" v]) simp_all
  qed
qed simp

lemma cached_loop_gathers:
  assumes "cached_loop E i (VInt (int bound)) bound fuel raw u = (Inr r, w)" "later E s u" "lo \<le> cs_calls u" "gathered E s i lo (cs_calls u) raw"
    "length raw \<le> bound" "bound < length raw + fuel"
  shows "gathered_all E s i lo (cs_calls w) r \<and> later E s w"
  using assms
proof (induction fuel arbitrary: raw u)
  case (Suc fuel)
  let ?request = "nat (min 1048576 (int bound + 1 - int (length raw)))"
  from Suc.prems(1) obtain chunk v where c: "sys_read E i (length raw) ?request u = (Inr chunk, v)"
    "(if chunk = [] then ret raw else ebind (efail (length (raw @ chunk) \<le> bound)) (\<lambda>_. cached_loop E i (VInt (int bound)) bound fuel (raw @ chunk))) v = (Inr r, w)"
    by (auto simp: ebind_Inr lift_Inr simp del: lift_eq)
  have request: "0 < ?request" using Suc.prems(5) by simp
  note g = gather_step [OF Suc.prems(2-4) c(1) request]
  show ?case
  proof (cases "chunk = []")
    case True
    with c(2) g show ?thesis by auto
  next
    case False
    with c(2) have "cached_loop E i (VInt (int bound)) bound fuel (raw @ chunk) v = (Inr r, w)" "length (raw @ chunk) \<le> bound"
      by (auto simp: ebind_Inr efail_def)
    moreover have "bound < length (raw @ chunk) + fuel" using Suc.prems(6) False by (cases chunk) auto
    ultimately show ?thesis using g by (intro Suc.IH [of "raw @ chunk" v]) simp_all
  qed
qed simp

section \<open>Files\<close>

text \<open>
  What is known of the bytes read from a file of the given name, owner and mode in the calls from \<open>lo\<close> to \<open>hi\<close>: during one of
  the calls the name led to the file, during one the file was regular with this owner and mode, a single link and the length of the bytes,
  every byte was in the file at its offset during one of the calls, and during one of them the file was no longer than the bytes.
\<close>

definition file_read :: "os_env \<Rightarrow> custody_state \<Rightarrow> int \<Rightarrow> int \<Rightarrow> pystr \<Rightarrow> nat \<Rightarrow> nat \<Rightarrow> bytes \<Rightarrow> bool" where
  "file_read E s euid mode name lo hi raw \<longleftrightarrow> (\<exists>i.
     (\<exists>n. lo \<le> n \<and> n < hi \<and> map_of (fs_names (during E s n)) name = Some i) \<and>
     (\<exists>n. lo \<le> n \<and> n < hi \<and> (let st = nd_stat (fs_nodes (during E s n) i) in
        st_type st = ''regular'' \<and> st_uid st = euid \<and> st_perm st = mode \<and> st_nlink st = 1 \<and> st_size st = int (length raw))) \<and>
     gathered_all E s i lo hi raw)"

lemma file_read_mono: "file_read E s euid mode name lo hi raw \<Longrightarrow> lo' \<le> lo \<Longrightarrow> hi \<le> hi' \<Longrightarrow> file_read E s euid mode name lo' hi' raw"
  unfolding file_read_def using gathered_all_mono by (meson le_trans less_le_trans)

text \<open>Where nobody changes the directory, the bytes are those of the file.\<close>

lemma file_read_still:
  assumes "file_read E s euid mode name lo hi raw" "\<And>n fs. oe_world E n fs = fs"
  shows "\<exists>i. map_of (fs_names (cs_fs s)) name = Some i \<and> nd_data (fs_nodes (cs_fs s) i) = raw"
proof -
  have "world_from E fs k m = fs" for fs k m by (induction m) (simp_all add: assms(2))
  then have still: "during E s n = cs_fs s" for n by (simp add: during_def after_def)
  from assms(1) obtain i where i: "map_of (fs_names (cs_fs s)) name = Some i" "gathered_all E s i lo hi raw"
    by (auto simp: file_read_def still)
  let ?data = "nd_data (fs_nodes (cs_fs s) i)"
  have bytes: "\<forall>j<length raw. j < length ?data \<and> raw ! j = ?data ! j" and "length ?data \<le> length raw"
    using i(2) by (auto simp: gathered_all_def gathered_def data_at_def still)
  moreover from bytes have "length raw \<le> length ?data" by (cases "length raw") auto
  ultimately have "?data = raw" by (auto intro: nth_equalityI)
  with i(1) show ?thesis by blast
qed

lemma open_later:
  assumes "later E s u" "sys_open E name u = (Inr i, w)"
  shows "later E s w" "cs_calls w = Suc (cs_calls u)" "map_of (fs_names (during E s (cs_calls u))) name = Some i"
  using call_later(1,2) [OF assms(1) assms(2) [unfolded sys_open_def]] call_later(3) [OF assms(1) assms(2) [unfolded sys_open_def] refl]
  by (auto split: option.split_asm if_split_asm)

lemma fstat_later:
  assumes "later E s u" "sys_fstat E i u = (Inr st, w)"
  shows "later E s w" "cs_calls w = Suc (cs_calls u)" "nd_stat (fs_nodes (during E s (cs_calls u)) i) = st"
  using call_later(1,2) [OF assms(1) assms(2) [unfolded sys_fstat_def]] call_later(3) [OF assms(1) assms(2) [unfolded sys_fstat_def] refl]
  by auto

text \<open>The part that the three readers share: open, compare the status with the one seen before, gather, close.\<close>

lemma opened_read:
  assumes "later E s u" "sys_open E name u = (Inr i, v)" "finally_do (sys_close E) (ebind (sys_fstat E i) (\<lambda>opened.
      ebind (efail (same_identity opened pre)) (\<lambda>_. loop))) v = (Inr x, w)"
    and pre: "st_type pre = ''regular''" "st_uid pre = euid" "st_perm pre = mode" "st_nlink pre = 1" "st_size pre = int (length raw)"
    and gathers: "\<And>v w. loop v = (Inr x, w) \<Longrightarrow> later E s v \<Longrightarrow> gathered_all E s i (cs_calls v) (cs_calls w) raw \<and> later E s w"
  shows "file_read E s euid mode name (cs_calls u) (cs_calls w) raw" "later E s w"
proof -
  note o = open_later [OF assms(1,2)]
  from assms(3) obtain opened v1 v2 y where f: "sys_fstat E i v = (Inr opened, v1)" "same_identity opened pre" "loop v1 = (Inr x, v2)"
    "sys_close E v2 = (Inr y, w)"
    by (auto simp: finally_Inr ebind_Inr efail_def)
  note st = fstat_later [OF o(1) f(1)]
  have g: "gathered_all E s i (cs_calls v1) (cs_calls v2) raw" "later E s v2" using gathers [OF f(3) st(1)] by auto
  have hi: "cs_calls v2 \<le> cs_calls w" "later E s w" using call_later(1,2) [OF g(2) f(4) [unfolded sys_close_def]] by auto
  then show "later E s w" by simp
  have lo: "cs_calls v1 \<le> cs_calls v2" using withinD [of "later E"] g(2) by (metis g(1) gathered_all_def less_imp_le order.trans)
  have n: "cs_calls u < cs_calls w" "Suc (cs_calls u) < cs_calls w" using o(2) st(2) lo hi by simp_all
  show "file_read E s euid mode name (cs_calls u) (cs_calls w) raw" unfolding file_read_def
  proof (rule exI [of _ i], intro conjI)
    show "\<exists>n\<ge>cs_calls u. n < cs_calls w \<and> map_of (fs_names (during E s n)) name = Some i" using o(3) n(1) by blast
    show "\<exists>n\<ge>cs_calls u. n < cs_calls w \<and> (let st = nd_stat (fs_nodes (during E s n) i) in
        st_type st = ''regular'' \<and> st_uid st = euid \<and> st_perm st = mode \<and> st_nlink st = 1 \<and> st_size st = int (length raw))"
      using st(3) o(2) n f(2) pre by (intro exI [of _ "cs_calls v"]) (simp add: same_identity_def)
    show "gathered_all E s i (cs_calls u) (cs_calls w) raw" using gathered_all_mono [OF g(1)] o(2) st(2) hi(1) by simp
  qed
qed

lemma stat_later: "later E s u \<Longrightarrow> sys_stat E name u = (r, w) \<Longrightarrow> later E s w \<and> cs_calls w = Suc (cs_calls u)"
  using call_later(1,2) [of E s u] unfolding sys_stat_def by blast

lemma stable_read:
  assumes "read_stable_regular E euid name mode maximum u = (Inr raw, w)" "later E s u"
  shows "file_read E s euid mode name (cs_calls u) (cs_calls w) raw" "later E s w"
proof -
  obtain pre i u1 u2 u3 post where r: "sys_stat E name u = (Inr pre, u1)" "st_type pre = ''regular''" "st_nlink pre = 1" "st_uid pre = euid"
      "st_perm pre = mode" "sys_open E name u1 = (Inr i, u2)"
      "finally_do (sys_close E) (ebind (sys_fstat E i) (\<lambda>opened. ebind (efail (same_identity opened pre)) (\<lambda>_.
        stable_loop E i maximum (maximum + 1) []))) u2 = (Inr raw, u3)"
      "sys_stat E name u3 = (Inr post, w)" "int (length raw) = st_size pre"
    using assms(1) unfolding read_stable_regular_def by (auto simp: ebind_Inr efail_def simp del: stable_loop.simps)
  note s1 = stat_later [OF assms(2) r(1)]
  have g: "gathered_all E s i (cs_calls v) (cs_calls v') raw \<and> later E s v'"
    if "stable_loop E i maximum (maximum + 1) [] v = (Inr raw, v')" "later E s v" for v v'
    using stable_loop_gathers [OF that, of "cs_calls v"] by simp
  note o = opened_read [OF conjunct1 [OF s1] r(6,7,2,4,5,3) r(9) [symmetric] g]
  note s2 = stat_later [OF o(2) r(8)]
  from s2 show "later E s w" by simp
  from file_read_mono [OF o(1)] s1 s2 show "file_read E s euid mode name (cs_calls u) (cs_calls w) raw" by simp
qed

lemma cached_read:
  assumes "verify_cached_file E euid H \<lparr>ce_name = VStr name, ce_size = VInt n, ce_sha256 = VStr digest\<rparr> u = (Inr (), w)" "later E s u"
  shows "\<exists>raw. file_read E s euid 256 name (cs_calls u) (cs_calls w) raw \<and> int (length raw) = n \<and> H raw = digest" "later E s w"
proof -
  obtain pre i u1 u2 u3 post raw where r: "sys_stat E name u = (Inr pre, u1)" "st_type pre = ''regular''" "st_nlink pre = 1" "st_uid pre = euid"
      "st_perm pre = 256" "st_size pre = n" "sys_open E name u1 = (Inr i, u2)"
      "finally_do (sys_close E) (ebind (sys_fstat E i) (\<lambda>opened. ebind (efail (same_identity opened pre)) (\<lambda>_.
        cached_loop E i (VInt n) (nat n) (nat n + 1) []))) u2 = (Inr raw, u3)"
      "sys_stat E name u3 = (Inr post, w)" "int (length raw) = n" "H raw = digest"
    using assms(1) unfolding verify_cached_file_def by (auto simp: ebind_Inr efail_def simp del: cached_loop.simps)
  have n: "VInt n = VInt (int (nat n))" using r(10) by simp
  note s1 = stat_later [OF assms(2) r(1)]
  have g: "gathered_all E s i (cs_calls v) (cs_calls v') raw \<and> later E s v'"
    if "cached_loop E i (VInt n) (nat n) (nat n + 1) [] v = (Inr raw, v')" "later E s v" for v v'
    using cached_loop_gathers [OF that(1) [unfolded n] that(2), of "cs_calls v"] by simp
  have size: "st_size pre = int (length raw)" using r(6,10) by simp
  note o = opened_read [OF conjunct1 [OF s1] r(7,8,2,4,5,3) size g]
  note s2 = stat_later [OF o(2) r(9)]
  from s2 show "later E s w" by simp
  from file_read_mono [OF o(1)] s1 s2 have "file_read E s euid 256 name (cs_calls u) (cs_calls w) raw" by simp
  with r(10,11) show "\<exists>raw. file_read E s euid 256 name (cs_calls u) (cs_calls w) raw \<and> int (length raw) = n \<and> H raw = digest" by blast
qed

section \<open>The layer\<close>

text \<open>Feeding chunks to a decoder, with the bytes still allowed as the limit of every step.\<close>

fun feed :: "'d decoder \<Rightarrow> int \<Rightarrow> 'd \<Rightarrow> bytes \<Rightarrow> bytes list \<Rightarrow> ('d \<times> bytes) option" where
  "feed D maximum d out [] = Some (d, out)"
| "feed D maximum d out (c # cs) = (case d_decompress D d c (maximum + 1 - int (length out)) of
     None \<Rightarrow> None | Some (expanded, d') \<Rightarrow> feed D maximum d' (out @ expanded) cs)"

text \<open>The bytes expand, in some chunks, to the given output: the decoder ends with nothing left over, within the maximum.\<close>

definition expands :: "'d decoder \<Rightarrow> int \<Rightarrow> bytes \<Rightarrow> bytes \<Rightarrow> bool" where
  "expands D maximum raw out \<longleftrightarrow> (\<exists>cs d. concat cs = raw \<and> feed D maximum (d_start D) [] cs = Some (d, out) \<and> d_eof D d \<and>
     unconsumed D d = [] \<and> d_unused D d = []) \<and> (out = [] \<or> int (length out) \<le> maximum)"

lemma layer_loop_gathers:
  assumes "layer_loop E D i stated maximum fuel raw d out u = (Inr (r, out'), w)" "later E s u" "lo \<le> cs_calls u" "gathered E s i lo (cs_calls u) raw"
    "int (length raw) \<le> stated" "stated < int (length raw + fuel)"
  shows "gathered_all E s i lo (cs_calls w) r \<and> later E s w \<and> (\<exists>cs d'. r = raw @ concat cs \<and> feed D maximum d out cs = Some (d', out') \<and>
      d_eof D d' \<and> unconsumed D d' = [] \<and> d_unused D d' = []) \<and> (out' = out \<or> int (length out') \<le> maximum)"
  using assms
proof (induction fuel arbitrary: raw d out u)
  case (Suc fuel)
  from Suc.prems(1) obtain chunk v where c: "sys_read E i (length raw) 1048576 u = (Inr chunk, v)"
    "(if chunk = [] then ebind (efail (d_eof D d \<and> unconsumed D d = [] \<and> d_unused D d = [])) (\<lambda>_. ret (raw, out))
     else ebind (efail (\<not> d_eof D d)) (\<lambda>_. ebind (efail (int (length (raw @ chunk)) \<le> stated)) (\<lambda>_.
       (case d_decompress D d chunk (maximum + 1 - int (length out)) of
          None \<Rightarrow> raise (VerificationError None)
        | Some (expanded, d') \<Rightarrow>
            ebind (efail (int (length (out @ expanded)) \<le> maximum \<and> unconsumed D d' = [] \<and> d_unused D d' = [])) (\<lambda>_.
            layer_loop E D i stated maximum fuel (raw @ chunk) d' (out @ expanded)))))) v = (Inr (r, out'), w)"
    by (auto simp: ebind_Inr)
  note g = gather_step [OF Suc.prems(2-4) c(1)]
  show ?case
  proof (cases "chunk = []")
    case True
    with c(2) have fin: "r = raw" "out' = out" "w = v" "d_eof D d" "unconsumed D d = []" "d_unused D d = []" by (auto simp: ebind_Inr efail_def)
    then show ?thesis using g(1) g(4) [OF _ True] by (auto intro!: exI [of _ "[]"])
  next
    case False
    with c(2) obtain expanded d1 where n: "d_decompress D d chunk (maximum + 1 - int (length out)) = Some (expanded, d1)"
      "int (length (out @ expanded)) \<le> maximum" "layer_loop E D i stated maximum fuel (raw @ chunk) d1 (out @ expanded) v = (Inr (r, out'), w)"
      "int (length (raw @ chunk)) \<le> stated"
      by (auto simp: ebind_Inr efail_def split: option.split_asm)
    have "stated < int (length (raw @ chunk) + fuel)" using Suc.prems(6) False by (cases chunk) auto
    from Suc.IH [OF n(3) g(1-3) n(4) this] obtain cs d' where "gathered_all E s i lo (cs_calls w) r" "later E s w" "r = (raw @ chunk) @ concat cs"
      "feed D maximum d1 (out @ expanded) cs = Some (d', out')" "d_eof D d'" "unconsumed D d' = []" "d_unused D d' = []"
      "out' = out @ expanded \<or> int (length out') \<le> maximum" by auto
    then show ?thesis using n(1,2) by (auto intro!: exI [of _ "chunk # cs"])
  qed
qed simp

lemma layer_read:
  assumes "verify_gzip_layer E euid H D name (VInt n) (VStr digest) (VStr diff_id) maximum u = (Inr (), w)" "later E s u"
  shows "\<exists>raw out. file_read E s euid 256 name (cs_calls u) (cs_calls w) raw \<and> int (length raw) = n \<and> H raw = digest \<and>
    expands D maximum raw out \<and> H out = diff_id" "later E s w"
proof -
  obtain pre i u1 u2 u3 post raw out where r: "sys_stat E name u = (Inr pre, u1)" "st_type pre = ''regular''" "st_nlink pre = 1" "st_uid pre = euid"
      "st_perm pre = 256" "st_size pre = n" "sys_open E name u1 = (Inr i, u2)"
      "finally_do (sys_close E) (ebind (sys_fstat E i) (\<lambda>opened. ebind (efail (same_identity opened pre)) (\<lambda>_.
        layer_loop E D i n maximum (nat n + 1) [] (d_start D) []))) u2 = (Inr (raw, out), u3)"
      "sys_stat E name u3 = (Inr post, w)" "int (length raw) = n" "H raw = digest" "H out = diff_id"
    using assms(1) unfolding verify_gzip_layer_def by (auto simp: ebind_Inr efail_def simp del: layer_loop.simps)
  have n: "0 \<le> n" using r(10) by simp
  note s1 = stat_later [OF assms(2) r(1)]
  have g: "gathered_all E s i (cs_calls v) (cs_calls v') raw \<and> later E s v' \<and> expands D maximum raw out"
    if "layer_loop E D i n maximum (nat n + 1) [] (d_start D) [] v = (Inr (raw, out), v')" "later E s v" for v v'
    using layer_loop_gathers [OF that, of "cs_calls v"] n by (auto simp: expands_def simp del: layer_loop.simps)
  have size: "st_size pre = int (length raw)" using r(6,10) by simp
  have g': "gathered_all E s i (cs_calls v) (cs_calls v') raw \<and> later E s v'"
    if "layer_loop E D i n maximum (nat n + 1) [] (d_start D) [] v = (Inr (raw, out), v')" "later E s v" for v v'
    using g [OF that] by blast
  note o = opened_read [OF conjunct1 [OF s1] r(7,8,2,4,5,3) size g']
  note s2 = stat_later [OF o(2) r(9)]
  from s2 show "later E s w" by simp
  obtain v v' where "layer_loop E D i n maximum (nat n + 1) [] (d_start D) [] v = (Inr (raw, out), v')" "later E s v"
    using r(8) fstat_later(1) [OF open_later(1) [OF conjunct1 [OF s1] r(7)]] by (auto simp: finally_Inr ebind_Inr efail_def simp del: layer_loop.simps)
  from g [OF this] have "expands D maximum raw out" by blast
  moreover from file_read_mono [OF o(1)] s1 s2 have "file_read E s euid 256 name (cs_calls u) (cs_calls w) raw" by simp
  ultimately show "\<exists>raw out. file_read E s euid 256 name (cs_calls u) (cs_calls w) raw \<and> int (length raw) = n \<and> H raw = digest \<and>
      expands D maximum raw out \<and> H out = diff_id" using r(10-12) by blast
qed

section \<open>The tree\<close>

definition tree_later :: "('g, 'x) verifier \<Rightarrow> tree \<Rightarrow> tree \<Rightarrow> bool" where
  "tree_later V s t \<longleftrightarrow> (\<forall>d. later (vr_os V d) (s d) (t d))"

interpretation tree_order: effect_order "tree_later V" for V
  by unfold_locales (auto simp: tree_later_def intro: looking_on.R_refl looking_on.R_trans)

lemma at_dir_later: "within (later (vr_os V d)) m \<Longrightarrow> within (tree_later V) (at_dir d m)"
  by (auto simp: within_def at_dir_def zoom_def tree_later_def split: prod.splits intro: looking_on.R_refl) (metis snd_conv)

lemma within_str: "(\<And>x. within R (f x)) \<Longrightarrow> within R m \<Longrightarrow> within R (case v of VStr x \<Rightarrow> f x | _ \<Rightarrow> m)"
  by (cases v) simp_all

lemma reading_later:
  "within (later E) (read_stable_regular E euid name mode maximum)" "within (later E) (verify_cached_file E euid H e)"
  "within (later E) (verify_gzip_layer E euid H D name stated sha diff_id allowed)"
proof -
  note intros = looking_on.within_intros looking_on.within_finally sys_looks_on
  have "within (later E) (stable_loop E i maximum n raw)" for i n raw
    by (induction n arbitrary: raw) (auto simp: efail_def intro!: intros)
  then show "within (later E) (read_stable_regular E euid name mode maximum)"
    unfolding read_stable_regular_def efail_def by (intro intros)
  have "within (later E) (cached_loop E i stated bound n raw)" for i stated bound n raw
    by (induction n arbitrary: raw) (auto simp: efail_def intro!: intros)
  then show "within (later E) (verify_cached_file E euid H e)"
    unfolding verify_cached_file_def efail_def by (intro within_str intros)
  have "within (later E) (layer_loop E D i size allowed n raw d out)" for i size n raw d out
    by (induction n arbitrary: raw d out) (auto simp: efail_def intro!: intros split: option.split prod.split)
  then show "within (later E) (verify_gzip_layer E euid H D name stated sha diff_id allowed)"
    unfolding verify_gzip_layer_def efail_def by (intro intros) (auto simp del: layer_loop.simps intro!: intros split: prod.split)
qed

lemmas tree_intros = tree_order.within_intros at_dir_later sys_looks_on reading_later

lemma for_each_later: "(\<And>x. within (tree_later V) (f x)) \<Longrightarrow> within (tree_later V) (for_each f xs)"
  by (induction xs) (auto intro!: tree_intros)

lemma directory_later: "within (tree_later V) (verify_directory V mode d)"
  unfolding verify_directory_def efail_def by (intro tree_intros)

lemma verifying_later:
  "within (tree_later V) (load_contract V fixed)" "within (tree_later V) (verify_cache_root V root entries)"
  "within (tree_later V) (row_bytes V contract path)" "within (tree_later V) (verify_layer V contract)"
proof -
  show "within (tree_later V) (load_contract V fixed)" unfolding load_contract_def by (intro tree_intros)
  show "within (tree_later V) (verify_cache_root V root entries)"
    unfolding verify_cache_root_def efail_def by (intro tree_intros for_each_later directory_later [unfolded efail_def])
  show "within (tree_later V) (row_bytes V contract path)"
    unfolding row_bytes_def cached_bytes_def efail_def by (intro within_str tree_intros)
  show "within (tree_later V) (verify_layer V contract)"
    unfolding verify_layer_def efail_def by (intro within_str tree_intros)
qed

lemma for_each_at:
  assumes "for_each f xs s = (Inr (), t)" "x \<in> set xs" "\<And>x. within (tree_later V) (f x)"
  shows "\<exists>u w. f x u = (Inr (), w) \<and> tree_later V s u \<and> tree_later V w t"
  using assms(1,2)
proof (induction xs arbitrary: s)
  case (Cons y ys)
  from Cons.prems(1) obtain u where u: "f y s = (Inr (), u)" "for_each f ys u = (Inr (), t)" by (auto simp: ebind_Inr)
  show ?case
  proof (cases "x = y")
    case True
    then show ?thesis using u withinD [OF for_each_later [OF assms(3)] u(2)] tree_order.R_refl by blast
  next
    case False
    then have "x \<in> set ys" using Cons.prems(2) by simp
    from Cons.IH [OF u(2) this] obtain v w where "f x v = (Inr (), w)" "tree_later V u v" "tree_later V w t" by blast
    then show ?thesis using withinD [OF assms(3) u(1)] tree_order.R_trans by blast
  qed
qed simp

lemma at_dir_at: "at_dir d m u = (r, w) \<longleftrightarrow> (\<exists>v. m (u d) = (r, v) \<and> w = u(d := v))"
  by (auto simp: at_dir_def zoom_eq)

text \<open>The file of a row of the contract was read between two states, with the length and the digest of the row.\<close>

definition row_read :: "('g, 'x) verifier \<Rightarrow> tree \<Rightarrow> tree \<Rightarrow> pyval \<Rightarrow> bytes \<Rightarrow> bool" where
  "row_read V s t row raw \<longleftrightarrow> (\<exists>name. item row ''cache_name'' = Inr (VStr name) \<and> item row ''size'' = Inr (VInt (int (length raw))) \<and>
     item row ''sha256'' = Inr (VStr (vr_sha256 V raw)) \<and>
     file_read (vr_os V ''cache'') (s ''cache'') (vr_euid V) 256 name (cs_calls (s ''cache'')) (cs_calls (t ''cache'')) raw)"

lemma row_readI:
  assumes "tree_later V s u" "file_read (vr_os V ''cache'') (s ''cache'') (vr_euid V) 256 name (cs_calls (u ''cache'')) (cs_calls w) raw"
    "tree_later V (u(''cache'' := w)) t"
    "item row ''cache_name'' = Inr (VStr name)" "item row ''size'' = Inr (VInt (int (length raw)))" "item row ''sha256'' = Inr (VStr (vr_sha256 V raw))"
  shows "row_read V s t row raw"
proof -
  have "cs_calls (s ''cache'') \<le> cs_calls (u ''cache'')" using assms(1) by (auto simp: tree_later_def later_def)
  moreover have "cs_calls w \<le> cs_calls (t ''cache'')"
    using assms(3) [unfolded tree_later_def later_def, rule_format, of "''cache''"] by simp
  ultimately show ?thesis using file_read_mono [OF assms(2)] assms(4-6) unfolding row_read_def by blast
qed

end
