(* ===== verification/ArtifactSafety.thy ===== *)
theory ArtifactSafety
  imports ArtifactContract
begin

text \<open>
  The contract check pins the document: every accepted contract is \<open>CONTRACT\<close>, keys in that order, up to
  integers written as floats.
\<close>

section \<open>The pinned document\<close>

definition oci_row :: "oci_expected \<Rightarrow> pyval" where
  "oci_row = (\<lambda>(key, cache_name, endpoint, media_type, bytes, digest).
     vdict ([(''cache_name'', vstr cache_name), (''url'', vstr (oci_url endpoint digest)), (''media_type'', vstr media_type),
             (''size'', VInt bytes), (''sha256'', vstr digest)] @ (if key = ''layer'' then [(''diff_id'', vstr DIFF_ID)] else [])))"

definition contract_members :: "(string \<times> pyval) list" where
  "contract_members =
    [(''version'', vstr VERSION), (''platform'', vdict PLATFORM), (''source_date_epoch'', VInt 1782172800),
     (''oci'', vdict ((''repository'', vstr ''library/debian'') # map (\<lambda>e. (fst e, oci_row e)) OCI_EXPECTED)),
     (''snapshot'', vdict ([(''timestamp'', vstr SNAPSHOT), (''base_url'', vstr SNAPSHOT_BASE)] @
        map (\<lambda>e. (fst e, snapshot_row e)) SNAPSHOT_EXPECTED)),
     (''packages'', VList (map package_row_value PACKAGE_EXPECTED)), (''package_total_bytes'', VInt 10145436),
     (''bounds'', vdict BOUNDS), (''fixtures'', vdict [(''git'', vdict GIT_FIXTURE), (''package'', vdict PACKAGE_FIXTURE)]),
     (''tools'', vdict TOOLS), (''timeouts_seconds'', vdict TIMEOUTS)]"

definition CONTRACT :: pyval where
  "CONTRACT = vdict contract_members"

text \<open>Floats that equal an integer become that integer.\<close>

fun ints :: "pyval \<Rightarrow> pyval" where
  "ints (VFloat (Some i)) = VInt i"
| "ints (VList xs) = VList (map ints xs)"
| "ints (VDict ps) = VDict (map (\<lambda>(k, v). (k, ints v)) ps)"
| "ints v = v"

section \<open>Comparisons\<close>

fun leaf :: "pyval \<Rightarrow> bool" where
  "leaf (VInt _) = True"
| "leaf (VStr _) = True"
| "leaf _ = False"

abbreviation bool_free :: "pyval \<Rightarrow> bool" where
  "bool_free v \<equiv> reject_bool v = Inr ()"

lemma vfail_Inr [simp]: "vfail c k = Inr x \<longleftrightarrow> c \<and> k = Inr x"
  by (simp add: vfail_def)

lemma vfail_cong [cong]: "c = c' \<Longrightarrow> (c' \<Longrightarrow> k = k') \<Longrightarrow> vfail c k = vfail c' k'"
  by (simp add: vfail_def)

lemma leaf_pinned: "py_equals v c \<Longrightarrow> leaf c \<Longrightarrow> bool_free v \<Longrightarrow> ints v = c"
  by (cases c; cases v) auto

lemma item_Inr: "item v k = Inr x \<longleftrightarrow> (\<exists>ps. v = VDict ps \<and> map_of ps (ustr k) = Some x)"
  by (auto simp: item_def split: pyval.splits option.splits)

lemma exact_keys_Inr: "exact_keys v keys = Inr u \<longleftrightarrow> (\<exists>ps. v = VDict ps \<and> map fst ps = map ustr keys)"
  by (auto simp: exact_keys_def split: pyval.splits)

lemma item_bool_free: "item v k = Inr x \<Longrightarrow> bool_free v \<Longrightarrow> bool_free x"
  by (auto simp: item_Inr dest!: map_of_SomeD)

lemma distinct_ustr: "distinct (map ustr ks) \<longleftrightarrow> distinct ks"
  by (simp add: distinct_map inj_on_def)

lemma dict_pinned:
  assumes "exact_keys v (map fst expected) = Inr u" "distinct (map fst expected)"
    and "\<And>k c. (k, c) \<in> set expected \<Longrightarrow> \<exists>x. item v k = Inr x \<and> ints x = c"
  shows "ints v = vdict expected"
proof -
  obtain ps where v: "v = VDict ps" and keys: "map fst ps = map ustr (map fst expected)"
    using assms(1) by (auto simp: exact_keys_Inr)
  have d: "distinct (map fst ps)" using assms(2) keys by (metis distinct_ustr)
  have len: "length ps = length expected" using keys by (metis length_map)
  have "map (\<lambda>(k, v). (k, ints v)) ps = map (\<lambda>(k, v). (ustr k, v)) expected"
  proof (rule nth_equalityI)
    fix i
    assume "i < length (map (\<lambda>(k, v). (k, ints v)) ps)"
    then have i: "i < length ps" "i < length expected" by (simp_all add: len)
    obtain k c where e: "expected ! i = (k, c)" by force
    have k: "fst (ps ! i) = ustr k" using arg_cong [OF keys, of "\<lambda>l. l ! i"] i e by simp
    obtain x where "map_of ps (ustr k) = Some x" "ints x = c"
      using assms(3) [of k c] i(2) e by (auto simp: v item_Inr) (metis nth_mem)+
    moreover have "map_of ps (fst (ps ! i)) = Some (snd (ps ! i))" using d i(1) by simp
    ultimately show "map (\<lambda>(k, v). (k, ints v)) ps ! i = map (\<lambda>(k, v). (ustr k, v)) expected ! i"
      using i e k by (simp add: case_prod_unfold)
  qed (simp add: len)
  then show ?thesis by (simp add: v vdict_def)
qed

lemma members_equal_Some: "members_equal ps qs \<Longrightarrow> (k, c) \<in> set qs \<Longrightarrow> \<exists>v. map_of ps k = Some v \<and> py_equals v c"
  by (induction qs) (auto split: option.splits)

lemma dict_equal_item: "py_equals v (vdict expected) \<Longrightarrow> (k, c) \<in> set expected \<Longrightarrow> \<exists>x. item v k = Inr x \<and> py_equals x c"
  by (auto simp: vdict_def item_Inr split: pyval.splits) (metis (no_types, lifting) members_equal_Some image_eqI set_map case_prod_conv)

lemma leaves_pinned:
  assumes "exact_keys v (map fst expected) = Inr u" "distinct (map fst expected)" "list_all (leaf \<circ> snd) expected"
    "py_equals v (vdict expected)" "bool_free v"
  shows "ints v = vdict expected"
proof (rule dict_pinned [OF assms(1,2)])
  fix k c
  assume k: "(k, c) \<in> set expected"
  obtain x where x: "item v k = Inr x" "py_equals x c" using dict_equal_item [OF assms(4) k] by blast
  have "leaf c" using assms(3) k by (auto simp: list_all_iff)
  with x leaf_pinned item_bool_free [OF x(1) assms(5)] show "\<exists>x. item v k = Inr x \<and> ints x = c" by blast
qed

lemma section_pinned:
  assumes "check_section contract key expected = Inr u" "distinct (map fst expected)" "list_all (leaf \<circ> snd) expected" "bool_free contract"
  shows "\<exists>x. item contract key = Inr x \<and> ints x = vdict expected"
  using assms leaves_pinned item_bool_free by (fastforce simp: check_section_def)

declare py_equals.simps [simp del]

section \<open>Sections\<close>

lemma leaf_item_pinned: "item v k = Inr x \<Longrightarrow> py_equals x c \<Longrightarrow> leaf c \<Longrightarrow> bool_free v \<Longrightarrow> \<exists>x. item v k = Inr x \<and> ints x = c"
  using leaf_pinned item_bool_free by blast

lemma oci_row_pinned:
  assumes "check_oci_row oci e = Inr u" "bool_free oci"
  shows "\<exists>x. item oci (fst e) = Inr x \<and> ints x = oci_row e"
proof -
  obtain key cache_name endpoint media_type n digest where e: "e = (key, cache_name, endpoint, media_type, n, digest)"
    by (cases e)
  let ?row = "[(''cache_name'', vstr cache_name), (''url'', vstr (oci_url endpoint digest)), (''media_type'', vstr media_type),
    (''size'', VInt n), (''sha256'', vstr digest)] @ (if key = ''layer'' then [(''diff_id'', vstr DIFF_ID)] else [])"
  have fields: "map fst ?row = [''cache_name'', ''url'', ''media_type'', ''size'', ''sha256''] @ (if key = ''layer'' then [''diff_id''] else [])"
    by simp
  from assms(1) obtain row name url media stated sha where row: "item oci key = Inr row" "exact_keys row (map fst ?row) = Inr ()"
    and items: "item row ''cache_name'' = Inr name" "item row ''url'' = Inr url" "item row ''media_type'' = Inr media"
      "item row ''size'' = Inr stated" "item row ''sha256'' = Inr sha"
    and eqs: "py_equals name (vstr cache_name)" "py_equals url (vstr (oci_url endpoint digest))" "py_equals media (vstr media_type)"
      "py_equals stated (VInt n)" "py_equals sha (vstr digest)"
    and diff: "key = ''layer'' \<longrightarrow> (\<exists>d. item row ''diff_id'' = Inr d \<and> py_equals d (vstr DIFF_ID))"
    unfolding fields by (auto simp: e check_oci_row_def split: if_splits)
  have free: "bool_free row" using item_bool_free [OF row(1) assms(2)] .
  have "ints row = vdict ?row"
  proof (rule dict_pinned [OF row(2)])
    show "distinct (map fst ?row)" by simp
    show "\<exists>x. item row k = Inr x \<and> ints x = c" if "(k, c) \<in> set ?row" for k c
      using that items eqs diff free by (auto split: if_splits intro: leaf_item_pinned)
  qed
  with row(1) show ?thesis by (simp add: e oci_row_def)
qed

lemma oci_pinned:
  assumes "check_oci contract = Inr u" "bool_free contract"
  shows "\<exists>x. item contract ''oci'' = Inr x \<and>
    ints x = vdict ((''repository'', vstr ''library/debian'') # map (\<lambda>e. (fst e, oci_row e)) OCI_EXPECTED)"
proof -
  let ?expected = "(''repository'', vstr ''library/debian'') # map (\<lambda>e. (fst e, oci_row e)) OCI_EXPECTED"
  from assms(1) obtain oci repository where oci: "item contract ''oci'' = Inr oci"
      "exact_keys oci [''repository'', ''index'', ''manifest'', ''config'', ''layer''] = Inr ()"
    and rep: "item oci ''repository'' = Inr repository" "py_equals repository (vstr ''library/debian'')"
    and rows: "\<And>e. e \<in> set OCI_EXPECTED \<Longrightarrow> check_oci_row oci e = Inr ()"
    by (auto simp: check_oci_def)
  have free: "bool_free oci" using item_bool_free [OF oci(1) assms(2)] .
  have keys: "map fst ?expected = [''repository'', ''index'', ''manifest'', ''config'', ''layer'']" by (simp add: OCI_EXPECTED_def)
  have "ints oci = vdict ?expected"
  proof (rule dict_pinned)
    show "exact_keys oci (map fst ?expected) = Inr ()" using oci(2) unfolding keys .
    show "distinct (map fst ?expected)" unfolding keys by simp
    show "\<exists>x. item oci k = Inr x \<and> ints x = c" if "(k, c) \<in> set ?expected" for k c
      using that rep free rows oci_row_pinned by (auto intro: leaf_item_pinned)
  qed
  with oci(1) show ?thesis by blast
qed

lemma snapshot_row_pinned:
  assumes "check_snapshot_row snapshot e = Inr u" "bool_free snapshot"
  shows "\<exists>x. item snapshot (fst e) = Inr x \<and> ints x = snapshot_row e"
proof -
  obtain key cache_name path n digest where e: "e = (key, cache_name, path, n, digest)" by (cases e)
  let ?row = "[(''cache_name'', vstr cache_name), (''path'', vstr path), (''url'', vstr (SNAPSHOT_BASE @ path)), (''size'', VInt n),
    (''sha256'', vstr digest)]"
  from assms(1) obtain row where row: "item snapshot key = Inr row" "exact_keys row (map fst ?row) = Inr ()"
    "py_equals row (vdict ?row)"
    by (auto simp: check_snapshot_row_def snapshot_row_def e)
  have "ints row = vdict ?row"
    using row item_bool_free [OF row(1) assms(2)] by (intro leaves_pinned [OF row(2)]) simp_all
  with row(1) show ?thesis by (simp add: e snapshot_row_def)
qed

lemma snapshot_pinned:
  assumes "check_snapshot contract = Inr u" "bool_free contract"
  shows "\<exists>x. item contract ''snapshot'' = Inr x \<and> ints x = vdict ([(''timestamp'', vstr SNAPSHOT), (''base_url'', vstr SNAPSHOT_BASE)] @
    map (\<lambda>e. (fst e, snapshot_row e)) SNAPSHOT_EXPECTED)"
proof -
  let ?expected = "[(''timestamp'', vstr SNAPSHOT), (''base_url'', vstr SNAPSHOT_BASE)] @ map (\<lambda>e. (fst e, snapshot_row e)) SNAPSHOT_EXPECTED"
  from assms(1) obtain snap timestamp base where snap: "item contract ''snapshot'' = Inr snap"
      "exact_keys snap [''timestamp'', ''base_url'', ''inrelease'', ''packages_index''] = Inr ()"
    and head: "item snap ''timestamp'' = Inr timestamp" "py_equals timestamp (vstr SNAPSHOT)"
      "item snap ''base_url'' = Inr base" "py_equals base (vstr SNAPSHOT_BASE)"
    and rows: "\<And>e. e \<in> set SNAPSHOT_EXPECTED \<Longrightarrow> check_snapshot_row snap e = Inr ()"
    by (auto simp: check_snapshot_def)
  have free: "bool_free snap" using item_bool_free [OF snap(1) assms(2)] .
  have keys: "map fst ?expected = [''timestamp'', ''base_url'', ''inrelease'', ''packages_index'']" by (simp add: SNAPSHOT_EXPECTED_def)
  have "ints snap = vdict ?expected"
  proof (rule dict_pinned)
    show "exact_keys snap (map fst ?expected) = Inr ()" using snap(2) unfolding keys .
    show "distinct (map fst ?expected)" unfolding keys by simp
    show "\<exists>x. item snap k = Inr x \<and> ints x = c" if "(k, c) \<in> set ?expected" for k c
      using that head free rows snapshot_row_pinned by (auto intro: leaf_item_pinned)
  qed
  with snap(1) show ?thesis by blast
qed

lemma package_row_pinned:
  assumes "check_package_row seen row e = Inr u" "bool_free row"
  shows "ints row = package_row_value e"
proof -
  obtain name version path n digest where e: "e = (name, version, path, n, digest)" by (cases e)
  let ?row = "[(''name'', vstr name), (''version'', vstr version), (''architecture'', vstr ''amd64''), (''path'', vstr path),
    (''filename'', vstr (file_name path)), (''cache_name'', vstr (file_name path)), (''url'', vstr (SNAPSHOT_BASE @ path)),
    (''size'', VInt n), (''sha256'', vstr digest)]"
  from assms(1) have row: "exact_keys row (map fst ?row) = Inr ()" "py_equals row (vdict ?row)"
    by (auto simp: check_package_row_def package_row_value_def e)
  then have "ints row = vdict ?row" using assms(2) by (intro leaves_pinned [OF row(1)]) simp_all
  then show ?thesis by (simp add: e package_row_value_def)
qed

lemma package_rows_pinned:
  "check_package_rows seen rows es = Inr u \<Longrightarrow> (\<And>row. row \<in> set rows \<Longrightarrow> bool_free row) \<Longrightarrow> map ints rows = map package_row_value es"
  by (induction seen rows es rule: check_package_rows.induct) (auto dest: package_row_pinned)

lemma packages_pinned:
  assumes "check_packages contract = Inr u" "bool_free contract"
  shows "(\<exists>x. item contract ''packages'' = Inr x \<and> ints x = VList (map package_row_value PACKAGE_EXPECTED)) \<and>
    (\<exists>x. item contract ''package_total_bytes'' = Inr x \<and> ints x = VInt 10145436)"
proof -
  from assms(1) obtain packages where "item contract ''packages'' = Inr packages" unfolding check_packages_def by fastforce
  with assms(1) obtain rows stated where rows: "item contract ''packages'' = Inr (VList rows)"
      "check_package_rows [] rows PACKAGE_EXPECTED = Inr ()"
    and stated: "item contract ''package_total_bytes'' = Inr stated" "py_equals stated (VInt 10145436)"
    by (cases packages) (auto simp: check_packages_def)
  have "bool_free (VList rows)" using item_bool_free [OF rows(1) assms(2)] .
  then have "map ints rows = map package_row_value PACKAGE_EXPECTED" using package_rows_pinned [OF rows(2)] by simp
  with rows(1) leaf_item_pinned [OF stated _ assms(2)] show ?thesis by simp
qed

lemma constant_keys:
  "distinct (map fst PLATFORM)" "distinct (map fst BOUNDS)" "distinct (map fst TOOLS)" "distinct (map fst TIMEOUTS)"
  "distinct (map fst GIT_FIXTURE)" "distinct (map fst PACKAGE_FIXTURE)"
  by (simp_all add: PLATFORM_def BOUNDS_def TOOLS_def TIMEOUTS_def GIT_FIXTURE_def PACKAGE_FIXTURE_def)

lemma constant_leaves:
  "list_all (leaf \<circ> snd) PLATFORM" "list_all (leaf \<circ> snd) BOUNDS" "list_all (leaf \<circ> snd) TOOLS" "list_all (leaf \<circ> snd) TIMEOUTS"
  "list_all (leaf \<circ> snd) GIT_FIXTURE" "list_all (leaf \<circ> snd) PACKAGE_FIXTURE"
  by (simp_all add: PLATFORM_def BOUNDS_def TOOLS_def TIMEOUTS_def GIT_FIXTURE_def PACKAGE_FIXTURE_def)

lemma fixtures_pinned:
  assumes "check_fixtures contract = Inr u" "bool_free contract"
  shows "\<exists>x. item contract ''fixtures'' = Inr x \<and> ints x = vdict [(''git'', vdict GIT_FIXTURE), (''package'', vdict PACKAGE_FIXTURE)]"
proof -
  let ?expected = "[(''git'', vdict GIT_FIXTURE), (''package'', vdict PACKAGE_FIXTURE)]"
  from assms(1) obtain f git package where f: "item contract ''fixtures'' = Inr f" "exact_keys f (map fst ?expected) = Inr ()"
      "py_equals f (vdict ?expected)"
    and git: "item f ''git'' = Inr git" "exact_keys git (map fst GIT_FIXTURE) = Inr ()"
    and package: "item f ''package'' = Inr package" "exact_keys package (map fst PACKAGE_FIXTURE) = Inr ()"
    by (auto simp: check_fixtures_def)
  have free: "bool_free f" using item_bool_free [OF f(1) assms(2)] .
  have "py_equals git (vdict GIT_FIXTURE)" "py_equals package (vdict PACKAGE_FIXTURE)"
    using dict_equal_item [OF f(3), of "''git''"] dict_equal_item [OF f(3), of "''package''"] git(1) package(1) by auto
  then have "ints git = vdict GIT_FIXTURE" "ints package = vdict PACKAGE_FIXTURE"
    using leaves_pinned [OF git(2) constant_keys(5) constant_leaves(5)] leaves_pinned [OF package(2) constant_keys(6) constant_leaves(6)]
      item_bool_free [OF git(1) free] item_bool_free [OF package(1) free] by blast+
  with git(1) package(1) have "ints f = vdict ?expected" by (intro dict_pinned [OF f(2)]) auto
  with f(1) show ?thesis by blast
qed

section \<open>The contract\<close>

lemma contract_pinned:
  assumes "check_contract contract = Inr u" "bool_free contract"
  shows "ints contract = CONTRACT"
proof -
  from assms(1) obtain version epoch where keys: "exact_keys contract CONTRACT_KEYS = Inr ()"
    and v: "item contract ''version'' = Inr version" "py_equals version (vstr VERSION)"
    and e: "item contract ''source_date_epoch'' = Inr epoch" "py_equals epoch (VInt 1782172800)"
    and parts: "check_section contract ''platform'' PLATFORM = Inr ()" "check_oci contract = Inr ()" "check_snapshot contract = Inr ()"
      "check_packages contract = Inr ()" "check_section contract ''bounds'' BOUNDS = Inr ()" "check_fixtures contract = Inr ()"
      "check_section contract ''tools'' TOOLS = Inr ()" "check_section contract ''timeouts_seconds'' TIMEOUTS = Inr ()"
    by (auto simp: check_contract_def)
  have m: "map fst contract_members = CONTRACT_KEYS" by (simp add: contract_members_def CONTRACT_KEYS_def)
  have "ints contract = vdict contract_members"
  proof (rule dict_pinned)
    show "exact_keys contract (map fst contract_members) = Inr ()" using keys unfolding m .
    show "distinct (map fst contract_members)" by (simp add: m CONTRACT_KEYS_def)
    note packages = packages_pinned [OF parts(4) assms(2)]
    have "list_all (\<lambda>(k, c). \<exists>x. item contract k = Inr x \<and> ints x = c) contract_members"
      unfolding contract_members_def list.pred_inject prod.case
      by (intro conjI TrueI leaf_item_pinned [OF v _ assms(2)] leaf_item_pinned [OF e _ assms(2)]
          section_pinned [OF parts(1) constant_keys(1) constant_leaves(1) assms(2)] oci_pinned [OF parts(2) assms(2)]
          snapshot_pinned [OF parts(3) assms(2)] packages [THEN conjunct1] packages [THEN conjunct2]
          section_pinned [OF parts(5) constant_keys(2) constant_leaves(2) assms(2)] fixtures_pinned [OF parts(6) assms(2)]
          section_pinned [OF parts(7) constant_keys(3) constant_leaves(3) assms(2)]
          section_pinned [OF parts(8) constant_keys(4) constant_leaves(4) assms(2)]) simp_all
    then show "\<exists>x. item contract k = Inr x \<and> ints x = c" if "(k, c) \<in> set contract_members" for k c
      using that by (auto simp: list_all_iff)
  qed
  then show ?thesis by (simp add: CONTRACT_def)
qed

section \<open>The pinned document is accepted\<close>

definition host_char :: "nat \<Rightarrow> bool" where
  "host_char c \<longleftrightarrow> 97 \<le> c \<and> c \<le> 122 \<or> 48 \<le> c \<and> c \<le> 57 \<or> c = 45 \<or> c = 46"

definition path_char :: "nat \<Rightarrow> bool" where
  "path_char c \<longleftrightarrow> 32 < c \<and> c \<noteq> 35 \<and> c \<noteq> 63"

lemma takeWhile_stop: "list_all P xs \<Longrightarrow> \<not> P y \<Longrightarrow> takeWhile P (xs @ y # ys) = xs"
  by (induction xs) auto

lemma dropWhile_stop: "list_all P xs \<Longrightarrow> \<not> P y \<Longrightarrow> dropWhile P (xs @ y # ys) = y # ys"
  by (induction xs) auto

lemma takeWhile_whole: "list_all P xs \<Longrightarrow> takeWhile P xs = xs"
  by (induction xs) auto

lemma dropWhile_whole: "list_all P xs \<Longrightarrow> dropWhile P xs = []"
  by (induction xs) auto

lemma urlsplit_https:
  assumes host: "list_all host_char host" and path: "list_all path_char (47 # rest)"
  shows "urlsplit (ustr ''https://'' @ host @ 47 # rest) =
    Inr \<lparr>url_scheme = ustr ''https'', url_netloc = host, url_path = 47 # rest, url_query = [], url_fragment = []\<rparr>"
proof -
  have "host_char c \<Longrightarrow> c \<notin> {47, 63, 35, 91, 93, 9, 10, 13}" for c by (auto simp: host_char_def)
  then have h: "list_all (\<lambda>c. c \<notin> {47, 63, 35}) host" "91 \<notin> set host" "93 \<notin> set host" "list_all (\<lambda>c. c \<notin> {9, 10, 13}) host"
    using host unfolding list_all_iff by blast+
  have p: "list_all (\<lambda>c. c \<noteq> 35) rest" "list_all (\<lambda>c. c \<noteq> 63) rest" "list_all (\<lambda>c. c \<notin> {9, 10, 13}) rest"
    using path by (auto elim!: list.pred_mono_strong simp: path_char_def)
  have filters: "filter (\<lambda>c. c \<notin> {9, 10, 13}) host = host" "filter (\<lambda>c. c \<notin> {9, 10, 13}) rest = rest"
    using h(4) p(3) by (simp_all add: filter_id_conv list_all_iff)
  let ?url = "104 # 116 # 116 # 112 # 115 # 58 # 47 # 47 # host @ 47 # rest"
  have url: "ustr ''https://'' @ host @ 47 # rest = ?url" by (simp add: ustr_def)
  have clean: "filter (\<lambda>c. c \<notin> {9, 10, 13}) (dropWhile (\<lambda>c. c \<le> 32) ?url) = ?url" using filters by simp
  have head: "takeWhile (\<lambda>c. c \<noteq> 58) ?url = [104, 116, 116, 112, 115]" by simp
  have scheme: "ascii_lower [104, 116, 116, 112, 115] = ustr ''https''" "list_all scheme_char [104, 116, 116, 112, 115]" "is_letter 104"
    by (simp_all add: ascii_lower_def scheme_char_def is_letter_def ustr_def)
  have net: "takeWhile (\<lambda>c. c \<notin> {47, 63, 35}) (host @ 47 # rest) = host" "dropWhile (\<lambda>c. c \<notin> {47, 63, 35}) (host @ 47 # rest) = 47 # rest"
    using takeWhile_stop [OF h(1), of 47 rest] dropWhile_stop [OF h(1), of 47 rest] by simp_all
  have cuts: "cut 35 (47 # rest) = (47 # rest, [])" "cut 63 (47 # rest) = (47 # rest, [])"
    using p(1,2) by (simp_all add: cut_def takeWhile_whole dropWhile_whole)
  have rest: "drop (length [104, 116, 116, 112, 115 :: nat] + 1) ?url = 47 # 47 # host @ 47 # rest" by simp
  show ?thesis
    unfolding url urlsplit_def Let_def clean head rest scheme
    using scheme(2,3) h(2,3) net by (simp add: cuts)
qed

lemma check_url_https:
  assumes "list_all host_char (ustr host)" "list_all path_char (47 # ustr (prefix @ rest))"
  shows "check_url (vstr (''https://'' @ host @ CHR ''/'' # prefix @ rest)) host (CHR ''/'' # prefix) = Inr ()"
proof -
  have u: "ustr (''https://'' @ host @ CHR ''/'' # prefix @ rest) = ustr ''https://'' @ ustr host @ 47 # ustr (prefix @ rest)"
    by (simp add: ustr_def)
  have h: "58 \<notin> set (ustr host)" "64 \<notin> set (ustr host)" using assms(1) by (auto simp: host_char_def list_all_iff)
  have w: "takeWhile (\<lambda>c. c \<noteq> 64) (rev (ustr host)) = rev (ustr host)" "takeWhile (\<lambda>c. c \<noteq> 58) (ustr host) = ustr host"
    "dropWhile (\<lambda>c. c \<noteq> 58) (ustr host) = []"
    using h by (auto intro!: takeWhile_whole dropWhile_whole simp: list_all_iff)
  have info: "host_info (ustr host) = (ustr host, [])" unfolding host_info_def cut_def w rev_rev_ident by simp
  have low: "ascii_lower (ustr host) = ustr host"
    using assms(1) by (auto simp: ascii_lower_def host_char_def list_all_iff intro!: map_idI)
  have "starts_with (ustr (CHR ''/'' # prefix)) (47 # ustr (prefix @ rest))"
    by (simp add: starts_with_def ustr_def)
  then show ?thesis
    unfolding u check_url_def using urlsplit_https [OF assms] h info low by (simp add: url_port_def)
qed

declare py_equals.simps [simp]

lemma py_equals_leaf [simp]: "leaf c \<Longrightarrow> py_equals c c"
  by (cases c) simp_all

lemma item_vdict [simp]: "item (vdict ((k, v) # ps)) k' = (if k' = k then Inr v else item (vdict ps) k')"
  by (auto simp: item_def vdict_def)

lemma exact_keys_vdict [simp]: "exact_keys (vdict ps) keys = vfail (map fst ps = keys) (Inr ())"
proof -
  have "inj ustr" by (simp add: inj_def)
  from inj_map_eq_map [OF this, of "map fst ps" keys] show ?thesis
    by (simp add: exact_keys_def vdict_def case_prod_unfold comp_def)
qed

abbreviation same :: "pyval \<Rightarrow> bool" where
  "same v \<equiv> py_equals v v"

lemma members_equal_refl:
  "distinct (map fst ps) \<Longrightarrow> set qs \<subseteq> set ps \<Longrightarrow> list_all (same \<circ> snd) qs \<Longrightarrow> members_equal ps qs"
  by (induction qs) (auto dest: map_of_is_SomeI simp del: py_equals.simps)

lemma same_vdict:
  assumes "distinct (map fst ps)" "list_all (same \<circ> snd) ps"
  shows "same (vdict ps)"
proof -
  let ?ps = "map (\<lambda>(k, v). (ustr k, v)) ps"
  have "map fst ?ps = map ustr (map fst ps)" by auto
  then have "distinct (map fst ?ps)" using assms(1) by (metis distinct_ustr)
  moreover have "list_all (same \<circ> snd) ?ps" using assms(2) by (auto simp: list_all_iff)
  ultimately show ?thesis using members_equal_refl [of ?ps ?ps] by (simp add: vdict_def)
qed

lemma py_equals_vdict: "distinct (map fst ps) \<Longrightarrow> list_all (leaf \<circ> snd) ps \<Longrightarrow> same (vdict ps)"
  by (rule same_vdict) (auto simp: list_all_iff simp del: py_equals.simps)

lemma check_section_ok:
  "item contract key = Inr (vdict expected) \<Longrightarrow> distinct (map fst expected) \<Longrightarrow> list_all (leaf \<circ> snd) expected \<Longrightarrow>
     check_section contract key expected = Inr ()"
  by (simp add: check_section_def py_equals_vdict del: py_equals.simps)

lemma oci_row_ok:
  assumes "item oci (fst e) = Inr (oci_row e)" "e \<in> set OCI_EXPECTED"
  shows "check_oci_row oci e = Inr ()"
proof -
  have "check_url (vstr (oci_url endpoint digest)) ''registry-1.docker.io'' ''/v2/library/debian/'' = Inr ()"
    if "(key, cache_name, endpoint, media_type, n, digest) \<in> set OCI_EXPECTED" for key cache_name endpoint media_type n digest
    using check_url_https [of "''registry-1.docker.io''" "''v2/library/debian/''" "endpoint @ ''/sha256:'' @ digest"] that
    by (auto simp: oci_url_def OCI_EXPECTED_def ustr_def host_char_def path_char_def)
  moreover have "check_sha (vstr digest) = Inr ()" "check_sha (vstr DIFF_ID) = Inr ()"
    if "(key, cache_name, endpoint, media_type, n, digest) \<in> set OCI_EXPECTED" for key cache_name endpoint media_type n digest
    using that by (auto simp: check_sha_def OCI_EXPECTED_def DIFF_ID_def is_hex64_def is_hex_def ustr_def)
  ultimately show ?thesis
    using assms by (cases e) (auto simp: check_oci_row_def oci_row_def is_int_def)
qed

text \<open>The three sections with rows.\<close>

abbreviation oci_section :: pyval where
  "oci_section \<equiv> vdict ((''repository'', vstr ''library/debian'') # map (\<lambda>e. (fst e, oci_row e)) OCI_EXPECTED)"

abbreviation snapshot_section :: pyval where
  "snapshot_section \<equiv> vdict ([(''timestamp'', vstr SNAPSHOT), (''base_url'', vstr SNAPSHOT_BASE)] @
     map (\<lambda>e. (fst e, snapshot_row e)) SNAPSHOT_EXPECTED)"

lemma contract_items:
  "item CONTRACT ''version'' = Inr (vstr VERSION)" "item CONTRACT ''platform'' = Inr (vdict PLATFORM)"
  "item CONTRACT ''source_date_epoch'' = Inr (VInt 1782172800)" "item CONTRACT ''oci'' = Inr oci_section"
  "item CONTRACT ''snapshot'' = Inr snapshot_section" "item CONTRACT ''packages'' = Inr (VList (map package_row_value PACKAGE_EXPECTED))"
  "item CONTRACT ''package_total_bytes'' = Inr (VInt 10145436)" "item CONTRACT ''bounds'' = Inr (vdict BOUNDS)"
  "item CONTRACT ''fixtures'' = Inr (vdict [(''git'', vdict GIT_FIXTURE), (''package'', vdict PACKAGE_FIXTURE)])"
  "item CONTRACT ''tools'' = Inr (vdict TOOLS)" "item CONTRACT ''timeouts_seconds'' = Inr (vdict TIMEOUTS)"
  by (simp_all add: CONTRACT_def contract_members_def)

lemma item_rows:
  "distinct (map fst es) \<Longrightarrow> e \<in> set es \<Longrightarrow> item (vdict (map (\<lambda>e. (fst e, f e)) es)) (fst e) = Inr (f e)"
  by (induction es) (auto simp: rev_image_eqI)

lemma oci_ok: "check_oci CONTRACT = Inr ()"
proof -
  have d: "distinct (map fst OCI_EXPECTED)" "''repository'' \<notin> fst ` set OCI_EXPECTED" by (simp_all add: OCI_EXPECTED_def)
  have keys: "map fst OCI_EXPECTED = [''index'', ''manifest'', ''config'', ''layer'']" by (simp add: OCI_EXPECTED_def)
  have "check_oci_row oci_section e = Inr ()" if "e \<in> set OCI_EXPECTED" for e
    using that d item_rows [OF d(1) that, of oci_row] by (intro oci_row_ok) (auto simp: rev_image_eqI)
  then show ?thesis by (simp add: check_oci_def contract_items keys comp_def)
qed

lemma snapshot_base: "SNAPSHOT_BASE = ''https://'' @ ''snapshot.debian.org'' @ CHR ''/'' # (''archive/debian/'' @ SNAPSHOT @ ''/'')"
  by (simp add: SNAPSHOT_BASE_def)

lemma snapshot_url:
  assumes "list_all path_char (ustr rest)"
  shows "check_url (vstr (SNAPSHOT_BASE @ rest)) ''snapshot.debian.org'' (''/archive/debian/'' @ SNAPSHOT @ ''/'') = Inr ()"
proof -
  have "list_all path_char (47 # ustr ((''archive/debian/'' @ SNAPSHOT @ ''/'') @ rest))"
    using assms by (simp add: ustr_def path_char_def SNAPSHOT_def)
  with check_url_https [of "''snapshot.debian.org''" "''archive/debian/'' @ SNAPSHOT @ ''/''" rest] show ?thesis
    by (simp add: snapshot_base host_char_def ustr_def)
qed

lemma pool_url:
  assumes "list_all path_char (ustr rest)"
  shows "check_url (vstr (SNAPSHOT_BASE @ ''pool/main/'' @ rest)) ''snapshot.debian.org'' (''/archive/debian/'' @ SNAPSHOT @ ''/pool/main/'') = Inr ()"
proof -
  have "list_all path_char (47 # ustr ((''archive/debian/'' @ SNAPSHOT @ ''/pool/main/'') @ rest))"
    using assms by (simp add: ustr_def path_char_def SNAPSHOT_def)
  with check_url_https [of "''snapshot.debian.org''" "''archive/debian/'' @ SNAPSHOT @ ''/pool/main/''" rest] show ?thesis
    by (simp add: snapshot_base host_char_def ustr_def)
qed

lemma snapshot_row_ok:
  assumes "item snap (fst e) = Inr (snapshot_row e)" "e \<in> set SNAPSHOT_EXPECTED"
  shows "check_snapshot_row snap e = Inr ()"
proof -
  have "list_all path_char (ustr path)" "is_hex64 (ustr digest)"
    if "(key, cache_name, path, n, digest) \<in> set SNAPSHOT_EXPECTED" for key cache_name path n digest
    using that by (auto simp: SNAPSHOT_EXPECTED_def ustr_def path_char_def is_hex64_def is_hex_def)
  then have "check_url (vstr (SNAPSHOT_BASE @ path)) ''snapshot.debian.org'' (''/archive/debian/'' @ SNAPSHOT @ ''/'') = Inr ()"
    "check_sha (vstr digest) = Inr ()"
    if "(key, cache_name, path, n, digest) \<in> set SNAPSHOT_EXPECTED" for key cache_name path n digest
    using that snapshot_url by (auto simp: check_sha_def simp del: append.simps)
  with assms show ?thesis
    by (cases e) (auto simp: check_snapshot_row_def snapshot_row_def py_equals_vdict simp del: py_equals.simps)
qed

lemma snapshot_ok: "check_snapshot CONTRACT = Inr ()"
proof -
  have d: "distinct (map fst SNAPSHOT_EXPECTED)" "''timestamp'' \<notin> fst ` set SNAPSHOT_EXPECTED" "''base_url'' \<notin> fst ` set SNAPSHOT_EXPECTED"
    by (simp_all add: SNAPSHOT_EXPECTED_def)
  have keys: "map fst SNAPSHOT_EXPECTED = [''inrelease'', ''packages_index'']" by (simp add: SNAPSHOT_EXPECTED_def)
  have "check_snapshot_row snapshot_section e = Inr ()" if "e \<in> set SNAPSHOT_EXPECTED" for e
    using that d item_rows [OF d(1) that, of snapshot_row] by (intro snapshot_row_ok) (auto simp: rev_image_eqI)
  then show ?thesis using snapshot_url [of "[]"] by (simp add: check_snapshot_def contract_items keys comp_def ustr_def [of "[]"])
qed

lemma fixtures_ok: "check_fixtures CONTRACT = Inr ()"
  using py_equals_vdict [OF constant_keys(5) constant_leaves(5)] py_equals_vdict [OF constant_keys(6) constant_leaves(6)]
    same_vdict [of "[(''git'', vdict GIT_FIXTURE), (''package'', vdict PACKAGE_FIXTURE)]"]
  by (simp add: check_fixtures_def contract_items)

text \<open>Packages.\<close>

definition good_package :: "package_expected \<Rightarrow> bool" where
  "good_package = (\<lambda>(name, version, path, n, digest).
     take 10 path = ''pool/main/'' \<and> list_all path_char (ustr path) \<and> is_hex64 (ustr digest) \<and>
     take 2 (path_parts path) = [''pool'', ''main''] \<and> ''..'' \<notin> set (path_parts path))"

lemma package_row_ok:
  assumes "good_package e" "\<And>f. f \<in> set UNIQUE_FIELDS \<Longrightarrow> item (package_row_value e) f \<notin> set (map (\<lambda>r. item r f) seen)"
  shows "check_package_row seen (package_row_value e) e = Inr ()"
proof -
  obtain name version path n digest where e: "e = (name, version, path, n, digest)" by (cases e)
  define rest where "rest = drop 10 path"
  have path: "path = ''pool/main/'' @ rest"
    using assms(1) append_take_drop_id [of 10 path] by (simp add: good_package_def e rest_def del: append_take_drop_id)
  have ok: "list_all path_char (ustr rest)" "is_hex64 (ustr digest)" "take 2 (path_parts path) = [''pool'', ''main'']" "''..'' \<notin> set (path_parts path)"
    using assms(1) by (simp_all add: good_package_def e path ustr_def)
  have "check_url (vstr (SNAPSHOT_BASE @ path)) ''snapshot.debian.org'' (''/archive/debian/'' @ SNAPSHOT @ ''/pool/main/'') = Inr ()"
    using pool_url [OF ok(1)] by (simp only: path)
  moreover have "check_all (\<lambda>f. vfail (item (package_row_value e) f \<notin> set (map (\<lambda>r. item r f) seen)) (Inr ())) UNIQUE_FIELDS = Inr ()"
    using assms(2) by simp
  ultimately show ?thesis
    using ok(2-4) by (simp add: check_package_row_def e package_row_value_def py_equals_vdict check_sha_def del: py_equals.simps)
qed

lemma package_rows_ok:
  assumes "list_all good_package es" "\<And>f. f \<in> set UNIQUE_FIELDS \<Longrightarrow> distinct (map (\<lambda>r. item r f) (seen @ map package_row_value es))"
  shows "check_package_rows seen (map package_row_value es) es = Inr ()"
  using assms
proof (induction es arbitrary: seen)
  case (Cons e es)
  have "check_package_row seen (package_row_value e) e = Inr ()"
    using Cons.prems by (intro package_row_ok) auto
  moreover have "check_package_rows (seen @ [package_row_value e]) (map package_row_value es) es = Inr ()"
    using Cons.prems by (intro Cons.IH) auto
  ultimately show ?case by simp
qed simp

lemma good_packages: "list_all good_package PACKAGE_EXPECTED"
  by (simp add: PACKAGE_EXPECTED_def good_package_def ustr_def path_char_def is_hex64_def is_hex_def path_parts_def)

text \<open>The values of a field over the packages, and over all sixteen artifacts.\<close>

lemma package_fields:
  "map (\<lambda>r. item r ''name'') (map package_row_value es) = map (\<lambda>(name, _, _, _, _). Inr (vstr name)) es"
  "map (\<lambda>r. item r ''filename'') (map package_row_value es) = map (\<lambda>(_, _, path, _, _). Inr (vstr (file_name path))) es"
  "map (\<lambda>r. item r ''cache_name'') (map package_row_value es) = map (\<lambda>(_, _, path, _, _). Inr (vstr (file_name path))) es"
  "map (\<lambda>r. item r ''url'') (map package_row_value es) = map (\<lambda>(_, _, path, _, _). Inr (vstr (SNAPSHOT_BASE @ path))) es"
  "map (\<lambda>r. item r ''sha256'') (map package_row_value es) = map (\<lambda>(_, _, _, _, digest). Inr (vstr digest)) es"
  by (auto simp: package_row_value_def)

lemma package_names: "map (\<lambda>(_, _, path, _, _). file_name path) PACKAGE_EXPECTED =
  [''git_2.47.3-0+deb13u1_amd64.deb'', ''openssh-server_10.0p1-7+deb13u4_amd64.deb'', ''libcom-err2_1.47.2-3+b11_amd64.deb'',
   ''libgssapi-krb5-2_1.21.3-5+deb13u1_amd64.deb'', ''libk5crypto3_1.21.3-5+deb13u1_amd64.deb'', ''libkeyutils1_1.6.3-6_amd64.deb'',
   ''libkrb5-3_1.21.3-5+deb13u1_amd64.deb'', ''libkrb5support0_1.21.3-5+deb13u1_amd64.deb'', ''libwrap0_7.6.q-36_amd64.deb'',
   ''libwtmpdb0_0.73.0-3+deb13u1_amd64.deb'']"
  by (simp add: PACKAGE_EXPECTED_def file_name_def path_parts_def)

lemma package_distinct:
  assumes "f \<in> set UNIQUE_FIELDS"
  shows "distinct (map (\<lambda>r. item r f) (map package_row_value PACKAGE_EXPECTED))"
proof -
  have inr: "distinct (map (\<lambda>e. Inr (vstr (g e)) :: pyval result) es) \<longleftrightarrow> distinct (map g es)" for g :: "package_expected \<Rightarrow> string" and es
    by (auto simp: distinct_map inj_on_def)
  have "distinct (map (\<lambda>(name, _, _, _, _). name) PACKAGE_EXPECTED)" "distinct (map (\<lambda>(_, _, path, _, _). file_name path) PACKAGE_EXPECTED)"
    "distinct (map (\<lambda>(_, _, path, _, _). SNAPSHOT_BASE @ path) PACKAGE_EXPECTED)" "distinct (map (\<lambda>(_, _, _, _, digest). digest) PACKAGE_EXPECTED)"
    unfolding package_names by (simp_all add: PACKAGE_EXPECTED_def)
  with assms show ?thesis
    unfolding UNIQUE_FIELDS_def using inr by (auto simp: package_fields case_prod_unfold simp del: map_map)
qed

lemma packages_ok: "check_packages CONTRACT = Inr ()"
proof -
  let ?rows = "map package_row_value PACKAGE_EXPECTED"
  have rows: "check_package_rows [] ?rows PACKAGE_EXPECTED = Inr ()"
    using package_distinct by (intro package_rows_ok good_packages) simp
  have "map_result (\<lambda>row. rbind (item row ''size'') number_of) ?rows = Inr (map (\<lambda>(_, _, _, n, _). n) PACKAGE_EXPECTED)"
    by (simp add: PACKAGE_EXPECTED_def package_row_value_def number_of_def)
  moreover have "sum_list (map (\<lambda>(_, _, _, n, _). n) PACKAGE_EXPECTED) = 10145436" by (simp add: PACKAGE_EXPECTED_def)
  ultimately show ?thesis using rows by (simp add: check_packages_def contract_items is_int_def)
qed

definition artifact_rows :: "pyval list" where
  "artifact_rows = map oci_row OCI_EXPECTED @ map snapshot_row SNAPSHOT_EXPECTED @ map package_row_value PACKAGE_EXPECTED"

lemma rows_ok: "source_rows CONTRACT = Inr artifact_rows"
  by (simp add: source_rows_def contract_items artifact_rows_def OCI_EXPECTED_def SNAPSHOT_EXPECTED_def)

lemma map_result_map: "(\<And>x. x \<in> set xs \<Longrightarrow> f (g x) = Inr (h x)) \<Longrightarrow> map_result f (map g xs) = Inr (map h xs)"
  by (induction xs) auto

lemma map_result_append: "map_result f xs = Inr ys \<Longrightarrow> map_result f xs' = Inr ys' \<Longrightarrow> map_result f (xs @ xs') = Inr (ys @ ys')"
  by (induction xs arbitrary: ys) auto

definition artifact_names :: "string list" where
  "artifact_names = map (\<lambda>(_, name, _, _, _, _). name) OCI_EXPECTED @ map (\<lambda>(_, name, _, _, _). name) SNAPSHOT_EXPECTED @
     map (\<lambda>(_, _, path, _, _). file_name path) PACKAGE_EXPECTED"

definition artifact_urls :: "string list" where
  "artifact_urls = map (\<lambda>(_, _, endpoint, _, _, digest). oci_url endpoint digest) OCI_EXPECTED @
     map (\<lambda>(_, _, path, _, _). SNAPSHOT_BASE @ path) SNAPSHOT_EXPECTED @ map (\<lambda>(_, _, path, _, _). SNAPSHOT_BASE @ path) PACKAGE_EXPECTED"

definition artifact_digests :: "string list" where
  "artifact_digests = map (\<lambda>(_, _, _, _, _, digest). digest) OCI_EXPECTED @ map (\<lambda>(_, _, _, _, digest). digest) SNAPSHOT_EXPECTED @
     map (\<lambda>(_, _, _, _, digest). digest) PACKAGE_EXPECTED"

lemma artifact_fields:
  "map_result (\<lambda>row. item row ''cache_name'') artifact_rows = Inr (map vstr artifact_names)"
  "map_result (\<lambda>row. item row ''url'') artifact_rows = Inr (map vstr artifact_urls)"
  "map_result (\<lambda>row. item row ''sha256'') artifact_rows = Inr (map vstr artifact_digests)"
  unfolding artifact_rows_def artifact_names_def artifact_urls_def artifact_digests_def map_append map_map
  by (intro map_result_append map_result_map; auto simp: oci_row_def snapshot_row_def package_row_value_def)+

lemma distinct_prefixed: "distinct (map (\<lambda>e. p @ g e) es) \<longleftrightarrow> distinct (map g es)"
  by (auto simp: distinct_map inj_on_def)

lemma url_disjoint:
  "set (map (\<lambda>(_, _, endpoint, _, _, digest). oci_url endpoint digest) es) \<inter> set (map (\<lambda>p. SNAPSHOT_BASE @ p) paths) = {}"
  by (auto simp: oci_url_def SNAPSHOT_BASE_def)

lemma artifact_names_distinct: "distinct artifact_names" "distinct artifact_digests"
  unfolding artifact_names_def artifact_digests_def package_names
  by (simp_all add: OCI_EXPECTED_def SNAPSHOT_EXPECTED_def PACKAGE_EXPECTED_def)

lemma artifact_urls_distinct: "distinct artifact_urls"
proof -
  let ?oci = "map (\<lambda>(_, _, endpoint, _, _, digest). oci_url endpoint digest) OCI_EXPECTED"
  let ?paths = "map (\<lambda>e. fst (snd (snd e))) SNAPSHOT_EXPECTED @ map (\<lambda>e. fst (snd (snd e))) PACKAGE_EXPECTED"
  have urls: "artifact_urls = ?oci @ map (\<lambda>p. SNAPSHOT_BASE @ p) ?paths"
    by (simp add: artifact_urls_def case_prod_unfold)
  have "distinct ?oci" by (simp add: OCI_EXPECTED_def oci_url_def)
  moreover have "distinct ?paths" by (simp add: SNAPSHOT_EXPECTED_def PACKAGE_EXPECTED_def)
  then have "distinct (map (\<lambda>p. SNAPSHOT_BASE @ p) ?paths)" using distinct_prefixed [of SNAPSHOT_BASE "\<lambda>p. p" ?paths] by simp
  ultimately show ?thesis using url_disjoint unfolding urls distinct_append by blast
qed

lemmas artifact_distinct = artifact_names_distinct artifact_urls_distinct

lemma distinct_vstr: "distinct (map vstr xs) \<longleftrightarrow> distinct xs"
  by (auto simp: distinct_map inj_on_def)

lemma cached_ok: "\<exists>entries. cache_entries CONTRACT = Inr entries \<and> length entries = 16"
proof -
  have "cache_entry_of row \<noteq> Inl e" if "row \<in> set artifact_rows" for row e
    using that by (auto simp: artifact_rows_def cache_entry_of_def oci_row_def snapshot_row_def package_row_value_def)
  then have "map_result cache_entry_of artifact_rows = Inr (map (\<lambda>row. projr (cache_entry_of row)) artifact_rows)"
    using map_result_map [of artifact_rows cache_entry_of id] by (metis (no_types, lifting) id_apply list.map_id sum.collapse(2) sum.exhaust_sel)
  moreover have "length artifact_rows = 16"
    by (simp add: artifact_rows_def OCI_EXPECTED_def SNAPSHOT_EXPECTED_def PACKAGE_EXPECTED_def)
  ultimately show ?thesis by (simp add: cache_entries_def rows_ok)
qed

lemma contract_ok: "check_contract CONTRACT = Inr ()"
proof -
  obtain entries where "cache_entries CONTRACT = Inr entries" "length entries = 16" using cached_ok by blast
  moreover have "item (vdict BOUNDS) ''artifact_count'' = Inr (VInt 16)" by (simp add: BOUNDS_def)
  moreover have "exact_keys CONTRACT CONTRACT_KEYS = Inr ()" by (simp add: CONTRACT_def contract_members_def CONTRACT_KEYS_def)
  moreover have "check_all (distinct_field artifact_rows) [''cache_name'', ''url'', ''sha256''] = Inr ()"
    by (simp add: distinct_field_def artifact_fields artifact_distinct distinct_vstr)
  ultimately show ?thesis
    by (simp add: check_contract_def contract_items check_section_ok constant_keys constant_leaves oci_ok snapshot_ok packages_ok fixtures_ok
        rows_ok is_int_def)
qed

lemma bool_free_vdict: "bool_free (vdict ps) \<longleftrightarrow> list_all (\<lambda>p. bool_free (snd p)) ps"
  by (auto simp: vdict_def list_all_iff)

lemma leaves_bool_free: "list_all (leaf \<circ> snd) ps \<Longrightarrow> list_all (\<lambda>p. bool_free (snd p)) ps"
proof -
  have "leaf v \<Longrightarrow> bool_free v" for v by (cases v) simp_all
  then show "list_all (leaf \<circ> snd) ps \<Longrightarrow> list_all (\<lambda>p. bool_free (snd p)) ps" by (auto simp: list_all_iff)
qed

lemma contract_bool_free: "bool_free CONTRACT"
proof -
  have "bool_free (oci_row e)" "bool_free (snapshot_row e')" "bool_free (package_row_value e')" for e e'
    by (auto simp: oci_row_def snapshot_row_def package_row_value_def bool_free_vdict simp del: reject_bool.simps(2) split: prod.splits)
  then show ?thesis
    using constant_leaves [THEN leaves_bool_free] by (simp add: CONTRACT_def contract_members_def bool_free_vdict list_all_iff)
qed

section \<open>What is accepted\<close>

text \<open>C29. A document is accepted as the artifact contract only when it is at most 32768 bytes long and the value parsed from it,
with floats that equal an integer read as that integer, is the pinned contract: version, platform, epoch, the four images with
their digests, the two snapshot files, the ten packages, the bounds, fixtures, tools and timeouts, every key in that order.\<close>

theorem accepted_contract_is_pinned:
  assumes "verify_contract loads raw = Inr contract"
  shows "length raw \<le> 32768 \<and> ints contract = CONTRACT"
  using assms contract_pinned by (auto simp: verify_contract_def strict_json_def split: sum.splits)

theorem accepted_contract_is_pinned_witness:
  "verify_contract (\<lambda>_ _ _. Inr CONTRACT) [123, 125] = Inr CONTRACT \<and> ints CONTRACT = CONTRACT"
proof -
  have "verify_contract (\<lambda>_ _ _. Inr CONTRACT) [123, 125] = Inr CONTRACT"
    by (simp add: verify_contract_def strict_json_def contract_ok contract_bool_free vfail_def)
  with accepted_contract_is_pinned [OF this] show ?thesis by blast
qed

end
