(* ===== verification/MetadataSafety.thy ===== *)
theory MetadataSafety
  imports ArtifactMetadata ArtifactSafety
begin

text \<open>
  What the documents behind the contract are when they are accepted: the exact form of a clear-signed message,
  the row of the release file, the rows of the package index, and that printed stanzas are read back.
\<close>

section \<open>Lines\<close>

definition unlines :: "pystr list \<Rightarrow> pystr" where
  "unlines ls = concat (map (\<lambda>l. l @ [10]) ls)"

definition is_break :: "nat \<Rightarrow> bool" where
  "is_break c \<longleftrightarrow> c \<in> set [10, 11, 12, 13, 28, 29, 30, 133, 8232, 8233]"

lemma unlines_simps [simp]: "unlines [] = []" "unlines (l # ls) = l @ 10 # unlines ls" "unlines (ls @ ms) = unlines ls @ unlines ms"
  by (simp_all add: unlines_def)

lemma list_all_unlines: "list_all P (unlines ls) \<longleftrightarrow> list_all (list_all P) ls \<and> (ls = [] \<or> P 10)"
  by (induction ls) auto

lemma splitlines_step: "list_all (\<lambda>c. \<not> is_break c) l \<Longrightarrow> str_splitlines (l @ 10 # rest) = l # str_splitlines rest"
  unfolding str_splitlines_def is_break_def by (induction l) simp_all

lemma splitlines_unlines: "list_all (list_all (\<lambda>c. \<not> is_break c)) ls \<Longrightarrow> str_splitlines (unlines ls) = ls"
  by (induction ls) (simp_all add: splitlines_step, simp add: str_splitlines_def)

lemma unlines_splitlines:
  assumes "list_all (\<lambda>c. is_break c \<longrightarrow> c = 10) txs" "txs = [] \<or> last txs = 10"
  shows "unlines (str_splitlines txs) = txs \<and> list_all (list_all (\<lambda>c. \<not> is_break c)) (str_splitlines txs)"
  using assms
proof (induction "length txs" arbitrary: txs rule: less_induct)
  case less
  show ?case
  proof (cases "txs = []")
    case True
    then show ?thesis by (simp add: str_splitlines_def)
  next
    case False
    have "10 \<in> set txs" using less.prems(2) False last_in_set by fastforce
    then obtain l r where txs: "txs = l @ 10 # r" and l: "10 \<notin> set l" by (metis split_list_first)
    have plain: "list_all (\<lambda>c. \<not> is_break c) l" using less.prems(1) l by (auto simp: list_all_iff txs)
    have "r = [] \<or> last r = 10" using less.prems(2) txs by (metis append_is_Nil_conv last.simps last_appendR list.discI)
    moreover have "list_all (\<lambda>c. is_break c \<longrightarrow> c = 10) r" using less.prems(1) by (simp add: txs)
    moreover have "length r < length txs" by (simp add: txs)
    ultimately have "unlines (str_splitlines r) = r \<and> list_all (list_all (\<lambda>c. \<not> is_break c)) (str_splitlines r)"
      by (intro less.hyps)
    moreover have "str_splitlines txs = l # str_splitlines r" unfolding txs by (rule splitlines_step [OF plain])
    ultimately show ?thesis using plain txs by simp
  qed
qed

section \<open>The clear-signed message\<close>

definition signed_lines :: "pystr list \<Rightarrow> pystr list \<Rightarrow> pystr list" where
  "signed_lines escaped signature =
     [SIGNED_BEGIN, HASH_LINE, []] @ escaped @ [SIGNATURE_BEGIN, []] @ signature @ [SIGNATURE_END]"

definition printable :: "pystr \<Rightarrow> bool" where
  "printable l \<longleftrightarrow> length l \<le> 65536 \<and> list_all (\<lambda>c. 32 \<le> c \<and> c \<le> 126) l"

definition is_signature :: "pystr list \<Rightarrow> bool" where
  "is_signature sig \<longleftrightarrow> sig \<noteq> [] \<and> list_all (\<lambda>l. l \<noteq> [] \<and> length l \<le> 65536 \<and> list_all is_base64 l) sig"

lemma ends_with_newline: "ends_with [10] raw \<longleftrightarrow> raw \<noteq> [] \<and> last raw = 10"
  by (cases raw rule: rev_cases) (auto simp: ends_with_def)

lemma marker_heads:
  "starts_with [45] SIGNED_BEGIN" "\<not> starts_with [45, 32] SIGNED_BEGIN" "starts_with [45] SIGNATURE_BEGIN" "\<not> starts_with [45, 32] SIGNATURE_BEGIN"
  "starts_with [45] SIGNATURE_END" "\<not> starts_with [45, 32] SIGNATURE_END"
  by (simp_all add: starts_with_def SIGNED_BEGIN_def SIGNATURE_BEGIN_def SIGNATURE_END_def ustr_def)

lemma marker_distinct: "distinct [SIGNED_BEGIN, HASH_LINE, [], SIGNATURE_BEGIN, SIGNATURE_END]"
  by (simp add: SIGNED_BEGIN_def HASH_LINE_def SIGNATURE_BEGIN_def SIGNATURE_END_def ustr_def)

lemma marker_printable: "printable SIGNED_BEGIN" "printable HASH_LINE" "printable []" "printable SIGNATURE_BEGIN" "printable SIGNATURE_END"
  by (simp_all add: printable_def SIGNED_BEGIN_def HASH_LINE_def SIGNATURE_BEGIN_def SIGNATURE_END_def ustr_def)

lemma marker_not_base64: "\<not> list_all is_base64 SIGNED_BEGIN" "\<not> list_all is_base64 HASH_LINE" "\<not> list_all is_base64 SIGNATURE_BEGIN"
  "\<not> list_all is_base64 SIGNATURE_END"
  by (simp_all add: SIGNED_BEGIN_def HASH_LINE_def SIGNATURE_BEGIN_def SIGNATURE_END_def ustr_def is_base64_def is_alnum_def)

lemma map_result_in: "map_result f xs = Inr ys \<Longrightarrow> x \<in> set xs \<Longrightarrow> \<exists>y. f x = Inr y"
  by (induction xs arbitrary: ys) auto

lemma escaped_no_marker:
  assumes "map_result unescape_line escaped = Inr body"
  shows "SIGNED_BEGIN \<notin> set escaped" "SIGNATURE_BEGIN \<notin> set escaped" "SIGNATURE_END \<notin> set escaped"
proof -
  have "starts_with [45, 32] l" if "l \<in> set escaped" "starts_with [45] l" for l
    using map_result_in [OF assms that(1)] that(2) by (auto simp: unescape_line_def)
  with marker_heads show "SIGNED_BEGIN \<notin> set escaped" "SIGNATURE_BEGIN \<notin> set escaped" "SIGNATURE_END \<notin> set escaped" by blast+
qed

lemma printable_plain: "printable l \<Longrightarrow> list_all (\<lambda>c. \<not> is_break c) l"
  by (auto simp: printable_def is_break_def list_all_iff)

lemma printables_plain: "list_all printable ls \<Longrightarrow> list_all (list_all (\<lambda>c. \<not> is_break c)) ls"
  by (induction ls) (simp_all add: printable_plain)

lemma signature_printable: "is_signature sig \<Longrightarrow> list_all printable sig"
  by (fastforce simp: is_signature_def printable_def is_base64_def is_alnum_def list_all_iff)

lemma count_list_0: "x \<notin> set xs \<Longrightarrow> count_list xs x = 0"
  by simp

lemma find_marker: "SIGNATURE_BEGIN \<notin> set pre \<Longrightarrow> find_first (\<lambda>l. l = SIGNATURE_BEGIN) (pre @ SIGNATURE_BEGIN # post) = Some (length pre)"
  by (subst find_first_append, subst find_first_None [THEN iffD2]) auto

lemma framed_lines:
  assumes "find_first (\<lambda>l. l = SIGNATURE_BEGIN) lines = Some k" "take 3 lines = [SIGNED_BEGIN, HASH_LINE, []]" "3 < k"
    "last lines = SIGNATURE_END" "1 < length (slice (k + 1) (length lines - 1) lines)" "hd (slice (k + 1) (length lines - 1) lines) = []"
  shows "lines = signed_lines (slice 3 k lines) (tl (slice (k + 1) (length lines - 1) lines))"
proof -
  have k: "k < length lines" "lines ! k = SIGNATURE_BEGIN" using find_first_Some [OF assms(1)] by auto
  have "take k lines = take 3 lines @ slice 3 k lines" using assms(3) by (simp add: slice_def flip: take_add)
  moreover have "drop (Suc k) lines = slice (k + 1) (length lines - 1) lines @ [last lines]"
  proof -
    have "drop (Suc k) lines \<noteq> []" using assms(5) by auto
    then have "drop (Suc k) lines = butlast (drop (Suc k) lines) @ [last lines]" by (metis append_butlast_last_id last_drop drop_eq_Nil2 not_less)
    then show ?thesis by (simp add: slice_def butlast_conv_take)
  qed
  moreover have "slice (k + 1) (length lines - 1) lines = [] # tl (slice (k + 1) (length lines - 1) lines)"
    using assms(5,6) by (metis list.collapse list.size(3) not_one_less_zero)
  moreover have "lines = take k lines @ lines ! k # drop (Suc k) lines" using k(1) by (simp add: id_take_nth_drop)
  ultimately show ?thesis using assms(2,4) k(2) unfolding signed_lines_def by (metis append.assoc append_Cons append_Nil)
qed

text \<open>The reader of clear-signed messages accepts exactly the framed messages: the three header lines, a non-empty body in
dash escaping without a second hash line, the signature marker, a blank line and a non-empty base64 signature, the end
marker, printable lines of bounded length; and it returns the unescaped body.\<close>

theorem clear_signed_body_iff:
  "clear_signed_body raw = Inr body \<longleftrightarrow>
     (\<exists>escaped sig. raw = unlines (signed_lines escaped sig) \<and> length raw \<le> 1048576 \<and> escaped \<noteq> [] \<and> is_signature sig \<and>
        list_all printable escaped \<and> HASH_LINE \<notin> set escaped \<and> map_result unescape_line escaped = Inr body)"
  (is "?accepts \<longleftrightarrow> (\<exists>escaped sig. ?framed escaped sig)")
proof
  assume ?accepts
  define lines where "lines = str_splitlines raw"
  from \<open>?accepts\<close> obtain k where raw: "length raw \<le> 1048576" "ends_with [10] raw" "list_all (\<lambda>c. c = 10 \<or> 32 \<le> c \<and> c \<le> 126) raw"
    and lines: "list_all (\<lambda>l. length l \<le> 65536) lines" "take 3 lines = [SIGNED_BEGIN, HASH_LINE, []]" "count_list lines HASH_LINE = 1"
      "last lines = SIGNATURE_END" "find_first (\<lambda>l. l = SIGNATURE_BEGIN) lines = Some k"
    and k: "3 < k" "1 < length (slice (k + 1) (length lines - 1) lines)" "hd (slice (k + 1) (length lines - 1) lines) = []"
      "list_all (\<lambda>l. l \<noteq> [] \<and> list_all is_base64 l) (tl (slice (k + 1) (length lines - 1) lines))"
      "map_result unescape_line (slice 3 k lines) = Inr body"
    unfolding clear_signed_body_def Let_def lines_def [symmetric] by (auto split: option.splits)
  let ?esc = "slice 3 k lines" and ?sig = "tl (slice (k + 1) (length lines - 1) lines)"
  have framed: "lines = signed_lines ?esc ?sig" using framed_lines lines(2,4,5) k(1-3) by blast
  have "list_all (\<lambda>c. is_break c \<longrightarrow> c = 10) raw" using raw(3) by (fastforce simp: list_all_iff is_break_def)
  then have whole: "unlines lines = raw" "list_all (list_all (\<lambda>c. \<not> is_break c)) lines"
    using unlines_splitlines [of raw] raw(2) by (auto simp: lines_def ends_with_newline)
  have "list_all printable lines"
  proof -
    have "list_all (list_all (\<lambda>c. c = 10 \<or> 32 \<le> c \<and> c \<le> 126)) lines" using raw(3) list_all_unlines [of _ lines] whole(1) by auto
    moreover have "c \<noteq> 10" if "l \<in> set lines" "c \<in> set l" for l c
      using whole(2) that by (auto simp: list_all_iff is_break_def)
    ultimately show ?thesis using lines(1) by (fastforce simp: list_all_iff printable_def)
  qed
  then have pr: "list_all printable ?esc \<and> list_all printable ?sig" using framed unfolding signed_lines_def by (metis list_all_append)
  have "length ?esc = k - 3" using find_first_Some [OF lines(5)] by (simp add: min_def diff_le_mono)
  then have "?esc \<noteq> []" using k(1) by (metis list.size(3) zero_less_diff less_numeral_extra(3))
  moreover have "?sig \<noteq> []" using k(2) by (simp only: length_tl flip: length_greater_0_conv)
  then have "is_signature ?sig" unfolding is_signature_def using k(4) pr by (auto simp: list_all_iff printable_def)
  moreover have "HASH_LINE \<notin> set ?esc"
    using lines(3) marker_distinct by (subst (asm) framed) (auto simp: signed_lines_def count_list_0_iff)
  ultimately show "\<exists>escaped sig. ?framed escaped sig" using framed whole(1) raw(1) pr k(5) by metis
next
  assume "\<exists>escaped sig. ?framed escaped sig"
  then obtain escaped sig where f: "?framed escaped sig" by blast
  let ?lines = "signed_lines escaped sig"
  have sig: "list_all printable sig" "SIGNED_BEGIN \<notin> set sig" "HASH_LINE \<notin> set sig" "SIGNATURE_BEGIN \<notin> set sig" "SIGNATURE_END \<notin> set sig"
    using f signature_printable marker_not_base64 by (auto simp: is_signature_def list_all_iff)
  have pr: "list_all printable ?lines" using f sig marker_printable by (simp add: signed_lines_def)
  have split: "str_splitlines raw = ?lines"
    using f splitlines_unlines [OF printables_plain [OF pr]] by simp
  have chars: "list_all (\<lambda>c. c = 10 \<or> 32 \<le> c \<and> c \<le> 126) raw"
    using f pr by (auto simp: unlines_def list_all_iff printable_def)
  then have "13 \<notin> set raw" "list_all (\<lambda>c. c < 128) raw" by (auto simp: list_all_iff)
  moreover have "ends_with [10] raw" using f by (simp add: ends_with_newline signed_lines_def)
  moreover have "list_all (\<lambda>l. length l \<le> 65536) ?lines" using pr by (auto simp: list_all_iff printable_def)
  moreover have "find_first (\<lambda>l. l = SIGNATURE_BEGIN) ?lines = Some (3 + length escaped)"
    using find_marker [of "[SIGNED_BEGIN, HASH_LINE, []] @ escaped" "[] # sig @ [SIGNATURE_END]"] marker_distinct escaped_no_marker f
    by (auto simp: signed_lines_def)
  moreover have "count_list ?lines SIGNED_BEGIN = 1" "count_list ?lines HASH_LINE = 1" "count_list ?lines SIGNATURE_BEGIN = 1"
    "count_list ?lines SIGNATURE_END = 1"
    using marker_distinct escaped_no_marker f sig by (auto simp: signed_lines_def count_list_0_iff)
  moreover have "slice (3 + length escaped + 1) (length ?lines - 1) ?lines = [] # sig" "slice 3 (3 + length escaped) ?lines = escaped"
    by (simp_all add: signed_lines_def slice_def eval_nat_numeral)
  ultimately show ?accepts
    using f chars unfolding clear_signed_body_def split Let_def
    by (auto simp: is_signature_def list_all_iff) (auto simp: signed_lines_def)
qed

section \<open>The release file\<close>

definition good_row :: "pystr \<Rightarrow> bool" where
  "good_row l \<longleftrightarrow> length (words_of l) = 3 \<and> is_hex64 (words_of l ! 0) \<and> list_all is_digit (words_of l ! 1)"

lemma release_rows_iff:
  "release_rows ls = Inr rows \<longleftrightarrow>
     rows = map words_of (takeWhile (starts_with [32]) ls) \<and> list_all good_row (takeWhile (starts_with [32]) ls)"
  by (induction ls arbitrary: rows) (auto simp: good_row_def)

definition RELEASE_PATH :: pystr where "RELEASE_PATH = ustr ''main/binary-amd64/Packages.xz''"
definition RELEASE_ROW :: "pystr list" where
  "RELEASE_ROW = [ustr ''3ab4e811cf4f3e5a335d382c58cc19d85f1abe7a4ef4689160ca1f637fa0e9b3'', ustr ''9672648'', RELEASE_PATH]"

text \<open>The block of rows behind the line \<open>SHA256:\<close>.\<close>

definition sha256_block :: "pystr list \<Rightarrow> pystr list" where
  "sha256_block body = takeWhile (starts_with [32]) (drop 1 (dropWhile (\<lambda>l. l \<noteq> SHA256_LINE) body))"

definition INDEX_ROW :: pyval where "INDEX_ROW = snapshot_row (SNAPSHOT_EXPECTED ! 1)"

lemma packages_index_row:
  "at_path CONTRACT [''snapshot'', ''packages_index''] = Inr INDEX_ROW"
  "item INDEX_ROW ''path'' = Inr (vstr ''dists/trixie/main/binary-amd64/Packages.xz'')"
  "item INDEX_ROW ''sha256'' = Inr (vstr ''3ab4e811cf4f3e5a335d382c58cc19d85f1abe7a4ef4689160ca1f637fa0e9b3'')"
  "item INDEX_ROW ''size'' = Inr (VInt 9672648)"
  by (simp_all add: INDEX_ROW_def at_path_def contract_items SNAPSHOT_EXPECTED_def snapshot_row_def)

lemma release_path: "ustr ''dists/trixie/main/binary-amd64/Packages.xz'' = ustr ''dists/trixie/'' @ RELEASE_PATH"
  by (simp add: RELEASE_PATH_def ustr_def)

lemma print_size: "print_int 9672648 = ustr ''9672648''"
  by (simp add: print_int_def decimal.simps ustr_def)

lemma starts_with_append [simp]: "starts_with p (p @ s)"
  by (simp add: starts_with_def)

text \<open>C31. For the pinned contract the release file is accepted exactly when it is a clear-signed message with one line \<open>SHA256:\<close>,
every row of the block behind it has a digest, a decimal size and a path, and exactly one row names the package index, with
the pinned digest and size.\<close>

theorem inrelease_pins_index:
  "verify_inrelease CONTRACT raw = Inr () \<longleftrightarrow>
     (\<exists>body. clear_signed_body raw = Inr body \<and> count_list body SHA256_LINE = 1 \<and> list_all good_row (sha256_block body) \<and>
        filter (\<lambda>row. row ! 2 = RELEASE_PATH) (map words_of (sha256_block body)) = [RELEASE_ROW])"
proof -
  have neq: "RELEASE_PATH \<noteq> ustr ''dists/trixie/'' @ RELEASE_PATH" by (auto dest: arg_cong [where f = length] simp: ustr_def)
  have row: "(case rows of [row] \<Rightarrow> vfail (py_equals (VStr (row ! 0)) (vstr d) \<and> row ! 1 = t) (Inr ()) | _ \<Rightarrow> Inl (VerificationError None)) = Inr () \<longleftrightarrow>
    (\<exists>row. rows = [row] \<and> row ! 0 = ustr d \<and> row ! 1 = t)" for rows d t
    by (auto split: list.splits)
  have three: "row = RELEASE_ROW \<longleftrightarrow> row ! 0 = RELEASE_ROW ! 0 \<and> row ! 1 = RELEASE_ROW ! 1" if "length row = 3" "row ! 2 = RELEASE_PATH" for row
    using that by (auto simp: RELEASE_ROW_def list_eq_iff_nth_eq less_Suc_eq numeral_3_eq_3 numeral_2_eq_2)
  have sel: "(\<exists>row. filter (\<lambda>row. row ! 2 = RELEASE_PATH) rows = [row] \<and> row ! 0 = RELEASE_ROW ! 0 \<and> row ! 1 = RELEASE_ROW ! 1) \<longleftrightarrow>
    filter (\<lambda>row. row ! 2 = RELEASE_PATH) rows = [RELEASE_ROW]" if "list_all (\<lambda>row. length row = 3) rows" for rows
  proof -
    have "length row = 3 \<and> row ! 2 = RELEASE_PATH" if "filter (\<lambda>row. row ! 2 = RELEASE_PATH) rows = [row]" for row
    proof -
      have "row \<in> set (filter (\<lambda>row. row ! 2 = RELEASE_PATH) rows)" by (simp add: that)
      then show ?thesis using \<open>list_all (\<lambda>row. length row = 3) rows\<close> by (simp add: list_all_iff)
    qed
    then show ?thesis using three by metis
  qed
  have good: "list_all good_row ls \<Longrightarrow> list_all (\<lambda>row. length row = 3) (map words_of ls)" for ls
    by (auto simp: list_all_iff good_row_def)
  show ?thesis
    unfolding verify_inrelease_def sha256_block_def packages_index_row
    using neq sel [OF good] row
    by (auto simp: packages_index_row release_rows_iff release_path print_size RELEASE_ROW_def Let_def)
qed

section \<open>The package index\<close>

definition stanza_matches :: "stanza list \<Rightarrow> package_expected \<Rightarrow> bool" where
  "stanza_matches stanzas = (\<lambda>(name, version, path, n, digest).
     \<exists>row. filter (\<lambda>row. map_of row (ustr ''Package'') = Some (ustr name)) stanzas = [row] \<and>
       map_of row (ustr ''Version'') = Some (ustr version) \<and> map_of row (ustr ''Architecture'') = Some (ustr ''amd64'') \<and>
       map_of row (ustr ''Filename'') = Some (ustr path) \<and> map_of row (ustr ''Size'') = Some (print_int n) \<and>
       map_of row (ustr ''SHA256'') = Some (ustr digest))"

lemma stanza_has_str [simp]: "stanza_has row field (VStr t) \<longleftrightarrow> map_of row (ustr field) = Some t"
  by (auto simp: stanza_has_def split: option.splits)

lemma check_package_iff: "check_package stanzas (package_row_value e) = Inr k \<longleftrightarrow> stanza_matches stanzas e \<and> k = fst (snd (snd (snd e)))"
proof -
  obtain name version path n digest where e: "e = (name, version, path, n, digest)" by (cases e)
  show ?thesis
    unfolding e by (auto simp: check_package_def package_row_value_def stanza_matches_def named_stanzas_def number_of_def split: list.splits)
qed

lemma map_result_iff:
  "(\<And>x k. x \<in> set xs \<Longrightarrow> f (g x) = Inr k \<longleftrightarrow> P x \<and> k = h x) \<Longrightarrow> map_result f (map g xs) = Inr ys \<longleftrightarrow> list_all P xs \<and> ys = map h xs"
  by (induction xs arbitrary: ys) auto

lemma package_sum: "sum_list (map (\<lambda>e. fst (snd (snd (snd e)))) PACKAGE_EXPECTED) = 10145436"
  by (simp add: PACKAGE_EXPECTED_def)

lemma check_index_rows_iff: "check_index_rows CONTRACT stanzas = Inr () \<longleftrightarrow> list_all (stanza_matches stanzas) PACKAGE_EXPECTED"
  using map_result_iff [of PACKAGE_EXPECTED "check_package stanzas" package_row_value "stanza_matches stanzas" "\<lambda>e. fst (snd (snd (snd e)))"]
    check_package_iff package_sum
  by (simp add: check_index_rows_def contract_items)

lemma limits: "limit CONTRACT ''max_file_bytes'' = Inr 134217728" "limit CONTRACT ''max_entries'' = Inr 100000"
  by (simp_all add: limit_def at_path_def contract_items BOUNDS_def number_of_def)

lemma orbind_Some: "orbind m f = Some (Inr y) \<longleftrightarrow> (\<exists>x. m = Some (Inr x) \<and> f x = Some (Inr y))"
  by (auto simp: orbind_def split: option.splits sum.splits)

section \<open>Stanzas are read back\<close>

definition field_lines :: "pystr \<times> pystr \<Rightarrow> pystr list" where
  "field_lines = (\<lambda>(k, v). (k @ 58 # 32 # hd (split_on 10 v)) # map (\<lambda>l. 32 # l) (tl (split_on 10 v)))"

definition stanza_text :: "stanza list \<Rightarrow> pystr" where
  "stanza_text stanzas = unlines (concat (map (\<lambda>st. concat (map field_lines st) @ [[]]) stanzas))"

definition index_char :: "nat \<Rightarrow> bool" where
  "index_char c \<longleftrightarrow> c = 10 \<or> c = 9 \<or> 32 \<le> c \<and> c < 127 \<or> 160 \<le> c \<and> c \<noteq> 8232 \<and> c \<noteq> 8233"

definition short_line :: "pystr \<Rightarrow> bool" where
  "short_line l \<longleftrightarrow> (\<exists>b. utf8_encode l = Some b \<and> length b \<le> 131072)"

definition good_stanza :: "stanza \<Rightarrow> bool" where
  "good_stanza st \<longleftrightarrow> st \<noteq> [] \<and> distinct (map fst st) \<and>
     list_all (\<lambda>(k, v). field_name k \<and> list_all index_char v \<and> list_all short_line (field_lines (k, v))) st"

lemma short_line_length: "short_line l \<Longrightarrow> \<exists>n. encoded_length l = Inr n \<and> n \<le> 131072"
  by (auto simp: short_line_def encoded_length_def)

lemma dict_set_fresh: "k \<notin> fst ` set ps \<Longrightarrow> dict_set k v ps = ps @ [(k, v)]"
  by (induction ps) auto

lemma dict_set_last: "k \<notin> fst ` set ps \<Longrightarrow> dict_set k v (ps @ [(k, v')]) = ps @ [(k, v)]"
  by (induction ps) auto

lemma map_of_new: "k \<notin> fst ` set ps \<Longrightarrow> map_of (ps @ [(k, v)]) k = Some v"
  by (induction ps) (auto simp: map_add_Some_iff)

lemma continuation_lines:
  assumes "k \<notin> fst ` set cur" "list_all short_line (map (\<lambda>l. 32 # l) ls)"
  shows "stanza_lines m (map (\<lambda>l. 32 # l) ls @ rest) \<lparr>ss_done = d, ss_current = cur @ [(k, v)], ss_last = Some k\<rparr> =
    stanza_lines m rest \<lparr>ss_done = d, ss_current = cur @ [(k, v @ concat (map (\<lambda>l. 10 # l) ls))], ss_last = Some k\<rparr>"
  using assms
proof (induction ls arbitrary: v)
  case (Cons l ls)
  obtain n where "encoded_length (32 # l) = Inr n" "n \<le> 131072" using Cons.prems short_line_length by force
  then have "stanza_line m (32 # l) \<lparr>ss_done = d, ss_current = cur @ [(k, v)], ss_last = Some k\<rparr> =
    Inr \<lparr>ss_done = d, ss_current = cur @ [(k, v @ 10 # l)], ss_last = Some k\<rparr>"
    using Cons.prems(1) by (simp add: stanza_line_def map_of_new dict_set_last vfail_def del: map_of_append)
  with Cons.IH [of "v @ 10 # l"] Cons.prems show ?case by simp
qed simp

lemma join_on_concat: "ps \<noteq> [] \<Longrightarrow> join_on c ps = hd ps @ concat (map (\<lambda>l. c # l) (tl ps))"
  by (induction c ps rule: join_on.induct) auto

lemma field_name_plain: "field_name k \<Longrightarrow> k \<noteq> [] \<and> 58 \<notin> set k \<and> hd k \<noteq> 32 \<and> hd k \<noteq> 9"
  by (cases k) (auto simp: field_name_def is_alnum_def list_all_iff)

lemma split_once_stop: "c \<notin> set xs \<Longrightarrow> split_once c (xs @ c # ys) = (xs, ys)"
  by (induction xs) (auto simp: split_once_def)

lemma join_on_parts: "p \<in> set ps \<Longrightarrow> set p \<subseteq> set (join_on c ps)"
  by (induction c ps rule: join_on.induct) auto

lemma field_read:
  assumes "field_name k" "list_all short_line (field_lines (k, v))" "k \<notin> fst ` set cur"
  shows "stanza_lines m (field_lines (k, v) @ rest) \<lparr>ss_done = d, ss_current = cur, ss_last = l\<rparr> =
    stanza_lines m rest \<lparr>ss_done = d, ss_current = cur @ [(k, v)], ss_last = Some k\<rparr>"
proof -
  let ?line = "k @ 58 # 32 # hd (split_on 10 v)"
  note k = field_name_plain [OF assms(1)]
  obtain n where n: "encoded_length ?line = Inr n" "n \<le> 131072" using assms(2) short_line_length by (auto simp: field_lines_def)
  have "split_once 58 ?line = (k, 32 # hd (split_on 10 v))"
    using k by (intro split_once_stop) simp
  then have "stanza_line m ?line \<lparr>ss_done = d, ss_current = cur, ss_last = l\<rparr> =
    Inr \<lparr>ss_done = d, ss_current = cur @ [(k, hd (split_on 10 v))], ss_last = Some k\<rparr>"
    using k n assms(1,3) by (simp add: stanza_line_def dict_set_fresh vfail_def starts_with_def)
  moreover have "v = hd (split_on 10 v) @ concat (map (\<lambda>l. 10 # l) (tl (split_on 10 v)))"
    using join_on_concat [of "split_on 10 v" 10] by simp
  ultimately show ?thesis
    using continuation_lines [OF assms(3)] assms(2) by (simp add: field_lines_def)
qed

lemma fields_read:
  assumes "distinct (map fst (cur @ st))" "list_all (\<lambda>(k, v). field_name k \<and> list_all short_line (field_lines (k, v))) st"
  shows "\<exists>l'. stanza_lines m (concat (map field_lines st) @ rest) \<lparr>ss_done = d, ss_current = cur, ss_last = l\<rparr> =
    stanza_lines m rest \<lparr>ss_done = d, ss_current = cur @ st, ss_last = l'\<rparr>"
  using assms
proof (induction st arbitrary: cur l)
  case (Cons f st)
  obtain k v where f: "f = (k, v)" by (cases f)
  have "stanza_lines m (concat (map field_lines (f # st)) @ rest) \<lparr>ss_done = d, ss_current = cur, ss_last = l\<rparr> =
    stanza_lines m (concat (map field_lines st) @ rest) \<lparr>ss_done = d, ss_current = cur @ [(k, v)], ss_last = Some k\<rparr>"
    using Cons.prems by (subst f) (simp add: f field_read)
  with Cons.IH [of "cur @ [(k, v)]" "Some k"] Cons.prems show ?case by (simp add: f)
qed auto

lemma stanzas_read:
  assumes "list_all good_stanza sts" "length d + length sts \<le> m"
  shows "stanza_lines m (concat (map (\<lambda>st. concat (map field_lines st) @ [[]]) sts)) \<lparr>ss_done = d, ss_current = [], ss_last = l\<rparr> =
    Inr \<lparr>ss_done = d @ sts, ss_current = [], ss_last = (if sts = [] then l else None)\<rparr>"
  using assms
proof (induction sts arbitrary: d l)
  case (Cons st sts)
  let ?rest = "concat (map (\<lambda>st. concat (map field_lines st) @ [[]]) sts)"
  have st: "distinct (map fst ([] @ st))" "list_all (\<lambda>(k, v). field_name k \<and> list_all short_line (field_lines (k, v))) st" "st \<noteq> []"
    using Cons.prems(1) by (auto simp: good_stanza_def list_all_iff)
  obtain l' where l': "stanza_lines m (concat (map field_lines st) @ [] # ?rest) \<lparr>ss_done = d, ss_current = [], ss_last = l\<rparr> =
    stanza_lines m ([] # ?rest) \<lparr>ss_done = d, ss_current = [] @ st, ss_last = l'\<rparr>"
    using fields_read [OF st(1,2)] by blast
  have "encoded_length [] = Inr 0" by (simp add: encoded_length_def utf8_encode_def)
  then have "stanza_line m [] \<lparr>ss_done = d, ss_current = [] @ st, ss_last = l'\<rparr> = Inr \<lparr>ss_done = d @ [st], ss_current = [], ss_last = None\<rparr>"
    using Cons.prems(2) st(3) by (simp add: stanza_line_def vfail_def)
  with l' Cons.IH [of "d @ [st]" None] Cons.prems show ?case by simp
qed simp

lemma index_char_plain: "index_char c \<Longrightarrow> c \<noteq> 10 \<Longrightarrow> \<not> is_break c"
  by (auto simp: index_char_def is_break_def)

lemma field_lines_chars:
  assumes "field_name k" "list_all index_char v"
  shows "list_all (list_all (\<lambda>c. index_char c \<and> c \<noteq> 10)) (field_lines (k, v))"
proof -
  have "list_all (\<lambda>c. index_char c \<and> c \<noteq> 10) p" if "p \<in> set (split_on 10 v)" for p
  proof -
    have "set p \<subseteq> set v" using join_on_parts [OF that, of 10] by simp
    then show ?thesis using assms(2) split_on_parts [OF that] by (auto simp: list_all_iff)
  qed
  moreover have "list_all (\<lambda>c. index_char c \<and> c \<noteq> 10) k"
    using assms(1) by (cases k) (auto simp: field_name_def is_alnum_def index_char_def list_all_iff)
  moreover obtain p ps where "split_on 10 v = p # ps" by (cases "split_on 10 v") simp_all
  moreover have "index_char 58" "index_char 32" by (simp_all add: index_char_def)
  ultimately show ?thesis by (simp add: field_lines_def list.pred_map list_all_iff) blast
qed

lemma stanza_text_chars:
  assumes "list_all good_stanza sts"
  shows "list_all (list_all (\<lambda>c. index_char c \<and> c \<noteq> 10)) (concat (map (\<lambda>st. concat (map field_lines st) @ [[]]) sts))"
  using assms field_lines_chars by (fastforce simp: list_all_iff good_stanza_def)

lemma utf8_char_high: "128 \<le> c \<Longrightarrow> b \<in> set (utf8_char c) \<Longrightarrow> 128 \<le> b"
  by (auto simp: utf8_char_def split: if_splits)

lemma utf8_control: "utf8_encode s = Some b \<Longrightarrow> x < 128 \<Longrightarrow> x \<in> set b \<Longrightarrow> x \<in> set s"
  by (fastforce simp: utf8_encode_def utf8_char_def dest: utf8_char_high split: if_splits)

text \<open>Stanzas written one field a line, continuation lines behind a space and a blank line behind each stanza, are read back by the
parser of the package index, for every list of stanzas within the bounds that has well-formed distinct names.\<close>

theorem stanzas_round_trip:
  assumes "list_all good_stanza sts" "sts \<noteq> []" "length sts \<le> maximum" "utf8_encode (stanza_text sts) = Some raw"
  shows "debian_stanzas raw maximum = Inr sts"
proof -
  let ?lines = "concat (map (\<lambda>st. concat (map field_lines st) @ [[]]) sts)"
  have chars: "list_all (list_all (\<lambda>c. index_char c \<and> c \<noteq> 10)) ?lines" by (rule stanza_text_chars [OF assms(1)])
  then have "list_all (list_all (\<lambda>c. \<not> is_break c)) ?lines" by (auto simp: list_all_iff index_char_plain)
  then have split: "str_splitlines (stanza_text sts) = ?lines" unfolding stanza_text_def by (rule splitlines_unlines)
  have all: "list_all index_char (stanza_text sts)"
    using chars unfolding stanza_text_def list_all_unlines by (auto simp: list_all_iff index_char_def)
  have "13 \<notin> set (stanza_text sts)" using all by (auto simp: list_all_iff index_char_def)
  then have "13 \<notin> set raw" using utf8_control [OF assms(4), of 13] by auto
  moreover have "ends_with [10] raw"
  proof -
    obtain st sts' where "sts = sts' @ [st]" using assms(2) by (metis rev_exhaust)
    then have "stanza_text sts = stanza_text sts' @ unlines (concat (map field_lines st)) @ [10]" by (simp add: stanza_text_def)
    then show ?thesis using assms(4) by (auto simp: utf8_encode_def ends_with_newline utf8_char_def split: if_splits)
  qed
  moreover have "list_all (\<lambda>c. c = 10 \<or> c = 9 \<or> 32 \<le> c \<and> c < 127 \<or> 160 \<le> c) (stanza_text sts)"
    using all by (auto simp: list_all_iff index_char_def)
  ultimately show ?thesis
    using utf8_roundtrip [OF assms(4)] stanzas_read [OF assms(1), of "[]" maximum None] assms(2,3) split
    by (simp add: debian_stanzas_def vfail_def)
qed

theorem stanzas_round_trip_witness:
  "debian_stanzas (stanza_text [[(ustr ''Package'', ustr ''git''), (ustr ''Tag'', ustr ''a'' @ 10 # ustr ''b'')]]) 1 =
     Inr [[(ustr ''Package'', ustr ''git''), (ustr ''Tag'', ustr ''a'' @ 10 # ustr ''b'')]]"
proof (rule stanzas_round_trip)
  let ?st = "[(ustr ''Package'', ustr ''git''), (ustr ''Tag'', ustr ''a'' @ 10 # ustr ''b'')]"
  have lines: "map field_lines ?st = [[ustr ''Package: git''], [ustr ''Tag: a'', ustr '' b'']]"
    by (simp add: field_lines_def ustr_def)
  have short: "short_line l" if "list_all (\<lambda>c. c < 128) l" "length l \<le> 131072" for l
    using that by (auto simp: short_line_def utf8_encode_ascii)
  have "list_all short_line (field_lines f)" if "f \<in> set ?st" for f
    using that lines by (auto intro!: short simp: ustr_def)
  moreover have "list_all (\<lambda>(k, v). field_name k \<and> list_all index_char v) ?st"
    by (simp add: ustr_def field_name_def is_alnum_def index_char_def)
  ultimately show "list_all good_stanza [?st]" by (auto simp: good_stanza_def)
  show "utf8_encode (stanza_text [?st]) = Some (stanza_text [?st])"
    using lines by (intro utf8_encode_ascii) (simp add: stanza_text_def ustr_def)
qed simp_all

end
