(* ===== verification/CacheSafety.thy ===== *)
theory CacheSafety
  imports CacheReads MetadataSafety StoreSafety
begin

text \<open>
  The cache: the loops have enough fuel, a cached file in a quiet directory is accepted exactly when its status, length
  and digest are the expected ones, and what is known after all metadata was verified while other processes changed
  the directories.
\<close>

section \<open>Fuel\<close>

lemma ebind_cong: "(\<And>x u. m s = (Inr x, u) \<Longrightarrow> f x u = g x u) \<Longrightarrow> ebind m f s = ebind m g s"
  by (auto simp: ebind_def split: prod.splits sum.splits)

lemma stable_loop_fuel:
  "length raw \<le> maximum \<Longrightarrow> maximum < length raw + n \<Longrightarrow> n \<le> k \<Longrightarrow> stable_loop E i maximum k raw s = stable_loop E i maximum n raw s"
proof (induction n arbitrary: k raw s)
  case (Suc n)
  then obtain k' where k: "k = Suc k'" by (cases k) auto
  show ?case
    unfolding k stable_loop.simps
  proof (rule ebind_cong)
    fix chunk u
    show "(if chunk = [] then ret raw else ebind (efail (length (raw @ chunk) \<le> maximum)) (\<lambda>_. stable_loop E i maximum k' (raw @ chunk))) u =
      (if chunk = [] then ret raw else ebind (efail (length (raw @ chunk) \<le> maximum)) (\<lambda>_. stable_loop E i maximum n (raw @ chunk))) u"
      using Suc.prems by (cases chunk) (auto simp: k intro!: ebind_cong Suc.IH)
  qed
qed simp

lemma cached_loop_fuel:
  "length raw \<le> bound \<Longrightarrow> bound < length raw + n \<Longrightarrow> n \<le> k \<Longrightarrow> cached_loop E i stated bound k raw s = cached_loop E i stated bound n raw s"
proof (induction n arbitrary: k raw s)
  case (Suc n)
  then obtain k' where k: "k = Suc k'" by (cases k) auto
  show ?case
    unfolding k cached_loop.simps
  proof (rule ebind_cong, rule ebind_cong)
    fix request u chunk v
    show "(if chunk = [] then ret raw else ebind (efail (length (raw @ chunk) \<le> bound)) (\<lambda>_. cached_loop E i stated bound k' (raw @ chunk))) v =
      (if chunk = [] then ret raw else ebind (efail (length (raw @ chunk) \<le> bound)) (\<lambda>_. cached_loop E i stated bound n (raw @ chunk))) v"
      using Suc.prems by (cases chunk) (auto simp: k intro!: ebind_cong Suc.IH)
  qed
qed simp

section \<open>A cached file in a quiet directory\<close>

definition cached_file_ok :: "custody_fs \<Rightarrow> int \<Rightarrow> digest_fun \<Rightarrow> pystr \<Rightarrow> int \<Rightarrow> pystr \<Rightarrow> bool" where
  "cached_file_ok fs euid H name n digest \<longleftrightarrow>
     name \<noteq> [] \<and> name \<noteq> ustr ''.'' \<and> 47 \<notin> set name \<and>
     (\<exists>i. map_of (fs_names fs) name = Some i \<and>
        (let st = nd_stat (fs_nodes fs i); raw = nd_data (fs_nodes fs i) in
         st_type st = ''regular'' \<and> st_uid st = euid \<and> st_perm st = 256 \<and> st_nlink st = 1 \<and> st_size st = n \<and>
         int (length raw) = n \<and> H raw = digest))"

lemma quiet_cached_loop:
  assumes "quiet E" "nd_data (fs_nodes (cs_fs s) i) = raw" "k \<le> length raw" "k \<le> bound" "bound < k + n"
  shows "\<exists>r u. cached_loop E i (VInt (int bound)) bound n (take k raw) s = (r, u) \<and> cs_fs u = cs_fs s \<and>
    (if length raw \<le> bound then r = Inr raw else r = Inl (VerificationError None))"
  using assms(2-)
proof (induction n arbitrary: k s)
  case (Suc n)
  define s' where "s' = s\<lparr>cs_calls := Suc (cs_calls s)\<rparr>"
  define r where "r = nat (min 1048576 (int bound + 1 - int k))"
  define a where "a = min (max 1 (min r (oe_amount E (cs_calls s)))) r"
  have chunk: "sys_read E i k r s = (Inr (take a (drop k raw)), s')"
    using assms(1) Suc.prems(1) by (simp add: sys_read_def quiet_call Let_def s'_def a_def)
  have a: "0 < a" using Suc.prems by (simp add: a_def r_def)
  show ?case
  proof (cases "k = length raw")
    case True
    with chunk Suc.prems show ?thesis by (simp add: ebind_def lift_def r_def s'_def ret_def)
  next
    case False
    define j where "j = min (length raw) (k + a)"
    have j: "take k raw @ take a (drop k raw) = take j raw" "k < j" "j \<le> length raw"
      using False a Suc.prems(2) by (auto simp: j_def take_add min_def)
    have ne: "take a (drop k raw) \<noteq> []" using False Suc.prems(2) a by simp
    show ?thesis
    proof (cases "j \<le> bound")
      case True
      have "\<exists>r u. cached_loop E i (VInt (int bound)) bound n (take j raw) s' = (r, u) \<and> cs_fs u = cs_fs s' \<and>
        (if length raw \<le> bound then r = Inr raw else r = Inl (VerificationError None))"
        using Suc.prems j True by (intro Suc.IH) (auto simp: s'_def)
      then show ?thesis using chunk Suc.prems ne j True
        by (simp add: ebind_def lift_def r_def s'_def efail_def guard_def)
    next
      case False
      then show ?thesis using chunk Suc.prems ne j
        by (simp add: ebind_def lift_def r_def s'_def efail_def guard_def)
    qed
  qed
qed simp

text \<open>In a directory that nobody else changes and where no call fails, however short the reads, a cached file is verified exactly
when it is a regular file of the user with mode 0400 and one link, and its length and digest are the expected ones.\<close>

theorem cached_file_iff:
  assumes "quiet E"
  shows "fst (verify_cached_file E euid H \<lparr>ce_name = VStr name, ce_size = VInt n, ce_sha256 = VStr digest\<rparr> s) = Inr () \<longleftrightarrow>
    cached_file_ok (cs_fs s) euid H name n digest"
proof (cases "map_of (fs_names (cs_fs s)) name")
  case None
  then show ?thesis using assms
    by (simp add: verify_cached_file_def cached_file_ok_def ebind_def efail_def guard_def sys_stat_def quiet_call)
next
  case (Some i)
  define st where "st = nd_stat (fs_nodes (cs_fs s) i)"
  define raw where "raw = nd_data (fs_nodes (cs_fs s) i)"
  define good where "good \<longleftrightarrow> name \<noteq> [] \<and> name \<noteq> ustr ''.'' \<and> 47 \<notin> set name \<and> st_type st = ''regular'' \<and> st_uid st = euid \<and>
    st_perm st = 256 \<and> st_nlink st = 1 \<and> st_size st = n"
  have ok: "cached_file_ok (cs_fs s) euid H name n digest \<longleftrightarrow> good \<and> int (length raw) = n \<and> H raw = digest"
    using Some by (auto simp: cached_file_ok_def good_def st_def raw_def Let_def)
  let ?s = "s\<lparr>cs_calls := Suc (Suc (Suc (cs_calls s)))\<rparr>"
  show ?thesis
  proof (cases "good \<and> 0 \<le> n")
    case True
    then have n: "n = int (nat n)" by simp
    obtain r u where u: "cached_loop E i (VInt n) (nat n) (nat n + 1) [] ?s = (r, u)" "cs_fs u = cs_fs s"
      "if length raw \<le> nat n then r = Inr raw else r = Inl (VerificationError None)"
      using quiet_cached_loop [OF assms, of ?s i raw 0 "nat n" "nat n + 1"] n by (auto simp: raw_def)
    show ?thesis unfolding ok using True Some assms u
      by (auto simp: verify_cached_file_def ebind_def efail_def guard_def sys_stat_def sys_open_def sys_fstat_def sys_close_def quiet_call
          finally_do_def same_identity_def good_def st_def [symmetric] simp del: cached_loop.simps split: if_splits)
  next
    case False
    have "st_size st = n \<Longrightarrow> n < 0 \<Longrightarrow> fst (ebind m (\<lambda>raw. ebind m' (\<lambda>post. ebind (efail (b post)) (\<lambda>_. efail (int (length raw) = n \<and> c raw)))) t) \<noteq> Inr ()"
      for m :: "(custody_state, bytes) eff" and m' :: "(custody_state, stat) eff" and b c t
      by (auto simp: ebind_def efail_def guard_def split: prod.splits sum.splits if_splits)
    then show ?thesis unfolding ok using False Some assms
      by (auto simp: verify_cached_file_def ebind_def efail_def guard_def sys_stat_def sys_open_def quiet_call
          good_def st_def [symmetric] simp del: cached_loop.simps split: if_splits prod.splits sum.splits)
  qed
qed

definition sample_cache :: custody_state where
  "sample_cache = \<lparr>cs_fs = \<lparr>fs_dir = sample_stat\<lparr>st_type := ''directory'', st_perm := 448\<rparr>, fs_names = [(ustr ''index.json'', 0)],
     fs_nodes = (\<lambda>_. \<lparr>nd_stat = sample_stat\<lparr>st_size := 3\<rparr>, nd_data = [1, 2, 3]\<rparr>), fs_next = 1\<rparr>, cs_calls = 0, cs_log = []\<rparr>"

theorem cached_file_iff_witness:
  "fst (verify_cached_file (quiet_env 2) 0 (\<lambda>raw. raw @ raw) \<lparr>ce_name = VStr (ustr ''index.json''), ce_size = VInt 3, ce_sha256 = VStr [1, 2, 3, 1, 2, 3]\<rparr>
     sample_cache) = Inr ()"
proof -
  have "cached_file_ok (cs_fs sample_cache) 0 (\<lambda>raw. raw @ raw) (ustr ''index.json'') 3 [1, 2, 3, 1, 2, 3]"
    by (simp add: cached_file_ok_def sample_cache_def sample_stat_def ustr_def)
  then show ?thesis using cached_file_iff [OF sample_quiet] by blast
qed

section \<open>Verified sizes are integers\<close>

lemma float_loop:
  assumes "cached_loop E i (VFloat (Some n)) bound fuel raw s = (Inr r, t)" "length raw \<le> bound" "bound < length raw + fuel"
  shows "int (length r) + 1048576 \<le> n + 1"
  using assms
proof (induction fuel arbitrary: raw s)
  case (Suc fuel)
  from Suc.prems(1) obtain chunk u where c: "1048576 \<le> n + 1 - int (length raw)"
    "(if chunk = [] then ret raw else ebind (efail (length (raw @ chunk) \<le> bound)) (\<lambda>_. cached_loop E i (VFloat (Some n)) bound fuel (raw @ chunk))) u = (Inr r, t)"
    by (auto simp: ebind_Inr lift_Inr simp del: lift_eq)
  show ?case
  proof (cases "chunk = []")
    case True
    with c show ?thesis by simp
  next
    case False
    with c(2) have "cached_loop E i (VFloat (Some n)) bound fuel (raw @ chunk) u = (Inr r, t)" "length (raw @ chunk) \<le> bound"
      by (auto simp: ebind_Inr)
    moreover have "bound < length (raw @ chunk) + fuel" using Suc.prems(3) False by (cases chunk) auto
    ultimately show ?thesis by (rule Suc.IH)
  qed
qed simp

lemma read_request_kinds: "read_request v k = Inr r \<Longrightarrow> (\<exists>n. v = VInt n) \<or> (\<exists>n. v = VFloat (Some n))"
  by (cases "(v, k)" rule: read_request.cases) auto

lemma verified_size: "verify_cached_file E euid H e s = (Inr (), t) \<Longrightarrow> \<exists>n. ce_size e = VInt n"
proof -
  assume v: "verify_cached_file E euid H e s = (Inr (), t)"
  then obtain z i u raw w where size: "number_value (ce_size e) = Some z"
    and loop: "cached_loop E i (ce_size e) (nat z) (Suc (nat z)) [] u = (Inr raw, w)" and len: "int (length raw) = z"
    by (auto simp: verify_cached_file_def ebind_Inr finally_Inr simp del: cached_loop.simps split: pyval.splits)
  obtain r where "read_request (ce_size e) 0 = Inr r"
    using loop by (auto simp: ebind_Inr lift_Inr simp del: lift_eq)
  from read_request_kinds [OF this] show "\<exists>n. ce_size e = VInt n"
  proof (elim disjE exE)
    fix n
    assume n: "ce_size e = VFloat (Some n)"
    from float_loop [OF loop [unfolded n]] size len n show ?thesis by simp
  qed blast
qed

section \<open>The contract behind verified files\<close>

lemma ints_item: "item v k = Inr x \<Longrightarrow> item (ints v) k = Inr (ints x)"
  by (cases v) (auto simp: item_def map_of_map split: option.splits)

lemma item_ints: "item (ints v) k = Inr y \<Longrightarrow> \<exists>x. item v k = Inr x \<and> ints x = y"
  by (cases v rule: ints.cases) (auto simp: item_def map_of_map split: option.splits)

lemma ints_VStr: "ints x = VStr t \<longleftrightarrow> x = VStr t"
  by (cases x rule: ints.cases) auto

lemma ints_VList: "ints x = VList ys \<longleftrightarrow> (\<exists>xs. x = VList xs \<and> map ints xs = ys)"
  by (cases x rule: ints.cases) auto

lemma ints_VInt: "ints x = VInt n \<Longrightarrow> number_of x = Inr n \<and> number_value x = Some n"
  by (cases x rule: ints.cases) (auto simp: number_of_def)

definition sized_row :: "(string \<times> pyval) list \<Rightarrow> bool" where
  "sized_row ps \<longleftrightarrow> distinct (map fst ps) \<and> list_all (\<lambda>(k, v). (\<exists>t. v = VStr t) \<or> k = ''size'' \<and> (\<exists>n. v = VInt n)) ps"

lemma sized_row_exact:
  assumes "ints row = vdict ps" "sized_row ps" "item row ''size'' = Inr (VInt n)"
  shows "row = vdict ps"
proof -
  obtain qs where row: "row = VDict qs" using assms(1) by (cases row rule: ints.cases) (auto simp: vdict_def)
  have eq: "map (\<lambda>(k, v). (k, ints v)) qs = map (\<lambda>(k, v). (ustr k, v)) ps" using assms(1) by (simp add: row vdict_def)
  have len: "length qs = length ps" using eq by (metis length_map)
  have keys: "map fst qs = map ustr (map fst ps)"
    using arg_cong [OF eq, of "map fst"] by (simp add: case_prod_unfold comp_def)
  have "qs = map (\<lambda>(k, v). (ustr k, v)) ps"
  proof (rule nth_equalityI)
    fix j
    assume j: "j < length qs"
    obtain k v where p: "ps ! j = (k, v)" by force
    obtain k' x where q: "qs ! j = (k', x)" by force
    have "(k', ints x) = (ustr k, v)" using arg_cong [OF eq, of "\<lambda>l. l ! j"] j len by (simp add: p q)
    then have x: "k' = ustr k" "ints x = v" by simp_all
    have "(k, v) \<in> set ps" using nth_mem [of j ps] j len p by simp
    then have "(\<exists>t. v = VStr t) \<or> k = ''size'' \<and> (\<exists>n. v = VInt n)"
      using assms(2) by (auto simp: sized_row_def list_all_iff)
    then have "x = v"
    proof
      assume size: "k = ''size'' \<and> (\<exists>n. v = VInt n)"
      have "distinct (map fst qs)" using assms(2) keys by (metis distinct_ustr sized_row_def)
      then have "map_of qs (ustr ''size'') = Some x" using j q x(1) size by (metis map_of_eq_Some_iff nth_mem)
      then have "x = VInt n" using assms(3) by (simp add: row item_def)
      then show ?thesis using x(2) by simp
    qed (use x(2) in \<open>auto simp: ints_VStr\<close>)
    with x q p j len show "qs ! j = map (\<lambda>(k, v). (ustr k, v)) ps ! j" by simp
  qed (simp add: len)
  then show ?thesis by (simp add: row vdict_def)
qed

lemma artifact_sized: "row \<in> set artifact_rows \<Longrightarrow> \<exists>ps. row = vdict ps \<and> sized_row ps"
proof -
  have "sized_row ([(''cache_name'', vstr a), (''url'', vstr b), (''media_type'', vstr c), (''size'', VInt n), (''sha256'', vstr d)] @
      (if l then [(''diff_id'', vstr DIFF_ID)] else []))"
    "sized_row [(''cache_name'', vstr a), (''path'', vstr b), (''url'', vstr c), (''size'', VInt n), (''sha256'', vstr d)]"
    "sized_row [(''name'', vstr a), (''version'', vstr b), (''architecture'', vstr ''amd64''), (''path'', vstr c), (''filename'', vstr d),
      (''cache_name'', vstr d), (''url'', vstr f), (''size'', VInt n), (''sha256'', vstr g)]" for a b c d f g l n
    by (simp_all add: sized_row_def)
  then show "row \<in> set artifact_rows \<Longrightarrow> \<exists>ps. row = vdict ps \<and> sized_row ps"
    by (auto simp: artifact_rows_def oci_row_def snapshot_row_def package_row_value_def simp del: append.simps)
qed

lemma map_item_ints: "map_result (item v) ks = Inr xs \<Longrightarrow> map_result (item (ints v)) ks = Inr (map ints xs)"
  by (induction ks arbitrary: xs) (auto dest: ints_item)

lemma packages_case: "(case p of VList rows \<Rightarrow> Inr (f rows) | _ \<Rightarrow> Inl e) = Inr ys \<longleftrightarrow> (\<exists>rows. p = VList rows \<and> ys = f rows)"
  by (cases p) auto

lemma source_rows_ints:
  assumes "source_rows contract = Inr rows"
  shows "source_rows (ints contract) = Inr (map ints rows)"
proof -
  from assms obtain oci images snap indexes ps where
    "item contract ''oci'' = Inr oci" "map_result (item oci) [''index'', ''manifest'', ''config'', ''layer''] = Inr images"
    "item contract ''snapshot'' = Inr snap" "map_result (item snap) [''inrelease'', ''packages_index''] = Inr indexes"
    "item contract ''packages'' = Inr (VList ps)" "rows = images @ indexes @ ps"
    unfolding source_rows_def by (auto simp: packages_case simp del: map_result.simps)
  then show ?thesis by (simp add: source_rows_def ints_item map_item_ints del: map_result.simps)
qed

lemma map_result_entry: "map_result f xs = Inr ys \<Longrightarrow> x \<in> set xs \<Longrightarrow> \<exists>y\<in>set ys. f x = Inr y"
  by (induction xs arbitrary: ys) auto

lemma exact_rows:
  assumes "ints contract = CONTRACT" "cache_entries contract = Inr entries" "\<And>e. e \<in> set entries \<Longrightarrow> \<exists>n. ce_size e = VInt n"
  shows "source_rows contract = Inr artifact_rows"
proof -
  obtain rows where rows: "source_rows contract = Inr rows" "map_result cache_entry_of rows = Inr entries"
    using assms(2) by (auto simp: cache_entries_def)
  have all: "map ints rows = artifact_rows" using source_rows_ints [OF rows(1)] assms(1) rows_ok by simp
  have "ints row = row" if row: "row \<in> set rows" for row
  proof -
    obtain e where "e \<in> set entries" "cache_entry_of row = Inr e" using map_result_entry [OF rows(2) row] by blast
    moreover from this obtain n where "ce_size e = VInt n" using assms(3) by blast
    ultimately have "item row ''size'' = Inr (VInt n)" by (auto simp: cache_entry_of_def)
    moreover have "ints row \<in> set artifact_rows" using row by (simp flip: all)
    ultimately show ?thesis using artifact_sized sized_row_exact by metis
  qed
  then have "map ints rows = rows" by (simp add: map_idI)
  with all rows(1) show ?thesis by simp
qed

lemma at_path_simps: "at_path v [a, b] = rbind (item v a) (\<lambda>x. item x b)" "at_path v [a, b, c] = rbind (at_path v [a, b]) (\<lambda>x. item x c)"
  by (simp_all add: at_path_def)

lemma exact_members:
  assumes "source_rows contract = Inr artifact_rows"
  shows "at_path contract [''oci'', ''index''] = at_path CONTRACT [''oci'', ''index'']"
    "at_path contract [''oci'', ''manifest''] = at_path CONTRACT [''oci'', ''manifest'']"
    "at_path contract [''oci'', ''config''] = at_path CONTRACT [''oci'', ''config'']"
    "at_path contract [''oci'', ''layer''] = at_path CONTRACT [''oci'', ''layer'']"
    "at_path contract [''snapshot'', ''inrelease''] = at_path CONTRACT [''snapshot'', ''inrelease'']"
    "at_path contract [''snapshot'', ''packages_index''] = at_path CONTRACT [''snapshot'', ''packages_index'']"
    "item contract ''packages'' = item CONTRACT ''packages''"
proof -
  have parts: "at_path v [''oci'', ''index''] = Inr (R ! 0)" "at_path v [''oci'', ''manifest''] = Inr (R ! 1)" "at_path v [''oci'', ''config''] = Inr (R ! 2)"
    "at_path v [''oci'', ''layer''] = Inr (R ! 3)" "at_path v [''snapshot'', ''inrelease''] = Inr (R ! 4)"
    "at_path v [''snapshot'', ''packages_index''] = Inr (R ! 5)" "item v ''packages'' = Inr (VList (drop 6 R))"
    if "source_rows v = Inr R" for v R
    using that by (auto simp: source_rows_def at_path_simps packages_case)
  from parts [OF assms] parts [OF rows_ok] show "at_path contract [''oci'', ''index''] = at_path CONTRACT [''oci'', ''index'']"
    "at_path contract [''oci'', ''manifest''] = at_path CONTRACT [''oci'', ''manifest'']"
    "at_path contract [''oci'', ''config''] = at_path CONTRACT [''oci'', ''config'']"
    "at_path contract [''oci'', ''layer''] = at_path CONTRACT [''oci'', ''layer'']"
    "at_path contract [''snapshot'', ''inrelease''] = at_path CONTRACT [''snapshot'', ''inrelease'']"
    "at_path contract [''snapshot'', ''packages_index''] = at_path CONTRACT [''snapshot'', ''packages_index'']"
    "item contract ''packages'' = item CONTRACT ''packages''"
    by simp_all
qed

lemma limit_ints: "limit (ints v) k = Inr n \<Longrightarrow> limit v k = Inr n"
proof -
  assume "limit (ints v) k = Inr n"
  then obtain b x z where b: "item (ints v) ''bounds'' = Inr b" "item b k = Inr x" "number_of x = Inr z" "n = nat z"
    by (auto simp: limit_def at_path_simps)
  obtain b' where b': "item v ''bounds'' = Inr b'" "ints b' = b" using item_ints [OF b(1)] by blast
  obtain x' where x': "item b' k = Inr x'" "ints x' = x" using item_ints [of b' k x] b(2) b'(2) by blast
  have "number_of x' = Inr z"
    using b(3) x'(2) by (cases x' rule: ints.cases) (auto simp: number_of_def)
  with b' x' b(4) show "limit v k = Inr n" by (simp add: limit_def at_path_simps)
qed

lemma exact_documents:
  assumes "ints contract = CONTRACT" "source_rows contract = Inr artifact_rows"
  shows "verify_inrelease contract raw = verify_inrelease CONTRACT raw"
    "verify_packages_index xz contract raw = verify_packages_index xz CONTRACT raw"
    "verify_oci_documents loads b64 contract i m c = verify_oci_documents loads b64 CONTRACT i m c"
proof -
  note members = exact_members [OF assms(2)]
  have lim: "limit contract ''max_file_bytes'' = limit CONTRACT ''max_file_bytes''" "limit contract ''max_entries'' = limit CONTRACT ''max_entries''"
    using limits limit_ints [of contract] assms(1) by simp_all
  show "verify_inrelease contract raw = verify_inrelease CONTRACT raw" by (simp add: verify_inrelease_def members)
  obtain stated where stated: "item contract ''package_total_bytes'' = Inr stated" "ints stated = VInt 10145436"
    using item_ints [of contract "''package_total_bytes''"] contract_items(7) assms(1) by auto
  then have "py_equals (VInt n) stated \<longleftrightarrow> py_equals (VInt n) (VInt 10145436)" for n by (cases stated rule: ints.cases) auto
  then show "verify_packages_index xz contract raw = verify_packages_index xz CONTRACT raw"
    using stated(1) contract_items(7) unfolding verify_packages_index_def lim check_index_rows_def members by simp
  show "verify_oci_documents loads b64 contract i m c = verify_oci_documents loads b64 CONTRACT i m c"
    unfolding verify_oci_documents_def lim check_index_def check_manifest_def check_config_def at_path_simps(2) members ..
qed

section \<open>All metadata\<close>

lemma cache_root_files:
  assumes "verify_cache_root V root entries s = (Inr (), t)"
  shows "\<exists>u. tree_later V s u \<and>
    for_each (\<lambda>e. at_dir ''cache'' (verify_cached_file (vr_os V ''cache'') (vr_euid V) (vr_sha256 V) e)) entries u = (Inr (), t)"
proof -
  obtain s1 s2 s3 s4 raw names where steps: "for_each (verify_directory V 448) ROOT_NAMES s = (Inr (), s1)"
    "at_dir ''artifacts'' (read_stable_regular (vr_os V ''artifacts'') (vr_euid V) SENTINEL 384 (length SENTINEL_BYTES)) s1 = (Inr raw, s2)"
    "verify_directory V 448 ''cache'' s2 = (Inr (), s3)" "at_dir ''cache'' (sys_listdir (vr_os V ''cache'')) s3 = (Inr names, s4)"
    "for_each (\<lambda>e. at_dir ''cache'' (verify_cached_file (vr_os V ''cache'') (vr_euid V) (vr_sha256 V) e)) entries s4 = (Inr (), t)"
    using assms unfolding verify_cache_root_def ebind_Inr efail_Inr by auto
  note order = withinD [OF for_each_later [OF directory_later] steps(1)] withinD [OF at_dir_later [OF reading_later(1)] steps(2)]
    withinD [OF directory_later steps(3)] withinD [OF at_dir_later [OF sys_looks_on(6)] steps(4)]
  from tree_order.R_trans [OF tree_order.R_trans [OF tree_order.R_trans [OF order(1,2)] order(3)] order(4)] steps(5) show ?thesis by blast
qed

lemma cache_root_sizes:
  assumes "verify_cache_root V root entries s = (Inr (), t)" "e \<in> set entries"
  shows "\<exists>n. ce_size e = VInt n"
proof -
  obtain u where "for_each (\<lambda>e. at_dir ''cache'' (verify_cached_file (vr_os V ''cache'') (vr_euid V) (vr_sha256 V) e)) entries u = (Inr (), t)"
    using cache_root_files [OF assms(1)] by blast
  from for_each_at [OF this assms(2) at_dir_later [OF reading_later(2)]] show ?thesis by (auto simp: at_dir_at dest: verified_size)
qed

lemma artifact_members:
  assumes "row \<in> set artifact_rows"
  obtains name n digest where "item row ''cache_name'' = Inr (VStr name)" "item row ''size'' = Inr (VInt n)" "item row ''sha256'' = Inr (VStr digest)"
  using assms that by (auto simp: artifact_rows_def oci_row_def snapshot_row_def package_row_value_def)

text \<open>Every file of the cache was read whole, with the length and digest of its row.\<close>

lemma cache_root_read:
  assumes "verify_cache_root V root entries u = (Inr (), w)" "tree_later V s u" "tree_later V w t"
    and "map_result cache_entry_of artifact_rows = Inr entries" "row \<in> set artifact_rows"
  shows "\<exists>raw. row_read V s t row raw"
proof -
  obtain name n digest where row: "item row ''cache_name'' = Inr (VStr name)" "item row ''size'' = Inr (VInt n)" "item row ''sha256'' = Inr (VStr digest)"
    using artifact_members [OF assms(5)] .
  let ?e = "\<lparr>ce_name = VStr name, ce_size = VInt n, ce_sha256 = VStr digest\<rparr>"
  have "?e \<in> set entries" using map_result_entry [OF assms(4,5)] row by (auto simp: cache_entry_of_def)
  moreover obtain u' where u': "tree_later V u u'" "for_each (\<lambda>e. at_dir ''cache'' (verify_cached_file (vr_os V ''cache'') (vr_euid V) (vr_sha256 V) e)) entries u' = (Inr (), w)"
    using cache_root_files [OF assms(1)] by blast
  ultimately obtain v v' where v: "at_dir ''cache'' (verify_cached_file (vr_os V ''cache'') (vr_euid V) (vr_sha256 V) ?e) v = (Inr (), v')" "tree_later V u' v" "tree_later V v' w"
    using for_each_at [OF u'(2) _ at_dir_later [OF reading_later(2)]] by blast
  then obtain x where x: "verify_cached_file (vr_os V ''cache'') (vr_euid V) (vr_sha256 V) ?e (v ''cache'') = (Inr (), x)" "v' = v(''cache'' := x)"
    by (auto simp: at_dir_at)
  have first: "tree_later V s v" using tree_order.R_trans assms(2) u'(1) v(2) by blast
  then have "later (vr_os V ''cache'') (s ''cache'') (v ''cache'')" by (simp add: tree_later_def)
  from cached_read(1) [OF x(1) this] obtain raw where raw: "file_read (vr_os V ''cache'') (s ''cache'') (vr_euid V) 256 name (cs_calls (v ''cache'')) (cs_calls x) raw"
    "int (length raw) = n" "vr_sha256 V raw = digest" by blast
  have "tree_later V (v(''cache'' := x)) t" using tree_order.R_trans v(3) assms(3) x(2) by blast
  from row_readI [OF first raw(1) this row(1)] row(2,3) raw(2,3) show ?thesis by blast
qed

lemma row_bytes_read:
  assumes "row_bytes V contract path u = (Inr raw, w)" "tree_later V s u" "tree_later V w t"
    and "at_path contract path = Inr row" "row \<in> set artifact_rows"
  shows "row_read V s t row raw"
proof -
  obtain name n digest where row: "item row ''cache_name'' = Inr (VStr name)" "item row ''size'' = Inr (VInt n)" "item row ''sha256'' = Inr (VStr digest)"
    using artifact_members [OF assms(5)] .
  obtain maximum x where x: "read_stable_regular (vr_os V ''cache'') (vr_euid V) name 256 maximum (u ''cache'') = (Inr raw, x)" "w = u(''cache'' := x)"
    "int (length raw) = n" "vr_sha256 V raw = digest"
    using assms(1,4) row by (auto simp: row_bytes_def cached_bytes_def ebind_Inr lift_Inr number_of_def at_dir_at simp del: lift_eq)
  have "later (vr_os V ''cache'') (s ''cache'') (u ''cache'')" using assms(2) by (simp add: tree_later_def)
  from stable_read(1) [OF x(1) this] have "file_read (vr_os V ''cache'') (s ''cache'') (vr_euid V) 256 name (cs_calls (u ''cache'')) (cs_calls x) raw" .
  from row_readI [OF assms(2) this] assms(3) x(2-4) row show ?thesis by auto
qed

lemma layer_bytes_read:
  assumes "verify_layer V contract u = (Inr (), w)" "tree_later V s u" "tree_later V w t"
    and "at_path contract [''oci'', ''layer''] = Inr row" "row \<in> set artifact_rows" "item row ''diff_id'' = Inr (vstr DIFF_ID)"
    and "limit contract ''max_regular_bytes'' = Inr 536870912"
  shows "\<exists>raw out. row_read V s t row raw \<and> expands (vr_gzip V) 536870912 raw out \<and> vr_sha256 V out = ustr DIFF_ID"
proof -
  obtain name n digest where row: "item row ''cache_name'' = Inr (VStr name)" "item row ''size'' = Inr (VInt n)" "item row ''sha256'' = Inr (VStr digest)"
    using artifact_members [OF assms(5)] .
  obtain x where x: "verify_gzip_layer (vr_os V ''cache'') (vr_euid V) (vr_sha256 V) (vr_gzip V) name (VInt n) (VStr digest) (vstr DIFF_ID) 536870912 (u ''cache'') = (Inr (), x)"
    "w = u(''cache'' := x)"
    using assms(1,4,6,7) row by (auto simp: verify_layer_def ebind_Inr lift_Inr at_dir_at simp del: lift_eq)
  have "later (vr_os V ''cache'') (s ''cache'') (u ''cache'')" using assms(2) by (simp add: tree_later_def)
  from layer_read(1) [OF x(1) this] obtain raw out where raw:
    "file_read (vr_os V ''cache'') (s ''cache'') (vr_euid V) 256 name (cs_calls (u ''cache'')) (cs_calls x) raw" "int (length raw) = n"
    "vr_sha256 V raw = digest" "expands (vr_gzip V) 536870912 raw out" "vr_sha256 V out = ustr DIFF_ID" by blast
  from row_readI [OF assms(2) raw(1)] assms(3) x(2) row raw show ?thesis by auto
qed

text \<open>A document of the contract, by its path there.\<close>

definition document_read :: "('g, 'x) verifier \<Rightarrow> tree \<Rightarrow> tree \<Rightarrow> string list \<Rightarrow> bytes \<Rightarrow> bool" where
  "document_read V s t path raw \<longleftrightarrow> (\<exists>row. at_path CONTRACT path = Inr row \<and> row_read V s t row raw)"

lemma document_rows:
  "at_path CONTRACT [''oci'', ''index''] = Inr (oci_row (OCI_EXPECTED ! 0))" "at_path CONTRACT [''oci'', ''manifest''] = Inr (oci_row (OCI_EXPECTED ! 1))"
  "at_path CONTRACT [''oci'', ''config''] = Inr (oci_row (OCI_EXPECTED ! 2))" "at_path CONTRACT [''oci'', ''layer''] = Inr (oci_row (OCI_EXPECTED ! 3))"
  "at_path CONTRACT [''snapshot'', ''inrelease''] = Inr (snapshot_row (SNAPSHOT_EXPECTED ! 0))"
  "at_path CONTRACT [''snapshot'', ''packages_index''] = Inr (snapshot_row (SNAPSHOT_EXPECTED ! 1))"
  by (simp_all add: at_path_simps contract_items OCI_EXPECTED_def SNAPSHOT_EXPECTED_def)

lemma document_row_members:
  "i < 4 \<Longrightarrow> oci_row (OCI_EXPECTED ! i) \<in> set artifact_rows" "i < 2 \<Longrightarrow> snapshot_row (SNAPSHOT_EXPECTED ! i) \<in> set artifact_rows"
  "item (oci_row (OCI_EXPECTED ! 3)) ''diff_id'' = Inr (vstr DIFF_ID)"
  unfolding artifact_rows_def OCI_EXPECTED_def SNAPSHOT_EXPECTED_def
  by (auto simp: less_Suc_eq eval_nat_numeral oci_row_def)

lemma document_readI:
  assumes "row_bytes V contract path u = (Inr raw, w)" "tree_later V s u" "tree_later V w t"
    and "at_path contract path = at_path CONTRACT path" "at_path CONTRACT path = Inr row" "row \<in> set artifact_rows"
  shows "document_read V s t path raw"
  using row_bytes_read [OF assms(1-3)] assms(4-6) unfolding document_read_def by auto

text \<open>C30. Whatever other processes do to the directories and whichever calls fail: when the verification of the metadata returns, every
file that the contract lists was read from the cache between the start and the end, with the recorded length and digest; and so were
the image index, manifest, configuration and layer, the release file and the package index whose bytes are then checked. The image
documents are linked to each other and to the contract, the layer expands within the bound to bytes with the pinned digest, the release file pins the
package index and the package index pins the ten packages. That a file was read means: during a call its name led to
the file; during a call it was a regular file of the user with mode 0400, one link and this length; every byte was in the file at its
offset during a call; and during a call the file was not longer.\<close>

theorem metadata_verified:
  "case verify_metadata V fixed root s of
     Some (Inr (), t) \<Rightarrow>
       list_all (\<lambda>row. \<exists>raw. row_read V s t row raw) artifact_rows \<and>
       (\<exists>i m c l out r p. document_read V s t [''oci'', ''index''] i \<and> document_read V s t [''oci'', ''manifest''] m \<and>
          document_read V s t [''oci'', ''config''] c \<and> document_read V s t [''oci'', ''layer''] l \<and>
          document_read V s t [''snapshot'', ''inrelease''] r \<and> document_read V s t [''snapshot'', ''packages_index''] p \<and>
          verify_oci_documents (vr_loads V) (vr_b64decode V) CONTRACT i m c = Inr () \<and>
          expands (vr_gzip V) 536870912 l out \<and> vr_sha256 V out = ustr DIFF_ID \<and>
          verify_inrelease CONTRACT r = Inr () \<and> verify_packages_index (vr_xz V) CONTRACT p = Some (Inr ()))
   | _ \<Rightarrow> True"
proof (cases "\<exists>t. verify_metadata V fixed root s = Some (Inr (), t)")
  case True
  then obtain t where t: "verify_metadata V fixed root s = Some (Inr (), t)" by blast
  then obtain contract entries i m c r p s1 s2 s3 s4 s5 s6 s7 where
    load: "load_contract V fixed s = (Inr contract, s1)" and entries: "cache_entries contract = Inr entries"
    and cache: "verify_cache_root V root entries s1 = (Inr (), s2)"
    and docs: "row_bytes V contract [''oci'', ''index''] s2 = (Inr i, s3)" "row_bytes V contract [''oci'', ''manifest''] s3 = (Inr m, s4)"
      "row_bytes V contract [''oci'', ''config''] s4 = (Inr c, s5)" "row_bytes V contract [''snapshot'', ''inrelease''] s6 = (Inr r, s7)"
      "row_bytes V contract [''snapshot'', ''packages_index''] s7 = (Inr p, t)"
    and layer: "verify_layer V contract s5 = (Inr (), s6)"
    and checks: "verify_oci_documents (vr_loads V) (vr_b64decode V) contract i m c = Inr ()" "verify_inrelease contract r = Inr ()"
      "verify_packages_index (vr_xz V) contract p = Some (Inr ())"
    unfolding verify_metadata_def lbind_Some once_Some
    by (auto simp: ebind_Inr lift_Inr simp del: lift_eq split: option.splits)
  obtain raw where "verify_contract (vr_loads V) raw = Inr contract" using load by (auto simp: load_contract_def ebind_Inr lift_Inr simp del: lift_eq)
  then have pinned: "ints contract = CONTRACT"
    using contract_pinned by (auto simp: verify_contract_def strict_json_def split: sum.splits)
  have exact: "source_rows contract = Inr artifact_rows" using exact_rows [OF pinned entries] cache_root_sizes [OF cache] by blast
  then have rows: "map_result cache_entry_of artifact_rows = Inr entries" using entries by (auto simp: cache_entries_def)
  note members = exact_members [OF exact]
  note steps = withinD [OF verifying_later(1) load] withinD [OF verifying_later(2) cache] withinD [OF verifying_later(3) docs(1)]
    withinD [OF verifying_later(3) docs(2)] withinD [OF verifying_later(3) docs(3)] withinD [OF verifying_later(4) layer]
    withinD [OF verifying_later(3) docs(4)] withinD [OF verifying_later(3) docs(5)]
  have from_start: "tree_later V s s2" "tree_later V s s3" "tree_later V s s4" "tree_later V s s5" "tree_later V s s6" "tree_later V s s7"
    using steps tree_order.R_trans by metis+
  have to_end: "tree_later V s2 t" "tree_later V s3 t" "tree_later V s4 t" "tree_later V s5 t" "tree_later V s6 t" "tree_later V s7 t"
    using steps tree_order.R_trans by metis+
  have files: "list_all (\<lambda>row. \<exists>raw. row_read V s t row raw) artifact_rows"
    using cache_root_read [OF cache steps(1) to_end(1) rows] by (simp add: list_all_iff)
  have read: "document_read V s t [''oci'', ''index''] i" "document_read V s t [''oci'', ''manifest''] m" "document_read V s t [''oci'', ''config''] c"
    "document_read V s t [''snapshot'', ''inrelease''] r" "document_read V s t [''snapshot'', ''packages_index''] p"
    by (rule document_readI [OF docs(1) from_start(1) to_end(2) members(1) document_rows(1)] document_readI [OF docs(2) from_start(2) to_end(3) members(2) document_rows(2)]
      document_readI [OF docs(3) from_start(3) to_end(4) members(3) document_rows(3)] document_readI [OF docs(4) from_start(5) to_end(6) members(5) document_rows(5)]
      document_readI [OF docs(5) from_start(6) tree_order.R_refl members(6) document_rows(6)]; simp add: document_row_members)+
  have limit: "limit contract ''max_regular_bytes'' = Inr 536870912"
    using limit_ints [of contract "''max_regular_bytes''"] pinned by (simp add: limit_def at_path_def contract_items BOUNDS_def number_of_def)
  obtain l out where "row_read V s t (oci_row (OCI_EXPECTED ! 3)) l" "expands (vr_gzip V) 536870912 l out" "vr_sha256 V out = ustr DIFF_ID"
    using layer_bytes_read [OF layer from_start(4) to_end(5) _ _ document_row_members(3) limit] members(4) document_rows(4) document_row_members(1) by auto
  then have "document_read V s t [''oci'', ''layer''] l \<and> expands (vr_gzip V) 536870912 l out \<and> vr_sha256 V out = ustr DIFF_ID"
    using document_rows(4) by (auto simp: document_read_def)
  moreover note checks [unfolded exact_documents [OF pinned exact]]
  ultimately show ?thesis using files read unfolding t option.case prod.case sum.case unit.case by blast
qed (auto split: option.splits prod.splits sum.splits)

text \<open>Where nobody changes the cache, the files read are the files in it.\<close>

corollary row_read_still:
  assumes "row_read V s t row raw" "\<And>n fs. oe_world (vr_os V ''cache'') n fs = fs"
  shows "\<exists>name i. item row ''cache_name'' = Inr (VStr name) \<and> map_of (fs_names (cs_fs (s ''cache''))) name = Some i \<and>
    nd_data (fs_nodes (cs_fs (s ''cache'')) i) = raw"
  using assms(1) file_read_still [OF _ assms(2)] unfolding row_read_def by blast

end
