(* ===== verification/PackageIndex.thy ===== *)
theory PackageIndex
  imports MetadataSafety
begin

text \<open>
  What an accepted package index is, against references of its own: how a decoder expands chunks (\<open>decodes\<close>), which lines make a
  stanza (\<open>stanza_of\<close>), and which stanzas an index has (\<open>index_lists\<close>). None of them mentions the loops of the sources.
\<close>

section \<open>Expansion\<close>

text \<open>A decoder that still has output for the input it was given.\<close>

definition pending :: "'d decoder \<Rightarrow> 'd \<Rightarrow> bool" where
  "pending D d \<longleftrightarrow> (case d_needs_input D of None \<Rightarrow> False | Some f \<Rightarrow> \<not> f d \<and> \<not> d_eof D d)"

text \<open>One call of the decoder: what it may return is limited to one byte more than the maximum still allows, and no input may be left over.\<close>

definition decodes_step :: "'d decoder \<Rightarrow> int \<Rightarrow> bytes \<Rightarrow> 'd \<times> bytes \<Rightarrow> 'd \<times> bytes \<Rightarrow> bool" where
  "decodes_step D maximum c = (\<lambda>(d, out) (d', out'). \<exists>expanded.
     d_decompress D d c (maximum + 1 - int (length out)) = Some (expanded, d') \<and> d_unused D d' = [] \<and> out' = out @ expanded)"

text \<open>The decoder is asked again with no input until nothing is pending.\<close>

inductive drained :: "'d decoder \<Rightarrow> int \<Rightarrow> 'd \<times> bytes \<Rightarrow> 'd \<times> bytes \<Rightarrow> bool" for D maximum where
  drained_idle: "\<not> pending D (fst p) \<Longrightarrow> drained D maximum p p"
| drained_more: "pending D (fst p) \<Longrightarrow> decodes_step D maximum [] p q \<Longrightarrow> drained D maximum q r \<Longrightarrow> drained D maximum p r"

inductive decodes :: "'d decoder \<Rightarrow> int \<Rightarrow> bytes list \<Rightarrow> 'd \<times> bytes \<Rightarrow> 'd \<times> bytes \<Rightarrow> bool" for D maximum where
  decodes_end: "decodes D maximum [] p p"
| decodes_chunk: "\<not> d_eof D (fst p) \<Longrightarrow> decodes_step D maximum c p q \<Longrightarrow> drained D maximum q r \<Longrightarrow> decodes D maximum cs r t \<Longrightarrow>
    decodes D maximum (c # cs) p t"

inductive_cases decodes_NilE: "decodes D maximum [] p t"
inductive_cases decodes_ConsE: "decodes D maximum (c # cs) p t"

text \<open>The bytes expand: the decoder takes every chunk and ends with its input used up.\<close>

definition xz_expands :: "'d decoder \<Rightarrow> int \<Rightarrow> bytes \<Rightarrow> bytes \<Rightarrow> bool" where
  "xz_expands D maximum raw out \<longleftrightarrow> (\<exists>d. decodes D maximum (chunks raw) (d_start D, []) (d, out) \<and> d_eof D d \<and> d_unused D d = [])"

lemma step_grows: "decodes_step D maximum c p q \<Longrightarrow> length (snd p) \<le> length (snd q)"
  by (cases p; cases q) (auto simp: decodes_step_def)

lemma drained_grows: "drained D maximum p r \<Longrightarrow> length (snd p) \<le> length (snd r)"
  by (induction rule: drained.induct) (auto dest: step_grows)

lemma decodes_grows: "decodes D maximum cs p t \<Longrightarrow> length (snd p) \<le> length (snd t)"
  by (induction rule: decodes.induct) (auto dest!: step_grows drained_grows)

lemma expand_unfold:
  "expand_chunk D maximum c d out = (if c \<noteq> [] \<or> pending D d then
     (case d_decompress D d c (maximum + 1 - int (length out)) of
        None \<Rightarrow> Some (Inl (VerificationError None))
      | Some (expanded, d') \<Rightarrow>
          if int (length (out @ expanded)) \<le> maximum \<and> d_unused D d' = [] then expand_chunk D maximum [] d' (out @ expanded)
          else Some (Inl (VerificationError None)))
     else Some (Inr (d, out)))"
  by (subst expand_chunk.simps) (simp add: pending_def)

lemma expand_drained:
  assumes "drained D maximum (d, out) (d', out')" "int (length out') \<le> maximum"
  shows "expand_chunk D maximum [] d out = Some (Inr (d', out'))"
  using assms
proof (induction "(d, out)" "(d', out')" arbitrary: d out rule: drained.induct)
  case drained_idle
  then show ?case by (subst expand_unfold) simp
next
  case (drained_more q)
  obtain d1 out1 where q: "q = (d1, out1)" by (cases q)
  have "length out1 \<le> length out'" using drained_grows [OF drained_more.hyps(3)] by (simp add: q)
  with drained_more show ?case by (subst expand_unfold) (auto simp: q decodes_step_def)
qed

definition expanded_ok :: "'d decoder \<Rightarrow> int \<Rightarrow> bytes \<Rightarrow> 'd \<Rightarrow> bytes \<Rightarrow> ('d \<times> bytes) result \<Rightarrow> bool" where
  "expanded_ok D maximum c d out r \<longleftrightarrow> (\<forall>p. r = Inr p \<longrightarrow>
     (if c \<noteq> [] then \<exists>q. decodes_step D maximum c (d, out) q \<and> drained D maximum q p else drained D maximum (d, out) p) \<and>
     (c \<noteq> [] \<or> int (length out) \<le> maximum \<longrightarrow> int (length (snd p)) \<le> maximum))"

lemma expand_chunk_drained: "expand_chunk D maximum c d out = Some r \<Longrightarrow> expanded_ok D maximum c d out r"
proof (erule expand_chunk.raw_induct [where P = expanded_ok, rotated])
  fix ec :: "'a decoder \<Rightarrow> int \<Rightarrow> bytes \<Rightarrow> 'a \<Rightarrow> bytes \<Rightarrow> ('a \<times> bytes) result option"
    and D :: "'a decoder" and maximum c d out r
  assume IH: "\<And>D maximum c d out r. ec D maximum c d out = Some r \<Longrightarrow> expanded_ok D maximum c d out r"
  assume "(if c \<noteq> [] \<or> (case d_needs_input D of None \<Rightarrow> False | Some f \<Rightarrow> \<not> f d \<and> \<not> d_eof D d) then
        (case d_decompress D d c (maximum + 1 - int (length out)) of
           None \<Rightarrow> Some (Inl (VerificationError None))
         | Some (expanded, d') \<Rightarrow>
             if int (length (out @ expanded)) \<le> maximum \<and> d_unused D d' = []
             then ec D maximum [] d' (out @ expanded)
             else Some (Inl (VerificationError None)))
      else Some (Inr (d, out))) = Some r"
  then have step: "(if c \<noteq> [] \<or> pending D d then
        (case d_decompress D d c (maximum + 1 - int (length out)) of
           None \<Rightarrow> Some (Inl (VerificationError None))
         | Some (expanded, d') \<Rightarrow>
             if int (length (out @ expanded)) \<le> maximum \<and> d_unused D d' = []
             then ec D maximum [] d' (out @ expanded)
             else Some (Inl (VerificationError None)))
      else Some (Inr (d, out))) = Some r" by (simp add: pending_def)
  then consider "r = Inl (VerificationError None)" | "r = Inr (d, out)" "c = []" "\<not> pending D d"
    | expanded d' where "c \<noteq> [] \<or> pending D d" "d_decompress D d c (maximum + 1 - int (length out)) = Some (expanded, d')"
        "int (length (out @ expanded)) \<le> maximum" "d_unused D d' = []" "ec D maximum [] d' (out @ expanded) = Some r"
    by (auto split: if_split_asm option.split_asm)
  then show "expanded_ok D maximum c d out r"
  proof cases
    case 3
    have "decodes_step D maximum c (d, out) (d', out @ expanded)" using 3 by (simp add: decodes_step_def)
    moreover have "drained D maximum (d', out @ expanded) p \<and> int (length (snd p)) \<le> maximum" if "r = Inr p" for p
      using IH [OF 3(5)] 3(3) that by (simp add: expanded_ok_def)
    ultimately show ?thesis using 3(1) unfolding expanded_ok_def by (metis drained_more fst_conv)
  qed (auto simp: expanded_ok_def intro: drained_idle)
qed

lemma expand_chunks_iff:
  assumes "[] \<notin> set cs" "int (length out) \<le> maximum"
  shows "expand_chunks D maximum cs d out = Some (Inr res) \<longleftrightarrow>
    (\<exists>d'. decodes D maximum cs (d, out) (d', res) \<and> d_eof D d' \<and> d_unused D d' = []) \<and> int (length res) \<le> maximum"
  using assms
proof (induction cs arbitrary: d out)
  case Nil
  then show ?case by (auto elim!: decodes_NilE intro: decodes_end)
next
  case (Cons c cs)
  show ?case
  proof
    assume "expand_chunks D maximum (c # cs) d out = Some (Inr res)"
    then obtain d1 out1 where e: "\<not> d_eof D d" "expand_chunk D maximum c d out = Some (Inr (d1, out1))" "expand_chunks D maximum cs d1 out1 = Some (Inr res)"
      by (auto simp: orbind_Some split: if_split_asm)
    obtain q where q: "decodes_step D maximum c (d, out) q" "drained D maximum q (d1, out1)" "int (length out1) \<le> maximum"
      using expand_chunk_drained [OF e(2)] Cons.prems by (auto simp: expanded_ok_def)
    moreover have "decodes D maximum (c # cs) (d, out) t" if "decodes D maximum cs (d1, out1) t" for t
      using decodes_chunk [OF _ q(1,2) that] e(1) by simp
    ultimately show "(\<exists>d'. decodes D maximum (c # cs) (d, out) (d', res) \<and> d_eof D d' \<and> d_unused D d' = []) \<and> int (length res) \<le> maximum"
      using Cons.IH [of out1 d1] e Cons.prems by auto
  next
    assume r: "(\<exists>d'. decodes D maximum (c # cs) (d, out) (d', res) \<and> d_eof D d' \<and> d_unused D d' = []) \<and> int (length res) \<le> maximum"
    then obtain d' q p where d': "\<not> d_eof D d" "decodes_step D maximum c (d, out) q" "drained D maximum q p" "decodes D maximum cs p (d', res)"
      "d_eof D d'" "d_unused D d' = []" by (auto elim!: decodes_ConsE)
    obtain d1 out1 d2 out2 where qp: "q = (d1, out1)" "p = (d2, out2)" by (cases q; cases p)
    have len: "length out1 \<le> length out2" "length out2 \<le> length res" using drained_grows [OF d'(3)] decodes_grows [OF d'(4)] by (simp_all add: qp)
    have bound: "int (length out2) \<le> maximum" using len(2) r by linarith
    have "expand_chunk D maximum [] d1 out1 = Some (Inr (d2, out2))" using expand_drained [OF _ bound] d'(3) by (simp add: qp)
    then have "expand_chunk D maximum c d out = Some (Inr (d2, out2))"
      using d'(2) Cons.prems(1) len bound by (subst expand_unfold) (auto simp: decodes_step_def qp)
    then show "expand_chunks D maximum (c # cs) d out = Some (Inr res)"
      using d' Cons.IH [OF _ bound, of d2] Cons.prems r by (auto simp: orbind_Some qp)
  qed
qed

lemma chunks_nonempty: "[] \<notin> set (chunks raw)"
proof -
  have "slice (i * CHUNK) (i * CHUNK + CHUNK) raw \<noteq> []" if "i < (length raw + CHUNK - 1) div CHUNK" for i
    using that by (simp add: slice_def CHUNK_def)
  then show ?thesis by (fastforce simp: chunks_def)
qed

lemma decompress_xz_iff: "0 \<le> maximum \<Longrightarrow> decompress_xz xz raw maximum = Some (Inr out) \<longleftrightarrow> xz_expands xz maximum raw out \<and> int (length out) \<le> maximum"
  unfolding decompress_xz_def xz_expands_def using expand_chunks_iff [OF chunks_nonempty, of "[]" maximum xz raw "d_start xz" out] by auto

section \<open>Stanzas\<close>

text \<open>
  The lines of a stanza: a field \<^verbatim>\<open>Name: value\<close> with a new, well-formed name, or a continuation of the last field, which starts with a
  space or a tab.
\<close>

inductive stanza_of :: "pystr list \<Rightarrow> stanza \<Rightarrow> bool" where
  stanza_empty: "stanza_of [] []"
| stanza_field: "stanza_of ls st \<Longrightarrow> field_name k \<Longrightarrow> k \<notin> fst ` set st \<Longrightarrow> stanza_of (ls @ [k @ 58 # 32 # v]) (st @ [(k, v)])"
| stanza_more: "stanza_of ls (st @ [(k, v)]) \<Longrightarrow> c = 32 \<or> c = 9 \<Longrightarrow> stanza_of (ls @ [c # rest]) (st @ [(k, v @ 10 # rest)])"

inductive_cases stanza_NilE: "stanza_of [] st"
inductive_cases stanza_snocE: "stanza_of (ls @ [l]) st"

text \<open>An index lists stanzas: its text ends in a newline and has no carriage return and no control characters, no line is longer than 128 KiB,
  and the blocks of lines between blank lines are the stanzas, at least one and at most the maximum.\<close>

definition index_lists :: "nat \<Rightarrow> bytes \<Rightarrow> stanza list \<Rightarrow> bool" where
  "index_lists maximum raw stanzas \<longleftrightarrow> ends_with [10] raw \<and> 13 \<notin> set raw \<and>
     (\<exists>chars. utf8_decode raw = Some chars \<and> list_all (\<lambda>c. c = 10 \<or> c = 9 \<or> 32 \<le> c \<and> c < 127 \<or> 160 \<le> c) chars \<and>
        list_all short_line (str_splitlines chars) \<and>
        list_all2 stanza_of (filter (\<lambda>block. block \<noteq> []) (split_on [] (str_splitlines chars))) stanzas) \<and>
     0 < length stanzas \<and> length stanzas \<le> maximum"

lemma stanza_keys: "stanza_of ls st \<Longrightarrow> distinct (map fst st) \<and> (ls = [] \<longleftrightarrow> st = [])"
  by (induction rule: stanza_of.induct) auto

lemma stanza_lines_append: "stanza_lines m (xs @ ys) s = rbind (stanza_lines m xs s) (stanza_lines m ys)"
  by (induction m xs s rule: stanza_lines.induct) (simp_all add: rbind_def split: sum.split)

lemma short_line_iff: "short_line l \<longleftrightarrow> (\<exists>n. encoded_length l = Inr n \<and> n \<le> 131072)"
  by (auto simp: short_line_def encoded_length_def split: option.split)

definition last_key :: "stanza \<Rightarrow> pystr option" where
  "last_key st = (if st = [] then None else Some (fst (last st)))"

text \<open>One line that is not blank, from the stanza so far.\<close>

definition stanza_step :: "stanza \<Rightarrow> pystr \<Rightarrow> stanza \<Rightarrow> bool" where
  "stanza_step st l st' \<longleftrightarrow>
     (\<exists>k v. l = k @ 58 # 32 # v \<and> field_name k \<and> k \<notin> fst ` set st \<and> st' = st @ [(k, v)]) \<or>
     (\<exists>ys k v c rest. l = c # rest \<and> (c = 32 \<or> c = 9) \<and> st = ys @ [(k, v)] \<and> st' = ys @ [(k, v @ 10 # rest)])"

lemma split_once_join: "c \<in> set xs \<Longrightarrow> xs = fst (split_once c xs) @ c # snd (split_once c xs)"
  by (induction xs) (auto simp: split_once_def)

lemma field_line: "field_name k \<Longrightarrow> k @ 58 # 32 # v = k' @ 58 # 32 # v' \<Longrightarrow> field_name k' \<Longrightarrow> k' = k \<and> v' = v"
proof -
  assume k: "field_name k" "k @ 58 # 32 # v = k' @ 58 # 32 # v'" "field_name k'"
  have "58 \<notin> set k" "58 \<notin> set k'" using field_name_plain k(1,3) by blast+
  note split = this [THEN split_once_stop, of "32 # v"] this [THEN split_once_stop, of "32 # v'"]
  from trans [OF sym [OF split(1) [unfolded k(2)]] split(4)] show "k' = k \<and> v' = v" by simp
qed

lemma field_not_more: "field_name k \<Longrightarrow> k @ 58 # 32 # v = c # rest \<Longrightarrow> c \<noteq> 32 \<and> c \<noteq> 9"
  using field_name_plain [of k] by (cases k) auto

lemma stanza_step_unique:
  assumes "stanza_step st l st'" "stanza_step st l st''"
  shows "st'' = st'"
proof -
  consider (field) k v where "l = k @ 58 # 32 # v" "field_name k" "st' = st @ [(k, v)]"
    | (continued) ys k v c rest where "l = c # rest" "c = 32 \<or> c = 9" "st = ys @ [(k, v)]" "st' = ys @ [(k, v @ 10 # rest)]"
    using assms(1) unfolding stanza_step_def by blast
  then show ?thesis
  proof cases
    case field
    then show ?thesis using assms(2) field_line [OF field(2)] field_not_more [OF field(2)] unfolding stanza_step_def by metis
  next
    case continued
    then show ?thesis using assms(2) field_not_more unfolding stanza_step_def by (metis append1_eq_conv list.inject prod.inject)
  qed
qed

lemma stanza_snoc: "stanza_of (ls @ [l]) st' \<longleftrightarrow> (\<exists>st. stanza_of ls st \<and> stanza_step st l st')"
proof
  assume "stanza_of (ls @ [l]) st'"
  then show "\<exists>st. stanza_of ls st \<and> stanza_step st l st'"
  proof cases
    case (stanza_field ls' st k v)
    then show ?thesis unfolding stanza_step_def by (intro exI [of _ st]) simp
  next
    case (stanza_more ls' st k v c rest)
    then show ?thesis unfolding stanza_step_def by (intro exI [of _ "st @ [(k, v)]"]) simp
  qed simp
next
  assume "\<exists>st. stanza_of ls st \<and> stanza_step st l st'"
  then show "stanza_of (ls @ [l]) st'" unfolding stanza_step_def by (elim exE conjE disjE) (simp_all add: stanza_field stanza_more)
qed

lemma stanza_unique: "stanza_of ls st \<Longrightarrow> stanza_of ls st' \<Longrightarrow> st' = st"
proof (induction ls arbitrary: st st' rule: rev_induct)
  case (snoc l ls)
  then show ?case unfolding stanza_snoc using stanza_step_unique by metis
qed (auto elim!: stanza_NilE)

lemma dict_set_end: "distinct (map fst (ys @ [(k, v)])) \<Longrightarrow> dict_set k w (ys @ [(k, v)]) = ys @ [(k, w)] \<and> map_of (ys @ [(k, v)]) k = Some v"
  using dict_set_last [of k ys w v] map_of_new [of k ys v] by auto

lemma stanza_line_iff:
  assumes "distinct (map fst st)" "line \<noteq> []"
  shows "stanza_line m line \<lparr>ss_done = d, ss_current = st, ss_last = last_key st\<rparr> = Inr s \<longleftrightarrow>
    short_line line \<and> (\<exists>st'. stanza_step st line st' \<and> s = \<lparr>ss_done = d, ss_current = st', ss_last = last_key st'\<rparr>)"
proof (cases "hd line = 32 \<or> hd line = 9")
  case True
  obtain c rest where line: "line = c # rest" "c = 32 \<or> c = 9" using True assms(2) by (cases line) auto
  have step: "stanza_step st line st' \<longleftrightarrow> (\<exists>ys k v. st = ys @ [(k, v)] \<and> st' = ys @ [(k, v @ 10 # rest)])" for st'
    using field_not_more line unfolding stanza_step_def by blast
  show ?thesis
  proof (cases st rule: rev_cases)
    case Nil
    then show ?thesis using line unfolding step by (auto simp: stanza_line_def last_key_def)
  next
    case (snoc ys kv)
    obtain k v where kv: "kv = (k, v)" by (cases kv)
    have st: "st = ys @ [(k, v)]" by (simp add: snoc kv)
    have at_end: "dict_set k w st = ys @ [(k, w)]" "map_of st k = Some v" for w using dict_set_end [of ys k v w] assms(1) unfolding st by blast+
    have "stanza_line m line \<lparr>ss_done = d, ss_current = st, ss_last = last_key st\<rparr> = Inr s \<longleftrightarrow>
        short_line line \<and> s = \<lparr>ss_done = d, ss_current = ys @ [(k, v @ 10 # rest)], ss_last = Some k\<rparr>"
      using line at_end by (auto simp: stanza_line_def short_line_iff last_key_def) (auto simp: st)
    then show ?thesis unfolding step by (auto simp: st last_key_def)
  qed
next
  case False
  let ?k = "fst (split_once 58 line)" and ?text = "snd (split_once 58 line)"
  have step: "stanza_step st line st' \<longleftrightarrow> 58 \<in> set line \<and> field_name ?k \<and> ?k \<notin> fst ` set st \<and> starts_with [32] ?text \<and> st' = st @ [(?k, drop 1 ?text)]" for st'
  proof
    assume "stanza_step st line st'"
    then obtain k v where k: "line = k @ 58 # 32 # v" "field_name k" "k \<notin> fst ` set st" "st' = st @ [(k, v)]"
      using False unfolding stanza_step_def by auto
    have "split_once 58 line = (k, 32 # v)" unfolding k(1) using field_name_plain [OF k(2)] by (intro split_once_stop) simp
    then show "58 \<in> set line \<and> field_name ?k \<and> ?k \<notin> fst ` set st \<and> starts_with [32] ?text \<and> st' = st @ [(?k, drop 1 ?text)]"
      using k by (simp add: starts_with_def)
  next
    assume r: "58 \<in> set line \<and> field_name ?k \<and> ?k \<notin> fst ` set st \<and> starts_with [32] ?text \<and> st' = st @ [(?k, drop 1 ?text)]"
    then have "line = ?k @ 58 # ?text" by (intro split_once_join) simp
    moreover have "?text = 32 # drop 1 ?text" using r by (cases ?text) (auto simp: starts_with_def)
    ultimately show "stanza_step st line st'" using r unfolding stanza_step_def by metis
  qed
  have "stanza_line m line \<lparr>ss_done = d, ss_current = st, ss_last = last_key st\<rparr> = Inr s \<longleftrightarrow> short_line line \<and> 58 \<in> set line \<and> field_name ?k \<and>
      ?k \<notin> fst ` set st \<and> starts_with [32] ?text \<and> s = \<lparr>ss_done = d, ss_current = st @ [(?k, drop 1 ?text)], ss_last = Some ?k\<rparr>"
    using False assms(2) by (auto simp: stanza_line_def short_line_iff Let_def dict_set_fresh)
  then show ?thesis unfolding step by (auto simp: last_key_def)
qed

lemma block_iff:
  assumes "[] \<notin> set ls"
  shows "stanza_lines m ls \<lparr>ss_done = d, ss_current = [], ss_last = None\<rparr> = Inr s \<longleftrightarrow>
    list_all short_line ls \<and> (\<exists>st. stanza_of ls st \<and> s = \<lparr>ss_done = d, ss_current = st, ss_last = last_key st\<rparr>)"
  using assms
proof (induction ls arbitrary: s rule: rev_induct)
  case Nil
  then show ?case by (auto simp: last_key_def elim: stanza_NilE intro: stanza_empty)
next
  case (snoc l ls)
  have line: "stanza_line m l \<lparr>ss_done = d, ss_current = st, ss_last = last_key st\<rparr> = Inr s \<longleftrightarrow>
      short_line l \<and> (\<exists>st'. stanza_step st l st' \<and> s = \<lparr>ss_done = d, ss_current = st', ss_last = last_key st'\<rparr>)" if "stanza_of ls st" for st
    using stanza_line_iff stanza_keys [OF that] snoc.prems by auto
  have "stanza_lines m (ls @ [l]) \<lparr>ss_done = d, ss_current = [], ss_last = None\<rparr> = Inr s \<longleftrightarrow>
      (\<exists>u. stanza_lines m ls \<lparr>ss_done = d, ss_current = [], ss_last = None\<rparr> = Inr u \<and> stanza_line m l u = Inr s)"
    by (simp add: stanza_lines_append)
  also have "\<dots> \<longleftrightarrow> list_all short_line ls \<and>
      (\<exists>st. stanza_of ls st \<and> stanza_line m l \<lparr>ss_done = d, ss_current = st, ss_last = last_key st\<rparr> = Inr s)"
    using snoc by auto
  also have "\<dots> \<longleftrightarrow> list_all short_line ls \<and> short_line l \<and>
      (\<exists>st st'. stanza_of ls st \<and> stanza_step st l st' \<and> s = \<lparr>ss_done = d, ss_current = st', ss_last = last_key st'\<rparr>)"
    using line by blast
  finally show ?case unfolding stanza_snoc by auto
qed

text \<open>What the loop over all lines leaves, block by block.\<close>

definition stanzas_of_state :: "stanza_state \<Rightarrow> stanza list" where
  "stanzas_of_state s = ss_done s @ (if ss_current s \<noteq> [] then [ss_current s] else [])"

lemma blank_line:
  assumes "stanza_of b st"
  shows "stanza_line m [] \<lparr>ss_done = d, ss_current = st, ss_last = last_key st\<rparr> = Inr s \<longleftrightarrow>
    (b \<noteq> [] \<longrightarrow> length d + 1 \<le> m) \<and> s = \<lparr>ss_done = d @ (if b = [] then [] else [st]), ss_current = [], ss_last = None\<rparr>"
proof -
  have "encoded_length [] = Inr 0" by (simp add: encoded_length_def utf8_encode_def)
  then show ?thesis using stanza_keys [OF assms] by (auto simp: stanza_line_def last_key_def)
qed

lemma done_grows: "stanza_lines m ls s = Inr t \<Longrightarrow> \<exists>ys. ss_done t = ss_done s @ ys"
proof (induction ls arbitrary: s)
  case (Cons l ls)
  then obtain u where u: "stanza_line m l s = Inr u" "stanza_lines m ls u = Inr t" by auto
  have "\<exists>ys. ss_done u = ss_done s @ ys"
    using u(1) by (auto simp: stanza_line_def Let_def split: if_split_asm option.split_asm)
  with Cons.IH [OF u(2)] show ?case by auto
qed simp

lemma single_block:
  assumes b: "[] \<notin> set b"
  shows "(\<exists>s. stanza_lines m b \<lparr>ss_done = d, ss_current = [], ss_last = None\<rparr> = Inr s \<and> stanzas_of_state s = d @ sts) \<longleftrightarrow>
    list_all short_line b \<and> list_all2 stanza_of (filter (\<lambda>b. b \<noteq> []) [b]) sts"
proof -
  have state: "stanzas_of_state \<lparr>ss_done = d, ss_current = st, ss_last = k\<rparr> = d @ sts \<longleftrightarrow> (if st = [] then [] else [st]) = sts" for st k
    by (simp add: stanzas_of_state_def)
  have "(\<exists>s. stanza_lines m b \<lparr>ss_done = d, ss_current = [], ss_last = None\<rparr> = Inr s \<and> stanzas_of_state s = d @ sts) \<longleftrightarrow>
      list_all short_line b \<and> (\<exists>st. stanza_of b st \<and> stanzas_of_state \<lparr>ss_done = d, ss_current = st, ss_last = last_key st\<rparr> = d @ sts)"
    unfolding block_iff [OF b] by blast
  also have "\<dots> \<longleftrightarrow> list_all short_line b \<and> (\<exists>st. stanza_of b st \<and> (if st = [] then [] else [st]) = sts)"
    unfolding state ..
  also have "\<dots> \<longleftrightarrow> list_all short_line b \<and> list_all2 stanza_of (filter (\<lambda>b. b \<noteq> []) [b]) sts"
  proof (cases "b = []")
    case True
    then show ?thesis using stanza_empty by (auto elim: stanza_NilE)
  next
    case False
    then have "st \<noteq> []" if "stanza_of b st" for st using stanza_keys [OF that] by simp
    with False show ?thesis by (auto simp: list_all2_Cons1)
  qed
  finally show ?thesis .
qed

lemma first_block:
  assumes b: "[] \<notin> set b"
  shows "stanza_lines m (join_on [] (b # b' # rest)) \<lparr>ss_done = d, ss_current = [], ss_last = None\<rparr> = Inr s \<longleftrightarrow>
      list_all short_line b \<and> (\<exists>st. stanza_of b st \<and> (b \<noteq> [] \<longrightarrow> length d + 1 \<le> m) \<and>
        stanza_lines m (join_on [] (b' # rest)) \<lparr>ss_done = d @ (if b = [] then [] else [st]), ss_current = [], ss_last = None\<rparr> = Inr s)"
proof -
  let ?lines = "join_on [] (b' # rest)"
  have "stanza_lines m (join_on [] (b # b' # rest)) \<lparr>ss_done = d, ss_current = [], ss_last = None\<rparr> = Inr s \<longleftrightarrow>
      (\<exists>u v. stanza_lines m b \<lparr>ss_done = d, ss_current = [], ss_last = None\<rparr> = Inr u \<and> stanza_line m [] u = Inr v \<and> stanza_lines m ?lines v = Inr s)"
    by (simp add: stanza_lines_append)
  also have "\<dots> \<longleftrightarrow> list_all short_line b \<and> (\<exists>st v. stanza_of b st \<and>
      stanza_line m [] \<lparr>ss_done = d, ss_current = st, ss_last = last_key st\<rparr> = Inr v \<and> stanza_lines m ?lines v = Inr s)"
    unfolding block_iff [OF b] by blast
  also have "\<dots> \<longleftrightarrow> list_all short_line b \<and> (\<exists>st. stanza_of b st \<and> (b \<noteq> [] \<longrightarrow> length d + 1 \<le> m) \<and>
      stanza_lines m ?lines \<lparr>ss_done = d @ (if b = [] then [] else [st]), ss_current = [], ss_last = None\<rparr> = Inr s)"
  proof (intro conj_cong refl ex_cong1)
    fix st
    show "(\<exists>v. stanza_of b st \<and> stanza_line m [] \<lparr>ss_done = d, ss_current = st, ss_last = last_key st\<rparr> = Inr v \<and> stanza_lines m ?lines v = Inr s) \<longleftrightarrow>
        stanza_of b st \<and> (b \<noteq> [] \<longrightarrow> length d + 1 \<le> m) \<and>
        stanza_lines m ?lines \<lparr>ss_done = d @ (if b = [] then [] else [st]), ss_current = [], ss_last = None\<rparr> = Inr s"
      by (cases "stanza_of b st") (simp_all add: blank_line del: stanza_lines.simps)
  qed
  finally show ?thesis .
qed

lemma blocks_iff:
  assumes "\<forall>b\<in>set blocks. [] \<notin> set b" "blocks \<noteq> []"
  shows "(\<exists>s. stanza_lines m (join_on [] blocks) \<lparr>ss_done = d, ss_current = [], ss_last = None\<rparr> = Inr s \<and> stanzas_of_state s = d @ sts) \<and>
      length (d @ sts) \<le> m \<longleftrightarrow>
    list_all short_line (join_on [] blocks) \<and> list_all2 stanza_of (filter (\<lambda>b. b \<noteq> []) blocks) sts \<and> length (d @ sts) \<le> m"
  using assms
proof (induction blocks arbitrary: d sts rule: induct_list012)
  case (2 b)
  then have b: "[] \<notin> set b" by simp
  show ?case using single_block [OF b] by auto
next
  case (3 b b' rest)
  then have b: "[] \<notin> set b" by simp
  let ?lines = "join_on [] (b' # rest)"
  have blank: "short_line []" by (simp add: short_line_def utf8_encode_def)
  note step = first_block [OF b]
  show ?case
  proof (cases "b = []")
    case True
    then show ?thesis unfolding step using "3.IH"(2) [of d sts] "3.prems"(1) blank stanza_empty by (auto elim: stanza_NilE)
  next
    case False
    let ?from = "\<lambda>st. \<lparr>ss_done = d @ [st], ss_current = [], ss_last = None\<rparr>"
    have short: "list_all short_line (join_on [] (b # b' # rest)) \<longleftrightarrow> list_all short_line b \<and> list_all short_line ?lines" using blank by simp
    have blocks: "list_all2 stanza_of (filter (\<lambda>b. b \<noteq> []) (b # b' # rest)) sts \<longleftrightarrow>
        (\<exists>st sts'. sts = st # sts' \<and> stanza_of b st \<and> list_all2 stanza_of (filter (\<lambda>b. b \<noteq> []) (b' # rest)) sts')"
      using False by (auto simp: list_all2_Cons1)
    have ih: "(\<exists>s. stanza_lines m ?lines (?from st) = Inr s \<and> stanzas_of_state s = d @ st # sts') \<and> length (d @ st # sts') \<le> m \<longleftrightarrow>
        list_all short_line ?lines \<and> list_all2 stanza_of (filter (\<lambda>b. b \<noteq> []) (b' # rest)) sts' \<and> length (d @ st # sts') \<le> m" for st sts'
      using "3.IH"(2) [of "d @ [st]" sts'] "3.prems"(1) by simp
    have first: "\<exists>sts'. sts = st # sts'" if ran: "stanza_lines m ?lines (?from st) = Inr s" "stanzas_of_state s = d @ sts" for st s
    proof -
      obtain ys where "ss_done s = d @ st # ys" using done_grows [OF ran(1)] by auto
      then show ?thesis using ran(2) by (auto simp: stanzas_of_state_def split: if_split_asm)
    qed
    show ?thesis
    proof
      assume "(\<exists>s. stanza_lines m (join_on [] (b # b' # rest)) \<lparr>ss_done = d, ss_current = [], ss_last = None\<rparr> = Inr s \<and> stanzas_of_state s = d @ sts) \<and>
        length (d @ sts) \<le> m"
      then obtain s st where s: "list_all short_line b" "stanza_of b st" "stanza_lines m ?lines (?from st) = Inr s" "stanzas_of_state s = d @ sts"
        "length (d @ sts) \<le> m" unfolding step using False by auto
      moreover obtain sts' where "sts = st # sts'" using first [OF s(3,4)] by blast
      ultimately show "list_all short_line (join_on [] (b # b' # rest)) \<and> list_all2 stanza_of (filter (\<lambda>b. b \<noteq> []) (b # b' # rest)) sts \<and> length (d @ sts) \<le> m"
        unfolding short blocks using ih [of st sts'] by blast
    next
      assume r: "list_all short_line (join_on [] (b # b' # rest)) \<and> list_all2 stanza_of (filter (\<lambda>b. b \<noteq> []) (b # b' # rest)) sts \<and> length (d @ sts) \<le> m"
      then obtain st sts' where st: "sts = st # sts'" "stanza_of b st" "list_all2 stanza_of (filter (\<lambda>b. b \<noteq> []) (b' # rest)) sts'" unfolding blocks by blast
      then obtain s where "stanza_lines m ?lines (?from st) = Inr s" "stanzas_of_state s = d @ sts" using ih [of st sts'] r unfolding short by blast
      moreover have "length d + 1 \<le> m" using r st(1) by simp
      ultimately show "(\<exists>s. stanza_lines m (join_on [] (b # b' # rest)) \<lparr>ss_done = d, ss_current = [], ss_last = None\<rparr> = Inr s \<and> stanzas_of_state s = d @ sts) \<and>
          length (d @ sts) \<le> m"
        unfolding step using r st(2) False unfolding short by auto
    qed
  qed
qed simp

lemma debian_stanzas_iff: "debian_stanzas raw maximum = Inr stanzas \<longleftrightarrow> index_lists maximum raw stanzas"
proof -
  let ?start = "\<lparr>ss_done = [], ss_current = [], ss_last = None\<rparr>"
  have lines: "(\<exists>s. stanza_lines maximum ls ?start = Inr s \<and> stanzas_of_state s = stanzas) \<and> length stanzas \<le> maximum \<longleftrightarrow>
      list_all short_line ls \<and> list_all2 stanza_of (filter (\<lambda>b. b \<noteq> []) (split_on [] ls)) stanzas \<and> length stanzas \<le> maximum" for ls
    using blocks_iff [of "split_on [] ls" maximum "[]" stanzas] split_on_parts [of _ "[]" ls] by auto
  have "debian_stanzas raw maximum = Inr stanzas \<longleftrightarrow> ends_with [10] raw \<and> 13 \<notin> set raw \<and>
      (\<exists>chars. utf8_decode raw = Some chars \<and> list_all (\<lambda>c. c = 10 \<or> c = 9 \<or> 32 \<le> c \<and> c < 127 \<or> 160 \<le> c) chars \<and>
        (\<exists>s. stanza_lines maximum (str_splitlines chars) ?start = Inr s \<and> stanzas_of_state s = stanzas) \<and> length stanzas \<le> maximum) \<and> 0 < length stanzas"
    by (auto simp: debian_stanzas_def stanzas_of_state_def Let_def split: option.split)
  then show ?thesis unfolding lines index_lists_def by blast
qed

text \<open>C32. The compressed package index is accepted for the pinned contract exactly when the decoder expands it, with nothing left over, to at
most 128 MiB; these bytes list at least one and at most 100000 stanzas, whose lines are fields with distinct well-formed names and their
continuations; and each of the ten packages has exactly one stanza of its name, with the pinned version, architecture, file, size and digest.\<close>

theorem packages_index_pins_packages:
  "verify_packages_index xz CONTRACT raw = Some (Inr ()) \<longleftrightarrow>
     (\<exists>expanded stanzas. xz_expands xz 134217728 raw expanded \<and> length expanded \<le> 134217728 \<and> index_lists 100000 expanded stanzas \<and>
        list_all (stanza_matches stanzas) PACKAGE_EXPECTED)"
proof -
  have "verify_packages_index xz CONTRACT raw = Some (Inr ()) \<longleftrightarrow>
     (\<exists>expanded stanzas. decompress_xz xz raw 134217728 = Some (Inr expanded) \<and> debian_stanzas expanded 100000 = Inr stanzas \<and>
        list_all (stanza_matches stanzas) PACKAGE_EXPECTED)"
    by (auto simp: verify_packages_index_def limits orbind_Some check_index_rows_iff)
  moreover have "decompress_xz xz raw 134217728 = Some (Inr out) \<longleftrightarrow> xz_expands xz 134217728 raw out \<and> length out \<le> 134217728" for out
    using decompress_xz_iff [of 134217728 xz raw out] by linarith
  ultimately show ?thesis unfolding debian_stanzas_iff by simp
qed

end
