(* ===== verification/NetworkJournal.thy ===== *)
theory NetworkJournal
  imports PyBytes
begin

text \<open>
  The replay of the network facet (\<^verbatim>\<open>remote/completion_kata_network_journal.py\<close>): which records may follow which while
  a network is set up, observed, quarantined and removed.

  A record body is a JSON document as the journal holds it; the canonical codec has no floats. Bodies are compared
  with \<open>json_same\<close>, Python's \<^verbatim>\<open>==\<close>: members in any order, and a boolean equal to its number. A membership test of a list
  or an object in a set of strings raises \<^verbatim>\<open>TypeError\<close>; here such a value is not a member and is refused by the check around. The functions of
  \<^verbatim>\<open>completion_kata_network.py\<close> that recompute an identity or a sensor from observed bytes are fields of \<open>net_lib\<close>.
  A state is a record of the entries of \<^verbatim>\<open>initial()\<close>; an observation keeps its raw bytes beside its JSON members. The code
  appends to the chunk list of the state before; states are used once, so this is not visible.
\<close>

section \<open>Values\<close>

fun numbers :: "json \<Rightarrow> json" where
  "numbers (JBool b) = JInt (if b then 1 else 0)"
| "numbers (JArr xs) = JArr (map numbers xs)"
| "numbers (JObj ps) = JObj (map (\<lambda>(k, v). (k, numbers v)) ps)"
| "numbers v = v"

definition json_same :: "json \<Rightarrow> json \<Rightarrow> bool" where
  "json_same a b \<longleftrightarrow> sort_keys (numbers a) = sort_keys (numbers b)"

definition jfail :: "bool \<Rightarrow> 'a result \<Rightarrow> 'a result" where
  "jfail c k = require c (PyValueError ''network journal'') k"

definition jkey :: "json \<Rightarrow> pystr \<Rightarrow> json result" where
  "jkey v k = (case v of
     JObj ps \<Rightarrow> (case map_of ps k of None \<Rightarrow> Inl PyKeyError | Some x \<Rightarrow> Inr x)
   | _ \<Rightarrow> Inl (PyTypeError ''not subscriptable''))"

abbreviation jget :: "json \<Rightarrow> string \<Rightarrow> json result" where "jget v k \<equiv> jkey v (ustr k)"

abbreviation jstr :: "string \<Rightarrow> json" where "jstr s \<equiv> JStr (ustr s)"

definition jmember :: "json \<Rightarrow> string list \<Rightarrow> bool" where
  "jmember v names \<longleftrightarrow> v \<in> set (map jstr names)"

text \<open>\<^verbatim>\<open>all(left[name] == right[name] for name in names)\<close>.\<close>

fun agree_on :: "pystr list \<Rightarrow> json \<Rightarrow> json \<Rightarrow> bool result" where
  "agree_on [] a b = Inr True"
| "agree_on (k # ks) a b =
     rbind (jkey a k) (\<lambda>x. rbind (jkey b k) (\<lambda>y. if json_same x y then agree_on ks a b else Inr False))"

text \<open>\<^verbatim>\<open>{name: body[name] for name in names}\<close>.\<close>

definition project :: "string list \<Rightarrow> json \<Rightarrow> json result" where
  "project names body = rbind (map_result (\<lambda>k. rbind (jget body k) (\<lambda>v. Inr (ustr k, v))) names) (\<lambda>ps. Inr (JObj ps))"

definition int_of :: "json \<Rightarrow> int result" where
  "int_of v = (case numbers v of JInt i \<Rightarrow> Inr i | _ \<Rightarrow> Inl (PyTypeError ''not supported''))"

text \<open>\<^verbatim>\<open>bytes.fromhex\<close>: pairs of digits, with white space between bytes.\<close>

fun bytes_fromhex :: "pystr \<Rightarrow> bytes result" where
  "bytes_fromhex [] = Inr []"
| "bytes_fromhex (a # s) =
     (if a \<in> {32, 9, 10, 11, 12, 13} then bytes_fromhex s
      else (case s of
          [] \<Rightarrow> Inl (PyValueError ''non-hexadecimal number'')
        | b # r \<Rightarrow>
            (case (unhex a, unhex b) of
               (Some x, Some y) \<Rightarrow> rbind (bytes_fromhex r) (\<lambda>t. Inr ((16 * x + y) # t))
             | _ \<Rightarrow> Inl (PyValueError ''non-hexadecimal number''))))"

definition hex_field :: "json \<Rightarrow> bytes result" where
  "hex_field v = (case v of JStr s \<Rightarrow> bytes_fromhex s | _ \<Rightarrow> Inl (PyTypeError ''fromhex() argument must be str''))"

text \<open>What \<^verbatim>\<open>for item in value\<close> runs over.\<close>

definition json_items :: "json \<Rightarrow> json list result" where
  "json_items v = (case v of
     JArr xs \<Rightarrow> Inr xs
   | JObj ps \<Rightarrow> Inr (map (JStr \<circ> fst) ps)
   | JStr s \<Rightarrow> Inr (map (\<lambda>c. JStr [c]) s)
   | _ \<Rightarrow> Inl (PyTypeError ''not iterable''))"

text \<open>\<^verbatim>\<open>all(value[name] == expected)\<close> along a chain of comparisons, left to right.\<close>

fun fields_are :: "json \<Rightarrow> (string \<times> json) list \<Rightarrow> bool result" where
  "fields_are v [] = Inr True"
| "fields_are v ((k, w) # ps) = rbind (jget v k) (\<lambda>x. if json_same x w then fields_are v ps else Inr False)"

definition exact_dict :: "json \<Rightarrow> string list \<Rightarrow> bool" where
  "exact_dict v names = (case v of JObj ps \<Rightarrow> set (map fst ps) = set (map ustr names) | _ \<Rightarrow> False)"

section \<open>Constants\<close>

definition LEGACY_POLICY_VERSION :: string where "LEGACY_POLICY_VERSION = ''cogs.stage2-kata-network-policy/b1-owner-3''"
definition NFT_GATE_POLICY_VERSION :: string where "NFT_GATE_POLICY_VERSION = ''cogs.stage2-kata-network-policy/b1-owner-4-nft-gate''"
definition POLICY_VERSION :: string where "POLICY_VERSION = ''cogs.stage2-kata-network-policy/b1-owner-5-causal-sensors''"

definition SETUP :: "string list" where
  "SETUP = [''IP_NETNS_ADD'', ''IP_VETH_ADD_ATOMIC'', ''NFT_INSTALL_OWNED'', ''IP_HOST_ADDRESS_ADD'', ''IP_HOST_ADDRGEN_NONE'',
     ''IP_PEER_ADDRGEN_NONE'', ''IP_LOOPBACK_UP'', ''IP_GUEST_ADDRESS_ADD'', ''IP_HOST_LINK_UP'', ''IP_GUEST_LINK_UP'']"

definition REMOVALS :: "string list" where "REMOVALS = [''IP_NETNS_REMOVE'', ''NFT_REMOVE_ATOMIC'']"

definition RECORDS :: "string list" where
  "RECORDS = [''NETWORK_EFFECT_INTENT_V2'', ''NETWORK_EFFECT_OBSERVED_V2'', ''NETWORK_EFFECT_SETTLED_V2'']"

definition OUTPUT_RECORD :: string where "OUTPUT_RECORD = ''NETWORK_OBSERVER_CHUNK_V2''"
definition ORIGINAL_PLACEHOLDER_RECORD :: string where "ORIGINAL_PLACEHOLDER_RECORD = ''NETWORK_ORIGINAL_PLACEHOLDER_V2''"
definition CREATED_NSFS_RECORD :: string where "CREATED_NSFS_RECORD = ''NETWORK_CREATED_NSFS_V2''"

definition QUARANTINE_RECORDS :: "string list" where
  "QUARANTINE_RECORDS = [''NETWORK_QUARANTINE_INTENT_V2'', ''NETWORK_QUARANTINE_PLACEHOLDER_V2'', ''NETWORK_QUARANTINE_MOVED_V2'',
     ''NETWORK_QUARANTINE_SETTLED_V2'', ''NETWORK_DETACH_INTENT_V2'', ''NETWORK_DETACHED_V2'']"

definition SUPPORT_RECORD :: string where "SUPPORT_RECORD = ''NETWORK_CLEANUP_SUPPORT_V3''"
definition PARENT_MOUNT_RECORD :: string where "PARENT_MOUNT_RECORD = ''NETWORK_PRIVATE_PARENT_MOUNT_V3''"
definition DETACHED_CLEANUP_INTENT :: string where "DETACHED_CLEANUP_INTENT = ''NETWORK_DETACHED_CLEANUP_INTENT_V3''"
definition DETACHED_CLEANUP_STEP :: string where "DETACHED_CLEANUP_STEP = ''NETWORK_DETACHED_CLEANUP_STEP_V3''"

definition CLEANUP_OWNERSHIP_RECORDS :: "string list" where
  "CLEANUP_OWNERSHIP_RECORDS = [SUPPORT_RECORD, PARENT_MOUNT_RECORD, DETACHED_CLEANUP_INTENT, DETACHED_CLEANUP_STEP]"

definition SENSOR_RECORD :: string where "SENSOR_RECORD = ''NETWORK_CAUSAL_SENSOR_V1''"
definition SENSOR_PROOF_RECORD :: string where "SENSOR_PROOF_RECORD = ''NETWORK_CAUSAL_PROOF_V1''"

definition ALL_RECORDS :: "string list" where
  "ALL_RECORDS = RECORDS @ QUARANTINE_RECORDS @ CLEANUP_OWNERSHIP_RECORDS @ [SENSOR_RECORD, SENSOR_PROOF_RECORD] @
     [OUTPUT_RECORD, ORIGINAL_PLACEHOLDER_RECORD, CREATED_NSFS_RECORD]"

definition EFFECTS :: "string list" where
  "EFFECTS = [''IP_NETNS_ADD'', ''IP_LINK_ADD'', ''IP_LINK_MOVE'', ''IP_VETH_ADD_ATOMIC'', ''IP_HOST_ADDRESS_ADD'', ''IP_HOST_ADDRGEN_NONE'',
     ''IP_HOST_LINK_UP'', ''IP_PEER_RENAME'', ''IP_PEER_ADDRGEN_NONE'', ''IP_LOOPBACK_UP'', ''IP_GUEST_ADDRESS_ADD'', ''IP_GUEST_LINK_UP'',
     ''IP_HOST_LINK_REMOVE'', ''IP_NETNS_REMOVE'', ''NFT_INSTALL'', ''NFT_INSTALL_OWNED'', ''NFT_REMOVE'', ''NFT_REMOVE_ATOMIC'']"

section \<open>Command traces\<close>

definition PARTIAL :: "string list" where "PARTIAL = [''IP_ALL_LINKS'', ''IP_NS_LINKS'']"

definition setup_effect_trace :: "nat \<Rightarrow> string \<Rightarrow> string list" where
  "setup_effect_trace index action =
     (if index = 0 then PARTIAL
      else if index < 2 then action # PARTIAL
      else if index < length SETUP - 1 then action # PARTIAL @ [''NFT_TABLE'']
      else [action, ''IP_HOST_LINKS'', ''IP_HOST_ADDRESSES'', ''IP_HOST_ROUTES4'', ''IP_HOST_ROUTES6'', ''IP_NS_LINKS'', ''IP_NS_ADDRESSES'',
            ''IP_NS_ROUTES4'', ''IP_NS_ROUTES6'', ''NFT_TABLE'', ''TC_QDISC'', ''TC_INGRESS_FILTER''])"

definition EFFECT_COMMAND_TRACES :: "(string \<times> string list) list" where
  "EFFECT_COMMAND_TRACES = map (\<lambda>(i, a). (a, setup_effect_trace i a)) (enumerate 0 SETUP) @
     [(''IP_NETNS_REMOVE'', [''IP_ALL_LINKS'', ''NFT_TABLE'']),
      (''NFT_REMOVE_ATOMIC'', [''NFT_TABLE'', ''NFT_REMOVE_ATOMIC'', ''NFT_RULESET'', ''IP_ALL_LINKS''])]"

definition LEGACY_EFFECT_COMMAND_TRACES :: "(string \<times> string list) list" where
  "LEGACY_EFFECT_COMMAND_TRACES = map (\<lambda>(a, t). (a, if a = ''NFT_REMOVE_ATOMIC'' then [''NFT_REMOVE_ATOMIC'', ''NFT_RULESET'', ''IP_ALL_LINKS''] else t))
     EFFECT_COMMAND_TRACES"

definition dict_null :: "json \<Rightarrow> string \<Rightarrow> bool result" where
  "dict_null v k = (case v of
     JObj ps \<Rightarrow> Inr (map_of ps (ustr k) = None \<or> map_of ps (ustr k) = Some JNull)
   | _ \<Rightarrow> Inl (PyTypeError ''no attribute get''))"

definition effect_command_trace :: "json \<Rightarrow> json \<Rightarrow> json \<Rightarrow> json list result" where
  "effect_command_trace action target policy_version =
     jfail (jmember policy_version [POLICY_VERSION, NFT_GATE_POLICY_VERSION, LEGACY_POLICY_VERSION])
     (let traces = (if policy_version = jstr LEGACY_POLICY_VERSION then LEGACY_EFFECT_COMMAND_TRACES else EFFECT_COMMAND_TRACES) in
      (case map_of (map (\<lambda>(a, t). (jstr a, t)) traces) action of
         None \<Rightarrow> Inl PyKeyError
       | Some trace \<Rightarrow>
           if action = jstr ''IP_NETNS_REMOVE'' then
             rbind (dict_null target ''nft'') (\<lambda>absent. Inr (map jstr (if absent then [''IP_ALL_LINKS''] else trace)))
           else Inr (map jstr trace)))"

section \<open>Cleanup brackets\<close>

text \<open>\<^verbatim>\<open>CLEANUP_INTENTS\<close>: the phases in which an intent may start, the phase that completes it, its acknowledgement.\<close>

definition CLEANUP_INTENTS :: "(string \<times> string list \<times> string \<times> string option) list" where
  "CLEANUP_INTENTS =
    [(''NETWORK_CLEANUP_INTENT_V1'', [''TASK_STOPPED'', ''OWNERSHIP_OBSERVED''], ''NETWORK_ABSENT'', None),
     (''FIREWALL_CLEANUP_INTENT_V1'', [''SHARE_ABSENT''], ''FIREWALL_ABSENT'', None),
     (''NETWORK_CLEANUP_INTENT_V2'', [''BASELINES_CAPTURED'', ''TASK_STOPPED'', ''RUNTIME_ABSENT'', ''RUNTIME_CLEANUP_ONLY''], ''NETWORK_ABSENT'',
      Some ''NETWORK_CLEANUP_SETTLED_V2''),
     (''FIREWALL_CLEANUP_INTENT_V2'', [''SHARE_ABSENT''], ''FIREWALL_ABSENT'', Some ''FIREWALL_CLEANUP_SETTLED_V2'')]"

definition CLEANUP_SETTLED :: "string list" where
  "CLEANUP_SETTLED = [''NETWORK_CLEANUP_SETTLED_V2'', ''FIREWALL_CLEANUP_SETTLED_V2'']"

definition CLEANUP_TARGETS :: "(string \<times> string \<times> string) list" where
  "CLEANUP_TARGETS = [(''network'', ''NETWORK_CLEANUP_INTENT_V1'', ''NETWORK_CLEANUP_INTENT_V2''),
     (''firewall'', ''FIREWALL_CLEANUP_INTENT_V1'', ''FIREWALL_CLEANUP_INTENT_V2'')]"

definition CLEANUP_RECORDS :: "string list" where
  "CLEANUP_RECORDS = [''COMMAND_INTENT_V2'', ''COMMAND_PREEXEC_V2'', ''COMMAND_OUTPUT_V3'', ''COMMAND_OUTCOME_V2'', ''NETWORK_SNAPSHOT_V2'',
     ''UNCERTAIN''] @ ALL_RECORDS"

definition completes :: "string \<Rightarrow> string \<Rightarrow> bool" where
  "completes active kind = (case map_of CLEANUP_INTENTS active of
     None \<Rightarrow> False
   | Some (from_phases, completion, acknowledgement) \<Rightarrow>
       (case acknowledgement of Some a \<Rightarrow> kind = a | None \<Rightarrow> kind = completion))"

fun active_loop :: "string option \<Rightarrow> string list \<Rightarrow> string option result" where
  "active_loop active [] = Inr active"
| "active_loop active (kind # kinds) =
     (if map_of CLEANUP_INTENTS kind \<noteq> None then jfail (active = None) (active_loop (Some kind) kinds)
      else (case active of
          None \<Rightarrow> active_loop None kinds
        | Some a \<Rightarrow> active_loop (if completes a kind then None else Some a) kinds))"

definition active_cleanup :: "string list \<Rightarrow> string option result" where
  "active_cleanup kinds = active_loop None kinds"

definition journal_cleanup_step :: "string option \<Rightarrow> string \<Rightarrow> string \<Rightarrow> (string option \<times> bool) result" where
  "journal_cleanup_step active kind phase =
     (case active of
        Some a \<Rightarrow>
          (case map_of CLEANUP_INTENTS a of
             None \<Rightarrow> Inl PyKeyError
           | Some (from_phases, completion, acknowledgement) \<Rightarrow>
               jfail (kind \<in> set CLEANUP_RECORDS \<or> kind = completion \<or> Some kind = acknowledgement)
               (if Some kind = acknowledgement then jfail (phase = completion) (Inr (None, True))
                else Inr (if acknowledgement = None \<and> kind = completion then None else Some a, False)))
      | None \<Rightarrow>
          (case map_of CLEANUP_INTENTS kind of
             Some (from_phases, completion, acknowledgement) \<Rightarrow> jfail (phase \<in> set from_phases) (Inr (Some kind, True))
           | None \<Rightarrow> jfail (kind \<notin> set CLEANUP_SETTLED) (Inr (None, False))))"

text \<open>
  Opening and settling a cleanup of a target. The journal is the list of record kinds \<^verbatim>\<open>reload\<close> returned, \<open>phase\<close> is
  what \<^verbatim>\<open>legal\<close> says of it (or its error), and the result is the kind that is written, if any.
\<close>

definition begin_cleanup :: "string \<Rightarrow> string \<Rightarrow> string list \<Rightarrow> string result \<Rightarrow> string option result" where
  "begin_cleanup target status kinds legal =
     (case map_of CLEANUP_TARGETS target of
        None \<Rightarrow> Inl (PyValueError ''network journal'')
      | Some (v1, v2) \<Rightarrow>
          jfail (status = ''exact'' \<and> kinds \<noteq> [])
          (rbind (active_cleanup kinds) (\<lambda>active.
           (case active of
              Some a \<Rightarrow> jfail (a = v1 \<or> a = v2) (Inr None)
            | None \<Rightarrow>
                rbind legal (\<lambda>phase.
                (case map_of CLEANUP_INTENTS v2 of
                   None \<Rightarrow> Inl PyKeyError
                 | Some (from_phases, _) \<Rightarrow> jfail (phase \<in> set from_phases) (Inr (Some v2))))))))"

definition latest_intent :: "string list \<Rightarrow> string option" where
  "latest_intent kinds = List.find (\<lambda>k. map_of CLEANUP_INTENTS k \<noteq> None) (rev kinds)"

definition settle_cleanup :: "string \<Rightarrow> string \<Rightarrow> string list \<Rightarrow> string result \<Rightarrow> string option result" where
  "settle_cleanup target status kinds legal =
     (case map_of CLEANUP_TARGETS target of
        None \<Rightarrow> Inl (PyValueError ''network journal'')
      | Some (v1, v2) \<Rightarrow>
          jfail (status = ''exact'' \<and> kinds \<noteq> [])
          (rbind (active_cleanup kinds) (\<lambda>active. rbind legal (\<lambda>phase.
           (case active of
              None \<Rightarrow>
                (case map_of CLEANUP_INTENTS v1 of
                   None \<Rightarrow> Inl PyKeyError
                 | Some (_, completion, _) \<Rightarrow> jfail (latest_intent kinds = Some v1 \<and> phase = completion) (Inr None))
            | Some a \<Rightarrow>
                jfail (a = v2)
                (case map_of CLEANUP_INTENTS a of
                   None \<Rightarrow> Inl PyKeyError
                 | Some (_, completion, acknowledgement) \<Rightarrow>
                     jfail (phase = completion \<and> acknowledgement \<noteq> None) (Inr acknowledgement)))))))"

end
