(* ===== verification/NetworkCommands.thy ===== *)
theory NetworkCommands
  imports NetworkJournal
begin

text \<open>
  The closed table of commands of the network facet (\<^verbatim>\<open>remote/completion_kata_actions.py\<close> and the head of
  \<^verbatim>\<open>remote/completion_kata_network.py\<close>). A member of the enumeration \<^verbatim>\<open>CommandId\<close> is its value, a string; the members of
  the compatibility spelling are the same values.
\<close>

section \<open>Command identities\<close>

definition COMMAND_IDS :: "string list" where
  "COMMAND_IDS = [
     ''IP_NETNS_ADD'', ''IP_LINK_ADD'', ''IP_LINK_MOVE'', ''IP_VETH_ADD_ATOMIC'', ''IP_HOST_ADDRESS_ADD'', ''IP_HOST_ADDRGEN_NONE'',
     ''IP_HOST_LINK_UP'', ''IP_PEER_RENAME'', ''IP_PEER_ADDRGEN_NONE'', ''IP_LOOPBACK_UP'', ''IP_GUEST_ADDRESS_ADD'', ''IP_GUEST_LINK_UP'',
     ''IP_HOST_LINK_REMOVE'', ''IP_NETNS_REMOVE'', ''IP_HOST_LINKS'', ''IP_HOST_ADDRESSES'', ''IP_HOST_ROUTES4'', ''IP_HOST_ROUTES6'',
     ''IP_NS_LINKS'', ''IP_NS_ADDRESSES'', ''IP_NS_ROUTES4'', ''IP_NS_ROUTES6'', ''IP_NETNS_LIST'', ''IP_ALL_LINKS'', ''IP_ALL_ADDRESSES'',
     ''IP_ALL_ROUTES4'', ''IP_ALL_ROUTES6'', ''TC_QDISC'', ''TC_INGRESS_FILTER'', ''NFT_INSTALL'', ''NFT_INSTALL_OWNED'', ''NFT_REMOVE'',
     ''NFT_REMOVE_ATOMIC'', ''NFT_TABLE'', ''NFT_RULESET'', ''SSH_KEYGEN_CLIENT'', ''SSH_KEYGEN_SERVER'', ''SSH_PUBLIC_CLIENT'',
     ''SSH_PUBLIC_SERVER'', ''CONTAINERD_START'', ''CTR_RUN'', ''CTR_CONTAINER_INFO'', ''CTR_CONTAINER_LIST'', ''CTR_TASK_LIST'', ''CTR_TASK_TERM'',
     ''CTR_TASK_KILL'', ''CTR_TASK_REMOVE'', ''CTR_CONTAINER_REMOVE'', ''SSH_READY'', ''SSH_READINESS'']"

section \<open>Fixed texts\<close>

definition NETNS :: string where "NETNS = ''cogs-stage2-ssh''"
definition HOST_IF :: string where "HOST_IF = ''c42h0''"
definition TEMP_IF :: string where "TEMP_IF = ''c42g0''"
definition GUEST_IF :: string where "GUEST_IF = ''eth0''"
definition HOST_MAC :: string where "HOST_MAC = ''02:00:00:42:00:01''"
definition GUEST_MAC :: string where "GUEST_MAC = ''02:00:00:42:00:02''"
definition HOST_CIDR :: string where "HOST_CIDR = ''192.0.2.1/30''"
definition GUEST_CIDR :: string where "GUEST_CIDR = ''192.0.2.2/30''"
definition TABLE :: string where "TABLE = ''cogs_stage2_ssh_v1''"
definition IP_CONTRACT :: string where "IP_CONTRACT = ''iproute2-json-qualification-candidate-v1''"
definition TC_CONTRACT :: string where "TC_CONTRACT = ''tc-json-qualification-candidate-v1''"
definition NFT_CONTRACT :: string where "NFT_CONTRACT = ''libnftables-json-qualification-candidate-v1''"

text \<open>A text of lines, each with its line feed.\<close>

definition script :: "string list \<Rightarrow> bytes" where
  "script rows = concat (map (\<lambda>row. ustr row @ [10]) rows)"

definition NFT_TRANSACTION :: bytes where
  \<open>NFT_TRANSACTION = script [
     ''add table inet cogs_stage2_ssh_v1'',
     ''add chain inet cogs_stage2_ssh_v1 input { type filter hook input priority filter; policy accept; }'',
     ''add chain inet cogs_stage2_ssh_v1 output { type filter hook output priority filter; policy accept; }'',
     ''add chain inet cogs_stage2_ssh_v1 forward { type filter hook forward priority filter; policy accept; }'',
     ''add rule inet cogs_stage2_ssh_v1 input iifname "c42h0" ip saddr 192.0.2.2 ip daddr 192.0.2.1 tcp dport 2222 counter drop'',
     ''add rule inet cogs_stage2_ssh_v1 input iifname "c42h0" ip saddr 192.0.2.2 ip daddr 192.0.2.1 udp dport 5353 counter drop'',
     ''add rule inet cogs_stage2_ssh_v1 input iifname "c42h0" ip saddr 192.0.2.2 ip daddr 192.0.2.1 tcp sport 22 ct state established counter accept'',
     ''add rule inet cogs_stage2_ssh_v1 input iifname "c42h0" counter drop'',
     ''add rule inet cogs_stage2_ssh_v1 output oifname "c42h0" ip saddr 192.0.2.1 ip daddr 192.0.2.2 tcp dport 22 ct state new,established counter accept'',
     ''add rule inet cogs_stage2_ssh_v1 output oifname "c42h0" counter drop'',
     ''add rule inet cogs_stage2_ssh_v1 forward iifname "c42h0" ip saddr 192.0.2.2 ip daddr 198.51.100.1 tcp dport 443 counter drop'',
     ''add rule inet cogs_stage2_ssh_v1 forward iifname "c42h0" ip saddr 192.0.2.2 ip daddr 198.51.100.1 udp dport 443 counter drop'',
     ''add rule inet cogs_stage2_ssh_v1 forward iifname "c42h0" counter drop'',
     ''add rule inet cogs_stage2_ssh_v1 forward oifname "c42h0" counter drop'']\<close>

definition NFT_LEGACY_TRANSACTION :: bytes where
  \<open>NFT_LEGACY_TRANSACTION = script [
     ''add table inet cogs_stage2_ssh_v1'',
     ''add chain inet cogs_stage2_ssh_v1 input { type filter hook input priority filter; policy accept; }'',
     ''add chain inet cogs_stage2_ssh_v1 output { type filter hook output priority filter; policy accept; }'',
     ''add chain inet cogs_stage2_ssh_v1 forward { type filter hook forward priority filter; policy accept; }'',
     ''add rule inet cogs_stage2_ssh_v1 output oifname "c42h0" ip saddr 192.0.2.1 ip daddr 192.0.2.2 tcp dport 22 ct state new,established accept'',
     ''add rule inet cogs_stage2_ssh_v1 output oifname "c42h0" drop'',
     ''add rule inet cogs_stage2_ssh_v1 input iifname "c42h0" ip saddr 192.0.2.2 ip daddr 192.0.2.1 tcp sport 22 ct state established accept'',
     ''add rule inet cogs_stage2_ssh_v1 input iifname "c42h0" drop'',
     ''add rule inet cogs_stage2_ssh_v1 forward iifname "c42h0" drop'',
     ''add rule inet cogs_stage2_ssh_v1 forward oifname "c42h0" drop'']\<close>

text \<open>\<^verbatim>\<open>value.replace(old, new)\<close> and \<^verbatim>\<open>value.replace(old, new, 1)\<close> for a text \<^verbatim>\<open>old\<close> that is not empty.\<close>

fun replace_all :: "'a list \<Rightarrow> 'a list \<Rightarrow> 'a list \<Rightarrow> 'a list" where
  "replace_all old new [] = []"
| "replace_all old new (c # s) =
     (if starts_with old (c # s) then new @ replace_all old new (drop (length old - 1) s) else c # replace_all old new s)"

fun replace_first :: "'a list \<Rightarrow> 'a list \<Rightarrow> 'a list \<Rightarrow> 'a list" where
  "replace_first old new [] = []"
| "replace_first old new (c # s) = (if starts_with old (c # s) then new @ drop (length old - 1) s else c # replace_first old new s)"

definition NFT_OWNED_TRANSACTION :: bytes where
  \<open>NFT_OWNED_TRANSACTION = replace_first (script [''add table inet cogs_stage2_ssh_v1''])
     (script [''add table inet cogs_stage2_ssh_v1 { comment "owner:cogs_stage2_ssh_v1"; }'']) NFT_TRANSACTION\<close>

section \<open>The table\<close>

record fixed_command =
  fc_action :: string
  fc_tool_contract :: string
  fc_argv_tail :: "string list"
  fc_stdin :: bytes

definition MUTATION_COMMANDS :: "fixed_command list" where
  "MUTATION_COMMANDS = map (\<lambda>(action, contract, argv, stdin). \<lparr>fc_action = action, fc_tool_contract = contract, fc_argv_tail = argv, fc_stdin = stdin\<rparr>) [
     (''IP_NETNS_ADD'', IP_CONTRACT, [''netns'', ''add'', NETNS], []),
     (''IP_LINK_ADD'', IP_CONTRACT, [''link'', ''add'', ''name'', HOST_IF, ''address'', HOST_MAC, ''type'', ''veth'', ''peer'', ''name'', TEMP_IF, ''address'', GUEST_MAC], []),
     (''IP_LINK_MOVE'', IP_CONTRACT, [''link'', ''set'', ''dev'', TEMP_IF, ''netns'', NETNS], []),
     (''IP_VETH_ADD_ATOMIC'', IP_CONTRACT, [''link'', ''add'', ''name'', HOST_IF, ''address'', HOST_MAC, ''type'', ''veth'', ''peer'', ''name'', GUEST_IF, ''address'', GUEST_MAC, ''netns'', NETNS], []),
     (''IP_HOST_ADDRESS_ADD'', IP_CONTRACT, [''address'', ''add'', HOST_CIDR, ''dev'', HOST_IF], []),
     (''IP_HOST_ADDRGEN_NONE'', IP_CONTRACT, [''link'', ''set'', ''dev'', HOST_IF, ''addrgenmode'', ''none''], []),
     (''IP_HOST_LINK_UP'', IP_CONTRACT, [''link'', ''set'', ''dev'', HOST_IF, ''up''], []),
     (''IP_PEER_RENAME'', IP_CONTRACT, [''-n'', NETNS, ''link'', ''set'', ''dev'', TEMP_IF, ''name'', GUEST_IF], []),
     (''IP_PEER_ADDRGEN_NONE'', IP_CONTRACT, [''-n'', NETNS, ''link'', ''set'', ''dev'', GUEST_IF, ''addrgenmode'', ''none''], []),
     (''IP_LOOPBACK_UP'', IP_CONTRACT, [''-n'', NETNS, ''link'', ''set'', ''dev'', ''lo'', ''up''], []),
     (''IP_GUEST_ADDRESS_ADD'', IP_CONTRACT, [''-n'', NETNS, ''address'', ''add'', GUEST_CIDR, ''dev'', GUEST_IF], []),
     (''IP_GUEST_LINK_UP'', IP_CONTRACT, [''-n'', NETNS, ''link'', ''set'', ''dev'', GUEST_IF, ''up''], []),
     (''NFT_INSTALL'', NFT_CONTRACT, [''-f'', ''-''], NFT_LEGACY_TRANSACTION),
     (''NFT_INSTALL_OWNED'', NFT_CONTRACT, [''-f'', ''-''], NFT_OWNED_TRANSACTION),
     (''NFT_REMOVE'', NFT_CONTRACT, [''delete'', ''table'', ''inet'', TABLE], []),
     (''NFT_REMOVE_ATOMIC'', NFT_CONTRACT, [''delete'', ''table'', ''inet'', TABLE], []),
     (''IP_HOST_LINK_REMOVE'', IP_CONTRACT, [''link'', ''delete'', ''dev'', HOST_IF], []),
     (''IP_NETNS_REMOVE'', IP_CONTRACT, [''netns'', ''delete'', NETNS], [])]"

definition OBSERVER_COMMANDS :: "fixed_command list" where
  "OBSERVER_COMMANDS = map (\<lambda>(action, contract, argv, stdin). \<lparr>fc_action = action, fc_tool_contract = contract, fc_argv_tail = argv, fc_stdin = stdin\<rparr>) [
     (''IP_HOST_LINKS'', IP_CONTRACT, [''-j'', ''-d'', ''link'', ''show'', ''dev'', HOST_IF], []),
     (''IP_HOST_ADDRESSES'', IP_CONTRACT, [''-j'', ''address'', ''show'', ''dev'', HOST_IF], []),
     (''IP_HOST_ROUTES4'', IP_CONTRACT, [''-4'', ''-j'', ''route'', ''show'', ''table'', ''all'', ''dev'', HOST_IF], []),
     (''IP_HOST_ROUTES6'', IP_CONTRACT, [''-6'', ''-j'', ''route'', ''show'', ''table'', ''all'', ''dev'', HOST_IF], []),
     (''IP_NS_LINKS'', IP_CONTRACT, [''-n'', NETNS, ''-j'', ''-d'', ''link'', ''show''], []),
     (''IP_NS_ADDRESSES'', IP_CONTRACT, [''-n'', NETNS, ''-j'', ''address'', ''show''], []),
     (''IP_NS_ROUTES4'', IP_CONTRACT, [''-n'', NETNS, ''-4'', ''-j'', ''route'', ''show'', ''table'', ''all''], []),
     (''IP_NS_ROUTES6'', IP_CONTRACT, [''-n'', NETNS, ''-6'', ''-j'', ''route'', ''show'', ''table'', ''all''], []),
     (''NFT_TABLE'', NFT_CONTRACT, [''-j'', ''list'', ''table'', ''inet'', TABLE], []),
     (''IP_NETNS_LIST'', IP_CONTRACT, [''-j'', ''netns'', ''list''], []),
     (''IP_ALL_LINKS'', IP_CONTRACT, [''-j'', ''-d'', ''link'', ''show''], []),
     (''IP_ALL_ADDRESSES'', IP_CONTRACT, [''-j'', ''address'', ''show''], []),
     (''IP_ALL_ROUTES4'', IP_CONTRACT, [''-4'', ''-j'', ''route'', ''show'', ''table'', ''all''], []),
     (''IP_ALL_ROUTES6'', IP_CONTRACT, [''-6'', ''-j'', ''route'', ''show'', ''table'', ''all''], []),
     (''NFT_RULESET'', NFT_CONTRACT, [''-j'', ''list'', ''ruleset''], []),
     (''TC_QDISC'', TC_CONTRACT, [''-n'', NETNS, ''-j'', ''qdisc'', ''show'', ''dev'', GUEST_IF], []),
     (''TC_INGRESS_FILTER'', TC_CONTRACT, [''-n'', NETNS, ''-j'', ''filter'', ''show'', ''dev'', GUEST_IF, ''ingress''], [])]"

definition command :: "json \<Rightarrow> fixed_command result" where
  "command action =
     require (jmember action COMMAND_IDS) (PyValueError ''not a valid CommandId'')
     (case List.find (\<lambda>row. jstr (fc_action row) = action) (MUTATION_COMMANDS @ OBSERVER_COMMANDS) of
        None \<Rightarrow> Inl (NetworkError ''unknown action'')
      | Some row \<Rightarrow> Inr row)"

section \<open>Names bound to an operation\<close>

definition is_hexchar :: "nat \<Rightarrow> bool" where
  "is_hexchar c \<longleftrightarrow> c \<in> set (ustr ''0123456789abcdef'')"

text \<open>\<^verbatim>\<open>c42\<close>, one of the letters, ten hexadecimal digits.\<close>

definition bound_name :: "string \<Rightarrow> nat list \<Rightarrow> bool" where
  "bound_name letters s \<longleftrightarrow> length s = 14 \<and> take 3 s = ustr ''c42'' \<and> s ! 3 \<in> set (ustr letters) \<and> list_all is_hexchar (drop 4 s)"

definition some_suffix :: "('a list \<Rightarrow> bool) \<Rightarrow> 'a list \<Rightarrow> bool" where
  "some_suffix p s \<longleftrightarrow> list_ex (\<lambda>i. p (drop i s)) [0..<Suc (length s)]"

definition contains :: "'a list \<Rightarrow> 'a list \<Rightarrow> bool" where
  "contains part s = some_suffix (starts_with part) s"

text \<open>The fixed names of a command line replaced by those of the operation.\<close>

definition bind_item :: "pystr \<Rightarrow> pystr \<Rightarrow> pystr \<Rightarrow> string \<Rightarrow> pystr" where
  "bind_item table netns host item =
     (if item = TABLE then table else if item = NETNS then netns else if item = HOST_IF then host else ustr item)"

definition tool_role :: "fixed_command \<Rightarrow> string" where
  "tool_role row = (if starts_with ''libnftables'' (fc_tool_contract row) then ''nft'' else ''ip'')"

end
