(* ===== verification/NetworkRecords.thy ===== *)
theory NetworkRecords
  imports NetworkJournal
begin

text \<open>
  The envelope of a network record (\<^verbatim>\<open>validate\<close> of \<^verbatim>\<open>remote/completion_kata_network_journal.py\<close>): its fields, its proof, which
  is the digest of its canonical encoding without the proof, and the shape of the values. The canonical encoding is
  \<^verbatim>\<open>_canonical\<close> of \<^verbatim>\<open>remote/completion_kata_operation.py\<close>. Once a set of keys has been checked, a member is read with \<open>at\<close>.
\<close>

definition journal_canonical :: "json \<Rightarrow> bytes result" where
  "journal_canonical v = (case utf8_encode (json_dumps v) of
     None \<Rightarrow> Inl PyUnicodeError
   | Some text \<Rightarrow> Inr (text @ [10]))"

definition hex_digest :: "json \<Rightarrow> bool" where
  "hex_digest v = (case v of
     JStr s \<Rightarrow> length s = 64 \<and> set s \<subseteq> set (ustr ''0123456789abcdef'') \<and> s \<noteq> replicate 64 48
   | _ \<Rightarrow> False)"

definition RECORD_FIELDS :: "(string \<times> string list) list" where
  "RECORD_FIELDS =
    [(ORIGINAL_PLACEHOLDER_RECORD, [''original_name'', ''placeholder'']),
     (CREATED_NSFS_RECORD, [''helper_pid'', ''identity'']),
     (SUPPORT_RECORD, [''support'']), (PARENT_MOUNT_RECORD, [''parent_mount'']),
     (DETACHED_CLEANUP_INTENT, [''authority'']),
     (DETACHED_CLEANUP_STEP, [''resource'', ''action'', ''identity'']),
     (OUTPUT_RECORD, [''observation_serial'', ''source_id'', ''command_serial'', ''chunk_index'', ''chunk_count'', ''output_sha256'',
        ''output_length'', ''raw_hex'']),
     (''NETWORK_SNAPSHOT_V2'', [''snapshot_kind'', ''baselines'', ''sources'', ''identity'']),
     (SENSOR_RECORD, [''stage'', ''source'', ''static_sha256'', ''counters'']),
     (SENSOR_PROOF_RECORD, [''before_proof_sha256'', ''after_proof_sha256'', ''deltas'', ''marker_sha256'', ''route_sha256'', ''causal_proof_sha256''])]"

definition journal_fields :: "string \<Rightarrow> string list option" where
  "journal_fields kind =
     (if kind \<in> set QUARANTINE_RECORDS then Some [''original_name'', ''quarantine_name'', ''target'', ''placeholder'', ''preserved'']
      else if kind \<in> set RECORDS then
        Some ([''effect_serial'', ''action'', ''prior_proof_sha256'', ''target''] @
          (if kind \<noteq> ''NETWORK_EFFECT_INTENT_V2'' then [''disposition'', ''sources'', ''identity''] else []))
      else map_of RECORD_FIELDS kind)"

text \<open>\<^verbatim>\<open>{key: value for key, value in body.items() if key != "proof_sha256"}\<close>.\<close>

definition without_proof :: "json \<Rightarrow> json" where
  "without_proof body = (case body of JObj ps \<Rightarrow> JObj (filter (\<lambda>p. fst p \<noteq> ustr ''proof_sha256'') ps) | v \<Rightarrow> v)"

definition check_proof :: "digest_fun \<Rightarrow> json \<Rightarrow> unit result" where
  "check_proof H body =
     rbind (jget body ''proof_sha256'') (\<lambda>stated.
     jfail (hex_digest stated)
     (rbind (journal_canonical (without_proof body)) (\<lambda>raw. jfail (JStr (H raw) = stated) (Inr ()))))"

section \<open>Shapes\<close>

definition at :: "json \<Rightarrow> string \<Rightarrow> json" where
  "at v k = (case jget v k of Inr x \<Rightarrow> x | Inl _ \<Rightarrow> JNull)"

fun int_from :: "int \<Rightarrow> json \<Rightarrow> bool" where
  "int_from low (JInt i) = (low \<le> i)"
| "int_from low _ = False"

fun int_upto :: "int \<Rightarrow> json \<Rightarrow> bool" where
  "int_upto high (JInt i) = (i \<le> high)"
| "int_upto high _ = False"

fun is_str :: "json \<Rightarrow> bool" where
  "is_str (JStr s) = True"
| "is_str _ = False"

definition array_of :: "(json list \<Rightarrow> bool) \<Rightarrow> json \<Rightarrow> bool" where
  "array_of p v = (case v of JArr xs \<Rightarrow> p xs | _ \<Rightarrow> False)"

definition STAT_FIELDS :: "string list" where
  "STAT_FIELDS = [''device'', ''inode'', ''mode'', ''uid'', ''gid'', ''nlink'', ''size'', ''mtime_ns'', ''ctime_ns'']"

definition exact_stat :: "json \<Rightarrow> bool" where
  "exact_stat v \<longleftrightarrow> exact_dict v STAT_FIELDS \<and> list_all (\<lambda>k. int_from 0 (at v k)) STAT_FIELDS \<and>
     int_from 1 (at v ''device'') \<and> int_from 1 (at v ''inode'')"

definition exact_mount :: "json \<Rightarrow> bool" where
  "exact_mount v \<longleftrightarrow>
     exact_dict v [''mount_id'', ''parent_id'', ''device'', ''root'', ''mount_point'', ''mount_options'', ''optional_fields'', ''fs_type'', ''source'',
       ''super_options'', ''inode_device'', ''inode''] \<and>
     list_all (\<lambda>k. int_from 1 (at v k)) [''mount_id'', ''parent_id'', ''inode_device'', ''inode''] \<and>
     list_all (\<lambda>k. is_str (at v k)) [''device'', ''root'', ''mount_point'', ''fs_type'', ''source''] \<and>
     list_all (\<lambda>k. array_of (list_all is_str) (at v k)) [''mount_options'', ''optional_fields'', ''super_options'']"

definition support_shape :: "json \<Rightarrow> bool" where
  "support_shape v \<longleftrightarrow> exact_dict v [''preserved_directory'', ''parent_stage_directory''] \<and>
     exact_stat (at v ''preserved_directory'') \<and> exact_stat (at v ''parent_stage_directory'')"

definition authority_shape :: "json \<Rightarrow> bool" where
  "authority_shape v \<longleftrightarrow> exact_dict v [''support'', ''parent_mount'', ''placeholders''] \<and> support_shape (at v ''support'') \<and>
     exact_mount (at v ''parent_mount'') \<and> exact_dict (at v ''placeholders'') [''original'', ''quarantine''] \<and>
     exact_stat (at (at v ''placeholders'') ''original'') \<and> exact_stat (at (at v ''placeholders'') ''quarantine'')"

definition step_shape :: "json \<Rightarrow> bool" where
  "step_shape body \<longleftrightarrow>
     jmember (at body ''resource'') [''original-placeholder'', ''quarantine-placeholder'', ''preserved-directory'', ''parent-mount'', ''parent-stage-directory''] \<and>
     jmember (at body ''action'') [''relocated'', ''removed''] \<and>
     (if at body ''resource'' = jstr ''parent-mount'' then exact_mount (at body ''identity'') else exact_stat (at body ''identity''))"

definition counter_shape :: "json \<Rightarrow> bool" where
  "counter_shape row \<longleftrightarrow> exact_dict row [''sensor'', ''chain'', ''ordinal'', ''handle'', ''packets'', ''bytes''] \<and>
     is_str (at row ''sensor'') \<and> is_str (at row ''chain'') \<and>
     list_all (\<lambda>k. int_from 0 (at row k)) [''ordinal'', ''handle'', ''packets'', ''bytes''] \<and> int_from 1 (at row ''handle'') \<and>
     int_upto (2 ^ 64 - 1) (at row ''packets'') \<and> int_upto (2 ^ 64 - 1) (at row ''bytes'')"

definition sensor_shape :: "json \<Rightarrow> bool" where
  "sensor_shape body \<longleftrightarrow> at body ''policy_version'' = jstr POLICY_VERSION \<and> jmember (at body ''stage'') [''before'', ''after''] \<and>
     exact_dict (at body ''source'') [''observation_serial'', ''source_id'', ''output_sha256'', ''output_length''] \<and>
     int_from 0 (at (at body ''source'') ''observation_serial'') \<and> at (at body ''source'') ''source_id'' = jstr ''NFT_TABLE'' \<and>
     int_from 1 (at (at body ''source'') ''output_length'') \<and> int_upto 262144 (at (at body ''source'') ''output_length'') \<and>
     hex_digest (at (at body ''source'') ''output_sha256'') \<and> hex_digest (at body ''static_sha256'') \<and>
     array_of (\<lambda>rows. length rows = 10 \<and> list_all counter_shape rows) (at body ''counters'')"

definition delta_shape :: "json \<Rightarrow> bool" where
  "delta_shape row = (case row of
     JArr [sensor, category, JInt packets, JInt octets] \<Rightarrow>
       is_str sensor \<and> jmember category [''positive'', ''denied-sibling'', ''zero''] \<and> 0 \<le> packets \<and> 0 \<le> octets \<and>
       (category = jstr ''positive'' \<longrightarrow> 0 < packets \<and> 0 < octets) \<and>
       (category = jstr ''zero'' \<longrightarrow> packets = 0 \<and> octets = 0) \<and>
       (category = jstr ''denied-sibling'' \<longrightarrow> sensor = jstr ''output-other-drop'')
   | _ \<Rightarrow> False)"

definition proof_shape :: "json \<Rightarrow> bool" where
  "proof_shape body \<longleftrightarrow> at body ''policy_version'' = jstr POLICY_VERSION \<and>
     list_all (\<lambda>k. hex_digest (at body k)) [''before_proof_sha256'', ''after_proof_sha256'', ''marker_sha256'', ''route_sha256'', ''causal_proof_sha256''] \<and>
     array_of (\<lambda>rows. length rows = 10 \<and> list_all delta_shape rows) (at body ''deltas'')"

definition shape_ok :: "string \<Rightarrow> json \<Rightarrow> bool" where
  "shape_ok kind body =
     (if kind = SUPPORT_RECORD then support_shape (at body ''support'')
      else if kind = PARENT_MOUNT_RECORD then exact_mount (at body ''parent_mount'')
      else if kind = DETACHED_CLEANUP_INTENT then authority_shape (at body ''authority'')
      else if kind = DETACHED_CLEANUP_STEP then step_shape body
      else if kind = SENSOR_RECORD then sensor_shape body
      else if kind = SENSOR_PROOF_RECORD then proof_shape body
      else True)"

definition validate_record :: "digest_fun \<Rightarrow> string \<Rightarrow> json \<Rightarrow> unit result" where
  "validate_record H kind body = (case journal_fields kind of
     None \<Rightarrow> Inl (PyValueError ''network journal'')
   | Some names \<Rightarrow>
       let checked = (kind \<noteq> ''NETWORK_EFFECT_INTENT_V2'') in
       jfail (exact_dict body ([''operation_token'', ''policy_version''] @ names @ (if checked then [''proof_sha256''] else [])))
       (jfail (hex_digest (at body ''operation_token''))
       (jfail (jmember (at body ''policy_version'') [LEGACY_POLICY_VERSION, NFT_GATE_POLICY_VERSION, POLICY_VERSION])
       (rbind (if checked then check_proof H body else Inr ()) (\<lambda>_. jfail (shape_ok kind body) (Inr ()))))))"

end
