(* ===== verification/NetworkReplay.thy ===== *)
theory NetworkReplay
  imports NetworkCommands NetworkRecords
begin

text \<open>
  The replayed state of the network facet and its transition \<^verbatim>\<open>advance\<close>
  (\<^verbatim>\<open>remote/completion_kata_network_journal.py\<close>, second half).
\<close>

section \<open>State\<close>

record observation =
  ob_base :: json
  ob_raw :: bytes

record net_state =
  ns_snapshots :: "json list"
  ns_effects :: "json list"
  ns_pending :: "(string \<times> json \<times> nat) option"
  ns_outcomes :: "json list"
  ns_effect_commands :: "json list"
  ns_effect_replays :: "nat list"
  ns_replay_serials :: "json list"
  ns_current :: json
  ns_policy_version :: json
  ns_observations :: "observation list"
  ns_output_pending :: "(json \<times> bytes list) option"
  ns_quarantine :: "(string \<times> json) option"
  ns_sensors :: "json list"
  ns_sensor_proof :: "json option"
  ns_original_placeholder :: "json option"
  ns_created_nsfs :: "json option"
  ns_support :: "json option"
  ns_parent_mount :: "json option"
  ns_cleanup_authority :: "json option"
  ns_cleanup_steps :: "json list"

definition initial :: net_state where
  "initial = \<lparr>ns_snapshots = [], ns_effects = [], ns_pending = None, ns_outcomes = [], ns_effect_commands = [], ns_effect_replays = [],
     ns_replay_serials = [], ns_current = JNull, ns_policy_version = JNull, ns_observations = [], ns_output_pending = None,
     ns_quarantine = None, ns_sensors = [], ns_sensor_proof = None, ns_original_placeholder = None, ns_created_nsfs = None,
     ns_support = None, ns_parent_mount = None, ns_cleanup_authority = None, ns_cleanup_steps = []\<rparr>"

text \<open>What the replay calls: SHA-256, functions of \<^verbatim>\<open>completion_kata_network.py\<close>, and the check of a
  container launch of \<^verbatim>\<open>completion_kata_runtime.py\<close>.\<close>

record ('p, 's) net_lib =
  nl_sha256 :: digest_fun
  nl_derive_identity :: "json \<Rightarrow> json option \<Rightarrow> observation list \<Rightarrow> json \<Rightarrow> json option \<Rightarrow> json \<Rightarrow> (json \<times> json) result"
  nl_parse_nft_snapshot :: "bytes \<Rightarrow> json \<Rightarrow> json \<Rightarrow> 'p result"
  nl_bind_causal_sensor :: "json \<Rightarrow> json \<Rightarrow> 'p \<Rightarrow> json \<Rightarrow> 's result"
  nl_counters :: "'s \<Rightarrow> json"
  nl_nft_value :: "'p \<Rightarrow> json"
  nl_static_sha256 :: "'p \<Rightarrow> json"
  nl_replay_causal :: "'s \<Rightarrow> 's \<Rightarrow> json \<Rightarrow> (json \<times> json \<times> json) result"
  nl_validate_ctr_launch_intent :: "json \<Rightarrow> unit result"

definition nullable :: "json option \<Rightarrow> json" where
  "nullable v = (case v of None \<Rightarrow> JNull | Some x \<Rightarrow> x)"

fun truthy :: "json \<Rightarrow> bool" where
  "truthy JNull = False"
| "truthy (JBool b) = b"
| "truthy (JInt i) = (i \<noteq> 0)"
| "truthy (JStr s) = (s \<noteq> [])"
| "truthy (JArr xs) = (xs \<noteq> [])"
| "truthy (JObj ps) = (ps \<noteq> [])"

definition pending_action :: "net_state \<Rightarrow> json result" where
  "pending_action s = (case ns_pending s of None \<Rightarrow> Inr JNull | Some (_, body, _) \<Rightarrow> jget body ''action'')"

section \<open>Observations\<close>

fun source_matches :: "(pystr \<times> json) list \<Rightarrow> json \<Rightarrow> bool result" where
  "source_matches [] base = Inr True"
| "source_matches ((k, v) # ps) base =
     (if k = ustr ''raw'' then Inr False
      else rbind (jkey base k) (\<lambda>w. if json_same v w then source_matches ps base else Inr False))"

definition source_output :: "net_state \<Rightarrow> json \<Rightarrow> observation result" where
  "source_output s source =
     rbind (rbind (jget source ''observation_serial'') int_of) (\<lambda>serial.
     let n = int (length (ns_observations s)) in
     jfail (serial < n)
     (require (- n \<le> serial) PyIndexError
     (let observed = ns_observations s ! nat (if serial < 0 then serial + n else serial) in
      (case source of
         JObj ps \<Rightarrow> rbind (source_matches ps (ob_base observed)) (\<lambda>ok. jfail ok (Inr observed))
       | _ \<Rightarrow> Inl (PyTypeError ''not iterable'')))))"

definition source_outputs :: "net_state \<Rightarrow> json \<Rightarrow> observation list result" where
  "source_outputs s sources = rbind (json_items sources) (map_result (source_output s))"

definition OUTPUT_BASE :: "string list" where
  "OUTPUT_BASE = [''observation_serial'', ''source_id'', ''command_serial'', ''chunk_count'', ''output_sha256'', ''output_length'']"

definition command_name :: "json \<Rightarrow> json result" where
  "command_name v = (case v of JStr t \<Rightarrow> Inr (JStr (takeWhile (\<lambda>c. c \<noteq> 58) t)) | _ \<Rightarrow> Inl (PyTypeError ''no attribute split''))"

definition outcome_matches :: "json \<Rightarrow> bytes \<Rightarrow> json \<Rightarrow> bool result" where
  "outcome_matches base raw row =
     rbind (jget row ''command_id'') (\<lambda>command_id. rbind (rbind (jget base ''source_id'') command_name) (\<lambda>name.
     rbind (jget row ''stdout_sha256'') (\<lambda>sha. rbind (jget base ''output_sha256'') (\<lambda>base_sha.
     rbind (jget row ''stdout_length'') (\<lambda>len. rbind (jget row ''outcome'') (\<lambda>outcome. rbind (jget row ''status'') (\<lambda>status.
     rbind (jget row ''uncertain'') (\<lambda>uncertain. rbind (jget row ''stderr_length'') (\<lambda>err.
     rbind (jget row ''stdout_truncated'') (\<lambda>out_cut. rbind (jget row ''stderr_truncated'') (\<lambda>err_cut.
     Inr (json_same command_id name \<and> json_same sha base_sha \<and> json_same len (JInt (int (length raw))) \<and>
       json_same outcome (jstr ''exited'') \<and> json_same status (JInt 0) \<and> \<not> truthy uncertain \<and> json_same err (JInt 0) \<and>
       \<not> truthy out_cut \<and> \<not> truthy err_cut))))))))))))"

fun filter_result :: "('a \<Rightarrow> bool result) \<Rightarrow> 'a list \<Rightarrow> 'a list result" where
  "filter_result p [] = Inr []"
| "filter_result p (x # xs) = rbind (p x) (\<lambda>b. rbind (filter_result p xs) (\<lambda>ys. Inr (if b then x # ys else ys)))"

definition check_outcome_row :: "net_state \<Rightarrow> json \<Rightarrow> bytes \<Rightarrow> unit result" where
  "check_outcome_row s base raw =
     rbind (jget base ''command_serial'') (\<lambda>serial.
     if serial = JNull then Inr ()
     else rbind (filter_result (\<lambda>row. rbind (jget row ''command_serial'') (\<lambda>v. Inr (json_same v serial))) (ns_outcomes s)) (\<lambda>found.
       (case found of
          [row] \<Rightarrow> rbind (outcome_matches base raw row) (\<lambda>ok. jfail ok (Inr ()))
        | _ \<Rightarrow> Inl (PyValueError ''network journal''))))"

definition finish_output :: "digest_fun \<Rightarrow> net_state \<Rightarrow> json \<Rightarrow> bytes list \<Rightarrow> net_state result" where
  "finish_output H s base chunks =
     rbind (jget base ''output_length'') (\<lambda>len. rbind (jget base ''output_sha256'') (\<lambda>sha.
     jfail (json_same (JInt (int (length (concat chunks)))) len \<and> json_same (JStr (H (concat chunks))) sha)
     (rbind (check_outcome_row s base (concat chunks)) (\<lambda>_.
      Inr (s\<lparr>ns_observations := ns_observations s @ [\<lparr>ob_base = base, ob_raw = concat chunks\<rparr>], ns_output_pending := None\<rparr>)))))"

definition add_chunk :: "digest_fun \<Rightarrow> net_state \<Rightarrow> json \<Rightarrow> json \<Rightarrow> json \<times> bytes list \<Rightarrow> net_state result" where
  "add_chunk H s body index = (\<lambda>(base, chunks).
     jfail (json_same index (JInt (int (length chunks))))
     (rbind (agree_on (map ustr OUTPUT_BASE) body base) (\<lambda>ok.
      jfail ok
      (rbind (rbind (jget body ''raw_hex'') hex_field) (\<lambda>chunk.
       rbind (jget base ''chunk_count'') (\<lambda>limit.
       if json_same (JInt (int (length (chunks @ [chunk])))) limit then finish_output H s base (chunks @ [chunk])
       else Inr (s\<lparr>ns_output_pending := Some (base, chunks @ [chunk])\<rparr>)))))))"

definition advance_output :: "digest_fun \<Rightarrow> net_state \<Rightarrow> json \<Rightarrow> net_state result" where
  "advance_output H s body =
     rbind (jget body ''chunk_index'') (\<lambda>index.
     if json_same index (JInt 0) then
       rbind (jget body ''observation_serial'') (\<lambda>serial.
       jfail (ns_output_pending s = None \<and> json_same serial (JInt (int (length (ns_observations s)))))
       (rbind (project OUTPUT_BASE body) (\<lambda>base. add_chunk H s body index (base, []))))
     else (case ns_output_pending s of
         None \<Rightarrow> Inl (PyValueError ''network journal'')
       | Some p \<Rightarrow> add_chunk H s body index p))"

section \<open>Ownership of the cleanup\<close>

definition same_placeholder :: "json \<Rightarrow> string \<Rightarrow> json \<Rightarrow> bool result" where
  "same_placeholder authority name prior =
     rbind (jget authority ''placeholders'') (\<lambda>ps. rbind (jget ps name) (\<lambda>stated. agree_on (map ustr [''device'', ''inode'']) stated prior))"

definition cleanup_intent :: "net_state \<Rightarrow> json \<Rightarrow> net_state result" where
  "cleanup_intent s body =
     rbind (jget body ''authority'') (\<lambda>authority.
     rbind (jget authority ''support'') (\<lambda>support. rbind (jget authority ''parent_mount'') (\<lambda>mount.
     (case (ns_quarantine s, ns_original_placeholder s) of
        (Some (stage, held), Some original) \<Rightarrow>
          jfail (stage = ''NETWORK_DETACHED_V2'' \<and> ns_cleanup_authority s = None \<and> ns_cleanup_steps s = [] \<and>
            json_same support (nullable (ns_support s)) \<and> json_same mount (nullable (ns_parent_mount s)))
          (rbind (jget original ''placeholder'') (\<lambda>first. rbind (jget held ''placeholder'') (\<lambda>second.
           rbind (same_placeholder authority ''original'' first) (\<lambda>a. rbind (if a then same_placeholder authority ''quarantine'' second else Inr False) (\<lambda>b.
           jfail b (Inr (s\<lparr>ns_cleanup_authority := Some authority\<rparr>)))))))
      | _ \<Rightarrow> Inl (PyValueError ''network journal'')))))"

definition CLEANUP_ORDER :: "(string \<times> string) list" where
  "CLEANUP_ORDER =
    [(''original-placeholder'', ''relocated''), (''original-placeholder'', ''removed''), (''quarantine-placeholder'', ''relocated''),
     (''quarantine-placeholder'', ''removed''), (''preserved-directory'', ''relocated''), (''preserved-directory'', ''removed''),
     (''parent-mount'', ''relocated''), (''parent-mount'', ''removed''), (''parent-stage-directory'', ''relocated''),
     (''parent-stage-directory'', ''removed'')]"

definition relocated_from :: "json \<Rightarrow> string \<Rightarrow> json result" where
  "relocated_from authority resource =
     (if resource = ''original-placeholder'' then rbind (jget authority ''placeholders'') (\<lambda>v. jget v ''original'')
      else if resource = ''quarantine-placeholder'' then rbind (jget authority ''placeholders'') (\<lambda>v. jget v ''quarantine'')
      else if resource = ''preserved-directory'' then rbind (jget authority ''support'') (\<lambda>v. jget v ''preserved_directory'')
      else rbind (jget authority ''support'') (\<lambda>v. jget v ''parent_stage_directory''))"

definition relocated_fields :: "string \<Rightarrow> string list" where
  "relocated_fields resource =
     (if resource \<in> {''preserved-directory'', ''parent-stage-directory''} then [''device'', ''inode'', ''mode'', ''uid'', ''gid'']
      else [''device'', ''inode'', ''mode'', ''uid'', ''gid'', ''nlink'', ''size'', ''mtime_ns''])"

text \<open>\<^verbatim>\<open>{**mount, "mount_point": ""}\<close>.\<close>

definition without_mount_point :: "json \<Rightarrow> json result" where
  "without_mount_point v = (case v of
     JObj ps \<Rightarrow> Inr (JObj (filter (\<lambda>p. fst p \<noteq> ustr ''mount_point'') ps @ [(ustr ''mount_point'', JStr [])]))
   | _ \<Rightarrow> Inl (PyTypeError ''not a mapping''))"

definition cleanup_identity_ok :: "net_state \<Rightarrow> json \<Rightarrow> string \<Rightarrow> string \<Rightarrow> json \<Rightarrow> bool result" where
  "cleanup_identity_ok s authority resource action identity =
     (if action = ''removed'' then rbind (jget (last (ns_cleanup_steps s)) ''identity'') (\<lambda>relocated. Inr (json_same identity relocated))
      else if resource = ''parent-mount'' then
        rbind (rbind (jget authority ''parent_mount'') without_mount_point) (\<lambda>expected. Inr (json_same identity expected))
      else rbind (relocated_from authority resource) (\<lambda>expected. agree_on (map ustr (relocated_fields resource)) identity expected))"

definition detached_step :: "net_state \<Rightarrow> json \<Rightarrow> net_state result" where
  "detached_step s body =
     rbind (jget body ''resource'') (\<lambda>resource. rbind (jget body ''action'') (\<lambda>action. rbind (jget body ''identity'') (\<lambda>identity.
     (case ns_cleanup_authority s of
        None \<Rightarrow> Inl (PyValueError ''network journal'')
      | Some authority \<Rightarrow>
          jfail (length (ns_cleanup_steps s) < length CLEANUP_ORDER)
          (case CLEANUP_ORDER ! length (ns_cleanup_steps s) of (r, a) \<Rightarrow>
             jfail (resource = jstr r \<and> action = jstr a)
             (rbind (cleanup_identity_ok s authority r a identity) (\<lambda>ok.
              jfail ok (Inr (s\<lparr>ns_cleanup_steps := ns_cleanup_steps s @ [body]\<rparr>)))))))))"

definition advance_ownership :: "net_state \<Rightarrow> string \<Rightarrow> json \<Rightarrow> net_state result" where
  "advance_ownership s kind body =
     (if kind = SUPPORT_RECORD then
        jfail (ns_support s = None \<and> ns_snapshots s = []) (rbind (jget body ''support'') (\<lambda>v. Inr (s\<lparr>ns_support := Some v\<rparr>)))
      else if kind = PARENT_MOUNT_RECORD then
        jfail (ns_support s \<noteq> None \<and> ns_parent_mount s = None \<and> ns_pending s \<noteq> None)
        (rbind (pending_action s) (\<lambda>action.
         jfail (action = jstr ''IP_NETNS_ADD'') (rbind (jget body ''parent_mount'') (\<lambda>v. Inr (s\<lparr>ns_parent_mount := Some v\<rparr>)))))
      else if kind = DETACHED_CLEANUP_INTENT then cleanup_intent s body
      else detached_step s body)"

section \<open>The namespace and its quarantine\<close>

text \<open>\<^verbatim>\<open>[0-9]+:[0-9]+\<close>.\<close>

definition device_text :: "json \<Rightarrow> bool" where
  "device_text v = (case v of
     JStr t \<Rightarrow> 58 \<in> set t \<and> fst (split_once 58 t) \<noteq> [] \<and> list_all is_digit (fst (split_once 58 t)) \<and>
       snd (split_once 58 t) \<noteq> [] \<and> list_all is_digit (snd (split_once 58 t))
   | _ \<Rightarrow> False)"

fun positive :: "json \<Rightarrow> bool" where
  "positive (JInt i) = (0 < i)"
| "positive _ = False"

definition check_created :: "json \<Rightarrow> unit result" where
  "check_created body =
     rbind (jget body ''identity'') (\<lambda>identity. rbind (jget body ''helper_pid'') (\<lambda>pid.
     jfail (positive pid)
     (jfail (exact_dict identity [''mount_id'', ''device'', ''inode_device'', ''inode''])
     (rbind (map_result (jget identity) [''mount_id'', ''inode_device'', ''inode'']) (\<lambda>ids. rbind (jget identity ''device'') (\<lambda>device.
      jfail (list_all positive ids \<and> device_text device) (Inr ())))))))"

definition advance_created :: "net_state \<Rightarrow> string \<Rightarrow> json \<Rightarrow> net_state result" where
  "advance_created s kind body =
     jfail (ns_pending s \<noteq> None)
     (rbind (pending_action s) (\<lambda>action.
      jfail (action = jstr ''IP_NETNS_ADD'')
      (rbind (jget (ns_current s) ''netns'') (\<lambda>netns.
       jfail (netns = JNull)
       (if kind = CREATED_NSFS_RECORD then rbind (check_created body) (\<lambda>_. Inr (s\<lparr>ns_created_nsfs := Some body\<rparr>))
        else Inr (s\<lparr>ns_original_placeholder := Some body\<rparr>))))))"

definition QUARANTINE_CORE :: "string list" where
  "QUARANTINE_CORE = [''operation_token'', ''policy_version'', ''original_name'', ''quarantine_name'', ''target'']"

definition quarantine_ok :: "net_state \<Rightarrow> string \<Rightarrow> json \<Rightarrow> json \<Rightarrow> json \<Rightarrow> bool result" where
  "quarantine_ok s kind body placeholder preserved =
     (if kind = ''NETWORK_QUARANTINE_INTENT_V2'' then
        rbind (jget body ''target'') (\<lambda>target.
        Inr (ns_quarantine s = None \<and> json_same target (ns_current s) \<and> placeholder = JNull \<and> preserved = JNull))
      else (case ns_quarantine s of
          None \<Rightarrow> Inr False
        | Some (stage, held) \<Rightarrow>
            if kind = ''NETWORK_QUARANTINE_PLACEHOLDER_V2'' then
              rbind (agree_on (map ustr QUARANTINE_CORE) held body) (\<lambda>same.
              Inr (stage \<in> {''NETWORK_QUARANTINE_INTENT_V2'', ''NETWORK_QUARANTINE_PLACEHOLDER_V2''} \<and> same \<and> placeholder \<noteq> JNull \<and> preserved = JNull))
            else if kind = ''NETWORK_QUARANTINE_MOVED_V2'' then
              rbind (agree_on (map ustr (QUARANTINE_CORE @ [''placeholder''])) held body) (\<lambda>same.
              Inr (stage = ''NETWORK_QUARANTINE_PLACEHOLDER_V2'' \<and> same \<and> preserved \<noteq> JNull))
            else if kind = ''NETWORK_QUARANTINE_SETTLED_V2'' then
              rbind (agree_on (map ustr (QUARANTINE_CORE @ [''placeholder''])) held body) (\<lambda>same.
              Inr (stage = ''NETWORK_QUARANTINE_MOVED_V2'' \<and> same \<and> preserved \<noteq> JNull))
            else if kind = ''NETWORK_DETACH_INTENT_V2'' then
              rbind (agree_on (map ustr (QUARANTINE_CORE @ [''placeholder'', ''preserved''])) held body) (\<lambda>same.
              Inr (stage = ''NETWORK_QUARANTINE_SETTLED_V2'' \<and> same))
            else
              rbind (agree_on (map ustr (QUARANTINE_CORE @ [''placeholder''])) held body) (\<lambda>same.
              Inr (stage = ''NETWORK_DETACH_INTENT_V2'' \<and> same \<and> preserved \<noteq> JNull))))"

definition advance_quarantine :: "net_state \<Rightarrow> string \<Rightarrow> json \<Rightarrow> net_state result" where
  "advance_quarantine s kind body =
     rbind (project (QUARANTINE_CORE @ [''placeholder'', ''preserved'']) body) (\<lambda>held.
     rbind (jget body ''placeholder'') (\<lambda>placeholder. rbind (jget body ''preserved'') (\<lambda>preserved.
     rbind (quarantine_ok s kind body placeholder preserved) (\<lambda>ok.
     jfail ok (Inr (s\<lparr>ns_quarantine := Some (kind, held)\<rparr>))))))"

section \<open>Sensors\<close>

definition sensor_of :: "('p, 's) net_lib \<Rightarrow> json \<Rightarrow> json \<Rightarrow> json \<Rightarrow> json \<Rightarrow> bytes \<Rightarrow> ('p \<times> 's) result" where
  "sensor_of L token identity stage source raw =
     rbind (jget identity ''nft'') (\<lambda>nft. rbind (jget nft ''table_name'') (\<lambda>table.
     rbind (jget identity ''host_link'') (\<lambda>link. rbind (jget link ''ifname'') (\<lambda>ifname.
     rbind (nl_parse_nft_snapshot L raw table ifname) (\<lambda>parsed.
     rbind (jget source ''output_sha256'') (\<lambda>sha.
     rbind (nl_bind_causal_sensor L token stage parsed sha) (\<lambda>sensor. Inr (parsed, sensor))))))))"

definition last_identity :: "net_state \<Rightarrow> json result" where
  "last_identity s = (if ns_snapshots s = [] then Inl PyIndexError else jget (last (ns_snapshots s)) ''identity'')"

definition last_kind :: "net_state \<Rightarrow> json result" where
  "last_kind s = (if ns_snapshots s = [] then Inr JNull else jget (last (ns_snapshots s)) ''snapshot_kind'')"

definition advance_sensor :: "('p, 's) net_lib \<Rightarrow> net_state \<Rightarrow> json \<Rightarrow> string \<Rightarrow> net_state result" where
  "advance_sensor L s body phase =
     jfail (phase = ''RUNTIME_READY'' \<and> ns_policy_version s = jstr POLICY_VERSION \<and> ns_snapshots s \<noteq> [])
     (rbind (last_kind s) (\<lambda>kind.
      jfail (kind = jstr ''runtime'' \<and> ns_sensor_proof s = None \<and> length (ns_sensors s) < 2)
     (rbind (jget body ''stage'') (\<lambda>stage.
      jfail (stage = jstr (if ns_sensors s = [] then ''before'' else ''after''))
     (rbind (jget body ''source'') (\<lambda>source. rbind (source_output s source) (\<lambda>observed.
      rbind (jget (ob_base observed) ''source_id'') (\<lambda>source_id.
      jfail (source_id = jstr ''NFT_TABLE'')
      (rbind (last_identity s) (\<lambda>identity. rbind (jget body ''operation_token'') (\<lambda>token.
       rbind (sensor_of L token identity stage source (ob_raw observed)) (\<lambda>(parsed, sensor).
       rbind (jget identity ''nft'') (\<lambda>nft. rbind (jget body ''static_sha256'') (\<lambda>static. rbind (jget body ''counters'') (\<lambda>counters.
       jfail (json_same (nl_nft_value L parsed) nft \<and> json_same static (nl_static_sha256 L parsed) \<and> json_same counters (nl_counters L sensor))
       (Inr (s\<lparr>ns_sensors := ns_sensors s @ [body]\<rparr>)))))))))))))))))"

definition bound_sensor :: "('p, 's) net_lib \<Rightarrow> net_state \<Rightarrow> json \<Rightarrow> json \<Rightarrow> 's result" where
  "bound_sensor L s token row =
     rbind (jget row ''source'') (\<lambda>source. rbind (source_output s source) (\<lambda>observed.
     rbind (last_identity s) (\<lambda>identity. rbind (jget row ''stage'') (\<lambda>stage.
     rbind (sensor_of L token identity stage source (ob_raw observed)) (\<lambda>(parsed, sensor). Inr sensor)))))"

definition advance_sensor_proof :: "('p, 's) net_lib \<Rightarrow> net_state \<Rightarrow> json \<Rightarrow> string \<Rightarrow> net_state result" where
  "advance_sensor_proof L s body phase =
     jfail (phase = ''RUNTIME_READY'' \<and> ns_policy_version s = jstr POLICY_VERSION \<and> length (ns_sensors s) = 2 \<and> ns_sensor_proof s = None)
     (rbind (jget body ''before_proof_sha256'') (\<lambda>first_stated. rbind (jget (ns_sensors s ! 0) ''proof_sha256'') (\<lambda>first.
      jfail (json_same first_stated first)
      (rbind (jget body ''after_proof_sha256'') (\<lambda>after. rbind (jget (ns_sensors s ! 1) ''proof_sha256'') (\<lambda>second.
      jfail (json_same after second)
      (rbind (jget body ''operation_token'') (\<lambda>token.
       rbind (bound_sensor L s token (ns_sensors s ! 0)) (\<lambda>b0. rbind (bound_sensor L s token (ns_sensors s ! 1)) (\<lambda>b1.
       rbind (jget body ''route_sha256'') (\<lambda>route. rbind (nl_replay_causal L b0 b1 route) (\<lambda>(deltas, marker, proof_sha).
       rbind (jget body ''deltas'') (\<lambda>d. rbind (jget body ''marker_sha256'') (\<lambda>m. rbind (jget body ''causal_proof_sha256'') (\<lambda>p.
       jfail (json_same d deltas \<and> json_same m marker \<and> json_same p proof_sha) (Inr (s\<lparr>ns_sensor_proof := Some body\<rparr>)))))))))))))))))"

section \<open>Snapshots\<close>

text \<open>\<^verbatim>\<open>all(body["identity"][name] == derived[name] for name in derived if name != "state_sha256")\<close>.\<close>

definition identity_derived :: "json \<Rightarrow> json \<Rightarrow> bool result" where
  "identity_derived identity derived = (case derived of
     JObj ps \<Rightarrow> agree_on (filter (\<lambda>k. k \<noteq> ustr ''state_sha256'') (map fst ps)) identity derived
   | _ \<Rightarrow> Inl (PyTypeError ''not iterable''))"

definition SNAPSHOT_PHASES :: "(string \<times> string list) list" where
  "SNAPSHOT_PHASES =
    [(''baseline'', [''ROOTFS_LEASED'', ''FS_SETTLED'']), (''ready'', [''BASELINES_CAPTURED'']), (''discovered'', [''NETWORK_READY'', ''RUNTIME_READY'']),
     (''runtime'', [''NETWORK_READY'', ''RUNTIME_READY'']), (''network-absent'', [''BASELINES_CAPTURED'', ''RUNTIME_ABSENT'', ''RUNTIME_CLEANUP_ONLY'']),
     (''firewall-restored'', [''SHARE_ABSENT'']), (''final-absent'', [''ROOTFS_ABSENT''])]"

definition SNAPSHOT_NEXT :: "(json \<times> string) list" where
  "SNAPSHOT_NEXT =
    [(JNull, ''baseline''), (jstr ''baseline'', ''ready''), (jstr ''ready'', ''discovered''), (jstr ''discovered'', ''runtime''),
     (jstr ''runtime'', ''network-absent''), (jstr ''network-absent'', ''firewall-restored''), (jstr ''firewall-restored'', ''final-absent'')]"

fun prefix_count :: "json list \<Rightarrow> string list \<Rightarrow> nat" where
  "prefix_count (a # as) (b # bs) = (if a = jstr b then Suc (prefix_count as bs) else 0)"
| "prefix_count _ _ = 0"

definition setup_abort_complete :: "net_state \<Rightarrow> bool result" where
  "setup_abort_complete s =
     rbind (map_result (\<lambda>row. jget row ''action'') (ns_effects s)) (\<lambda>actions.
     let n = prefix_count actions SETUP in
     if n = 0 then
       rbind (map_result (\<lambda>row. jget row ''snapshot_kind'') (ns_snapshots s)) (\<lambda>kinds.
       Inr ((kinds = [jstr ''baseline''] \<or> kinds = [jstr ''baseline'', jstr ''network-absent'']) \<and> ns_effects s = [] \<and> ns_pending s = None))
     else
       Inr (actions = map jstr (take n SETUP @ [''IP_NETNS_REMOVE''] @ (if 2 < n then [''NFT_REMOVE_ATOMIC''] else [])) \<and>
         ns_pending s = None \<and> (case ns_quarantine s of Some (stage, _) \<Rightarrow> stage = ''NETWORK_DETACHED_V2'' | None \<Rightarrow> False)))"

definition OWNED_PARTS :: "string list" where
  "OWNED_PARTS = [''netns'', ''host_link'', ''peer_link'', ''nft'', ''tap'', ''tc'']"

definition all_absent :: "json \<Rightarrow> bool result" where
  "all_absent identity = rbind (map_result (jget identity) OWNED_PARTS) (\<lambda>vs. Inr (list_all (\<lambda>v. v = JNull) vs))"

text \<open>The last snapshot that saw the network, and the identity of an absent network against it.\<close>

definition network_absent_ok :: "net_state \<Rightarrow> json \<Rightarrow> bool result" where
  "network_absent_ok s identity =
     rbind (filter_result (\<lambda>row. rbind (jget row ''snapshot_kind'') (\<lambda>k. Inr (jmember k [''ready'', ''discovered'', ''runtime'']))) (ns_snapshots s)) (\<lambda>seen.
     if seen \<noteq> [] then
       rbind (jget identity ''nft'') (\<lambda>nft. rbind (jget (last seen) ''identity'') (\<lambda>known. rbind (jget known ''nft'') (\<lambda>seen_nft.
       Inr (json_same nft seen_nft))))
     else
       rbind (setup_abort_complete s) (\<lambda>aborted.
       if \<not> aborted then Inr False
       else (case identity of
           JObj ps \<Rightarrow>
             rbind (agree_on (filter (\<lambda>k. k \<noteq> ustr ''state_sha256'') (map fst ps)) identity (ns_current s)) (\<lambda>same.
             if same then all_absent identity else Inr False)
         | _ \<Rightarrow> Inl (PyTypeError ''not iterable''))))"

definition snapshot_identity_ok :: "net_state \<Rightarrow> json \<Rightarrow> json \<Rightarrow> bool result" where
  "snapshot_identity_ok s kind identity =
     (if kind = jstr ''ready'' then
        (if ns_effects s = [] then Inr False
         else rbind (jget (last (ns_effects s)) ''identity'') (\<lambda>settled. Inr (json_same identity settled)))
      else if kind = jstr ''discovered'' then
        rbind (last_identity s) (agree_on (map ustr [''netns'', ''host_link'', ''peer_link'', ''nft'', ''tc'', ''routes_sha256'']) identity)
      else if kind = jstr ''runtime'' then
        rbind (last_identity s) (agree_on (map ustr [''netns'', ''host_link'', ''peer_link'', ''nft'', ''tap'', ''addresses_sha256'']) identity)
      else if kind = jstr ''final-absent'' then
        (if ns_policy_version s = jstr POLICY_VERSION then all_absent identity else Inr False)
      else if kind = jstr ''network-absent'' then network_absent_ok s identity
      else Inr True)"

definition snapshot_order_ok :: "net_state \<Rightarrow> json \<Rightarrow> string \<Rightarrow> bool result" where
  "snapshot_order_ok s kind phase =
     (case map_of (map (\<lambda>(k, ps). (jstr k, ps)) SNAPSHOT_PHASES) kind of
        None \<Rightarrow> Inl PyKeyError
      | Some phases \<Rightarrow>
          jfail (phase \<in> set phases)
          (rbind (last_kind s) (\<lambda>previous.
          (case map_of SNAPSHOT_NEXT previous of
             None \<Rightarrow> Inl PyKeyError
           | Some expected \<Rightarrow>
               rbind (if jmember previous [''ready'', ''discovered''] then Inr True
                      else if previous = jstr ''baseline'' then setup_abort_complete s else Inr False) (\<lambda>may_abort.
               Inr (kind = jstr expected \<or> may_abort \<and> kind = jstr ''network-absent''))))))"

definition first_baselines :: "net_state \<Rightarrow> json option result" where
  "first_baselines s = (case ns_snapshots s of [] \<Rightarrow> Inr None | row # _ \<Rightarrow> rbind (jget row ''baselines'') (\<lambda>v. Inr (Some v)))"

definition advance_snapshot :: "('p, 's) net_lib \<Rightarrow> net_state \<Rightarrow> json \<Rightarrow> string \<Rightarrow> net_state result" where
  "advance_snapshot L s body phase =
     rbind (rbind (jget body ''sources'') (source_outputs s)) (\<lambda>outputs.
     rbind (jget body ''snapshot_kind'') (\<lambda>kind. rbind (first_baselines s) (\<lambda>first. rbind (jget body ''policy_version'') (\<lambda>policy.
     rbind (nl_derive_identity L kind None outputs (ns_current s) first policy) (\<lambda>(derived, derived_baselines).
     rbind (jget body ''identity'') (\<lambda>identity. rbind (jget body ''baselines'') (\<lambda>baselines.
     rbind (identity_derived identity derived) (\<lambda>ok.
     jfail ok
     (jfail (kind = jstr ''baseline'' \<longrightarrow> json_same baselines derived_baselines)
     (rbind (snapshot_order_ok s kind phase) (\<lambda>ok.
      jfail ok
      (jfail (case first of None \<Rightarrow> True | Some b \<Rightarrow> json_same baselines b)
      (rbind (snapshot_identity_ok s kind identity) (\<lambda>ok.
       jfail ok (Inr (s\<lparr>ns_snapshots := ns_snapshots s @ [body], ns_current := identity\<rparr>))))))))))))))))"

section \<open>Effects\<close>

definition effect_phases :: "json \<Rightarrow> string list" where
  "effect_phases action =
     (if jmember action SETUP then [''BASELINES_CAPTURED'']
      else if action = jstr ''IP_NETNS_REMOVE'' then
        [''BASELINES_CAPTURED'', ''NETWORK_READY'', ''READINESS_REVOKED'', ''OWNERSHIP_OBSERVED'', ''TASK_STOPPED'', ''TASK_ABSENT'', ''RUNTIME_ABSENT'',
         ''RUNTIME_CLEANUP_ONLY'']
      else [''BASELINES_CAPTURED'', ''NETWORK_READY'', ''SHARE_ABSENT''])"

definition prior_proof :: "net_state \<Rightarrow> json result" where
  "prior_proof s = (if ns_effects s = [] then Inr (JStr (replicate 64 48)) else jget (last (ns_effects s)) ''proof_sha256'')"

definition advance_intent :: "net_state \<Rightarrow> json \<Rightarrow> string \<Rightarrow> net_state result" where
  "advance_intent s body phase =
     rbind (jget body ''action'') (\<lambda>action.
     jfail (phase \<in> set (effect_phases action))
     (rbind (jget body ''effect_serial'') (\<lambda>serial.
      jfail (ns_pending s = None \<and> json_same serial (JInt (int (length (ns_effects s)))))
      (rbind (jget body ''target'') (\<lambda>target.
       jfail (json_same target (ns_current s))
       (rbind (jget body ''prior_proof_sha256'') (\<lambda>stated. rbind (prior_proof s) (\<lambda>prior.
        jfail (json_same stated prior)
        (rbind (map_result (\<lambda>row. jget row ''action'') (ns_effects s)) (\<lambda>actions.
         jfail (action \<notin> set actions)
         (jfail (\<not> jmember action SETUP \<or>
            actions = map jstr (take (length actions) SETUP) \<and> length actions < length SETUP \<and> action = jstr (SETUP ! length actions))
         (Inr (s\<lparr>ns_pending := Some (''NETWORK_EFFECT_INTENT_V2'', body, length (ns_outcomes s)), ns_effect_commands := [], ns_effect_replays := []\<rparr>)))))))))))))"

definition PENDING_FIELDS :: "string list" where
  "PENDING_FIELDS = [''operation_token'', ''policy_version'', ''effect_serial'', ''action'', ''prior_proof_sha256'', ''target'']"

definition executed_commands :: "net_state \<Rightarrow> json list" where
  "executed_commands s = map snd (filter (\<lambda>(i, _). i \<notin> set (ns_effect_replays s)) (enumerate 0 (ns_effect_commands s)))"

definition policy_or_default :: "json \<Rightarrow> json" where
  "policy_or_default body = (case jget body ''policy_version'' of Inr v \<Rightarrow> v | Inl _ \<Rightarrow> jstr POLICY_VERSION)"

definition created_ok :: "net_state \<Rightarrow> json \<Rightarrow> bool result" where
  "created_ok s identity = (case ns_created_nsfs s of
     None \<Rightarrow> Inr False
   | Some created \<Rightarrow> rbind (jget created ''identity'') (\<lambda>known. rbind (jget identity ''netns'') (\<lambda>netns.
       agree_on (map ustr [''device'', ''inode_device'', ''inode'']) netns known)))"

definition command_settled :: "net_state \<Rightarrow> json \<Rightarrow> nat \<Rightarrow> bool result" where
  "command_settled s action start =
     rbind (filter_result (\<lambda>row. rbind (jget row ''command_id'') (\<lambda>v. Inr (json_same v action))) (drop start (ns_outcomes s))) (\<lambda>found.
     if jmember action [''IP_NETNS_ADD'', ''IP_NETNS_REMOVE''] then Inr (found = [])
     else (case found of
         [row] \<Rightarrow> rbind (jget row ''outcome'') (\<lambda>outcome. rbind (jget row ''status'') (\<lambda>status. rbind (jget row ''uncertain'') (\<lambda>uncertain.
           Inr (json_same outcome (jstr ''exited'') \<and> json_same status (JInt 0) \<and> \<not> truthy uncertain))))
       | _ \<Rightarrow> Inr False))"

definition advance_observed :: "('p, 's) net_lib \<Rightarrow> net_state \<Rightarrow> json \<Rightarrow> string \<Rightarrow> json \<Rightarrow> nat \<Rightarrow> net_state result" where
  "advance_observed L s body stage pending start =
     jfail (stage = ''NETWORK_EFFECT_INTENT_V2'')
     (rbind (jget pending ''action'') (\<lambda>action. rbind (jget pending ''target'') (\<lambda>target.
      rbind (effect_command_trace action target (policy_or_default pending)) (\<lambda>trace.
      jfail (executed_commands s = trace)
      (rbind (rbind (jget body ''sources'') (source_outputs s)) (\<lambda>outputs.
       rbind (jget body ''policy_version'') (\<lambda>policy. rbind (jget body ''identity'') (\<lambda>identity.
       rbind (nl_derive_identity L (jstr (if action = jstr (last SETUP) then ''ready'' else ''effect'')) (Some action) outputs target None policy)
         (\<lambda>(derived, _).
       rbind (identity_derived identity derived) (\<lambda>ok.
       jfail ok
       (rbind (if action = jstr ''IP_NETNS_ADD'' then created_ok s identity else Inr True) (\<lambda>ok.
        jfail ok
        (rbind (command_settled s action start) (\<lambda>ok.
         jfail ok (Inr (s\<lparr>ns_pending := Some (''NETWORK_EFFECT_OBSERVED_V2'', body, start)\<rparr>))))))))))))))))"

definition advance_settled :: "net_state \<Rightarrow> json \<Rightarrow> string \<Rightarrow> json \<Rightarrow> net_state result" where
  "advance_settled s body stage pending =
     jfail (stage = ''NETWORK_EFFECT_OBSERVED_V2'' \<and> json_same body pending)
     (rbind (jget body ''identity'') (\<lambda>identity.
      Inr (s\<lparr>ns_effects := ns_effects s @ [body], ns_pending := None, ns_current := identity\<rparr>)))"

definition advance_effect :: "('p, 's) net_lib \<Rightarrow> net_state \<Rightarrow> string \<Rightarrow> json \<Rightarrow> net_state result" where
  "advance_effect L s kind body = (case ns_pending s of
     None \<Rightarrow> Inl (PyValueError ''network journal'')
   | Some (stage, pending, start) \<Rightarrow>
       rbind (agree_on (map ustr PENDING_FIELDS) body pending) (\<lambda>ok.
       jfail ok
       (if kind = ''NETWORK_EFFECT_OBSERVED_V2'' then advance_observed L s body stage pending start
        else advance_settled s body stage pending)))"

section \<open>The transition\<close>

definition bind_policy :: "net_state \<Rightarrow> string \<Rightarrow> json \<Rightarrow> net_state result" where
  "bind_policy s kind body =
     (if kind \<in> set ALL_RECORDS then
        rbind (jget body ''policy_version'') (\<lambda>policy.
        jfail (ns_policy_version s = JNull \<or> ns_policy_version s = policy) (Inr (s\<lparr>ns_policy_version := policy\<rparr>)))
      else Inr s)"

definition advance :: "('p, 's) net_lib \<Rightarrow> net_state \<Rightarrow> string \<Rightarrow> json \<Rightarrow> string \<Rightarrow> net_state result" where
  "advance L state kind body phase =
     rbind (bind_policy state kind body) (\<lambda>s.
     if kind = OUTPUT_RECORD then advance_output (nl_sha256 L) s body
     else
       jfail (ns_output_pending s = None)
       (if kind \<in> set CLEANUP_OWNERSHIP_RECORDS then advance_ownership s kind body
        else if kind \<in> {ORIGINAL_PLACEHOLDER_RECORD, CREATED_NSFS_RECORD} then advance_created s kind body
        else if kind \<in> set QUARANTINE_RECORDS then advance_quarantine s kind body
        else if kind = SENSOR_RECORD then advance_sensor L s body phase
        else if kind = SENSOR_PROOF_RECORD then advance_sensor_proof L s body phase
        else if kind = ''NETWORK_SNAPSHOT_V2'' then advance_snapshot L s body phase
        else if kind = ''NETWORK_EFFECT_INTENT_V2'' then advance_intent s body phase
        else advance_effect L s kind body))"

definition command_outcome :: "net_state \<Rightarrow> json \<Rightarrow> net_state" where
  "command_outcome s body = s\<lparr>ns_outcomes := ns_outcomes s @ [body]\<rparr>"

section \<open>Command intents\<close>

text \<open>The command joins the trace of the pending effect, or repeats its last command while an observation is unfinished.\<close>

definition mark_replay :: "net_state \<Rightarrow> json \<Rightarrow> net_state result" where
  "mark_replay s intent =
     (if ns_output_pending s = None then Inr s
      else rbind (jget intent ''command_serial'') (\<lambda>serial. Inr (s\<lparr>ns_replay_serials := ns_replay_serials s @ [serial]\<rparr>)))"

definition extend_trace :: "net_state \<Rightarrow> json \<Rightarrow> json \<Rightarrow> net_state result" where
  "extend_trace s pending command_id =
     rbind (jget pending ''action'') (\<lambda>action. rbind (jget pending ''target'') (\<lambda>target.
     rbind (effect_command_trace action target (policy_or_default pending)) (\<lambda>canonical.
     let stripped = executed_commands s in
     if ns_output_pending s \<noteq> None then
       jfail (ns_effect_commands s \<noteq> [] \<and> command_id = last (ns_effect_commands s) \<and> stripped = take (length stripped) canonical)
       (Inr (s\<lparr>ns_effect_replays := ns_effect_replays s @ [length (ns_effect_commands s)],
               ns_effect_commands := ns_effect_commands s @ [command_id]\<rparr>))
     else
       jfail (length stripped < length canonical \<and> command_id = canonical ! length stripped)
       (Inr (s\<lparr>ns_effect_commands := ns_effect_commands s @ [command_id]\<rparr>)))))"

definition record_command :: "net_state \<Rightarrow> json \<Rightarrow> json \<Rightarrow> net_state result" where
  "record_command state command_id intent =
     rbind (mark_replay state intent) (\<lambda>s.
     (case ns_pending s of
        None \<Rightarrow> jfail (\<not> jmember command_id EFFECTS) (Inr s)
      | Some (stage, pending, start) \<Rightarrow>
          if stage = ''NETWORK_EFFECT_INTENT_V2'' then extend_trace s pending command_id
          else jfail (\<not> jmember command_id EFFECTS) (Inr s)))"

definition dict_get :: "json \<Rightarrow> string \<Rightarrow> json result" where
  "dict_get v k = (case v of
     JObj ps \<Rightarrow> Inr (nullable (map_of ps (ustr k)))
   | _ \<Rightarrow> Inl (PyTypeError ''no attribute get''))"

text \<open>\<^verbatim>\<open>value[-i]\<close>.\<close>

definition item_back :: "json \<Rightarrow> nat \<Rightarrow> json result" where
  "item_back v i = (case v of
     JObj ps \<Rightarrow> Inl PyKeyError
   | _ \<Rightarrow> rbind (json_items v) (\<lambda>xs. require (i \<le> length xs) PyIndexError (Inr (xs ! (length xs - i)))))"

definition NETWORK_LIMITS :: "(string \<times> json) list" where
  "NETWORK_LIMITS = [(''deadline_class'', jstr ''network''), (''duration_ns'', JInt 10000000000), (''output_grammar'', jstr ''json'')]"

definition TC_COMMANDS :: "string list" where "TC_COMMANDS = [''TC_QDISC'', ''TC_INGRESS_FILTER'']"

definition tc_identity :: "net_state \<Rightarrow> json result" where
  "tc_identity s =
     rbind (last_identity s) (\<lambda>identity. rbind (dict_get identity ''peer_link'') (\<lambda>peer.
     if peer = JNull \<and> ns_effects s \<noteq> [] then jget (last (ns_effects s)) ''identity'' else Inr identity))"

definition link_names :: "json \<Rightarrow> json list result" where
  "link_names identity =
     rbind (dict_get identity ''peer_link'') (\<lambda>peer. rbind (dict_get identity ''tap'') (\<lambda>tap.
     map_result (\<lambda>row. jget row ''ifname'') (filter (\<lambda>row. row \<noteq> JNull) [peer, tap])))"

definition tc_intent :: "json \<Rightarrow> net_state \<Rightarrow> unit result" where
  "tc_intent intent s =
     rbind (jget intent ''command_id'') (\<lambda>command_id.
     jfail (jmember command_id TC_COMMANDS \<and> ns_snapshots s \<noteq> [])
     (rbind (tc_identity s) (\<lambda>identity. rbind (jget intent ''argv'') (\<lambda>argv.
      rbind (item_back argv (if command_id = jstr ''TC_QDISC'' then 1 else 2)) (\<lambda>name.
      rbind (link_names identity) (\<lambda>allowed.
      jfail (name \<in> set allowed)
      (rbind (rbind (jget identity ''netns'') (\<lambda>v. jget v ''name'')) (\<lambda>netns.
       jfail (json_same argv (JArr ([jstr ''/usr/sbin/tc'', jstr ''-n'', netns, jstr ''-j''] @
         (if command_id = jstr ''TC_QDISC'' then [jstr ''qdisc'', jstr ''show'', jstr ''dev'', name]
          else [jstr ''filter'', jstr ''show'', jstr ''dev'', name, jstr ''ingress'']))))
       (rbind (fields_are intent ([(''executable_role'', jstr ''tc''), (''executable_path'', jstr ''/usr/sbin/tc''), (''stdin_hex'', JStr []),
           (''stdin_length'', JInt 0)] @ NETWORK_LIMITS @ [(''stdout_limit'', JInt 65536), (''stderr_limit'', JInt 65536), (''inherited_fds'', JArr [])]))
         (\<lambda>ok. jfail ok (Inr ())))))))))))"

text \<open>The member of the target of the pending effect, or null when no effect is pending.\<close>

definition pending_target :: "net_state \<Rightarrow> string \<Rightarrow> json result" where
  "pending_target s k = (case ns_pending s of
     None \<Rightarrow> Inr JNull
   | Some (_, pending, _) \<Rightarrow> rbind (jget pending ''target'') (\<lambda>target. jget target k))"

definition names_bound :: "string \<Rightarrow> pystr \<Rightarrow> json list \<Rightarrow> bool" where
  "names_bound letters expected items \<longleftrightarrow>
     list_all (\<lambda>item. (case item of JStr s \<Rightarrow> bound_name letters s \<longrightarrow> s = expected | _ \<Rightarrow> True)) items"

text \<open>\<^verbatim>\<open>len(inherited) == 1 and inherited[0][...] == ...\<close>.\<close>

definition writer_lock_only :: "digest_fun \<Rightarrow> json \<Rightarrow> bool result" where
  "writer_lock_only H inherited = (case inherited of
     JArr [row] \<Rightarrow> fields_are row [(''role'', jstr ''NFT_WRITER_LOCK''), (''target_fd'', JInt 202), (''content_length'', JInt 0), (''content_sha256'', JStr (H []))]
   | JObj [p] \<Rightarrow> Inl PyKeyError
   | JStr [c] \<Rightarrow> Inl (PyTypeError ''not subscriptable'')
   | _ \<Rightarrow> rbind (json_items inherited) (\<lambda>_. Inr False))"

definition gated_delete :: "net_state \<Rightarrow> json \<Rightarrow> bool result" where
  "gated_delete s command_id = (case ns_pending s of
     None \<Rightarrow> Inr False
   | Some (_, pending, _) \<Rightarrow>
       if command_id \<noteq> jstr ''NFT_REMOVE_ATOMIC'' then Inr False
       else rbind (dict_get pending ''policy_version'') (\<lambda>policy. Inr (jmember policy [POLICY_VERSION, NFT_GATE_POLICY_VERSION])))"

text \<open>
  A command of the table: its role, path, arguments and input with the names of the operation, its limits and what it
  inherits. The input of the deletion is empty, so the replacement of the table handle in it changes nothing; the
  handle is still read.
\<close>

definition table_command_ok :: "digest_fun \<Rightarrow> net_state \<Rightarrow> json \<Rightarrow> json \<Rightarrow> pystr \<Rightarrow> pystr \<Rightarrow> pystr \<Rightarrow> bytes \<Rightarrow> unit result" where
  "table_command_ok H s intent command_id table netns host stdin =
     rbind (command command_id) (\<lambda>source.
     let role = tool_role source; path = ''/usr/sbin/'' @ role;
         argv = JArr (jstr path # map (\<lambda>item. JStr (bind_item table netns host item)) (fc_argv_tail source));
         expected = replace_all (ustr HOST_IF) host (replace_all (ustr TABLE) table (fc_stdin source)) in
     rbind (if command_id = jstr ''NFT_REMOVE_ATOMIC''
            then rbind (pending_target s ''nft'') (\<lambda>target. jfail (target \<noteq> JNull) (rbind (jget target ''table_handle'') (\<lambda>_. Inr ())))
            else Inr ()) (\<lambda>_.
     rbind (fields_are intent [(''executable_role'', jstr role), (''executable_path'', jstr path), (''argv'', argv)]) (\<lambda>a.
     jfail (a \<and> stdin = expected)
     (rbind (fields_are intent NETWORK_LIMITS) (\<lambda>b.
      jfail b
      (rbind (jget intent ''stdout_limit'') (\<lambda>out. rbind (jget intent ''stderr_limit'') (\<lambda>err.
       jfail (json_same out err \<and> json_same err (JInt 65536))
       (rbind (jget intent ''inherited_fds'') (\<lambda>inherited. rbind (gated_delete s command_id) (\<lambda>gated.
        rbind (if gated then writer_lock_only H inherited else Inr (json_same inherited (JArr []))) (\<lambda>ok.
        jfail ok (Inr ())))))))))))))"

definition token_prefix :: "json \<Rightarrow> pystr result" where
  "token_prefix v = (case v of JStr t \<Rightarrow> Inr (take 10 t) | _ \<Rightarrow> Inl (PyTypeError ''not a str''))"

text \<open>The checks of an intent against its operation, up to the recording of the command.\<close>

definition intent_bound :: "digest_fun \<Rightarrow> net_state \<Rightarrow> json \<Rightarrow> json \<Rightarrow> unit result" where
  "intent_bound H s intent command_id =
     rbind (rbind (jget intent ''operation_token'') token_prefix) (\<lambda>suffix.
     let own = ustr ''c42n'' @ suffix; table = ustr ''c42t'' @ suffix; host = ustr ''c42h'' @ suffix;
         netns = (if command_id = jstr ''IP_NETNS_REMOVE'' then ustr ''c42q'' @ suffix else own) in
     rbind (rbind (jget intent ''argv'') json_items) (\<lambda>items.
     jfail (names_bound ''qn'' netns items \<and> names_bound ''t'' table items \<and> names_bound ''h'' host items)
     (rbind (rbind (jget intent ''stdin_hex'') hex_field) (\<lambda>stdin.
      jfail (\<not> some_suffix (\<lambda>t. bound_name ''t'' (take 14 t)) stdin \<or> contains table stdin)
      (rbind (if jmember command_id TC_COMMANDS then Inr () else table_command_ok H s intent command_id table netns host stdin) (\<lambda>_.
       if command_id = jstr ''IP_NETNS_REMOVE'' then
         rbind (pending_target s ''netns'') (\<lambda>target.
         jfail (target \<noteq> JNull)
         (rbind (jget target ''name'') (\<lambda>name. jfail (json_same name (JStr own) \<and> JStr netns \<in> set items) (Inr ()))))
       else Inr ()))))))"

definition command_intent :: "('p, 's) net_lib \<Rightarrow> json \<Rightarrow> net_state \<Rightarrow> net_state result" where
  "command_intent L intent s =
     rbind (jget intent ''command_id'') (\<lambda>command_id.
     if command_id = jstr ''CTR_RUN'' then rbind (nl_validate_ctr_launch_intent L intent) (\<lambda>_. Inr s)
     else
       rbind (case ns_output_pending s of
                None \<Rightarrow> Inr ()
              | Some (base, _) \<Rightarrow> rbind (rbind (jget base ''source_id'') command_name) (\<lambda>name. jfail (command_id = name) (Inr ()))) (\<lambda>_.
       rbind (intent_bound (nl_sha256 L) s intent command_id) (\<lambda>_.
       rbind (record_command s command_id intent) (\<lambda>t.
       if jmember command_id TC_COMMANDS then rbind (tc_intent intent t) (\<lambda>_. Inr t) else Inr t))))"

end
