(* ===== verification/JournalSafety.thy ===== *)
theory JournalSafety
  imports NetworkReplay "HOL-Library.Sublist"
begin

text \<open>
  What every replayed state of the network facet satisfies, whatever records and commands led to it: the order and
  the proof chain of effects, the observations, the order of snapshots, and the order of the cleanup steps. The
  locale \<open>replay_invariant\<close> turns preservation by the transition into a statement on all replayed states.
\<close>

section \<open>Replayed states\<close>

text \<open>A record is a dictionary, whose keys are distinct, and is validated before it is replayed.\<close>

definition valid_record :: "('p, 's) net_lib \<Rightarrow> string \<Rightarrow> json \<Rightarrow> bool" where
  "valid_record L kind body \<longleftrightarrow> json_ok (\<lambda>_. True) body \<and> validate_record (nl_sha256 L) kind body = Inr ()"

inductive replayed :: "('p, 's) net_lib \<Rightarrow> net_state \<Rightarrow> bool" for L where
  start: "replayed L initial"
| journal_record: "replayed L s \<Longrightarrow> valid_record L kind body \<Longrightarrow> advance L s kind body phase = Inr t \<Longrightarrow> replayed L t"
| outcome: "replayed L s \<Longrightarrow> replayed L (command_outcome s body)"
| command: "replayed L s \<Longrightarrow> command_intent L intent s = Inr t \<Longrightarrow> replayed L t"

locale replay_invariant =
  fixes L :: "('p, 's) net_lib" and I :: "net_state \<Rightarrow> bool"
  assumes initially: "I initial"
    and advanced: "I s \<Longrightarrow> valid_record L kind body \<Longrightarrow> advance L s kind body phase = Inr t \<Longrightarrow> I t"
    and outcome_kept: "I s \<Longrightarrow> I (command_outcome s body)"
    and command_kept: "I s \<Longrightarrow> command_intent L intent s = Inr t \<Longrightarrow> I t"
begin

lemma always: "replayed L s \<Longrightarrow> I s"
  by (induction rule: replayed.induct) (auto intro: initially advanced outcome_kept command_kept)

end

lemma jfail_Inr [simp]: "jfail c k = Inr x \<longleftrightarrow> c \<and> k = Inr x"
  by (simp add: jfail_def)

section \<open>What each part of the transition changes\<close>

text \<open>The parts of the state that the invariants are about.\<close>

definition effect_part :: "net_state \<Rightarrow> json list \<times> (string \<times> json \<times> nat) option" where
  "effect_part s = (ns_effects s, ns_pending s)"

definition output_part :: "net_state \<Rightarrow> observation list \<times> (json \<times> bytes list) option" where
  "output_part s = (ns_observations s, ns_output_pending s)"

definition cleanup_part :: "net_state \<Rightarrow> json option \<times> json list" where
  "cleanup_part s = (ns_cleanup_authority s, ns_cleanup_steps s)"

lemmas part_defs = effect_part_def output_part_def cleanup_part_def

lemma finish_output_Inr:
  "finish_output H s base chunks = Inr t \<Longrightarrow>
     t = s\<lparr>ns_observations := ns_observations s @ [\<lparr>ob_base = base, ob_raw = concat chunks\<rparr>], ns_output_pending := None\<rparr> \<and>
     (\<exists>len sha. jget base ''output_length'' = Inr len \<and> json_same (JInt (int (length (concat chunks)))) len \<and>
        jget base ''output_sha256'' = Inr sha \<and> json_same (JStr (H (concat chunks))) sha)"
  by (auto simp: finish_output_def)

lemma add_chunk_Inr:
  "add_chunk H s body index (base, chunks) = Inr t \<Longrightarrow>
     \<exists>chunk. finish_output H s base (chunks @ [chunk]) = Inr t \<or> t = s\<lparr>ns_output_pending := Some (base, chunks @ [chunk])\<rparr>"
  by (auto simp: add_chunk_def split: if_split_asm)

lemma output_Inr:
  assumes "advance_output H s body = Inr t"
  shows "\<exists>base chunks. (finish_output H s base chunks = Inr t \<or> t = s\<lparr>ns_output_pending := Some (base, chunks)\<rparr>) \<and>
    (ns_output_pending s = None \<and> (\<exists>serial. jget base ''observation_serial'' = Inr serial \<and> json_same serial (JInt (int (length (ns_observations s)))))
     \<or> (\<exists>before. ns_output_pending s = Some (base, before)))"
proof -
  obtain index where i: "jget body ''chunk_index'' = Inr index" using assms by (auto simp: advance_output_def)
  show ?thesis
  proof (cases "json_same index (JInt 0)")
    case True
    with assms i obtain serial base where b: "jget body ''observation_serial'' = Inr serial" "ns_output_pending s = None"
      "json_same serial (JInt (int (length (ns_observations s))))" "project OUTPUT_BASE body = Inr base" "add_chunk H s body index (base, []) = Inr t"
      by (auto simp: advance_output_def)
    have "jget base ''observation_serial'' = Inr serial"
      using b(1,4) by (auto simp: project_def OUTPUT_BASE_def jkey_def)
    with b add_chunk_Inr [OF b(5)] show ?thesis by blast
  next
    case False
    with assms i obtain base before where "ns_output_pending s = Some (base, before)" "add_chunk H s body index (base, before) = Inr t"
      by (auto simp: advance_output_def split: option.split_asm)
    with add_chunk_Inr show ?thesis by blast
  qed
qed

lemma output_frame:
  "advance_output H s body = Inr t \<Longrightarrow> effect_part t = effect_part s \<and> cleanup_part t = cleanup_part s \<and> ns_snapshots t = ns_snapshots s"
  by (drule output_Inr) (auto simp: part_defs dest!: finish_output_Inr)

lemma cleanup_intent_Inr:
  "cleanup_intent s body = Inr t \<Longrightarrow> (\<exists>a. t = s\<lparr>ns_cleanup_authority := Some a\<rparr>) \<and> ns_cleanup_authority s = None \<and> ns_cleanup_steps s = []"
  by (auto simp: cleanup_intent_def split: option.split_asm prod.split_asm if_split_asm)

lemma detached_step_Inr:
  "detached_step s body = Inr t \<Longrightarrow> t = s\<lparr>ns_cleanup_steps := ns_cleanup_steps s @ [body]\<rparr> \<and> length (ns_cleanup_steps s) < length CLEANUP_ORDER \<and>
     (case CLEANUP_ORDER ! length (ns_cleanup_steps s) of (r, a) \<Rightarrow> jget body ''resource'' = Inr (jstr r) \<and> jget body ''action'' = Inr (jstr a))"
  by (auto simp: detached_step_def split: option.split_asm prod.splits)

lemma ownership_frame:
  "advance_ownership s kind body = Inr t \<Longrightarrow> effect_part t = effect_part s \<and> output_part t = output_part s \<and> ns_snapshots t = ns_snapshots s"
  by (auto simp: advance_ownership_def part_defs split: if_splits dest!: cleanup_intent_Inr detached_step_Inr)

lemma created_frame:
  "advance_created s kind body = Inr t \<Longrightarrow>
     effect_part t = effect_part s \<and> output_part t = output_part s \<and> cleanup_part t = cleanup_part s \<and> ns_snapshots t = ns_snapshots s"
  by (auto simp: advance_created_def part_defs split: if_splits)

lemma quarantine_frame:
  "advance_quarantine s kind body = Inr t \<Longrightarrow>
     effect_part t = effect_part s \<and> output_part t = output_part s \<and> cleanup_part t = cleanup_part s \<and> ns_snapshots t = ns_snapshots s"
  by (auto simp: advance_quarantine_def part_defs)

lemma sensor_frame:
  "advance_sensor L s body phase = Inr t \<Longrightarrow>
     effect_part t = effect_part s \<and> output_part t = output_part s \<and> cleanup_part t = cleanup_part s \<and> ns_snapshots t = ns_snapshots s"
  "advance_sensor_proof L s body phase = Inr t \<Longrightarrow>
     effect_part t = effect_part s \<and> output_part t = output_part s \<and> cleanup_part t = cleanup_part s \<and> ns_snapshots t = ns_snapshots s"
  by (auto simp: advance_sensor_def advance_sensor_proof_def part_defs)

lemma snapshot_frame:
  "advance_snapshot L s body phase = Inr t \<Longrightarrow> effect_part t = effect_part s \<and> output_part t = output_part s \<and> cleanup_part t = cleanup_part s"
  by (auto simp: advance_snapshot_def part_defs)

lemma intent_Inr:
  "advance_intent s body phase = Inr t \<Longrightarrow> ns_pending s = None \<and> ns_effects t = ns_effects s \<and>
     ns_pending t = Some (''NETWORK_EFFECT_INTENT_V2'', body, length (ns_outcomes s)) \<and>
     t = s\<lparr>ns_pending := ns_pending t, ns_effect_commands := [], ns_effect_replays := []\<rparr> \<and>
     (\<exists>action serial stated prior actions. jget body ''action'' = Inr action \<and> jget body ''effect_serial'' = Inr serial \<and>
        json_same serial (JInt (int (length (ns_effects s)))) \<and> jget body ''prior_proof_sha256'' = Inr stated \<and> prior_proof s = Inr prior \<and>
        json_same stated prior \<and> map_result (\<lambda>row. jget row ''action'') (ns_effects s) = Inr actions \<and> action \<notin> set actions \<and>
        (\<not> jmember action SETUP \<or> actions = map jstr (take (length actions) SETUP) \<and> length actions < length SETUP \<and> action = jstr (SETUP ! length actions)))"
  by (auto simp: advance_intent_def)

lemma observed_Inr:
  "advance_observed L s body stage pending start = Inr t \<Longrightarrow>
     t = s\<lparr>ns_pending := Some (''NETWORK_EFFECT_OBSERVED_V2'', body, start)\<rparr> \<and>
     (\<exists>action target trace. jget pending ''action'' = Inr action \<and> effect_command_trace action target (policy_or_default pending) = Inr trace \<and>
        executed_commands s = trace)"
  unfolding advance_observed_def by fastforce

lemma settled_Inr:
  "advance_settled s body stage pending = Inr t \<Longrightarrow> stage = ''NETWORK_EFFECT_OBSERVED_V2'' \<and>
     (\<exists>i. t = s\<lparr>ns_effects := ns_effects s @ [body], ns_pending := None, ns_current := i\<rparr>)"
  by (auto simp: advance_settled_def)

lemma effect_Inr:
  assumes "advance_effect L s kind body = Inr t"
  obtains stage pending start where "ns_pending s = Some (stage, pending, start)" "agree_on (map ustr PENDING_FIELDS) body pending = Inr True"
    "kind = ''NETWORK_EFFECT_OBSERVED_V2'' \<and> advance_observed L s body stage pending start = Inr t \<or>
     kind \<noteq> ''NETWORK_EFFECT_OBSERVED_V2'' \<and> advance_settled s body stage pending = Inr t"
  using assms that by (auto simp: advance_effect_def split: option.split_asm prod.split_asm if_split_asm)

lemma effect_frame:
  "advance_intent s body phase = Inr t \<Longrightarrow> output_part t = output_part s \<and> cleanup_part t = cleanup_part s \<and> ns_snapshots t = ns_snapshots s"
  "advance_effect L s kind body = Inr t \<Longrightarrow> output_part t = output_part s \<and> cleanup_part t = cleanup_part s \<and> ns_snapshots t = ns_snapshots s"
  by (drule intent_Inr, auto simp: part_defs)
    (auto elim!: effect_Inr simp: part_defs dest!: observed_Inr settled_Inr)

lemma policy_frame:
  "bind_policy s kind body = Inr t \<Longrightarrow>
     effect_part t = effect_part s \<and> output_part t = output_part s \<and> cleanup_part t = cleanup_part s \<and> ns_snapshots t = ns_snapshots s"
  by (auto simp: bind_policy_def part_defs split: if_splits)

lemma extend_trace_frame:
  "extend_trace s pending command_id = Inr t \<Longrightarrow>
     effect_part t = effect_part s \<and> output_part t = output_part s \<and> cleanup_part t = cleanup_part s \<and> ns_snapshots t = ns_snapshots s"
  by (auto simp: extend_trace_def part_defs Let_def split: if_split_asm)

lemma mark_replay_frame:
  "mark_replay s intent = Inr t \<Longrightarrow>
     effect_part t = effect_part s \<and> output_part t = output_part s \<and> cleanup_part t = cleanup_part s \<and> ns_snapshots t = ns_snapshots s"
  by (auto simp: mark_replay_def part_defs split: if_split_asm)

lemma record_command_frame:
  assumes "record_command s command_id intent = Inr t"
  shows "effect_part t = effect_part s \<and> output_part t = output_part s \<and> cleanup_part t = cleanup_part s \<and> ns_snapshots t = ns_snapshots s"
proof -
  obtain s' where m: "mark_replay s intent = Inr s'" using assms unfolding record_command_def rbind_Inr by blast
  with assms have "t = s' \<or> (\<exists>pending. extend_trace s' pending command_id = Inr t)"
    by (cases "ns_pending s'") (auto simp: record_command_def split: if_split_asm)
  with m show ?thesis using mark_replay_frame extend_trace_frame by metis
qed

lemma command_frame:
  "command_intent L intent s = Inr t \<Longrightarrow>
     effect_part t = effect_part s \<and> output_part t = output_part s \<and> cleanup_part t = cleanup_part s \<and> ns_snapshots t = ns_snapshots s"
  "effect_part (command_outcome s body) = effect_part s \<and> output_part (command_outcome s body) = output_part s \<and>
     cleanup_part (command_outcome s body) = cleanup_part s \<and> ns_snapshots (command_outcome s body) = ns_snapshots s"
  by (auto simp: command_intent_def command_outcome_def part_defs split: if_split_asm dest: record_command_frame [unfolded part_defs])

definition stepped :: "('p, 's) net_lib \<Rightarrow> net_state \<Rightarrow> string \<Rightarrow> json \<Rightarrow> string \<Rightarrow> net_state \<Rightarrow> bool" where
  "stepped L s kind body phase t \<longleftrightarrow>
     advance_output (nl_sha256 L) s body = Inr t \<or> advance_ownership s kind body = Inr t \<or> advance_created s kind body = Inr t \<or>
     advance_quarantine s kind body = Inr t \<or> advance_sensor L s body phase = Inr t \<or> advance_sensor_proof L s body phase = Inr t \<or>
     advance_snapshot L s body phase = Inr t \<or> advance_intent s body phase = Inr t \<or> kind \<noteq> ''NETWORK_EFFECT_INTENT_V2'' \<and> advance_effect L s kind body = Inr t"

lemma advance_Inr:
  assumes "advance L s kind body phase = Inr t"
  obtains s' where "effect_part s' = effect_part s" "output_part s' = output_part s" "cleanup_part s' = cleanup_part s" "ns_snapshots s' = ns_snapshots s"
    "stepped L s' kind body phase t"
proof -
  from assms obtain s' where b: "bind_policy s kind body = Inr s'"
    and step: "(if kind = OUTPUT_RECORD then advance_output (nl_sha256 L) s' body
     else
       jfail (ns_output_pending s' = None)
       (if kind \<in> set CLEANUP_OWNERSHIP_RECORDS then advance_ownership s' kind body
        else if kind \<in> {ORIGINAL_PLACEHOLDER_RECORD, CREATED_NSFS_RECORD} then advance_created s' kind body
        else if kind \<in> set QUARANTINE_RECORDS then advance_quarantine s' kind body
        else if kind = SENSOR_RECORD then advance_sensor L s' body phase
        else if kind = SENSOR_PROOF_RECORD then advance_sensor_proof L s' body phase
        else if kind = ''NETWORK_SNAPSHOT_V2'' then advance_snapshot L s' body phase
        else if kind = ''NETWORK_EFFECT_INTENT_V2'' then advance_intent s' body phase
        else advance_effect L s' kind body)) = Inr t"
    unfolding advance_def rbind_Inr by blast
  from step have "stepped L s' kind body phase t"
    unfolding jfail_Inr stepped_def by (simp only: split: if_split_asm) simp_all
  with policy_frame [OF b] show thesis using that by blast
qed

text \<open>What changes each part of the state.\<close>

lemma stepped_effect_part:
  assumes "stepped L s kind body phase t"
  shows "effect_part t = effect_part s \<or> advance_intent s body phase = Inr t \<or>
    kind \<noteq> ''NETWORK_EFFECT_INTENT_V2'' \<and> advance_effect L s kind body = Inr t"
  using assms unfolding stepped_def
  by (elim disjE conjE) (simp_all add: output_frame ownership_frame created_frame quarantine_frame sensor_frame snapshot_frame)

lemma stepped_output_part:
  assumes "stepped L s kind body phase t"
  shows "output_part t = output_part s \<or> advance_output (nl_sha256 L) s body = Inr t"
  using assms unfolding stepped_def
  by (elim disjE conjE) (simp_all add: ownership_frame created_frame quarantine_frame sensor_frame snapshot_frame effect_frame)

lemma stepped_cleanup_part:
  assumes "stepped L s kind body phase t"
  shows "cleanup_part t = cleanup_part s \<or> advance_ownership s kind body = Inr t"
  using assms unfolding stepped_def
  by (elim disjE conjE) (simp_all add: output_frame created_frame quarantine_frame sensor_frame snapshot_frame effect_frame)

lemma stepped_snapshots:
  assumes "stepped L s kind body phase t"
  shows "ns_snapshots t = ns_snapshots s \<or> advance_snapshot L s body phase = Inr t"
  using assms unfolding stepped_def
  by (elim disjE conjE) (simp_all add: output_frame ownership_frame created_frame quarantine_frame sensor_frame effect_frame)

lemma advance_effect_part:
  assumes "advance L s kind body phase = Inr t"
  shows "effect_part t = effect_part s \<or>
    (\<exists>s'. effect_part s' = effect_part s \<and>
       (advance_intent s' body phase = Inr t \<or> kind \<noteq> ''NETWORK_EFFECT_INTENT_V2'' \<and> advance_effect L s' kind body = Inr t))"
  by (rule advance_Inr [OF assms], drule stepped_effect_part) metis

lemma advance_output_part:
  assumes "advance L s kind body phase = Inr t"
  shows "output_part t = output_part s \<or> (\<exists>s'. output_part s' = output_part s \<and> advance_output (nl_sha256 L) s' body = Inr t)"
  by (rule advance_Inr [OF assms], drule stepped_output_part) metis

lemma advance_cleanup_part:
  assumes "advance L s kind body phase = Inr t"
  shows "cleanup_part t = cleanup_part s \<or> (\<exists>s'. cleanup_part s' = cleanup_part s \<and> advance_ownership s' kind body = Inr t)"
  by (rule advance_Inr [OF assms], drule stepped_cleanup_part) metis

lemma advance_snapshots:
  assumes "advance L s kind body phase = Inr t"
  shows "ns_snapshots t = ns_snapshots s \<or> (\<exists>s'. ns_snapshots s' = ns_snapshots s \<and> advance_snapshot L s' body phase = Inr t)"
  by (rule advance_Inr [OF assms], drule stepped_snapshots) metis

section \<open>Agreement of values\<close>

lemma json_same_refl [simp]: "json_same a a"
  by (simp add: json_same_def)

lemma json_same_sym: "json_same a b \<Longrightarrow> json_same b a"
  by (simp add: json_same_def)

lemma json_same_trans: "json_same a b \<Longrightarrow> json_same b c \<Longrightarrow> json_same a c"
  by (simp add: json_same_def)

lemma json_same_str: "json_same x (JStr t) \<longleftrightarrow> x = JStr t"
  by (cases x) (auto simp: json_same_def)

lemma agree_on_key:
  "agree_on ks a b = Inr True \<Longrightarrow> k \<in> set ks \<Longrightarrow> \<exists>x y. jkey a k = Inr x \<and> jkey b k = Inr y \<and> json_same x y"
  by (induction ks a b rule: agree_on.induct) (auto split: if_split_asm)

lemma jmember_iff: "jmember v names \<longleftrightarrow> (\<exists>n\<in>set names. v = jstr n)"
  by (auto simp: jmember_def)

lemma jstr_inj [simp]: "map jstr xs = map jstr ys \<longleftrightarrow> xs = ys"
  by (rule inj_map_eq_map) (simp add: inj_def)

lemma jstr_in [simp]: "jstr a \<in> jstr ` A \<longleftrightarrow> a \<in> A"
  by auto

section \<open>Effects\<close>

definition actions_of :: "json list \<Rightarrow> json list result" where
  "actions_of effects = map_result (\<lambda>row. jget row ''action'') effects"

text \<open>A part of the setup in order, then removals.\<close>

definition setup_then_removals :: "string list \<Rightarrow> bool" where
  "setup_then_removals actions \<longleftrightarrow> (\<exists>k rest. actions = take k SETUP @ rest \<and> set rest \<subseteq> set REMOVALS \<and> distinct rest)"

definition pending_ok :: "string list \<Rightarrow> (string \<times> json \<times> nat) option \<Rightarrow> bool" where
  "pending_ok actions p = (case p of
     None \<Rightarrow> True
   | Some (stage, body, _) \<Rightarrow>
       \<exists>action. jget body ''action'' = Inr action \<and> action \<notin> set (map jstr actions) \<and>
         (jmember action SETUP \<longrightarrow> actions = take (length actions) SETUP \<and> length actions < length SETUP \<and> action = jstr (SETUP ! length actions)) \<and>
         (stage = ''NETWORK_EFFECT_OBSERVED_V2'' \<longrightarrow> jmember action (SETUP @ REMOVALS)))"

definition effects_ordered :: "net_state \<Rightarrow> bool" where
  "effects_ordered s \<longleftrightarrow> (\<exists>actions. actions_of (ns_effects s) = Inr (map jstr actions) \<and> setup_then_removals actions \<and> pending_ok actions (ns_pending s))"

lemma actions_of_append: "actions_of effects = Inr as \<Longrightarrow> jget body ''action'' = Inr a \<Longrightarrow> actions_of (effects @ [body]) = Inr (as @ [a])"
  unfolding actions_of_def by (induction effects arbitrary: as) auto

lemma trace_actions: "effect_command_trace action target policy = Inr trace \<Longrightarrow> jmember action (SETUP @ REMOVALS)"
proof -
  assume "effect_command_trace action target policy = Inr trace"
  then have "map_of (map (\<lambda>(a, t). (jstr a, t)) LEGACY_EFFECT_COMMAND_TRACES) action \<noteq> None \<or>
    map_of (map (\<lambda>(a, t). (jstr a, t)) EFFECT_COMMAND_TRACES) action \<noteq> None"
    by (auto simp: effect_command_trace_def Let_def split: option.split_asm if_split_asm)
  moreover have "map fst LEGACY_EFFECT_COMMAND_TRACES = map fst EFFECT_COMMAND_TRACES"
    by (auto simp: LEGACY_EFFECT_COMMAND_TRACES_def)
  then have "fst ` set LEGACY_EFFECT_COMMAND_TRACES = fst ` set EFFECT_COMMAND_TRACES" by (metis image_set)
  moreover have "fst ` (\<lambda>(a, t). (jstr a, t)) ` set ps = jstr ` fst ` set ps" for ps :: "(string \<times> string list) list" by force
  ultimately have "action \<in> jstr ` fst ` set EFFECT_COMMAND_TRACES" by (simp add: map_of_eq_None_iff)
  moreover have "map fst EFFECT_COMMAND_TRACES = SETUP @ REMOVALS"
    by (simp add: EFFECT_COMMAND_TRACES_def SETUP_def REMOVALS_def)
  then have "fst ` set EFFECT_COMMAND_TRACES = set (SETUP @ REMOVALS)" by (metis image_set)
  ultimately show ?thesis by (auto simp: jmember_iff)
qed

lemma same_action:
  assumes "agree_on (map ustr PENDING_FIELDS) body pending = Inr True" "jget pending ''action'' = Inr (jstr a)"
  shows "jget body ''action'' = Inr (jstr a)"
  using agree_on_key [OF assms(1), of "ustr ''action''"] assms(2) by (auto simp: PENDING_FIELDS_def json_same_str)

lemma effects_ordered_part: "effect_part s = effect_part t \<Longrightarrow> effects_ordered s \<longleftrightarrow> effects_ordered t"
  by (simp add: effects_ordered_def effect_part_def)

lemma effects_orderedI:
  "actions_of (ns_effects s) = Inr (map jstr actions) \<Longrightarrow> setup_then_removals actions \<Longrightarrow> pending_ok actions (ns_pending s) \<Longrightarrow> effects_ordered s"
  by (auto simp: effects_ordered_def)

lemma intent_ordered:
  assumes "effects_ordered s" "advance_intent s body phase = Inr t"
  shows "effects_ordered t"
proof -
  obtain actions where a: "actions_of (ns_effects s) = Inr (map jstr actions)" "setup_then_removals actions"
    using assms(1) by (auto simp: effects_ordered_def)
  note i = intent_Inr [OF assms(2)]
  then obtain action where act: "jget body ''action'' = Inr action" "action \<notin> set (map jstr actions)"
    "\<not> jmember action SETUP \<or> map jstr actions = map jstr (take (length actions) SETUP) \<and> length actions < length SETUP \<and>
       action = jstr (SETUP ! length actions)"
    using a(1) by (auto simp: actions_of_def)
  show ?thesis
  proof (rule effects_orderedI [of _ actions])
    show "actions_of (ns_effects t) = Inr (map jstr actions)" using a(1) i by simp
    show "pending_ok actions (ns_pending t)" using act i unfolding jstr_inj by (simp add: pending_ok_def)
  qed (rule a(2))
qed

lemma settled_order:
  assumes "setup_then_removals actions" "a \<in> set (SETUP @ REMOVALS)" "a \<notin> set actions"
    "a \<in> set SETUP \<longrightarrow> actions = take (length actions) SETUP \<and> length actions < length SETUP \<and> a = SETUP ! length actions"
  shows "setup_then_removals (actions @ [a])"
proof (cases "a \<in> set SETUP")
  case True
  with assms(4) have "actions @ [a] = take (Suc (length actions)) SETUP" by (metis take_Suc_conv_app_nth)
  then show ?thesis unfolding setup_then_removals_def by (metis append_Nil2 distinct.simps(1) empty_iff set_empty subsetI)
next
  case False
  obtain k rest where r: "actions = take k SETUP @ rest" "set rest \<subseteq> set REMOVALS" "distinct rest"
    using assms(1) by (auto simp: setup_then_removals_def)
  then have "actions @ [a] = take k SETUP @ rest @ [a]" "set (rest @ [a]) \<subseteq> set REMOVALS" "distinct (rest @ [a])"
    using False assms(2,3) by auto
  then show ?thesis unfolding setup_then_removals_def by blast
qed

lemma effect_ordered:
  assumes "effects_ordered s" "advance_effect L s kind body = Inr t"
  shows "effects_ordered t"
proof -
  obtain actions where a: "actions_of (ns_effects s) = Inr (map jstr actions)" "setup_then_removals actions" "pending_ok actions (ns_pending s)"
    using assms(1) by (auto simp: effects_ordered_def)
  from assms(2) obtain stage pending start where p: "ns_pending s = Some (stage, pending, start)"
    and fields: "agree_on (map ustr PENDING_FIELDS) body pending = Inr True"
    and step: "kind = ''NETWORK_EFFECT_OBSERVED_V2'' \<and> advance_observed L s body stage pending start = Inr t \<or>
     kind \<noteq> ''NETWORK_EFFECT_OBSERVED_V2'' \<and> advance_settled s body stage pending = Inr t"
    by (rule effect_Inr)
  from a(3) p obtain action where act: "jget pending ''action'' = Inr action" "action \<notin> set (map jstr actions)"
    "jmember action SETUP \<longrightarrow> actions = take (length actions) SETUP \<and> length actions < length SETUP \<and> action = jstr (SETUP ! length actions)"
    "stage = ''NETWORK_EFFECT_OBSERVED_V2'' \<longrightarrow> jmember action (SETUP @ REMOVALS)"
    by (auto simp: pending_ok_def)
  from step show ?thesis
  proof (elim disjE conjE)
    assume "advance_observed L s body stage pending start = Inr t"
    from observed_Inr [OF this] have t: "t = s\<lparr>ns_pending := Some (''NETWORK_EFFECT_OBSERVED_V2'', body, start)\<rparr>"
      and m: "jmember action (SETUP @ REMOVALS)" using act(1) by (auto dest: trace_actions)
    then obtain n where n: "action = jstr n" unfolding jmember_iff by blast
    have "jget body ''action'' = Inr action" using same_action [OF fields] act(1) n by blast
    with a act(2,3) m show ?thesis by (auto simp: effects_ordered_def pending_ok_def t)
  next
    assume "advance_settled s body stage pending = Inr t"
    from settled_Inr [OF this] obtain i where stage: "stage = ''NETWORK_EFFECT_OBSERVED_V2''"
      and t: "t = s\<lparr>ns_effects := ns_effects s @ [body], ns_pending := None, ns_current := i\<rparr>" by blast
    with act(4) obtain n where n: "n \<in> set (SETUP @ REMOVALS)" "action = jstr n" unfolding jmember_iff by blast
    have body: "jget body ''action'' = Inr (jstr n)" using same_action [OF fields] act(1) n by blast
    have "setup_then_removals (actions @ [n])"
      using act(2,3) n by (intro settled_order [OF a(2)]) (auto simp: jmember_iff)
    moreover have "actions_of (ns_effects t) = Inr (map jstr (actions @ [n]))"
      using actions_of_append [OF a(1) body] by (simp add: t)
    ultimately show ?thesis by (intro effects_orderedI [of t "actions @ [n]"]) (simp_all add: pending_ok_def t)
  qed
qed

text \<open>An invariant of one part of the state is kept by what does not touch that part.\<close>

lemma effect_part_invariant:
  assumes "I initial" "\<And>s t. effect_part s = effect_part t \<Longrightarrow> I s \<Longrightarrow> I t"
    "\<And>s body phase t. I s \<Longrightarrow> advance_intent s body phase = Inr t \<Longrightarrow> I t"
    "\<And>s kind body t. I s \<Longrightarrow> advance_effect L s kind body = Inr t \<Longrightarrow> I t"
  shows "replay_invariant L I"
proof
  fix s t kind body phase intent
  show "I t" if "I s" "valid_record L kind body" "advance L s kind body phase = Inr t"
    using advance_effect_part [OF that(3)] that(1) assms(2,3,4) by metis
  show "I (command_outcome s body)" if "I s" using that command_frame(2) assms(2) by metis
  show "I t" if "I s" "command_intent L intent s = Inr t" using that command_frame(1) assms(2) by metis
qed (rule assms(1))

interpretation order_of_effects: replay_invariant L effects_ordered for L :: "('p, 's) net_lib"
proof (rule effect_part_invariant)
  show "effects_ordered initial"
    by (auto simp: effects_ordered_def initial_def actions_of_def setup_then_removals_def pending_ok_def)
  show "effects_ordered t" if "effect_part s = effect_part t" "effects_ordered s" for s t
    using that effects_ordered_part by blast
qed (erule (1) intent_ordered effect_ordered)+

section \<open>The proof chain\<close>

definition prior_of :: "json list \<Rightarrow> json result" where
  "prior_of effects = (if effects = [] then Inr (JStr (replicate 64 48)) else jget (last effects) ''proof_sha256'')"

text \<open>A record that states the number of effects before it and the proof of the last of them.\<close>

definition linked :: "json list \<Rightarrow> json \<Rightarrow> bool" where
  "linked effects body \<longleftrightarrow> (\<exists>serial stated prior.
     jget body ''effect_serial'' = Inr serial \<and> json_same serial (JInt (int (length effects))) \<and>
     jget body ''prior_proof_sha256'' = Inr stated \<and> prior_of effects = Inr prior \<and> json_same stated prior)"

definition effects_chained :: "net_state \<Rightarrow> bool" where
  "effects_chained s \<longleftrightarrow> (\<forall>i < length (ns_effects s). linked (take i (ns_effects s)) (ns_effects s ! i)) \<and>
     (\<forall>stage body start. ns_pending s = Some (stage, body, start) \<longrightarrow> linked (ns_effects s) body)"

lemma linked_agree:
  assumes "agree_on (map ustr PENDING_FIELDS) body pending = Inr True" "linked effects pending"
  shows "linked effects body"
  using agree_on_key [OF assms(1), of "ustr ''effect_serial''"] agree_on_key [OF assms(1), of "ustr ''prior_proof_sha256''"] assms(2)
  by (auto simp: linked_def PENDING_FIELDS_def intro: json_same_trans)

lemma intent_chained:
  assumes "effects_chained s" "advance_intent s body phase = Inr t"
  shows "effects_chained t"
  using assms(1) intent_Inr [OF assms(2)] by (auto simp: effects_chained_def linked_def prior_of_def prior_proof_def)

lemma effect_chained:
  assumes "effects_chained s" "advance_effect L s kind body = Inr t"
  shows "effects_chained t"
proof -
  from assms(2) obtain stage pending start where p: "ns_pending s = Some (stage, pending, start)"
    and fields: "agree_on (map ustr PENDING_FIELDS) body pending = Inr True"
    and step: "kind = ''NETWORK_EFFECT_OBSERVED_V2'' \<and> advance_observed L s body stage pending start = Inr t \<or>
     kind \<noteq> ''NETWORK_EFFECT_OBSERVED_V2'' \<and> advance_settled s body stage pending = Inr t"
    by (rule effect_Inr)
  have l: "linked (ns_effects s) body" using assms(1) p fields linked_agree by (auto simp: effects_chained_def)
  from step assms(1) l show ?thesis
    by (auto simp: effects_chained_def nth_append less_Suc_eq dest!: observed_Inr settled_Inr)
qed

interpretation effect_chain: replay_invariant L effects_chained for L :: "('p, 's) net_lib"
proof (rule effect_part_invariant)
  show "effects_chained initial" by (simp add: effects_chained_def initial_def)
  show "effects_chained t" if "effect_part s = effect_part t" "effects_chained s" for s t
    using that by (simp add: effects_chained_def effect_part_def)
qed (erule (1) intent_chained effect_chained)+

section \<open>Observations\<close>

definition observation_ok :: "digest_fun \<Rightarrow> nat \<Rightarrow> observation \<Rightarrow> bool" where
  "observation_ok H i ob \<longleftrightarrow>
     (\<exists>serial. jget (ob_base ob) ''observation_serial'' = Inr serial \<and> json_same serial (JInt (int i))) \<and>
     (\<exists>len. jget (ob_base ob) ''output_length'' = Inr len \<and> json_same (JInt (int (length (ob_raw ob)))) len) \<and>
     jget (ob_base ob) ''output_sha256'' = Inr (JStr (H (ob_raw ob)))"

definition observations_ok :: "digest_fun \<Rightarrow> net_state \<Rightarrow> bool" where
  "observations_ok H s \<longleftrightarrow> (\<forall>i < length (ns_observations s). observation_ok H i (ns_observations s ! i)) \<and>
     (\<forall>base chunks. ns_output_pending s = Some (base, chunks) \<longrightarrow>
        (\<exists>serial. jget base ''observation_serial'' = Inr serial \<and> json_same serial (JInt (int (length (ns_observations s))))))"

lemma output_kept:
  assumes "observations_ok H s" "advance_output H s body = Inr t"
  shows "observations_ok H t"
proof -
  from output_Inr [OF assms(2)] obtain base chunks where
    t: "finish_output H s base chunks = Inr t \<or> t = s\<lparr>ns_output_pending := Some (base, chunks)\<rparr>"
    and from_s: "ns_output_pending s = None \<and> (\<exists>serial. jget base ''observation_serial'' = Inr serial \<and> json_same serial (JInt (int (length (ns_observations s)))))
     \<or> (\<exists>before. ns_output_pending s = Some (base, before))" by blast
  have serial: "\<exists>serial. jget base ''observation_serial'' = Inr serial \<and> json_same serial (JInt (int (length (ns_observations s))))"
    using from_s assms(1) by (auto simp: observations_ok_def)
  from t show ?thesis
  proof
    assume "finish_output H s base chunks = Inr t"
    from finish_output_Inr [OF this] serial assms(1) show ?thesis
      by (auto simp: observations_ok_def observation_ok_def nth_append less_Suc_eq json_same_str dest: json_same_sym)
  next
    assume "t = s\<lparr>ns_output_pending := Some (base, chunks)\<rparr>"
    with serial assms(1) show ?thesis by (simp add: observations_ok_def)
  qed
qed

lemma observations_ok_part: "output_part s = output_part t \<Longrightarrow> observations_ok H s \<longleftrightarrow> observations_ok H t"
  by (simp add: observations_ok_def output_part_def)

interpretation observed: replay_invariant L "observations_ok (nl_sha256 L)" for L :: "('p, 's) net_lib"
proof
  show "observations_ok (nl_sha256 L) initial" by (simp add: observations_ok_def initial_def)
  fix s t :: net_state and kind body phase intent
  show "observations_ok (nl_sha256 L) t" if "observations_ok (nl_sha256 L) s" "valid_record L kind body" "advance L s kind body phase = Inr t"
    using advance_output_part [OF that(3)] that(1) output_kept observations_ok_part by metis
  show "observations_ok (nl_sha256 L) (command_outcome s body)" if "observations_ok (nl_sha256 L) s"
    using that command_frame(2) observations_ok_part by blast
  show "observations_ok (nl_sha256 L) t" if "observations_ok (nl_sha256 L) s" "command_intent L intent s = Inr t"
    using that command_frame(1) observations_ok_part by blast
qed

section \<open>Snapshots\<close>

text \<open>The snapshots up to one of the live ones, then those of the teardown.\<close>

definition LIVE :: "string list" where "LIVE = [''baseline'', ''ready'', ''discovered'', ''runtime'']"
definition GONE :: "string list" where "GONE = [''network-absent'', ''firewall-restored'', ''final-absent'']"

definition snapshot_kinds :: "json list \<Rightarrow> string list \<Rightarrow> bool" where
  "snapshot_kinds snapshots kinds \<longleftrightarrow> map_result (\<lambda>row. jget row ''snapshot_kind'') snapshots = Inr (map jstr kinds)"

definition kinds_ordered :: "string list \<Rightarrow> bool" where
  "kinds_ordered kinds \<longleftrightarrow> (\<exists>live gone. kinds = live @ gone \<and> prefix live LIVE \<and> prefix gone GONE \<and> (live = [] \<longrightarrow> gone = []))"

definition snapshots_ordered :: "net_state \<Rightarrow> bool" where
  "snapshots_ordered s \<longleftrightarrow> (\<exists>kinds. snapshot_kinds (ns_snapshots s) kinds \<and> kinds_ordered kinds)"

lemma snapshot_kinds_last:
  "snapshot_kinds ss ks \<Longrightarrow> ss \<noteq> [] \<Longrightarrow> ks \<noteq> [] \<and> jget (last ss) ''snapshot_kind'' = Inr (jstr (last ks))"
  unfolding snapshot_kinds_def
proof (induction ss arbitrary: ks)
  case (Cons a ss)
  then show ?case by (cases ks; cases ss) auto
qed simp

lemma snapshot_kinds_append:
  "snapshot_kinds ss ks \<Longrightarrow> jget body ''snapshot_kind'' = Inr (jstr k) \<Longrightarrow> snapshot_kinds (ss @ [body]) (ks @ [k])"
  unfolding snapshot_kinds_def
proof (induction ss arbitrary: ks)
  case (Cons a ss)
  then show ?case by (cases ks) auto
qed simp

definition follows :: "string list \<Rightarrow> string \<Rightarrow> bool" where
  "follows kinds kind \<longleftrightarrow>
     (if kinds = [] then kind = ''baseline''
      else (last kinds, kind) \<in> set (zip (LIVE @ GONE) (tl (LIVE @ GONE))) \<or>
        last kinds \<in> {''baseline'', ''ready'', ''discovered''} \<and> kind = ''network-absent'')"

lemma LIVE_prefixes: "prefix live LIVE \<longleftrightarrow>
    live \<in> {[], [''baseline''], [''baseline'', ''ready''], [''baseline'', ''ready'', ''discovered''], [''baseline'', ''ready'', ''discovered'', ''runtime'']}"
  by (auto simp: LIVE_def prefix_Cons)

lemma GONE_prefixes: "prefix gone GONE \<longleftrightarrow>
    gone \<in> {[], [''network-absent''], [''network-absent'', ''firewall-restored''], [''network-absent'', ''firewall-restored'', ''final-absent'']}"
  by (auto simp: GONE_def prefix_Cons)

lemma follows_live:
  assumes "prefix live LIVE" "follows live kind"
  shows "kinds_ordered (live @ [kind])"
proof -
  have "prefix (live @ [kind]) LIVE \<or> live \<noteq> [] \<and> kind = ''network-absent''"
    using assms(1) unfolding LIVE_prefixes
    by (elim insertE emptyE; insert assms(2); simp add: follows_def LIVE_def GONE_def)
  moreover have "kinds_ordered ks" if "prefix ks LIVE" for ks
    using that unfolding kinds_ordered_def by (intro exI [of _ ks] exI [of _ "[]"]) simp
  moreover have "prefix [''network-absent''] GONE" by (simp add: GONE_def)
  ultimately show ?thesis using assms(1) unfolding kinds_ordered_def by blast
qed

lemma follows_gone:
  assumes "prefix gone GONE" "gone \<noteq> []" "follows (live @ gone) kind"
  shows "prefix (gone @ [kind]) GONE"
  using assms(1,2) unfolding GONE_prefixes
  by (elim insertE emptyE; insert assms(3); simp add: follows_def LIVE_def GONE_def)

lemma kinds_ordered_append: "kinds_ordered kinds \<Longrightarrow> follows kinds kind \<Longrightarrow> kinds_ordered (kinds @ [kind])"
proof -
  assume "kinds_ordered kinds" and f: "follows kinds kind"
  then obtain live gone where k: "kinds = live @ gone" "prefix live LIVE" "prefix gone GONE" "live = [] \<longrightarrow> gone = []"
    unfolding kinds_ordered_def by blast
  show ?thesis
  proof (cases "gone = []")
    case True
    with k f follows_live [of live kind] show ?thesis by simp
  next
    case False
    with k f follows_gone [of gone live kind] have "prefix (gone @ [kind]) GONE" by simp
    with k False show ?thesis unfolding kinds_ordered_def by (metis append.assoc)
  qed
qed

lemma snapshot_next:
  assumes "snapshot_order_ok s (jstr k) phase = Inr True" "snapshot_kinds (ns_snapshots s) kinds"
  shows "follows kinds k"
proof -
  obtain previous expected where p: "last_kind s = Inr previous" "map_of SNAPSHOT_NEXT previous = Some expected"
    "jstr k = jstr expected \<or> (jmember previous [''ready'', ''discovered''] \<or> previous = jstr ''baseline'') \<and> jstr k = jstr ''network-absent''"
    using assms(1) by (auto simp: snapshot_order_ok_def split: option.split_asm if_split_asm)
  show ?thesis
  proof (cases "ns_snapshots s = []")
    case True
    with assms(2) p show ?thesis by (auto simp: last_kind_def snapshot_kinds_def follows_def SNAPSHOT_NEXT_def jmember_def)
  next
    case False
    with snapshot_kinds_last [OF assms(2)] p(1) have "kinds \<noteq> []" "previous = jstr (last kinds)" by (simp_all add: last_kind_def)
    with p(2,3) show ?thesis
      by (auto simp: follows_def SNAPSHOT_NEXT_def jmember_def LIVE_def GONE_def split: if_split_asm)
  qed
qed

lemma snapshot_Inr:
  assumes "advance_snapshot L s body phase = Inr t"
  obtains k where "jget body ''snapshot_kind'' = Inr (jstr k)" "snapshot_order_ok s (jstr k) phase = Inr True" "ns_snapshots t = ns_snapshots s @ [body]"
proof -
  from assms obtain kind where k: "jget body ''snapshot_kind'' = Inr kind" "snapshot_order_ok s kind phase = Inr True" "ns_snapshots t = ns_snapshots s @ [body]"
    by (auto simp: advance_snapshot_def)
  then obtain k where "kind = jstr k"
    by (auto simp: snapshot_order_ok_def SNAPSHOT_PHASES_def split: option.split_asm if_split_asm)
  with k that show thesis by blast
qed

lemma snapshot_ordered:
  assumes "snapshots_ordered s" "advance_snapshot L s body phase = Inr t"
  shows "snapshots_ordered t"
proof -
  obtain kinds where k: "snapshot_kinds (ns_snapshots s) kinds" "kinds_ordered kinds" using assms(1) by (auto simp: snapshots_ordered_def)
  obtain kind where b: "jget body ''snapshot_kind'' = Inr (jstr kind)" "snapshot_order_ok s (jstr kind) phase = Inr True" "ns_snapshots t = ns_snapshots s @ [body]"
    using assms(2) by (rule snapshot_Inr)
  have "kinds_ordered (kinds @ [kind])" using kinds_ordered_append [OF k(2) snapshot_next [OF b(2) k(1)]] .
  with snapshot_kinds_append [OF k(1) b(1)] b(3) show ?thesis by (auto simp: snapshots_ordered_def)
qed

interpretation snapshot_order: replay_invariant L snapshots_ordered for L :: "('p, 's) net_lib"
proof
  show "snapshots_ordered initial" by (auto simp: snapshots_ordered_def initial_def snapshot_kinds_def kinds_ordered_def)
  fix s t :: net_state and kind body phase intent
  show "snapshots_ordered t" if "snapshots_ordered s" "valid_record L kind body" "advance L s kind body phase = Inr t"
    using advance_snapshots [OF that(3)] that(1) snapshot_ordered unfolding snapshots_ordered_def by metis
  show "snapshots_ordered (command_outcome s body)" if "snapshots_ordered s"
    using that command_frame(2) unfolding snapshots_ordered_def by metis
  show "snapshots_ordered t" if "snapshots_ordered s" "command_intent L intent s = Inr t"
    using that command_frame(1) unfolding snapshots_ordered_def by metis
qed

section \<open>Cleanup steps\<close>

definition step_is :: "json \<Rightarrow> string \<times> string \<Rightarrow> bool" where
  "step_is body = (\<lambda>(r, a). jget body ''resource'' = Inr (jstr r) \<and> jget body ''action'' = Inr (jstr a))"

definition cleanup_ordered :: "net_state \<Rightarrow> bool" where
  "cleanup_ordered s \<longleftrightarrow> list_all2 step_is (ns_cleanup_steps s) (take (length (ns_cleanup_steps s)) CLEANUP_ORDER) \<and>
     (ns_cleanup_steps s \<noteq> [] \<longrightarrow> ns_cleanup_authority s \<noteq> None)"

lemma detached_authority: "detached_step s body = Inr t \<Longrightarrow> ns_cleanup_authority s \<noteq> None"
  by (auto simp: detached_step_def split: option.split_asm)

lemma detached_ordered:
  assumes "cleanup_ordered s" "detached_step s body = Inr t"
  shows "cleanup_ordered t"
proof -
  let ?n = "length (ns_cleanup_steps s)"
  note d = detached_step_Inr [OF assms(2)]
  have "step_is body (CLEANUP_ORDER ! ?n)" using d by (simp add: step_is_def)
  then have "list_all2 step_is (ns_cleanup_steps s @ [body]) (take ?n CLEANUP_ORDER @ [CLEANUP_ORDER ! ?n])"
    using assms(1) by (auto simp: cleanup_ordered_def intro!: list_all2_appendI)
  moreover have "take (Suc ?n) CLEANUP_ORDER = take ?n CLEANUP_ORDER @ [CLEANUP_ORDER ! ?n]"
    using d by (intro take_Suc_conv_app_nth) blast
  ultimately show ?thesis using d detached_authority [OF assms(2)] by (simp add: cleanup_ordered_def)
qed

lemma cleanup_ordered_part: "cleanup_part s = cleanup_part t \<Longrightarrow> cleanup_ordered s \<longleftrightarrow> cleanup_ordered t"
  by (simp add: cleanup_ordered_def cleanup_part_def)

lemma ownership_ordered:
  assumes "cleanup_ordered s" "advance_ownership s kind body = Inr t"
  shows "cleanup_ordered t"
proof -
  from assms(2) consider "cleanup_part t = cleanup_part s" | "cleanup_intent s body = Inr t" | "detached_step s body = Inr t"
    by (auto simp: advance_ownership_def cleanup_part_def split: if_split_asm)
  then show ?thesis
  proof cases
    case 1
    with assms(1) cleanup_ordered_part show ?thesis by blast
  next
    case 2
    from cleanup_intent_Inr [OF this] show ?thesis by (auto simp: cleanup_ordered_def)
  qed (rule detached_ordered [OF assms(1)])
qed

interpretation cleanup_order: replay_invariant L cleanup_ordered for L :: "('p, 's) net_lib"
proof
  show "cleanup_ordered initial" by (simp add: cleanup_ordered_def initial_def)
  fix s t :: net_state and kind body phase intent
  show "cleanup_ordered t" if "cleanup_ordered s" "valid_record L kind body" "advance L s kind body phase = Inr t"
    using advance_cleanup_part [OF that(3)] that(1) ownership_ordered cleanup_ordered_part by metis
  show "cleanup_ordered (command_outcome s body)" if "cleanup_ordered s"
    using that command_frame(2) cleanup_ordered_part by blast
  show "cleanup_ordered t" if "cleanup_ordered s" "command_intent L intent s = Inr t"
    using that command_frame(1) cleanup_ordered_part by blast
qed

end
