(* ===== verification/JournalChain.thy ===== *)
theory JournalChain
  imports JournalSafety
begin

text \<open>
  The proofs of settled effects form a hash chain: the proof of an effect is the digest of its canonical encoding, and
  every effect states the proof of the one before it. So the last proof determines all effects.
\<close>

section \<open>The canonical encoding is injective\<close>

definition plain_hooks :: hooks where
  "plain_hooks = \<lparr>object_pairs_hook = (\<lambda>ps. Inr (JObj ps)), parse_int = (\<lambda>t. Inr (JInt (int_of_text t))),
     parse_float = (\<lambda>_. Inr JNull), parse_constant = (\<lambda>_. Inr JNull)\<rparr>"

interpretation plain: json_hooks plain_hooks "\<lambda>_. True"
  by unfold_locales (simp_all add: plain_hooks_def int_of_text_print)

lemma print_json_inj: "json_ok (\<lambda>_. True) a \<Longrightarrow> json_ok (\<lambda>_. True) b \<Longrightarrow> print_json a = print_json b \<Longrightarrow> a = b"
  using plain.loads_print [of a "[]"] plain.loads_print [of b "[]"] by (simp add: skip_ws_def)

lemma journal_canonical_inj:
  assumes "journal_canonical a = Inr raw" "journal_canonical b = Inr raw" "json_ok (\<lambda>_. True) a" "json_ok (\<lambda>_. True) b"
  shows "sort_keys a = sort_keys b"
proof -
  obtain enc where "utf8_encode (json_dumps a) = Some enc" "utf8_encode (json_dumps b) = Some enc"
    using assms(1,2) by (auto simp: journal_canonical_def split: option.split_asm)
  then have "json_dumps a = json_dumps b" by (metis utf8_roundtrip option.inject)
  then show ?thesis using assms(3,4) by (intro print_json_inj json_ok_sort_keys) (simp_all add: json_dumps_def)
qed

section \<open>A dictionary with and without its proof\<close>

lemma sort_key_fst_unique:
  assumes "set xs = set ys" "distinct (map fst xs)" "distinct (map fst ys)"
  shows "sort_key fst xs = sort_key fst ys"
proof (rule map_sorted_distinct_set_unique [of fst])
  show "inj_on fst (set (sort_key fst xs) \<union> set (sort_key fst ys))"
    using assms by (simp add: distinct_map)
qed (use assms in \<open>simp_all add: distinct_sort_fst\<close>)

lemma sort_keys_set:
  assumes "sort_keys (JObj ps) = sort_keys (JObj qs)"
  shows "set (map (on_value sort_keys) ps) = set (map (on_value sort_keys) qs)"
proof -
  have "sort_key fst (map (on_value sort_keys) ps) = sort_key fst (map (on_value sort_keys) qs)" using assms by simp
  then have "set (sort_key fst (map (on_value sort_keys) ps)) = set (sort_key fst (map (on_value sort_keys) qs))" by (rule arg_cong)
  then show ?thesis unfolding set_sort .
qed

lemma map_of_eq_set: "map_of ps k = Some v \<Longrightarrow> distinct (map fst ps) \<Longrightarrow> set ps = insert (k, v) (set (filter (\<lambda>p. fst p \<noteq> k) ps))"
  by (auto dest: map_of_SomeD) (metis eq_key_imp_eq_value map_of_SomeD)

lemma same_with_proof:
  assumes "json_ok (\<lambda>_. True) a" "json_ok (\<lambda>_. True) b" "sort_keys (without_proof a) = sort_keys (without_proof b)"
    "jget a ''proof_sha256'' = Inr v" "jget b ''proof_sha256'' = Inr v"
  shows "sort_keys a = sort_keys b"
proof -
  let ?k = "ustr ''proof_sha256''" and ?m = "map (on_value sort_keys)"
  obtain ps qs where a: "a = JObj ps" "map_of ps ?k = Some v" and b: "b = JObj qs" "map_of qs ?k = Some v"
    using assms(4,5) by (auto simp: jkey_def split: json.split_asm option.split_asm)
  let ?f = "filter (\<lambda>p. fst p \<noteq> ?k)"
  have d: "distinct (map fst ps)" "distinct (map fst qs)" using assms(1,2) a(1) b(1) by simp_all
  have "set (?m (?f ps)) = set (?m (?f qs))"
    using assms(3) by (intro sort_keys_set) (simp add: a(1) b(1) without_proof_def)
  then have "on_value sort_keys ` set (?f ps) = on_value sort_keys ` set (?f qs)" by (simp only: set_map)
  then have "set (?m ps) = set (?m qs)"
    unfolding set_map map_of_eq_set [OF a(2) d(1)] map_of_eq_set [OF b(2) d(2)] image_insert by simp
  then have "sort_key fst (?m ps) = sort_key fst (?m qs)" using d by (intro sort_key_fst_unique) (simp_all del: map_map)
  then show ?thesis by (simp add: a b)
qed

lemma same_member:
  assumes "json_ok (\<lambda>_. True) a" "json_ok (\<lambda>_. True) b" "sort_keys a = sort_keys b" "jget a k = Inr v" "jget b k = Inr w"
  shows "sort_keys v = sort_keys w"
proof -
  obtain ps qs where a: "a = JObj ps" "map_of ps (ustr k) = Some v" and b: "b = JObj qs" "map_of qs (ustr k) = Some w"
    using assms(4,5) by (auto simp: jkey_def split: json.split_asm option.split_asm)
  with assms(1-3) show ?thesis
    using map_of_sort_keys [of ps "ustr k"] map_of_sort_keys [of qs "ustr k"] by simp
qed

section \<open>Proofs of settled effects\<close>

definition effects_proved :: "digest_fun \<Rightarrow> net_state \<Rightarrow> bool" where
  "effects_proved H s \<longleftrightarrow> (\<forall>b\<in>set (ns_effects s). json_ok (\<lambda>_. True) b \<and> check_proof H b = Inr ())"

lemma valid_record_proof:
  "valid_record L kind body \<Longrightarrow> kind \<noteq> ''NETWORK_EFFECT_INTENT_V2'' \<Longrightarrow> json_ok (\<lambda>_. True) body \<and> check_proof (nl_sha256 L) body = Inr ()"
  by (auto simp: valid_record_def validate_record_def Let_def split: option.split_asm)

lemma effect_appends: "advance_effect L s kind body = Inr t \<Longrightarrow> ns_effects t = ns_effects s \<or> ns_effects t = ns_effects s @ [body]"
  by (erule effect_Inr) (auto dest!: observed_Inr settled_Inr)

lemma effects_proved_part: "ns_effects s = ns_effects t \<Longrightarrow> effects_proved H s \<longleftrightarrow> effects_proved H t"
  by (simp add: effects_proved_def)

interpretation proved: replay_invariant L "effects_proved (nl_sha256 L)" for L :: "('p, 's) net_lib"
proof
  show "effects_proved (nl_sha256 L) initial" by (simp add: effects_proved_def initial_def)
  fix s t :: net_state and kind body phase intent
  show "effects_proved (nl_sha256 L) t" if s: "effects_proved (nl_sha256 L) s" and v: "valid_record L kind body"
    and step: "advance L s kind body phase = Inr t"
  proof -
    have "ns_effects t = ns_effects s \<or> kind \<noteq> ''NETWORK_EFFECT_INTENT_V2'' \<and> ns_effects t = ns_effects s @ [body]"
      using advance_effect_part [OF step]
    proof (elim disjE exE conjE)
      fix s' assume e: "effect_part s' = effect_part s" and "advance_intent s' body phase = Inr t"
      then show ?thesis using intent_Inr [of s' body phase t] by (simp add: effect_part_def)
    next
      fix s' assume e: "effect_part s' = effect_part s" "kind \<noteq> ''NETWORK_EFFECT_INTENT_V2''" "advance_effect L s' kind body = Inr t"
      then show ?thesis using effect_appends [OF e(3)] by (simp add: effect_part_def)
    qed (simp add: effect_part_def)
    then show ?thesis using s valid_record_proof [OF v] by (auto simp: effects_proved_def)
  qed
  show "effects_proved (nl_sha256 L) (command_outcome s body)" if "effects_proved (nl_sha256 L) s"
    using that command_frame(2) [of s body] effects_proved_part [of "command_outcome s body" s] by (simp add: effect_part_def)
  show "effects_proved (nl_sha256 L) t" if "effects_proved (nl_sha256 L) s" "command_intent L intent s = Inr t"
    using that command_frame(1) [OF that(2)] effects_proved_part [of t s] by (simp add: effect_part_def)
qed

definition encodings :: "json list \<Rightarrow> bytes set" where
  "encodings effects = {raw. \<exists>b\<in>set effects. journal_canonical (without_proof b) = Inr raw}"

lemma json_ok_without_proof: "json_ok (\<lambda>_. True) b \<Longrightarrow> json_ok (\<lambda>_. True) (without_proof b)"
  by (cases b) (auto simp: without_proof_def members_ok_iff distinct_map_filter)

lemma check_proof_Inr:
  assumes "check_proof H b = Inr ()"
  obtains raw where "journal_canonical (without_proof b) = Inr raw" "jget b ''proof_sha256'' = Inr (JStr (H raw))"
  using assms by (auto simp: check_proof_def)

lemma same_proof_same_effect:
  assumes "inj_on H (encodings effects)" "a \<in> set effects" "b \<in> set effects" "check_proof H a = Inr ()" "check_proof H b = Inr ()"
    "json_ok (\<lambda>_. True) a" "json_ok (\<lambda>_. True) b" "jget a ''proof_sha256'' = jget b ''proof_sha256''"
  shows "sort_keys a = sort_keys b"
proof -
  obtain x where x: "journal_canonical (without_proof a) = Inr x" "jget a ''proof_sha256'' = Inr (JStr (H x))"
    using assms(4) by (rule check_proof_Inr)
  obtain y where y: "journal_canonical (without_proof b) = Inr y" "jget b ''proof_sha256'' = Inr (JStr (H y))"
    using assms(5) by (rule check_proof_Inr)
  have "x \<in> encodings effects" "y \<in> encodings effects" unfolding encodings_def using assms(2,3) x(1) y(1) by blast+
  moreover have "H x = H y" using assms(8) x(2) y(2) by simp
  ultimately have "x = y" using inj_onD [OF assms(1)] by blast
  then have "sort_keys (without_proof a) = sort_keys (without_proof b)"
    using journal_canonical_inj [OF x(1)] y(1) json_ok_without_proof assms(6,7) by simp
  with x(2) y(2) \<open>x = y\<close> show ?thesis using same_with_proof [OF assms(6,7)] by simp
qed

lemma same_int: "json_same v (JInt i) \<Longrightarrow> json_same w (JInt j) \<Longrightarrow> sort_keys v = sort_keys w \<Longrightarrow> i = j"
  by (cases v; cases w) (auto simp: json_same_def)

definition proof_chain :: "digest_fun \<Rightarrow> json list \<Rightarrow> bool" where
  "proof_chain H es \<longleftrightarrow> (\<forall>i < length es. linked (take i es) (es ! i)) \<and> (\<forall>b\<in>set es. json_ok (\<lambda>_. True) b \<and> check_proof H b = Inr ())"

lemma chain_snoc: "proof_chain H (es @ [b]) \<longleftrightarrow> proof_chain H es \<and> linked es b \<and> json_ok (\<lambda>_. True) b \<and> check_proof H b = Inr ()"
  by (auto simp: proof_chain_def nth_append less_Suc_eq)

lemma prior_text:
  assumes "es \<noteq> []" "\<forall>e\<in>set es. check_proof H e = Inr ()"
  obtains x where "prior_of es = Inr (JStr x)"
  using assms check_proof_Inr [of H "last es"] by (auto simp: prior_of_def)

lemma linked_same:
  assumes "linked es a" "linked fs b" "json_ok (\<lambda>_. True) a" "json_ok (\<lambda>_. True) b" "sort_keys a = sort_keys b"
    "\<forall>e\<in>set (es @ fs). check_proof H e = Inr ()"
  shows "length es = length fs" "es \<noteq> [] \<Longrightarrow> jget (last es) ''proof_sha256'' = jget (last fs) ''proof_sha256''"
proof -
  note members = same_member [OF assms(3-5)]
  show l: "length es = length fs"
    using assms(1,2) members [of "''effect_serial''"] same_int unfolding linked_def by (metis int_int_eq)
  assume "es \<noteq> []"
  then have "fs \<noteq> []" using l by auto
  obtain x y where p: "prior_of es = Inr (JStr x)" "prior_of fs = Inr (JStr y)"
    using prior_text [of es H] prior_text [of fs H] \<open>es \<noteq> []\<close> \<open>fs \<noteq> []\<close> assms(6) by (metis Un_iff set_append)
  then have "jget a ''prior_proof_sha256'' = Inr (JStr x)" "jget b ''prior_proof_sha256'' = Inr (JStr y)"
    using assms(1,2) by (auto simp: linked_def json_same_str)
  with members have "x = y" by fastforce
  with p \<open>es \<noteq> []\<close> \<open>fs \<noteq> []\<close> show "jget (last es) ''proof_sha256'' = jget (last fs) ''proof_sha256''" by (simp add: prior_of_def)
qed

lemma chain_determined:
  assumes "proof_chain H es" "proof_chain H fs" "es \<noteq> []" "fs \<noteq> []" "jget (last es) ''proof_sha256'' = jget (last fs) ''proof_sha256''"
    "inj_on H (encodings all)" "set es \<subseteq> set all" "set fs \<subseteq> set all"
  shows "map sort_keys es = map sort_keys fs"
  using assms
proof (induction es arbitrary: fs rule: rev_induct)
  case (snoc a es)
  obtain gs b where fs: "fs = gs @ [b]" using snoc.prems(4) by (metis rev_exhaust)
  note c = snoc.prems(1,2) [unfolded fs chain_snoc]
  have same: "sort_keys a = sort_keys b"
    using snoc.prems c by (intro same_proof_same_effect [of H all]) (auto simp: fs)
  have proofs: "\<forall>e\<in>set (es @ gs). check_proof H e = Inr ()" using c by (auto simp: proof_chain_def)
  have l: "length es = length gs" using linked_same(1) [of es a gs b H] proofs c same by blast
  show ?case
  proof (cases "es = []")
    case True
    with l same fs show ?thesis by simp
  next
    case False
    then have "jget (last es) ''proof_sha256'' = jget (last gs) ''proof_sha256''"
      using linked_same(2) [of es a gs b H] proofs c same by blast
    moreover have "gs \<noteq> []" using l False by auto
    ultimately have "map sort_keys es = map sort_keys gs"
      using snoc.IH [of gs] snoc.prems(6-8) c False fs by simp
    with same fs show ?thesis by simp
  qed
qed simp

end
