(* ===== verification/JournalProperties.thy ===== *)
theory JournalProperties
  imports JournalChain
begin

text \<open>
  The properties of the network journal, on every state that a replay of validated records can reach, and a sample
  journal: one observation, the baseline, and the first effect from its intent to its settlement.
\<close>

section \<open>A sample journal\<close>

definition sample_lib :: "(unit, unit) net_lib" where
  "sample_lib = \<lparr>nl_sha256 = (\<lambda>_. replicate 64 49), nl_derive_identity = (\<lambda>_ _ _ _ _ _. Inr (JObj [], JNull)),
     nl_parse_nft_snapshot = (\<lambda>_ _ _. Inr ()), nl_bind_causal_sensor = (\<lambda>_ _ _ _. Inr ()), nl_counters = (\<lambda>_. JNull),
     nl_nft_value = (\<lambda>_. JNull), nl_static_sha256 = (\<lambda>_. JNull), nl_replay_causal = (\<lambda>_ _ _. Inr (JNull, JNull, JNull)),
     nl_validate_ctr_launch_intent = (\<lambda>_. Inr ())\<rparr>"

definition ones :: json where "ones = JStr (replicate 64 49)"

definition member :: "string \<Rightarrow> json \<Rightarrow> pystr \<times> json" where "member k v = (ustr k, v)"

definition sample_record :: "(pystr \<times> json) list \<Rightarrow> json" where
  "sample_record ps = JObj ([member ''operation_token'' ones, member ''policy_version'' (jstr POLICY_VERSION)] @ ps)"

definition sample_output :: json where
  "sample_output = sample_record [member ''observation_serial'' (JInt 0), member ''source_id'' (jstr ''MOUNTINFO''), member ''command_serial'' JNull,
     member ''chunk_index'' (JInt 0), member ''chunk_count'' (JInt 1), member ''output_sha256'' ones, member ''output_length'' (JInt 1),
     member ''raw_hex'' (jstr ''41''), member ''proof_sha256'' ones]"

definition sample_absent :: json where "sample_absent = JObj [member ''netns'' JNull]"

definition sample_netns :: "(pystr \<times> json) list" where
  "sample_netns = [member ''device'' (jstr ''0:4''), member ''inode_device'' (JInt 4), member ''inode'' (JInt 9)]"

definition sample_baseline :: json where
  "sample_baseline = sample_record [member ''snapshot_kind'' (jstr ''baseline''), member ''baselines'' JNull, member ''sources'' (JArr []),
     member ''identity'' sample_absent, member ''proof_sha256'' ones]"

definition sample_core :: "(pystr \<times> json) list" where
  "sample_core = [member ''effect_serial'' (JInt 0), member ''action'' (jstr ''IP_NETNS_ADD''), member ''prior_proof_sha256'' (JStr (replicate 64 48)),
     member ''target'' sample_absent]"

definition sample_intent :: json where "sample_intent = sample_record sample_core"

definition sample_effect :: json where
  "sample_effect = sample_record (sample_core @ [member ''disposition'' (jstr ''exact''), member ''sources'' (JArr []),
     member ''identity'' (JObj [member ''netns'' (JObj sample_netns)]), member ''proof_sha256'' ones])"

definition sample_created :: json where
  "sample_created = sample_record [member ''helper_pid'' (JInt 7), member ''identity'' (JObj (member ''mount_id'' (JInt 1) # sample_netns)),
     member ''proof_sha256'' ones]"

definition sample_command :: "string \<Rightarrow> string list \<Rightarrow> json" where
  "sample_command command_id argv = JObj [member ''command_id'' (jstr command_id), member ''operation_token'' ones,
     member ''argv'' (JArr (map jstr argv)), member ''stdin_hex'' (jstr ''''), member ''executable_role'' (jstr ''ip''),
     member ''executable_path'' (jstr ''/usr/sbin/ip''), member ''deadline_class'' (jstr ''network''), member ''duration_ns'' (JInt 10000000000),
     member ''output_grammar'' (jstr ''json''), member ''stdout_limit'' (JInt 65536), member ''stderr_limit'' (JInt 65536),
     member ''inherited_fds'' (JArr [])]"

section \<open>Its states\<close>

definition state_observed :: net_state where
  "state_observed = initial\<lparr>ns_policy_version := jstr POLICY_VERSION, ns_observations := [\<lparr>ob_base = JObj
     [member ''observation_serial'' (JInt 0), member ''source_id'' (jstr ''MOUNTINFO''), member ''command_serial'' JNull, member ''chunk_count'' (JInt 1),
      member ''output_sha256'' ones, member ''output_length'' (JInt 1)], ob_raw = [65]\<rparr>]\<rparr>"

definition state_baseline :: net_state where
  "state_baseline = state_observed\<lparr>ns_snapshots := [sample_baseline], ns_current := sample_absent\<rparr>"

definition state_intent :: net_state where
  "state_intent = state_baseline\<lparr>ns_pending := Some (''NETWORK_EFFECT_INTENT_V2'', sample_intent, 0)\<rparr>"

definition state_first :: net_state where
  "state_first = state_intent\<lparr>ns_effect_commands := [jstr ''IP_ALL_LINKS'']\<rparr>"

definition state_second :: net_state where
  "state_second = state_intent\<lparr>ns_effect_commands := [jstr ''IP_ALL_LINKS'', jstr ''IP_NS_LINKS'']\<rparr>"

definition state_created :: net_state where
  "state_created = state_second\<lparr>ns_created_nsfs := Some sample_created\<rparr>"

definition state_effect :: net_state where
  "state_effect = state_created\<lparr>ns_pending := Some (''NETWORK_EFFECT_OBSERVED_V2'', sample_effect, 0)\<rparr>"

definition state_settled :: net_state where
  "state_settled = state_created\<lparr>ns_pending := None, ns_effects := [sample_effect], ns_current := JObj [member ''netns'' (JObj sample_netns)]\<rparr>"

lemmas sample_states = initial_def state_observed_def state_baseline_def state_intent_def state_first_def state_second_def
  state_created_def state_effect_def state_settled_def

lemmas sample_values = sample_output_def sample_absent_def sample_netns_def sample_baseline_def sample_core_def sample_intent_def
  sample_effect_def sample_created_def sample_record_def sample_command_def sample_lib_def member_def

lemmas journal_constants = OUTPUT_RECORD_def ORIGINAL_PLACEHOLDER_RECORD_def CREATED_NSFS_RECORD_def QUARANTINE_RECORDS_def SUPPORT_RECORD_def
  PARENT_MOUNT_RECORD_def DETACHED_CLEANUP_INTENT_def DETACHED_CLEANUP_STEP_def CLEANUP_OWNERSHIP_RECORDS_def SENSOR_RECORD_def
  SENSOR_PROOF_RECORD_def ALL_RECORDS_def RECORDS_def

section \<open>Its records are valid\<close>

fun scalar_json :: "json \<Rightarrow> bool" where
  "scalar_json (JStr s) = list_all is_scalar s"
| "scalar_json (JArr xs) = list_all scalar_json xs"
| "scalar_json (JObj ps) = list_all (\<lambda>(k, v). list_all is_scalar k \<and> scalar_json v) ps"
| "scalar_json _ = True"

lemma ustr_scalar [simp]: "list_all is_scalar (ustr s)"
proof -
  have "is_scalar (of_char c)" for c using nat_of_char_less_256 [of c] unfolding is_scalar_def is_surrogate_def by linarith
  then show ?thesis by (simp add: ustr_def list_all_iff)
qed

lemma is_scalar_less: "c < 55296 \<Longrightarrow> is_scalar c"
  by (simp add: is_scalar_def is_surrogate_def)

lemma escape_char_scalar: "is_scalar c \<Longrightarrow> list_all is_scalar (escape_char c)"
  by (auto simp: escape_char_def hex_digit_def is_scalar_less)

lemma concat_scalar: "list_all is_scalar s \<Longrightarrow> list_all is_scalar (concat (map escape_char s))"
  by (induction s) (simp_all add: escape_char_scalar)

lemma quoted_scalar: "list_all is_scalar s \<Longrightarrow> list_all is_scalar (print_str s)"
  by (simp add: print_str_def concat_scalar is_scalar_less)

lemma decimal_scalar: "list_all is_scalar (decimal n)"
  using decimal_digits [of n] by (auto simp: list_all_iff is_digit_def intro!: is_scalar_less)

lemma json_text_scalar:
  "scalar_json v \<Longrightarrow> list_all is_scalar (print_json v)"
  "list_all scalar_json xs \<Longrightarrow> list_all is_scalar (print_items xs)"
  "list_all (\<lambda>(k, v). list_all is_scalar k \<and> scalar_json v) ps \<Longrightarrow> list_all is_scalar (print_members ps)"
  by (induction v and xs and ps rule: print_json_print_items_print_members.induct)
    (auto simp: quoted_scalar decimal_scalar print_int_def is_scalar_less split: list.splits)

lemma sort_keys_scalar: "scalar_json v \<Longrightarrow> scalar_json (sort_keys v)"
  by (induction v rule: scalar_json.induct) (auto simp: list_all_iff)

lemma journal_canonical_total: "scalar_json v \<Longrightarrow> \<exists>raw. journal_canonical v = Inr raw"
  using json_text_scalar(1) [OF sort_keys_scalar, of v]
  by (simp add: journal_canonical_def json_dumps_def utf8_encode_def)

lemma json_same_int [simp]: "json_same (JInt i) (JInt j) \<longleftrightarrow> i = j"
  by (simp add: json_same_def)

lemma json_same_text [simp]: "json_same (JStr s) (JStr t) \<longleftrightarrow> s = t"
  by (simp add: json_same_def)

lemma ones_hex [simp]: "hex_digest ones"
  by (auto simp: hex_digest_def ones_def ustr_def)

lemma ones_scalar [simp]: "scalar_json ones" "json_ok p ones"
  by (simp_all add: ones_def list_all_iff is_scalar_less)

lemma zeros_scalar [simp]: "list_all is_scalar (replicate 64 48)"
  by (simp add: list_all_iff is_scalar_less)

lemma policies_differ [simp]: "POLICY_VERSION \<noteq> LEGACY_POLICY_VERSION"
  by (simp add: POLICY_VERSION_def LEGACY_POLICY_VERSION_def)

lemma sample_device [simp]: "device_text (jstr ''0:4'')"
  by (simp add: device_text_def split_once_def ustr_def is_digit_def)

lemma check_proof_sample:
  assumes "jget body ''proof_sha256'' = Inr ones" "scalar_json (without_proof body)"
  shows "check_proof (\<lambda>_. replicate 64 49) body = Inr ()"
  using journal_canonical_total [OF assms(2)] assms(1) by (auto simp: check_proof_def ones_def [symmetric])

lemmas shapes = validate_record_def journal_fields_def RECORD_FIELDS_def journal_constants Let_def exact_dict_def at_def jkey_def jmember_def shape_ok_def
  check_proof_sample without_proof_def

lemma valid_output: "valid_record sample_lib OUTPUT_RECORD sample_output"
  unfolding valid_record_def by (simp add: shapes sample_values insert_commute)

lemma valid_baseline: "valid_record sample_lib ''NETWORK_SNAPSHOT_V2'' sample_baseline"
  unfolding valid_record_def by (simp add: shapes sample_values insert_commute)

lemma valid_intent: "valid_record sample_lib ''NETWORK_EFFECT_INTENT_V2'' sample_intent"
  unfolding valid_record_def by (simp add: shapes sample_values insert_commute)

lemma valid_created: "valid_record sample_lib CREATED_NSFS_RECORD sample_created"
  unfolding valid_record_def by (simp add: shapes sample_values insert_commute)

lemma valid_effect:
  "valid_record sample_lib ''NETWORK_EFFECT_OBSERVED_V2'' sample_effect" "valid_record sample_lib ''NETWORK_EFFECT_SETTLED_V2'' sample_effect"
  unfolding valid_record_def by (simp_all add: shapes sample_values insert_commute)

section \<open>Its steps are accepted\<close>

lemmas transition = advance_def bind_policy_def journal_constants jkey_def jfail_def require_def

lemma step_output: "advance sample_lib initial OUTPUT_RECORD sample_output ''FS_SETTLED'' = Inr state_observed"
  by (simp add: transition advance_output_def project_def OUTPUT_BASE_def add_chunk_def hex_field_def finish_output_def check_outcome_row_def
      sample_values sample_states ustr_def unhex_def ones_def)

lemma step_baseline: "advance sample_lib state_observed ''NETWORK_SNAPSHOT_V2'' sample_baseline ''FS_SETTLED'' = Inr state_baseline"
  by (simp add: transition advance_snapshot_def source_outputs_def json_items_def first_baselines_def identity_derived_def snapshot_order_ok_def
      SNAPSHOT_PHASES_def last_kind_def SNAPSHOT_NEXT_def jmember_def snapshot_identity_ok_def sample_values sample_states)

lemma step_intent: "advance sample_lib state_baseline ''NETWORK_EFFECT_INTENT_V2'' sample_intent ''BASELINES_CAPTURED'' = Inr state_intent"
  by (simp add: transition advance_intent_def effect_phases_def SETUP_def jmember_def prior_proof_def sample_values sample_states)

lemma step_created: "advance sample_lib state_second CREATED_NSFS_RECORD sample_created ''BASELINES_CAPTURED'' = Inr state_created"
  by (simp add: transition advance_created_def pending_action_def check_created_def exact_dict_def insert_commute
      sample_values sample_states)

lemma step_observed: "advance sample_lib state_created ''NETWORK_EFFECT_OBSERVED_V2'' sample_effect ''BASELINES_CAPTURED'' = Inr state_effect"
  by (simp add: transition advance_effect_def advance_observed_def PENDING_FIELDS_def policy_or_default_def effect_command_trace_def
      EFFECT_COMMAND_TRACES_def setup_effect_trace_def PARTIAL_def executed_commands_def source_outputs_def json_items_def identity_derived_def
      created_ok_def command_settled_def jmember_def SETUP_def sample_values sample_states)

lemma step_settled: "advance sample_lib state_effect ''NETWORK_EFFECT_SETTLED_V2'' sample_effect ''BASELINES_CAPTURED'' = Inr state_settled"
  by (simp add: transition advance_effect_def advance_settled_def PENDING_FIELDS_def sample_values sample_states)

definition sample_argv :: "string \<Rightarrow> string list" where
  "sample_argv command_id = (if command_id = ''IP_ALL_LINKS'' then [''/usr/sbin/ip'', ''-j'', ''-d'', ''link'', ''show'']
     else [''/usr/sbin/ip'', ''-n'', ''c42n1111111111'', ''-j'', ''-d'', ''link'', ''show''])"

lemma sample_names_bound: "names_bound ''qn'' (ustr ''c42n1111111111'') (map jstr (sample_argv command_id))"
  "names_bound ''t'' n (map jstr (sample_argv command_id))" "names_bound ''h'' n (map jstr (sample_argv command_id))"
  by (simp_all add: names_bound_def bound_name_def sample_argv_def ustr_def)

lemma sample_rows:
  "command (jstr ''IP_ALL_LINKS'') = Inr \<lparr>fc_action = ''IP_ALL_LINKS'', fc_tool_contract = IP_CONTRACT, fc_argv_tail = [''-j'', ''-d'', ''link'', ''show''], fc_stdin = []\<rparr>"
  "command (jstr ''IP_NS_LINKS'') = Inr \<lparr>fc_action = ''IP_NS_LINKS'', fc_tool_contract = IP_CONTRACT, fc_argv_tail = [''-n'', NETNS, ''-j'', ''-d'', ''link'', ''show''], fc_stdin = []\<rparr>"
  by (simp_all add: command_def jmember_def COMMAND_IDS_def MUTATION_COMMANDS_def OBSERVER_COMMANDS_def)

lemma sample_suffix: "ustr ''c42n'' @ replicate 10 49 = ustr ''c42n1111111111''"
  by (simp add: ustr_def numeral_eq_Suc)

lemma sample_fields [simp]:
  "jget (sample_command a argv) ''command_id'' = Inr (jstr a)" "jget (sample_command a argv) ''operation_token'' = Inr ones"
  "jget (sample_command a argv) ''argv'' = Inr (JArr (map jstr argv))" "jget (sample_command a argv) ''stdin_hex'' = Inr (JStr [])"
  "jget (sample_command a argv) ''executable_role'' = Inr (jstr ''ip'')" "jget (sample_command a argv) ''executable_path'' = Inr (jstr ''/usr/sbin/ip'')"
  "jget (sample_command a argv) ''stdout_limit'' = Inr (JInt 65536)" "jget (sample_command a argv) ''stderr_limit'' = Inr (JInt 65536)"
  "jget (sample_command a argv) ''inherited_fds'' = Inr (JArr [])" "fields_are (sample_command a argv) NETWORK_LIMITS = Inr True"
  by (simp_all add: sample_command_def member_def jkey_def NETWORK_LIMITS_def ustr_def [of "[]"])

lemma gated_delete_other: "a \<noteq> ''NFT_REMOVE_ATOMIC'' \<Longrightarrow> gated_delete s (jstr a) = Inr False"
  by (simp add: gated_delete_def split: option.split)

lemma sample_table:
  "table_command_ok H s (sample_command ''IP_ALL_LINKS'' (sample_argv ''IP_ALL_LINKS'')) (jstr ''IP_ALL_LINKS'') table (ustr ''c42n1111111111'') host [] = Inr ()"
  "table_command_ok H s (sample_command ''IP_NS_LINKS'' (sample_argv ''IP_NS_LINKS'')) (jstr ''IP_NS_LINKS'') table (ustr ''c42n1111111111'') host [] = Inr ()"
  by (simp_all add: table_command_ok_def sample_rows tool_role_def starts_with_def IP_CONTRACT_def Let_def gated_delete_other bind_item_def sample_argv_def
      TABLE_def NETNS_def HOST_IF_def)

lemma sample_bound:
  assumes "a \<in> {''IP_ALL_LINKS'', ''IP_NS_LINKS''}"
  shows "intent_bound H s (sample_command a (sample_argv a)) (jstr a) = Inr ()"
proof -
  have "token_prefix ones = Inr (replicate 10 49)" by (simp add: token_prefix_def ones_def)
  moreover have "\<not> some_suffix (\<lambda>t. bound_name ''t'' (take 14 t)) []" by (simp add: some_suffix_def bound_name_def)
  moreover have "table_command_ok H s (sample_command a (sample_argv a)) (jstr a) table (ustr ''c42n1111111111'') host [] = Inr ()" for table host
    using assms sample_table by auto
  moreover have "a \<noteq> ''IP_NETNS_REMOVE''" "\<not> jmember (jstr a) TC_COMMANDS" using assms by (auto simp: jmember_def TC_COMMANDS_def)
  ultimately show ?thesis
    unfolding intent_bound_def Let_def by (simp add: json_items_def hex_field_def sample_names_bound sample_suffix)
qed

lemma sample_intent_steps:
  assumes "a \<in> {''IP_ALL_LINKS'', ''IP_NS_LINKS''}" "record_command s (jstr a) (sample_command a (sample_argv a)) = Inr t" "ns_output_pending s = None"
  shows "command_intent sample_lib (sample_command a (sample_argv a)) s = Inr t"
proof -
  have "a \<noteq> ''CTR_RUN''" "\<not> jmember (jstr a) TC_COMMANDS" using assms by (auto simp: jmember_def TC_COMMANDS_def)
  with assms sample_bound [OF assms(1)] show ?thesis unfolding command_intent_def by simp
qed

lemma step_first: "command_intent sample_lib (sample_command ''IP_ALL_LINKS'' (sample_argv ''IP_ALL_LINKS'')) state_intent = Inr state_first"
  by (rule sample_intent_steps)
    (simp_all add: record_command_def mark_replay_def extend_trace_def executed_commands_def policy_or_default_def effect_command_trace_def
      EFFECT_COMMAND_TRACES_def setup_effect_trace_def PARTIAL_def SETUP_def jmember_def jkey_def sample_values sample_states)

lemma step_second: "command_intent sample_lib (sample_command ''IP_NS_LINKS'' (sample_argv ''IP_NS_LINKS'')) state_first = Inr state_second"
  by (rule sample_intent_steps)
    (simp_all add: record_command_def mark_replay_def extend_trace_def executed_commands_def policy_or_default_def effect_command_trace_def
      EFFECT_COMMAND_TRACES_def setup_effect_trace_def PARTIAL_def SETUP_def jmember_def jkey_def sample_values sample_states)

lemma sample_replayed: "replayed sample_lib state_settled"
  by (rule replayed.start replayed.journal_record [OF _ valid_output step_output] replayed.journal_record [OF _ valid_baseline step_baseline]
      replayed.journal_record [OF _ valid_intent step_intent] replayed.command [OF _ step_first] replayed.command [OF _ step_second]
      replayed.journal_record [OF _ valid_created step_created] replayed.journal_record [OF _ valid_effect(1) step_observed]
      replayed.journal_record [OF _ valid_effect(2) step_settled])+

section \<open>Properties of replayed journals\<close>

text \<open>C34. The settled effects of a replayed journal are, in order, the first effects of the setup and then removals, none of them twice.\<close>

theorem effects_in_order:
  assumes "replayed L s"
  shows "\<exists>actions. actions_of (ns_effects s) = Inr (map jstr actions) \<and> setup_then_removals actions"
  using order_of_effects.always [OF assms] by (auto simp: effects_ordered_def)

theorem effects_in_order_witness:
  "\<exists>actions. actions_of (ns_effects state_settled) = Inr (map jstr actions) \<and> setup_then_removals actions"
  using effects_in_order [OF sample_replayed] .

text \<open>C33. With a digest that has no collision among the canonical encodings of the effects involved, two replayed journals whose
  last settled effects have the same proof have settled the same effects.
\<close>

theorem effects_tamper_evident:
  assumes "replayed L s" "replayed L t" "ns_effects s \<noteq> []" "ns_effects t \<noteq> []"
    "jget (last (ns_effects s)) ''proof_sha256'' = jget (last (ns_effects t)) ''proof_sha256''"
    "inj_on (nl_sha256 L) (encodings (ns_effects s @ ns_effects t))"
  shows "map sort_keys (ns_effects s) = map sort_keys (ns_effects t)"
proof -
  have "proof_chain (nl_sha256 L) (ns_effects u)" if "replayed L u" for u
    using effect_chain.always [OF that] proved.always [OF that] by (simp add: proof_chain_def effects_chained_def effects_proved_def)
  then show ?thesis using assms by (intro chain_determined [of "nl_sha256 L" _ _ "ns_effects s @ ns_effects t"]) auto
qed

theorem effects_tamper_evident_witness:
  "ns_effects state_settled \<noteq> [] \<and> map sort_keys (ns_effects state_settled) = map sort_keys (ns_effects state_settled)"
proof -
  have "ns_effects state_settled = [sample_effect]" by (simp add: state_settled_def)
  then have "encodings (ns_effects state_settled @ ns_effects state_settled) \<subseteq> {raw. journal_canonical (without_proof sample_effect) = Inr raw}"
    by (auto simp: encodings_def)
  then have "inj_on (nl_sha256 sample_lib) (encodings (ns_effects state_settled @ ns_effects state_settled))"
    by (rule inj_on_subset [rotated]) (auto simp: inj_on_def)
  moreover have "ns_effects state_settled \<noteq> []" by (simp add: state_settled_def)
  ultimately show ?thesis using effects_tamper_evident [OF sample_replayed sample_replayed] by blast
qed

text \<open>Every observation of a replayed journal has its position as serial, and the length and the digest of the bytes assembled
  from its chunks.
\<close>

theorem observations_bound:
  assumes "replayed L s" "i < length (ns_observations s)"
  shows "observation_ok (nl_sha256 L) i (ns_observations s ! i)"
  using observed.always [OF assms(1)] assms(2) by (simp add: observations_ok_def)

theorem observations_bound_witness: "observation_ok (nl_sha256 sample_lib) 0 (ns_observations state_settled ! 0)"
  by (rule observations_bound [OF sample_replayed]) (simp add: sample_states)

text \<open>C35. The snapshots of a replayed journal are an initial part of baseline, ready, discovered, runtime followed by an initial part of
  network-absent, firewall-restored, final-absent, and its cleanup steps are an initial part of the fixed order of relocations
  and removals.
\<close>

theorem teardown_in_order:
  assumes "replayed L s"
  shows "(\<exists>kinds. snapshot_kinds (ns_snapshots s) kinds \<and> kinds_ordered kinds) \<and>
    list_all2 step_is (ns_cleanup_steps s) (take (length (ns_cleanup_steps s)) CLEANUP_ORDER)"
  using snapshot_order.always [OF assms] cleanup_order.always [OF assms] by (simp add: snapshots_ordered_def cleanup_ordered_def)

theorem teardown_in_order_witness:
  "(\<exists>kinds. snapshot_kinds (ns_snapshots state_settled) kinds \<and> kinds_ordered kinds) \<and>
    list_all2 step_is (ns_cleanup_steps state_settled) (take (length (ns_cleanup_steps state_settled)) CLEANUP_ORDER)"
  using teardown_in_order [OF sample_replayed] .

end
