(* ===== verification/CleanupBrackets.thy ===== *)
theory CleanupBrackets
  imports NetworkJournal
begin

text \<open>
  The cleanup brackets of the journal: what the writers read off the list of records (\<^verbatim>\<open>active_cleanup\<close>, \<^verbatim>\<open>begin_cleanup\<close>,
  \<^verbatim>\<open>settle_cleanup\<close>) agrees with what the replay tracked record by record (\<^verbatim>\<open>cleanup_step\<close>).
\<close>

fun run_brackets :: "string option \<Rightarrow> (string \<times> string) list \<Rightarrow> string option result" where
  "run_brackets active [] = Inr active"
| "run_brackets active ((kind, phase) # rows) = rbind (journal_cleanup_step active kind phase) (\<lambda>(active', _). run_brackets active' rows)"

lemma jfail_Inr_iff: "jfail c k = Inr x \<longleftrightarrow> c \<and> k = Inr x"
  by (simp add: jfail_def)

lemma intent_cases:
  assumes "map_of CLEANUP_INTENTS k = Some row"
  obtains "k = ''NETWORK_CLEANUP_INTENT_V1''" | "k = ''FIREWALL_CLEANUP_INTENT_V1''" | "k = ''NETWORK_CLEANUP_INTENT_V2''" | "k = ''FIREWALL_CLEANUP_INTENT_V2''"
  using assms by (auto simp: CLEANUP_INTENTS_def split: if_split_asm)

lemma intents_not_settled: "map_of CLEANUP_INTENTS k = Some row \<Longrightarrow> k \<notin> set CLEANUP_RECORDS"
  by (erule intent_cases)
    (simp_all add: CLEANUP_RECORDS_def ALL_RECORDS_def RECORDS_def QUARANTINE_RECORDS_def CLEANUP_OWNERSHIP_RECORDS_def SUPPORT_RECORD_def
      PARENT_MOUNT_RECORD_def DETACHED_CLEANUP_INTENT_def DETACHED_CLEANUP_STEP_def SENSOR_RECORD_def SENSOR_PROOF_RECORD_def OUTPUT_RECORD_def
      ORIGINAL_PLACEHOLDER_RECORD_def CREATED_NSFS_RECORD_def)

lemma completions: "map_of CLEANUP_INTENTS a = Some (from_phases, completion, acknowledgement) \<Longrightarrow>
    completion \<in> {''NETWORK_ABSENT'', ''FIREWALL_ABSENT''} \<and> (\<forall>x. acknowledgement = Some x \<longrightarrow> x \<in> set CLEANUP_SETTLED)"
  by (auto simp: CLEANUP_INTENTS_def CLEANUP_SETTLED_def split: if_split_asm)

lemma closers_not_intents: "k \<in> {''NETWORK_ABSENT'', ''FIREWALL_ABSENT''} \<union> set CLEANUP_SETTLED \<Longrightarrow> map_of CLEANUP_INTENTS k = None"
  by (auto simp: CLEANUP_INTENTS_def CLEANUP_SETTLED_def)

lemma step_active:
  assumes "journal_cleanup_step (Some a) kind phase = Inr (active, fresh)"
  shows "map_of CLEANUP_INTENTS kind = None \<and> active = (if completes a kind then None else Some a)"
proof -
  obtain ps completion ack where a: "map_of CLEANUP_INTENTS a = Some (ps, completion, ack)"
    using assms by (auto simp: journal_cleanup_step_def split: option.split_asm)
  have k: "kind \<in> set CLEANUP_RECORDS \<or> kind = completion \<or> Some kind = ack"
    and act: "active = (if Some kind = ack \<or> ack = None \<and> kind = completion then None else Some a)"
    using assms a by (auto simp: journal_cleanup_step_def jfail_Inr_iff split: if_split_asm)
  have "map_of CLEANUP_INTENTS kind = None"
    using k completions [OF a] intents_not_settled [of kind] closers_not_intents [of kind] by (cases "map_of CLEANUP_INTENTS kind") auto
  moreover have "completes a kind \<longleftrightarrow> Some kind = ack \<or> ack = None \<and> kind = completion"
    using a by (auto simp: completes_def split: option.split)
  ultimately show ?thesis using act by simp
qed

lemma step_idle:
  "journal_cleanup_step None kind phase = Inr (active, fresh) \<Longrightarrow> active = (if map_of CLEANUP_INTENTS kind = None then None else Some kind)"
  by (auto simp: journal_cleanup_step_def jfail_Inr_iff split: option.split_asm)

lemma active_of_run: "run_brackets active rows = Inr final \<Longrightarrow> active_loop active (map fst rows) = Inr final"
proof (induction active rows rule: run_brackets.induct)
  case (2 active kind phase rows)
  then obtain next_active fresh where s: "journal_cleanup_step active kind phase = Inr (next_active, fresh)" "run_brackets next_active rows = Inr final"
    by auto
  then have "active_loop next_active (map fst rows) = Inr final" using 2 by auto
  with s(1) show ?case by (cases active; cases "map_of CLEANUP_INTENTS kind") (auto simp: jfail_def dest!: step_active step_idle)
qed simp

lemma begin_kind: "begin_cleanup target status kinds (Inr phase) = Inr (Some k) \<Longrightarrow>
    active_cleanup kinds = Inr None \<and> (\<exists>ps rest. map_of CLEANUP_INTENTS k = Some (ps, rest) \<and> phase \<in> set ps)"
  by (auto simp: begin_cleanup_def jfail_Inr_iff split: option.split_asm)

lemma settle_kind: "settle_cleanup target status kinds (Inr phase) = Inr (Some k) \<Longrightarrow>
    \<exists>a ps. active_cleanup kinds = Inr (Some a) \<and> map_of CLEANUP_INTENTS a = Some (ps, phase, Some k)"
  by (auto simp: settle_cleanup_def jfail_Inr_iff split: option.split_asm)

text \<open>For a journal whose brackets the replay accepted, the record that opening a cleanup writes is accepted by the replay in the
  phase it was decided in and opens the bracket, and the record that settling writes is accepted and closes it.
\<close>

theorem bracket_writers_accepted:
  assumes "run_brackets None rows = Inr active"
  shows "(begin_cleanup target status (map fst rows) (Inr phase) = Inr (Some k) \<longrightarrow> journal_cleanup_step active k phase = Inr (Some k, True)) \<and>
    (settle_cleanup target status (map fst rows) (Inr phase) = Inr (Some k) \<longrightarrow> journal_cleanup_step active k phase = Inr (None, True))"
proof (intro conjI impI)
  have a: "active_cleanup (map fst rows) = Inr active" using active_of_run [OF assms] by (simp add: active_cleanup_def)
  show "journal_cleanup_step active k phase = Inr (Some k, True)" if "begin_cleanup target status (map fst rows) (Inr phase) = Inr (Some k)"
    using begin_kind [OF that] a by (auto simp: journal_cleanup_step_def jfail_def)
  show "journal_cleanup_step active k phase = Inr (None, True)" if "settle_cleanup target status (map fst rows) (Inr phase) = Inr (Some k)"
    using settle_kind [OF that] a by (auto simp: journal_cleanup_step_def jfail_def)
qed

theorem bracket_writers_accepted_witness:
  "journal_cleanup_step (Some ''NETWORK_CLEANUP_INTENT_V2'') ''NETWORK_CLEANUP_SETTLED_V2'' ''NETWORK_ABSENT'' = Inr (None, True)"
proof -
  have "run_brackets None [(''NETWORK_CLEANUP_INTENT_V2'', ''TASK_STOPPED'')] = Inr (Some ''NETWORK_CLEANUP_INTENT_V2'')"
    by (simp add: journal_cleanup_step_def CLEANUP_INTENTS_def jfail_def)
  moreover have "settle_cleanup ''network'' ''exact'' (map fst [(''NETWORK_CLEANUP_INTENT_V2'', ''TASK_STOPPED'')]) (Inr ''NETWORK_ABSENT'') =
      Inr (Some ''NETWORK_CLEANUP_SETTLED_V2'')"
    by (simp add: settle_cleanup_def CLEANUP_TARGETS_def active_cleanup_def CLEANUP_INTENTS_def jfail_def)
  ultimately show ?thesis using bracket_writers_accepted by blast
qed

end
