(* ===== verification/NetworkSnapshots.thy ===== *)
theory NetworkSnapshots
  imports NetworkReplay
begin

text \<open>
  What the network of a cycle is observed to be (\<^verbatim>\<open>remote/completion_kata_network.py\<close>): links, queueing disciplines and
  filters as the tools report them in JSON, and the difference that the runtime makes. \<^verbatim>\<open>_load\<close>, which decodes a bounded
  document and may return floats, is the parameter \<open>load\<close>; documents with floats are outside the model. Members whose
  type the source does not check are kept in the form \<open>normal\<close>, in which Python's equality is equality. The text of a
  \<^verbatim>\<open>NetworkError\<close> is its constant part.
\<close>

definition normal :: "json \<Rightarrow> json" where
  "normal v = sort_keys (numbers v)"

definition nfail :: "bool \<Rightarrow> string \<Rightarrow> 'a result \<Rightarrow> 'a result" where
  "nfail c message k = require c (NetworkError message) k"

definition keys_ok :: "json \<Rightarrow> string list \<Rightarrow> string list \<Rightarrow> bool" where
  "keys_ok v needed optional = (case v of
     JObj ps \<Rightarrow> set (map ustr needed) \<subseteq> set (map fst ps) \<and> set (map fst ps) \<subseteq> set (map ustr (needed @ optional))
   | _ \<Rightarrow> False)"

definition uint :: "json \<Rightarrow> int result" where
  "uint v = (case v of
     JInt i \<Rightarrow> nfail (1 \<le> i \<and> i \<le> 2 ^ 31 - 1) ''invalid identity number'' (Inr i)
   | _ \<Rightarrow> Inl (NetworkError ''invalid identity number''))"

fun json_text :: "json \<Rightarrow> pystr option" where
  "json_text (JStr s) = Some s"
| "json_text _ = None"

fun hashable :: "json \<Rightarrow> bool" where
  "hashable (JArr _) = False"
| "hashable (JObj _) = False"
| "hashable _ = True"

section \<open>Links\<close>

record link =
  lk_ifindex :: int
  lk_ifname :: pystr
  lk_kind :: pystr
  lk_mac :: pystr
  lk_peer_ifindex :: "int option"
  lk_flags :: "json list"
  lk_operstate :: pystr
  lk_up :: bool
  lk_qdisc :: pystr
  lk_addrgenmode :: json

definition LINK_OPTIONAL :: "string list" where
  "LINK_OPTIONAL = [''mtu'', ''min_mtu'', ''max_mtu'', ''group'', ''txqlen'', ''linkmode'', ''master'', ''promiscuity'', ''num_tx_queues'',
     ''num_rx_queues'', ''gso_max_size'', ''gso_max_segs'', ''tso_max_size'', ''tso_max_segs'', ''gro_max_size'', ''allmulti'',
     ''inet6_addr_gen_mode'', ''ifalias'', ''parentbus'', ''parentdev'', ''link_netnsid'', ''link'', ''broadcast'', ''altnames'']"

text \<open>\<^verbatim>\<open>(?:[0-9a-f]{2}:){5}[0-9a-f]{2}\<close>.\<close>

definition mac_text :: "pystr \<Rightarrow> bool" where
  "mac_text s \<longleftrightarrow> length s = 17 \<and> list_all (\<lambda>(i, c). if i mod 3 = 2 then c = 58 else is_hexchar c) (enumerate 0 s)"

definition link_name_mac :: "json \<Rightarrow> (pystr \<times> pystr) result" where
  "link_name_mac row =
     rbind (jget row ''ifname'') (\<lambda>name. rbind (jget row ''address'') (\<lambda>mac.
     (case (json_text name, json_text mac) of
        (Some n, Some m) \<Rightarrow> nfail (n \<noteq> [] \<and> length n \<le> 15 \<and> mac_text m) ''link name or address'' (Inr (n, m))
      | _ \<Rightarrow> Inl (NetworkError ''link name or address''))))"

definition link_flags :: "json \<Rightarrow> json list result" where
  "link_flags row =
     rbind (jget row ''flags'') (\<lambda>v.
     (case v of
        JArr xs \<Rightarrow>
          require (list_all hashable xs) (PyTypeError ''unhashable type'')
          (nfail (distinct (map normal xs)) ''link flags'' (Inr (map normal xs)))
      | _ \<Rightarrow> Inl (NetworkError ''link flags'')))"

definition TAP_LEGACY :: json where
  "TAP_LEGACY = JObj [(ustr ''type'', jstr ''tap''), (ustr ''pi'', JBool False), (ustr ''vnet_hdr'', JBool True), (ustr ''multi_queue'', JBool False),
     (ustr ''persist'', JBool False)]"

definition TAP_NATIVE :: json where
  "TAP_NATIVE = JObj [(ustr ''type'', jstr ''tap''), (ustr ''pi'', JBool False), (ustr ''vnet_hdr'', JBool True), (ustr ''multi_queue'', JBool True),
     (ustr ''numqueues'', JInt 1), (ustr ''numdisabled'', JInt 0), (ustr ''persist'', JBool True), (ustr ''user'', jstr ''root''),
     (ustr ''group'', jstr ''root'')]"

definition link_kind :: "json \<Rightarrow> bool \<Rightarrow> json result" where
  "link_kind row runtime =
     rbind (jget row ''link_type'') (\<lambda>kind. rbind (dict_get row ''linkinfo'') (\<lambda>info.
     if info = JNull then Inr kind
     else
       nfail (keys_ok info [''info_kind''] [''info_data'', ''info_slave_kind'', ''info_slave_data'']) ''unexpected JSON shape''
       (rbind (jget info ''info_kind'') (\<lambda>kind.
        nfail (\<not> (runtime \<and> kind = jstr ''tap'')) ''synthetic TAP kind''
        (if runtime \<and> kind = jstr ''tun'' then
           rbind (dict_get info ''info_data'') (\<lambda>data.
           nfail (json_same data TAP_LEGACY \<or> json_same data TAP_NATIVE) ''TAP detail drift'' (Inr (jstr ''tap'')))
         else Inr kind)))))"

definition link_peer :: "json \<Rightarrow> int option result" where
  "link_peer row = rbind (dict_get row ''link_index'') (\<lambda>peer. if peer = JNull then Inr None else rbind (uint peer) (\<lambda>i. Inr (Some i)))"

definition link_addrgenmode :: "json \<Rightarrow> json" where
  "link_addrgenmode row = normal (case jget row ''addrgenmode'' of
     Inr v \<Rightarrow> v
   | Inl _ \<Rightarrow> (case jget row ''inet6_addr_gen_mode'' of Inr v \<Rightarrow> v | Inl _ \<Rightarrow> JNull))"

definition parse_link_row :: "bool \<Rightarrow> json \<Rightarrow> link result" where
  "parse_link_row runtime row =
     nfail (keys_ok row [''ifindex'', ''ifname'', ''flags'', ''operstate'', ''link_type'', ''address'', ''qdisc'']
       (LINK_OPTIONAL @ [''link_index'', ''addrgenmode'', ''linkinfo''])) ''unexpected link JSON keys''
     (rbind (link_name_mac row) (\<lambda>(name, mac). rbind (link_flags row) (\<lambda>flags. rbind (link_kind row runtime) (\<lambda>kind.
      rbind (jget row ''qdisc'') (\<lambda>qdisc. rbind (jget row ''operstate'') (\<lambda>operstate.
      (case (json_text kind, json_text qdisc, json_text operstate) of
         (Some k, Some q, Some state) \<Rightarrow>
           rbind (link_peer row) (\<lambda>peer. rbind (rbind (jget row ''ifindex'') uint) (\<lambda>index.
           Inr \<lparr>lk_ifindex = index, lk_ifname = name, lk_kind = k, lk_mac = mac, lk_peer_ifindex = peer, lk_flags = flags, lk_operstate = state,
                lk_up = (jstr ''UP'' \<in> set flags \<and> (state = ustr ''UP'' \<or> state = ustr ''UNKNOWN'')), lk_qdisc = q,
                lk_addrgenmode = link_addrgenmode row\<rparr>))
       | _ \<Rightarrow> Inl (NetworkError ''link scalar''))))))))"

definition flags_are :: "link \<Rightarrow> string list \<Rightarrow> bool" where
  "flags_are item names \<longleftrightarrow> set (lk_flags item) = set (map jstr names)"

definition addrgen_none :: "link \<Rightarrow> bool" where
  "addrgen_none item \<longleftrightarrow> lk_addrgenmode item = jstr ''none'' \<or> lk_addrgenmode item = JInt 1"

definition UP_FLAGS :: "string list" where "UP_FLAGS = [''BROADCAST'', ''MULTICAST'', ''UP'', ''LOWER_UP'']"

definition link_named :: "pystr \<Rightarrow> link list \<Rightarrow> link option" where
  "link_named name links = List.find (\<lambda>item. lk_ifname item = name) (rev links)"

definition loopback_ok :: "link \<Rightarrow> bool" where
  "loopback_ok lo \<longleftrightarrow> lk_kind lo = ustr ''loopback'' \<and> lk_mac lo = ustr ''00:00:00:00:00:00'' \<and> lk_up lo \<and>
     flags_are lo [''LOOPBACK'', ''UP'', ''LOWER_UP''] \<and> lk_operstate lo = ustr ''UNKNOWN'' \<and> lk_qdisc lo = ustr ''noqueue'' \<and>
     lk_peer_ifindex lo = None"

definition guest_ok :: "link \<Rightarrow> bool" where
  "guest_ok guest \<longleftrightarrow> lk_kind guest = ustr ''veth'' \<and> lk_mac guest = ustr GUEST_MAC \<and> lk_peer_ifindex guest \<noteq> None \<and> lk_up guest \<and>
     flags_are guest UP_FLAGS \<and> lk_operstate guest = ustr ''UP'' \<and> lk_qdisc guest = ustr ''noqueue'' \<and> addrgen_none guest"

definition host_ok :: "link \<Rightarrow> bool" where
  "host_ok host \<longleftrightarrow> lk_kind host = ustr ''veth'' \<and> lk_mac host = ustr HOST_MAC \<and> lk_peer_ifindex host \<noteq> None \<and>
     lk_qdisc host = ustr ''noqueue'' \<and> addrgen_none host \<and>
     (flags_are host [''BROADCAST'', ''MULTICAST''] \<and> lk_operstate host = ustr ''DOWN'' \<and> \<not> lk_up host \<or>
      flags_are host UP_FLAGS \<and> lk_operstate host = ustr ''UP'' \<and> lk_up host)"

definition links_distinct :: "link list \<Rightarrow> bool" where
  "links_distinct links \<longleftrightarrow> distinct (map lk_ifname links) \<and> distinct (map lk_ifindex links)"

definition namespace_links_ok :: "link list \<Rightarrow> link list result" where
  "namespace_links_ok links =
     nfail (set (map lk_ifname links) = {ustr ''lo'', ustr GUEST_IF}) ''namespace interface inventory''
     (case (link_named (ustr ''lo'') links, link_named (ustr GUEST_IF) links) of
        (Some lo, Some guest) \<Rightarrow> nfail (loopback_ok lo) ''loopback drift'' (nfail (guest_ok guest) ''guest veth drift'' (Inr links))
      | _ \<Rightarrow> Inl PyKeyError)"

definition parse_links :: "(bytes \<Rightarrow> json result) \<Rightarrow> bytes \<Rightarrow> bool \<Rightarrow> pystr \<Rightarrow> link list result" where
  "parse_links load raw namespace host_if =
     rbind (load raw) (\<lambda>v.
     (case v of
        JArr rows \<Rightarrow>
          nfail (\<not> (namespace \<and> rows = [])) ''link list''
          (rbind (map_result (parse_link_row False) rows) (\<lambda>links.
           nfail (links_distinct links) ''duplicate interface''
           (if namespace then namespace_links_ok links
            else nfail (set (map lk_ifname links) \<subseteq> {host_if}) ''host interface inventory''
              (nfail (links = [] \<or> host_ok (hd links)) ''host veth drift'' (Inr links)))))
      | _ \<Rightarrow> Inl (NetworkError ''link list'')))"

definition validate_peer_pair :: "link list \<Rightarrow> link list \<Rightarrow> pystr \<Rightarrow> (link \<times> link) result" where
  "validate_peer_pair host_links namespace_links host_if =
     (case host_links of
        [host] \<Rightarrow>
          (case link_named (ustr GUEST_IF) namespace_links of
             Some guest \<Rightarrow>
               nfail (lk_ifname host = host_if \<and> lk_peer_ifindex host = Some (lk_ifindex guest) \<and> lk_peer_ifindex guest = Some (lk_ifindex host) \<and>
                 lk_mac host = ustr HOST_MAC \<and> lk_mac guest = ustr GUEST_MAC) ''veth peer identity mismatch'' (Inr (host, guest))
           | None \<Rightarrow> Inl (NetworkError ''veth peer identity mismatch''))
      | _ \<Rightarrow> Inl (NetworkError ''complete peer snapshots required''))"

definition is_tap :: "link \<Rightarrow> bool" where
  "is_tap item \<longleftrightarrow> lk_kind item = ustr ''tap''"

definition tap_ok :: "link \<Rightarrow> unit result" where
  "tap_ok tap =
     nfail (lk_peer_ifindex tap = None \<and> lk_up tap) ''runtime TAP identity drift''
     (require (hashable (lk_addrgenmode tap)) (PyTypeError ''unhashable type'')
     (nfail ((lk_qdisc tap = ustr ''noqueue'' \<and> lk_operstate tap = ustr ''UP'' \<or>
              lk_qdisc tap = ustr ''fq_codel'' \<and> lk_operstate tap = ustr ''UNKNOWN'') \<and> addrgen_none tap \<or>
             lk_qdisc tap = ustr ''mq'' \<and> lk_operstate tap = ustr ''UNKNOWN'' \<and> lk_addrgenmode tap = jstr ''eui64'') ''runtime TAP identity drift''
     (nfail (lk_mac tap \<noteq> ustr ''00:00:00:00:00:00'' \<and> flags_are tap UP_FLAGS) ''runtime TAP identity drift'' (Inr ()))))"

definition runtime_lo_ok :: "link \<Rightarrow> bool" where
  "runtime_lo_ok lo \<longleftrightarrow> lk_kind lo = ustr ''loopback'' \<and> flags_are lo [''LOOPBACK'', ''UP'', ''LOWER_UP''] \<and> lk_operstate lo = ustr ''UNKNOWN'' \<and>
     lk_up lo \<and> lk_qdisc lo = ustr ''noqueue''"

definition runtime_guest_ok :: "link \<Rightarrow> bool" where
  "runtime_guest_ok guest \<longleftrightarrow> lk_kind guest = ustr ''veth'' \<and> flags_are guest UP_FLAGS \<and> lk_operstate guest = ustr ''UP'' \<and> lk_up guest \<and>
     lk_qdisc guest = ustr ''noqueue''"

definition parse_runtime_links :: "(bytes \<Rightarrow> json result) \<Rightarrow> bytes \<Rightarrow> link list result" where
  "parse_runtime_links load raw =
     rbind (load raw) (\<lambda>v.
     (case v of
        JArr rows \<Rightarrow>
          rbind (map_result (parse_link_row True) rows) (\<lambda>links.
          nfail (links_distinct links) ''duplicate runtime link identity''
          (let taps = filter is_tap links; retained = filter (\<lambda>item. \<not> is_tap item) links in
           nfail (length taps \<le> 1) ''runtime TAP cardinality''
           (nfail (set (map lk_ifname retained) = {ustr ''lo'', ustr GUEST_IF}) ''runtime namespace link inventory''
           (case (link_named (ustr ''lo'') retained, link_named (ustr GUEST_IF) retained) of
              (Some lo, Some guest) \<Rightarrow>
                nfail (runtime_lo_ok lo) ''runtime loopback drift''
                (nfail (runtime_guest_ok guest) ''runtime veth drift''
                (rbind (map_result tap_ok taps) (\<lambda>_. Inr links)))
            | _ \<Rightarrow> Inl PyKeyError))))
      | _ \<Rightarrow> Inl (NetworkError ''runtime link list'')))"

end
