(* ===== verification/NetworkTraffic.thy ===== *)
theory NetworkTraffic
  imports NetworkSnapshots
begin

text \<open>
  Queueing disciplines and filters, and the exact difference between the network before and after the runtime has joined
  it (\<^verbatim>\<open>remote/completion_kata_network.py\<close>).
\<close>

record tc_qdisc =
  qd_ifindex :: int
  qd_name :: pystr
  qd_kind :: pystr
  qd_handle :: pystr
  qd_parent :: "pystr option"
  qd_root :: bool
  qd_refcnt :: "int option"

record tc_action =
  ta_index :: int
  ta_kind :: pystr
  ta_control :: pystr
  ta_eaction :: pystr
  ta_direction :: pystr
  ta_to_ifindex :: int
  ta_to_name :: pystr
  ta_ref :: int
  ta_bind :: int

record tc_filter_table =
  ft_ifindex :: int
  ft_name :: pystr
  ft_hook :: pystr
  ft_protocol :: pystr
  ft_pref :: int
  ft_kind :: pystr
  ft_chain :: int
  ft_handle :: pystr
  ft_divisor :: int

record tc_filter =
  tf_ifindex :: int
  tf_name :: pystr
  tf_hook :: pystr
  tf_protocol :: pystr
  tf_pref :: int
  tf_kind :: pystr
  tf_chain :: int
  tf_handle :: pystr
  tf_order :: int
  tf_action :: tc_action

datatype filter_row = FilterTable tc_filter_table | FilterRow tc_filter

definition tc_endpoint :: "link \<Rightarrow> link result" where
  "tc_endpoint item =
     nfail (lk_ifname item \<notin> {[], ustr ''lo'', ustr HOST_IF} \<and> lk_kind item \<in> {ustr ''veth'', ustr ''tap''}) ''retained tc endpoint required'' (Inr item)"

section \<open>Queueing disciplines\<close>

definition root_qdisc :: "link \<Rightarrow> pystr \<Rightarrow> int option \<Rightarrow> tc_qdisc" where
  "root_qdisc item kind refcnt =
     \<lparr>qd_ifindex = lk_ifindex item, qd_name = lk_ifname item, qd_kind = kind, qd_handle = ustr ''0:'', qd_parent = None, qd_root = True, qd_refcnt = refcnt\<rparr>"

definition ingress_qdisc :: "link \<Rightarrow> tc_qdisc" where
  "ingress_qdisc item =
     \<lparr>qd_ifindex = lk_ifindex item, qd_name = lk_ifname item, qd_kind = ustr ''ingress'', qd_handle = ustr ''ffff:'', qd_parent = Some (ustr ''ffff:fff1''),
      qd_root = False, qd_refcnt = None\<rparr>"

definition child_qdisc :: "link \<Rightarrow> tc_qdisc" where
  "child_qdisc item =
     \<lparr>qd_ifindex = lk_ifindex item, qd_name = lk_ifname item, qd_kind = ustr ''fq_codel'', qd_handle = ustr ''0:'', qd_parent = Some (ustr '':1''),
      qd_root = False, qd_refcnt = None\<rparr>"

definition obj :: "(string \<times> json) list \<Rightarrow> json" where
  "obj ps = JObj (map (\<lambda>(k, v). (ustr k, v)) ps)"

definition NATIVE_FQ_CODEL_OPTIONS :: json where
  "NATIVE_FQ_CODEL_OPTIONS = obj [(''limit'', JInt 10240), (''flows'', JInt 1024), (''quantum'', JInt 1514), (''target'', JInt 4999),
     (''interval'', JInt 99999), (''memory_limit'', JInt 33554432), (''ecn'', JBool True), (''drop_batch'', JInt 64)]"

definition native_mq :: "link \<Rightarrow> json list \<Rightarrow> tc_qdisc list result" where
  "native_mq endpoint rows =
     nfail (json_same (rows ! 0) (obj [(''kind'', jstr ''mq''), (''handle'', jstr ''0:''), (''root'', JBool True), (''options'', JObj [])]) \<and>
       json_same (rows ! 1) (obj [(''kind'', jstr ''fq_codel''), (''handle'', jstr ''0:''), (''parent'', jstr '':1''), (''options'', NATIVE_FQ_CODEL_OPTIONS)]) \<and>
       json_same (rows ! 2) (obj [(''kind'', jstr ''ingress''), (''handle'', jstr ''ffff:''), (''parent'', jstr ''ffff:fff1''), (''options'', JObj [])]))
       ''native mq qdisc drift''
     (Inr [root_qdisc endpoint (ustr ''mq'') None, child_qdisc endpoint, ingress_qdisc endpoint])"

definition parse_root_qdisc :: "link \<Rightarrow> json \<Rightarrow> tc_qdisc result" where
  "parse_root_qdisc endpoint row =
     nfail (keys_ok row [''kind'', ''handle'', ''root'', ''refcnt'', ''options''] []) ''unexpected JSON shape''
     (rbind (fields_are row [(''kind'', jstr ''noqueue''), (''handle'', jstr ''0:''), (''root'', JBool True), (''options'', JObj [])]) (\<lambda>noqueue.
      rbind (fields_are row [(''kind'', jstr ''fq_codel''), (''handle'', jstr ''0:''), (''root'', JBool True), (''options'', NATIVE_FQ_CODEL_OPTIONS)]) (\<lambda>fq_codel.
      nfail (noqueue \<or> is_tap endpoint \<and> lk_qdisc endpoint = ustr ''fq_codel'' \<and> fq_codel) ''tc root qdisc drift''
      (rbind (jget row ''refcnt'') (\<lambda>refcnt.
       nfail (json_same refcnt (JInt 2)) ''tc root qdisc refcnt drift''
       (Inr (root_qdisc endpoint (ustr (if noqueue then ''noqueue'' else ''fq_codel'')) (Some 2))))))))"

definition parse_ingress_qdisc :: "link \<Rightarrow> json \<Rightarrow> tc_qdisc result" where
  "parse_ingress_qdisc endpoint row =
     nfail (keys_ok row [''kind'', ''handle'', ''parent''] [''options'']) ''native ingress qdisc shape''
     (rbind (fields_are row [(''kind'', jstr ''ingress''), (''handle'', jstr ''ffff:''), (''parent'', jstr ''ffff:fff1'')]) (\<lambda>ok.
      nfail (ok \<and> (case jget row ''options'' of Inr v \<Rightarrow> json_same v (JObj []) | Inl _ \<Rightarrow> True)) ''tc ingress qdisc drift''
      (Inr (ingress_qdisc endpoint))))"

definition parse_tc_qdiscs :: "(bytes \<Rightarrow> json result) \<Rightarrow> bytes \<Rightarrow> link \<Rightarrow> tc_qdisc list result" where
  "parse_tc_qdiscs load raw item =
     rbind (tc_endpoint item) (\<lambda>endpoint. rbind (load raw) (\<lambda>v.
     (case v of
        JArr rows \<Rightarrow>
          nfail (length rows \<in> {1, 2} \<or> is_tap endpoint \<and> lk_qdisc endpoint = ustr ''mq'' \<and> length rows = 3) ''tc qdisc list''
          (if length rows = 3 then native_mq endpoint rows
           else rbind (parse_root_qdisc endpoint (rows ! 0)) (\<lambda>root.
             rbind (map_result (parse_ingress_qdisc endpoint) (tl rows)) (\<lambda>rest. Inr (root # rest))))
      | _ \<Rightarrow> Inl (NetworkError ''tc qdisc list''))))"

section \<open>Filters\<close>

definition shared_keys :: "bool \<Rightarrow> string list" where
  "shared_keys parent = (if parent then [''parent''] else []) @ [''protocol'', ''pref'', ''kind'', ''chain'']"

fun all_parented :: "json list \<Rightarrow> bool result" where
  "all_parented [] = Inr True"
| "all_parented (v # vs) = rbind (dict_get v ''parent'') (\<lambda>p. if json_same p (jstr ''ffff:'') then all_parented vs else Inr False)"

fun headers_ok :: "json list \<Rightarrow> unit result" where
  "headers_ok [] = Inr ()"
| "headers_ok (v # vs) =
     rbind (fields_are v [(''protocol'', jstr ''all''), (''pref'', JInt 49152), (''kind'', jstr ''u32''), (''chain'', JInt 0)]) (\<lambda>ok.
     nfail ok ''tc filter header drift'' (headers_ok vs))"

definition u32_match :: "bool \<Rightarrow> (string \<times> json) list" where
  "u32_match native =
     (if native then
        [(''fh'', jstr ''800::800''), (''order'', JInt 2048), (''key_ht'', jstr ''800''), (''bkt'', jstr ''0''), (''not_in_hw'', JBool True),
         (''match'', obj [(''value'', jstr ''0''), (''mask'', jstr ''0''), (''offmask'', JStr []), (''off'', JInt 0)])]
      else
        [(''fh'', jstr ''800::800''), (''ht'', jstr ''800:''), (''order'', JInt 2048), (''key_ht'', JInt 32768), (''bkt'', jstr ''0''),
         (''terminal'', JBool True), (''not_in_hw'', JBool True),
         (''match'', obj [(''value'', jstr ''00000000''), (''mask'', jstr ''00000000''), (''off'', JInt 0)])])"

definition parse_action :: "bool \<Rightarrow> link \<Rightarrow> json \<Rightarrow> tc_action result" where
  "parse_action native target action =
     nfail (keys_ok action (if native then [''order'', ''kind'', ''mirred_action'', ''direction'', ''to_dev'', ''control_action'', ''index'', ''ref'', ''bind'']
       else [''order'', ''kind'', ''control_action'', ''index'', ''ref'', ''bind'', ''eaction'', ''direction'', ''to_dev'']) []) ''unexpected JSON shape''
     (rbind (jget action ''control_action'') (\<lambda>control_action.
      nfail (keys_ok control_action [''type''] []) ''unexpected JSON shape''
      (let control = (if native then ''stolen'' else ''pipe'') in
       rbind (fields_are action [(''order'', JInt 1), (''kind'', jstr ''mirred'')]) (\<lambda>a.
       rbind (fields_are control_action [(''type'', jstr control)]) (\<lambda>b.
       rbind (fields_are action [(''ref'', JInt 1), (''bind'', JInt 1), (if native then ''mirred_action'' else ''eaction'', jstr ''redirect''),
         (''direction'', jstr ''egress''), (''to_dev'', JStr (lk_ifname target))]) (\<lambda>c.
       nfail (a \<and> b \<and> c) ''tc action binding drift''
       (rbind (rbind (jget action ''index'') uint) (\<lambda>index. rbind (rbind (jget action ''ref'') uint) (\<lambda>ref.
        rbind (rbind (jget action ''bind'') uint) (\<lambda>bind_count.
        Inr \<lparr>ta_index = index, ta_kind = ustr ''mirred'', ta_control = ustr control, ta_eaction = ustr ''redirect'', ta_direction = ustr ''egress'',
             ta_to_ifindex = lk_ifindex target, ta_to_name = lk_ifname target, ta_ref = ref, ta_bind = bind_count\<rparr>))))))))))"

definition filter_table :: "link \<Rightarrow> tc_filter_table" where
  "filter_table source =
     \<lparr>ft_ifindex = lk_ifindex source, ft_name = lk_ifname source, ft_hook = ustr ''ingress'', ft_protocol = ustr ''all'', ft_pref = 49152,
      ft_kind = ustr ''u32'', ft_chain = 0, ft_handle = ustr ''800:'', ft_divisor = 1\<rparr>"

definition filter_entry :: "link \<Rightarrow> tc_action \<Rightarrow> tc_filter" where
  "filter_entry source action =
     \<lparr>tf_ifindex = lk_ifindex source, tf_name = lk_ifname source, tf_hook = ustr ''ingress'', tf_protocol = ustr ''all'', tf_pref = 49152,
      tf_kind = ustr ''u32'', tf_chain = 0, tf_handle = ustr ''800::800'', tf_order = 2048, tf_action = action\<rparr>"

definition parse_filter_rows :: "bool \<Rightarrow> link \<Rightarrow> link \<Rightarrow> json \<Rightarrow> json \<Rightarrow> filter_row list result" where
  "parse_filter_rows native source target table_row row =
     rbind (rbind (jget table_row ''options'') (\<lambda>v. Inr (json_same v (obj [(''fh'', jstr ''800:''), (''ht_divisor'', JInt 1)])))) (\<lambda>ok.
     nfail ok ''tc u32 table drift''
     (rbind (jget row ''options'') (\<lambda>options.
      nfail (keys_ok options (map fst (u32_match native) @ [''actions'']) []) ''unexpected JSON shape''
      (rbind (fields_are options (u32_match native)) (\<lambda>same. rbind (jget options ''actions'') (\<lambda>actions.
       (case actions of
          JArr [action] \<Rightarrow>
            nfail same ''tc u32 match drift''
            (rbind (parse_action native target action) (\<lambda>parsed. Inr [FilterTable (filter_table source), FilterRow (filter_entry source parsed)]))
        | _ \<Rightarrow> Inl (NetworkError ''tc u32 match drift''))))))))"

definition parse_tc_filters :: "(bytes \<Rightarrow> json result) \<Rightarrow> bytes \<Rightarrow> link \<Rightarrow> link \<Rightarrow> filter_row list result" where
  "parse_tc_filters load raw source_item target_item =
     rbind (tc_endpoint source_item) (\<lambda>source. rbind (tc_endpoint target_item) (\<lambda>target.
     nfail (source \<noteq> target) ''tc self redirect''
     (rbind (load raw) (\<lambda>v.
      (case v of
         JArr [header, table_row, row] \<Rightarrow>
           rbind (all_parented [header, table_row, row]) (\<lambda>parent.
           nfail (keys_ok header (shared_keys parent) [] \<and> keys_ok table_row (shared_keys parent @ [''options'']) [] \<and>
             keys_ok row (shared_keys parent @ [''options'']) []) ''unexpected JSON shape''
           (rbind (headers_ok [header, table_row, row]) (\<lambda>_. parse_filter_rows True source target table_row row)))
       | JArr [table_row, row] \<Rightarrow>
           nfail (keys_ok table_row (shared_keys False @ [''options'']) [] \<and> keys_ok row (shared_keys False @ [''options'']) []) ''unexpected JSON shape''
           (rbind (headers_ok [table_row, row]) (\<lambda>_. parse_filter_rows False source target table_row row))
       | _ \<Rightarrow> Inl (NetworkError ''tc filter list''))))))"

section \<open>The difference made by the runtime\<close>

record netns_identity =
  ni_mount_id :: int
  ni_parent_id :: int
  ni_device :: pystr
  ni_root :: pystr
  ni_mount_point :: pystr
  ni_mount_options :: "pystr list"
  ni_optional_fields :: "pystr list"
  ni_fs_type :: pystr
  ni_source :: pystr
  ni_super_options :: "pystr list"
  ni_inode_device :: int
  ni_inode :: int

record runtime_state =
  rs_netns_identity :: netns_identity
  rs_host_links :: "link list"
  rs_namespace_links :: "link list"
  rs_qdiscs :: "tc_qdisc list"
  rs_filters :: "filter_row list"

record tc_binding =
  tb_netns_identity :: netns_identity
  tb_host_veth :: link
  tb_guest_veth :: link
  tb_tap :: link
  tb_qdiscs :: "tc_qdisc list"
  tb_filters :: "filter_row list"

fun tables_of :: "filter_row list \<Rightarrow> tc_filter_table list" where
  "tables_of [] = []"
| "tables_of (FilterTable t # rows) = t # tables_of rows"
| "tables_of (FilterRow f # rows) = tables_of rows"

fun filters_of :: "filter_row list \<Rightarrow> tc_filter list" where
  "filters_of [] = []"
| "filters_of (FilterTable t # rows) = filters_of rows"
| "filters_of (FilterRow f # rows) = f # filters_of rows"

definition host_name_ok :: "pystr \<Rightarrow> bool" where
  "host_name_ok host_if \<longleftrightarrow> host_if = ustr HOST_IF \<or> bound_name ''h'' host_if"

definition expected_qdiscs :: "link \<Rightarrow> link \<Rightarrow> tc_qdisc set" where
  "expected_qdiscs guest tap =
     {root_qdisc guest (ustr ''noqueue'') (Some 2), ingress_qdisc guest,
      root_qdisc tap (lk_qdisc tap) (if lk_qdisc tap = ustr ''mq'' then None else Some 2), ingress_qdisc tap} \<union>
     (if lk_qdisc tap = ustr ''mq'' then {child_qdisc tap} else {})"

definition filters_ok :: "link \<Rightarrow> link \<Rightarrow> filter_row list \<Rightarrow> unit result" where
  "filters_ok guest tap rows =
     nfail (length rows = 4 \<and> length (tables_of rows) = 2 \<and> length (filters_of rows) = 2) ''complete directional filter difference required''
     (nfail ((\<lambda>t. (ft_ifindex t, ft_handle t, ft_divisor t)) ` set (tables_of rows) =
         {(lk_ifindex guest, ustr ''800:'', 1), (lk_ifindex tap, ustr ''800:'', 1)}) ''complete u32 table difference required''
     (nfail ((\<lambda>f. (tf_ifindex f, ta_to_ifindex (tf_action f))) ` set (filters_of rows) =
         {(lk_ifindex guest, lk_ifindex tap), (lk_ifindex tap, lk_ifindex guest)} \<and>
       card ((\<lambda>f. ta_index (tf_action f)) ` set (filters_of rows)) = 2 \<and>
       (\<forall>f\<in>set (filters_of rows). tf_hook f = ustr ''ingress'' \<and> ta_direction (tf_action f) = ustr ''egress''))
       ''exact bidirectional tc binding required'' (Inr ())))"

definition one_tap :: "link list \<Rightarrow> link result" where
  "one_tap links = (case filter is_tap links of
     [tap] \<Rightarrow> Inr tap
   | _ \<Rightarrow> Inl (NetworkError ''exact runtime TAP difference required''))"

definition tc_difference :: "link \<Rightarrow> link \<Rightarrow> runtime_state \<Rightarrow> runtime_state \<Rightarrow> tc_binding result" where
  "tc_difference host guest before_state after_state =
     rbind (one_tap (rs_namespace_links after_state)) (\<lambda>tap.
     nfail (rs_qdiscs before_state = [root_qdisc guest (ustr ''noqueue'') (Some 2)] \<and> rs_filters before_state = []) ''unexpected tc baseline''
     (nfail (set (rs_qdiscs after_state) = expected_qdiscs guest tap \<and>
        length (rs_qdiscs after_state) = card (expected_qdiscs guest tap)) ''complete qdisc difference required''
     (rbind (filters_ok guest tap (rs_filters after_state)) (\<lambda>_.
      Inr \<lparr>tb_netns_identity = rs_netns_identity after_state, tb_host_veth = host, tb_guest_veth = guest, tb_tap = tap,
           tb_qdiscs = rs_qdiscs after_state, tb_filters = rs_filters after_state\<rparr>))))"

definition link_baseline :: "runtime_state \<Rightarrow> runtime_state \<Rightarrow> (link \<times> link) result" where
  "link_baseline before_state after_state =
     (let host_if = lk_ifname (hd (rs_host_links before_state));
          without_tap = filter (\<lambda>item. \<not> is_tap item) (rs_namespace_links after_state) in
      nfail (host_name_ok host_if) ''host veth name''
      (rbind (validate_peer_pair (rs_host_links before_state) (rs_namespace_links before_state) host_if) (\<lambda>pair.
       rbind (validate_peer_pair (rs_host_links after_state) without_tap host_if) (\<lambda>after_pair.
       nfail (pair = after_pair \<and> rs_namespace_links before_state = without_tap \<and>
         length (rs_namespace_links after_state) = length (rs_namespace_links before_state) + 1) ''full namespace link baseline replacement''
       (Inr pair)))))"

definition runtime_difference :: "runtime_state \<Rightarrow> runtime_state \<Rightarrow> tc_binding result" where
  "runtime_difference before_state after_state =
     nfail (rs_netns_identity before_state = rs_netns_identity after_state) ''network namespace identity replacement''
     (nfail (rs_host_links before_state = rs_host_links after_state \<and> length (rs_host_links before_state) = 1) ''host link baseline replacement''
     (rbind (link_baseline before_state after_state) (\<lambda>(host, guest). tc_difference host guest before_state after_state)))"

definition runtime_restored :: "runtime_state \<Rightarrow> runtime_state \<Rightarrow> runtime_state result" where
  "runtime_restored baseline observed =
     nfail (baseline = observed) ''runtime baseline not exactly restored'' (Inr baseline)"

end
