(* ===== verification/NetworkRecovery.thy ===== *)
theory NetworkRecovery
  imports NetworkTraffic
begin

text \<open>
  Which parts of a network a recovery may remove, and the proof that the guest's traffic met the firewall
  (\<^verbatim>\<open>remote/completion_kata_network.py\<close>). SHA-256 and \<^verbatim>\<open>json.dumps\<close> with its ASCII escapes are parameters.
\<close>

section \<open>Firewall snapshots\<close>

record nft_kernel_identity =
  nk_table_handle :: int
  nk_chain_handles :: "(pystr \<times> int) list"
  nk_rule_handles :: "(pystr \<times> int \<times> int) list"

record nft_counter =
  nc_sensor :: pystr
  nc_chain :: pystr
  nc_ordinal :: int
  nc_handle :: int
  nc_packets :: int
  nc_bytes :: int

record nft_snapshot =
  nft_content :: json
  nft_identity :: nft_kernel_identity
  nft_counters :: "nft_counter list"

text \<open>Equality of snapshots leaves the counters out (\<^verbatim>\<open>compare=False\<close>).\<close>

definition nft_same :: "nft_snapshot \<Rightarrow> nft_snapshot \<Rightarrow> bool" where
  "nft_same a b \<longleftrightarrow> json_same (nft_content a) (nft_content b) \<and> nft_identity a = nft_identity b"

section \<open>Recovery\<close>

datatype recovery = SETTLED | ABSENT | PRESERVE | REMOVE

datatype transition_phase = CREATE_INTENT | IDENTITY_DURABLE | PHASE_SETTLED | REMOVE_INTENT

datatype teardown_prerequisite =
    TASK_STOPPED
  | NETWORK_AND_MOUNT_ABSENT
  | TASK_AND_CONTAINER_DELETED
  | PROCESS_SHARE_MOUNTS_ABSENT
  | FIREWALL_ABSENT

definition TEARDOWN_ORDER :: "teardown_prerequisite list" where
  "TEARDOWN_ORDER = [TASK_STOPPED, NETWORK_AND_MOUNT_ABSENT, TASK_AND_CONTAINER_DELETED, PROCESS_SHARE_MOUNTS_ABSENT, FIREWALL_ABSENT]"

text \<open>The constructor of a teardown proof, and its test.\<close>

definition teardown_proof :: "teardown_prerequisite list \<Rightarrow> teardown_prerequisite list result" where
  "teardown_proof completed =
     nfail (completed = take (length completed) TEARDOWN_ORDER \<and> length completed \<le> length TEARDOWN_ORDER)
       ''ordered teardown prerequisite proof required'' (Inr completed)"

definition proof_includes :: "teardown_prerequisite list \<Rightarrow> teardown_prerequisite \<Rightarrow> bool" where
  "proof_includes completed prerequisite \<longleftrightarrow> prerequisite \<in> set completed"

definition recover_netns :: "transition_phase \<Rightarrow> netns_identity \<Rightarrow> netns_identity option \<Rightarrow> teardown_prerequisite list \<Rightarrow> recovery" where
  "recover_netns phase identity observed teardown =
     (if observed \<notin> {None, Some identity} then PRESERVE
      else if phase = CREATE_INTENT then PRESERVE
      else if phase \<in> {IDENTITY_DURABLE, PHASE_SETTLED} then (if observed = Some identity then SETTLED else PRESERVE)
      else if observed = None then ABSENT
      else if proof_includes teardown TASK_STOPPED then REMOVE else PRESERVE)"

definition recover_tc :: "transition_phase \<Rightarrow> tc_binding \<Rightarrow> netns_identity \<Rightarrow> tc_binding option \<Rightarrow> netns_identity option \<Rightarrow>
    teardown_prerequisite list \<Rightarrow> recovery result" where
  "recover_tc phase identity netns observed observed_netns teardown =
     nfail (tb_netns_identity identity = netns) ''typed correlated tc recovery state required''
     (nfail (case observed of None \<Rightarrow> True | Some b \<Rightarrow> Some (tb_netns_identity b) = observed_netns) ''complete correlated tc/netns identity required''
     (Inr
       (if observed_netns \<notin> {None, Some netns} \<or> observed \<notin> {None, Some identity} then PRESERVE
        else if phase = CREATE_INTENT then PRESERVE
        else if phase \<in> {IDENTITY_DURABLE, PHASE_SETTLED} then (if observed = Some identity then SETTLED else PRESERVE)
        else if observed = None then ABSENT
        else if proof_includes teardown TASK_STOPPED then REMOVE else PRESERVE)))"

definition nft_is :: "nft_snapshot option \<Rightarrow> nft_snapshot \<Rightarrow> bool" where
  "nft_is observed identity = (case observed of None \<Rightarrow> False | Some o' \<Rightarrow> nft_same o' identity)"

definition recover_nft :: "transition_phase \<Rightarrow> nft_snapshot \<Rightarrow> nft_snapshot option \<Rightarrow> teardown_prerequisite list \<Rightarrow> recovery" where
  "recover_nft phase identity observed teardown =
     (if observed \<noteq> None \<and> \<not> nft_is observed identity then PRESERVE
      else if phase = CREATE_INTENT then PRESERVE
      else if phase \<in> {IDENTITY_DURABLE, PHASE_SETTLED} then (if nft_is observed identity then SETTLED else PRESERVE)
      else if observed = None then ABSENT
      else if proof_includes teardown PROCESS_SHARE_MOUNTS_ABSENT then REMOVE else PRESERVE)"

section \<open>The causal proof\<close>

definition POSITIVE_SENSORS :: "string list" where
  "POSITIVE_SENSORS = [''ssh-request-allowed'', ''ssh-return-allowed'', ''direct-tcp-denied'', ''direct-udp-denied'', ''route-tcp-denied'', ''route-udp-denied'']"

definition MONOTONIC_SENSORS :: "string list" where "MONOTONIC_SENSORS = [''output-other-drop'']"

definition ZERO_SENSORS :: "string list" where
  "ZERO_SENSORS = [''input-other-drop'', ''forward-guest-other-drop'', ''forward-host-other-drop'']"

definition GUEST_MARKERS :: "string list" where
  "GUEST_MARKERS = [''route-baseline-no-default'', ''direct-tcp-denied'', ''direct-udp-denied'', ''default-route-added'', ''route-tcp-denied'',
     ''route-udp-denied'', ''default-route-removed'', ''route-restored-no-default'']"

record causal_sensor =
  cs_operation_token :: pystr
  cs_stage :: pystr
  cs_nft :: nft_snapshot
  cs_observation_sha256 :: pystr

record causal_proof =
  cp_operation_token :: pystr
  cp_deltas :: "(string \<times> string \<times> int \<times> int) list"
  cp_marker_sha256 :: pystr
  cp_route_sha256 :: pystr
  cp_proof_sha256 :: pystr

definition digest_text :: "pystr \<Rightarrow> bool" where
  "digest_text s \<longleftrightarrow> length s = 64 \<and> set s \<subseteq> set (ustr ''0123456789abcdef'') \<and> s \<noteq> replicate 64 48"

definition sensor_static_sha256 :: "digest_fun \<Rightarrow> (json \<Rightarrow> bytes) \<Rightarrow> nft_snapshot \<Rightarrow> pystr" where
  "sensor_static_sha256 H dumps snapshot = H (dumps (JObj
     [(ustr ''content'', nft_content snapshot),
      (ustr ''identity'', JObj
         [(ustr ''table_handle'', JInt (nk_table_handle (nft_identity snapshot))),
          (ustr ''chain_handles'', JArr (map (\<lambda>(name, handle). JArr [JStr name, JInt handle]) (nk_chain_handles (nft_identity snapshot)))),
          (ustr ''rule_handles'', JArr (map (\<lambda>(chain, ordinal, handle). JArr [JStr chain, JInt ordinal, JInt handle])
             (nk_rule_handles (nft_identity snapshot))))])]))"

definition bind_causal_sensor :: "pystr \<Rightarrow> pystr \<Rightarrow> nft_snapshot \<Rightarrow> pystr \<Rightarrow> causal_sensor result" where
  "bind_causal_sensor token stage snapshot observation_sha256 =
     nfail (digest_text token \<and> stage \<in> {ustr ''before'', ustr ''after''} \<and> length (nft_counters snapshot) = 10 \<and> digest_text observation_sha256)
       ''invalid causal sensor binding''
     (rbind (rbind (jget (nft_content snapshot) ''nftables'') (\<lambda>v. (case v of JArr (row # _) \<Rightarrow> jget row ''table'' | _ \<Rightarrow> Inl PyIndexError))) (\<lambda>table.
      rbind (dict_get table ''name'') (\<lambda>name. rbind (dict_get table ''comment'') (\<lambda>comment.
      let expected = ustr ''c42t'' @ take 10 token in
      nfail (name = JStr expected \<and> comment = JStr (ustr ''owner:'' @ expected)) ''mixed-operation causal sensor''
      (Inr \<lparr>cs_operation_token = token, cs_stage = stage, cs_nft = snapshot, cs_observation_sha256 = observation_sha256\<rparr>)))))"

definition counter_map :: "causal_sensor \<Rightarrow> (pystr \<rightharpoonup> nft_counter) result" where
  "counter_map snapshot =
     (let rows = nft_counters (cs_nft snapshot) in
      nfail (distinct (map nc_sensor rows) \<and> set (map nc_sensor rows) = set (map ustr (POSITIVE_SENSORS @ MONOTONIC_SENSORS @ ZERO_SENSORS)))
        ''causal sensor inventory''
      (Inr (map_of (map (\<lambda>row. (nc_sensor row, row)) rows))))"

definition sensor_delta :: "(pystr \<rightharpoonup> nft_counter) \<Rightarrow> (pystr \<rightharpoonup> nft_counter) \<Rightarrow> string \<Rightarrow> (string \<times> string \<times> int \<times> int) result" where
  "sensor_delta first second name =
     (case (first (ustr name), second (ustr name)) of
        (Some left, Some right) \<Rightarrow>
          let packets = nc_packets right - nc_packets left; octets = nc_bytes right - nc_bytes left in
          nfail (nc_chain left = nc_chain right \<and> nc_ordinal left = nc_ordinal right \<and> nc_handle left = nc_handle right \<and>
            nc_packets left \<le> nc_packets right \<and> nc_bytes left \<le> nc_bytes right) ''causal sensor decrease or replacement''
          (if name \<in> set POSITIVE_SENSORS then
             nfail (0 < packets \<and> 0 < octets) ''required causal sensor did not increase'' (Inr (name, ''positive'', packets, octets))
           else if name \<in> set MONOTONIC_SENSORS then Inr (name, ''denied-sibling'', packets, octets)
           else nfail (packets = 0 \<and> octets = 0) ''unexpected sibling sensor increase'' (Inr (name, ''zero'', packets, octets)))
      | _ \<Rightarrow> Inl PyKeyError)"

definition delta_json :: "string \<times> string \<times> int \<times> int \<Rightarrow> json" where
  "delta_json = (\<lambda>(name, category, packets, octets). JArr [jstr name, jstr category, JInt packets, JInt octets])"

definition prove_causal_values :: "digest_fun \<Rightarrow> (json \<Rightarrow> bytes) \<Rightarrow> causal_sensor \<Rightarrow> causal_sensor \<Rightarrow> string list \<Rightarrow> pystr \<Rightarrow> pystr \<Rightarrow> causal_proof result" where
  "prove_causal_values H dumps first_sensor second_sensor markers route_before route_after =
     nfail (cs_stage first_sensor = ustr ''before'' \<and> cs_stage second_sensor = ustr ''after'' \<and>
       cs_operation_token first_sensor = cs_operation_token second_sensor \<and>
       cs_observation_sha256 first_sensor \<noteq> cs_observation_sha256 second_sensor \<and> nft_same (cs_nft first_sensor) (cs_nft second_sensor) \<and>
       sensor_static_sha256 H dumps (cs_nft first_sensor) = sensor_static_sha256 H dumps (cs_nft second_sensor)) ''causal sensor replacement or order''
     (nfail (markers = GUEST_MARKERS \<and> digest_text route_before \<and> route_before = route_after) ''guest route restoration proof''
     (rbind (counter_map first_sensor) (\<lambda>first. rbind (counter_map second_sensor) (\<lambda>second.
      rbind (map_result (sensor_delta first second) (POSITIVE_SENSORS @ MONOTONIC_SENSORS @ ZERO_SENSORS)) (\<lambda>deltas.
      let marker = H (dumps (JArr (map jstr markers)));
          document = JObj [(ustr ''operation_token'', JStr (cs_operation_token first_sensor)), (ustr ''deltas'', JArr (map delta_json deltas)),
            (ustr ''marker_sha256'', JStr marker), (ustr ''route_sha256'', JStr route_before)] in
      Inr \<lparr>cp_operation_token = cs_operation_token first_sensor, cp_deltas = deltas, cp_marker_sha256 = marker, cp_route_sha256 = route_before,
           cp_proof_sha256 = H (dumps document)\<rparr>)))))"

definition replay_causal_network :: "digest_fun \<Rightarrow> (json \<Rightarrow> bytes) \<Rightarrow> causal_sensor \<Rightarrow> causal_sensor \<Rightarrow> pystr \<Rightarrow> causal_proof result" where
  "replay_causal_network H dumps first_sensor second_sensor route_sha256 =
     prove_causal_values H dumps first_sensor second_sensor GUEST_MARKERS route_sha256 route_sha256"

end
