(* ===== verification/NetworkFirewall.thy ===== *)
theory NetworkFirewall
  imports NetworkRecovery
begin

text \<open>
  The firewall of a cycle as it is read back (\<^verbatim>\<open>remote/completion_kata_network.py\<close>, \<^verbatim>\<open>parse_nft_snapshot\<close>): the pinned rules, the
  normal form of an expression, and the scan that separates the content of the table from the handles and the counters.
  The rules are written with the name of the host's interface as argument, which is what the textual replacement of
  \<^verbatim>\<open>HOST_IF\<close> in their JSON gives for an interface name without characters that JSON escapes. A table handle of 0 stands
  for \<^verbatim>\<open>None\<close>: handles are positive.
\<close>

section \<open>The pinned rules\<close>

definition nft_match :: "json \<Rightarrow> json \<Rightarrow> string \<Rightarrow> json" where
  "nft_match left right op = obj [(''match'', obj [(''op'', jstr op), (''left'', left), (''right'', right)])]"

definition nft_meta :: "string \<Rightarrow> json" where
  "nft_meta key = obj [(''meta'', obj [(''key'', jstr key)])]"

definition nft_payload :: "string \<Rightarrow> string \<Rightarrow> json" where
  "nft_payload protocol field = obj [(''payload'', obj [(''protocol'', jstr protocol), (''field'', jstr field)])]"

definition nft_verdict :: "string \<Rightarrow> json" where
  "nft_verdict name = obj [(name, JNull)]"

definition nft_counter_expr :: json where
  "nft_counter_expr = obj [(''counter'', JNull)]"

definition on_interface :: "string \<Rightarrow> pystr \<Rightarrow> json" where
  "on_interface key host_if = nft_match (nft_meta key) (JStr host_if) ''==''"

definition on_payload :: "string \<Rightarrow> string \<Rightarrow> json \<Rightarrow> json" where
  "on_payload protocol field v = nft_match (nft_payload protocol field) v ''==''"

definition on_state :: "string list \<Rightarrow> json" where
  "on_state states = nft_match (obj [(''ct'', obj [(''key'', jstr ''state'')])]) (obj [(''set'', JArr (map jstr states))]) ''in''"

definition CHAINS :: "string list" where "CHAINS = [''input'', ''output'', ''forward'']"

definition NFT_RULES_LEGACY :: "pystr \<Rightarrow> string \<Rightarrow> json list list" where
  "NFT_RULES_LEGACY host_if chain =
     (if chain = ''input'' then
        [[on_interface ''iifname'' host_if, on_payload ''ip'' ''saddr'' (jstr ''192.0.2.2''), on_payload ''ip'' ''daddr'' (jstr ''192.0.2.1''),
          on_payload ''tcp'' ''sport'' (JInt 22), on_state [''established''], nft_verdict ''accept''],
         [on_interface ''iifname'' host_if, nft_verdict ''drop'']]
      else if chain = ''output'' then
        [[on_interface ''oifname'' host_if, on_payload ''ip'' ''saddr'' (jstr ''192.0.2.1''), on_payload ''ip'' ''daddr'' (jstr ''192.0.2.2''),
          on_payload ''tcp'' ''dport'' (JInt 22), on_state [''established'', ''new''], nft_verdict ''accept''],
         [on_interface ''oifname'' host_if, nft_verdict ''drop'']]
      else if chain = ''forward'' then
        [[on_interface ''iifname'' host_if, nft_verdict ''drop''], [on_interface ''oifname'' host_if, nft_verdict ''drop'']]
      else [])"

definition NFT_RULES :: "pystr \<Rightarrow> string \<Rightarrow> json list list" where
  "NFT_RULES host_if chain =
     (if chain = ''input'' then
        [[on_interface ''iifname'' host_if, on_payload ''ip'' ''saddr'' (jstr ''192.0.2.2''), on_payload ''ip'' ''daddr'' (jstr ''192.0.2.1''),
          on_payload ''tcp'' ''dport'' (JInt 2222), nft_counter_expr, nft_verdict ''drop''],
         [on_interface ''iifname'' host_if, on_payload ''ip'' ''saddr'' (jstr ''192.0.2.2''), on_payload ''ip'' ''daddr'' (jstr ''192.0.2.1''),
          on_payload ''udp'' ''dport'' (JInt 5353), nft_counter_expr, nft_verdict ''drop''],
         [on_interface ''iifname'' host_if, on_payload ''ip'' ''saddr'' (jstr ''192.0.2.2''), on_payload ''ip'' ''daddr'' (jstr ''192.0.2.1''),
          on_payload ''tcp'' ''sport'' (JInt 22), on_state [''established''], nft_counter_expr, nft_verdict ''accept''],
         [on_interface ''iifname'' host_if, nft_counter_expr, nft_verdict ''drop'']]
      else if chain = ''output'' then
        [[on_interface ''oifname'' host_if, on_payload ''ip'' ''saddr'' (jstr ''192.0.2.1''), on_payload ''ip'' ''daddr'' (jstr ''192.0.2.2''),
          on_payload ''tcp'' ''dport'' (JInt 22), on_state [''established'', ''new''], nft_counter_expr, nft_verdict ''accept''],
         [on_interface ''oifname'' host_if, nft_counter_expr, nft_verdict ''drop'']]
      else if chain = ''forward'' then
        [[on_interface ''iifname'' host_if, on_payload ''ip'' ''saddr'' (jstr ''192.0.2.2''), on_payload ''ip'' ''daddr'' (jstr ''198.51.100.1''),
          on_payload ''tcp'' ''dport'' (JInt 443), nft_counter_expr, nft_verdict ''drop''],
         [on_interface ''iifname'' host_if, on_payload ''ip'' ''saddr'' (jstr ''192.0.2.2''), on_payload ''ip'' ''daddr'' (jstr ''198.51.100.1''),
          on_payload ''udp'' ''dport'' (JInt 443), nft_counter_expr, nft_verdict ''drop''],
         [on_interface ''iifname'' host_if, nft_counter_expr, nft_verdict ''drop''],
         [on_interface ''oifname'' host_if, nft_counter_expr, nft_verdict ''drop'']]
      else [])"

definition NFT_SENSOR_NAMES :: "string \<Rightarrow> string list" where
  "NFT_SENSOR_NAMES chain =
     (if chain = ''input'' then [''direct-tcp-denied'', ''direct-udp-denied'', ''ssh-return-allowed'', ''input-other-drop'']
      else if chain = ''output'' then [''ssh-request-allowed'', ''output-other-drop'']
      else if chain = ''forward'' then [''route-tcp-denied'', ''route-udp-denied'', ''forward-guest-other-drop'', ''forward-host-other-drop'']
      else [])"

section \<open>Expressions\<close>

text \<open>The items of a value in a \<^verbatim>\<open>for\<close> loop.\<close>

fun iterate :: "json \<Rightarrow> json list result" where
  "iterate (JArr xs) = Inr xs"
| "iterate (JObj ps) = Inr (map (JStr \<circ> fst) ps)"
| "iterate (JStr s) = Inr (map (\<lambda>c. JStr [c]) s)"
| "iterate _ = Inl (PyTypeError ''not iterable'')"

definition set_member :: "string \<Rightarrow> json \<Rightarrow> json \<Rightarrow> json" where
  "set_member key v container = (case container of
     JObj ps \<Rightarrow> JObj (map (\<lambda>(k, w). if k = ustr key then (k, v) else (k, w)) ps)
   | _ \<Rightarrow> container)"

fun sorted_texts :: "json list \<Rightarrow> pystr list option" where
  "sorted_texts [] = Some []"
| "sorted_texts (v # vs) = (case (json_text v, sorted_texts vs) of
     (Some s, Some ss) \<Rightarrow> Some (insort s ss)
   | _ \<Rightarrow> None)"

text \<open>The set of states as the loop leaves it in \<^verbatim>\<open>match["right"]\<close>.\<close>

definition state_set :: "json \<Rightarrow> json result" where
  "state_set right =
     (let checked = (\<lambda>states. (case states of
            JArr (v # vs) \<Rightarrow> (case sorted_texts (v # vs) of
               Some ss \<Rightarrow> Inr (JObj [(ustr ''set'', JArr (map JStr ss))])
             | None \<Rightarrow> Inl (NetworkError ''nft set expression''))
          | _ \<Rightarrow> Inl (NetworkError ''nft set expression'')));
          shaped = nfail (keys_ok right [''set''] []) ''nft state-set shape'' (rbind (jget right ''set'') checked) in
      if right = jstr ''established'' then checked (JArr [right])
      else (case right of
        JArr [a, b] \<Rightarrow>
          require (hashable a \<and> hashable b) (PyTypeError ''unhashable type'')
          (if {a, b} = {jstr ''established'', jstr ''new''} then checked right else shaped)
      | _ \<Rightarrow> shaped))"

definition normalize_expression :: "json \<Rightarrow> json result" where
  "normalize_expression expression = (case expression of
     JObj ps \<Rightarrow>
       let matched = nullable (map_of ps (ustr ''match'')) in
       if \<not> truthy matched then Inr expression
       else rbind (dict_get matched ''left'') (\<lambda>left.
         if json_same left (obj [(''ct'', obj [(''key'', jstr ''state'')])]) then
           rbind (dict_get matched ''right'') (\<lambda>right. rbind (state_set right) (\<lambda>states.
           Inr (set_member ''match'' (set_member ''right'' states matched) expression)))
         else Inr expression)
   | _ \<Rightarrow> Inr expression)"

definition normalize_nft_expr :: "json \<Rightarrow> json list result" where
  "normalize_nft_expr expressions = rbind (iterate expressions) (map_result normalize_expression)"

definition counter_uint :: "json \<Rightarrow> int result" where
  "counter_uint v = (case v of
     JInt i \<Rightarrow> nfail (0 \<le> i \<and> i \<le> 2 ^ 64 - 1) ''invalid nft counter metric'' (Inr i)
   | _ \<Rightarrow> Inl (NetworkError ''invalid nft counter metric''))"

definition has_counter :: "json \<Rightarrow> bool" where
  "has_counter v = (case v of JObj ps \<Rightarrow> ustr ''counter'' \<in> set (map fst ps) | _ \<Rightarrow> False)"

definition take_counter :: "json list \<Rightarrow> (json list \<times> int \<times> int) result" where
  "take_counter expressions = (case filter has_counter expressions of
     [expression] \<Rightarrow>
       rbind (jget expression ''counter'') (\<lambda>metric.
       nfail (keys_ok metric [''packets'', ''bytes''] []) ''unexpected JSON shape''
       (rbind (rbind (jget metric ''packets'') counter_uint) (\<lambda>packets. rbind (rbind (jget metric ''bytes'') counter_uint) (\<lambda>byte_count.
        Inr (map (\<lambda>e. if has_counter e then nft_counter_expr else e) expressions, packets, byte_count)))))
   | _ \<Rightarrow> Inl (NetworkError ''exactly one nft counter required''))"

section \<open>The scan\<close>

record nft_scan =
  sc_table_handle :: int
  sc_chain_handles :: "(pystr \<times> int) list"
  sc_rule_handles :: "(pystr \<times> int \<times> int) list"
  sc_counters :: "nft_counter list"
  sc_normalized :: "json list"

type_synonym rules = "string \<Rightarrow> json list list"

definition chain_order :: "rules \<Rightarrow> string list" where
  "chain_order rules = concat (map (\<lambda>chain. map (\<lambda>_. chain) (rules chain)) CHAINS)"

definition row_order :: "rules \<Rightarrow> string list" where
  "row_order rules = [''table'', ''chain'', ''chain'', ''chain''] @ map (\<lambda>_. ''rule'') (chain_order rules)"

definition rule_ordinal :: "nft_scan \<Rightarrow> string \<Rightarrow> nat" where
  "rule_ordinal st chain = length (filter (\<lambda>(c, _). c = ustr chain) (sc_rule_handles st))"

definition table_content :: "pystr \<Rightarrow> json" where
  "table_content table_name = obj ([(''family'', jstr ''inet''), (''name'', JStr table_name)] @
     (if bound_name ''t'' table_name then [(''comment'', JStr (ustr ''owner:'' @ table_name))] else []))"

definition scan_table :: "pystr \<Rightarrow> int \<Rightarrow> json \<Rightarrow> nft_scan \<Rightarrow> nft_scan result" where
  "scan_table table_name handle content st =
     nfail (json_same content (table_content table_name)) ''nft table drift''
     (Inr (st\<lparr>sc_table_handle := handle, sc_normalized := sc_normalized st @ [obj [(''table'', content)]]\<rparr>))"

definition chain_content :: "pystr \<Rightarrow> pystr \<Rightarrow> json" where
  "chain_content table_name chain = obj [(''family'', jstr ''inet''), (''table'', JStr table_name), (''name'', JStr chain), (''type'', jstr ''filter''),
     (''hook'', JStr chain), (''prio'', JInt 0), (''policy'', jstr ''accept'')]"

definition scan_chain :: "pystr \<Rightarrow> int \<Rightarrow> json \<Rightarrow> nft_scan \<Rightarrow> nft_scan result" where
  "scan_chain table_name handle content st =
     nfail (keys_ok content [''family'', ''table'', ''name'', ''type'', ''hook'', ''prio'', ''policy''] []) ''unexpected JSON shape''
     (rbind (jget content ''name'') (\<lambda>name.
      require (hashable name) (PyTypeError ''unhashable type'')
      (case json_text name of
         Some active_chain \<Rightarrow>
           nfail (active_chain \<in> set (map ustr CHAINS) \<and> json_same content (chain_content table_name active_chain) \<and>
             active_chain \<notin> set (map fst (sc_chain_handles st))) ''nft chain drift''
           (Inr (st\<lparr>sc_chain_handles := sc_chain_handles st @ [(active_chain, handle)], sc_normalized := sc_normalized st @ [obj [(''chain'', content)]]\<rparr>))
       | None \<Rightarrow> Inl (NetworkError ''nft chain drift''))))"

definition counted :: "string \<Rightarrow> nat \<Rightarrow> int \<Rightarrow> int \<Rightarrow> int \<Rightarrow> nft_counter" where
  "counted chain ordinal handle packets byte_count =
     \<lparr>nc_sensor = ustr (NFT_SENSOR_NAMES chain ! ordinal), nc_chain = ustr chain, nc_ordinal = int ordinal, nc_handle = handle, nc_packets = packets,
      nc_bytes = byte_count\<rparr>"

text \<open>The expressions of a rule with the metrics taken out, and its counter.\<close>

definition rule_counter :: "bool \<Rightarrow> string \<Rightarrow> nat \<Rightarrow> int \<Rightarrow> json list \<Rightarrow> (json list \<times> nft_counter list) result" where
  "rule_counter causal chain ordinal handle expressions =
     (if causal then
        rbind (take_counter expressions) (\<lambda>(remaining, packets, byte_count). Inr (remaining, [counted chain ordinal handle packets byte_count]))
      else Inr (expressions, []))"

definition scan_rule :: "bool \<Rightarrow> rules \<Rightarrow> pystr \<Rightarrow> int \<Rightarrow> json \<Rightarrow> nft_scan \<Rightarrow> nft_scan result" where
  "scan_rule causal rules table_name handle content st =
     nfail (keys_ok content [''family'', ''table'', ''chain'', ''expr''] []) ''unexpected JSON shape''
     (rbind (jget content ''chain'') (\<lambda>named.
      require (length (sc_rule_handles st) < length (chain_order rules)) PyIndexError
      (let chain = chain_order rules ! length (sc_rule_handles st); ordinal = rule_ordinal st chain in
       rbind (fields_are content [(''family'', jstr ''inet''), (''table'', JStr table_name)]) (\<lambda>owned.
       nfail (named = jstr chain \<and> ustr chain \<in> set (map fst (sc_chain_handles st)) \<and> owned) ''nft rule ownership drift''
       (nfail (ordinal < length (rules chain)) ''nft normalized content drift''
       (rbind (rbind (jget content ''expr'') normalize_nft_expr) (\<lambda>expressions.
        rbind (rule_counter causal chain ordinal handle expressions) (\<lambda>(expr, counters).
        nfail (json_same (JArr expr) (JArr (rules chain ! ordinal))) ''nft normalized content drift''
        (Inr (st\<lparr>sc_rule_handles := sc_rule_handles st @ [(ustr chain, int ordinal, handle)], sc_counters := sc_counters st @ counters,
              sc_normalized := sc_normalized st @ [obj [(''rule'', set_member ''expr'' (JArr expr) content)]]\<rparr>))))))))))"

definition scan_row :: "bool \<Rightarrow> rules \<Rightarrow> pystr \<Rightarrow> string \<Rightarrow> json \<Rightarrow> nft_scan \<Rightarrow> nft_scan result" where
  "scan_row causal rules table_name kind row st = (case row of
     JObj [(k, body)] \<Rightarrow>
       nfail (k = ustr kind) ''nft output ordering drift''
       (case body of
          JObj members \<Rightarrow>
            rbind (rbind (dict_get body ''handle'') uint) (\<lambda>handle.
            let content = JObj (filter (\<lambda>(k, _). k \<noteq> ustr ''handle'') members) in
            if kind = ''table'' then scan_table table_name handle content st
            else if kind = ''chain'' then scan_chain table_name handle content st
            else scan_rule causal rules table_name handle content st)
        | _ \<Rightarrow> Inl (NetworkError ''nft body''))
   | _ \<Rightarrow> Inl (NetworkError ''nft output ordering drift''))"

fun scan_rows :: "bool \<Rightarrow> rules \<Rightarrow> pystr \<Rightarrow> (string \<times> json) list \<Rightarrow> nft_scan \<Rightarrow> nft_scan result" where
  "scan_rows causal rules table_name [] st = Inr st"
| "scan_rows causal rules table_name ((kind, row) # rest) st =
     rbind (scan_row causal rules table_name kind row st) (scan_rows causal rules table_name rest)"

definition inventory_ok :: "bool \<Rightarrow> rules \<Rightarrow> nft_scan \<Rightarrow> bool" where
  "inventory_ok causal rules st \<longleftrightarrow>
     (let chains = set (map snd (sc_chain_handles st)); ruled = set (map (snd \<circ> snd) (sc_rule_handles st)) in
      map fst (sc_chain_handles st) = map ustr CHAINS \<and> list_all (\<lambda>chain. rule_ordinal st chain = length (rules chain)) CHAINS \<and>
      card chains = 3 \<and> card ruled = length (chain_order rules) \<and> card (chains \<union> ruled) = 3 + length (chain_order rules) \<and>
      (causal \<longrightarrow> map nc_sensor (sc_counters st) = map ustr (concat (map NFT_SENSOR_NAMES CHAINS))))"

definition parse_nft_snapshot :: "(bytes \<Rightarrow> json result) \<Rightarrow> bytes \<Rightarrow> pystr \<Rightarrow> pystr \<Rightarrow> bool \<Rightarrow> nft_snapshot result" where
  "parse_nft_snapshot load raw table_name host_if causal =
     (let rules = (if causal then NFT_RULES host_if else NFT_RULES_LEGACY host_if) in
      rbind (load raw) (\<lambda>v.
      nfail (keys_ok v [''nftables''] []) ''unexpected JSON shape''
      (rbind (jget v ''nftables'') (\<lambda>rows. (case rows of
         JArr (meta # rest) \<Rightarrow>
           nfail (length rest = length (row_order rules)) ''nft list''
           (nfail (keys_ok meta [''metainfo''] []) ''unexpected JSON shape''
           (rbind (jget meta ''metainfo'') (\<lambda>info.
            nfail (keys_ok info [''json_schema_version''] [''release_name'', ''version'']) ''unexpected JSON shape''
            (rbind (fields_are info [(''json_schema_version'', JInt 1)]) (\<lambda>version.
             nfail version ''nft metainfo drift''
             (rbind (scan_rows causal rules table_name (zip (row_order rules) rest)
                \<lparr>sc_table_handle = 0, sc_chain_handles = [], sc_rule_handles = [], sc_counters = [], sc_normalized = []\<rparr>) (\<lambda>st.
              nfail (inventory_ok causal rules st) ''nft inventory identity drift''
              (Inr \<lparr>nft_content = obj [(''nftables'', JArr (sc_normalized st))],
                    nft_identity = \<lparr>nk_table_handle = sc_table_handle st, nk_chain_handles = sc_chain_handles st, nk_rule_handles = sc_rule_handles st\<rparr>,
                    nft_counters = sc_counters st\<rparr>))))))))
       | _ \<Rightarrow> Inl (NetworkError ''nft list''))))))"

end
