(* ===== verification/TrafficSafety.thy ===== *)
theory TrafficSafety
  imports NetworkRecovery "HOL-Library.Multiset"
begin

text \<open>
  What is known of a network whose observations were accepted: its links, the difference that the runtime made and its
  restoration, what a recovery may remove, and what a causal proof says about the counters.
\<close>

lemma nfail_Inr [simp]: "nfail c m k = Inr x \<longleftrightarrow> c \<and> k = Inr x"
  by (simp add: nfail_def)

section \<open>Recovery\<close>

text \<open>
  The contract of a recovery decision: \<open>matches\<close> says that what is observed is what was recorded. A recovery removes only
  what was intended to be removed, is what was recorded, and whose prerequisite is met, and it leaves alone whatever differs.
\<close>

locale recovery_contract =
  fixes decide :: "transition_phase \<Rightarrow> 'i \<Rightarrow> 'i option \<Rightarrow> teardown_prerequisite list \<Rightarrow> recovery"
    and matches :: "'i \<Rightarrow> 'i \<Rightarrow> bool"
    and needed :: teardown_prerequisite
  assumes foreign: "observed = Some found \<Longrightarrow> \<not> matches found recorded \<Longrightarrow> decide phase recorded observed teardown = PRESERVE"
    and unsettled: "decide CREATE_INTENT recorded observed teardown = PRESERVE"
    and durable: "phase \<in> {IDENTITY_DURABLE, PHASE_SETTLED} \<Longrightarrow> matches found recorded \<Longrightarrow> decide phase recorded (Some found) teardown = SETTLED"
    and vanished: "phase \<in> {IDENTITY_DURABLE, PHASE_SETTLED} \<Longrightarrow> decide phase recorded None teardown = PRESERVE"
    and gone: "decide REMOVE_INTENT recorded None teardown = ABSENT"
    and owned: "matches found recorded \<Longrightarrow>
      decide REMOVE_INTENT recorded (Some found) teardown = (if proof_includes teardown needed then REMOVE else PRESERVE)"
begin

lemma removes_iff:
  "decide phase recorded observed teardown = REMOVE \<longleftrightarrow>
     phase = REMOVE_INTENT \<and> (\<exists>found. observed = Some found \<and> matches found recorded) \<and> proof_includes teardown needed"
  using foreign [of observed _ recorded phase teardown] unsettled [of recorded observed teardown] durable [of phase _ recorded teardown]
    vanished [of phase recorded teardown] gone [of recorded teardown] owned [of _ recorded teardown]
  by (cases phase; cases observed; cases "matches (the observed) recorded") auto

lemma absent_iff: "decide phase recorded observed teardown = ABSENT \<longleftrightarrow> phase = REMOVE_INTENT \<and> observed = None"
  using foreign [of observed _ recorded phase teardown] unsettled [of recorded observed teardown] durable [of phase _ recorded teardown]
    vanished [of phase recorded teardown] gone [of recorded teardown] owned [of _ recorded teardown]
  by (cases phase; cases observed; cases "matches (the observed) recorded") auto

lemma monotone: "set before_teardown \<subseteq> set teardown \<Longrightarrow> decide phase recorded observed before_teardown = REMOVE \<Longrightarrow>
    decide phase recorded observed teardown = REMOVE"
  by (auto simp: removes_iff proof_includes_def)

end

interpretation netns: recovery_contract recover_netns "(=)" TASK_STOPPED
  by unfold_locales (auto simp: recover_netns_def)

interpretation nft: recovery_contract recover_nft nft_same PROCESS_SHARE_MOUNTS_ABSENT
  by unfold_locales (auto simp: recover_nft_def nft_is_def)

text \<open>The decision on traffic control with the namespace fixed to the recorded one.\<close>

definition decide_tc :: "transition_phase \<Rightarrow> tc_binding \<Rightarrow> tc_binding option \<Rightarrow> teardown_prerequisite list \<Rightarrow> recovery" where
  "decide_tc phase identity observed teardown =
     (case recover_tc phase identity (tb_netns_identity identity) observed (map_option tb_netns_identity observed) teardown of
        Inr decision \<Rightarrow> decision
      | Inl _ \<Rightarrow> PRESERVE)"

interpretation tc: recovery_contract decide_tc "(=)" TASK_STOPPED
  by unfold_locales (auto simp: decide_tc_def recover_tc_def nfail_def)

lemma recover_tc_decides:
  assumes "recover_tc phase identity netns observed observed_netns teardown = Inr decision" "decision \<noteq> PRESERVE"
  shows "decide_tc phase identity observed teardown = decision"
  using assms by (auto simp: decide_tc_def recover_tc_def nfail_def split: option.splits if_split_asm)

lemma teardown_prefix: "teardown_proof completed = Inr t \<Longrightarrow> t = completed \<and> (\<exists>k. completed = take k TEARDOWN_ORDER)"
  by (auto simp: teardown_proof_def)

lemma prefix_members:
  assumes "completed = take (length completed) TEARDOWN_ORDER" "length completed \<le> length TEARDOWN_ORDER"
  shows "TASK_STOPPED \<in> set completed \<longleftrightarrow> completed \<noteq> []" "PROCESS_SHARE_MOUNTS_ABSENT \<in> set completed \<longleftrightarrow> 4 \<le> length completed"
proof -
  have "length completed \<le> 5" using assms(2) by (simp add: TEARDOWN_ORDER_def)
  then have "length completed \<in> {0, 1, 2, 3, 4, 5}" unfolding insert_iff by linarith
  then show "TASK_STOPPED \<in> set completed \<longleftrightarrow> completed \<noteq> []" "PROCESS_SHARE_MOUNTS_ABSENT \<in> set completed \<longleftrightarrow> 4 \<le> length completed"
    by (elim insertE emptyE; subst assms(1); simp add: TEARDOWN_ORDER_def)+
qed

text \<open>C37. A recovery decides to remove a namespace, a traffic-control binding or a firewall table exactly when its removal was intended, what is
  observed is what was recorded (the table up to its counters), and the teardown has come far enough: one step for the first two,
  four for the firewall.\<close>

theorem recovery_removes_only_owned:
  assumes "teardown_proof completed = Inr teardown"
  shows "(recover_netns phase netns seen teardown = REMOVE \<longleftrightarrow> phase = REMOVE_INTENT \<and> seen = Some netns \<and> teardown \<noteq> []) \<and>
    (recover_nft phase nft nft_seen teardown = REMOVE \<longleftrightarrow>
       phase = REMOVE_INTENT \<and> (\<exists>found. nft_seen = Some found \<and> nft_same found nft) \<and> 4 \<le> length teardown) \<and>
    (recover_tc phase tc netns tc_seen seen teardown = Inr REMOVE \<longrightarrow>
       phase = REMOVE_INTENT \<and> tc_seen = Some tc \<and> seen = Some netns \<and> tb_netns_identity tc = netns \<and> teardown \<noteq> [])"
proof -
  have t: "teardown = take (length teardown) TEARDOWN_ORDER" "length teardown \<le> length TEARDOWN_ORDER"
    using assms by (auto simp: teardown_proof_def)
  note members = prefix_members [OF t, folded proof_includes_def]
  have "recover_netns phase netns seen teardown = REMOVE \<longleftrightarrow> phase = REMOVE_INTENT \<and> seen = Some netns \<and> teardown \<noteq> []"
    by (auto simp: netns.removes_iff members)
  moreover have "recover_nft phase nft nft_seen teardown = REMOVE \<longleftrightarrow>
       phase = REMOVE_INTENT \<and> (\<exists>found. nft_seen = Some found \<and> nft_same found nft) \<and> 4 \<le> length teardown"
    by (auto simp: nft.removes_iff members)
  moreover have "phase = REMOVE_INTENT \<and> tc_seen = Some tc \<and> seen = Some netns \<and> tb_netns_identity tc = netns \<and> teardown \<noteq> []"
    if r: "recover_tc phase tc netns tc_seen seen teardown = Inr REMOVE"
  proof -
    have "decide_tc phase tc tc_seen teardown = REMOVE" using recover_tc_decides [OF r] by simp
    then have "phase = REMOVE_INTENT" "tc_seen = Some tc" "teardown \<noteq> []" by (auto simp: tc.removes_iff members)
    with r show ?thesis by (auto simp: recover_tc_def)
  qed
  ultimately show ?thesis by blast
qed

definition sample_netns_identity :: netns_identity where
  "sample_netns_identity = \<lparr>ni_mount_id = 1, ni_parent_id = 1, ni_device = ustr ''0:4'', ni_root = ustr ''net:[9]'', ni_mount_point = ustr ''/run/netns/n'',
     ni_mount_options = [ustr ''rw''], ni_optional_fields = [], ni_fs_type = ustr ''nsfs'', ni_source = ustr ''nsfs'', ni_super_options = [ustr ''rw''],
     ni_inode_device = 4, ni_inode = 9\<rparr>"

theorem recovery_removes_only_owned_witness:
  "recover_netns REMOVE_INTENT sample_netns_identity (Some sample_netns_identity) [TASK_STOPPED] = REMOVE"
proof -
  have "teardown_proof [TASK_STOPPED] = Inr [TASK_STOPPED]" by (simp add: teardown_proof_def TEARDOWN_ORDER_def)
  then show ?thesis using recovery_removes_only_owned by blast
qed

section \<open>The difference made by the runtime\<close>

definition redirects :: "tc_filter \<Rightarrow> link \<Rightarrow> link \<Rightarrow> bool" where
  "redirects f source target \<longleftrightarrow> tf_ifindex f = lk_ifindex source \<and> tf_hook f = ustr ''ingress'' \<and>
     ta_to_ifindex (tf_action f) = lk_ifindex target \<and> ta_direction (tf_action f) = ustr ''egress''"

lemma filters_ok_redirects:
  assumes "filters_ok guest tap rows = Inr u"
  shows "\<exists>f g. filters_of rows = [f, g] \<and> (redirects f guest tap \<and> redirects g tap guest \<or> redirects f tap guest \<and> redirects g guest tap)"
proof -
  have l: "length (filters_of rows) = 2"
    and d: "(\<lambda>f. (tf_ifindex f, ta_to_ifindex (tf_action f))) ` set (filters_of rows) = {(lk_ifindex guest, lk_ifindex tap), (lk_ifindex tap, lk_ifindex guest)}"
    and h: "\<forall>f\<in>set (filters_of rows). tf_hook f = ustr ''ingress'' \<and> ta_direction (tf_action f) = ustr ''egress''"
    using assms by (auto simp: filters_ok_def)
  obtain f g where fg: "filters_of rows = [f, g]" using l by (auto simp: numeral_2_eq_2 length_Suc_conv)
  with d h show ?thesis by (auto simp: redirects_def doubleton_eq_iff)
qed

lemma peer_pair_Inr:
  "validate_peer_pair hs ns host_if = Inr (h, g) \<Longrightarrow> hs = [h] \<and> g \<in> set ns \<and> lk_ifname g = ustr GUEST_IF \<and> lk_ifname h = host_if \<and>
     lk_peer_ifindex h = Some (lk_ifindex g) \<and> lk_peer_ifindex g = Some (lk_ifindex h)"
  by (auto simp: validate_peer_pair_def link_named_def find_Some_iff split: list.split_asm option.split_asm intro: nth_mem)
    (metis length_rev nth_mem set_rev)+

lemma filter_partition_mset: "mset xs = mset (filter P xs) + mset (filter (\<lambda>x. \<not> P x) xs)"
  by (simp add: multiset_partition [symmetric])

lemma one_tap_Inr: "one_tap links = Inr tap \<longleftrightarrow> filter is_tap links = [tap]"
  by (auto simp: one_tap_def split: list.splits)

lemma link_baseline_Inr:
  "link_baseline b a = Inr pair \<Longrightarrow>
     validate_peer_pair (rs_host_links b) (rs_namespace_links b) (lk_ifname (hd (rs_host_links b))) = Inr pair \<and>
     filter (\<lambda>item. \<not> is_tap item) (rs_namespace_links a) = rs_namespace_links b"
  by (auto simp: link_baseline_def Let_def)

lemma tc_difference_Inr:
  assumes "tc_difference host guest b a = Inr d"
  shows "tb_host_veth d = host" "tb_guest_veth d = guest" "filter is_tap (rs_namespace_links a) = [tb_tap d]" "rs_filters b = []"
    "set (rs_qdiscs a) = expected_qdiscs guest (tb_tap d)" "length (rs_qdiscs a) = card (expected_qdiscs guest (tb_tap d))"
    "filters_ok guest (tb_tap d) (rs_filters a) = Inr ()"
proof -
  obtain tap where t: "filter is_tap (rs_namespace_links a) = [tap]" "rs_filters b = []" "set (rs_qdiscs a) = expected_qdiscs guest tap"
      "length (rs_qdiscs a) = card (expected_qdiscs guest tap)" "filters_ok guest tap (rs_filters a) = Inr ()"
    and d: "d = \<lparr>tb_netns_identity = rs_netns_identity a, tb_host_veth = host, tb_guest_veth = guest, tb_tap = tap, tb_qdiscs = rs_qdiscs a,
      tb_filters = rs_filters a\<rparr>"
    using assms unfolding tc_difference_def rbind_Inr one_tap_Inr nfail_Inr sum.inject by (metis (full_types) unit.exhaust)
  have "tb_tap d = tap" "tb_host_veth d = host" "tb_guest_veth d = guest" unfolding d tc_binding.select_convs by (rule refl)+
  with t show "tb_host_veth d = host" "tb_guest_veth d = guest" "filter is_tap (rs_namespace_links a) = [tb_tap d]" "rs_filters b = []"
    "set (rs_qdiscs a) = expected_qdiscs guest (tb_tap d)" "length (rs_qdiscs a) = card (expected_qdiscs guest (tb_tap d))"
    "filters_ok guest (tb_tap d) (rs_filters a) = Inr ()" by (simp_all only:)
qed

lemma difference_Inr:
  assumes "runtime_difference b a = Inr d"
  shows "rs_netns_identity a = rs_netns_identity b" "rs_host_links a = rs_host_links b"
    "link_baseline b a = Inr (tb_host_veth d, tb_guest_veth d)" "tc_difference (tb_host_veth d) (tb_guest_veth d) b a = Inr d"
proof -
  obtain host guest where p: "link_baseline b a = Inr (host, guest)" "tc_difference host guest b a = Inr d"
    and q: "rs_netns_identity a = rs_netns_identity b" "rs_host_links a = rs_host_links b"
    using assms unfolding runtime_difference_def rbind_Inr nfail_Inr by auto
  note veth = tc_difference_Inr(1,2) [OF p(2)]
  show "rs_netns_identity a = rs_netns_identity b" "rs_host_links a = rs_host_links b" by (fact q)+
  show "link_baseline b a = Inr (tb_host_veth d, tb_guest_veth d)" "tc_difference (tb_host_veth d) (tb_guest_veth d) b a = Inr d"
    using p by (simp_all only: veth)
qed

text \<open>C36. When the difference made by the runtime is accepted, the namespace and the host link are the ones before, the namespace has gained exactly one
  TAP link, the veth ends name each other, every expected queueing discipline is there once and nothing else, and exactly two
  filters redirect what arrives at the guest's end to the TAP and back. A later restoration has no TAP and no filter left.\<close>

theorem runtime_adds_one_tap:
  assumes "runtime_difference b a = Inr d"
  shows "rs_netns_identity a = rs_netns_identity b \<and> rs_host_links a = [tb_host_veth d] \<and>
    mset (rs_namespace_links a) = add_mset (tb_tap d) (mset (rs_namespace_links b)) \<and> is_tap (tb_tap d) \<and>
    (\<forall>item\<in>set (rs_namespace_links b). \<not> is_tap item) \<and> tb_guest_veth d \<in> set (rs_namespace_links b) \<and>
    lk_peer_ifindex (tb_host_veth d) = Some (lk_ifindex (tb_guest_veth d)) \<and> lk_peer_ifindex (tb_guest_veth d) = Some (lk_ifindex (tb_host_veth d)) \<and>
    distinct (rs_qdiscs a) \<and> set (rs_qdiscs a) = expected_qdiscs (tb_guest_veth d) (tb_tap d) \<and>
    (\<exists>f g. mset (filters_of (rs_filters a)) = {#f, g#} \<and> redirects f (tb_guest_veth d) (tb_tap d) \<and> redirects g (tb_tap d) (tb_guest_veth d)) \<and>
    (\<forall>final x. runtime_restored b final = Inr x \<longrightarrow> rs_filters final = [] \<and> (\<forall>item\<in>set (rs_namespace_links final). \<not> is_tap item))"
proof -
  note d = difference_Inr [OF assms]
  note links = link_baseline_Inr [OF d(3)] and tc = tc_difference_Inr [OF d(4)]
  note pair = peer_pair_Inr [OF conjunct1 [OF links]]
  have no_tap: "\<forall>item\<in>set (rs_namespace_links b). \<not> is_tap item" by (subst conjunct2 [OF links, symmetric]) simp
  have "is_tap (tb_tap d)" using tc(3) by (metis filter_eq_ConsD)
  moreover have "mset (rs_namespace_links a) = add_mset (tb_tap d) (mset (rs_namespace_links b))"
    using filter_partition_mset [of "rs_namespace_links a" is_tap] unfolding tc(3) conjunct2 [OF links] by simp
  moreover have "distinct (rs_qdiscs a)" using tc(5,6) card_distinct by metis
  moreover have "\<exists>f g. mset (filters_of (rs_filters a)) = {#f, g#} \<and> redirects f (tb_guest_veth d) (tb_tap d) \<and> redirects g (tb_tap d) (tb_guest_veth d)"
    using filters_ok_redirects [OF tc(7)] by (metis add_mset_commute mset.simps)
  ultimately show ?thesis using d(1,2) tc(4,5) pair no_tap by (simp add: runtime_restored_def)
qed

definition sample_link :: "int \<Rightarrow> string \<Rightarrow> string \<Rightarrow> string \<Rightarrow> int option \<Rightarrow> string list \<Rightarrow> link" where
  "sample_link index name kind mac peer flags =
     \<lparr>lk_ifindex = index, lk_ifname = ustr name, lk_kind = ustr kind, lk_mac = ustr mac, lk_peer_ifindex = peer, lk_flags = map jstr flags,
      lk_operstate = ustr (if kind = ''loopback'' then ''UNKNOWN'' else ''UP''), lk_up = True, lk_qdisc = ustr ''noqueue'', lk_addrgenmode = jstr ''none''\<rparr>"

definition sample_lo :: link where
  "sample_lo = sample_link 1 ''lo'' ''loopback'' ''00:00:00:00:00:00'' None [''LOOPBACK'', ''UP'', ''LOWER_UP'']"

definition sample_host :: link where "sample_host = sample_link 7 HOST_IF ''veth'' HOST_MAC (Some 2) UP_FLAGS"

definition sample_guest :: link where "sample_guest = sample_link 2 GUEST_IF ''veth'' GUEST_MAC (Some 7) UP_FLAGS"

definition sample_tap :: link where "sample_tap = sample_link 3 ''tap0_kata'' ''tap'' ''02:00:00:00:00:09'' None UP_FLAGS"

definition sample_redirect :: "link \<Rightarrow> link \<Rightarrow> int \<Rightarrow> filter_row list" where
  "sample_redirect source target index =
     [FilterTable (filter_table source), FilterRow (filter_entry source \<lparr>ta_index = index, ta_kind = ustr ''mirred'', ta_control = ustr ''pipe'',
        ta_eaction = ustr ''redirect'', ta_direction = ustr ''egress'', ta_to_ifindex = lk_ifindex target, ta_to_name = lk_ifname target, ta_ref = 1,
        ta_bind = 1\<rparr>)]"

definition sample_state :: "link list \<Rightarrow> tc_qdisc list \<Rightarrow> filter_row list \<Rightarrow> runtime_state" where
  "sample_state links qdiscs filters =
     \<lparr>rs_netns_identity = sample_netns_identity, rs_host_links = [sample_host], rs_namespace_links = links, rs_qdiscs = qdiscs, rs_filters = filters\<rparr>"

definition sample_before :: runtime_state where
  "sample_before = sample_state [sample_lo, sample_guest] [root_qdisc sample_guest (ustr ''noqueue'') (Some 2)] []"

definition sample_after :: runtime_state where
  "sample_after = sample_state [sample_lo, sample_guest, sample_tap]
     [root_qdisc sample_guest (ustr ''noqueue'') (Some 2), ingress_qdisc sample_guest, root_qdisc sample_tap (ustr ''noqueue'') (Some 2), ingress_qdisc sample_tap]
     (sample_redirect sample_guest sample_tap 1 @ sample_redirect sample_tap sample_guest 2)"

lemmas sample_link_defs = sample_lo_def sample_host_def sample_guest_def sample_tap_def sample_link_def HOST_IF_def GUEST_IF_def HOST_MAC_def GUEST_MAC_def

lemma sample_baseline_links: "link_baseline sample_before sample_after = Inr (sample_host, sample_guest)"
  by (simp add: link_baseline_def sample_before_def sample_after_def sample_state_def host_name_ok_def validate_peer_pair_def link_named_def is_tap_def
      nfail_def sample_link_defs)

lemma sample_tc_difference:
  "tc_difference sample_host sample_guest sample_before sample_after = Inr
     \<lparr>tb_netns_identity = sample_netns_identity, tb_host_veth = sample_host, tb_guest_veth = sample_guest, tb_tap = sample_tap,
      tb_qdiscs = rs_qdiscs sample_after, tb_filters = rs_filters sample_after\<rparr>"
proof -
  have tap: "one_tap (rs_namespace_links sample_after) = Inr sample_tap"
    by (simp add: one_tap_Inr sample_after_def sample_state_def is_tap_def sample_link_defs)
  have filters: "filters_ok sample_guest sample_tap (rs_filters sample_after) = Inr ()"
    by (simp add: filters_ok_def sample_after_def sample_state_def sample_redirect_def filter_table_def filter_entry_def nfail_def sample_link_defs)
  have "lk_qdisc sample_tap = ustr ''noqueue''" by (simp add: sample_tap_def sample_link_def)
  moreover have "distinct (rs_qdiscs sample_after)"
    by (simp add: sample_after_def sample_state_def root_qdisc_def ingress_qdisc_def sample_link_defs)
  ultimately have "set (rs_qdiscs sample_after) = expected_qdiscs sample_guest sample_tap"
      "length (rs_qdiscs sample_after) = card (set (rs_qdiscs sample_after))"
    by (auto simp: distinct_card sample_after_def sample_state_def expected_qdiscs_def)
  then show ?thesis
    by (simp add: tc_difference_def tap filters nfail_def) (simp add: sample_before_def sample_after_def sample_state_def)
qed

theorem runtime_adds_one_tap_witness:
  "\<exists>d. runtime_difference sample_before sample_after = Inr d \<and> mset (rs_namespace_links sample_after) = add_mset (tb_tap d) (mset (rs_namespace_links sample_before))"
proof -
  have "rs_netns_identity sample_before = rs_netns_identity sample_after" "rs_host_links sample_before = rs_host_links sample_after"
      "length (rs_host_links sample_before) = 1"
    by (simp_all add: sample_before_def sample_after_def sample_state_def)
  then have "runtime_difference sample_before sample_after = Inr
     \<lparr>tb_netns_identity = sample_netns_identity, tb_host_veth = sample_host, tb_guest_veth = sample_guest, tb_tap = sample_tap,
      tb_qdiscs = rs_qdiscs sample_after, tb_filters = rs_filters sample_after\<rparr>"
    by (simp add: runtime_difference_def nfail_def sample_baseline_links sample_tc_difference)
  then show ?thesis using runtime_adds_one_tap by blast
qed

section \<open>Accepted links\<close>

lemma namespace_links_Inr:
  assumes "namespace_links_ok links = Inr ls" "links_distinct links"
  shows "ls = links \<and> (\<exists>lo g. set links = {lo, g} \<and> length links = 2 \<and> loopback_ok lo \<and> guest_ok g \<and> lk_ifname lo = ustr ''lo'' \<and> lk_ifname g = ustr GUEST_IF)"
proof -
  have names: "set (map lk_ifname links) = {ustr ''lo'', ustr GUEST_IF}" and ls: "ls = links"
    using assms(1) by (auto simp: namespace_links_ok_def split: option.split_asm)
  obtain lo g where l: "link_named (ustr ''lo'') links = Some lo" "link_named (ustr GUEST_IF) links = Some g" "loopback_ok lo" "guest_ok g"
    using assms(1) by (auto simp: namespace_links_ok_def split: option.split_asm)
  then have m: "lo \<in> set links" "lk_ifname lo = ustr ''lo''" "g \<in> set links" "lk_ifname g = ustr GUEST_IF"
    by (auto simp: link_named_def find_Some_iff) (metis length_rev nth_mem set_rev)+
  have inj: "inj_on lk_ifname (set links)" "distinct links" using assms(2) by (simp_all add: links_distinct_def distinct_map)
  have "set links = {lo, g}"
  proof
    show "set links \<subseteq> {lo, g}"
    proof
      fix x assume x: "x \<in> set links"
      then have "lk_ifname x = lk_ifname lo \<or> lk_ifname x = lk_ifname g" using names m by force
      with x m inj_onD [OF inj(1), of x lo] inj_onD [OF inj(1), of x g] show "x \<in> {lo, g}" by auto
    qed
  qed (use m in auto)
  moreover have "lo \<noteq> g" using m by (auto simp: GUEST_IF_def)
  ultimately have "length links = 2" using distinct_card [OF inj(2)] by simp
  with \<open>set links = {lo, g}\<close> l m ls show ?thesis by blast
qed

lemma namespace_links_same: "namespace_links_ok links = Inr ls \<Longrightarrow> ls = links"
  by (auto simp: namespace_links_ok_def split: option.split_asm)

lemma parse_links_Inr:
  assumes "parse_links load raw namespace host_if = Inr ls"
  shows "links_distinct ls \<and> (if namespace then namespace_links_ok ls = Inr ls else ls = [] \<or> host_ok (hd ls))"
proof -
  obtain v where v: "load raw = Inr v" using assms by (auto simp: parse_links_def)
  with assms obtain rows where "v = JArr rows" by (cases v) (auto simp: parse_links_def)
  with v assms show ?thesis by (auto simp: parse_links_def dest: namespace_links_same split: if_split_asm)
qed

text \<open>When the listings of the host's and the namespace's links are accepted and are ends of one pair, the host has one link, the namespace has
  a loopback and the guest's end and nothing else, each in its fixed state, and the two ends name each other.\<close>

theorem accepted_links_are_one_pair:
  assumes "parse_links load host_raw False host_if = Inr hs" "parse_links load netns_raw True host_if = Inr ns" "validate_peer_pair hs ns host_if = Inr (h, g)"
  shows "hs = [h] \<and> host_ok h \<and> lk_ifname h = host_if \<and> (\<exists>lo. set ns = {lo, g} \<and> length ns = 2 \<and> loopback_ok lo) \<and> guest_ok g \<and>
    lk_peer_ifindex h = Some (lk_ifindex g) \<and> lk_peer_ifindex g = Some (lk_ifindex h)"
proof -
  note pair = peer_pair_Inr [OF assms(3)]
  have n: "links_distinct ns" "namespace_links_ok ns = Inr ns" using parse_links_Inr [OF assms(2)] by auto
  then obtain lo g' where lg: "set ns = {lo, g'}" "length ns = 2" "loopback_ok lo" "guest_ok g'" "lk_ifname lo = ustr ''lo''" "lk_ifname g' = ustr GUEST_IF"
    using namespace_links_Inr by blast
  moreover have "g = g'" using pair lg by (auto simp: GUEST_IF_def)
  ultimately show ?thesis using pair parse_links_Inr [OF assms(1)] by auto
qed

definition sample_row :: "int \<Rightarrow> string \<Rightarrow> string \<Rightarrow> string \<Rightarrow> int option \<Rightarrow> string list \<Rightarrow> json" where
  "sample_row index name kind mac peer flags =
     obj ([(''ifindex'', JInt index), (''ifname'', jstr name), (''flags'', JArr (map jstr flags)),
       (''operstate'', jstr (if kind = ''loopback'' then ''UNKNOWN'' else ''UP'')), (''link_type'', jstr kind), (''address'', jstr mac),
       (''qdisc'', jstr ''noqueue''), (''addrgenmode'', jstr ''none'')] @ (case peer of None \<Rightarrow> [] | Some i \<Rightarrow> [(''link_index'', JInt i)]))"

definition sample_load :: "bytes \<Rightarrow> json result" where
  "sample_load raw = Inr (JArr (if raw = [] then [sample_row 7 HOST_IF ''veth'' HOST_MAC (Some 2) UP_FLAGS]
     else [sample_row 1 ''lo'' ''loopback'' ''00:00:00:00:00:00'' None [''LOOPBACK'', ''UP'', ''LOWER_UP''],
       sample_row 2 GUEST_IF ''veth'' GUEST_MAC (Some 7) UP_FLAGS]))"

lemma link_row_fields:
  "jget (sample_row index name kind mac peer flags) ''ifindex'' = Inr (JInt index)" "jget (sample_row index name kind mac peer flags) ''ifname'' = Inr (jstr name)"
  "jget (sample_row index name kind mac peer flags) ''flags'' = Inr (JArr (map jstr flags))"
  "jget (sample_row index name kind mac peer flags) ''operstate'' = Inr (jstr (if kind = ''loopback'' then ''UNKNOWN'' else ''UP''))"
  "jget (sample_row index name kind mac peer flags) ''link_type'' = Inr (jstr kind)" "jget (sample_row index name kind mac peer flags) ''address'' = Inr (jstr mac)"
  "jget (sample_row index name kind mac peer flags) ''qdisc'' = Inr (jstr ''noqueue'')" "jget (sample_row index name kind mac peer flags) ''addrgenmode'' = Inr (jstr ''none'')"
  "dict_get (sample_row index name kind mac peer flags) ''linkinfo'' = Inr JNull"
  "dict_get (sample_row index name kind mac peer flags) ''link_index'' = Inr (case peer of None \<Rightarrow> JNull | Some i \<Rightarrow> JInt i)"
  by (cases peer; simp add: sample_row_def obj_def jkey_def NetworkReplay.dict_get_def nullable_def)+

lemma link_row_keys:
  "keys_ok (sample_row index name kind mac peer flags) [''ifindex'', ''ifname'', ''flags'', ''operstate'', ''link_type'', ''address'', ''qdisc'']
     (LINK_OPTIONAL @ [''link_index'', ''addrgenmode'', ''linkinfo''])"
  by (cases peer; simp add: keys_ok_def sample_row_def obj_def)

lemma link_row_flags: "distinct flags \<Longrightarrow> link_flags (sample_row index name kind mac peer flags) = Inr (map jstr flags)"
  by (simp add: link_flags_def link_row_fields nfail_def require_def list_all_iff distinct_map comp_def normal_def inj_on_def)

lemma sample_row_link:
  assumes "name \<noteq> []" "length name \<le> 15" "mac_text (ustr mac)" "distinct flags" "1 \<le> index" "index < 1000" "\<forall>i. peer = Some i \<longrightarrow> 1 \<le> i \<and> i < 1000"
    "''UP'' \<in> set flags"
  shows "parse_link_row False (sample_row index name kind mac peer flags) = Inr (sample_link index name kind mac peer flags)"
proof -
  let ?row = "sample_row index name kind mac peer flags"
  have "ustr name \<noteq> []" "length (ustr name) \<le> 15" using assms(1,2) by (simp_all add: ustr_def)
  then have "link_name_mac ?row = Inr (ustr name, ustr mac)" using assms(3) by (simp add: link_name_mac_def link_row_fields nfail_def)
  moreover have "link_kind ?row False = Inr (jstr kind)" by (simp add: link_kind_def link_row_fields)
  moreover have "link_peer ?row = Inr peer" using assms(7) by (auto simp: link_peer_def link_row_fields uint_def nfail_def split: option.split)
  moreover have "uint (JInt index) = Inr index" using assms(5,6) by (simp add: uint_def nfail_def)
  moreover have "link_addrgenmode ?row = jstr ''none''" by (simp add: link_addrgenmode_def link_row_fields normal_def)
  moreover have "jstr ''UP'' \<in> set (map jstr flags)" using assms(8) by auto
  ultimately show ?thesis
    by (simp add: parse_link_row_def link_row_keys link_row_flags [OF assms(4)] link_row_fields nfail_def sample_link_def)
qed

lemma sample_macs: "mac_text (ustr HOST_MAC)" "mac_text (ustr GUEST_MAC)" "mac_text (ustr ''00:00:00:00:00:00'')"
  by (simp_all add: mac_text_def HOST_MAC_def GUEST_MAC_def ustr_def is_hexchar_def)

lemma sample_host_row: "parse_link_row False (sample_row 7 HOST_IF ''veth'' HOST_MAC (Some 2) UP_FLAGS) = Inr sample_host"
  unfolding sample_host_def by (rule sample_row_link) (simp_all add: sample_macs HOST_IF_def UP_FLAGS_def)

lemma sample_namespace_rows:
  "parse_link_row False (sample_row 1 ''lo'' ''loopback'' ''00:00:00:00:00:00'' None [''LOOPBACK'', ''UP'', ''LOWER_UP'']) = Inr sample_lo"
  "parse_link_row False (sample_row 2 GUEST_IF ''veth'' GUEST_MAC (Some 7) UP_FLAGS) = Inr sample_guest"
  unfolding sample_lo_def sample_guest_def by (rule sample_row_link; simp add: sample_macs GUEST_IF_def UP_FLAGS_def)+

theorem accepted_links_are_one_pair_witness:
  "parse_links sample_load [] False (ustr HOST_IF) = Inr [sample_host] \<and> parse_links sample_load [0] True (ustr HOST_IF) = Inr [sample_lo, sample_guest] \<and>
   host_ok sample_host \<and> guest_ok sample_guest"
proof -
  have "host_ok sample_host" by (simp add: host_ok_def flags_are_def addrgen_none_def UP_FLAGS_def sample_link_defs)
  then have h: "parse_links sample_load [] False (ustr HOST_IF) = Inr [sample_host]"
    by (simp add: parse_links_def sample_load_def sample_host_row nfail_def links_distinct_def) (simp add: sample_host_def sample_link_def)
  have "guest_ok sample_guest" "loopback_ok sample_lo"
    by (simp_all add: guest_ok_def loopback_ok_def flags_are_def addrgen_none_def UP_FLAGS_def sample_link_defs)
  then have "namespace_links_ok [sample_lo, sample_guest] = Inr [sample_lo, sample_guest]"
    by (simp add: namespace_links_ok_def link_named_def nfail_def) (simp add: sample_link_defs insert_commute)
  moreover have "links_distinct [sample_lo, sample_guest]" by (simp add: links_distinct_def sample_link_defs)
  ultimately have n: "parse_links sample_load [0] True (ustr HOST_IF) = Inr [sample_lo, sample_guest]"
    by (simp add: parse_links_def sample_load_def sample_namespace_rows nfail_def)
  have "validate_peer_pair [sample_host] [sample_lo, sample_guest] (ustr HOST_IF) = Inr (sample_host, sample_guest)"
    by (simp add: validate_peer_pair_def link_named_def nfail_def sample_link_defs)
  from accepted_links_are_one_pair [OF h n this] h n show ?thesis by blast
qed

section \<open>The causal proof\<close>

definition ALL_SENSORS :: "string list" where
  "ALL_SENSORS = POSITIVE_SENSORS @ MONOTONIC_SENSORS @ ZERO_SENSORS"

lemma counter_map_Inr:
  assumes "counter_map s = Inr m"
  shows "set (map nc_sensor (nft_counters (cs_nft s))) = set (map ustr ALL_SENSORS)"
    "m name = Some row \<longleftrightarrow> row \<in> set (nft_counters (cs_nft s)) \<and> nc_sensor row = name"
proof -
  let ?rows = "nft_counters (cs_nft s)"
  have d: "distinct (map nc_sensor ?rows)" and m: "m = map_of (map (\<lambda>row. (nc_sensor row, row)) ?rows)"
    and all: "set (map nc_sensor ?rows) = set (map ustr ALL_SENSORS)"
    using assms by (auto simp: counter_map_def ALL_SENSORS_def Let_def)
  show "set (map nc_sensor ?rows) = set (map ustr ALL_SENSORS)" by (fact all)
  have "distinct (map fst (map (\<lambda>row. (nc_sensor row, row)) ?rows))" using d by (simp add: comp_def)
  from map_of_eq_Some_iff [OF this] show "m name = Some row \<longleftrightarrow> row \<in> set ?rows \<and> nc_sensor row = name" by (auto simp: m)
qed

text \<open>What the counter \<open>r\<close> of a sensor must be, given the one seen before.\<close>

definition advanced :: "string \<Rightarrow> nft_counter \<Rightarrow> nft_counter \<Rightarrow> bool" where
  "advanced name l r \<longleftrightarrow> nc_sensor l = ustr name \<and> nc_sensor r = ustr name \<and> nc_chain r = nc_chain l \<and> nc_ordinal r = nc_ordinal l \<and>
     nc_handle r = nc_handle l \<and> nc_packets l \<le> nc_packets r \<and> nc_bytes l \<le> nc_bytes r \<and>
     (name \<in> set POSITIVE_SENSORS \<longrightarrow> nc_packets l < nc_packets r \<and> nc_bytes l < nc_bytes r) \<and>
     (name \<in> set ZERO_SENSORS \<longrightarrow> nc_packets r = nc_packets l \<and> nc_bytes r = nc_bytes l)"

lemma zero_not_other: "name \<in> set ZERO_SENSORS \<Longrightarrow> name \<notin> set POSITIVE_SENSORS \<and> name \<notin> set MONOTONIC_SENSORS"
  by (auto simp: POSITIVE_SENSORS_def MONOTONIC_SENSORS_def ZERO_SENSORS_def)

lemma sensor_delta_Inr:
  assumes "counter_map s = Inr first" "counter_map t = Inr second" "sensor_delta first second name = Inr delta"
  shows "\<exists>l\<in>set (nft_counters (cs_nft s)). \<exists>r\<in>set (nft_counters (cs_nft t)). advanced name l r \<and>
    fst delta = name \<and> snd (snd delta) = (nc_packets r - nc_packets l, nc_bytes r - nc_bytes l)"
proof -
  obtain l r where "first (ustr name) = Some l" "second (ustr name) = Some r"
    using assms(3) by (auto simp: sensor_delta_def split: option.split_asm)
  moreover from this have "l \<in> set (nft_counters (cs_nft s))" "nc_sensor l = ustr name" "r \<in> set (nft_counters (cs_nft t))" "nc_sensor r = ustr name"
    using counter_map_Inr(2) [OF assms(1)] counter_map_Inr(2) [OF assms(2)] by auto
  ultimately show ?thesis using assms(3) zero_not_other [of name]
    by (intro bexI [of _ l] bexI [of _ r]) (auto simp: sensor_delta_def advanced_def Let_def split: if_split_asm)
qed

text \<open>When a causal proof is made, both observations belong to the operation it names and are different ones, the guest passed every fixed
  marker and its route is the one before; each sensor of the fixed inventory has one delta, in order, which is the difference of a
  counter seen after and one seen before of the same rule: packets were counted at each sensor that must see traffic, and none at
  a sensor that must not. Replaying the proof from the observations and the recorded route gives the proof itself.\<close>

theorem causal_proof_counts:
  assumes "prove_causal_values H dumps first_sensor second_sensor markers route_before route_after = Inr p"
  shows "cs_operation_token first_sensor = cp_operation_token p \<and> cs_operation_token second_sensor = cp_operation_token p \<and>
    cs_observation_sha256 first_sensor \<noteq> cs_observation_sha256 second_sensor \<and> markers = GUEST_MARKERS \<and> route_after = route_before \<and>
    list_all2 (\<lambda>name delta. \<exists>l\<in>set (nft_counters (cs_nft first_sensor)). \<exists>r\<in>set (nft_counters (cs_nft second_sensor)).
      advanced name l r \<and> fst delta = name \<and> snd (snd delta) = (nc_packets r - nc_packets l, nc_bytes r - nc_bytes l))
      (POSITIVE_SENSORS @ MONOTONIC_SENSORS @ ZERO_SENSORS) (cp_deltas p) \<and>
    replay_causal_network H dumps first_sensor second_sensor (cp_route_sha256 p) = Inr p"
proof -
  have fixed: "markers = GUEST_MARKERS" "route_after = route_before" "cs_operation_token first_sensor = cs_operation_token second_sensor"
      "cs_observation_sha256 first_sensor \<noteq> cs_observation_sha256 second_sensor"
    using assms unfolding prove_causal_values_def nfail_Inr by blast+
  obtain f s deltas where maps: "counter_map first_sensor = Inr f" "counter_map second_sensor = Inr s"
      and deltas: "map_result (sensor_delta f s) (POSITIVE_SENSORS @ MONOTONIC_SENSORS @ ZERO_SENSORS) = Inr deltas"
      and p: "cp_deltas p = deltas" "cp_operation_token p = cs_operation_token first_sensor" "cp_route_sha256 p = route_before"
    using assms unfolding prove_causal_values_def nfail_Inr rbind_Inr Let_def by auto
  have "list_all2 (\<lambda>name delta. \<exists>l\<in>set (nft_counters (cs_nft first_sensor)). \<exists>r\<in>set (nft_counters (cs_nft second_sensor)).
      advanced name l r \<and> fst delta = name \<and> snd (snd delta) = (nc_packets r - nc_packets l, nc_bytes r - nc_bytes l))
      (POSITIVE_SENSORS @ MONOTONIC_SENSORS @ ZERO_SENSORS) (cp_deltas p)"
    using deltas unfolding map_result_all2 p(1) by (rule list_all2_mono) (rule sensor_delta_Inr [OF maps])
  moreover have "replay_causal_network H dumps first_sensor second_sensor (cp_route_sha256 p) = Inr p"
    using assms by (simp add: replay_causal_network_def p(3) fixed(1,2))
  ultimately show ?thesis using fixed p by simp
qed

definition sample_sensor :: "string \<Rightarrow> nat \<Rightarrow> int \<Rightarrow> causal_sensor" where
  "sample_sensor stage digest n =
     \<lparr>cs_operation_token = replicate 64 97, cs_stage = ustr stage,
      cs_nft = \<lparr>nft_content = JNull, nft_identity = \<lparr>nk_table_handle = 1, nk_chain_handles = [], nk_rule_handles = []\<rparr>,
        nft_counters = map (\<lambda>name. \<lparr>nc_sensor = ustr name, nc_chain = ustr ''input'', nc_ordinal = 0, nc_handle = 1, nc_packets = n, nc_bytes = 60 * n\<rparr>)
          (POSITIVE_SENSORS @ MONOTONIC_SENSORS) @
          map (\<lambda>name. \<lparr>nc_sensor = ustr name, nc_chain = ustr ''input'', nc_ordinal = 0, nc_handle = 1, nc_packets = 0, nc_bytes = 0\<rparr>) ZERO_SENSORS\<rparr>,
      cs_observation_sha256 = replicate 64 digest\<rparr>"

lemma sample_counter_map:
  "counter_map (sample_sensor stage digest n) = Inr (map_of (map (\<lambda>row. (nc_sensor row, row)) (nft_counters (cs_nft (sample_sensor stage digest n)))))"
  by (simp add: counter_map_def sample_sensor_def nfail_def POSITIVE_SENSORS_def MONOTONIC_SENSORS_def ZERO_SENSORS_def)

lemma sample_deltas:
  "map_result (sensor_delta (map_of (map (\<lambda>row. (nc_sensor row, row)) (nft_counters (cs_nft (sample_sensor stage digest 1)))))
     (map_of (map (\<lambda>row. (nc_sensor row, row)) (nft_counters (cs_nft (sample_sensor stage' digest' 3))))))
     (POSITIVE_SENSORS @ MONOTONIC_SENSORS @ ZERO_SENSORS) =
   Inr (map (\<lambda>name. (name, ''positive'', 2, 120)) POSITIVE_SENSORS @ map (\<lambda>name. (name, ''denied-sibling'', 2, 120)) MONOTONIC_SENSORS @
     map (\<lambda>name. (name, ''zero'', 0, 0)) ZERO_SENSORS)"
  by (simp add: sensor_delta_def sample_sensor_def nfail_def POSITIVE_SENSORS_def MONOTONIC_SENSORS_def ZERO_SENSORS_def)

theorem causal_proof_counts_witness:
  "\<exists>p. prove_causal_values (\<lambda>_. []) (\<lambda>_. []) (sample_sensor ''before'' 97 1) (sample_sensor ''after'' 98 3) GUEST_MARKERS (replicate 64 97)
     (replicate 64 97) = Inr p \<and>
     replay_causal_network (\<lambda>_. []) (\<lambda>_. []) (sample_sensor ''before'' 97 1) (sample_sensor ''after'' 98 3) (cp_route_sha256 p) = Inr p"
proof -
  have "digest_text (replicate 64 97)" by (simp add: digest_text_def ustr_def)
  then have "\<exists>p. prove_causal_values (\<lambda>_. []) (\<lambda>_. []) (sample_sensor ''before'' 97 1) (sample_sensor ''after'' 98 3) GUEST_MARKERS (replicate 64 97)
     (replicate 64 97) = Inr p"
    unfolding prove_causal_values_def sample_counter_map rbind_def sum.case sample_deltas Let_def
    by (simp add: nfail_def sample_sensor_def sensor_static_sha256_def nft_same_def json_same_def)
  with causal_proof_counts show ?thesis by blast
qed

end
