(* ===== verification/FirewallSafety.thy ===== *)
theory FirewallSafety
  imports NetworkFirewall TrafficSafety
begin

text \<open>
  The firewall after it was read: the inventory of its handles and counters, the listings that are read back, and when two
  firewalls give a causal proof. What an accepted listing says row by row is in \<open>FirewallListing\<close>.
\<close>

definition rules_of :: "bool \<Rightarrow> pystr \<Rightarrow> rules" where
  "rules_of causal host_if = (if causal then NFT_RULES host_if else NFT_RULES_LEGACY host_if)"

text \<open>The rules in their order, as chain and ordinal.\<close>

definition rule_order :: "bool \<Rightarrow> (string \<times> nat) list" where
  "rule_order causal = concat (map (\<lambda>chain. map (Pair chain) [0..<length (rules_of causal [] chain)]) CHAINS)"

lemma rule_counts:
  "length (rules_of causal host_if ''input'') = (if causal then 4 else 2)" "length (rules_of causal host_if ''output'') = 2"
  "length (rules_of causal host_if ''forward'') = (if causal then 4 else 2)"
  by (simp_all add: rules_of_def NFT_RULES_def NFT_RULES_LEGACY_def)

lemma rule_order_expand:
  "rule_order causal = (if causal
     then [(''input'', 0), (''input'', 1), (''input'', 2), (''input'', 3), (''output'', 0), (''output'', 1), (''forward'', 0), (''forward'', 1),
       (''forward'', 2), (''forward'', 3)]
     else [(''input'', 0), (''input'', 1), (''output'', 0), (''output'', 1), (''forward'', 0), (''forward'', 1)])"
  by (simp add: rule_order_def CHAINS_def rules_of_def NFT_RULES_def NFT_RULES_LEGACY_def upt_rec)

lemma chain_order_eq: "chain_order (rules_of causal host_if) = map fst (rule_order causal)"
  by (simp add: chain_order_def rule_order_expand rules_of_def CHAINS_def NFT_RULES_def NFT_RULES_LEGACY_def)

definition ordinal_in :: "string \<Rightarrow> (string \<times> nat) list \<Rightarrow> nat" where
  "ordinal_in chain xs = length (filter (\<lambda>(c, _). c = chain) xs)"

lemma rule_order_ordinal: "n < length (rule_order causal) \<Longrightarrow> ordinal_in (fst (rule_order causal ! n)) (take n (rule_order causal)) = snd (rule_order causal ! n)"
proof -
  have "\<forall>n\<in>{0..<length (rule_order causal)}. ordinal_in (fst (rule_order causal ! n)) (take n (rule_order causal)) = snd (rule_order causal ! n)"
    by (cases causal) (simp_all add: rule_order_expand ordinal_in_def atLeast0_lessThan_Suc eval_nat_numeral)
  then show "n < length (rule_order causal) \<Longrightarrow> ?thesis" by simp
qed

lemma rule_order_complete:
  assumes "n \<le> length (rule_order causal)" "ordinal_in ''forward'' (take n (rule_order causal)) = (if causal then 4 else 2)"
  shows "n = length (rule_order causal)"
proof (rule ccontr)
  assume "n \<noteq> length (rule_order causal)"
  with assms(1) have "n \<in> {0..<length (rule_order causal)}" by simp
  with assms(2) show False
    by (cases causal) (auto simp: rule_order_expand ordinal_in_def atLeast0_lessThan_Suc eval_nat_numeral)
qed

section \<open>The invariant of the scan\<close>

definition key_of :: "string \<times> nat \<Rightarrow> pystr \<times> int" where
  "key_of = (\<lambda>(chain, ordinal). (ustr chain, int ordinal))"

definition handle_key :: "pystr \<times> int \<times> int \<Rightarrow> pystr \<times> int" where
  "handle_key = (\<lambda>(chain, ordinal, _). (chain, ordinal))"

text \<open>The counter of a rule.\<close>

definition counter_for :: "string \<times> nat \<Rightarrow> pystr \<times> int \<times> int \<Rightarrow> nft_counter \<Rightarrow> bool" where
  "counter_for = (\<lambda>(chain, ordinal) (_, _, handle) counter. \<exists>packets byte_count. counter = counted chain ordinal handle packets byte_count \<and>
     0 \<le> packets \<and> packets < 2 ^ 64 \<and> 0 \<le> byte_count \<and> byte_count < 2 ^ 64)"

definition scan_inv :: "bool \<Rightarrow> nft_scan \<Rightarrow> bool" where
  "scan_inv causal st \<longleftrightarrow>
     (let n = length (sc_rule_handles st); seen = take n (rule_order causal) in
      n \<le> length (rule_order causal) \<and> map handle_key (sc_rule_handles st) = map key_of seen \<and>
      (causal \<longrightarrow> list_all2 (\<lambda>(k, h). counter_for k h) (zip seen (sc_rule_handles st)) (sc_counters st)))"

lemma rule_ordinal_taken:
  assumes "map handle_key (sc_rule_handles st) = map key_of seen"
  shows "rule_ordinal st chain = ordinal_in chain seen"
proof -
  have "length (filter (\<lambda>k. fst k = ustr chain) (map handle_key (sc_rule_handles st))) = length (filter (\<lambda>k. fst k = ustr chain) (map key_of seen))"
    by (simp only: assms)
  then show ?thesis by (simp add: rule_ordinal_def ordinal_in_def filter_map comp_def handle_key_def key_of_def case_prod_unfold)
qed

lemma counter_uint_Inr: "counter_uint v = Inr i \<Longrightarrow> 0 \<le> i \<and> i < 2 ^ 64"
  by (cases v) (auto simp: counter_uint_def)

lemma take_counter_Inr:
  "take_counter es = Inr (remaining, packets, byte_count) \<Longrightarrow> 0 \<le> packets \<and> packets < 2 ^ 64 \<and> 0 \<le> byte_count \<and> byte_count < 2 ^ 64"
  by (auto simp: take_counter_def dest!: counter_uint_Inr split: list.split_asm)

lemma rule_counter_Inr:
  assumes "rule_counter causal chain ordinal handle es = Inr (expr, counters)" "causal"
  shows "\<exists>counter. counters = [counter] \<and> counter_for (chain, ordinal) (ustr chain, int ordinal, handle) counter"
proof -
  obtain remaining packets byte_count where "take_counter es = Inr (remaining, packets, byte_count)"
      "counters = [counted chain ordinal handle packets byte_count]"
    using assms by (auto simp: rule_counter_def)
  with take_counter_Inr show ?thesis unfolding counter_for_def by fastforce
qed

lemma scan_rule_Inr:
  assumes "scan_rule causal rules table_name handle content st = Inr st'"
  obtains chain expr counters es where "chain = chain_order rules ! length (sc_rule_handles st)" "length (sc_rule_handles st) < length (chain_order rules)"
    "rule_counter causal chain (rule_ordinal st chain) handle es = Inr (expr, counters)"
    "st' = st\<lparr>sc_rule_handles := sc_rule_handles st @ [(ustr chain, int (rule_ordinal st chain), handle)], sc_counters := sc_counters st @ counters,
       sc_normalized := sc_normalized st @ [obj [(''rule'', set_member ''expr'' (JArr expr) content)]]\<rparr>"
  using assms unfolding scan_rule_def Let_def nfail_Inr rbind_Inr require_Inr by (auto simp del: fields_are.simps)

lemma scan_rule_inv:
  assumes inv: "scan_inv causal st" and step: "scan_rule causal (rules_of causal host_if) table_name handle content st = Inr st'"
  shows "scan_inv causal st'"
proof -
  let ?n = "length (sc_rule_handles st)" and ?order = "rule_order causal"
  obtain chain expr counters es where c: "chain = chain_order (rules_of causal host_if) ! ?n" "?n < length (chain_order (rules_of causal host_if))"
    "rule_counter causal chain (rule_ordinal st chain) handle es = Inr (expr, counters)"
    "st' = st\<lparr>sc_rule_handles := sc_rule_handles st @ [(ustr chain, int (rule_ordinal st chain), handle)], sc_counters := sc_counters st @ counters,
       sc_normalized := sc_normalized st @ [obj [(''rule'', set_member ''expr'' (JArr expr) content)]]\<rparr>"
    using scan_rule_Inr [OF step] by metis
  have n: "?n < length ?order" and chain: "chain = fst (?order ! ?n)" using c(1,2) by (simp_all add: chain_order_eq)
  have keys: "map handle_key (sc_rule_handles st) = map key_of (take ?n ?order)" using inv by (simp add: scan_inv_def Let_def)
  have ordinal: "(chain, rule_ordinal st chain) = ?order ! ?n"
    using rule_ordinal_taken [OF keys] rule_order_ordinal [OF n] chain by (metis prod.collapse)
  have taken: "take (Suc ?n) ?order = take ?n ?order @ [?order ! ?n]" using n by (simp add: take_Suc_conv_app_nth)
  have "list_all2 (\<lambda>(k, h). counter_for k h) (zip (take (Suc ?n) ?order) (sc_rule_handles st @ [(ustr chain, int (rule_ordinal st chain), handle)]))
      (sc_counters st @ counters)" if causal: causal
  proof -
    obtain counter where "counters = [counter]" "counter_for (?order ! ?n) (ustr chain, int (rule_ordinal st chain), handle) counter"
      using rule_counter_Inr [OF c(3) causal] unfolding ordinal by blast
    moreover have "list_all2 (\<lambda>(k, h). counter_for k h) (zip (take ?n ?order) (sc_rule_handles st)) (sc_counters st)"
      using inv causal by (simp add: scan_inv_def Let_def)
    ultimately show ?thesis using n unfolding taken by (simp add: list_all2_appendI)
  qed
  moreover have "key_of (?order ! ?n) = (ustr chain, int (rule_ordinal st chain))" by (simp add: ordinal [symmetric] key_of_def)
  ultimately show ?thesis using n keys inv unfolding c(4) scan_inv_def Let_def by (simp add: taken handle_key_def)
qed

lemma scan_inv_frame:
  "scan_inv causal st \<Longrightarrow> sc_rule_handles st' = sc_rule_handles st \<Longrightarrow> sc_counters st' = sc_counters st \<Longrightarrow> scan_inv causal st'"
  by (simp add: scan_inv_def Let_def)

lemma scan_row_inv:
  assumes inv: "scan_inv causal st" and step: "scan_row causal (rules_of causal host_if) table_name kind row st = Inr st'"
  shows "scan_inv causal st'"
proof -
  obtain handle content where "scan_table table_name handle content st = Inr st' \<or> scan_chain table_name handle content st = Inr st' \<or>
      scan_rule causal (rules_of causal host_if) table_name handle content st = Inr st'"
    using step by (auto simp: scan_row_def Let_def split: json.split_asm list.split_asm prod.split_asm if_split_asm)
  then show ?thesis
  proof (elim disjE)
    assume "scan_table table_name handle content st = Inr st'"
    then show ?thesis by (intro scan_inv_frame [OF inv]) (auto simp: scan_table_def)
  next
    assume "scan_chain table_name handle content st = Inr st'"
    then show ?thesis
      by (intro scan_inv_frame [OF inv]) (auto simp: scan_chain_def split: option.split_asm)
  next
    assume "scan_rule causal (rules_of causal host_if) table_name handle content st = Inr st'"
    then show ?thesis by (rule scan_rule_inv [OF inv])
  qed
qed

lemma scan_rows_inv:
  "scan_rows causal (rules_of causal host_if) table_name rows st = Inr st' \<Longrightarrow> scan_inv causal st \<Longrightarrow> scan_inv causal st'"
  by (induction rows arbitrary: st) (auto, metis scan_row_inv)

lemma parse_nft_snapshot_Inr:
  assumes "parse_nft_snapshot load raw table_name host_if causal = Inr s"
  obtains st where "scan_inv causal st" "inventory_ok causal (rules_of causal host_if) st"
    "s = \<lparr>nft_content = obj [(''nftables'', JArr (sc_normalized st))],
       nft_identity = \<lparr>nk_table_handle = sc_table_handle st, nk_chain_handles = sc_chain_handles st, nk_rule_handles = sc_rule_handles st\<rparr>,
       nft_counters = sc_counters st\<rparr>"
proof -
  obtain v rows where v: "load raw = Inr v" "jget v ''nftables'' = Inr rows" using assms by (auto simp: parse_nft_snapshot_def Let_def)
  obtain meta rest where rows: "rows = JArr (meta # rest)"
    using assms v by (cases rows) (auto simp: parse_nft_snapshot_def Let_def split: list.split_asm)
  obtain rows st where "scan_rows causal (rules_of causal host_if) table_name rows
      \<lparr>sc_table_handle = 0, sc_chain_handles = [], sc_rule_handles = [], sc_counters = [], sc_normalized = []\<rparr> = Inr st"
    and ok: "inventory_ok causal (rules_of causal host_if) st"
      "s = \<lparr>nft_content = obj [(''nftables'', JArr (sc_normalized st))],
         nft_identity = \<lparr>nk_table_handle = sc_table_handle st, nk_chain_handles = sc_chain_handles st, nk_rule_handles = sc_rule_handles st\<rparr>,
         nft_counters = sc_counters st\<rparr>"
    using assms unfolding parse_nft_snapshot_def Let_def rules_of_def [symmetric] by (auto simp: v rows)
  then have "scan_inv causal st" by (elim scan_rows_inv) (simp add: scan_inv_def)
  then show thesis using that ok by blast
qed

lemma inventory_rules:
  assumes "scan_inv causal st" "inventory_ok causal (rules_of causal host_if) st"
  shows "length (sc_rule_handles st) = length (rule_order causal)"
    "distinct (map snd (sc_chain_handles st) @ map (snd \<circ> snd) (sc_rule_handles st))" "map fst (sc_chain_handles st) = map ustr CHAINS"
proof -
  let ?chains = "map snd (sc_chain_handles st)" and ?rules = "map (snd \<circ> snd) (sc_rule_handles st)"
  have inv: "length (sc_rule_handles st) \<le> length (rule_order causal)"
      "map handle_key (sc_rule_handles st) = map key_of (take (length (sc_rule_handles st)) (rule_order causal))"
    using assms(1) by (simp_all add: scan_inv_def Let_def)
  have ok: "map fst (sc_chain_handles st) = map ustr CHAINS" "list_all (\<lambda>chain. rule_ordinal st chain = length (rules_of causal host_if chain)) CHAINS"
      "card (set ?chains) = 3" "card (set ?rules) = length (rule_order causal)" "card (set ?chains \<union> set ?rules) = 3 + length (rule_order causal)"
    using assms(2) unfolding inventory_ok_def Let_def chain_order_eq length_map by blast+
  then have "rule_ordinal st ''forward'' = (if causal then 4 else 2)" by (simp add: CHAINS_def rule_counts)
  then have n: "length (sc_rule_handles st) = length (rule_order causal)"
    using rule_order_complete [OF inv(1)] rule_ordinal_taken [OF inv(2)] by simp
  have "length (sc_chain_handles st) = 3" using arg_cong [OF ok(1), of length] by (simp add: CHAINS_def)
  then have "distinct ?chains" "distinct ?rules" using ok(3,4) n by (simp_all only: card_distinct length_map)
  moreover have "set ?chains \<inter> set ?rules = {}" using ok(3-5) card_Un_Int [of "set ?chains" "set ?rules"] by simp
  ultimately show "distinct (?chains @ ?rules)" by simp
  show "length (sc_rule_handles st) = length (rule_order causal)" "map fst (sc_chain_handles st) = map ustr CHAINS" by (fact n ok(1))+
qed

section \<open>The firewall that was installed is accepted\<close>

text \<open>A listing of the pinned firewall with given handles and counts.\<close>

definition with_metric :: "int \<Rightarrow> int \<Rightarrow> json list \<Rightarrow> json list" where
  "with_metric packets byte_count expr =
     map (\<lambda>e. if e = nft_counter_expr then obj [(''counter'', obj [(''packets'', JInt packets), (''bytes'', JInt byte_count)])] else e) expr"

definition rule_content :: "pystr \<Rightarrow> string \<Rightarrow> json list \<Rightarrow> json" where
  "rule_content table_name chain expr =
     obj [(''family'', jstr ''inet''), (''table'', JStr table_name), (''chain'', jstr chain), (''expr'', JArr expr)]"

definition listed :: "string \<Rightarrow> int \<Rightarrow> json \<Rightarrow> json" where
  "listed kind handle content = (case content of JObj ps \<Rightarrow> obj [(kind, JObj ((ustr ''handle'', JInt handle) # ps))] | _ \<Rightarrow> content)"

definition rule_listed :: "pystr \<Rightarrow> pystr \<Rightarrow> string \<times> nat \<Rightarrow> int \<times> int \<times> int \<Rightarrow> json" where
  "rule_listed table_name host_if = (\<lambda>(chain, ordinal) (handle, packets, byte_count).
     listed ''rule'' handle (rule_content table_name chain (with_metric packets byte_count (NFT_RULES host_if chain ! ordinal))))"

definition listing :: "pystr \<Rightarrow> pystr \<Rightarrow> int \<Rightarrow> int \<times> int \<times> int \<Rightarrow> (int \<times> int \<times> int) list \<Rightarrow> json" where
  "listing table_name host_if table_handle = (\<lambda>(h1, h2, h3) metrics. obj [(''nftables'', JArr
     ([obj [(''metainfo'', obj [(''json_schema_version'', JInt 1)])], listed ''table'' table_handle (table_content table_name),
       listed ''chain'' h1 (chain_content table_name (ustr ''input'')), listed ''chain'' h2 (chain_content table_name (ustr ''output'')),
       listed ''chain'' h3 (chain_content table_name (ustr ''forward''))] @ map2 (rule_listed table_name host_if) (rule_order True) metrics))])"

definition handle_ok :: "int \<Rightarrow> bool" where "handle_ok h \<longleftrightarrow> 1 \<le> h \<and> h \<le> 2 ^ 31 - 1"

definition metric_ok :: "int \<times> int \<times> int \<Rightarrow> bool" where
  "metric_ok = (\<lambda>(h, packets, byte_count). handle_ok h \<and> 0 \<le> packets \<and> packets < 2 ^ 64 \<and> 0 \<le> byte_count \<and> byte_count < 2 ^ 64)"

lemma json_same_self [simp]: "json_same v v"
  by (simp add: json_same_def)

lemmas rule_defs = NFT_RULES_def on_interface_def on_payload_def on_state_def nft_match_def nft_meta_def nft_payload_def nft_verdict_def nft_counter_expr_def

lemma state_set_listed:
  "state_set (obj [(''set'', JArr [jstr ''established''])]) = Inr (obj [(''set'', JArr [jstr ''established''])])"
  "state_set (obj [(''set'', JArr [jstr ''established'', jstr ''new''])]) = Inr (obj [(''set'', JArr [jstr ''established'', jstr ''new''])])"
proof -
  have "ustr ''established'' \<le> ustr ''new''" by (simp add: ustr_def)
  then show "state_set (obj [(''set'', JArr [jstr ''established''])]) = Inr (obj [(''set'', JArr [jstr ''established''])])"
    "state_set (obj [(''set'', JArr [jstr ''established'', jstr ''new''])]) = Inr (obj [(''set'', JArr [jstr ''established'', jstr ''new''])])"
    by (simp_all add: state_set_def Let_def obj_def keys_ok_def jkey_def nfail_def)
qed

lemma normalize_listed:
  "normalize_expression (on_interface key host_if) = Inr (on_interface key host_if)" "normalize_expression (on_payload protocol field v) = Inr (on_payload protocol field v)"
  "normalize_expression (nft_verdict ''drop'') = Inr (nft_verdict ''drop'')" "normalize_expression (nft_verdict ''accept'') = Inr (nft_verdict ''accept'')"
  "normalize_expression (obj [(''counter'', v)]) = Inr (obj [(''counter'', v)])"
  "normalize_expression (on_state [''established'']) = Inr (on_state [''established''])"
  "normalize_expression (on_state [''established'', ''new'']) = Inr (on_state [''established'', ''new''])"
  by (simp_all add: normalize_expression_def rule_defs obj_def nullable_def NetworkReplay.dict_get_def json_same_def set_member_def Let_def
      state_set_listed [unfolded obj_def, simplified])

lemma no_counter_listed:
  "\<not> has_counter (on_interface key host_if)" "\<not> has_counter (on_payload protocol field v)" "\<not> has_counter (on_state states)"
  "\<not> has_counter (nft_verdict ''drop'')" "\<not> has_counter (nft_verdict ''accept'')"
  by (simp_all add: rule_defs obj_def has_counter_def)

text \<open>A pinned rule has its counter before its verdict; everything else is in normal form.\<close>

lemma pinned_rule_shape:
  assumes "(chain, ordinal) \<in> set (rule_order True)"
  obtains xs v where "NFT_RULES host_if chain ! ordinal = xs @ [nft_counter_expr, v]"
    "\<forall>e\<in>set (xs @ [v]). \<not> has_counter e \<and> normalize_expression e = Inr e"
proof -
  let ?rule = "NFT_RULES host_if chain ! ordinal"
  have "?rule = butlast (butlast ?rule) @ [nft_counter_expr, last ?rule] \<and>
      (\<forall>e\<in>set (butlast (butlast ?rule) @ [last ?rule]). \<not> has_counter e \<and> normalize_expression e = Inr e)"
    using assms unfolding rule_order_expand if_True list.set insert_iff empty_iff prod.inject
    by (elim disjE conjE FalseE) (simp_all add: NFT_RULES_def no_counter_listed normalize_listed)
  then show thesis using that by blast
qed

lemma counter_expr_has: "has_counter (obj [(''counter'', v)])"
  by (simp add: has_counter_def obj_def)

lemma with_metric_shape:
  assumes "\<forall>e\<in>set (xs @ [v]). \<not> has_counter e \<and> normalize_expression e = Inr e"
  shows "with_metric p b (xs @ [nft_counter_expr, v]) = xs @ [obj [(''counter'', obj [(''packets'', JInt p), (''bytes'', JInt b)])], v]"
proof -
  have "e \<noteq> nft_counter_expr" if "e \<in> set (xs @ [v])" for e using assms that counter_expr_has unfolding nft_counter_expr_def by blast
  then have "with_metric p b xs = xs" "v \<noteq> nft_counter_expr" by (auto simp: with_metric_def intro: map_idI)
  then show ?thesis by (simp add: with_metric_def)
qed

lemma map_result_id: "(\<And>x. x \<in> set xs \<Longrightarrow> f x = Inr x) \<Longrightarrow> map_result f xs = Inr xs"
  by (induction xs) auto

lemma normalize_metric:
  assumes "(chain, ordinal) \<in> set (rule_order True)"
  shows "normalize_nft_expr (JArr (with_metric p b (NFT_RULES host_if chain ! ordinal))) = Inr (with_metric p b (NFT_RULES host_if chain ! ordinal))"
proof -
  obtain xs v where rule: "NFT_RULES host_if chain ! ordinal = xs @ [nft_counter_expr, v]"
    and plain: "\<forall>e\<in>set (xs @ [v]). \<not> has_counter e \<and> normalize_expression e = Inr e"
    using pinned_rule_shape [OF assms] by metis
  show ?thesis unfolding rule with_metric_shape [OF plain] normalize_nft_expr_def iterate.simps rbind_Inr_left
    using plain normalize_listed(5) by (intro map_result_id) auto
qed

lemma take_metric:
  assumes "(chain, ordinal) \<in> set (rule_order True)" "0 \<le> p" "p < 2 ^ 64" "0 \<le> b" "b < 2 ^ 64"
  shows "take_counter (with_metric p b (NFT_RULES host_if chain ! ordinal)) = Inr (NFT_RULES host_if chain ! ordinal, p, b)"
proof -
  obtain xs v where rule: "NFT_RULES host_if chain ! ordinal = xs @ [nft_counter_expr, v]"
    and plain: "\<forall>e\<in>set (xs @ [v]). \<not> has_counter e \<and> normalize_expression e = Inr e"
    using pinned_rule_shape [OF assms(1)] by metis
  let ?metric = "obj [(''packets'', JInt p), (''bytes'', JInt b)]"
  have m: "jget (obj [(''counter'', ?metric)]) ''counter'' = Inr ?metric" "keys_ok ?metric [''packets'', ''bytes''] []"
      "jget ?metric ''packets'' = Inr (JInt p)" "jget ?metric ''bytes'' = Inr (JInt b)" "counter_uint (JInt p) = Inr p" "counter_uint (JInt b) = Inr b"
    using assms by (simp_all add: obj_def jkey_def keys_ok_def counter_uint_def nfail_def)
  have "filter has_counter xs = []" "map (\<lambda>e. if has_counter e then nft_counter_expr else e) xs = xs" "\<not> has_counter v"
    using plain by (auto simp: filter_empty_conv intro: map_idI)
  then show ?thesis unfolding rule with_metric_shape [OF plain] take_counter_def filter_append map_append
    by (simp add: counter_expr_has m nfail_def)
qed

lemma scan_rule_listed:
  assumes n: "length (sc_rule_handles st) < length (rule_order True)"
    and keys: "map handle_key (sc_rule_handles st) = map key_of (take (length (sc_rule_handles st)) (rule_order True))"
    and chains: "ustr ` set CHAINS \<subseteq> set (map fst (sc_chain_handles st))" and ok: "metric_ok (h, p, b)"
    and at: "rule_order True ! length (sc_rule_handles st) = (chain, ordinal)"
  shows "scan_row True (rules_of True host_if) table_name ''rule'' (rule_listed table_name host_if (chain, ordinal) (h, p, b)) st =
    Inr (st\<lparr>sc_rule_handles := sc_rule_handles st @ [(ustr chain, int ordinal, h)], sc_counters := sc_counters st @ [counted chain ordinal h p b],
      sc_normalized := sc_normalized st @ [obj [(''rule'', rule_content table_name chain (NFT_RULES host_if chain ! ordinal))]]\<rparr>)"
proof -
  let ?expr = "with_metric p b (NFT_RULES host_if chain ! ordinal)"
  let ?content = "rule_content table_name chain ?expr"
  have mem: "(chain, ordinal) \<in> set (rule_order True)" using nth_mem [OF n] at by simp
  then have len: "ustr chain \<in> set (map fst (sc_chain_handles st))" "ordinal < length (NFT_RULES host_if chain)"
    using chains by (auto simp: rule_order_expand CHAINS_def NFT_RULES_def)
  have ordinal: "rule_ordinal st chain = ordinal" using rule_ordinal_taken [OF keys] rule_order_ordinal [OF n] at by simp
  have chain: "chain_order (rules_of True host_if) ! length (sc_rule_handles st) = chain" using n at by (simp add: chain_order_eq)
  have fields: "keys_ok ?content [''family'', ''table'', ''chain'', ''expr''] []" "jget ?content ''chain'' = Inr (jstr chain)" "jget ?content ''expr'' = Inr (JArr ?expr)"
      "fields_are ?content [(''family'', jstr ''inet''), (''table'', JStr table_name)] = Inr True"
      "set_member ''expr'' (JArr es) ?content = rule_content table_name chain es" for es
    by (simp_all add: rule_content_def obj_def keys_ok_def jkey_def set_member_def)
  have "rule_counter True chain ordinal h ?expr = Inr (NFT_RULES host_if chain ! ordinal, [counted chain ordinal h p b])"
    using take_metric [OF mem] ok by (simp add: rule_counter_def metric_ok_def)
  then have rule: "scan_rule True (rules_of True host_if) table_name h ?content st =
    Inr (st\<lparr>sc_rule_handles := sc_rule_handles st @ [(ustr chain, int ordinal, h)], sc_counters := sc_counters st @ [counted chain ordinal h p b],
      sc_normalized := sc_normalized st @ [obj [(''rule'', rule_content table_name chain (NFT_RULES host_if chain ! ordinal))]]\<rparr>)"
    unfolding scan_rule_def Let_def chain ordinal fields rbind_Inr_left
    using n len by (simp add: nfail_def require_def chain_order_eq [of True host_if, unfolded rules_of_def if_True] normalize_metric [OF mem] rules_of_def fields(1,5))
  have "scan_row True (rules_of True host_if) table_name ''rule'' (rule_listed table_name host_if (chain, ordinal) (h, p, b)) st =
      scan_rule True (rules_of True host_if) table_name h ?content st"
    using ok by (simp add: scan_row_def rule_listed_def listed_def rule_content_def obj_def nfail_def NetworkReplay.dict_get_def nullable_def uint_def
      metric_ok_def handle_ok_def Let_def)
  then show ?thesis by (simp add: rule)
qed

definition handles_listed :: "(string \<times> nat) list \<Rightarrow> (int \<times> int \<times> int) list \<Rightarrow> (pystr \<times> int \<times> int) list" where
  "handles_listed = map2 (\<lambda>(chain, ordinal) (h, _, _). (ustr chain, int ordinal, h))"

definition counters_listed :: "(string \<times> nat) list \<Rightarrow> (int \<times> int \<times> int) list \<Rightarrow> nft_counter list" where
  "counters_listed = map2 (\<lambda>(chain, ordinal) (h, p, b). counted chain ordinal h p b)"

definition rules_content :: "pystr \<Rightarrow> pystr \<Rightarrow> (string \<times> nat) list \<Rightarrow> json list" where
  "rules_content table_name host_if = map (\<lambda>(chain, ordinal). obj [(''rule'', rule_content table_name chain (NFT_RULES host_if chain ! ordinal))])"

definition pinned_content :: "pystr \<Rightarrow> pystr \<Rightarrow> json" where
  "pinned_content table_name host_if = obj [(''nftables'', JArr (obj [(''table'', table_content table_name)] #
     map (\<lambda>chain. obj [(''chain'', chain_content table_name (ustr chain))]) CHAINS @ rules_content table_name host_if (rule_order True)))]"

lemma scan_rules_listed:
  assumes "length metrics = length (rule_order True) - length (sc_rule_handles st)" "length (sc_rule_handles st) \<le> length (rule_order True)"
    "map handle_key (sc_rule_handles st) = map key_of (take (length (sc_rule_handles st)) (rule_order True))"
    "ustr ` set CHAINS \<subseteq> set (map fst (sc_chain_handles st))" "\<forall>m\<in>set metrics. metric_ok m"
  shows "\<exists>st'. scan_rows True (rules_of True host_if) table_name
      (map (Pair ''rule'') (map2 (rule_listed table_name host_if) (drop (length (sc_rule_handles st)) (rule_order True)) metrics)) st = Inr st' \<and>
    sc_rule_handles st' = sc_rule_handles st @ handles_listed (drop (length (sc_rule_handles st)) (rule_order True)) metrics \<and>
    sc_counters st' = sc_counters st @ counters_listed (drop (length (sc_rule_handles st)) (rule_order True)) metrics \<and>
    sc_normalized st' = sc_normalized st @ rules_content table_name host_if (drop (length (sc_rule_handles st)) (rule_order True)) \<and>
    sc_chain_handles st' = sc_chain_handles st \<and> sc_table_handle st' = sc_table_handle st"
  using assms
proof (induction metrics arbitrary: st)
  case Nil
  then show ?case by (simp add: handles_listed_def counters_listed_def rules_content_def)
next
  case (Cons m metrics)
  let ?n = "length (sc_rule_handles st)"
  obtain h p b where m: "m = (h, p, b)" by (cases m)
  have n: "?n < length (rule_order True)" using Cons.prems(1,2) by simp
  obtain chain ordinal where at: "rule_order True ! ?n = (chain, ordinal)" by fastforce
  have rest: "drop ?n (rule_order True) = (chain, ordinal) # drop (Suc ?n) (rule_order True)" using n at by (metis Cons_nth_drop_Suc)
  let ?st = "st\<lparr>sc_rule_handles := sc_rule_handles st @ [(ustr chain, int ordinal, h)], sc_counters := sc_counters st @ [counted chain ordinal h p b],
      sc_normalized := sc_normalized st @ [obj [(''rule'', rule_content table_name chain (NFT_RULES host_if chain ! ordinal))]]\<rparr>"
  have step: "scan_row True (rules_of True host_if) table_name ''rule'' (rule_listed table_name host_if (chain, ordinal) m) st = Inr ?st"
    using Cons.prems(5) unfolding m by (intro scan_rule_listed n Cons.prems(3,4) at) simp
  have "take (Suc ?n) (rule_order True) = take ?n (rule_order True) @ [(chain, ordinal)]" using n at by (simp add: take_Suc_conv_app_nth)
  moreover have "length metrics = length (rule_order True) - length (sc_rule_handles ?st)" using Cons.prems(1) by simp
  ultimately have "length metrics = length (rule_order True) - length (sc_rule_handles ?st)" "map handle_key (sc_rule_handles ?st) = map key_of (take (length (sc_rule_handles ?st)) (rule_order True))"
    using Cons.prems(3) by (simp_all add: handle_key_def key_of_def)
  then obtain st' where "scan_rows True (rules_of True host_if) table_name
      (map (Pair ''rule'') (map2 (rule_listed table_name host_if) (drop (Suc ?n) (rule_order True)) metrics)) ?st = Inr st'"
    "sc_rule_handles st' = sc_rule_handles st @ [(ustr chain, int ordinal, h)] @ handles_listed (drop (Suc ?n) (rule_order True)) metrics"
    "sc_counters st' = sc_counters st @ [counted chain ordinal h p b] @ counters_listed (drop (Suc ?n) (rule_order True)) metrics"
    "sc_normalized st' = sc_normalized st @ [obj [(''rule'', rule_content table_name chain (NFT_RULES host_if chain ! ordinal))]] @
       rules_content table_name host_if (drop (Suc ?n) (rule_order True))"
    "sc_chain_handles st' = sc_chain_handles st" "sc_table_handle st' = sc_table_handle st"
    using Cons.IH [of ?st] Cons.prems n by auto
  then show ?case unfolding rest by (simp add: step handles_listed_def counters_listed_def rules_content_def m [symmetric]) (simp add: m)
qed

lemma frame_content:
  "\<exists>ps. table_content table_name = JObj ps \<and> ustr ''handle'' \<notin> set (map fst ps)" "\<exists>ps. chain_content table_name chain = JObj ps \<and> ustr ''handle'' \<notin> set (map fst ps)"
  by (auto simp: table_content_def chain_content_def obj_def)

lemma scan_listed:
  assumes "handle_ok h" "content = JObj ps" "ustr ''handle'' \<notin> set (map fst ps)"
  shows "scan_row causal rules table_name kind (listed kind h content) st =
    (if kind = ''table'' then scan_table table_name h content st else if kind = ''chain'' then scan_chain table_name h content st
     else scan_rule causal rules table_name h content st)"
proof -
  have "filter (\<lambda>(k, _). k \<noteq> ustr ''handle'') ps = ps" using assms(3) by (auto simp: filter_id_conv image_iff)
  then show ?thesis using assms(1,2)
    by (simp add: scan_row_def listed_def obj_def nfail_def NetworkReplay.dict_get_def nullable_def uint_def handle_ok_def)
qed

lemma scan_frame:
  assumes "handle_ok th" "handle_ok h1" "handle_ok h2" "handle_ok h3"
  shows "\<exists>st. scan_rows causal rules table_name
      (zip [''table'', ''chain'', ''chain'', ''chain''] [listed ''table'' th (table_content table_name), listed ''chain'' h1 (chain_content table_name (ustr ''input'')),
        listed ''chain'' h2 (chain_content table_name (ustr ''output'')), listed ''chain'' h3 (chain_content table_name (ustr ''forward''))])
      \<lparr>sc_table_handle = 0, sc_chain_handles = [], sc_rule_handles = [], sc_counters = [], sc_normalized = []\<rparr> = Inr st \<and>
    sc_table_handle st = th \<and> sc_chain_handles st = zip (map ustr CHAINS) [h1, h2, h3] \<and> sc_rule_handles st = [] \<and> sc_counters st = [] \<and>
    sc_normalized st = obj [(''table'', table_content table_name)] # map (\<lambda>chain. obj [(''chain'', chain_content table_name (ustr chain))]) CHAINS"
proof -
  have table: "scan_row causal rules table_name ''table'' (listed ''table'' th (table_content table_name)) st =
      Inr (st\<lparr>sc_table_handle := th, sc_normalized := sc_normalized st @ [obj [(''table'', table_content table_name)]]\<rparr>)" for st
    using frame_content(1) [of table_name] assms(1) by (auto simp: scan_listed scan_table_def nfail_def)
  have chain: "scan_row causal rules table_name ''chain'' (listed ''chain'' h (chain_content table_name (ustr chain))) st =
      Inr (st\<lparr>sc_chain_handles := sc_chain_handles st @ [(ustr chain, h)], sc_normalized := sc_normalized st @ [obj [(''chain'', chain_content table_name (ustr chain))]]\<rparr>)"
    if "handle_ok h" "chain \<in> set CHAINS" "ustr chain \<notin> set (map fst (sc_chain_handles st))" for h chain st
  proof -
    have "keys_ok (chain_content table_name (ustr chain)) [''family'', ''table'', ''name'', ''type'', ''hook'', ''prio'', ''policy''] []"
        "jget (chain_content table_name (ustr chain)) ''name'' = Inr (jstr chain)"
      by (simp_all add: chain_content_def obj_def keys_ok_def jkey_def)
    with that frame_content(2) [of table_name "ustr chain"] show ?thesis by (auto simp: scan_listed scan_chain_def nfail_def)
  qed
  show ?thesis using assms by (simp add: table chain CHAINS_def)
qed

lemma scan_rows_append:
  "scan_rows causal rules table_name (xs @ ys) st = rbind (scan_rows causal rules table_name xs st) (scan_rows causal rules table_name ys)"
  by (induction xs arbitrary: st) (auto simp: rbind_def split: sum.split)

lemma row_order_listed: "row_order (rules_of True host_if) = [''table'', ''chain'', ''chain'', ''chain''] @ replicate (length (rule_order True)) ''rule''"
  by (simp add: row_order_def chain_order_eq map_replicate_const)

lemma inventory_listed:
  assumes "sc_chain_handles st = zip (map ustr CHAINS) [h1, h2, h3]" "sc_rule_handles st = handles_listed (rule_order True) metrics"
    "sc_counters st = counters_listed (rule_order True) metrics" "length metrics = length (rule_order True)" "distinct ([h1, h2, h3] @ map fst metrics)"
  shows "inventory_ok True (rules_of True host_if) st"
proof -
  have "map (snd \<circ> snd) (handles_listed ks ms) = map fst ms" "map handle_key (handles_listed ks ms) = map key_of ks"
      "map nc_sensor (counters_listed ks ms) = map (\<lambda>(chain, ordinal). ustr (NFT_SENSOR_NAMES chain ! ordinal)) ks" if "length ks = length ms" for ks ms
    using that by (induction ks ms rule: list_induct2) (auto simp: handles_listed_def counters_listed_def handle_key_def key_of_def counted_def)
  note l = this [OF assms(4) [symmetric]]
  have ruled: "set (map (snd \<circ> snd) (sc_rule_handles st)) = set (map fst metrics)" using l(1) assms(2) by simp
  have chains: "map snd (sc_chain_handles st) = [h1, h2, h3]" "map fst (sc_chain_handles st) = map ustr CHAINS" by (simp_all add: assms(1) CHAINS_def)
  have counts: "card (set [h1, h2, h3]) = 3" "card (set (map fst metrics)) = length (rule_order True)"
      "card (set [h1, h2, h3] \<union> set (map fst metrics)) = 3 + length (rule_order True)"
    using assms(4,5) distinct_card [of "[h1, h2, h3]"] distinct_card [of "map fst metrics"] distinct_card [OF assms(5)] by (simp_all only: distinct_append set_append length_append) simp_all
  have ordinals: "rule_ordinal st chain = ordinal_in chain (rule_order True)" for chain using l(2) assms(2) by (intro rule_ordinal_taken) simp
  have "map nc_sensor (sc_counters st) = map ustr (concat (map NFT_SENSOR_NAMES CHAINS))"
    using l(3) assms(3) by (simp add: rule_order_expand NFT_SENSOR_NAMES_def CHAINS_def)
  moreover have "list_all (\<lambda>chain. rule_ordinal st chain = length (rules_of True host_if chain)) CHAINS"
    by (simp add: ordinals CHAINS_def rule_counts rule_order_expand ordinal_in_def)
  ultimately show ?thesis unfolding inventory_ok_def Let_def ruled chains chain_order_eq length_map using counts by simp
qed

lemma listing_accepted:
  assumes "load raw = Inr (listing table_name host_if th (h1, h2, h3) metrics)" "length metrics = length (rule_order True)"
    "handle_ok th" "list_all handle_ok [h1, h2, h3]" "\<forall>m\<in>set metrics. metric_ok m" "distinct ([h1, h2, h3] @ map fst metrics)"
  shows "\<exists>s. parse_nft_snapshot load raw table_name host_if True = Inr s \<and>
    nft_identity s = \<lparr>nk_table_handle = th, nk_chain_handles = zip (map ustr CHAINS) [h1, h2, h3], nk_rule_handles = handles_listed (rule_order True) metrics\<rparr> \<and>
    nft_counters s = counters_listed (rule_order True) metrics \<and> nft_content s = pinned_content table_name host_if"
proof -
  define ruled where "ruled = map2 (rule_listed table_name host_if) (rule_order True) metrics"
  define frame where "frame = [listed ''table'' th (table_content table_name), listed ''chain'' h1 (chain_content table_name (ustr ''input'')),
        listed ''chain'' h2 (chain_content table_name (ustr ''output'')), listed ''chain'' h3 (chain_content table_name (ustr ''forward''))]"
  let ?kinds = "[''table'', ''chain'', ''chain'', ''chain'']" and ?rules = "rules_of True host_if"
  let ?init = "\<lparr>sc_table_handle = 0, sc_chain_handles = [], sc_rule_handles = [], sc_counters = [], sc_normalized = []\<rparr>"
  have len: "length ruled = length (rule_order True)" "length frame = length ?kinds" using assms(2) by (simp_all add: ruled_def frame_def)
  obtain st where st: "scan_rows True ?rules table_name (zip ?kinds frame) ?init = Inr st" "sc_table_handle st = th"
      "sc_chain_handles st = zip (map ustr CHAINS) [h1, h2, h3]" "sc_rule_handles st = []" "sc_counters st = []"
      "sc_normalized st = obj [(''table'', table_content table_name)] # map (\<lambda>chain. obj [(''chain'', chain_content table_name (ustr chain))]) CHAINS"
    using scan_frame [of th h1 h2 h3 True ?rules table_name] assms(3,4) unfolding frame_def by auto
  have "ustr ` set CHAINS \<subseteq> set (map fst (sc_chain_handles st))" by (simp add: st(3) CHAINS_def)
  then obtain st' where st': "scan_rows True ?rules table_name (map (Pair ''rule'') ruled) st = Inr st'"
      "sc_rule_handles st' = handles_listed (rule_order True) metrics" "sc_counters st' = counters_listed (rule_order True) metrics"
      "sc_chain_handles st' = sc_chain_handles st" "sc_table_handle st' = th"
      "sc_normalized st' = sc_normalized st @ rules_content table_name host_if (rule_order True)"
    using scan_rules_listed [of metrics st host_if table_name] assms(2,5) st unfolding ruled_def by (auto simp del: map_map)
  have "zip (row_order ?rules) (frame @ ruled) = zip ?kinds frame @ map (Pair ''rule'') ruled"
    unfolding row_order_listed len(1) [symmetric] using len(2) by (simp only: zip_append zip_replicate1 take_all order_refl)
  then have scan: "scan_rows True ?rules table_name (zip (row_order ?rules) (frame @ ruled)) ?init = Inr st'"
    by (simp only: scan_rows_append st(1) rbind_Inr_left st'(1))
  have ok: "inventory_ok True ?rules st'" using inventory_listed [OF _ st'(2,3) assms(2,6)] st'(4) st(3) by simp
  have size: "length (frame @ ruled) = length (row_order ?rules)" by (simp add: row_order_listed len)
  let ?info = "obj [(''json_schema_version'', JInt 1)]"
  let ?meta = "obj [(''metainfo'', ?info)]" and ?v = "obj [(''nftables'', JArr (obj [(''metainfo'', ?info)] # frame @ ruled))]"
  have listing: "load raw = Inr ?v" using assms(1) by (simp add: listing_def frame_def ruled_def)
  have keys: "keys_ok ?v [''nftables''] []" "jget ?v ''nftables'' = Inr (JArr (?meta # frame @ ruled))" "keys_ok ?meta [''metainfo''] []"
      "jget ?meta ''metainfo'' = Inr ?info" "keys_ok ?info [''json_schema_version''] [''release_name'', ''version'']"
      "fields_are ?info [(''json_schema_version'', JInt 1)] = Inr True"
    by (simp_all add: obj_def keys_ok_def jkey_def)
  show ?thesis
    unfolding parse_nft_snapshot_def Let_def listing rbind_Inr_left keys json.case list.case
    using size scan ok st'(2-6) st(3,6) by (simp add: pinned_content_def nfail_def require_def rules_of_def keys(1,3,5))
qed

text \<open>C39. The pinned firewall is accepted with any handles between 1 and \<open>2 ^ 31 - 1\<close>, distinct for the chains and rules, and any
  counts of 64 bits: the handles and the counts of the snapshot are those listed, and its content is the policy whatever they are.\<close>

theorem firewall_reads_back:
  assumes "load raw = Inr (listing table_name host_if th (h1, h2, h3) metrics)" "length metrics = length (rule_order True)"
    "handle_ok th" "list_all handle_ok [h1, h2, h3]" "\<forall>m\<in>set metrics. metric_ok m" "distinct ([h1, h2, h3] @ map fst metrics)"
  shows "\<exists>s. parse_nft_snapshot load raw table_name host_if True = Inr s \<and>
    nft_identity s = \<lparr>nk_table_handle = th, nk_chain_handles = zip (map ustr CHAINS) [h1, h2, h3], nk_rule_handles = handles_listed (rule_order True) metrics\<rparr> \<and>
    nft_counters s = counters_listed (rule_order True) metrics \<and> nft_content s = pinned_content table_name host_if"
  using assms by (rule listing_accepted [where load = load and raw = raw])

section \<open>Causal proofs over accepted firewalls\<close>

lemma sensor_delta_iff:
  assumes "counter_map s = Inr f" "counter_map t = Inr g" "name \<in> set (POSITIVE_SENSORS @ MONOTONIC_SENSORS @ ZERO_SENSORS)"
  shows "(\<exists>delta. sensor_delta f g name = Inr delta) \<longleftrightarrow>
    (\<exists>l\<in>set (nft_counters (cs_nft s)). \<exists>r\<in>set (nft_counters (cs_nft t)). advanced name l r)"
proof
  assume "\<exists>l\<in>set (nft_counters (cs_nft s)). \<exists>r\<in>set (nft_counters (cs_nft t)). advanced name l r"
  then obtain l r where "l \<in> set (nft_counters (cs_nft s))" "r \<in> set (nft_counters (cs_nft t))" and a: "advanced name l r" by blast
  with counter_map_Inr(2) [OF assms(1)] counter_map_Inr(2) [OF assms(2)] have "f (ustr name) = Some l" "g (ustr name) = Some r"
    by (auto simp: advanced_def)
  with a assms(3) show "\<exists>delta. sensor_delta f g name = Inr delta" by (auto simp: sensor_delta_def advanced_def Let_def)
qed (use sensor_delta_Inr [OF assms(1,2)] in blast)

lemma map_result_ex: "(\<exists>ys. map_result f xs = Inr ys) \<longleftrightarrow> (\<forall>x\<in>set xs. \<exists>y. f x = Inr y)"
  by (induction xs) auto

lemma sensor_names_inventory:
  "distinct (concat (map NFT_SENSOR_NAMES CHAINS))" "set (concat (map NFT_SENSOR_NAMES CHAINS)) = set (POSITIVE_SENSORS @ MONOTONIC_SENSORS @ ZERO_SENSORS)"
  by (auto simp: NFT_SENSOR_NAMES_def CHAINS_def POSITIVE_SENSORS_def MONOTONIC_SENSORS_def ZERO_SENSORS_def)

lemma accepted_inventory:
  assumes "parse_nft_snapshot load raw table_name host_if True = Inr (cs_nft s)"
  shows "\<exists>f. counter_map s = Inr f"
proof -
  obtain st where "inventory_ok True (rules_of True host_if) st" "nft_counters (cs_nft s) = sc_counters st"
    using parse_nft_snapshot_Inr [OF assms] by (metis nft_snapshot.select_convs(3))
  then have "map nc_sensor (nft_counters (cs_nft s)) = map ustr (concat (map NFT_SENSOR_NAMES CHAINS))" by (simp add: inventory_ok_def Let_def)
  then show ?thesis using sensor_names_inventory unfolding counter_map_def Let_def nfail_def
    by (simp add: distinct_map inj_on_def image_Un del: set_concat)
qed

text \<open>C40. For two accepted firewalls a causal proof exists exactly when they are observations of one operation, before and after and not the
  same, with equal content and identity, the digest of the guest's route is well formed, and the counter of every sensor went on as its kind
  requires: the inventory of the sensors never fails.\<close>

theorem causal_proof_iff:
  assumes "parse_nft_snapshot load before_raw table_name host_if True = Inr (cs_nft first_sensor)"
    "parse_nft_snapshot load after_raw table_name host_if True = Inr (cs_nft second_sensor)"
  shows "(\<exists>p. prove_causal_values H dumps first_sensor second_sensor GUEST_MARKERS route route = Inr p) \<longleftrightarrow>
    cs_stage first_sensor = ustr ''before'' \<and> cs_stage second_sensor = ustr ''after'' \<and>
    cs_operation_token first_sensor = cs_operation_token second_sensor \<and> cs_observation_sha256 first_sensor \<noteq> cs_observation_sha256 second_sensor \<and>
    nft_same (cs_nft first_sensor) (cs_nft second_sensor) \<and>
    sensor_static_sha256 H dumps (cs_nft first_sensor) = sensor_static_sha256 H dumps (cs_nft second_sensor) \<and> digest_text route \<and>
    (\<forall>name\<in>set (POSITIVE_SENSORS @ MONOTONIC_SENSORS @ ZERO_SENSORS).
       \<exists>l\<in>set (nft_counters (cs_nft first_sensor)). \<exists>r\<in>set (nft_counters (cs_nft second_sensor)). advanced name l r)"
proof -
  obtain f g where maps: "counter_map first_sensor = Inr f" "counter_map second_sensor = Inr g" using accepted_inventory assms by metis
  have "(\<exists>deltas. map_result (sensor_delta f g) (POSITIVE_SENSORS @ MONOTONIC_SENSORS @ ZERO_SENSORS) = Inr deltas) \<longleftrightarrow>
      (\<forall>name\<in>set (POSITIVE_SENSORS @ MONOTONIC_SENSORS @ ZERO_SENSORS).
       \<exists>l\<in>set (nft_counters (cs_nft first_sensor)). \<exists>r\<in>set (nft_counters (cs_nft second_sensor)). advanced name l r)"
    unfolding map_result_ex using sensor_delta_iff [OF maps] by (intro ball_cong refl)
  then show ?thesis unfolding prove_causal_values_def maps rbind_Inr_left Let_def nfail_Inr rbind_Inr by blast
qed

section \<open>What a counter hides\<close>

text \<open>An expression that has a counter and other members is read as the counter alone, so the other members are not compared with the policy.\<close>

lemma counter_hides_members:
  "take_counter [obj [(''counter'', obj [(''packets'', JInt 0), (''bytes'', JInt 0)]), (''accept'', JNull)]] = Inr ([nft_counter_expr], 0, 0)"
  by (simp add: take_counter_def has_counter_def obj_def jkey_def keys_ok_def counter_uint_def nfail_def)

section \<open>A sample firewall\<close>

definition sample_metrics :: "int \<Rightarrow> (int \<times> int \<times> int) list" where
  "sample_metrics n = map2 (\<lambda>handle name. (handle, if name \<in> set ZERO_SENSORS then (0, 0) else (n, 60 * n))) [11, 12, 13, 14, 15, 16, 17, 18, 19, 20]
     (concat (map NFT_SENSOR_NAMES CHAINS))"

lemma sample_metrics_expand: "sample_metrics n = [(11, n, 60 * n), (12, n, 60 * n), (13, n, 60 * n), (14, 0, 0), (15, n, 60 * n), (16, n, 60 * n),
    (17, n, 60 * n), (18, n, 60 * n), (19, 0, 0), (20, 0, 0)]"
  by (simp add: sample_metrics_def CHAINS_def NFT_SENSOR_NAMES_def ZERO_SENSORS_def)

definition sample_listing :: "bytes \<Rightarrow> json result" where
  "sample_listing raw = Inr (listing (ustr TABLE) (ustr HOST_IF) 1 (2, 3, 4) (sample_metrics (if raw = [] then 1 else 3)))"

lemma sample_listing_ok:
  "sample_listing raw = Inr (listing (ustr TABLE) (ustr HOST_IF) 1 (2, 3, 4) (sample_metrics (if raw = [] then 1 else 3)))"
  "length (sample_metrics n) = length (rule_order True)" "handle_ok 1" "list_all handle_ok [2, 3, 4]"
  "0 \<le> n \<Longrightarrow> n < 1000 \<Longrightarrow> \<forall>m\<in>set (sample_metrics n). metric_ok m" "distinct ([2, 3, 4] @ map fst (sample_metrics n))"
  by (simp_all add: sample_listing_def sample_metrics_expand rule_order_expand handle_ok_def metric_ok_def)

theorem firewall_reads_back_witness:
  "\<exists>s. parse_nft_snapshot sample_listing [] (ustr TABLE) (ustr HOST_IF) True = Inr s \<and> nft_counters s = counters_listed (rule_order True) (sample_metrics 1)"
  using firewall_reads_back [of sample_listing "[]", OF sample_listing_ok(1) sample_listing_ok(2-4) sample_listing_ok(5) sample_listing_ok(6)] by auto

lemma sample_firewall:
  "\<exists>s. parse_nft_snapshot sample_listing raw (ustr TABLE) (ustr HOST_IF) True = Inr s \<and>
     nft_identity s = \<lparr>nk_table_handle = 1, nk_chain_handles = zip (map ustr CHAINS) [2, 3, 4], nk_rule_handles = handles_listed (rule_order True) (sample_metrics 1)\<rparr> \<and>
     nft_counters s = counters_listed (rule_order True) (sample_metrics (if raw = [] then 1 else 3)) \<and> nft_content s = pinned_content (ustr TABLE) (ustr HOST_IF)"
proof -
  have "handles_listed (rule_order True) (sample_metrics n) = handles_listed (rule_order True) (sample_metrics 1)" for n
    by (simp add: sample_metrics_expand handles_listed_def rule_order_expand)
  then show ?thesis
    using listing_accepted [of sample_listing raw, OF sample_listing_ok(1) sample_listing_ok(2-4) sample_listing_ok(5) sample_listing_ok(6)] by auto
qed

lemma sample_counters: "counters_listed (rule_order True) (sample_metrics n) =
    [counted ''input'' 0 11 n (60 * n), counted ''input'' 1 12 n (60 * n), counted ''input'' 2 13 n (60 * n), counted ''input'' 3 14 0 0,
     counted ''output'' 0 15 n (60 * n), counted ''output'' 1 16 n (60 * n), counted ''forward'' 0 17 n (60 * n), counted ''forward'' 1 18 n (60 * n),
     counted ''forward'' 2 19 0 0, counted ''forward'' 3 20 0 0]"
  by (simp add: counters_listed_def sample_metrics_expand rule_order_expand)

lemma sample_advanced:
  assumes "name \<in> set (POSITIVE_SENSORS @ MONOTONIC_SENSORS @ ZERO_SENSORS)"
  shows "\<exists>l\<in>set (counters_listed (rule_order True) (sample_metrics 1)). \<exists>r\<in>set (counters_listed (rule_order True) (sample_metrics 3)). advanced name l r"
  using assms unfolding set_append POSITIVE_SENSORS_def MONOTONIC_SENSORS_def ZERO_SENSORS_def Un_iff list.set insert_iff empty_iff
  by (elim disjE FalseE) (simp_all add: sample_counters advanced_def counted_def NFT_SENSOR_NAMES_def POSITIVE_SENSORS_def ZERO_SENSORS_def)

theorem causal_proof_iff_witness:
  "\<exists>b a p. parse_nft_snapshot sample_listing [] (ustr TABLE) (ustr HOST_IF) True = Inr (cs_nft b) \<and>
     parse_nft_snapshot sample_listing [0] (ustr TABLE) (ustr HOST_IF) True = Inr (cs_nft a) \<and>
     prove_causal_values (\<lambda>_. []) (\<lambda>_. []) b a GUEST_MARKERS (replicate 64 97) (replicate 64 97) = Inr p"
proof -
  obtain s t where st: "parse_nft_snapshot sample_listing [] (ustr TABLE) (ustr HOST_IF) True = Inr s" "nft_counters s = counters_listed (rule_order True) (sample_metrics 1)"
      "parse_nft_snapshot sample_listing [0] (ustr TABLE) (ustr HOST_IF) True = Inr t" "nft_counters t = counters_listed (rule_order True) (sample_metrics 3)"
    and same: "nft_content s = nft_content t" "nft_identity s = nft_identity t"
    using sample_firewall [of "[]"] sample_firewall [of "[0]"] by auto
  let ?b = "(sample_sensor ''before'' 97 1)\<lparr>cs_nft := s\<rparr>" and ?a = "(sample_sensor ''after'' 98 1)\<lparr>cs_nft := t\<rparr>"
  have "digest_text (replicate 64 97)" by (simp add: digest_text_def ustr_def)
  moreover have "cs_stage ?b = ustr ''before''" "cs_stage ?a = ustr ''after''" "cs_operation_token ?b = cs_operation_token ?a" "cs_observation_sha256 ?b \<noteq> cs_observation_sha256 ?a"
    by (simp_all add: sample_sensor_def)
  moreover have "nft_same s t" "sensor_static_sha256 (\<lambda>_. []) (\<lambda>_. []) s = sensor_static_sha256 (\<lambda>_. []) (\<lambda>_. []) t"
    using same by (simp_all add: nft_same_def sensor_static_sha256_def)
  moreover have parsed: "parse_nft_snapshot sample_listing [] (ustr TABLE) (ustr HOST_IF) True = Inr (cs_nft ?b)"
      "parse_nft_snapshot sample_listing [0] (ustr TABLE) (ustr HOST_IF) True = Inr (cs_nft ?a)" using st(1,3) by simp_all
  ultimately have "\<exists>p. prove_causal_values (\<lambda>_. []) (\<lambda>_. []) ?b ?a GUEST_MARKERS (replicate 64 97) (replicate 64 97) = Inr p"
    using sample_advanced by (subst causal_proof_iff [OF parsed]) (simp add: st(2,4))
  with parsed show ?thesis by blast
qed

end
