(* ===== verification/FirewallListing.thy ===== *)
theory FirewallListing
  imports FirewallSafety
begin

text \<open>
  What the listing of an accepted firewall says, row by row as it was read and before anything is normalised: the table, the
  three chains and the rules of the policy in their order, with their expressions and counters. An expression with a counter
  is compared by its counter alone, as the sources do.
\<close>

section \<open>Expressions\<close>

definition CT_STATE :: json where
  "CT_STATE = obj [(''ct'', obj [(''key'', jstr ''state'')])]"

text \<open>The states that the right side of a match lists: one state, a list or a set of them.\<close>

definition right_states :: "json \<Rightarrow> json list" where
  "right_states v = (case jget v ''set'' of Inr (JArr vs) \<Rightarrow> vs | _ \<Rightarrow> (case v of JArr vs \<Rightarrow> vs | _ \<Rightarrow> [v]))"

text \<open>An expression that says what the pinned one says: it is the same value, or it matches the connection state and is the same
  value once its states are written as the set of the policy, in whatever notation and order they are listed.\<close>

definition same_expression :: "json \<Rightarrow> json \<Rightarrow> bool" where
  "same_expression given pinned \<longleftrightarrow> json_same given pinned \<or>
     (\<exists>ps m left right states. given = JObj ps \<and> map_of ps (ustr ''match'') = Some m \<and> jget m ''left'' = Inr left \<and> json_same left CT_STATE \<and>
        jget m ''right'' = Inr right \<and> mset (right_states right) = mset (map JStr states) \<and>
        json_same (set_member ''match'' (set_member ''right'' (obj [(''set'', JArr (map JStr states))]) m) given) pinned)"

definition metric_shown :: "json \<Rightarrow> int \<Rightarrow> int \<Rightarrow> bool" where
  "metric_shown e packets byte_count \<longleftrightarrow> (\<exists>m. jget e ''counter'' = Inr m \<and> keys_ok m [''packets'', ''bytes''] [] \<and>
     jget m ''packets'' = Inr (JInt packets) \<and> jget m ''bytes'' = Inr (JInt byte_count) \<and>
     0 \<le> packets \<and> packets < 2 ^ 64 \<and> 0 \<le> byte_count \<and> byte_count < 2 ^ 64)"

definition expression_admitted :: "bool \<Rightarrow> json \<Rightarrow> json \<Rightarrow> bool" where
  "expression_admitted causal given pinned \<longleftrightarrow>
     (if causal \<and> has_counter given then json_same nft_counter_expr pinned \<and> (\<exists>packets byte_count. metric_shown given packets byte_count)
      else same_expression given pinned)"

lemma sorted_texts_mset: "sorted_texts vs = Some ss \<Longrightarrow> mset (map JStr ss) = mset vs"
proof (induction vs arbitrary: ss)
  case (Cons v vs)
  then obtain s rest where "v = JStr s" "sorted_texts vs = Some rest" "ss = insort s rest"
    by (cases v) (auto split: option.splits)
  with Cons.IH show ?case by simp
qed simp

lemma pair_case: "\<nexists>a b. v = JArr [a, b] \<Longrightarrow> (case v of JArr [a, b] \<Rightarrow> f a b | _ \<Rightarrow> d) = d"
  by (auto split: json.splits list.splits)

lemma state_set_states:
  assumes "state_set right = Inr w"
  shows "\<exists>states. w = obj [(''set'', JArr (map JStr states))] \<and> mset (right_states right) = mset (map JStr states)"
proof -
  define checked where "checked = (\<lambda>states. (case states of
      JArr (v # vs) \<Rightarrow> (case sorted_texts (v # vs) of
         Some ss \<Rightarrow> Inr (JObj [(ustr ''set'', JArr (map JStr ss))])
       | None \<Rightarrow> Inl (NetworkError ''nft set expression''))
    | _ \<Rightarrow> Inl (NetworkError ''nft set expression'')))"
  define shaped where "shaped = nfail (keys_ok right [''set''] []) ''nft state-set shape'' (rbind (jget right ''set'') checked)"
  have shown: "\<exists>vs ss. states = JArr vs \<and> w = obj [(''set'', JArr (map JStr ss))] \<and> mset vs = mset (map JStr ss)" if checks: "checked states = Inr w" for states
  proof -
    obtain v vs ss where "states = JArr (v # vs)" "sorted_texts (v # vs) = Some ss" "w = JObj [(ustr ''set'', JArr (map JStr ss))]"
      using checks unfolding checked_def by (auto simp del: sorted_texts.simps split: json.split_asm list.split_asm option.split_asm)
    then show ?thesis using sorted_texts_mset [of "v # vs" ss] by (intro exI [of _ "v # vs"] exI [of _ ss]) (simp add: obj_def del: sorted_texts.simps)
  qed
  have set: "state_set right = (if right = jstr ''established'' then checked (JArr [right]) else (case right of
      JArr [a, b] \<Rightarrow> require (hashable a \<and> hashable b) (PyTypeError ''unhashable type'')
        (if {a, b} = {jstr ''established'', jstr ''new''} then checked right else shaped)
    | _ \<Rightarrow> shaped))"
    unfolding state_set_def Let_def checked_def shaped_def ..
  consider "right = jstr ''established''" "checked (JArr [right]) = Inr w" | a b where "right = JArr [a, b]" "checked right = Inr w" | "shaped = Inr w"
  proof (cases "\<exists>a b. right = JArr [a, b]")
    case True
    then show thesis using assms that unfolding set by (auto split: if_split_asm)
  next
    case False
    then show thesis using assms that unfolding set pair_case [OF False] by (auto split: if_split_asm)
  qed
  then show ?thesis
  proof cases
    case 1
    then show ?thesis using shown [OF 1(2)] by (auto simp: right_states_def jkey_def)
  next
    case 2
    then show ?thesis using shown [OF 2(2)] by (auto simp: right_states_def jkey_def)
  next
    case 3
    then obtain states where "jget right ''set'' = Inr states" "checked states = Inr w" by (auto simp: shaped_def)
    then show ?thesis using shown [of states] by (auto simp: right_states_def)
  qed
qed

lemma normalize_same:
  assumes "normalize_expression e = Inr e'" "json_same e' pinned"
  shows "same_expression e pinned"
proof (cases "e' = e")
  case False
  then obtain ps m left right states where e: "e = JObj ps" "m = nullable (map_of ps (ustr ''match''))" "truthy m"
    and sides: "NetworkReplay.dict_get m ''left'' = Inr left" "json_same left CT_STATE" "NetworkReplay.dict_get m ''right'' = Inr right"
    and states: "state_set right = Inr states" "e' = set_member ''match'' (set_member ''right'' states m) e"
    using assms(1) by (auto simp: normalize_expression_def Let_def CT_STATE_def split: json.split_asm if_split_asm)
  have m: "map_of ps (ustr ''match'') = Some m" using e by (cases "map_of ps (ustr ''match'')") (auto simp: nullable_def)
  have null: "\<not> json_same JNull CT_STATE" "\<nexists>w. state_set JNull = Inr w"
    by (simp_all add: json_same_def CT_STATE_def obj_def state_set_def Let_def keys_ok_def)
  have "jget m ''left'' = Inr left" "jget m ''right'' = Inr right"
    using sides states(1) null by (auto simp: NetworkReplay.dict_get_def nullable_def jkey_def split: json.split_asm option.splits)
  moreover obtain names where "states = obj [(''set'', JArr (map JStr names))]" "mset (right_states right) = mset (map JStr names)"
    using state_set_states [OF states(1)] by blast
  ultimately show ?thesis using assms(2) e m sides(2) states(2) unfolding same_expression_def by blast
qed (use assms in \<open>simp add: same_expression_def\<close>)

lemma set_member_keys: "map fst (map (\<lambda>(k, w). if k = key then (k, v) else (k, w)) ps) = map fst ps"
  by (induction ps) auto

lemma map_of_set_member: "k \<noteq> key \<Longrightarrow> map_of (map (\<lambda>(k, w). if k = key then (k, v) else (k, w)) ps) k = map_of ps k"
  by (induction ps) auto

lemma normalize_keeps_counter:
  assumes "normalize_expression e = Inr e'"
  shows "has_counter e' = has_counter e \<and> jget e' ''counter'' = jget e ''counter''"
proof (cases "e' = e")
  case False
  then obtain ps w where "e = JObj ps" "e' = set_member ''match'' w e"
    using assms by (auto simp: normalize_expression_def Let_def split: json.split_asm if_split_asm)
  then show ?thesis
    using set_member_keys [of "ustr ''match''" w ps] map_of_set_member [of "ustr ''counter''" "ustr ''match''" w ps]
    by (simp add: set_member_def has_counter_def jkey_def del: list.map_comp)
qed simp

lemma json_same_list: "json_same (JArr xs) (JArr ys) \<longleftrightarrow> list_all2 json_same xs ys"
proof -
  have "map f xs = map f ys \<longleftrightarrow> list_all2 (\<lambda>x y. f x = f y) xs ys" for f :: "json \<Rightarrow> json"
    by (simp add: list.rel_map flip: list.rel_eq)
  from this [of "\<lambda>x. sort_keys (numbers x)"] show ?thesis by (simp add: json_same_def [abs_def] comp_def)
qed

lemma filter_all2: "list_all2 P xs ys \<Longrightarrow> (\<And>x y. P x y \<Longrightarrow> Q y = Q x) \<Longrightarrow> list_all2 P (filter Q xs) (filter Q ys)"
  by (induction rule: list_all2_induct) auto

lemma all2_compose: "list_all2 P xs ys \<Longrightarrow> list_all2 Q ys zs \<Longrightarrow> list_all2 (\<lambda>x z. \<exists>y. P x y \<and> Q y z) xs zs"
  by (rule list_all2_trans) auto

section \<open>Rows\<close>

text \<open>A row of a kind with its handle and the rest of its members.\<close>

definition row_parts :: "string \<Rightarrow> json \<Rightarrow> int \<Rightarrow> json \<Rightarrow> bool" where
  "row_parts kind row handle content \<longleftrightarrow> (\<exists>members. row = JObj [(ustr kind, JObj members)] \<and>
     map_of members (ustr ''handle'') = Some (JInt handle) \<and> handle_ok handle \<and>
     content = JObj (filter (\<lambda>(k, _). k \<noteq> ustr ''handle'') members))"

definition rule_admitted :: "bool \<Rightarrow> rules \<Rightarrow> pystr \<Rightarrow> string \<times> nat \<Rightarrow> json \<Rightarrow> bool" where
  "rule_admitted causal rules table_name = (\<lambda>(chain, ordinal) content.
     keys_ok content [''family'', ''table'', ''chain'', ''expr''] [] \<and>
     fields_are content [(''family'', jstr ''inet''), (''table'', JStr table_name), (''chain'', jstr chain)] = Inr True \<and>
     (\<exists>es. jget content ''expr'' = Inr (JArr es) \<and> list_all2 (expression_admitted causal) es (rules chain ! ordinal)))"

text \<open>A rule as it is kept, with the handle and the counts taken out.\<close>

definition pinned_rule :: "rules \<Rightarrow> pystr \<Rightarrow> string \<times> nat \<Rightarrow> json \<Rightarrow> bool" where
  "pinned_rule rules table_name = (\<lambda>(chain, ordinal) row. \<exists>body expr. row = obj [(''rule'', body)] \<and>
     fields_are body [(''family'', jstr ''inet''), (''table'', JStr table_name), (''chain'', jstr chain)] = Inr True \<and>
     jget body ''expr'' = Inr (JArr expr) \<and> json_same (JArr expr) (JArr (rules chain ! ordinal)))"

lemma jkey_set_member:
  assumes "keys_ok c needed optional" "key \<in> set needed"
  shows "jkey (set_member key v c) (ustr key) = Inr v" "k \<noteq> ustr key \<Longrightarrow> jkey (set_member key v c) k = jkey c k"
proof -
  obtain ps where c: "c = JObj ps" "map_of ps (ustr key) \<noteq> None"
    using assms by (cases c) (auto simp: keys_ok_def map_of_eq_None_iff)
  have "map_of (map (\<lambda>(k, w). if k = ustr key then (k, v) else (k, w)) qs) k' =
      (if k' = ustr key then if map_of qs k' \<noteq> None then Some v else None else map_of qs k')" for qs :: "(pystr \<times> json) list" and k'
    by (induction qs) auto
  with c show "jkey (set_member key v c) (ustr key) = Inr v" "k \<noteq> ustr key \<Longrightarrow> jkey (set_member key v c) k = jkey c k"
    by (simp_all add: set_member_def jkey_def)
qed

lemma rule_body_pinned:
  assumes "keys_ok content [''family'', ''table'', ''chain'', ''expr''] []"
    "fields_are content [(''family'', jstr ''inet''), (''table'', JStr table_name), (''chain'', jstr chain)] = Inr True"
    "json_same (JArr expr) (JArr (rules chain ! ordinal))"
  shows "pinned_rule rules table_name (chain, ordinal) (obj [(''rule'', set_member ''expr'' (JArr expr) content)])"
proof -
  let ?body = "set_member ''expr'' (JArr expr) content"
  have m: "jget ?body ''expr'' = Inr (JArr expr)" "jget ?body ''family'' = jget content ''family''" "jget ?body ''table'' = jget content ''table''"
      "jget ?body ''chain'' = jget content ''chain''"
    using jkey_set_member [OF assms(1), of "''expr''"] by simp_all
  have "fields_are ?body [(''family'', jstr ''inet''), (''table'', JStr table_name), (''chain'', jstr chain)] = Inr True"
    using assms(2) unfolding fields_are.simps m .
  with m(1) assms(3) show ?thesis unfolding pinned_rule_def by blast
qed

text \<open>The rows of a listing.\<close>

datatype nft_item = TableItem | ChainItem string | RuleItem "string \<times> nat"

definition listing_items :: "bool \<Rightarrow> nft_item list" where
  "listing_items causal = TableItem # map ChainItem CHAINS @ map RuleItem (rule_order causal)"

fun row_admitted :: "bool \<Rightarrow> rules \<Rightarrow> pystr \<Rightarrow> nft_item \<Rightarrow> int \<Rightarrow> json \<Rightarrow> bool" where
  "row_admitted causal rules table_name TableItem handle row =
     (\<exists>content. row_parts ''table'' row handle content \<and> json_same content (table_content table_name))"
| "row_admitted causal rules table_name (ChainItem chain) handle row =
     (\<exists>content. row_parts ''chain'' row handle content \<and> json_same content (chain_content table_name (ustr chain)))"
| "row_admitted causal rules table_name (RuleItem k) handle row =
     (\<exists>content. row_parts ''rule'' row handle content \<and> rule_admitted causal rules table_name k content)"

text \<open>The same rows as they are kept, with the handles and the counts taken out.\<close>

fun content_pinned :: "rules \<Rightarrow> pystr \<Rightarrow> nft_item \<Rightarrow> json \<Rightarrow> bool" where
  "content_pinned rules table_name TableItem row = (\<exists>content. row = obj [(''table'', content)] \<and> json_same content (table_content table_name))"
| "content_pinned rules table_name (ChainItem chain) row =
     (\<exists>content. row = obj [(''chain'', content)] \<and> json_same content (chain_content table_name (ustr chain)))"
| "content_pinned rules table_name (RuleItem k) row = pinned_rule rules table_name k row"

text \<open>The counter of a rule shows the counts of the one counter of its row.\<close>

definition counter_read :: "string \<times> nat \<Rightarrow> json \<Rightarrow> nft_counter \<Rightarrow> bool" where
  "counter_read = (\<lambda>(chain, ordinal) row counter. \<exists>handle content es e packets byte_count.
     row_parts ''rule'' row handle content \<and> jget content ''expr'' = Inr (JArr es) \<and> filter has_counter es = [e] \<and>
     metric_shown e packets byte_count \<and> counter = counted chain ordinal handle packets byte_count)"

lemma scan_row_parts:
  assumes "scan_row causal rules table_name kind row st = Inr st'"
  obtains handle content where "row_parts kind row handle content"
    "(if kind = ''table'' then scan_table table_name handle content st else if kind = ''chain'' then scan_chain table_name handle content st
      else scan_rule causal rules table_name handle content st) = Inr st'"
proof -
  obtain members handle where row: "row = JObj [(ustr kind, JObj members)]" and h: "rbind (NetworkReplay.dict_get (JObj members) ''handle'') uint = Inr handle"
    and step: "(if kind = ''table'' then scan_table table_name handle (JObj (filter (\<lambda>(k, _). k \<noteq> ustr ''handle'') members)) st
      else if kind = ''chain'' then scan_chain table_name handle (JObj (filter (\<lambda>(k, _). k \<noteq> ustr ''handle'') members)) st
      else scan_rule causal rules table_name handle (JObj (filter (\<lambda>(k, _). k \<noteq> ustr ''handle'') members)) st) = Inr st'"
    using assms unfolding scan_row_def Let_def by (auto split: json.split_asm list.split_asm prod.split_asm)
  have "map_of members (ustr ''handle'') = Some (JInt handle) \<and> handle_ok handle"
    using h by (auto simp: NetworkReplay.dict_get_def nullable_def uint_def handle_ok_def split: option.split_asm json.split_asm)
  with row step show thesis using that unfolding row_parts_def by blast
qed

lemma take_counter_admitted:
  assumes "map_result normalize_expression es = Inr es'" "take_counter es' = Inr (expr, packets, byte_count)"
  shows "\<exists>e. filter has_counter es = [e] \<and> metric_shown e packets byte_count"
    "list_all2 json_same expr pinned \<Longrightarrow> list_all2 (expression_admitted True) es pinned"
proof -
  let ?N = "\<lambda>e e'. normalize_expression e = Inr e'"
  have all: "list_all2 ?N es es'" using assms(1) by (simp add: map_result_all2)
  obtain e' m where e': "filter has_counter es' = [e']" "jget e' ''counter'' = Inr m" "keys_ok m [''packets'', ''bytes''] []"
      "rbind (jget m ''packets'') counter_uint = Inr packets" "rbind (jget m ''bytes'') counter_uint = Inr byte_count"
    and expr: "expr = map (\<lambda>e. if has_counter e then nft_counter_expr else e) es'"
    using assms(2) unfolding take_counter_def by (auto split: list.split_asm)
  have "list_all2 ?N (filter has_counter es) [e']" using filter_all2 [OF all] normalize_keeps_counter e'(1) by metis
  then obtain e where e: "filter has_counter es = [e]" "?N e e'" by (auto simp: list_all2_Cons2)
  have uint: "jget m k = Inr (JInt i) \<and> 0 \<le> i \<and> i < 2 ^ 64" if counted: "rbind (jget m k) counter_uint = Inr i" for k i
  proof -
    obtain x where "jget m k = Inr x" "counter_uint x = Inr i" using counted by auto
    then show ?thesis by (cases x) (auto simp: counter_uint_def)
  qed
  have shown: "metric_shown e packets byte_count"
    using e'(2,3) uint [OF e'(4)] uint [OF e'(5)] normalize_keeps_counter [OF e(2)] unfolding metric_shown_def by auto
  with e show "\<exists>e. filter has_counter es = [e] \<and> metric_shown e packets byte_count" by blast
  assume "list_all2 json_same expr pinned"
  then have "list_all2 (\<lambda>e' p. json_same (if has_counter e' then nft_counter_expr else e') p) es' pinned" by (simp add: expr list.rel_map)
  from all2_compose [OF all this] have "list_all2 (\<lambda>g p. \<exists>g'. ?N g g' \<and> json_same (if has_counter g' then nft_counter_expr else g') p) es pinned" .
  then have admitted: "list_all2 (\<lambda>g p. g \<in> set es \<and> (\<exists>g'. ?N g g' \<and> json_same (if has_counter g' then nft_counter_expr else g') p)) es pinned"
    by (auto simp: list_all2_conv_all_nth)
  have only: "g = e" if "g \<in> set es" "has_counter g" for g
    using arg_cong [OF e(1), of set] that by auto
  show "list_all2 (expression_admitted True) es pinned"
    using admitted
  proof (rule list_all2_mono)
    fix g p
    assume "g \<in> set es \<and> (\<exists>g'. ?N g g' \<and> json_same (if has_counter g' then nft_counter_expr else g') p)"
    then obtain g' where g: "g \<in> set es" "?N g g'" "json_same (if has_counter g' then nft_counter_expr else g') p" by blast
    show "expression_admitted True g p"
    proof (cases "has_counter g")
      case True
      with g normalize_keeps_counter [OF g(2)] only [OF g(1) True] shown show ?thesis unfolding expression_admitted_def by auto
    next
      case False
      with g normalize_keeps_counter [OF g(2)] normalize_same show ?thesis unfolding expression_admitted_def by auto
    qed
  qed
qed

lemma rule_objects:
  assumes "k \<in> set (rule_order causal)"
  shows "\<exists>ps rest. rules_of causal host_if (fst k) ! snd k = JObj ps # rest"
  using assms unfolding rule_order_expand
  by (auto simp: rules_of_def NFT_RULES_def NFT_RULES_LEGACY_def on_interface_def nft_match_def obj_def split: if_split_asm)

lemma iterate_texts: "iterate v = Inr es \<Longrightarrow> v = JArr es \<or> (\<exists>ks. es = map JStr ks)"
proof (cases v)
  case (JObj ps)
  then show "iterate v = Inr es \<Longrightarrow> ?thesis" by (intro disjI2 exI [of _ "map fst ps"]) simp
next
  case (JStr cs)
  then show "iterate v = Inr es \<Longrightarrow> ?thesis" by (intro disjI2 exI [of _ "map (\<lambda>c. [c]) cs"]) (simp add: comp_def)
qed simp_all

lemma texts_normal: "map_result normalize_expression (map JStr ks) = Inr (map JStr ks)"
  by (induction ks) (auto simp: normalize_expression_def)

lemma texts_uncounted: "filter has_counter (map JStr ks) = []"
  by (induction ks) (auto simp: has_counter_def)

lemma expressions_admitted:
  assumes k: "k \<in> set (rule_order causal)"
    and es: "rbind (jget content ''expr'') normalize_nft_expr = Inr es'" "rule_counter causal (fst k) (snd k) handle es' = Inr (expr, counters)"
    and same: "json_same (JArr expr) (JArr (rules_of causal host_if (fst k) ! snd k))"
  obtains es where "jget content ''expr'' = Inr (JArr es)" "list_all2 (expression_admitted causal) es (rules_of causal host_if (fst k) ! snd k)"
    "causal \<Longrightarrow> \<exists>e packets byte_count. filter has_counter es = [e] \<and> metric_shown e packets byte_count \<and> counters = [counted (fst k) (snd k) handle packets byte_count]"
proof -
  let ?pinned = "rules_of causal host_if (fst k) ! snd k"
  obtain v es where v: "jget content ''expr'' = Inr v" "iterate v = Inr es" "map_result normalize_expression es = Inr es'"
    using es(1) by (auto simp: normalize_nft_expr_def)
  have all: "list_all2 json_same expr ?pinned" using same by (simp add: json_same_list)
  have "v = JArr es"
  proof (rule ccontr)
    assume "v \<noteq> JArr es"
    then obtain ks where ks: "es = map JStr ks" using iterate_texts [OF v(2)] by blast
    then have "es' = map JStr ks" using v(3) texts_normal by auto
    then have "\<not> causal \<and> expr = map JStr ks" using es(2) texts_uncounted [of ks] by (auto simp: rule_counter_def take_counter_def split: if_split_asm)
    moreover obtain ps rest where "?pinned = JObj ps # rest" using rule_objects [OF k] by blast
    ultimately have "\<exists>t. json_same (JStr t) (JObj ps)" using all by (cases ks) auto
    then show False by (auto simp: json_same_def)
  qed
  moreover have "list_all2 (expression_admitted causal) es ?pinned"
  proof (cases causal)
    case True
    then obtain packets byte_count where "take_counter es' = Inr (expr, packets, byte_count)" using es(2) by (auto simp: rule_counter_def)
    then show ?thesis using take_counter_admitted(2) [OF v(3)] all True by simp
  next
    case False
    with es(2) have "es' = expr" by (simp add: rule_counter_def)
    then have "list_all2 (\<lambda>g g'. normalize_expression g = Inr g') es expr" using v(3) by (simp add: map_result_all2)
    from all2_compose [OF this all] have "list_all2 (\<lambda>g p. \<exists>g'. normalize_expression g = Inr g' \<and> json_same g' p) es ?pinned" .
    then show ?thesis using False by (elim list_all2_mono) (auto simp: expression_admitted_def intro: normalize_same)
  qed
  moreover have "\<exists>e packets byte_count. filter has_counter es = [e] \<and> metric_shown e packets byte_count \<and>
      counters = [counted (fst k) (snd k) handle packets byte_count]" if causal
    using that es(2) take_counter_admitted(1) [OF v(3)] by (fastforce simp: rule_counter_def)
  ultimately show thesis using that v(1) by blast
qed

section \<open>The scan\<close>

definition rules_read :: "bool \<Rightarrow> rules \<Rightarrow> pystr \<Rightarrow> json list \<Rightarrow> nft_scan \<Rightarrow> nft_scan \<Rightarrow> bool" where
  "rules_read causal rules table_name rows before st \<longleftrightarrow>
     length rows \<le> length (rule_order causal) \<and> map handle_key (sc_rule_handles st) = map key_of (take (length rows) (rule_order causal)) \<and>
     sc_table_handle st = sc_table_handle before \<and> sc_chain_handles st = sc_chain_handles before \<and>
     (\<exists>contents. sc_normalized st = sc_normalized before @ contents \<and> length contents = length rows \<and>
        (\<forall>i<length rows. row_admitted causal rules table_name (RuleItem (rule_order causal ! i)) (snd (snd (sc_rule_handles st ! i))) (rows ! i) \<and>
           content_pinned rules table_name (RuleItem (rule_order causal ! i)) (contents ! i))) \<and>
     (causal \<longrightarrow> length (sc_counters st) = length rows \<and> (\<forall>i<length rows. counter_read (rule_order causal ! i) (rows ! i) (sc_counters st ! i)))"

lemma rule_step_read:
  assumes inv: "rules_read causal (rules_of causal host_if) table_name rows before st"
    and step: "scan_row causal (rules_of causal host_if) table_name ''rule'' row st = Inr st'"
  shows "rules_read causal (rules_of causal host_if) table_name (rows @ [row]) before st'"
proof -
  let ?rules = "rules_of causal host_if" and ?order = "rule_order causal" and ?n = "length rows"
  have keys: "map handle_key (sc_rule_handles st) = map key_of (take ?n ?order)" "?n \<le> length ?order" using inv by (simp_all add: rules_read_def)
  have len: "length (sc_rule_handles st) = ?n" using arg_cong [OF keys(1), of length] keys(2) by simp
  obtain handle content where parts: "row_parts ''rule'' row handle content" and rule: "scan_rule causal ?rules table_name handle content st = Inr st'"
    using scan_row_parts [OF step] by auto
  obtain chain where chain: "chain = chain_order ?rules ! ?n" "?n < length (chain_order ?rules)" using scan_rule_Inr [OF rule] len by metis
  then have n: "?n < length ?order" "chain = fst (?order ! ?n)" by (simp_all add: chain_order_eq)
  have ordinal: "rule_ordinal st (fst (?order ! ?n)) = snd (?order ! ?n)" using rule_ordinal_taken [OF keys(1)] rule_order_ordinal [OF n(1)] n(2) by simp
  let ?k = "?order ! ?n"
  obtain es' expr counters where c: "keys_ok content [''family'', ''table'', ''chain'', ''expr''] []" "jget content ''chain'' = Inr (jstr (fst ?k))"
      "fields_are content [(''family'', jstr ''inet''), (''table'', JStr table_name)] = Inr True"
      "rbind (jget content ''expr'') normalize_nft_expr = Inr es'" "rule_counter causal (fst ?k) (snd ?k) handle es' = Inr (expr, counters)"
      "json_same (JArr expr) (JArr (?rules (fst ?k) ! snd ?k))"
    and st': "st' = st\<lparr>sc_rule_handles := sc_rule_handles st @ [(ustr (fst ?k), int (snd ?k), handle)], sc_counters := sc_counters st @ counters,
       sc_normalized := sc_normalized st @ [obj [(''rule'', set_member ''expr'' (JArr expr) content)]]\<rparr>"
    using rule unfolding scan_rule_def Let_def len chain(1) [symmetric] nfail_Inr rbind_Inr require_Inr unfolding n(2) ordinal
    by (auto simp del: fields_are.simps)
  have mem: "?k \<in> set ?order" using n(1) by simp
  obtain es where es: "jget content ''expr'' = Inr (JArr es)" "list_all2 (expression_admitted causal) es (?rules (fst ?k) ! snd ?k)"
    "causal \<Longrightarrow> \<exists>e packets byte_count. filter has_counter es = [e] \<and> metric_shown e packets byte_count \<and> counters = [counted (fst ?k) (snd ?k) handle packets byte_count]"
    using expressions_admitted [OF mem c(4-6)] by metis
  have fields: "fields_are content [(''family'', jstr ''inet''), (''table'', JStr table_name), (''chain'', jstr (fst ?k))] = Inr True"
    using c(2,3) by (auto split: if_split_asm)
  then have "rule_admitted causal ?rules table_name ?k content" using c(1) es(1,2) unfolding rule_admitted_def by (cases ?k) auto
  with parts have admitted: "row_admitted causal ?rules table_name (RuleItem ?k) handle row" by auto
  have pinned: "pinned_rule ?rules table_name ?k (obj [(''rule'', set_member ''expr'' (JArr expr) content)])"
    using rule_body_pinned [OF c(1) fields, of expr ?rules "snd ?k"] c(6) by simp
  have counter: "\<exists>counter. counters = [counter] \<and> counter_read ?k row counter" if counted: causal
  proof -
    obtain e packets byte_count where "filter has_counter es = [e]" "metric_shown e packets byte_count"
      "counters = [counted (fst ?k) (snd ?k) handle packets byte_count]" using es(3) [OF counted] by blast
    with es(1) parts show ?thesis unfolding counter_read_def case_prod_unfold by blast
  qed
  obtain contents where contents: "sc_normalized st = sc_normalized before @ contents" "length contents = ?n"
      "\<forall>i<?n. row_admitted causal ?rules table_name (RuleItem (?order ! i)) (snd (snd (sc_rule_handles st ! i))) (rows ! i) \<and>
         content_pinned ?rules table_name (RuleItem (?order ! i)) (contents ! i)"
    using inv unfolding rules_read_def by auto
  show ?thesis unfolding rules_read_def
  proof (intro conjI impI)
    show "map handle_key (sc_rule_handles st') = map key_of (take (length (rows @ [row])) ?order)"
      using keys n(1) by (cases ?k) (auto simp: st' take_Suc_conv_app_nth handle_key_def key_of_def)
    show "\<exists>contents. sc_normalized st' = sc_normalized before @ contents \<and> length contents = length (rows @ [row]) \<and>
        (\<forall>i<length (rows @ [row]). row_admitted causal ?rules table_name (RuleItem (?order ! i)) (snd (snd (sc_rule_handles st' ! i))) ((rows @ [row]) ! i) \<and>
          content_pinned ?rules table_name (RuleItem (?order ! i)) (contents ! i))"
      using contents admitted pinned len
      by (intro exI [of _ "contents @ [obj [(''rule'', set_member ''expr'' (JArr expr) content)]]"])
        (auto simp: st' nth_append less_Suc_eq simp del: row_admitted.simps)
  next
    assume causal
    then obtain counter where "counters = [counter]" "counter_read ?k row counter" using counter by blast
    moreover have "length (sc_counters st) = ?n" "\<forall>i<?n. counter_read (?order ! i) (rows ! i) (sc_counters st ! i)"
      using inv \<open>causal\<close> unfolding rules_read_def by auto
    ultimately show "length (sc_counters st') = length (rows @ [row])"
      "\<forall>i<length (rows @ [row]). counter_read (?order ! i) ((rows @ [row]) ! i) (sc_counters st' ! i)"
      by (auto simp: st' nth_append less_Suc_eq)
  qed (use inv n(1) in \<open>simp_all add: st' rules_read_def\<close>)
qed

lemma rules_all_read:
  assumes "scan_rows causal (rules_of causal host_if) table_name (map (Pair ''rule'') rows) before = Inr st"
    and "sc_rule_handles before = []" "sc_counters before = []"
  shows "rules_read causal (rules_of causal host_if) table_name rows before st"
  using assms(1)
proof (induction rows arbitrary: st rule: rev_induct)
  case Nil
  then show ?case using assms(2,3) by (simp add: rules_read_def)
next
  case (snoc row rows)
  then obtain u where "scan_rows causal (rules_of causal host_if) table_name (map (Pair ''rule'') rows) before = Inr u"
    "scan_row causal (rules_of causal host_if) table_name ''rule'' row u = Inr st"
    by (auto simp: scan_rows_append)
  with snoc.IH rule_step_read show ?case by blast
qed

lemma table_step:
  assumes "scan_row causal rules table_name ''table'' row st = Inr st'"
  obtains handle content where "row_admitted causal rules table_name TableItem handle row" "json_same content (table_content table_name)"
    "st' = st\<lparr>sc_table_handle := handle, sc_normalized := sc_normalized st @ [obj [(''table'', content)]]\<rparr>"
proof -
  obtain handle content where "row_parts ''table'' row handle content" "scan_table table_name handle content st = Inr st'"
    using scan_row_parts [OF assms] by auto
  then show thesis using that [of handle content] by (auto simp: scan_table_def)
qed

lemma chain_step:
  assumes "scan_row causal rules table_name ''chain'' row st = Inr st'"
  obtains chain handle content where "row_admitted causal rules table_name (ChainItem chain) handle row" "json_same content (chain_content table_name (ustr chain))"
    "st' = st\<lparr>sc_chain_handles := sc_chain_handles st @ [(ustr chain, handle)], sc_normalized := sc_normalized st @ [obj [(''chain'', content)]]\<rparr>"
proof -
  obtain handle content where parts: "row_parts ''chain'' row handle content" "scan_chain table_name handle content st = Inr st'"
    using scan_row_parts [OF assms] by auto
  then obtain active_chain where c: "active_chain \<in> set (map ustr CHAINS)" "json_same content (chain_content table_name active_chain)"
    "st' = st\<lparr>sc_chain_handles := sc_chain_handles st @ [(active_chain, handle)], sc_normalized := sc_normalized st @ [obj [(''chain'', content)]]\<rparr>"
    unfolding scan_chain_def nfail_Inr rbind_Inr require_Inr by (auto simp del: set_map split: option.split_asm)
  then obtain chain where "active_chain = ustr chain" by auto
  with c parts that show thesis by auto
qed

text \<open>The handles of a snapshot in the order of the rows.\<close>

definition handles_of :: "nft_snapshot \<Rightarrow> int list" where
  "handles_of s = (let k = nft_identity s in
     nk_table_handle k # map snd (nk_chain_handles k) @ map (snd \<circ> snd) (nk_rule_handles k))"

lemma parse_scan:
  assumes "parse_nft_snapshot load raw table_name host_if causal = Inr s"
  obtains v meta rows st where "load raw = Inr v" "jget v ''nftables'' = Inr (JArr (meta # rows))"
    "length rows = length (row_order (rules_of causal host_if))"
    "scan_rows causal (rules_of causal host_if) table_name (zip (row_order (rules_of causal host_if)) rows)
      \<lparr>sc_table_handle = 0, sc_chain_handles = [], sc_rule_handles = [], sc_counters = [], sc_normalized = []\<rparr> = Inr st"
    "inventory_ok causal (rules_of causal host_if) st"
    "s = \<lparr>nft_content = obj [(''nftables'', JArr (sc_normalized st))],
       nft_identity = \<lparr>nk_table_handle = sc_table_handle st, nk_chain_handles = sc_chain_handles st, nk_rule_handles = sc_rule_handles st\<rparr>,
       nft_counters = sc_counters st\<rparr>"
proof -
  obtain v rows where v: "load raw = Inr v" "jget v ''nftables'' = Inr rows" using assms by (auto simp: parse_nft_snapshot_def Let_def)
  obtain meta rest where rows: "rows = JArr (meta # rest)"
    using assms v by (cases rows) (auto simp: parse_nft_snapshot_def Let_def split: list.split_asm)
  show thesis using assms that v unfolding parse_nft_snapshot_def Let_def rules_of_def [symmetric] by (auto simp: v rows)
qed

lemma frame_read:
  assumes "scan_rows causal rules table_name (zip [''table'', ''chain'', ''chain'', ''chain''] [r0, r1, r2, r3])
      \<lparr>sc_table_handle = 0, sc_chain_handles = [], sc_rule_handles = [], sc_counters = [], sc_normalized = []\<rparr> = Inr st"
  obtains h0 c1 h1 c2 h2 c3 h3 contents where
    "list_all2 (\<lambda>(item, handle) row. row_admitted causal rules table_name item handle row)
       [(TableItem, h0), (ChainItem c1, h1), (ChainItem c2, h2), (ChainItem c3, h3)] [r0, r1, r2, r3]"
    "list_all2 (content_pinned rules table_name) [TableItem, ChainItem c1, ChainItem c2, ChainItem c3] contents"
    "st = \<lparr>sc_table_handle = h0, sc_chain_handles = [(ustr c1, h1), (ustr c2, h2), (ustr c3, h3)], sc_rule_handles = [], sc_counters = [], sc_normalized = contents\<rparr>"
proof -
  obtain s0 s1 s2 where steps: "scan_row causal rules table_name ''table'' r0
      \<lparr>sc_table_handle = 0, sc_chain_handles = [], sc_rule_handles = [], sc_counters = [], sc_normalized = []\<rparr> = Inr s0"
    "scan_row causal rules table_name ''chain'' r1 s0 = Inr s1" "scan_row causal rules table_name ''chain'' r2 s1 = Inr s2"
    "scan_row causal rules table_name ''chain'' r3 s2 = Inr st"
    using assms by auto
  obtain h0 x0 where s0: "row_admitted causal rules table_name TableItem h0 r0" "json_same x0 (table_content table_name)"
    "s0 = \<lparr>sc_table_handle = h0, sc_chain_handles = [], sc_rule_handles = [], sc_counters = [], sc_normalized = [obj [(''table'', x0)]]\<rparr>"
    using table_step [OF steps(1)] by auto
  obtain c1 h1 x1 where s1: "row_admitted causal rules table_name (ChainItem c1) h1 r1" "json_same x1 (chain_content table_name (ustr c1))"
    "s1 = s0\<lparr>sc_chain_handles := sc_chain_handles s0 @ [(ustr c1, h1)], sc_normalized := sc_normalized s0 @ [obj [(''chain'', x1)]]\<rparr>"
    using chain_step [OF steps(2)] by metis
  obtain c2 h2 x2 where s2: "row_admitted causal rules table_name (ChainItem c2) h2 r2" "json_same x2 (chain_content table_name (ustr c2))"
    "s2 = s1\<lparr>sc_chain_handles := sc_chain_handles s1 @ [(ustr c2, h2)], sc_normalized := sc_normalized s1 @ [obj [(''chain'', x2)]]\<rparr>"
    using chain_step [OF steps(3)] by metis
  obtain c3 h3 x3 where s3: "row_admitted causal rules table_name (ChainItem c3) h3 r3" "json_same x3 (chain_content table_name (ustr c3))"
    "st = s2\<lparr>sc_chain_handles := sc_chain_handles s2 @ [(ustr c3, h3)], sc_normalized := sc_normalized s2 @ [obj [(''chain'', x3)]]\<rparr>"
    using chain_step [OF steps(4)] by metis
  show thesis
    by (rule that [of h0 c1 h1 c2 h2 c3 h3 "[obj [(''table'', x0)], obj [(''chain'', x1)], obj [(''chain'', x2)], obj [(''chain'', x3)]]"])
      (use s0 s1 s2 s3 in \<open>auto simp del: row_admitted.simps\<close>)
qed

section \<open>An accepted listing\<close>

lemma ustr_CHAINS: "map ustr cs = map ustr CHAINS \<Longrightarrow> cs = CHAINS"
  by (simp add: inj_map_eq_map inj_def)

text \<open>C38. An accepted listing lists the pinned firewall and nothing else. Behind the row with the version of the format, its rows, as they
  were read, are the table, the three chains and the rules of the policy in their order, each with a handle between 1 and \<open>2 ^ 31 - 1\<close>: the table and the chains have the
  pinned members and no others, and a rule is of this table and its chain and has, expression by expression, what the policy
  pins, where the states of a connection may be listed in any order and notation, and where of the expression with the counter only the counter
  is compared. What is kept is the pinned content; the handles are those of the rows, and those of chains and rules are distinct; and
  each counted rule has one counter, which shows the handle and the packets and bytes of its row.\<close>

theorem firewall_is_pinned:
  assumes "parse_nft_snapshot load raw table_name host_if causal = Inr s"
  shows "\<exists>v meta rows contents. load raw = Inr v \<and> jget v ''nftables'' = Inr (JArr (meta # rows)) \<and>
    nft_content s = obj [(''nftables'', JArr contents)] \<and>
    list_all2 (\<lambda>(item, handle) row. row_admitted causal (rules_of causal host_if) table_name item handle row) (zip (listing_items causal) (handles_of s)) rows \<and>
    list_all2 (content_pinned (rules_of causal host_if) table_name) (listing_items causal) contents \<and>
    length (handles_of s) = length (listing_items causal) \<and> distinct (tl (handles_of s)) \<and>
    map fst (nk_chain_handles (nft_identity s)) = map ustr CHAINS \<and>
    map handle_key (nk_rule_handles (nft_identity s)) = map key_of (rule_order causal) \<and>
    (causal \<longrightarrow> list_all2 (\<lambda>(k, row). counter_read k row) (zip (rule_order causal) (drop 4 rows)) (nft_counters s))"
proof -
  let ?rules = "rules_of causal host_if" and ?order = "rule_order causal"
  obtain v meta rows st where v: "load raw = Inr v" "jget v ''nftables'' = Inr (JArr (meta # rows))"
    and len: "length rows = length (row_order ?rules)"
    and scan: "scan_rows causal ?rules table_name (zip (row_order ?rules) rows)
      \<lparr>sc_table_handle = 0, sc_chain_handles = [], sc_rule_handles = [], sc_counters = [], sc_normalized = []\<rparr> = Inr st"
    and ok: "inventory_ok causal ?rules st"
    and s: "s = \<lparr>nft_content = obj [(''nftables'', JArr (sc_normalized st))],
       nft_identity = \<lparr>nk_table_handle = sc_table_handle st, nk_chain_handles = sc_chain_handles st, nk_rule_handles = sc_rule_handles st\<rparr>,
       nft_counters = sc_counters st\<rparr>"
    using parse_scan [OF assms] by metis
  have inv: "scan_inv causal st" using scan_rows_inv [OF scan] by (simp add: scan_inv_def)
  note inventory = inventory_rules [OF inv ok]
  obtain r0 r1 r2 r3 rs where rows: "rows = [r0, r1, r2, r3] @ rs" "length rs = length ?order"
    using len by (auto simp: row_order_def chain_order_eq length_Suc_conv)
  have zips: "zip (row_order ?rules) rows = zip [''table'', ''chain'', ''chain'', ''chain''] [r0, r1, r2, r3] @ map (Pair ''rule'') rs"
    using rows(2) by (simp add: rows(1) row_order_def chain_order_eq zip_map1 map_fst_zip_take) (auto simp: zip_map1 list_eq_iff_nth_eq)
  obtain u where u: "scan_rows causal ?rules table_name (zip [''table'', ''chain'', ''chain'', ''chain''] [r0, r1, r2, r3])
      \<lparr>sc_table_handle = 0, sc_chain_handles = [], sc_rule_handles = [], sc_counters = [], sc_normalized = []\<rparr> = Inr u"
    "scan_rows causal ?rules table_name (map (Pair ''rule'') rs) u = Inr st"
    using scan unfolding zips scan_rows_append rbind_Inr by blast
  obtain h0 c1 h1 c2 h2 c3 h3 frame where f: "list_all2 (\<lambda>(item, handle) row. row_admitted causal ?rules table_name item handle row)
       [(TableItem, h0), (ChainItem c1, h1), (ChainItem c2, h2), (ChainItem c3, h3)] [r0, r1, r2, r3]"
    "list_all2 (content_pinned ?rules table_name) [TableItem, ChainItem c1, ChainItem c2, ChainItem c3] frame"
    "u = \<lparr>sc_table_handle = h0, sc_chain_handles = [(ustr c1, h1), (ustr c2, h2), (ustr c3, h3)], sc_rule_handles = [], sc_counters = [], sc_normalized = frame\<rparr>"
    using frame_read [OF u(1)] .
  have read: "rules_read causal ?rules table_name rs u st" using rules_all_read [OF u(2)] f(3) by simp
  then obtain contents where c: "sc_normalized st = frame @ contents" "length contents = length ?order"
      "sc_table_handle st = h0" "sc_chain_handles st = [(ustr c1, h1), (ustr c2, h2), (ustr c3, h3)]" "map handle_key (sc_rule_handles st) = map key_of ?order"
      "\<forall>i<length ?order. row_admitted causal ?rules table_name (RuleItem (?order ! i)) (snd (snd (sc_rule_handles st ! i))) (rs ! i) \<and>
         content_pinned ?rules table_name (RuleItem (?order ! i)) (contents ! i)"
    unfolding rules_read_def f(3) rows(2) by auto
  have chains: "[c1, c2, c3] = CHAINS" using inventory(3) c(4) by (intro ustr_CHAINS) simp
  have handles: "handles_of s = [h0, h1, h2, h3] @ map (snd \<circ> snd) (sc_rule_handles st)" by (simp add: handles_of_def s c(3,4))
  have items: "listing_items causal = [TableItem, ChainItem c1, ChainItem c2, ChainItem c3] @ map RuleItem ?order"
    by (simp add: listing_items_def flip: chains)
  have "list_all2 (\<lambda>(item, handle) row. row_admitted causal ?rules table_name item handle row) (zip (map RuleItem ?order) (map (snd \<circ> snd) (sc_rule_handles st))) rs"
    using c(6) inventory(1) rows(2) by (simp add: list_all2_conv_all_nth del: row_admitted.simps)
  with f(1) have admitted: "list_all2 (\<lambda>(item, handle) row. row_admitted causal ?rules table_name item handle row) (zip (listing_items causal) (handles_of s)) rows"
    unfolding items handles rows(1) by (simp add: list_all2_appendI del: row_admitted.simps)
  have "list_all2 (content_pinned ?rules table_name) (map RuleItem ?order) contents"
    using c(2,6) by (simp add: list_all2_conv_all_nth del: row_admitted.simps)
  with f(2) have pinned: "list_all2 (content_pinned ?rules table_name) (listing_items causal) (sc_normalized st)"
    unfolding items c(1) by (rule list_all2_appendI)
  have counters: "list_all2 (\<lambda>(k, row). counter_read k row) (zip ?order (drop 4 rows)) (nft_counters s)" if causal
    using read that rows(2) unfolding rules_read_def rows(1) s by (auto simp: list_all2_conv_all_nth)
  show ?thesis
    using v admitted pinned counters inventory c(5) handles items
    by (intro exI [of _ v] exI [of _ meta] exI [of _ rows] exI [of _ "sc_normalized st"]) (auto simp: s c(4) simp del: row_admitted.simps)
qed

text \<open>The listing of the sample firewall is accepted, so the theorem says of it what it is made of.\<close>

theorem firewall_is_pinned_witness:
  "\<exists>s rows. parse_nft_snapshot sample_listing [] (ustr TABLE) (ustr HOST_IF) True = Inr s \<and>
     list_all2 (\<lambda>(item, handle) row. row_admitted True (rules_of True (ustr HOST_IF)) (ustr TABLE) item handle row) (zip (listing_items True) (handles_of s)) rows \<and>
     list_all2 (\<lambda>(k, row). counter_read k row) (zip (rule_order True) (drop 4 rows)) (nft_counters s)"
proof -
  obtain s where s: "parse_nft_snapshot sample_listing [] (ustr TABLE) (ustr HOST_IF) True = Inr s" using sample_firewall [of "[]"] by blast
  from firewall_is_pinned [OF s] s show ?thesis by blast
qed

end
