(* ===== verification/RuntimeClosure.thy ===== *)
theory RuntimeClosure
  imports RootfsCanonical Elf "HOL-Library.AList"
begin

text \<open>
  The closure of the fixed programs of the image under the shared objects they need
  (\<^verbatim>\<open>remote/completion_runtime_closure.py\<close>): its own strict reader of ELF files, the resolution of a path through symbolic and
  hard links, the search for a library, and the worklist. An authority is the number of its object and the plan that
  \<^verbatim>\<open>_authority_plan\<close> returns for it; the revalidation of an authority (\<^verbatim>\<open>completion_rootfs_prebuilt.py\<close>) is a parameter. The
  exception \<^verbatim>\<open>_Missing\<close> is \<open>RuntimeClosureError True\<close>. The worklist is a partial function whose value \<open>None\<close> means that the loop does not end.
\<close>

definition RECORD_VERSION :: string where "RECORD_VERSION = ''cogs.stage2-completion-runtime-object/v1''"

definition ROOTS :: "string list" where
  "ROOTS = [''usr/bin/git'', ''usr/sbin/sshd'', ''usr/lib/openssh/sshd-auth'', ''usr/lib/openssh/sshd-session'', ''usr/bin/dpkg'', ''usr/bin/dpkg-deb'',
     ''usr/lib/git-core/git'', ''usr/bin/bash'', ''usr/lib/x86_64-linux-gnu/libnss_files.so.2'']"

definition SEARCH :: "string list" where
  "SEARCH = [''lib/x86_64-linux-gnu'', ''usr/lib/x86_64-linux-gnu'', ''lib64'', ''usr/lib64'']"

definition INTERP :: string where "INTERP = ''/lib64/ld-linux-x86-64.so.2''"

definition CLOSURE_FORBIDDEN_TAGS :: "int list" where
  "CLOSURE_FORBIDDEN_TAGS = [15, 29, 0x6FFFFEFA, 0x6FFFFEFB, 0x6FFFFEFC, 0x7FFFFFFD, 0x7FFFFFFF]"

definition DT_FLAGS_1 :: int where "DT_FLAGS_1 = 0x6FFFFFFB"
definition DF_1_NODEFLIB :: int where "DF_1_NODEFLIB = 0x800"
definition DF_1_KNOWN :: int where "DF_1_KNOWN = 0x7FFFFFFF"

definition LIBRARY_NAME_BYTES :: bytes where
  "LIBRARY_NAME_BYTES = ustr ''ABCDEFGHIJKLMNOPQRSTUVWXYZabcdefghijklmnopqrstuvwxyz0123456789._+-''"

definition U64 :: int where "U64 = 2 ^ 64 - 1"

definition rfail :: "bool \<Rightarrow> 'a result \<Rightarrow> 'a result" where
  "rfail c k = require c (RuntimeClosureError False) k"

lemma rfail_Inr [simp]: "rfail c k = Inr x \<longleftrightarrow> c \<and> k = Inr x"
  by (simp add: rfail_def)

section \<open>ELF files\<close>

definition unpack :: "bytes \<Rightarrow> int \<Rightarrow> nat \<Rightarrow> int result" where
  "unpack raw offset width =
     (let at = nat offset in require (at + width \<le> length raw) StructError (Inr (le_value (slice at (at + width) raw))))"

definition closure_span :: "int \<Rightarrow> int \<Rightarrow> int \<Rightarrow> (int \<times> int) result" where
  "closure_span start bytes maximum =
     rfail (0 \<le> start \<and> start \<le> U64 \<and> 0 \<le> bytes \<and> bytes \<le> U64)
     (rfail (start \<le> U64 - bytes \<and> start + bytes \<le> maximum) (Inr (start, start + bytes)))"

type_synonym quad = "int \<times> int \<times> int \<times> int"

definition closure_header :: "bytes \<Rightarrow> (int \<times> int) result" where
  "closure_header raw =
     rfail (64 \<le> length raw \<and> int (length raw) \<le> 2 ^ 31)
     (rbind (unpack raw 16 2) (\<lambda>kind. rbind (unpack raw 18 2) (\<lambda>machine. rbind (unpack raw 20 4) (\<lambda>version.
      rbind (unpack raw 32 8) (\<lambda>phoff. rbind (unpack raw 40 8) (\<lambda>shoff. rbind (unpack raw 48 4) (\<lambda>flags.
      rbind (unpack raw 52 2) (\<lambda>ehsize. rbind (unpack raw 54 2) (\<lambda>phsize. rbind (unpack raw 56 2) (\<lambda>phnum.
      rbind (unpack raw 58 2) (\<lambda>shsize. rbind (unpack raw 60 2) (\<lambda>shnum. rbind (unpack raw 62 2) (\<lambda>shindex.
      rfail (take 7 raw = [127, 69, 76, 70, 2, 1, 1] \<and> raw ! 7 \<in> {0, 3})
      (rfail (slice 8 16 raw = replicate 8 0 \<and> kind \<in> {2, 3} \<and> machine = 62 \<and> version = 1)
      (rfail (flags = 0 \<and> ehsize = 64 \<and> phsize = 56 \<and> 0 < phnum \<and> phnum \<le> 256)
      (rfail (shnum = 0 \<and> shoff = 0 \<and> shsize = 0 \<and> shindex = 0 \<or> shsize = 64 \<and> 0 < shnum \<and> shnum \<le> 4096 \<and> shindex < shnum)
      (rbind (if shnum \<noteq> 0 then rbind (closure_span shoff (shnum * shsize) (int (length raw))) (\<lambda>s. Inr (Some s)) else Inr None) (\<lambda>section_span.
       rbind (closure_span phoff (phnum * phsize) (int (length raw))) (\<lambda>(start, stop).
       rfail (ehsize \<le> start \<and> (case section_span of None \<Rightarrow> True | Some (s, _) \<Rightarrow> ehsize \<le> s))
       (rfail (case section_span of None \<Rightarrow> True | Some (s, e) \<Rightarrow> e \<le> start \<or> stop \<le> s)
       (Inr (start, stop))))))))))))))))))))))"

record program_segments =
  pg_loads :: "quad list"
  pg_dynamic :: "quad list"
  pg_interpreters :: "quad list"

definition closure_program_header :: "bytes \<Rightarrow> int \<Rightarrow> program_segments \<Rightarrow> program_segments result" where
  "closure_program_header raw offset pg =
     rbind (unpack raw offset 4) (\<lambda>ptype. rbind (unpack raw (offset + 8) 8) (\<lambda>file_offset. rbind (unpack raw (offset + 16) 8) (\<lambda>address.
     rbind (unpack raw (offset + 32) 8) (\<lambda>filesz. rbind (unpack raw (offset + 40) 8) (\<lambda>memsz. rbind (unpack raw (offset + 48) 8) (\<lambda>align.
     rbind (closure_span file_offset filesz (int (length raw))) (\<lambda>_.
     rfail (filesz \<le> memsz \<and> (align = 0 \<or> align AND (align - 1) = 0))
     (rfail (align \<in> {0, 1} \<or> file_offset mod align = address mod align)
     (rfail (address \<le> U64 - memsz)
     (let segment = (address, address + memsz, file_offset, filesz) in
      if ptype = 1 then rfail (memsz \<noteq> 0 \<and> filesz \<noteq> 0) (Inr (pg\<lparr>pg_loads := pg_loads pg @ [segment]\<rparr>))
      else if ptype = 2 then Inr (pg\<lparr>pg_dynamic := pg_dynamic pg @ [segment]\<rparr>)
      else if ptype = 3 then Inr (pg\<lparr>pg_interpreters := pg_interpreters pg @ [segment]\<rparr>)
      else Inr pg))))))))))"

fun closure_program_headers :: "bytes \<Rightarrow> int list \<Rightarrow> program_segments \<Rightarrow> program_segments result" where
  "closure_program_headers raw [] pg = Inr pg"
| "closure_program_headers raw (offset # rest) pg = rbind (closure_program_header raw offset pg) (closure_program_headers raw rest)"

definition loads_disjoint :: "quad \<Rightarrow> quad \<Rightarrow> bool" where
  "loads_disjoint = (\<lambda>(v, e, f, n) (v', e', f', n'). (e \<le> v' \<or> e' \<le> v) \<and> (f + n \<le> f' \<or> f' + n' \<le> f))"

fun all_disjoint :: "quad list \<Rightarrow> bool" where
  "all_disjoint [] = True"
| "all_disjoint (q # qs) \<longleftrightarrow> list_all (loads_disjoint q) qs \<and> all_disjoint qs"

definition closure_mapped :: "quad list \<Rightarrow> int \<Rightarrow> int \<Rightarrow> int result" where
  "closure_mapped loads address bytes =
     rbind (closure_span address bytes U64) (\<lambda>_.
     let offsets = map (\<lambda>(v, _, f, n). f + address - v) (filter (\<lambda>(v, _, f, n). v \<le> address \<and> address + bytes \<le> v + n) loads) in
     rfail (length offsets = 1) (Inr (hd offsets)))"

definition closure_interpreter :: "bytes \<Rightarrow> program_segments \<Rightarrow> pystr option result" where
  "closure_interpreter raw pg =
     (case pg_interpreters pg of
        [] \<Rightarrow> Inr None
      | (address, _, offset, bytes) # _ \<Rightarrow>
          rfail (1 < bytes \<and> bytes \<le> 256)
          (rbind (closure_mapped (pg_loads pg) address bytes) (\<lambda>at.
           rfail (at = offset)
           (let v = py_slice offset (offset + bytes) raw in
            rfail (ends_with [0] v \<and> 0 \<notin> set (butlast v))
            (rfail (list_all (\<lambda>b. 32 \<le> b \<and> b \<le> 126) (butlast v))
            (rfail (butlast v = ustr INTERP) (Inr (Some (butlast v)))))))))"

fun closure_tags :: "bytes \<Rightarrow> int list \<Rightarrow> bool \<Rightarrow> (int \<times> int) list \<Rightarrow> (int \<times> int) list result" where
  "closure_tags raw [] terminated tags = rfail terminated (Inr tags)"
| "closure_tags raw (cursor # rest) terminated tags =
     rbind (unpack raw cursor 8) (\<lambda>tag. rbind (unpack raw (cursor + 8) 8) (\<lambda>v.
     if terminated then rfail (tag = 0 \<and> v = 0) (closure_tags raw rest True tags)
     else if tag = 0 then rfail (v = 0) (closure_tags raw rest True tags)
     else rfail (tag \<notin> set CLOSURE_FORBIDDEN_TAGS) (closure_tags raw rest False (tags @ [(tag, v)]))))"

definition closure_dynamic :: "bytes \<Rightarrow> program_segments \<Rightarrow> (int \<times> int) list result" where
  "closure_dynamic raw pg =
     (case pg_dynamic pg of
        [] \<Rightarrow> Inl PyIndexError
      | (address, _, offset, bytes) # _ \<Rightarrow>
          rfail (16 \<le> bytes \<and> bytes \<le> 65536 \<and> bytes mod 16 = 0)
          (rbind (closure_mapped (pg_loads pg) address bytes) (\<lambda>at.
           rfail (at = offset)
           (rbind (closure_tags raw (offsets_between offset (offset + bytes) 16) False []) (\<lambda>tags.
            let flags_1 = tag_values tags DT_FLAGS_1 in
            rfail (length flags_1 \<le> 1)
            (rfail (flags_1 = [] \<or> hd flags_1 AND NOT DF_1_KNOWN = 0 \<and> hd flags_1 AND DF_1_NODEFLIB = 0) (Inr tags)))))))"

definition closure_strings :: "bytes \<Rightarrow> quad list \<Rightarrow> (int \<times> int) list \<Rightarrow> bytes result" where
  "closure_strings raw loads tags =
     (case (tag_values tags 5, tag_values tags 10) of
        ([table], [bytes]) \<Rightarrow>
          rfail (0 < bytes \<and> bytes \<le> int (length raw))
          (rbind (closure_mapped loads table bytes) (\<lambda>at. Inr (py_slice at (at + bytes) raw)))
      | _ \<Rightarrow> Inl (RuntimeClosureError False))"

definition closure_name_at :: "bytes \<Rightarrow> int \<Rightarrow> pystr result" where
  "closure_name_at strings name_offset =
     rfail (name_offset < int (length strings))
     (let name_end = find_nul strings name_offset (int (length strings)) in
      rfail (name_offset < name_end \<and> name_end < int (length strings) \<and> name_end - name_offset \<le> 255)
      (let name_raw = slice (nat name_offset) (nat name_end) strings in
       rfail (list_all (\<lambda>b. b \<in> set LIBRARY_NAME_BYTES) name_raw) (Inr name_raw)))"

definition closure_elf :: "bytes \<Rightarrow> (pystr option \<times> pystr option \<times> pystr list) result" where
  "closure_elf raw =
     rbind (closure_header raw) (\<lambda>(start, stop).
     rbind (closure_program_headers raw (offsets_between start stop 56) \<lparr>pg_loads = [], pg_dynamic = [], pg_interpreters = []\<rparr>) (\<lambda>pg.
     rfail (pg_loads pg \<noteq> [] \<and> length (pg_dynamic pg) = 1 \<and> length (pg_interpreters pg) \<le> 1)
     (rfail (all_disjoint (pg_loads pg))
     (rbind (closure_interpreter raw pg) (\<lambda>interpreter. rbind (closure_dynamic raw pg) (\<lambda>tags.
      rbind (closure_strings raw (pg_loads pg) tags) (\<lambda>strings.
      rbind (map_result (closure_name_at strings) (tag_values tags 1)) (\<lambda>needed.
      rfail (distinct needed)
      (rbind (map_result (closure_name_at strings) (tag_values tags 14)) (\<lambda>sonames.
       rfail (length sonames \<le> 1)
       (Inr (interpreter, (case sonames of [] \<Rightarrow> None | s # _ \<Rightarrow> Some s), needed))))))))))))"

section \<open>Paths\<close>

type_synonym path_map = "pystr \<rightharpoonup> planned_entry"

fun closure_entries :: "planned_entry list \<Rightarrow> path_map \<Rightarrow> path_map result" where
  "closure_entries [] entries = Inr entries"
| "closure_entries (e # es) entries =
     rfail (entries (mr_path (pe_record e)) = None) (closure_entries es (entries(mr_path (pe_record e) \<mapsto> e)))"

text \<open>The first component of a path that is a symbolic link: its index and target.\<close>

fun first_symlink :: "path_map \<Rightarrow> pystr list \<Rightarrow> nat list \<Rightarrow> (nat \<times> pystr option) option" where
  "first_symlink entries parts [] = None"
| "first_symlink entries parts (i # is) =
     (case entries (join_on 47 (take i parts)) of
        Some e \<Rightarrow> if mr_kind (pe_record e) = KSymlink then Some (i, mr_resolved_link_path (pe_record e)) else first_symlink entries parts is
      | None \<Rightarrow> first_symlink entries parts is)"

definition regular_file :: "digest_fun \<Rightarrow> pystr \<Rightarrow> planned_entry \<Rightarrow> (pystr \<times> planned_entry \<times> bytes) result" where
  "regular_file H current entry =
     rfail (mr_kind (pe_record entry) = KFile \<and> mr_content_sha256 (pe_record entry) \<noteq> None)
     (rbind (planned_content H entry) (\<lambda>raw.
      rfail (length raw = mr_archive_size (pe_record entry) \<and> Some (H raw) = mr_content_sha256 (pe_record entry))
      (Inr (current, entry, raw))))"

fun regular_loop :: "digest_fun \<Rightarrow> path_map \<Rightarrow> nat \<Rightarrow> pystr set \<Rightarrow> pystr \<Rightarrow> (pystr \<times> planned_entry \<times> bytes) result" where
  "regular_loop H entries 0 seen current = Inl (RuntimeClosureError False)"
| "regular_loop H entries (Suc n) seen current =
     rfail (current \<notin> seen)
     (let parts = split_on 47 current; seen' = insert current seen in
      rfail (list_all (\<lambda>part. part \<notin> {[], ustr ''.'', ustr ''..''}) parts)
      (case first_symlink entries parts [1..<Suc (length parts)] of
         Some (i, Some target) \<Rightarrow>
           rfail (entries target \<noteq> None) (regular_loop H entries n seen' (join_on 47 (target # drop i parts)))
       | Some (i, None) \<Rightarrow> Inl (RuntimeClosureError False)
       | None \<Rightarrow>
           (case entries current of
              None \<Rightarrow> Inl (RuntimeClosureError True)
            | Some entry \<Rightarrow>
                if mr_kind (pe_record entry) = KHardlink then
                  (case mr_hardlink_target (pe_record entry) of
                     None \<Rightarrow> Inl (RuntimeClosureError False)
                   | Some target \<Rightarrow> regular_loop H entries n seen' target)
                else regular_file H current entry)))"

definition regular :: "digest_fun \<Rightarrow> path_map \<Rightarrow> pystr \<Rightarrow> (pystr \<times> planned_entry \<times> bytes) result" where
  "regular H entries requested = rfail (requested \<noteq> [] \<and> \<not> starts_with [47] requested) (regular_loop H entries 65 {} requested)"

section \<open>The closure\<close>

definition require_root_interpreter :: "pystr \<Rightarrow> pystr set \<Rightarrow> pystr option \<Rightarrow> unit result" where
  "require_root_interpreter path executable_roots declared_interpreter =
     rfail (path \<notin> executable_roots \<or> declared_interpreter = Some (ustr INTERP)) (Inr ())"

definition claim_soname :: "(pystr \<rightharpoonup> pystr) \<Rightarrow> pystr \<Rightarrow> pystr option \<Rightarrow> (pystr \<rightharpoonup> pystr) result" where
  "claim_soname identities path soname =
     (case soname of
        None \<Rightarrow> Inr identities
      | Some name \<Rightarrow> rfail (identities name = None \<or> identities name = Some path) (Inr (identities(name \<mapsto> path))))"

fun library_loop :: "digest_fun \<Rightarrow> path_map \<Rightarrow> pystr \<Rightarrow> string list \<Rightarrow> (pystr \<times> planned_entry \<times> bytes) list \<Rightarrow>
    (pystr \<times> planned_entry \<times> bytes) list result" where
  "library_loop H entries name [] candidates = Inr candidates"
| "library_loop H entries name (directory # rest) candidates =
     (case regular H entries (ustr directory @ 47 # name) of
        Inl e \<Rightarrow> if e = RuntimeClosureError True then library_loop H entries name rest candidates else Inl e
      | Inr candidate \<Rightarrow>
          rbind (closure_elf (snd (snd candidate))) (\<lambda>(_, soname, _).
          rfail (soname = Some name)
          (library_loop H entries name rest
             (if fst candidate \<in> set (map fst candidates) then candidates else candidates @ [candidate]))))"

definition library :: "digest_fun \<Rightarrow> path_map \<Rightarrow> pystr \<Rightarrow> (pystr \<times> planned_entry \<times> bytes) result" where
  "library H entries name =
     rbind (library_loop H entries name SEARCH []) (\<lambda>candidates. rfail (length candidates = 1) (Inr (hd candidates)))"

record parsed_object =
  po_entry :: planned_entry
  po_interpreter :: "pystr option"
  po_soname :: "pystr option"
  po_needed :: "pystr list"
  po_dependencies :: "pystr list"

type_synonym parsed_map = "(pystr \<times> parsed_object) list"

text \<open>One turn of the worklist on a path that is not parsed yet: the objects, the claims and what is added to the list.\<close>

definition visit_object :: "digest_fun \<Rightarrow> path_map \<Rightarrow> pystr set \<Rightarrow> pystr \<Rightarrow> parsed_map \<Rightarrow> (pystr \<rightharpoonup> pystr) \<Rightarrow>
    (parsed_map \<times> (pystr \<rightharpoonup> pystr) \<times> pystr list) result" where
  "visit_object H entries executable_roots path parsed soname_paths =
     rbind (regular H entries path) (\<lambda>(resolved_path, entry, raw).
     rbind (closure_elf raw) (\<lambda>(declared_interpreter, soname, needed).
     rbind (require_root_interpreter resolved_path executable_roots declared_interpreter) (\<lambda>_.
     rbind (claim_soname soname_paths resolved_path soname) (\<lambda>claimed.
     rbind (case declared_interpreter of
              None \<Rightarrow> Inr None
            | Some _ \<Rightarrow> rbind (regular H entries (ustr (tl INTERP))) (\<lambda>(p, _, _). Inr (Some p))) (\<lambda>interpreter.
     rbind (map_result (\<lambda>name. rbind (library H entries name) (\<lambda>(p, _, _). Inr p)) needed) (\<lambda>dependencies.
     Inr (AList.update resolved_path \<lparr>po_entry = entry, po_interpreter = interpreter, po_soname = soname, po_needed = needed, po_dependencies = dependencies\<rparr> parsed,
          claimed, dependencies @ (case interpreter of None \<Rightarrow> [] | Some p \<Rightarrow> [p]))))))))"

partial_function (option) closure_loop :: "digest_fun \<Rightarrow> path_map \<Rightarrow> pystr set \<Rightarrow> pystr list \<Rightarrow> parsed_map \<Rightarrow> (pystr \<rightharpoonup> pystr) \<Rightarrow> parsed_map result option" where
  "closure_loop H entries executable_roots pending parsed soname_paths =
     (case pending of
        [] \<Rightarrow> Some (Inr parsed)
      | path # rest \<Rightarrow>
          if path \<in> set (map fst parsed) then closure_loop H entries executable_roots rest parsed soname_paths
          else (case visit_object H entries executable_roots path parsed soname_paths of
                  Inl e \<Rightarrow> Some (Inl e)
                | Inr (parsed', claimed, added) \<Rightarrow> closure_loop H entries executable_roots (rest @ added) parsed' claimed))"

record closure_record =
  cr_version :: pystr
  cr_path :: pystr
  cr_source :: pystr
  cr_mode :: nat
  cr_size :: nat
  cr_content_sha256 :: "pystr option"
  cr_interpreter :: "pystr option"
  cr_soname :: "pystr option"
  cr_needed :: "pystr list"
  cr_resolved :: "pystr list"

record closure_result =
  re_records :: "closure_record list"
  re_manifest_sha256 :: pystr
  re_object_count :: nat
  re_source_names :: "pystr list"

definition closure_record_of :: "pystr \<times> parsed_object \<Rightarrow> closure_record" where
  "closure_record_of = (\<lambda>(path, object). let r = pe_record (po_entry object) in
     \<lparr>cr_version = ustr RECORD_VERSION, cr_path = path, cr_source = pe_source (po_entry object), cr_mode = mr_mode r, cr_size = mr_archive_size r,
      cr_content_sha256 = mr_content_sha256 r, cr_interpreter = po_interpreter object, cr_soname = po_soname object, cr_needed = po_needed object,
      cr_resolved = po_dependencies object\<rparr>)"

definition closure_record_value :: "closure_record \<Rightarrow> json" where
  "closure_record_value r = JObj
     [(ustr ''version'', JStr (cr_version r)), (ustr ''path'', JStr (cr_path r)), (ustr ''source'', JStr (cr_source r)), (ustr ''mode'', jnat (cr_mode r)),
      (ustr ''size'', jnat (cr_size r)), (ustr ''content_sha256'', jopt (cr_content_sha256 r)), (ustr ''interpreter'', jopt (cr_interpreter r)),
      (ustr ''soname'', jopt (cr_soname r)), (ustr ''needed'', JArr (map JStr (cr_needed r))), (ustr ''resolved'', JArr (map JStr (cr_resolved r)))]"

definition closure_line :: "closure_record \<Rightarrow> bytes result" where
  "closure_line r = (case utf8_encode (json_dumps (closure_record_value r)) of None \<Rightarrow> Inl PyUnicodeError | Some b \<Rightarrow> Inr (b @ [10]))"

definition closure_records :: "parsed_map \<Rightarrow> closure_record list result" where
  "closure_records parsed =
     rbind (map_result (\<lambda>(path, object). rbind (encode_path path) (\<lambda>b. Inr (b, path, object))) parsed) (\<lambda>keyed.
     Inr (map (closure_record_of \<circ> snd) (sort_key fst keyed)))"

definition closure_of_parsed :: "digest_fun \<Rightarrow> pystr list \<Rightarrow> parsed_map \<Rightarrow> closure_result result" where
  "closure_of_parsed H expected_sources parsed =
     rbind (closure_records parsed) (\<lambda>records.
     rfail (length records = 35)
     (rfail (set (map cr_source records) = set expected_sources)
     (rbind (map_result closure_line records) (\<lambda>lines.
      Inr \<lparr>re_records = records, re_manifest_sha256 = H (concat lines), re_object_count = 35, re_source_names = expected_sources\<rparr>))))"

record authority =
  au_object :: nat
  au_plan :: rootfs_plan

definition closure_roots :: "digest_fun \<Rightarrow> path_map \<Rightarrow> pystr list result" where
  "closure_roots H entries =
     rbind (map_result (\<lambda>path. rbind (regular H entries (ustr path)) (\<lambda>(p, _, _). Inr p)) ROOTS) (\<lambda>root_paths.
     rfail (card (set (butlast root_paths)) = 8 \<and> last root_paths \<notin> set (butlast root_paths)) (Inr root_paths))"

definition closure_start :: "digest_fun \<Rightarrow> authority \<Rightarrow> (authority \<Rightarrow> authority result) \<Rightarrow> (path_map \<times> pystr list) result" where
  "closure_start H authority revalidate =
     rbind (revalidate authority) (\<lambda>fresh.
     rfail (au_object fresh \<noteq> au_object authority)
     (rbind (closure_entries (pl_entries (au_plan fresh)) Map.empty) (\<lambda>entries.
      rbind (closure_roots H entries) (\<lambda>root_paths. Inr (entries, root_paths)))))"

definition fixed_runtime_closure :: "digest_fun \<Rightarrow> authority \<Rightarrow> (authority \<Rightarrow> authority result) \<Rightarrow> pystr list \<Rightarrow> closure_result result option" where
  "fixed_runtime_closure H authority revalidate expected_sources =
     (case closure_start H authority revalidate of
        Inl e \<Rightarrow> Some (Inl e)
      | Inr (entries, root_paths) \<Rightarrow>
          (case closure_loop H entries (set (butlast root_paths)) root_paths [] Map.empty of
             None \<Rightarrow> None
           | Some r \<Rightarrow> Some (rbind r (closure_of_parsed H expected_sources))))"

definition PREBUILT_SOURCES :: "pystr list" where "PREBUILT_SOURCES = [ustr ''prebuilt-rootfs-v1'']"

definition prebuilt_runtime_closure :: "digest_fun \<Rightarrow> (authority \<Rightarrow> authority result) \<Rightarrow> authority \<Rightarrow> closure_result result option" where
  "prebuilt_runtime_closure H revalidate_authority authority = fixed_runtime_closure H authority revalidate_authority PREBUILT_SOURCES"

end
