(* ===== verification/ClosureSafety.thy ===== *)
theory ClosureSafety
  imports RuntimeClosure "HOL-Library.Multiset"
begin

text \<open>
  The worklist of the runtime closure ends on every plan, and what it returns is the least set of objects that has the fixed
  programs and is closed under the libraries and the interpreter they need.
\<close>

section \<open>Resolved paths\<close>

text \<open>A path that resolves to itself, its entry and its bytes.\<close>

definition settled_at :: "digest_fun \<Rightarrow> path_map \<Rightarrow> pystr \<Rightarrow> planned_entry \<Rightarrow> bytes \<Rightarrow> bool" where
  "settled_at H entries p e raw \<longleftrightarrow> list_all (\<lambda>part. part \<notin> {[], ustr ''.'', ustr ''..''}) (split_on 47 p) \<and>
     first_symlink entries (split_on 47 p) [1..<Suc (length (split_on 47 p))] = None \<and> entries p = Some e \<and>
     mr_kind (pe_record e) \<noteq> KHardlink \<and> regular_file H p e = Inr (p, e, raw)"

lemma regular_file_path: "regular_file H p e = Inr (q, e', raw) \<Longrightarrow> q = p \<and> e' = e"
  by (auto simp: regular_file_def)

lemma regular_loop_settled: "regular_loop H entries n seen cur = Inr (p, e, raw) \<Longrightarrow> settled_at H entries p e raw"
proof (induction n arbitrary: seen cur)
  case (Suc n)
  let ?parts = "split_on 47 cur"
  have parts: "list_all (\<lambda>part. part \<notin> {[], ustr ''.'', ustr ''..''}) ?parts" using Suc.prems by (auto simp: Let_def)
  show ?case
  proof (cases "first_symlink entries ?parts [1..<Suc (length ?parts)]")
    case None
    then obtain entry where entry: "entries cur = Some entry" using Suc.prems by (cases "entries cur") (auto simp: Let_def simp del: upt_Suc)
    show ?thesis
    proof (cases "mr_kind (pe_record entry) = KHardlink")
      case True
      with Suc.prems None entry obtain target where "mr_hardlink_target (pe_record entry) = Some target"
          "regular_loop H entries n (insert cur seen) target = Inr (p, e, raw)"
        by (cases "mr_hardlink_target (pe_record entry)") (auto simp: Let_def simp del: upt_Suc)
      then show ?thesis using Suc.IH by blast
    next
      case False
      with Suc.prems None entry have f: "regular_file H cur entry = Inr (p, e, raw)" by (auto simp: Let_def simp del: upt_Suc)
      from regular_file_path [OF f] have "p = cur" "e = entry" by auto
      with f None entry parts False show ?thesis by (simp add: settled_at_def del: upt_Suc)
    qed
  next
    case (Some hit)
    then obtain i target where "hit = (i, Some target)" using Suc.prems by (cases hit; cases "snd hit") (auto simp: Let_def simp del: upt_Suc)
    with Some Suc.prems have "regular_loop H entries n (insert cur seen) (join_on 47 (target # drop i ?parts)) = Inr (p, e, raw)"
      by (auto simp: Let_def simp del: upt_Suc)
    then show ?thesis using Suc.IH by blast
  qed
qed simp

lemma settled_regular: "settled_at H entries p e raw \<Longrightarrow> regular H entries p = Inr (p, e, raw)"
proof -
  assume s: "settled_at H entries p e raw"
  then have "p \<noteq> []" "\<not> starts_with [47] p" by (cases p; auto simp: settled_at_def starts_with_def)+
  moreover have "regular_loop H entries (Suc n) {} p = Inr (p, e, raw)" for n
    using s unfolding settled_at_def regular_loop.simps Let_def by simp
  then have "regular_loop H entries 65 {} p = Inr (p, e, raw)" unfolding numeral_eq_Suc by blast
  ultimately show "regular H entries p = Inr (p, e, raw)" by (simp add: regular_def)
qed

definition settled :: "digest_fun \<Rightarrow> path_map \<Rightarrow> pystr \<Rightarrow> bool" where
  "settled H entries p \<longleftrightarrow> (\<exists>e raw. regular H entries p = Inr (p, e, raw))"

lemma regular_idem: "regular H entries q = Inr (p, e, raw) \<Longrightarrow> regular H entries p = Inr (p, e, raw)"
  by (rule settled_regular, rule regular_loop_settled [of _ _ 65 "{}" q]) (simp add: regular_def)

lemma settled_entry: "settled H entries p \<Longrightarrow> p \<in> dom entries"
  using regular_loop_settled by (fastforce simp: settled_def regular_def settled_at_def)

lemma library_loop_Inr:
  assumes "library_loop H entries name dirs candidates = Inr found"
    "\<forall>c\<in>set candidates. regular H entries (fst c) = Inr c \<and> (\<exists>i n. closure_elf (snd (snd c)) = Inr (i, Some name, n))"
  shows "\<forall>c\<in>set found. regular H entries (fst c) = Inr c \<and> (\<exists>i n. closure_elf (snd (snd c)) = Inr (i, Some name, n))"
  using assms
proof (induction dirs arbitrary: candidates)
  case (Cons d dirs)
  show ?case
  proof (cases "regular H entries (ustr d @ 47 # name)")
    case (Inl e)
    with Cons.prems(1) have "library_loop H entries name dirs candidates = Inr found" by (auto split: if_split_asm)
    then show ?thesis by (rule Cons.IH) (rule Cons.prems(2))
  next
    case (Inr c)
    obtain i n where "closure_elf (snd (snd c)) = Inr (i, Some name, n)"
      and loop: "library_loop H entries name dirs (if fst c \<in> set (map fst candidates) then candidates else candidates @ [c]) = Inr found"
      using Cons.prems(1) Inr by auto
    moreover have "regular H entries (fst c) = Inr c" using regular_idem [of H entries _ "fst c" "fst (snd c)" "snd (snd c)"] Inr by simp
    ultimately show ?thesis using Cons.prems(2) by (intro Cons.IH [OF loop]) (auto split: if_split_asm)
  qed
qed auto

lemma library_Inr:
  "library H entries name = Inr (p, e, raw) \<Longrightarrow> regular H entries p = Inr (p, e, raw) \<and> (\<exists>i n. closure_elf raw = Inr (i, Some name, n))"
  using library_loop_Inr [of H entries name SEARCH "[]"] by (auto simp: library_def length_Suc_conv)

section \<open>What objects need\<close>

definition object_needs :: "digest_fun \<Rightarrow> path_map \<Rightarrow> pystr \<Rightarrow> pystr \<Rightarrow> bool" where
  "object_needs H entries p q \<longleftrightarrow> (\<exists>e raw interpreter soname needed. regular H entries p = Inr (p, e, raw) \<and>
     closure_elf raw = Inr (interpreter, soname, needed) \<and>
     ((\<exists>name\<in>set needed. \<exists>e' raw'. library H entries name = Inr (q, e', raw')) \<or>
      interpreter \<noteq> None \<and> (\<exists>e' raw'. regular H entries (ustr (tl INTERP)) = Inr (q, e', raw'))))"

inductive reached :: "digest_fun \<Rightarrow> path_map \<Rightarrow> pystr set \<Rightarrow> pystr \<Rightarrow> bool" for H entries roots where
  root: "p \<in> roots \<Longrightarrow> reached H entries roots p"
| need: "reached H entries roots p \<Longrightarrow> object_needs H entries p q \<Longrightarrow> reached H entries roots q"

definition object_edges :: "parsed_object \<Rightarrow> pystr set" where
  "object_edges obj = set (po_dependencies obj) \<union> (case po_interpreter obj of None \<Rightarrow> {} | Some q \<Rightarrow> {q})"

definition object_ok :: "digest_fun \<Rightarrow> path_map \<Rightarrow> pystr set \<Rightarrow> pystr \<Rightarrow> parsed_object \<Rightarrow> bool" where
  "object_ok H entries roots p obj \<longleftrightarrow> (\<exists>raw interpreter. regular H entries p = Inr (p, po_entry obj, raw) \<and>
     closure_elf raw = Inr (interpreter, po_soname obj, po_needed obj) \<and> (p \<in> roots \<longrightarrow> interpreter = Some (ustr INTERP)) \<and>
     (case interpreter of
        None \<Rightarrow> po_interpreter obj = None
      | Some _ \<Rightarrow> \<exists>q e' raw'. po_interpreter obj = Some q \<and> regular H entries (ustr (tl INTERP)) = Inr (q, e', raw')) \<and>
     list_all2 (\<lambda>name q. \<exists>e' raw'. library H entries name = Inr (q, e', raw')) (po_needed obj) (po_dependencies obj))"

lemma object_ok_edges: "object_ok H entries roots p obj \<Longrightarrow> q \<in> object_edges obj \<longleftrightarrow> object_needs H entries p q"
proof -
  assume "object_ok H entries roots p obj"
  then obtain raw interpreter where o: "regular H entries p = Inr (p, po_entry obj, raw)" "closure_elf raw = Inr (interpreter, po_soname obj, po_needed obj)"
      "case interpreter of None \<Rightarrow> po_interpreter obj = None
        | Some _ \<Rightarrow> \<exists>q e' raw'. po_interpreter obj = Some q \<and> regular H entries (ustr (tl INTERP)) = Inr (q, e', raw')"
      "list_all2 (\<lambda>name q. \<exists>e' raw'. library H entries name = Inr (q, e', raw')) (po_needed obj) (po_dependencies obj)"
    by (auto simp: object_ok_def)
  have "q \<in> set (po_dependencies obj) \<longleftrightarrow> (\<exists>name\<in>set (po_needed obj). \<exists>e' raw'. library H entries name = Inr (q, e', raw'))"
    using o(4) by (fastforce simp: list_all2_conv_all_nth in_set_conv_nth)
  moreover have "q \<in> (case po_interpreter obj of None \<Rightarrow> {} | Some q \<Rightarrow> {q}) \<longleftrightarrow>
      interpreter \<noteq> None \<and> (\<exists>e' raw'. regular H entries (ustr (tl INTERP)) = Inr (q, e', raw'))"
    using o(3) by (cases interpreter) auto
  ultimately show "q \<in> object_edges obj \<longleftrightarrow> object_needs H entries p q" using o(1,2) by (auto simp: object_edges_def object_needs_def)
qed

lemma object_needs_settled: "object_needs H entries p q \<Longrightarrow> settled H entries q"
  using library_Inr regular_idem by (fastforce simp: object_needs_def settled_def)

section \<open>The worklist\<close>

definition loop_inv :: "digest_fun \<Rightarrow> path_map \<Rightarrow> pystr set \<Rightarrow> pystr set \<Rightarrow> pystr list \<Rightarrow> parsed_map \<Rightarrow> (pystr \<rightharpoonup> pystr) \<Rightarrow> bool" where
  "loop_inv H entries execs roots pending parsed sonames \<longleftrightarrow>
     (\<forall>p\<in>set pending. settled H entries p) \<and> distinct (map fst parsed) \<and> (\<forall>(p, obj)\<in>set parsed. object_ok H entries execs p obj) \<and>
     (\<forall>(p, obj)\<in>set parsed. object_edges obj \<subseteq> fst ` set parsed \<union> set pending) \<and>
     (\<forall>(p, obj)\<in>set parsed. \<forall>name. po_soname obj = Some name \<longrightarrow> sonames name = Some p) \<and>
     roots \<subseteq> fst ` set parsed \<union> set pending \<and> (\<forall>p\<in>fst ` set parsed \<union> set pending. reached H entries roots p)"

lemma update_new: "p \<notin> fst ` set xs \<Longrightarrow> AList.update p v xs = xs @ [(p, v)]"
  by (induction xs) auto

lemma visit_object_Inr:
  assumes "visit_object H entries execs p parsed sonames = Inr (parsed', claimed, added)" "settled H entries p" "p \<notin> fst ` set parsed"
  obtains obj where "parsed' = parsed @ [(p, obj)]" "object_ok H entries execs p obj" "set added = object_edges obj"
    "claim_soname sonames p (po_soname obj) = Inr claimed"
proof -
  obtain e raw where p: "regular H entries p = Inr (p, e, raw)" using assms(2) by (auto simp: settled_def)
  obtain interp soname needed dependencies interpreter where r: "closure_elf raw = Inr (interp, soname, needed)"
      "require_root_interpreter p execs interp = Inr ()" "claim_soname sonames p soname = Inr claimed"
      "(case interp of None \<Rightarrow> Inr None | Some _ \<Rightarrow> rbind (regular H entries (ustr (tl INTERP))) (\<lambda>(p, _, _). Inr (Some p))) = Inr interpreter"
      "map_result (\<lambda>name. rbind (library H entries name) (\<lambda>(p, _, _). Inr p)) needed = Inr dependencies"
      "parsed' = AList.update p \<lparr>po_entry = e, po_interpreter = interpreter, po_soname = soname, po_needed = needed, po_dependencies = dependencies\<rparr> parsed"
      "added = dependencies @ (case interpreter of None \<Rightarrow> [] | Some p \<Rightarrow> [p])"
    using assms(1) by (auto simp: visit_object_def p)
  let ?obj = "\<lparr>po_entry = e, po_interpreter = interpreter, po_soname = soname, po_needed = needed, po_dependencies = dependencies\<rparr>"
  have "list_all2 (\<lambda>name q. \<exists>e' raw'. library H entries name = Inr (q, e', raw')) needed dependencies"
    using r(5) unfolding map_result_all2 by (rule list_all2_mono) auto
  moreover have "case interp of None \<Rightarrow> interpreter = None
      | Some _ \<Rightarrow> \<exists>q e' raw'. interpreter = Some q \<and> regular H entries (ustr (tl INTERP)) = Inr (q, e', raw')"
    using r(4) by (cases interp) auto
  moreover have "p \<in> execs \<longrightarrow> interp = Some (ustr INTERP)" using r(2) by (auto simp: require_root_interpreter_def)
  ultimately have "object_ok H entries execs p ?obj" using p r(1) unfolding object_ok_def parsed_object.select_convs by blast
  moreover have "parsed' = parsed @ [(p, ?obj)]" using assms(3) r(6) by (simp add: update_new)
  moreover have "set added = object_edges ?obj" by (auto simp: r(7) object_edges_def split: option.split)
  ultimately show thesis using that r(3) by simp
qed

lemma claim_soname_Inr:
  "claim_soname sonames p soname = Inr claimed \<Longrightarrow> (\<forall>name q. sonames name = Some q \<longrightarrow> claimed name = Some q) \<and> (\<forall>name. soname = Some name \<longrightarrow> claimed name = Some p)"
  by (auto simp: claim_soname_def split: option.split_asm)

lemma visit_object_inv:
  assumes inv: "loop_inv H entries execs roots (p # rest) parsed sonames" and new: "p \<notin> fst ` set parsed"
    and visit: "visit_object H entries execs p parsed sonames = Inr (parsed', claimed, added)"
  shows "loop_inv H entries execs roots (rest @ added) parsed' claimed" "fst ` set parsed' = insert p (fst ` set parsed)"
proof -
  obtain obj where obj: "parsed' = parsed @ [(p, obj)]" "object_ok H entries execs p obj" "set added = object_edges obj"
      "claim_soname sonames p (po_soname obj) = Inr claimed"
    using visit_object_Inr [OF visit _ new] inv by (auto simp: loop_inv_def)
  have p: "settled H entries p" "reached H entries roots p" using inv by (auto simp: loop_inv_def)
  have "settled H entries q \<and> reached H entries roots q" if "q \<in> set added" for q
    using that object_ok_edges [OF obj(2), of q] object_needs_settled reached.need [OF p(2), of q] unfolding obj(3) by blast
  moreover note claim_soname_Inr [OF obj(4)]
  ultimately show "loop_inv H entries execs roots (rest @ added) parsed' claimed"
    using inv new obj(2) p(2) unfolding loop_inv_def obj(1) by (auto simp: obj(3))
  show "fst ` set parsed' = insert p (fst ` set parsed)" by (simp add: obj(1))
qed

lemma closure_loop_ends:
  assumes "loop_inv H entries execs roots pending parsed sonames" "finite (dom entries)"
  shows "\<exists>r. closure_loop H entries execs pending parsed sonames = Some r \<and>
    (\<forall>final. r = Inr final \<longrightarrow> (\<exists>claimed. loop_inv H entries execs roots [] final claimed))"
  using assms
proof (induction "card (dom entries - fst ` set parsed)" arbitrary: pending parsed sonames rule: less_induct)
  case outer: less
  from outer.prems show ?case
  proof (induction pending)
    case Nil
    then show ?case by (subst closure_loop.simps) auto
  next
    case (Cons p rest)
    show ?case
    proof (cases "p \<in> fst ` set parsed")
      case True
      then have "fst ` set parsed \<union> set (p # rest) = fst ` set parsed \<union> set rest" by auto
      then have "loop_inv H entries execs roots rest parsed sonames" using Cons.prems(1) unfolding loop_inv_def by simp
      from Cons.IH [OF this Cons.prems(2)] True show ?thesis by (subst closure_loop.simps) simp
    next
      case new: False
      show ?thesis
      proof (cases "visit_object H entries execs p parsed sonames")
        case (Inl e)
        then show ?thesis using new by (subst closure_loop.simps) simp
      next
        case (Inr v)
        obtain parsed' claimed added where v: "v = (parsed', claimed, added)" by (cases v)
        note step = visit_object_inv [OF Cons.prems(1) new Inr [unfolded v]]
        have "p \<in> dom entries" using Cons.prems(1) settled_entry unfolding loop_inv_def by auto
        then have "card (dom entries - fst ` set parsed') < card (dom entries - fst ` set parsed)"
          using new Cons.prems(2) unfolding step(2) by (intro psubset_card_mono) auto
        from outer.hyps [OF this step(1) Cons.prems(2)] new Inr v show ?thesis by (subst closure_loop.simps) simp
      qed
    qed
  qed
qed

lemma closed_reaches:
  assumes "loop_inv H entries execs roots [] parsed sonames"
  shows "fst ` set parsed = {p. reached H entries roots p}"
proof
  show "{p. reached H entries roots p} \<subseteq> fst ` set parsed"
  proof
    fix p assume "p \<in> {p. reached H entries roots p}"
    then have "reached H entries roots p" by simp
    then show "p \<in> fst ` set parsed"
    proof induction
      case (root p)
      then show ?case using assms by (auto simp: loop_inv_def)
    next
      case (need p q)
      then obtain obj where "(p, obj) \<in> set parsed" by auto
      with assms have "object_ok H entries execs p obj" "object_edges obj \<subseteq> fst ` set parsed" by (auto simp: loop_inv_def)
      then show ?case using need.hyps(2) object_ok_edges by blast
    qed
  qed
qed (use assms in \<open>auto simp: loop_inv_def\<close>)

section \<open>The whole closure\<close>

lemma closure_entries_finite: "closure_entries es m = Inr entries \<Longrightarrow> finite (dom m) \<Longrightarrow> finite (dom entries)"
  by (induction es arbitrary: m) auto

lemma closure_roots_Inr:
  assumes "closure_roots H entries = Inr roots"
  shows "list_all2 (\<lambda>name p. \<exists>e raw. regular H entries (ustr name) = Inr (p, e, raw)) ROOTS roots" "\<forall>p\<in>set roots. settled H entries p"
proof -
  have "list_all2 (\<lambda>name p. rbind (regular H entries (ustr name)) (\<lambda>(p, _, _). Inr p) = Inr p) ROOTS roots"
    using assms by (auto simp: closure_roots_def map_result_all2)
  then show l: "list_all2 (\<lambda>name p. \<exists>e raw. regular H entries (ustr name) = Inr (p, e, raw)) ROOTS roots" by (rule list_all2_mono) auto
  show "\<forall>p\<in>set roots. settled H entries p"
  proof
    fix p assume "p \<in> set roots"
    with l obtain name e raw where "regular H entries (ustr name) = Inr (p, e, raw)" by (auto simp: list_all2_conv_all_nth in_set_conv_nth)
    from regular_idem [OF this] show "settled H entries p" unfolding settled_def by blast
  qed
qed

lemma initial_inv: "\<forall>p\<in>set roots. settled H entries p \<Longrightarrow> loop_inv H entries execs (set roots) roots [] Map.empty"
  by (auto simp: loop_inv_def intro: reached.root)

lemma closure_start_Inr:
  assumes "closure_start H authority revalidate = Inr (entries, roots)"
  shows "\<exists>fresh. revalidate authority = Inr fresh \<and> closure_entries (pl_entries (au_plan fresh)) Map.empty = Inr entries" "closure_roots H entries = Inr roots"
  using assms by (auto simp: closure_start_def)

lemma closure_start_loop:
  assumes "closure_start H authority revalidate = Inr (entries, roots)"
  shows "\<exists>r. closure_loop H entries (set (butlast roots)) roots [] Map.empty = Some r \<and>
    (\<forall>parsed. r = Inr parsed \<longrightarrow> (\<exists>claimed. loop_inv H entries (set (butlast roots)) (set roots) [] parsed claimed))"
proof (rule closure_loop_ends)
  show "loop_inv H entries (set (butlast roots)) (set roots) roots [] Map.empty"
    by (rule initial_inv) (rule closure_roots_Inr(2) [OF closure_start_Inr(2) [OF assms]])
  show "finite (dom entries)" using closure_start_Inr(1) [OF assms] closure_entries_finite by fastforce
qed

text \<open>C20. The computation of the runtime closure returns or raises on every plan, whatever the files are: the worklist never runs on.\<close>

theorem closure_returns: "\<exists>r. fixed_runtime_closure H authority revalidate expected_sources = Some r"
proof (cases "closure_start H authority revalidate")
  case (Inr v)
  moreover obtain entries roots where "v = (entries, roots)" by (cases v)
  ultimately show ?thesis using closure_start_loop [of H authority revalidate entries roots] by (auto simp: fixed_runtime_closure_def)
qed (simp add: fixed_runtime_closure_def)

lemma closure_records_Inr:
  assumes "closure_records parsed = Inr records"
  shows "mset records = mset (map closure_record_of parsed)"
proof -
  obtain keyed where k: "map_result (\<lambda>(path, object). rbind (encode_path path) (\<lambda>b. Inr (b, path, object))) parsed = Inr keyed"
      "records = map (closure_record_of \<circ> snd) (sort_key fst keyed)" using assms by (auto simp: closure_records_def)
  have "list_all2 (\<lambda>x y. snd y = x) parsed keyed" using k(1) unfolding map_result_all2 by (rule list_all2_mono) auto
  then have "map snd keyed = parsed" by (induction rule: list_all2_induct) auto
  then have "mset (map closure_record_of parsed) = image_mset (closure_record_of \<circ> snd) (mset keyed)" by (metis map_map mset_map)
  then show ?thesis by (simp add: k(2))
qed

lemma regular_digest:
  assumes "regular H entries q = Inr (p, e, raw)"
  shows "mr_content_sha256 (pe_record e) = Some (H raw)"
proof -
  have "settled_at H entries p e raw" using assms by (intro regular_loop_settled [of _ _ 65 "{}" q]) (simp add: regular_def)
  then show ?thesis by (auto simp: settled_at_def regular_file_def)
qed

lemma parsed_dependencies:
  assumes "loop_inv H entries execs roots [] parsed sonames" "(p, obj) \<in> set parsed"
  shows "list_all2 (\<lambda>name q. \<exists>obj'. (q, obj') \<in> set parsed \<and> po_soname obj' = Some name) (po_needed obj) (po_dependencies obj)"
proof -
  have ok: "object_ok H entries execs x o'" if "(x, o') \<in> set parsed" for x o' using assms(1) that by (auto simp: loop_inv_def)
  have edges: "set (po_dependencies obj) \<subseteq> fst ` set parsed" using assms by (auto simp: loop_inv_def object_edges_def)
  have "\<exists>obj'. (q, obj') \<in> set parsed \<and> po_soname obj' = Some name" if q: "q \<in> set (po_dependencies obj)" and l: "library H entries name = Inr (q, e', raw')" for name q e' raw'
  proof -
    obtain obj' where obj': "(q, obj') \<in> set parsed" using edges q by auto
    obtain raw interp where "regular H entries q = Inr (q, po_entry obj', raw)" "closure_elf raw = Inr (interp, po_soname obj', po_needed obj')"
      using ok [OF obj'] by (auto simp: object_ok_def)
    with library_Inr [OF l] have "po_soname obj' = Some name" by auto
    with obj' show ?thesis by blast
  qed
  moreover have "list_all2 (\<lambda>name q. \<exists>e' raw'. library H entries name = Inr (q, e', raw')) (po_needed obj) (po_dependencies obj)"
    using ok [OF assms(2)] by (auto simp: object_ok_def)
  ultimately show ?thesis by (auto simp: list_all2_conv_all_nth)
qed

text \<open>C19. When the worklist ends with objects, these are exactly the ones reached from the roots by the libraries and the interpreter that objects
  need, each once. Each has the digest of the bytes that its path resolves to and the names these bytes declare; every name needed is
  resolved to an object that declares it as its own, an executable root has the fixed interpreter, and no two objects declare the same name.\<close>

theorem worklist_is_least:
  assumes "\<forall>p\<in>set roots. settled H entries p" "finite (dom entries)" "closure_loop H entries execs roots [] Map.empty = Some (Inr parsed)"
  shows "distinct (map fst parsed) \<and> fst ` set parsed = {p. reached H entries (set roots) p} \<and>
    (\<forall>(p, obj)\<in>set parsed. \<exists>raw interpreter. regular H entries p = Inr (p, po_entry obj, raw) \<and> mr_content_sha256 (pe_record (po_entry obj)) = Some (H raw) \<and>
       closure_elf raw = Inr (interpreter, po_soname obj, po_needed obj) \<and> (p \<in> execs \<longrightarrow> interpreter = Some (ustr INTERP)) \<and>
       list_all2 (\<lambda>name q. \<exists>obj'. (q, obj') \<in> set parsed \<and> po_soname obj' = Some name) (po_needed obj) (po_dependencies obj)) \<and>
    (\<forall>(p, obj)\<in>set parsed. \<forall>(p', obj')\<in>set parsed. po_soname obj = po_soname obj' \<and> po_soname obj \<noteq> None \<longrightarrow> p = p')"
proof -
  obtain claimed where inv: "loop_inv H entries execs (set roots) [] parsed claimed"
    using closure_loop_ends [OF initial_inv [OF assms(1)] assms(2), of execs] assms(3) by auto
  have "\<exists>raw interpreter. regular H entries p = Inr (p, po_entry obj, raw) \<and> mr_content_sha256 (pe_record (po_entry obj)) = Some (H raw) \<and>
       closure_elf raw = Inr (interpreter, po_soname obj, po_needed obj) \<and> (p \<in> execs \<longrightarrow> interpreter = Some (ustr INTERP)) \<and>
       list_all2 (\<lambda>name q. \<exists>obj'. (q, obj') \<in> set parsed \<and> po_soname obj' = Some name) (po_needed obj) (po_dependencies obj)"
    if "(p, obj) \<in> set parsed" for p obj
  proof -
    have "object_ok H entries execs p obj" using inv that by (auto simp: loop_inv_def)
    with parsed_dependencies [OF inv that] regular_digest show ?thesis unfolding object_ok_def by blast
  qed
  moreover have "p = p'" if two: "(p, obj) \<in> set parsed" "(p', obj') \<in> set parsed" "po_soname obj = po_soname obj'" "po_soname obj \<noteq> None" for p obj p' obj'
  proof -
    obtain name where name: "po_soname obj = Some name" "po_soname obj' = Some name" using two(3,4) by auto
    have "claimed name = Some x" if "(x, o') \<in> set parsed" "po_soname o' = Some name" for x o' using inv that by (auto simp: loop_inv_def)
    from this [OF two(1) name(1)] this [OF two(2) name(2)] show ?thesis by simp
  qed
  moreover have "distinct (map fst parsed)" using inv by (simp add: loop_inv_def)
  ultimately show ?thesis using closed_reaches [OF inv] by blast
qed

section \<open>Sample objects\<close>

definition word8 :: "nat \<Rightarrow> bytes" where "word8 n = [n mod 256, n div 256] @ replicate 6 0"

definition sample_elf :: "(nat \<times> nat) list \<Rightarrow> bytes \<Rightarrow> bytes" where
  "sample_elf tags strings =
     (let dynamic = concat (map (\<lambda>(t, v). word8 t @ word8 v) tags); total = 176 + length dynamic + length strings in
      [127, 69, 76, 70, 2, 1, 1, 0] @ replicate 8 0 @ [3, 0, 62, 0, 1, 0, 0, 0] @ word8 0 @ word8 64 @ word8 0 @
      [0, 0, 0, 0, 64, 0, 56, 0, 2, 0, 0, 0, 0, 0, 0, 0] @
      [1, 0, 0, 0, 0, 0, 0, 0] @ word8 0 @ word8 0 @ word8 0 @ word8 total @ word8 total @ word8 4096 @
      [2, 0, 0, 0, 0, 0, 0, 0] @ word8 176 @ word8 176 @ word8 0 @ word8 (length dynamic) @ word8 (length dynamic) @ word8 0 @ dynamic @ strings)"

definition elf_a :: bytes where "elf_a = sample_elf [(5, 256), (10, 5), (14, 1), (1, 3), (0, 0)] [0, 97, 0, 98, 0]"
definition elf_b :: bytes where "elf_b = sample_elf [(5, 240), (10, 3), (14, 1), (0, 0)] [0, 98, 0]"

lemma elf_b: "closure_elf elf_b = Inr (None, Some (ustr ''b''), [])"
  by code_simp

lemma elf_a: "closure_elf elf_a = Inr (None, Some (ustr ''a''), [ustr ''b''])"
  by code_simp

definition sample_entry :: "string \<Rightarrow> bytes \<Rightarrow> planned_entry" where
  "sample_entry path raw = \<lparr>pe_source = ustr ''sample'', pe_owner = None,
     pe_record = \<lparr>mr_path = ustr path, mr_kind = KFile, mr_mode = 493, mr_uid = 0, mr_gid = 0, mr_mtime = 0, mr_archive_size = length raw, mr_link_text = None,
       mr_resolved_link_path = None, mr_hardlink_target = None, mr_content_sha256 = Some raw, mr_data_offset = 0, mr_obj = (0, 0)\<rparr>,
     pe_generated = Some raw\<rparr>"

definition sample_entries :: path_map where
  "sample_entries = [ustr ''lib64/a'' \<mapsto> sample_entry ''lib64/a'' elf_a, ustr ''lib64/b'' \<mapsto> sample_entry ''lib64/b'' elf_b]"

lemma no_symlinks: "\<forall>e\<in>ran entries. mr_kind (pe_record e) \<noteq> KSymlink \<Longrightarrow> first_symlink entries parts is = None"
  by (induction "is") (auto simp: ran_def split: option.split)

lemma sample_no_symlinks: "first_symlink sample_entries parts is = None"
  by (rule no_symlinks) (auto simp: sample_entries_def sample_entry_def ran_def split: if_split_asm)

lemma regular_missing:
  assumes "first_symlink entries (split_on 47 p) [1..<Suc (length (split_on 47 p))] = None" "entries p = None"
    "list_all (\<lambda>part. part \<notin> {[], ustr ''.'', ustr ''..''}) (split_on 47 p)" "p \<noteq> []" "\<not> starts_with [47] p"
  shows "regular H entries p = Inl (RuntimeClosureError True)"
proof -
  have "regular_loop H entries (Suc n) {} p = Inl (RuntimeClosureError True)" for n
    using assms(1-3) unfolding regular_loop.simps Let_def rfail_def by simp
  then have "regular_loop H entries 65 {} p = Inl (RuntimeClosureError True)" unfolding numeral_eq_Suc by blast
  with assms(4,5) show ?thesis by (simp add: regular_def rfail_def)
qed

lemma sample_regular:
  "regular (\<lambda>x. x) sample_entries (ustr ''lib64/a'') = Inr (ustr ''lib64/a'', sample_entry ''lib64/a'' elf_a, elf_a)"
  "regular (\<lambda>x. x) sample_entries (ustr ''lib64/b'') = Inr (ustr ''lib64/b'', sample_entry ''lib64/b'' elf_b, elf_b)"
proof -
  have f: "regular_file (\<lambda>x. x) (ustr path) (sample_entry path raw) = Inr (ustr path, sample_entry path raw, raw)" for path raw
    by (simp add: regular_file_def sample_entry_def planned_content_def rfail_def require_def)
  have "mr_kind (pe_record (sample_entry path raw)) \<noteq> KHardlink" for path raw by (simp add: sample_entry_def)
  then show "regular (\<lambda>x. x) sample_entries (ustr ''lib64/a'') = Inr (ustr ''lib64/a'', sample_entry ''lib64/a'' elf_a, elf_a)"
    "regular (\<lambda>x. x) sample_entries (ustr ''lib64/b'') = Inr (ustr ''lib64/b'', sample_entry ''lib64/b'' elf_b, elf_b)"
    by (intro settled_regular; simp add: settled_at_def sample_no_symlinks f del: upt_Suc, simp add: sample_entries_def ustr_def)+
qed

lemma sample_library: "library (\<lambda>x. x) sample_entries (ustr ''b'') = Inr (ustr ''lib64/b'', sample_entry ''lib64/b'' elf_b, elf_b)"
proof -
  have miss: "regular (\<lambda>x. x) sample_entries (ustr d @ 47 # ustr ''b'') = Inl (RuntimeClosureError True)"
    if "d \<in> {''lib/x86_64-linux-gnu'', ''usr/lib/x86_64-linux-gnu'', ''usr/lib64''}" for d
    using that by (intro regular_missing sample_no_symlinks) (auto simp: sample_entries_def ustr_def starts_with_def)
  have hit: "regular (\<lambda>x. x) sample_entries (ustr ''lib64'' @ 47 # ustr ''b'') = Inr (ustr ''lib64/b'', sample_entry ''lib64/b'' elf_b, elf_b)"
    using sample_regular(2) by (simp add: ustr_def)
  show ?thesis by (simp add: library_def SEARCH_def miss hit elf_b rfail_def)
qed

theorem worklist_is_least_witness:
  "\<exists>parsed. closure_loop (\<lambda>x. x) sample_entries {} [ustr ''lib64/a''] [] Map.empty = Some (Inr parsed) \<and>
     fst ` set parsed = {p. reached (\<lambda>x. x) sample_entries {ustr ''lib64/a''} p}"
proof -
  let ?a = "\<lparr>po_entry = sample_entry ''lib64/a'' elf_a, po_interpreter = None, po_soname = Some (ustr ''a''), po_needed = [ustr ''b''], po_dependencies = [ustr ''lib64/b'']\<rparr>"
  let ?b = "\<lparr>po_entry = sample_entry ''lib64/b'' elf_b, po_interpreter = None, po_soname = Some (ustr ''b''), po_needed = [], po_dependencies = []\<rparr>"
  have a: "visit_object (\<lambda>x. x) sample_entries {} (ustr ''lib64/a'') [] Map.empty = Inr ([(ustr ''lib64/a'', ?a)], [ustr ''a'' \<mapsto> ustr ''lib64/a''], [ustr ''lib64/b''])"
    by (simp add: visit_object_def sample_regular elf_a sample_library require_root_interpreter_def claim_soname_def rfail_def)
  have b: "visit_object (\<lambda>x. x) sample_entries {} (ustr ''lib64/b'') [(ustr ''lib64/a'', ?a)] [ustr ''a'' \<mapsto> ustr ''lib64/a''] =
      Inr ([(ustr ''lib64/a'', ?a), (ustr ''lib64/b'', ?b)], [ustr ''a'' \<mapsto> ustr ''lib64/a'', ustr ''b'' \<mapsto> ustr ''lib64/b''], [])"
    by (simp add: visit_object_def sample_regular elf_b require_root_interpreter_def claim_soname_def rfail_def)
  have loop: "closure_loop (\<lambda>x. x) sample_entries {} [ustr ''lib64/a''] [] Map.empty = Some (Inr [(ustr ''lib64/a'', ?a), (ustr ''lib64/b'', ?b)])"
    by (subst closure_loop.simps, simp add: a, subst closure_loop.simps, simp add: b, subst closure_loop.simps, simp)
  have "\<forall>p\<in>set [ustr ''lib64/a'']. settled (\<lambda>x. x) sample_entries p" "finite (dom sample_entries)"
    using sample_regular(1) by (simp_all add: settled_def sample_entries_def)
  from worklist_is_least [OF this loop] loop show ?thesis by auto
qed

text \<open>The records of a computed closure are exactly the objects reached from the fixed programs by the libraries and the interpreter that
  objects need, each once. Each record has the digest of the bytes that its path resolves to and the names these bytes declare;
  every name needed is resolved to a record that declares it as its own, and no two records declare the same name.\<close>

lemma closure_is_least:
  assumes "fixed_runtime_closure H authority revalidate expected_sources = Some (Inr res)"
  shows "\<exists>fresh entries roots. revalidate authority = Inr fresh \<and> closure_entries (pl_entries (au_plan fresh)) Map.empty = Inr entries \<and>
    closure_roots H entries = Inr roots \<and> length (re_records res) = 35 \<and> distinct (map cr_path (re_records res)) \<and>
    set (map cr_path (re_records res)) = {p. reached H entries (set roots) p} \<and>
    (\<forall>r\<in>set (re_records res). \<exists>e raw interpreter. regular H entries (cr_path r) = Inr (cr_path r, e, raw) \<and> cr_content_sha256 r = Some (H raw) \<and>
       closure_elf raw = Inr (interpreter, cr_soname r, cr_needed r) \<and>
       list_all2 (\<lambda>name q. \<exists>r'\<in>set (re_records res). cr_path r' = q \<and> cr_soname r' = Some name) (cr_needed r) (cr_resolved r)) \<and>
    (\<forall>r\<in>set (re_records res). \<forall>r'\<in>set (re_records res). cr_soname r = cr_soname r' \<and> cr_soname r \<noteq> None \<longrightarrow> r = r')"
proof -
  obtain entries roots where start: "closure_start H authority revalidate = Inr (entries, roots)"
    using assms by (cases "closure_start H authority revalidate") (auto simp: fixed_runtime_closure_def)
  obtain parsed claimed where inv: "loop_inv H entries (set (butlast roots)) (set roots) [] parsed claimed" and res: "closure_of_parsed H expected_sources parsed = Inr res"
    using closure_start_loop [OF start] assms start by (auto simp: fixed_runtime_closure_def)
  have records: "closure_records parsed = Inr (re_records res)" "length (re_records res) = 35" using res by (auto simp: closure_of_parsed_def)
  have m: "mset (re_records res) = mset (map closure_record_of parsed)" by (rule closure_records_Inr [OF records(1)])
  have path: "cr_path (closure_record_of x) = fst x" for x by (simp add: closure_record_of_def Let_def split: prod.split)
  have set: "set (re_records res) = closure_record_of ` set parsed" using arg_cong [OF m, of set_mset] by simp
  have mp: "mset (map cr_path (re_records res)) = mset (map fst parsed)"
    using arg_cong [OF m, of "image_mset cr_path"] by (simp add: path comp_def image_mset.compositionality)
  have paths: "distinct (map cr_path (re_records res))" using mset_eq_imp_distinct_iff [OF mp] inv by (simp add: loop_inv_def)
  have all: "set (map cr_path (re_records res)) = {p. reached H entries (set roots) p}" using mset_eq_setD [OF mp] closed_reaches [OF inv] by simp
  have rec: "cr_content_sha256 (closure_record_of (p, obj)) = mr_content_sha256 (pe_record (po_entry obj))" "cr_soname (closure_record_of (p, obj)) = po_soname obj"
      "cr_needed (closure_record_of (p, obj)) = po_needed obj" "cr_resolved (closure_record_of (p, obj)) = po_dependencies obj" for p obj
    by (simp_all add: closure_record_of_def Let_def)
  have "\<exists>e raw interpreter. regular H entries (cr_path r) = Inr (cr_path r, e, raw) \<and> cr_content_sha256 r = Some (H raw) \<and>
       closure_elf raw = Inr (interpreter, cr_soname r, cr_needed r) \<and>
       list_all2 (\<lambda>name q. \<exists>r'\<in>set (re_records res). cr_path r' = q \<and> cr_soname r' = Some name) (cr_needed r) (cr_resolved r)"
    if "r \<in> set (re_records res)" for r
  proof -
    from that obtain p obj where r: "(p, obj) \<in> set parsed" "r = closure_record_of (p, obj)" by (auto simp: set)
    obtain raw interp where o: "regular H entries p = Inr (p, po_entry obj, raw)" "closure_elf raw = Inr (interp, po_soname obj, po_needed obj)"
      using inv r(1) by (auto simp: loop_inv_def object_ok_def)
    have "list_all2 (\<lambda>name q. \<exists>r'\<in>set (re_records res). cr_path r' = q \<and> cr_soname r' = Some name) (po_needed obj) (po_dependencies obj)"
      using parsed_dependencies [OF inv r(1)] by (rule list_all2_mono) (force simp: set path rec)
    then show ?thesis using o regular_digest [OF o(1)] by (simp add: r(2) path rec)
  qed
  moreover have "r = r'" if two: "r \<in> set (re_records res)" "r' \<in> set (re_records res)" "cr_soname r = cr_soname r'" "cr_soname r \<noteq> None" for r r'
  proof -
    obtain p obj p' obj' where r: "(p, obj) \<in> set parsed" "r = closure_record_of (p, obj)" "(p', obj') \<in> set parsed" "r' = closure_record_of (p', obj')"
      using two(1,2) by (auto simp: set)
    obtain name where name: "po_soname obj = Some name" "po_soname obj' = Some name" using two(3,4) unfolding r(2,4) rec by auto
    have "claimed name = Some x" if "(x, o') \<in> set parsed" "po_soname o' = Some name" for x o' using inv that by (auto simp: loop_inv_def)
    from this [OF r(1) name(1)] this [OF r(3) name(2)] have "p = p'" by simp
    moreover have "distinct (map fst parsed)" using inv by (simp add: loop_inv_def)
    ultimately show ?thesis using r by (metis map_of_is_SomeI option.inject)
  qed
  ultimately show ?thesis using closure_start_Inr [OF start] records(2) paths all by blast
qed

end
