(* ===== verification/ElfAgreement.thy ===== *)
theory ElfAgreement
  imports ClosureSafety ElfSafety
begin

text \<open>
  The campaign reads ELF files with two parsers: \<^verbatim>\<open>completion_elf.py\<close>, which follows the loader's view of pages, and the stricter
  reader of \<^verbatim>\<open>completion_runtime_closure.py\<close>. Whenever both accept a file they report the same interpreter, name and needs.
\<close>

lemma unpack_field: "field raw offset width = Inr x \<longleftrightarrow> unpack raw offset width = Inr x"
  by (auto simp: field_def unpack_def Let_def)

lemma elf_header_Inr:
  "elf_header raw = Inr (start, number) \<Longrightarrow> unpack raw 32 8 = Inr start \<and> unpack raw 56 2 = Inr number \<and> 0 < number"
  by (auto simp: elf_header_def unpack_field span_def split: if_split_asm)

lemma closure_header_Inr:
  "closure_header raw = Inr (start, stop) \<Longrightarrow> \<exists>number. unpack raw 32 8 = Inr start \<and> unpack raw 56 2 = Inr number \<and> stop = start + number * 56"
  by (auto simp: closure_header_def closure_span_def)

text \<open>The segments of the two parsers.\<close>

definition load_quad :: "load \<Rightarrow> quad" where
  "load_quad l = (virtual_start l, virtual_end l, file_start l, file_end l - file_start l)"

definition segment_quad :: "segment \<Rightarrow> quad" where
  "segment_quad = (\<lambda>(address, memory_end, offset, stop). (address, memory_end, offset, stop - offset))"

definition same_segments :: "segments \<Rightarrow> program_segments \<Rightarrow> bool" where
  "same_segments sg pg \<longleftrightarrow> pg_loads pg = map load_quad (sg_loads sg) \<and> pg_dynamic pg = map segment_quad (sg_dynamic sg) \<and>
     pg_interpreters pg = map segment_quad (sg_interpreter sg)"

lemma load_segment_quad:
  "load_segment address memory_end file_offset file_stop file_size memory_size = Inr l \<Longrightarrow> load_quad l = (address, memory_end, file_offset, file_stop - file_offset)"
  by (auto simp: load_segment_def load_quad_def)

lemma program_header_agree:
  assumes "program_header raw offset sg = Inr sg'" "closure_program_header raw offset pg = Inr pg'" "same_segments sg pg"
  shows "same_segments sg' pg'"
proof -
  obtain kind file_offset address filesz memsz align where u: "unpack raw offset 4 = Inr kind" "unpack raw (offset + 8) 8 = Inr file_offset"
      "unpack raw (offset + 16) 8 = Inr address" "unpack raw (offset + 32) 8 = Inr filesz" "unpack raw (offset + 40) 8 = Inr memsz"
      "unpack raw (offset + 48) 8 = Inr align"
    using assms(2) by (auto simp: closure_program_header_def)
  let ?segment = "(address, address + memsz, file_offset, file_offset + filesz)"
  note f = u [folded unpack_field]
  have sg': "if kind = 1 then \<exists>l. load_quad l = segment_quad ?segment \<and> sg' = sg\<lparr>sg_loads := sg_loads sg @ [l]\<rparr>
      else if kind = 2 then sg' = sg\<lparr>sg_dynamic := sg_dynamic sg @ [?segment]\<rparr>
      else if kind = 3 then sg' = sg\<lparr>sg_interpreter := sg_interpreter sg @ [?segment]\<rparr> else sg' = sg"
    using assms(1) by (auto simp: program_header_def f span_def Let_def segment_quad_def dest!: load_segment_quad split: if_split_asm)
  have pg': "pg' = (if kind = 1 then pg\<lparr>pg_loads := pg_loads pg @ [segment_quad ?segment]\<rparr>
      else if kind = 2 then pg\<lparr>pg_dynamic := pg_dynamic pg @ [segment_quad ?segment]\<rparr>
      else if kind = 3 then pg\<lparr>pg_interpreters := pg_interpreters pg @ [segment_quad ?segment]\<rparr> else pg)"
    using assms(2) by (auto simp: closure_program_header_def u Let_def segment_quad_def split: if_split_asm)
  from sg' pg' assms(3) show ?thesis by (auto simp: same_segments_def split: if_split_asm)
qed

lemma program_headers_agree:
  "program_headers raw offsets sg = Inr sg' \<Longrightarrow> closure_program_headers raw offsets pg = Inr pg' \<Longrightarrow> same_segments sg pg \<Longrightarrow> same_segments sg' pg'"
proof (induction offsets arbitrary: sg pg)
  case (Cons offset rest)
  then obtain sg1 pg1 where "program_header raw offset sg = Inr sg1" "program_headers raw rest sg1 = Inr sg'"
      "closure_program_header raw offset pg = Inr pg1" "closure_program_headers raw rest pg1 = Inr pg'" by auto
  then show ?case using Cons.IH program_header_agree Cons.prems(3) by blast
qed simp

lemma mapped_agree:
  assumes "mapped loads address bytes = Inr at" "closure_mapped (map load_quad loads) address bytes = Inr at'"
  shows "at = at'"
proof -
  let ?hits = "filter (\<lambda>l. covers l address (address + bytes)) loads"
  have "map (\<lambda>(v, _, f, n). f + address - v) (filter (\<lambda>(v, _, f, n). v \<le> address \<and> address + bytes \<le> v + n) (map load_quad loads)) =
      map (\<lambda>l. file_start l + address - virtual_start l) ?hits"
    by (induction loads) (auto simp: load_quad_def covers_def algebra_simps)
  then have "length ?hits = 1" "at' = hd (map (\<lambda>l. file_start l + address - virtual_start l) ?hits)"
    using assms(2) by (auto simp: closure_mapped_def Let_def dest: arg_cong [of _ _ length])
  moreover have "at = hd (remdups (map (\<lambda>l. file_start l + address - virtual_start l) ?hits))" using assms(1) by (auto simp: mapped_def Let_def span_def)
  ultimately show ?thesis by (auto simp: length_Suc_conv)
qed

lemma interpreter_agree:
  assumes "interpreter_of raw sg = Inr x" "closure_interpreter raw pg = Inr y" "same_segments sg pg"
  shows "x = y"
proof -
  have "x = (if sg_interpreter sg = [] then None else Some INTERPRETER)" using assms(1)
    by (auto simp: interpreter_of_def Let_def split: list.split_asm)
  moreover have "y = (if pg_interpreters pg = [] then None else Some (ustr INTERP))" using assms(2)
    by (auto simp: closure_interpreter_def Let_def split: list.split_asm)
  ultimately show ?thesis using assms(3) by (auto simp: same_segments_def INTERPRETER_def INTERP_def)
qed

lemma tags_agree: "dynamic_tags raw offsets stopped acc = Inr t \<Longrightarrow> closure_tags raw offsets stopped acc = Inr t' \<Longrightarrow> t = t'"
  by (induction raw offsets stopped acc rule: dynamic_tags.induct) (auto simp: unpack_field split: if_split_asm)

lemma dynamic_agree:
  assumes "dynamic_of raw sg = Inr t" "closure_dynamic raw pg = Inr t'" "same_segments sg pg"
  shows "t = t'"
proof -
  obtain address e offset stop rest where sg: "sg_dynamic sg = (address, e, offset, stop) # rest"
    using assms(1) by (auto simp: dynamic_of_def split: list.split_asm)
  then have "pg_dynamic pg = (address, e, offset, stop - offset) # map segment_quad rest" using assms(3) by (simp add: same_segments_def segment_quad_def)
  then have "closure_tags raw (offsets_between offset stop 16) False [] = Inr t'" using assms(2) by (auto simp: closure_dynamic_def Let_def)
  moreover have "dynamic_tags raw (offsets_between offset stop 16) False [] = Inr t" using assms(1) sg by (auto simp: dynamic_of_def Let_def)
  ultimately show ?thesis using tags_agree by blast
qed

section \<open>Names\<close>

lemma find_first_take: "find_first (\<lambda>b. b = (0::nat)) (take m xs) = Some i \<Longrightarrow> take i xs = takeWhile (\<lambda>b. b \<noteq> 0) xs \<and> i < m"
proof (induction xs arbitrary: m i)
  case (Cons x xs)
  then show ?case by (cases m) (auto split: if_split_asm)
qed simp

text \<open>A name that was found is what stands before the next zero byte.\<close>

lemma name_found:
  assumes "find_nul (take m raw) start limit = stop" "start < stop" "0 \<le> start"
  shows "slice (nat start) (nat stop) (take m raw) = takeWhile (\<lambda>b. b \<noteq> 0) (drop (nat start) raw)"
proof -
  obtain i where i: "find_first (\<lambda>b. b = 0) (slice (nat start) (nat limit) (take m raw)) = Some i" "stop = start + int i"
    using assms by (auto simp: find_nul_def split: option.split_asm)
  let ?m = "min (nat limit - nat start) (m - nat start)"
  have f: "find_first (\<lambda>b. b = 0) (take ?m (drop (nat start) raw)) = Some i" using i(1) by (simp add: slice_def drop_take)
  from find_first_take [OF f] have t: "take i (drop (nat start) raw) = takeWhile (\<lambda>b. b \<noteq> 0) (drop (nat start) raw)" "i < m - nat start" by simp_all
  then show ?thesis using i(2) assms(3) by (simp add: slice_def drop_take nat_add_distrib min_absorb1)
qed

lemma values_nonneg: "dynamic_tags raw offsets stopped acc = Inr t \<Longrightarrow> \<forall>(tag, v)\<in>set acc. 0 \<le> v \<Longrightarrow> \<forall>(tag, v)\<in>set t. 0 \<le> v"
  using tags_nonneg [of raw offsets stopped acc t] by (simp add: list_all_iff)

lemma name_agree:
  assumes "name_at raw so se rel = Inr n" "closure_name_at (py_slice so se raw) rel = Inr n'" "0 \<le> so" "so \<le> se" "se \<le> int (length raw)" "0 \<le> rel"
  shows "n = n'"
proof -
  let ?raw = "drop (nat so) raw"
  have strings: "py_slice so se raw = take (nat se - nat so) ?raw" using assms(3-5) by (auto simp: py_slice_def clip_def slice_def min_def)
  obtain stop where "find_nul (py_slice so se raw) rel (int (length (py_slice so se raw))) = stop" "rel < stop"
      "n' = slice (nat rel) (nat stop) (py_slice so se raw)"
    using assms(2) by (auto simp: closure_name_at_def Let_def)
  then have "n' = takeWhile (\<lambda>b. b \<noteq> 0) (drop (nat rel) ?raw)" using name_found assms(6) unfolding strings by blast
  moreover obtain stop limit where "find_nul raw (so + rel) limit = stop" "so + rel < stop" "n = slice (nat (so + rel)) (nat stop) raw"
    using assms(1) by (auto simp: name_at_def Let_def)
  then have "n = takeWhile (\<lambda>b. b \<noteq> 0) (drop (nat (so + rel)) raw)" using name_found [of "length raw" raw "so + rel" limit stop] assms(3,6) by simp
  ultimately show ?thesis using assms(3,6) by (simp add: nat_add_distrib add.commute)
qed

lemma names_agree:
  assumes "map_result (name_at raw so se) rels = Inr ns" "map_result (closure_name_at (py_slice so se raw)) rels = Inr ns'"
    "0 \<le> so" "so \<le> se" "se \<le> int (length raw)" "\<forall>rel\<in>set rels. 0 \<le> rel"
  shows "ns = ns'"
  using assms
proof (induction rels arbitrary: ns ns')
  case (Cons rel rels)
  then obtain n n' ms ms' where "name_at raw so se rel = Inr n" "closure_name_at (py_slice so se raw) rel = Inr n'"
      "map_result (name_at raw so se) rels = Inr ms" "map_result (closure_name_at (py_slice so se raw)) rels = Inr ms'" "ns = n # ms" "ns' = n' # ms'" by auto
  moreover from this have "ms = ms'" using Cons.IH [of ms ms'] Cons.prems(3-6) by simp
  ultimately show ?case using name_agree [of raw so se rel n n'] Cons.prems(3-6) by simp
qed simp

lemma strings_agree:
  assumes "string_table raw loads tags = Inr (so, se)" "closure_strings raw (map load_quad loads) tags = Inr strings"
  shows "strings = py_slice so se raw" "0 \<le> so" "so \<le> se" "se \<le> int (length raw)"
proof -
  obtain table bytes where t: "tag_values tags 5 = [table]" "tag_values tags 10 = [bytes]"
    using assms(1) by (auto simp: string_table_def split: list.split_asm)
  have e: "mapped loads table bytes = Inr so" "se = so + bytes" and r: "0 \<le> so" "0 < bytes" "so + bytes \<le> int (length raw)"
    using assms(1) by (auto simp: string_table_def t span_def)
  obtain at where a: "closure_mapped (map load_quad loads) table bytes = Inr at" "strings = py_slice at (at + bytes) raw"
    using assms(2) by (auto simp: closure_strings_def t)
  show "strings = py_slice so se raw" "0 \<le> so" "so \<le> se" "se \<le> int (length raw)" using mapped_agree [OF e(1) a(1)] a(2) e(2) r by auto
qed

text \<open>C21. Whenever the loader's parser and the reader of the runtime closure both accept the bytes of a file, they report the same interpreter,
  the same name of the object and the same needed names in the same order.\<close>

theorem elf_parsers_agree:
  assumes "parse_elf64 raw = Inr metadata" "closure_elf raw = Inr (interpreter, soname, needed)"
  shows "interpreter = em_interpreter metadata \<and> soname = em_soname metadata \<and> needed = em_needed metadata"
proof -
  obtain start number sg where e: "elf_header raw = Inr (start, number)"
      "program_headers raw (map (\<lambda>i. start + int i * 56) [0..<nat number]) \<lparr>sg_loads = [], sg_dynamic = [], sg_interpreter = []\<rparr> = Inr sg"
    using assms(1) by (auto simp: parse_elf64_def)
  obtain tags so se where t: "interpreter_of raw sg = Inr (em_interpreter metadata)" "dynamic_of raw sg = Inr tags" "string_table raw (sg_loads sg) tags = Inr (so, se)"
      "map_result (name_at raw so se) (tag_values tags 1) = Inr (em_needed metadata)"
      "(case tag_values tags 14 of [] \<Rightarrow> Inr None | relative # _ \<Rightarrow> rbind (name_at raw so se relative) (\<lambda>n. Inr (Some n))) = Inr (em_soname metadata)"
    using assms(1) by (auto simp: parse_elf64_def e)
  obtain start' stop pg where c: "closure_header raw = Inr (start', stop)"
      "closure_program_headers raw (offsets_between start' stop 56) \<lparr>pg_loads = [], pg_dynamic = [], pg_interpreters = []\<rparr> = Inr pg"
    using assms(2) by (auto simp: closure_elf_def)
  obtain tags' strings sonames where u: "closure_interpreter raw pg = Inr interpreter" "closure_dynamic raw pg = Inr tags'"
      "closure_strings raw (pg_loads pg) tags' = Inr strings" "map_result (closure_name_at strings) (tag_values tags' 1) = Inr needed"
      "map_result (closure_name_at strings) (tag_values tags' 14) = Inr sonames" "length sonames \<le> 1" "soname = (case sonames of [] \<Rightarrow> None | s # _ \<Rightarrow> Some s)"
    using assms(2) by (auto simp: closure_elf_def c)
  have "start' = start" "stop = start + number * 56" "0 < number" using elf_header_Inr [OF e(1)] closure_header_Inr [OF c(1)] by auto
  then have "offsets_between start' stop 56 = map (\<lambda>i. start + int i * 56) [0..<nat number]" by (simp add: offsets_between_def)
  then have same: "same_segments sg pg" using program_headers_agree [OF e(2), of _ pg] c(2) by (simp add: same_segments_def)
  have tags: "tags' = tags" by (rule dynamic_agree [OF t(2) u(2) same, symmetric])
  have "pg_loads pg = map load_quad (sg_loads sg)" using same by (simp add: same_segments_def)
  note s = strings_agree [OF t(3) u(3) [unfolded this tags]]
  have "\<forall>rel\<in>set (tag_values tags k). 0 \<le> rel" for k
    using t(2) values_nonneg [of raw _ False "[]" tags] by (fastforce simp: dynamic_of_def tag_values_def Let_def split: list.split_asm)
  note nonneg = this
  have "needed = em_needed metadata" using names_agree [OF t(4) u(4) [unfolded tags s(1)] s(2-4) nonneg] by simp
  moreover have "soname = em_soname metadata"
  proof (cases "tag_values tags 14")
    case Nil
    then show ?thesis using t(5) u(5,7) by (simp add: tags)
  next
    case (Cons rel rest)
    then obtain n n' where n: "name_at raw so se rel = Inr n" "em_soname metadata = Some n" "closure_name_at strings rel = Inr n'" "soname = Some n'"
      using t(5) u(5,7) by (auto simp: tags)
    then show ?thesis using name_agree [OF n(1) n(3) [unfolded s(1)] s(2-4)] nonneg [of 14] Cons by simp
  qed
  ultimately show ?thesis using interpreter_agree [OF t(1) u(1) same] by simp
qed

lemma max_file_size [code_unfold]: "length data \<le> MAX_FILE_SIZE \<longleftrightarrow> int (length data) \<le> 134217728"
  by (auto simp: MAX_FILE_SIZE_def)

theorem elf_parsers_agree_witness: "\<exists>metadata. parse_elf64 elf_b = Inr metadata \<and> em_soname metadata = Some (ustr ''b'')"
proof -
  have "parse_elf64 elf_b = Inr \<lparr>em_interpreter = None, em_soname = Some [98], em_needed = []\<rparr>" by code_simp
  from elf_parsers_agree [OF this elf_b] this show ?thesis by auto
qed

section \<open>Errors of the reader\<close>

definition own_error :: "'a result \<Rightarrow> bool" where
  "own_error r \<longleftrightarrow> (\<forall>e. r = Inl e \<longrightarrow> e = RuntimeClosureError False)"

lemma own_error_intros:
  "own_error (Inr x)" "own_error (Inl (RuntimeClosureError False))" "(c \<Longrightarrow> own_error k) \<Longrightarrow> own_error (rfail c k)"
  "own_error m \<Longrightarrow> (\<And>x. m = Inr x \<Longrightarrow> own_error (f x)) \<Longrightarrow> own_error (rbind m f)"
  "nat offset + width \<le> length raw \<Longrightarrow> own_error (unpack raw offset width)"
  by (auto simp: own_error_def rfail_def require_def rbind_def unpack_def Let_def split: sum.split_asm)

lemma own_error_map: "(\<And>x. x \<in> set xs \<Longrightarrow> own_error (f x)) \<Longrightarrow> own_error (map_result f xs)"
  by (induction xs) (auto intro!: own_error_intros)

lemma own_error_span: "own_error (closure_span start bytes maximum)"
  unfolding closure_span_def by (intro own_error_intros)

lemma own_error_mapped: "own_error (closure_mapped loads address bytes)"
  unfolding closure_mapped_def Let_def by (intro own_error_intros own_error_span)

lemma own_error_header: "own_error (closure_header raw)"
  unfolding closure_header_def split_beta by (intro own_error_intros own_error_span) (auto intro: own_error_intros own_error_span)

lemma header_bounds: "closure_header raw = Inr (start, stop) \<Longrightarrow> 64 \<le> start \<and> stop \<le> int (length raw)"
  by (auto simp: closure_header_def closure_span_def)

definition segments_inside :: "bytes \<Rightarrow> program_segments \<Rightarrow> bool" where
  "segments_inside raw pg \<longleftrightarrow> (\<forall>(address, e, offset, bytes)\<in>set (pg_dynamic pg). 0 \<le> offset \<and> offset + bytes \<le> int (length raw))"

lemma program_header_own:
  assumes "0 \<le> offset" "offset + 56 \<le> int (length raw)"
  shows "own_error (closure_program_header raw offset pg)"
  unfolding closure_program_header_def Let_def using assms by (intro own_error_intros own_error_span) (auto intro: own_error_intros)

lemma program_header_inside:
  "closure_program_header raw offset pg = Inr pg' \<Longrightarrow> segments_inside raw pg \<Longrightarrow> segments_inside raw pg'"
  by (auto simp: closure_program_header_def closure_span_def segments_inside_def Let_def split: if_split_asm)

lemma program_headers_own:
  "\<forall>offset\<in>set offsets. 0 \<le> offset \<and> offset + 56 \<le> int (length raw) \<Longrightarrow> own_error (closure_program_headers raw offsets pg)"
  by (induction offsets arbitrary: pg) (auto intro!: own_error_intros program_header_own)

lemma program_headers_inside:
  "closure_program_headers raw offsets pg = Inr pg' \<Longrightarrow> segments_inside raw pg \<Longrightarrow> segments_inside raw pg'"
  by (induction offsets arbitrary: pg) (auto, metis program_header_inside)

lemma offsets_inside: "offset \<in> set (offsets_between start stop step) \<Longrightarrow> 0 < step \<Longrightarrow> start \<le> offset \<and> offset + step \<le> stop"
proof -
  assume "offset \<in> set (offsets_between start stop step)" "0 < step"
  then obtain i where i: "offset = start + int i * step" "int i < (stop - start) div step" by (auto simp: offsets_between_def)
  then have "(int i + 1) * step \<le> (stop - start) div step * step" using \<open>0 < step\<close> by (intro mult_right_mono) auto
  also have "\<dots> \<le> stop - start" using \<open>0 < step\<close> by (simp add: div_times_less_eq_dividend minus_mod_eq_div_mult [symmetric])
  finally show "start \<le> offset \<and> offset + step \<le> stop" using i(1) \<open>0 < step\<close> by (simp add: algebra_simps)
qed

lemma tags_own: "\<forall>offset\<in>set offsets. 0 \<le> offset \<and> offset + 16 \<le> int (length raw) \<Longrightarrow> own_error (closure_tags raw offsets stopped acc)"
  by (induction offsets arbitrary: stopped acc) (auto intro!: own_error_intros)

lemma dynamic_own: "segments_inside raw pg \<Longrightarrow> length (pg_dynamic pg) = 1 \<Longrightarrow> own_error (closure_dynamic raw pg)"
  unfolding closure_dynamic_def
  by (auto simp: length_Suc_conv segments_inside_def Let_def intro!: own_error_intros own_error_mapped tags_own dest!: offsets_inside)

lemma closure_elf_own: "own_error (closure_elf raw)"
proof -
  have "own_error (closure_program_headers raw (offsets_between start stop 56) pg)" if "closure_header raw = Inr (start, stop)" for start stop pg
    using header_bounds [OF that] offsets_inside [of _ start stop 56] by (intro program_headers_own) fastforce
  moreover have "own_error (closure_dynamic raw pg)"
    if "closure_program_headers raw offsets \<lparr>pg_loads = [], pg_dynamic = [], pg_interpreters = []\<rparr> = Inr pg" "length (pg_dynamic pg) = 1" for offsets pg
    using program_headers_inside [OF that(1)] that(2) by (intro dynamic_own) (auto simp: segments_inside_def)
  moreover have "own_error (closure_interpreter raw pg)" "own_error (closure_strings raw loads tags)" "own_error (closure_name_at strings n)" for pg loads tags strings n
    by (auto simp: closure_interpreter_def closure_strings_def closure_name_at_def Let_def intro!: own_error_intros own_error_mapped split: list.split prod.split)
  ultimately show ?thesis unfolding closure_elf_def by (auto intro!: own_error_intros own_error_header own_error_map)
qed

lemma closure_tags_nonneg: "closure_tags raw offsets stopped acc = Inr t \<Longrightarrow> \<forall>(tag, v)\<in>set acc. 0 \<le> v \<Longrightarrow> \<forall>(tag, v)\<in>set t. 0 \<le> v"
proof (induction offsets arbitrary: stopped acc)
  case (Cons offset rest)
  obtain tag v where u: "unpack raw offset 8 = Inr tag" "unpack raw (offset + 8) 8 = Inr v" using Cons.prems(1) by auto
  have "0 \<le> v" using u(2) le_value_nonneg by (auto simp: unpack_def Let_def)
  then show ?case using Cons.prems Cons.IH [of True acc] Cons.IH [of False "acc @ [(tag, v)]"] by (auto simp: u split: if_split_asm)
qed simp

definition object_name :: "pystr \<Rightarrow> bool" where
  "object_name n \<longleftrightarrow> n \<noteq> [] \<and> length n \<le> 255 \<and> set n \<subseteq> set LIBRARY_NAME_BYTES"

lemma closure_name_Inr: "closure_name_at strings offset = Inr n \<Longrightarrow> 0 \<le> offset \<Longrightarrow> object_name n"
  by (auto simp: closure_name_at_def object_name_def Let_def slice_def list_all_iff)

text \<open>C22. On any bytes the reader of the runtime closure returns or raises its own error: no read goes past the end of the file. What it returns
  names the fixed interpreter or none, and its names are distinct, not empty, of at most 255 characters and of the permitted ones.\<close>

theorem closure_elf_sound:
  "case closure_elf raw of
     Inl e \<Rightarrow> e = RuntimeClosureError False
   | Inr (interpreter, soname, needed) \<Rightarrow>
       interpreter \<in> {None, Some (ustr INTERP)} \<and> distinct needed \<and> set needed \<union> set_option soname \<subseteq> Collect object_name"
proof (cases "closure_elf raw")
  case (Inl e)
  then show ?thesis using closure_elf_own [of raw] by (simp add: own_error_def)
next
  case (Inr v)
  obtain interpreter soname needed where v: "v = (interpreter, soname, needed)" by (cases v)
  obtain start stop pg tags strings sonames where c: "closure_header raw = Inr (start, stop)" "closure_interpreter raw pg = Inr interpreter" "closure_dynamic raw pg = Inr tags"
      "map_result (closure_name_at strings) (tag_values tags 1) = Inr needed" "distinct needed" "map_result (closure_name_at strings) (tag_values tags 14) = Inr sonames"
      "soname = (case sonames of [] \<Rightarrow> None | s # _ \<Rightarrow> Some s)"
    using Inr unfolding v closure_elf_def by auto
  have "set ns \<subseteq> Collect object_name" if "map_result (closure_name_at strings) (tag_values tags k) = Inr ns" for k ns
  proof -
    have "\<forall>rel\<in>set (tag_values tags k). 0 \<le> rel"
      using c(3) closure_tags_nonneg [of raw _ False "[]" tags] by (fastforce simp: closure_dynamic_def tag_values_def Let_def split: list.split_asm)
    with that closure_name_Inr show ?thesis unfolding map_result_all2 list_all2_conv_all_nth by (fastforce simp: in_set_conv_nth)
  qed
  from this [OF c(4)] this [OF c(6)] c(5,7) show ?thesis
    using c(2) unfolding Inr v by (auto simp: closure_interpreter_def Let_def split: list.split_asm prod.split_asm)
qed

end
