(* ===== verification/Spec2Isabelle.thy ===== *)
theory Spec2Isabelle
  imports CampaignEncoding CampaignSafety EvidenceSafety ControllerSafety StoreSafety RootfsSafety ElfSafety FdmapSafety CacheSafety
    PackageIndex JournalProperties CleanupBrackets FirewallListing ElfAgreement
begin

text \<open>
  A verification library for the completion campaign of \<^verbatim>\<open>src/deploy/aws-feasibility\<close>: the
  controller that runs seven bounded cycles against a provider and keeps a hash-chained log of what it
  did, the custody of its records and receipts, the reproducible root filesystem image the cycles boot,
  the handing over of descriptors to child processes, and the journal of the network of a cycle.

  \<^bold>\<open>Parts and their interaction.\<close> The controller (\<^verbatim>\<open>completion_campaign_controller.py\<close>) admits an approval,
  emits event records (\<^verbatim>\<open>completion_campaign_contracts.py\<close>), asks the reducer
  (\<^verbatim>\<open>completion_campaign_state.py\<close>) what is allowed next, performs provider actions through ports, and
  seals receipts in the custody chain (\<^verbatim>\<open>completion_campaign_evidence.py\<close>). Records are canonical JSON
  documents with digests, and are published and loaded as files (\<^verbatim>\<open>completion_campaign_codec.py\<close>).
  The image is planned from archives that passed the preflight (\<^verbatim>\<open>remote/completion_archive_preflight.py\<close>),
  overlaid and changed by fixed transitions (\<^verbatim>\<open>remote/completion_rootfs_plan.py\<close>), and written as one
  ustar stream (\<^verbatim>\<open>remote/completion_rootfs_canonical.py\<close>). ELF metadata
  (\<^verbatim>\<open>remote/completion_elf.py\<close>) decides which host libraries belong to a runtime, and
  \<^verbatim>\<open>remote/completion_kata_fdmap.py\<close> gives children exactly the descriptors bound for them.

  \<^bold>\<open>Foundations.\<close> \<open>Prelude\<close>: Python strings and bytes as lists of numbers, one exception datatype, results
  \<open>exn + 'a\<close> with \<open>require\<close> and \<open>rbind\<close>. \<open>Effects\<close>: stateful code as \<open>'s \<Rightarrow> 'a result \<times> 's\<close>, where what was
  changed before an exception stays changed; the locale \<open>effect_order\<close> lifts a reflexive and transitive
  relation over every combinator and is interpreted for each relation the theorems use (growing logs,
  silent file access, spent bindings and others). \<open>Json\<close>: \<^verbatim>\<open>json.dumps\<close> and the scanner behind
  \<^verbatim>\<open>json.loads\<close>, with the locale \<open>json_hooks\<close>. \<open>PyBytes\<close>: slices, splitting, octal numbers.

  \<^bold>\<open>Campaign.\<close> \<open>CampaignCodec\<close>, \<open>CampaignContracts\<close>, \<open>CampaignState\<close> follow the modules of those names definition
  by definition. \<open>CampaignRuns\<close> states the reducer's contract as an abstract phase machine, an inductive
  step relation; \<open>CampaignSafety\<close> proves that the reducer accepts exactly the runs of that machine and
  derives the safety properties from it; \<open>CampaignEncoding\<close> holds the round trips of documents and
  records. \<open>CampaignEvidence\<close> and \<open>EvidenceSafety\<close>: issuer, registries and custody chain, with object
  identity as a number per issued receipt. \<open>CampaignController\<close>, \<open>ControllerRuns\<close>, \<open>ControllerSafety\<close>: ports
  with injected faults and the controller; its two loops run with \<open>CONTROLLER_FUEL\<close> = 106 turns, which
  \<open>controller_terminates\<close> shows to be enough because an accepted log has at most 104 records; what holds between two
  publications is stated over any sequence of calls of the ports and the controller (\<open>after_calls\<close>).
  \<open>CampaignStore\<close> and \<open>StoreSafety\<close>: the file custody over a directory that other processes change and whose
  calls fail at will; its read and write loops are bounded by the bytes still missing. \<open>Samples\<close> holds the
  concrete campaigns the witnesses use.

  \<^bold>\<open>Image.\<close> \<open>ArchivePreflight\<close> and \<open>ArchiveSemantics\<close>: framing and meaning of ar, tar, pax and GNU members. The
  decoders of zlib and lzma, \<^verbatim>\<open>tarfile\<close>, Unicode normalisation and SHA-256 are parameters; the inner loop
  of decompression may not end for an arbitrary decoder and is a \<open>partial_function (option)\<close>. \<open>RootfsPlan\<close>: overlay,
  graph check, transitions, account files. \<open>RootfsCanonical\<close>: manifest, headers and the stream, with short
  writes. \<open>UstarHeaders\<close>, \<open>UstarStream\<close>, \<open>ArchiveInvariants\<close>, \<open>PlanInvariants\<close> are the lemmas, \<open>RootfsSafety\<close> the
  properties: what is written reads back, archives and plans are sound, transitions do what they say. A link of a sound archive leads
  where the walk of its text ends (\<open>walks\<close>, an inductive relation with no step above the root).

  \<^bold>\<open>Artifacts.\<close> \<^verbatim>\<open>remote/verify-completion-artifacts.py\<close> decides which downloaded files the image is built from.
  \<open>ArtifactContract\<close>: strict JSON, URLs and the contract with its pinned constants; \<open>ArtifactSafety\<close> proves that
  there is one accepted contract up to integers written as floats, and that it is accepted. \<open>ArtifactMetadata\<close> and
  \<open>MetadataSafety\<close>: image documents, the clear-signed release file and the package index, with the exact form of what is
  accepted and the round trip of stanzas; \<open>PackageIndex\<close> compares the expansion and the stanzas of the index with references of
  their own, inductive relations on chunks and on lines. \<open>ArtifactCache\<close>: the files of the cache, read from directories
  that other processes change. \<open>CacheReads\<close> ties what a read returns to what was in the file during its calls, and \<open>CacheSafety\<close>
  proves of which files the documents were that were verified. The read loops take one turn more than
  the bytes they may read, which the fuel lemmas show to be enough. \<^verbatim>\<open>json.loads\<close>, \<^verbatim>\<open>base64\<close> and the decoders are parameters.

  \<^bold>\<open>Runtime.\<close> \<open>Elf\<close> and \<open>ElfSafety\<close>: the bounded parser, on unbounded integers as in the source, and what its
  result guarantees. \<open>Fdmap\<close> and \<open>FdmapSafety\<close>: the descriptor table of a process over changing kernel objects;
  installation and relocation refine functions on the table, and bindings are used once.

  \<^bold>\<open>Runtime closure.\<close> \<open>RuntimeClosure\<close> models \<^verbatim>\<open>remote/completion_runtime_closure.py\<close>: its reader of ELF files, the resolution of paths of
  the plan through links (at most 65 turns, as in the source), the search for libraries and the worklist, which is a partial
  function because nothing in the code bounds it. \<open>ClosureSafety\<close> proves that it ends on every plan and that its result is the least closed set;
  \<open>ElfAgreement\<close> that this reader raises nothing but its own error and never disagrees with the parser of \<open>Elf\<close>.

  \<^bold>\<open>Network journal.\<close> The records that a network of a cycle leaves behind while it is set up, observed, quarantined and
  removed are replayed from the operation ledger by \<^verbatim>\<open>remote/completion_kata_network_journal.py\<close>. \<open>NetworkJournal\<close>: values,
  constants, command traces and cleanup brackets; \<open>NetworkRecords\<close>: the validation of a record and its proof;
  \<open>NetworkCommands\<close>: the closed table of commands of \<^verbatim>\<open>remote/completion_kata_network.py\<close>; \<open>NetworkReplay\<close>: the state and its
  transitions. What the replay recomputes in that module from observed bytes is a parameter, \<open>net_lib\<close>. \<open>JournalSafety\<close>
  proves, with the locale \<open>replay_invariant\<close>, one invariant for each part of the state over every replay of validated
  records and commands; \<open>JournalChain\<close> that the proofs of effects form a hash chain over an injective encoding;
  \<open>JournalProperties\<close> states the properties and replays a sample journal; \<open>CleanupBrackets\<close> shows that the writers of brackets
  and the replay agree.

  \<^bold>\<open>Network observations.\<close> \<open>NetworkSnapshots\<close> and \<open>NetworkTraffic\<close> model how \<^verbatim>\<open>remote/completion_kata_network.py\<close> reads
  links, queueing disciplines and filters from the JSON of the tools (\<^verbatim>\<open>_load\<close> is a parameter) and the difference between the
  states before and after the runtime joined; \<open>NetworkRecovery\<close> models the recovery decisions over durable identities and the
  causal proof over firewall counters; \<open>NetworkFirewall\<close> the reading of the firewall. \<open>TrafficSafety\<close> states the contract of a recovery as the locale \<open>recovery_contract\<close>,
  interpreted for the namespace, traffic control and the firewall, and proves what acceptance says of the observed network.
  \<open>FirewallSafety\<close> shows that the pinned firewall is accepted with any distinct handles between 1 and \<open>2 ^ 31 - 1\<close> and any counts of 64
  bits, and when a causal proof exists; \<open>FirewallListing\<close> what an accepted listing says row by row, before it is normalised. As in the source,
  an expression with a counter is compared by its counter alone.

  \<^bold>\<open>Conventions.\<close> Arguments whose Python type the source checks are typed in the model, so those checks have
  no counterpart. Objects that a Python program compares with \<^verbatim>\<open>is\<close> carry a number. Definitions keep the
  source's names, without a leading underscore and with a suffix where HOL has the name. Two definitions are shorter than the
  code and give the same: the digest and the length of the ustar stream are taken of the bytes written, where the writer updates them
  with each block; and a write appends to the file, which the same publication created and writes through one descriptor only.
  The text of a descriptor's \<^verbatim>\<open>fdinfo\<close> is decoded as a whole before its first 4096 characters are taken, so a byte that is not ASCII is
  refused wherever it stands.

  \<^bold>\<open>Not modelled.\<close> The AWS, Terraform and SSH adapters, the Kata network, process, operation and runtime
  drivers, the trusted launcher, the rootfs builder with its leases and ledgers, and the scripts: they are
  sequences of calls to external programs and kernel interfaces. The TypeScript product is outside the
  Python campaign. The acquisition of the artifacts over TLS is left out. Of the modelled modules, the parts that read packages for the image
  (\<^verbatim>\<open>_read_fixed_package\<close>, \<^verbatim>\<open>_load_fixed_build_inputs\<close>) and the held-descriptor walk of the canonical writer
  are left out; the latter is a parameter that returns the bytes of a path.
\<close>

end
